(* ===== verification/Py_Base.thy ===== *)
theory Py_Base
  imports Complex_Main "HOL-Library.Char_ord" "HOL-Library.List_Lexorder"
    "HOL-Library.Product_Lexorder" "HOL-Library.Multiset"
begin

text \<open>
  The part of Python that every component shares: exceptions as values, sequencing of
  fallible computations, dynamically typed values, strings as UTF-8 byte lists,
  dictionaries in insertion order, and lexicographic sorting.  Nothing here models code
  of the repository; the component theories are built from these definitions.
\<close>

named_theorems result_simps \<open>equations that sequence fallible computations\<close>

named_theorems record_frame \<open>fields an operation leaves unchanged\<close>

section \<open>Exceptions and fallible computations\<close>

text \<open>
  One constructor per exception class the modelled code raises, carrying the message.
  \<open>OverflowError\<close> is what \<open>datetime\<close> arithmetic raises outside the years 1 to 9999.
\<close>

datatype pyexc =
    ValueError string
  | TypeError string
  | KeyError string
  | OverflowError string
  | RuntimeError string
  | RecoveryPlannerError string
  | RecoveryDispatchError string
  | RecoveryAdmissionError string
  | AirflowSnapshotError string
  | RecoveryLeaseError string
  | LeaseLostError string
  | CollectionSlotActivationError string
  | ReceiptConflictError string
  | MaterializationError string
  | DueSlotReconciliationError string
  | WeatherCollectionSlotError string
  | RecoveryCandidateEvidenceError string
  | KmaCoordinationConfigurationError string
  | KmaAttemptLedgerConfigurationError string
  | KmaDailyAttemptLimitExceeded string
  | CycleDeadlineConfigurationError string
  | CycleDeadlineExceeded string
  | ContractError string
  | ClaimError string
  | OpsContractError string
  | FileNotFoundError string
  | ClientError string
  | SqliteError string
  | AttributeError string
  | NotImplementedError string
  | AssertionError string
  | WeatherBronzeConfigurationError string
  | WeatherInvalidWindowError string
  | WeatherSourceSchemaError string
  | WeatherSourceBusinessError string
  | WeatherCompletenessError string
  | WeatherRawIntegrityError string
  | OSError string
  | KmaObservationThrottleError string
  | KmaObservationDailyQuotaExhausted string
  | KmaObservationAuthenticationError string
  | KmaObservationUnknownResultError string
  | KmaObservationHttpError int
  | KmaObservationTransportError string
  | KmaThrottleCircuitOpen string
  | StageFailure string
  | MainDeploymentError string
  | YamlError string

type_synonym 'a result = "pyexc + 'a"

text \<open>The exception classes of the list that derive from \<open>ValueError\<close>.\<close>

fun is_value_error :: "pyexc \<Rightarrow> bool" where
  "is_value_error (ValueError _) = True"
| "is_value_error (RecoveryPlannerError _) = True"
| "is_value_error (RecoveryDispatchError _) = True"
| "is_value_error (RecoveryAdmissionError _) = True"
| "is_value_error (AirflowSnapshotError _) = True"
| "is_value_error (RecoveryLeaseError _) = True"
| "is_value_error (LeaseLostError _) = True"
| "is_value_error (CollectionSlotActivationError _) = True"
| "is_value_error (ReceiptConflictError _) = True"
| "is_value_error (MaterializationError _) = True"
| "is_value_error (DueSlotReconciliationError _) = True"
| "is_value_error (WeatherCollectionSlotError _) = True"
| "is_value_error (RecoveryCandidateEvidenceError _) = True"
| "is_value_error (ContractError _) = True"
| "is_value_error (ClaimError _) = True"
| "is_value_error (OpsContractError _) = True"
| "is_value_error (WeatherInvalidWindowError _) = True"
| "is_value_error _ = False"

fun is_type_error :: "pyexc \<Rightarrow> bool" where
  "is_type_error (TypeError _) = True"
| "is_type_error _ = False"

fun is_key_error :: "pyexc \<Rightarrow> bool" where
  "is_key_error (KeyError _) = True"
| "is_key_error _ = False"

definition bind_result :: "'a result \<Rightarrow> ('a \<Rightarrow> 'b result) \<Rightarrow> 'b result" where
  "bind_result m f = (case m of Inl e \<Rightarrow> Inl e | Inr x \<Rightarrow> f x)"

text \<open>\<open>if not c: raise e\<close>, as a computation without a value.\<close>

definition require :: "bool \<Rightarrow> pyexc \<Rightarrow> unit result" where
  "require c e = (if c then Inr () else Inl e)"

text \<open>\<open>try: m except p as exc: h(exc)\<close>, where \<open>p\<close> is the set of caught exceptions.\<close>

definition try_except ::
  "'a result \<Rightarrow> (pyexc \<Rightarrow> bool) \<Rightarrow> (pyexc \<Rightarrow> 'a result) \<Rightarrow> 'a result" where
  "try_except m p h = (case m of Inl e \<Rightarrow> if p e then h e else Inl e | Inr x \<Rightarrow> Inr x)"

text \<open>A \<open>for\<close> loop that builds a list and stops at the first exception.\<close>

fun traverse :: "('a \<Rightarrow> 'b result) \<Rightarrow> 'a list \<Rightarrow> 'b list result" where
  "traverse f [] = Inr []"
| "traverse f (x # xs) =
     (case f x of Inl e \<Rightarrow> Inl e
      | Inr y \<Rightarrow> (case traverse f xs of Inl e \<Rightarrow> Inl e | Inr ys \<Rightarrow> Inr (y # ys)))"

text \<open>A \<open>for\<close> loop over a state that stops at the first exception.\<close>

fun fold_result :: "('a \<Rightarrow> 's \<Rightarrow> 's result) \<Rightarrow> 'a list \<Rightarrow> 's \<Rightarrow> 's result" where
  "fold_result f [] s = Inr s"
| "fold_result f (x # xs) s = (case f x s of Inl e \<Rightarrow> Inl e | Inr s' \<Rightarrow> fold_result f xs s')"

lemma bind_result_simps [simp, result_simps]:
  "bind_result (Inl e) f = Inl e"
  "bind_result (Inr x) f = f x"
  by (simp_all add: bind_result_def)

lemma bind_result_Inr_iff [result_simps]:
  "bind_result m f = Inr y \<longleftrightarrow> (\<exists>x. m = Inr x \<and> f x = Inr y)"
  by (cases m) auto

lemma bind_result_Inl_iff [result_simps]:
  "bind_result m f = Inl e \<longleftrightarrow> m = Inl e \<or> (\<exists>x. m = Inr x \<and> f x = Inl e)"
  by (cases m) auto

lemma bind_result_cong [fundef_cong]:
  "m = m' \<Longrightarrow> (\<And>x. m' = Inr x \<Longrightarrow> f x = f' x) \<Longrightarrow> bind_result m f = bind_result m' f'"
  by (cases m') auto

lemma require_Inr_iff [simp, result_simps]: "require c e = Inr u \<longleftrightarrow> c"
  by (simp add: require_def)

lemma require_Inl_iff [result_simps]: "require c e = Inl e' \<longleftrightarrow> \<not> c \<and> e = e'"
  by (auto simp: require_def)

lemma require_simps [simp]: "require True e = Inr ()" "require False e = Inl e"
  by (simp_all add: require_def)

lemma try_except_Inr_iff:
  "try_except m p h = Inr x \<longleftrightarrow> m = Inr x \<or> (\<exists>e. m = Inl e \<and> p e \<and> h e = Inr x)"
  by (auto simp: try_except_def split: sum.splits)

lemma try_except_simps [simp]:
  "try_except (Inr x) p h = Inr x"
  "p e \<Longrightarrow> try_except (Inl e) p h = h e"
  "\<not> p e \<Longrightarrow> try_except (Inl e) p h = Inl e"
  by (simp_all add: try_except_def)

lemma traverse_Inr_iff:
  "traverse f xs = Inr ys \<longleftrightarrow> list_all2 (\<lambda>x y. f x = Inr y) xs ys"
proof (induction xs arbitrary: ys)
  case Nil
  show ?case by auto
next
  case (Cons x xs)
  show ?case
  proof (cases ys)
    case Nil
    then show ?thesis by (auto split: sum.splits)
  next
    case ys: (Cons y ys')
    then have "traverse f (x # xs) = Inr ys \<longleftrightarrow> f x = Inr y \<and> traverse f xs = Inr ys'"
      by (auto split: sum.splits)
    with ys show ?thesis by (simp add: Cons.IH)
  qed
qed

lemma traverse_length: "traverse f xs = Inr ys \<Longrightarrow> length ys = length xs"
  by (auto simp: traverse_Inr_iff dest: list_all2_lengthD)

lemma traverse_total:
  "(\<And>x. x \<in> set xs \<Longrightarrow> f x = Inr (g x)) \<Longrightarrow> traverse f xs = Inr (map g xs)"
  by (induction xs) auto

lemma traverse_set:
  "traverse f xs = Inr ys \<Longrightarrow> y \<in> set ys \<Longrightarrow> \<exists>x\<in>set xs. f x = Inr y"
  by (induction xs arbitrary: ys) (auto split: sum.splits)

lemma traverse_map_inverse:
  "traverse f xs = Inr ys \<Longrightarrow> (\<And>x y. f x = Inr y \<Longrightarrow> g y = h x) \<Longrightarrow> map g ys = map h xs"
  by (induction xs arbitrary: ys) (auto split: sum.splits)

lemma traverse_mset:
  assumes "mset xs = mset ys" and "traverse f xs = Inr us"
  shows "\<exists>vs. traverse f ys = Inr vs \<and> mset vs = mset us"
proof -
  from assms(2) have all: "\<And>x. x \<in> set xs \<Longrightarrow> f x = Inr (projr (f x))" and us: "us = map (\<lambda>x. projr (f x)) xs"
    by (induction xs arbitrary: us) (auto split: sum.splits)
  have "set ys = set xs" using assms(1) by (metis set_mset_mset)
  with all have "traverse f ys = Inr (map (\<lambda>x. projr (f x)) ys)" by (intro traverse_total) auto
  then show ?thesis using us assms(1) by simp
qed

lemma fold_result_append:
  "fold_result f (xs @ ys) s = bind_result (fold_result f xs s) (fold_result f ys)"
  by (induction xs arbitrary: s) (auto split: sum.splits)

text \<open>A loop keeps what each of its steps keeps.\<close>

lemma fold_result_invariant:
  assumes "fold_result f xs s = Inr s'" and "P s"
    and "\<And>x s s'. x \<in> set xs \<Longrightarrow> P s \<Longrightarrow> f x s = Inr s' \<Longrightarrow> P s'"
  shows "P s'"
  using assms
proof (induction xs arbitrary: s)
  case Nil
  then show ?case by simp
next
  case (Cons x xs)
  from Cons.prems(1) obtain t where t: "f x s = Inr t" "fold_result f xs t = Inr s'"
    by (auto split: sum.splits)
  from Cons.prems(3) [OF _ Cons.prems(2) t(1)] have "P t" by simp
  with t(2) show ?case
    by (rule Cons.IH) (use Cons.prems(3) in auto)
qed

section \<open>Steps that may fail\<close>

text \<open>A step on a state returns its result, or the exception, with the state it leaves.\<close>

definition and_then :: "'a result \<times> 's \<Rightarrow> ('a \<Rightarrow> 's \<Rightarrow> 'b result \<times> 's) \<Rightarrow> 'b result \<times> 's" where
  "and_then m f = (case m of (Inl e, s) \<Rightarrow> (Inl e, s) | (Inr x, s) \<Rightarrow> f x s)"

lemma and_then_simps [simp]: "and_then (Inl e, s) f = (Inl e, s)" "and_then (Inr x, s) f = f x s"
  by (simp_all add: and_then_def)

lemma and_then_Inr_iff [result_simps]:
  "and_then m f = (Inr y, t) \<longleftrightarrow> (\<exists>x s. m = (Inr x, s) \<and> f x s = (Inr y, t))"
  by (cases m; cases "fst m") auto

lemma and_then_cong [fundef_cong]:
  "m = m' \<Longrightarrow> (\<And>x s. m' = (Inr x, s) \<Longrightarrow> f x s = f' x s) \<Longrightarrow> and_then m f = and_then m' f'"
  by (cases m'; cases "fst m'") auto

text \<open>What every step keeps, the sequence keeps.\<close>

lemma and_then_keeps:
  assumes "and_then m f = (r, t)" and "R (snd m)" and "\<And>x s r t. R s \<Longrightarrow> f x s = (r, t) \<Longrightarrow> R t"
  shows "R t"
  using assms by (cases m; cases "fst m") auto

section \<open>Dynamically typed values\<close>

text \<open>
  A \<open>datetime\<close> is naive or aware.  It is kept as microseconds since 0001-01-01T00:00:00,
  of the local wall clock when it is naive and of UTC when it is aware: comparison,
  subtraction and \<open>astimezone\<close> of an aware value depend on its instant only.
\<close>

datatype pydatetime = Naive int | Aware int

text \<open>Finite floats are rationals; a decimal rendering of them is never computed here.\<close>

datatype pyfloat = Finite rat | PosInf | NegInf | NaN

text \<open>
  The values the code inspects with \<open>isinstance\<close>.  \<open>POther\<close> stands for any value of a
  type the code never asks for.  A dictionary with string keys keeps its insertion order.
\<close>

datatype pyobj =
    PNone
  | PBool bool
  | PInt int
  | PFloat pyfloat
  | PStr string
  | PList "pyobj list"
  | PDict "(string \<times> pyobj) list"
  | PTime pydatetime
  | PDelta int
  | POther nat

text \<open>
  Functions of the standard library that only their documented behaviour matters of:
  SHA-256 in hexadecimal, \<open>datetime.fromisoformat\<close> (\<open>None\<close> where it raises
  \<open>ValueError\<close>), the offset of the zone \<open>Asia/Seoul\<close> at a UTC instant and at a wall-clock
  time of the zone, the shortest decimal rendering of a finite float, \<open>json.loads\<close> (\<open>None\<close>
  where it raises \<open>JSONDecodeError\<close>), and \<open>str\<close> of a value that is not text, a number, a
  boolean or \<open>None\<close>.
\<close>

record pylib =
  sha256_hex :: "string \<Rightarrow> string"
  seoul_offset :: "int \<Rightarrow> int"
  seoul_wall_offset :: "int \<Rightarrow> int"
  fromisoformat :: "string \<Rightarrow> pydatetime option"
  float_repr :: "rat \<Rightarrow> string"
  json_loads :: "string \<Rightarrow> pyobj option"
  str_of_object :: "pyobj \<Rightarrow> string"

fun py_num :: "pyobj \<Rightarrow> rat option" where
  "py_num (PBool b) = Some (if b then 1 else 0)"
| "py_num (PInt i) = Some (of_int i)"
| "py_num (PFloat (Finite r)) = Some r"
| "py_num _ = None"

text \<open>Python's \<open>==\<close>: booleans, integers and floats compare as numbers.\<close>

definition py_eq :: "pyobj \<Rightarrow> pyobj \<Rightarrow> bool" where
  "py_eq x y = (case (py_num x, py_num y) of (Some a, Some b) \<Rightarrow> a = b | _ \<Rightarrow> x = y)"

fun py_distinct :: "pyobj list \<Rightarrow> bool" where
  "py_distinct [] = True"
| "py_distinct (x # xs) = ((\<not> list_ex (py_eq x) xs) \<and> py_distinct xs)"

text \<open>The values that count as false in \<open>value or default\<close> and \<open>if value\<close>.\<close>

fun falsy :: "pyobj \<Rightarrow> bool" where
  "falsy PNone = True"
| "falsy (PBool b) = (\<not> b)"
| "falsy (PInt i) = (i = 0)"
| "falsy (PFloat (Finite q)) = (q = 0)"
| "falsy (PStr s) = (s = [])"
| "falsy (PList xs) = (xs = [])"
| "falsy (PDict d) = (d = [])"
| "falsy (PDelta d) = (d = 0)"
| "falsy _ = False"

text \<open>Values that cannot be an element of a set or a key of a dictionary.\<close>

fun unhashable :: "pyobj \<Rightarrow> bool" where
  "unhashable (PList _) = True"
| "unhashable (PDict _) = True"
| "unhashable _ = False"

fun opt_obj :: "string option \<Rightarrow> pyobj" where
  "opt_obj None = PNone"
| "opt_obj (Some s) = PStr s"

fun opt_int :: "int option \<Rightarrow> pyobj" where
  "opt_int None = PNone"
| "opt_int (Some i) = PInt i"

lemma py_eq_refl [simp]: "py_eq x x"
  by (auto simp: py_eq_def split: option.splits)

lemma py_eq_PStr [simp]: "py_eq (PStr a) (PStr b) \<longleftrightarrow> a = b"
  by (simp add: py_eq_def)

lemma py_distinct_PStr [simp]: "py_distinct (map PStr xs) \<longleftrightarrow> distinct xs"
  by (induction xs) (auto simp: list_ex_iff)

section \<open>Dictionaries\<close>

text \<open>
  \<open>d[k] = v\<close> overwrites in place or appends; \<open>d.get(k)\<close> is \<open>map_of\<close>.
\<close>

type_synonym 'v pydict = "(string \<times> 'v) list"

fun dict_set :: "'k \<Rightarrow> 'v \<Rightarrow> ('k \<times> 'v) list \<Rightarrow> ('k \<times> 'v) list" where
  "dict_set k v [] = [(k, v)]"
| "dict_set k v ((k', v') # d) = (if k = k' then (k, v) # d else (k', v') # dict_set k v d)"

definition dict_get :: "string \<Rightarrow> pyobj pydict \<Rightarrow> pyobj" where
  "dict_get k d = (case map_of d k of None \<Rightarrow> PNone | Some v \<Rightarrow> v)"

definition dict_wf :: "('k \<times> 'v) list \<Rightarrow> bool" where
  "dict_wf d \<longleftrightarrow> distinct (map fst d)"

lemma map_of_dict_set [simp]: "map_of (dict_set k v d) = (map_of d)(k \<mapsto> v)"
  by (induction d) (auto simp: fun_eq_iff)

lemma fst_dict_set [simp]: "fst ` set (dict_set k v d) = insert k (fst ` set d)"
  by (induction k v d rule: dict_set.induct) (auto simp: insert_commute)

lemma keys_dict_set:
  "map fst (dict_set k v d) = (if k \<in> fst ` set d then map fst d else map fst d @ [k])"
  by (induction k v d rule: dict_set.induct) (auto split: if_splits)

lemma dict_wf_dict_set [intro]: "dict_wf d \<Longrightarrow> dict_wf (dict_set k v d)"
  by (auto simp: dict_wf_def keys_dict_set)

lemma dict_wf_Nil [simp]: "dict_wf []"
  by (simp add: dict_wf_def)

lemma dict_get_simps [simp]:
  "dict_get k [] = PNone"
  "dict_get k ((k', v) # d) = (if k = k' then v else dict_get k d)"
  by (auto simp: dict_get_def)

lemma dict_set_fresh: "k \<notin> fst ` set d \<Longrightarrow> dict_set k v d = d @ [(k, v)]"
  by (induction d) auto

section \<open>Strings\<close>

text \<open>
  A string is the list of its UTF-8 bytes: the code's ordering of strings (by code point)
  is the ordering of the bytes, and the code hashes the UTF-8 encoding.
\<close>

definition char_in :: "string \<Rightarrow> char \<Rightarrow> bool" where
  "char_in s c \<longleftrightarrow> c \<in> set s"

definition alnum :: string where
  "alnum = ''abcdefghijklmnopqrstuvwxyzABCDEFGHIJKLMNOPQRSTUVWXYZ0123456789''"

text \<open>\<open>^[A-Za-z0-9][extra]{0,n}$\<close> under \<open>fullmatch\<close>.\<close>

definition safe_pattern :: "string \<Rightarrow> nat \<Rightarrow> string \<Rightarrow> bool" where
  "safe_pattern extra n s =
     (case s of [] \<Rightarrow> False
      | c # cs \<Rightarrow> char_in alnum c \<and> list_all (\<lambda>d. char_in alnum d \<or> char_in extra d) cs
                   \<and> length cs \<le> n)"

text \<open>
  \<open>s.strip()\<close> is empty: every code point is white space (the ASCII ones and the
  multi-byte ones of the Unicode table that \<open>str.isspace\<close> uses).
\<close>

definition ascii_space :: "char \<Rightarrow> bool" where
  "ascii_space c \<longleftrightarrow> (let n = of_char c :: nat in (9 \<le> n \<and> n \<le> 13) \<or> (28 \<le> n \<and> n \<le> 32))"

fun wide_space2 :: "nat \<Rightarrow> nat \<Rightarrow> bool" where
  "wide_space2 a b \<longleftrightarrow> a = 194 \<and> (b = 133 \<or> b = 160)"

fun wide_space3 :: "nat \<Rightarrow> nat \<Rightarrow> nat \<Rightarrow> bool" where
  "wide_space3 a b c \<longleftrightarrow>
     (a = 225 \<and> b = 154 \<and> c = 128)
   \<or> (a = 226 \<and> b = 128 \<and> ((128 \<le> c \<and> c \<le> 138) \<or> c = 168 \<or> c = 169 \<or> c = 175))
   \<or> (a = 226 \<and> b = 129 \<and> c = 159)
   \<or> (a = 227 \<and> b = 128 \<and> c = 128)"

fun is_blank :: "string \<Rightarrow> bool" where
  "is_blank [] = True"
| "is_blank [a] = ascii_space a"
| "is_blank [a, b] =
     (if ascii_space a then ascii_space b else wide_space2 (of_char a) (of_char b))"
| "is_blank (a # b # c # s) =
     (if ascii_space a then is_blank (b # c # s)
      else if wide_space2 (of_char a) (of_char b) then is_blank (c # s)
      else if wide_space3 (of_char a) (of_char b) (of_char c) then is_blank s
      else False)"

declare is_blank.simps [simp del]

text \<open>\<open>len(s)\<close> counts code points: the bytes that are not continuation bytes.\<close>

definition py_len :: "string \<Rightarrow> nat" where
  "py_len s = length (filter (\<lambda>c. \<not> (128 \<le> (of_char c :: nat) \<and> (of_char c :: nat) < 192)) s)"

text \<open>\<open>sep.join(parts)\<close>, \<open>s.replace("Z", "+00:00")\<close>, \<open>sub in s\<close>, \<open>s.lower()\<close>
  (on ASCII letters), \<open>s.startswith(p)\<close> and \<open>s.endswith(p)\<close>.\<close>

fun str_join :: "string \<Rightarrow> string list \<Rightarrow> string" where
  "str_join sep [] = []"
| "str_join sep [s] = s"
| "str_join sep (s # t # ts) = s @ sep @ str_join sep (t # ts)"

definition replace_Z :: "string \<Rightarrow> string" where
  "replace_Z s = concat (map (\<lambda>c. if c = CHR ''Z'' then ''+00:00'' else [c]) s)"

fun is_prefix :: "string \<Rightarrow> string \<Rightarrow> bool" where
  "is_prefix [] s = True"
| "is_prefix (c # cs) [] = False"
| "is_prefix (c # cs) (d # ds) = (c = d \<and> is_prefix cs ds)"

definition is_suffix :: "string \<Rightarrow> string \<Rightarrow> bool" where
  "is_suffix p s = is_prefix (rev p) (rev s)"

fun is_infix :: "string \<Rightarrow> string \<Rightarrow> bool" where
  "is_infix p [] = is_prefix p []"
| "is_infix p (c # cs) = (is_prefix p (c # cs) \<or> is_infix p cs)"

definition lower_char :: "char \<Rightarrow> char" where
  "lower_char c =
     (let n = of_char c :: nat in if 65 \<le> n \<and> n \<le> 90 then char_of (n + 32) else c)"

definition str_lower :: "string \<Rightarrow> string" where
  "str_lower s = map lower_char s"

text \<open>
  The first code point of a UTF-8 string and the rest, and \<open>\\d\<close> in a pattern: a decimal
  digit of any script (each of them has its ten digits in a row, from the listed zero on).
\<close>

definition follow_byte :: "nat \<Rightarrow> bool" where
  "follow_byte b \<longleftrightarrow> 128 \<le> b \<and> b < 192"

definition utf8_head :: "string \<Rightarrow> (nat \<times> string) option" where
  "utf8_head s = (case map of_char s of
     [] \<Rightarrow> None
   | a # r \<Rightarrow>
       if a < 128 then Some (a, drop 1 s)
       else if a < 192 then None
       else if a < 224 then (case r of b # _ \<Rightarrow>
         if follow_byte b then Some ((a - 192) * 64 + (b - 128), drop 2 s) else None | _ \<Rightarrow> None)
       else if a < 240 then (case r of b # c # _ \<Rightarrow>
         if follow_byte b \<and> follow_byte c
         then Some ((a - 224) * 4096 + (b - 128) * 64 + (c - 128), drop 3 s) else None | _ \<Rightarrow> None)
       else (case r of b # c # d # _ \<Rightarrow>
         if follow_byte b \<and> follow_byte c \<and> follow_byte d
         then Some ((a - 240) * 262144 + (b - 128) * 4096 + (c - 128) * 64 + (d - 128), drop 4 s) else None
       | _ \<Rightarrow> None))"

definition digit_zeros :: "nat list" where
  "digit_zeros = [
48, 1632, 1776, 1984, 2406, 2534, 2662, 2790, 2918, 3046, 3174, 3302, 3430, 3558, 3664,
      3792, 3872, 4160, 4240, 6112, 6160, 6470, 6608, 6784, 6800, 6992, 7088, 7232, 7248,
      42528, 43216, 43264, 43472, 43504, 43600, 44016, 65296, 66720, 68912, 69734, 69872,
      69942, 70096, 70384, 70736, 70864, 71248, 71360, 71472, 71904, 72016, 72784, 73040,
      73120, 92768, 92864, 93008, 120782, 120792, 120802, 120812, 120822, 123200, 123632,
      125264, 130032]"

definition decimal_point :: "nat \<Rightarrow> bool" where
  "decimal_point n = list_ex (\<lambda>z. z \<le> n \<and> n < z + 10) digit_zeros"

fun re_digits :: "nat \<Rightarrow> string \<Rightarrow> string option" where
  "re_digits 0 s = Some s"
| "re_digits (Suc k) s = (case utf8_head s of
     Some (n, r) \<Rightarrow> if decimal_point n then re_digits k r else None
   | None \<Rightarrow> None)"

definition re_char :: "char \<Rightarrow> string \<Rightarrow> string option" where
  "re_char c s = (case s of [] \<Rightarrow> None | d # ds \<Rightarrow> if d = c then Some ds else None)"

text \<open>Digits contain no ASCII character but the ASCII digits.\<close>

lemma re_digits_chars:
  assumes "re_digits k s = Some r" "c \<in> set s" "(of_char c :: nat) < 48"
  shows "c \<in> set r"
  using assms(1,2)
proof (induction k arbitrary: s)
  case (Suc k)
  then obtain n t where h: "utf8_head s = Some (n, t)" "decimal_point n" "re_digits k t = Some r"
    by (auto split: option.splits if_splits)
  have "48 \<le> n" using h(2) by (auto simp: decimal_point_def digit_zeros_def)
  with h(1) Suc.prems(2) assms(3) have "c \<in> set t"
    by (cases s rule: list.exhaust; cases "tl s" rule: list.exhaust; cases "tl (tl s)" rule: list.exhaust;
        cases "tl (tl (tl s))" rule: list.exhaust)
      (auto simp: utf8_head_def follow_byte_def split: if_splits)
  with Suc.IH h(3) show ?case by blast
qed simp

lemma re_char_chars: "re_char d s = Some r \<Longrightarrow> c \<in> set s \<Longrightarrow> c \<noteq> d \<Longrightarrow> c \<in> set r"
  by (cases s) (auto simp: re_char_def split: if_splits)

lemma safe_pattern_nonempty: "safe_pattern extra n s \<Longrightarrow> s \<noteq> []"
  by (auto simp: safe_pattern_def)

lemma safe_pattern_chars:
  "safe_pattern extra n s \<Longrightarrow> c \<in> set s \<Longrightarrow> c \<in> set alnum \<or> c \<in> set extra"
  by (cases s) (auto simp: safe_pattern_def char_in_def list_all_iff)

lemma is_prefix_iff: "is_prefix p s \<longleftrightarrow> (\<exists>t. s = p @ t)"
  by (induction p s rule: is_prefix.induct) auto

text \<open>Decimal digits of a natural number, most significant first, and \<open>str(i)\<close>.\<close>

definition digit_char :: "nat \<Rightarrow> char" where
  "digit_char n = char_of (n + 48)"

fun show_nat :: "nat \<Rightarrow> string" where
  "show_nat n = (if n < 10 then [digit_char n] else show_nat (n div 10) @ [digit_char (n mod 10)])"

declare show_nat.simps [simp del]

definition show_int :: "int \<Rightarrow> string" where
  "show_int i = (if i < 0 then CHR ''-'' # show_nat (nat (- i)) else show_nat (nat i))"

text \<open>Zero-padded decimal of a fixed width, as \<open>"%04d" % n\<close> prints small enough numbers.\<close>

fun pad_nat :: "nat \<Rightarrow> nat \<Rightarrow> string" where
  "pad_nat 0 n = []"
| "pad_nat (Suc k) n = digit_char (n div 10 ^ k mod 10) # pad_nat k n"

definition is_digit :: "char \<Rightarrow> bool" where
  "is_digit c \<longleftrightarrow> 48 \<le> (of_char c :: nat) \<and> (of_char c :: nat) \<le> 57"

definition digit_val :: "char \<Rightarrow> nat" where
  "digit_val c = of_char c - 48"

fun read_nat :: "nat \<Rightarrow> string \<Rightarrow> nat" where
  "read_nat acc [] = acc"
| "read_nat acc (c # cs) = read_nat (10 * acc + digit_val c) cs"

lemma of_digit_char [simp]: "n < 10 \<Longrightarrow> of_char (digit_char n) = n + 48"
  by (simp add: digit_char_def)

lemma is_digit_digit_char [simp]: "n < 10 \<Longrightarrow> is_digit (digit_char n)"
  by (simp add: is_digit_def)

lemma digit_val_digit_char [simp]: "n < 10 \<Longrightarrow> digit_val (digit_char n) = n"
  by (simp add: digit_val_def)

lemma digit_char_less_iff [simp]:
  "m < 10 \<Longrightarrow> n < 10 \<Longrightarrow> digit_char m < digit_char n \<longleftrightarrow> m < n"
  by (simp add: less_char_def)

lemma digit_char_eq_iff [simp]:
  "m < 10 \<Longrightarrow> n < 10 \<Longrightarrow> digit_char m = digit_char n \<longleftrightarrow> m = n"
  by (metis digit_val_digit_char)

lemma length_pad_nat [simp]: "length (pad_nat k n) = k"
  by (induction k) auto

lemma pad_nat_digits: "c \<in> set (pad_nat k n) \<Longrightarrow> is_digit c"
  by (induction k) auto

lemma read_nat_append: "read_nat acc (xs @ ys) = read_nat (read_nat acc xs) ys"
  by (induction xs arbitrary: acc) auto

lemma read_nat_show_nat: "read_nat 0 (show_nat n) = n"
proof (induction n rule: show_nat.induct)
  case (1 n)
  show ?case
  proof (cases "n < 10")
    case True
    then show ?thesis by (simp add: show_nat.simps [of n])
  next
    case False
    then have "read_nat 0 (show_nat n)
        = 10 * read_nat 0 (show_nat (n div 10)) + n mod 10"
      by (simp add: show_nat.simps [of n] read_nat_append)
    also have "\<dots> = 10 * (n div 10) + n mod 10"
      using "1.IH" [OF False] by simp
    finally show ?thesis by simp
  qed
qed

lemma show_nat_inj [simp]: "show_nat m = show_nat n \<longleftrightarrow> m = n"
  by (metis read_nat_show_nat)

lemma show_nat_digits: "c \<in> set (show_nat n) \<Longrightarrow> is_digit c"
proof (induction n rule: show_nat.induct)
  case (1 n)
  then show ?case
    by (subst (asm) show_nat.simps) (auto split: if_splits)
qed

lemma show_nat_nonempty [simp]: "show_nat n \<noteq> []"
  by (subst show_nat.simps) simp

lemma not_is_digit_minus [simp]: "\<not> is_digit CHR ''-''"
  by (simp add: is_digit_def)

lemma show_int_inj [simp]: "show_int i = show_int j \<longleftrightarrow> i = j"
proof -
  have minus: "CHR ''-'' # s \<noteq> show_nat n" for s n
    using show_nat_digits [of "CHR ''-''" n] by (metis list.set_intros(1) not_is_digit_minus)
  show ?thesis
    using minus by (auto simp: show_int_def nat_eq_iff dest: sym)
qed

section \<open>Lexicographic order and sorting\<close>

text \<open>
  \<open>sorted(xs, key=f)\<close> is \<open>sort_key f xs\<close> (both are stable); tuples of keys compare
  lexicographically, as do strings.
\<close>

lemma append_less_iff:
  "length xs = length xs' \<Longrightarrow>
     (xs @ ys < xs' @ ys') \<longleftrightarrow> xs < xs' \<or> (xs = xs' \<and> ys < (ys' :: 'a :: linorder list))"
  by (induction xs xs' rule: list_induct2) auto

text \<open>
  Sorting by a key that separates the elements does not depend on the order of the input.
\<close>

lemma sort_key_perm_eq:
  assumes "mset xs = mset ys" and "inj_on f (set xs)"
  shows "sort_key f xs = sort_key f ys"
  by (rule sort_key_inj_key_eq) (use assms in simp_all)

end
