(* ===== verification/Py_Time.thy ===== *)
theory Py_Time
  imports Py_Base "HOL-Library.Monad_Syntax"
begin

text \<open>
  The \<open>datetime\<close> module as the code uses it: UTC instants in microseconds, the proleptic
  Gregorian calendar, \<open>isoformat\<close> of UTC values, the Korean wall clock and
  \<open>fromisoformat\<close>.  The main result is that the ISO strings the code compares as strings
  are ordered as the instants they print (\<open>isoformat_less_iff\<close>), and that an instant
  survives printing and parsing (\<open>parse_iso_isoformat\<close>), which is the law of the interface
  \<open>iso_codec\<close> every component that parses timestamps relies on.
\<close>

section \<open>The calendar\<close>

definition us_per_second :: nat where "us_per_second = 1000000"
definition us_per_minute :: nat where "us_per_minute = 60000000"
definition us_per_hour :: nat where "us_per_hour = 3600000000"
definition us_per_day :: nat where "us_per_day = 86400000000"

definition seconds :: "int \<Rightarrow> int" where "seconds n = n * 1000000"
definition minutes :: "int \<Rightarrow> int" where "minutes n = n * 60000000"
definition hours :: "int \<Rightarrow> int" where "hours n = n * 3600000000"

text \<open>\<open>p\<close> is the year minus one; days are counted from 0001-01-01, which is day 0.\<close>

definition days_before :: "nat \<Rightarrow> nat" where
  "days_before p = 365 * p + p div 4 + p div 400 - p div 100"

definition is_leap :: "nat \<Rightarrow> bool" where
  "is_leap y \<longleftrightarrow> y mod 4 = 0 \<and> (y mod 100 \<noteq> 0 \<or> y mod 400 = 0)"

definition month_lengths :: "bool \<Rightarrow> nat list" where
  "month_lengths leap = [31, if leap then 29 else 28, 31, 30, 31, 30, 31, 31, 30, 31, 30, 31]"

fun month_day :: "nat list \<Rightarrow> nat \<Rightarrow> nat \<Rightarrow> nat \<times> nat" where
  "month_day [] m r = (m, r + 1)"
| "month_day (l # ls) m r = (if r < l then (m, r + 1) else month_day ls (m + 1) (r - l))"

text \<open>The year (minus one) and the day of the year of a day number.\<close>

definition year_day :: "nat \<Rightarrow> nat \<times> nat" where
  "year_day n =
     (let a = n div 146097; n1 = n mod 146097;
          b = min 3 (n1 div 36524); n2 = n1 - b * 36524;
          c = n2 div 1461; n3 = n2 mod 1461;
          d = min 3 (n3 div 365); r = n3 - d * 365
      in (400 * a + 100 * b + 4 * c + d, r))"

definition civil :: "nat \<Rightarrow> nat \<times> nat \<times> nat" where
  "civil n = (case year_day n of (p, r) \<Rightarrow> (p + 1, month_day (month_lengths (is_leap (p + 1))) 1 r))"

definition day_number :: "nat \<Rightarrow> nat \<Rightarrow> nat \<Rightarrow> nat" where
  "day_number y m d =
     days_before (y - 1) + sum_list (take (m - 1) (month_lengths (is_leap y))) + (d - 1)"

lemma days_before_blocks:
  assumes "b \<le> 3" "c \<le> 24" "d \<le> 3"
  shows "days_before (400 * a + 100 * b + 4 * c + d) = 146097 * a + 36524 * b + 1461 * c + 365 * d"
proof -
  have "(400 * a + 100 * b + 4 * c + d) div 4 = 100 * a + 25 * b + c"
    and "(400 * a + 100 * b + 4 * c + d) div 100 = 4 * a + b"
    and "(400 * a + 100 * b + 4 * c + d) div 400 = a"
    using assms by linarith+
  then show ?thesis by (simp add: days_before_def)
qed

lemma mod_top_eq_0:
  fixes x k :: nat
  assumes "0 < x" "x \<le> k" shows "x mod k = 0 \<longleftrightarrow> x = k"
  using assms by (cases "x = k") auto

lemma is_leap_blocks:
  assumes "b \<le> 3" "c \<le> 24" "d \<le> 3"
  shows "is_leap (400 * a + 100 * b + 4 * c + d + 1) \<longleftrightarrow> d = 3 \<and> (c \<noteq> 24 \<or> b = 3)"
proof -
  let ?y = "400 * a + 100 * b + 4 * c + d + 1"
  have "?y = (d + 1) + 4 * (100 * a + 25 * b + c)" by simp
  then have 4: "?y mod 4 = (d + 1) mod 4" by (metis mod_mult_self2)
  have "?y = (4 * c + d + 1) + 100 * (4 * a + b)" by simp
  then have 100: "?y mod 100 = (4 * c + d + 1) mod 100" by (metis mod_mult_self2)
  have "?y = (100 * b + 4 * c + d + 1) + 400 * a" by simp
  then have 400: "?y mod 400 = (100 * b + 4 * c + d + 1) mod 400" by (metis mod_mult_self2)
  have "(d + 1) mod 4 = 0 \<longleftrightarrow> d = 3"
    using mod_top_eq_0 [of "d + 1" 4] assms by simp
  moreover have "(4 * c + d + 1) mod 100 = 0 \<longleftrightarrow> c = 24 \<and> d = 3"
    using mod_top_eq_0 [of "4 * c + d + 1" 100] assms by (simp, arith)
  moreover have "(100 * b + 4 * c + d + 1) mod 400 = 0 \<longleftrightarrow> b = 3 \<and> c = 24 \<and> d = 3"
    using mod_top_eq_0 [of "100 * b + 4 * c + d + 1" 400] assms by (simp, arith)
  ultimately show ?thesis unfolding is_leap_def 4 100 400 by auto
qed

lemma days_before_Suc: "days_before (p + 1) = days_before p + 365 + (if is_leap (p + 1) then 1 else 0)"
proof -
  have "p div 100 \<le> p div 4" by (rule div_le_mono2) simp_all
  moreover have "Suc p mod 100 = 0 \<Longrightarrow> Suc p mod 4 = 0"
    using dvd_trans [of 4 100 "Suc p"] by (simp add: mod_eq_0_iff_dvd)
  moreover have "Suc p mod 400 = 0 \<Longrightarrow> Suc p mod 100 = 0"
    using dvd_trans [of 100 400 "Suc p"] by (simp add: mod_eq_0_iff_dvd)
  ultimately show ?thesis
    by (auto simp add: days_before_def is_leap_def div_Suc add_ac)
qed

lemma days_before_mono: "p \<le> q \<Longrightarrow> days_before p \<le> days_before q"
proof (induction q)
  case 0
  then show ?case by simp
next
  case (Suc q)
  show ?case
  proof (cases "p = Suc q")
    case False
    with Suc have "days_before p \<le> days_before q" by simp
    also have "\<dots> \<le> days_before (q + 1)" unfolding days_before_Suc by simp
    finally show ?thesis by simp
  qed simp
qed

lemma clamp_block:
  fixes n k :: nat
  assumes "n < 4 * k + 1" and "b = min 3 (n div k)" and "0 < k"
  shows "b \<le> 3" and "n = k * b + (n - b * k)" and "n - b * k < (if b = 3 then k + 1 else k)"
proof -
  show "b \<le> 3" by (simp add: assms(2))
  have "b * k \<le> n div k * k" by (rule mult_le_mono1) (simp add: assms(2))
  also have "\<dots> \<le> n" by (rule div_times_less_eq_dividend)
  finally show "n = k * b + (n - b * k)" by (simp add: mult.commute)
  show "n - b * k < (if b = 3 then k + 1 else k)"
  proof (cases "n div k \<le> 3")
    case True
    then have "n - b * k = n mod k" by (simp add: assms(2) min_def minus_div_mult_eq_mod)
    then show ?thesis using mod_less_divisor [OF assms(3), of n] by simp
  next
    case False
    then show ?thesis using assms by (simp add: min_def)
  qed
qed

lemma year_day_correct:
  assumes "year_day n = (p, r)"
  shows "n = days_before p + r" and "r < 365 + (if is_leap (p + 1) then 1 else 0)"
proof -
  define a n1 where "a = n div 146097" and "n1 = n mod 146097"
  define b n2 where "b = min 3 (n1 div 36524)" and "n2 = n1 - b * 36524"
  define c n3 where "c = n2 div 1461" and "n3 = n2 mod 1461"
  define d r' where "d = min 3 (n3 div 365)" and "r' = n3 - d * 365"
  have p: "p = 400 * a + 100 * b + 4 * c + d" and r: "r = r'"
    using assms
    by (simp_all add: year_day_def Let_def a_def n1_def b_def n2_def c_def n3_def d_def r'_def)
  have n: "n = 146097 * a + n1" by (simp add: a_def n1_def)
  have n1_less: "n1 < 146097" by (simp add: n1_def)
  have b: "b \<le> 3" and n1: "n1 = 36524 * b + n2" and n2_less: "n2 < (if b = 3 then 36525 else 36524)"
    using clamp_block [OF _ b_def] n1_less unfolding n2_def by (simp, linarith, simp split: if_splits)
  have c: "c \<le> 24" using n2_less unfolding c_def by (auto split: if_splits)
  have n2: "n2 = 1461 * c + n3" by (simp add: c_def n3_def)
  have n3_less: "n3 < 1461" by (simp add: n3_def)
  have n3_less': "c = 24 \<Longrightarrow> b \<noteq> 3 \<Longrightarrow> n3 < 1460" using n2 n2_less by auto
  have d: "d \<le> 3" and n3: "n3 = 365 * d + r'" and r'_less: "r' < (if d = 3 then 366 else 365)"
    using clamp_block [OF _ d_def] n3_less unfolding r'_def by (simp, linarith, simp split: if_splits)
  show "n = days_before p + r"
    unfolding p r days_before_blocks [OF b c d] using n n1 n2 n3 by simp
  show "r < 365 + (if is_leap (p + 1) then 1 else 0)"
    unfolding p r is_leap_blocks [OF b c d] using r'_less n3_less n3_less' c b n3
    by (auto split: if_splits)
qed

lemma year_day_less:
  assumes "n < n'" shows "year_day n < year_day n'"
proof -
  obtain p r where yd: "year_day n = (p, r)" by force
  obtain q s where yd': "year_day n' = (q, s)" by force
  note c = year_day_correct [OF yd] and c' = year_day_correct [OF yd']
  have "\<not> q < p"
  proof
    assume "q < p"
    then have "days_before (q + 1) \<le> days_before p" by (intro days_before_mono) simp
    with c(1) c'(1,2) assms show False unfolding days_before_Suc by linarith
  qed
  moreover have "p = q \<Longrightarrow> r < s" using c(1) c'(1) assms by simp
  ultimately show ?thesis by (auto simp: yd yd' less_prod_def')
qed

lemma month_day_ge: "m \<le> fst (month_day ls m r)"
proof (induction ls arbitrary: m r)
  case (Cons l ls)
  have "m + 1 \<le> fst (month_day ls (m + 1) (r - l))" by (rule Cons.IH)
  then show ?case by simp
qed simp

lemma month_day_less: "r < r' \<Longrightarrow> month_day ls m r < month_day ls m r'"
proof (induction ls arbitrary: m r r')
  case Nil
  then show ?case by (simp add: less_prod_def')
next
  case (Cons l ls)
  consider "r' < l" | "r < l" "l \<le> r'" | "l \<le> r" by linarith
  then show ?case
  proof cases
    case 2
    have "m + 1 \<le> fst (month_day ls (m + 1) (r' - l))" by (rule month_day_ge)
    with 2 show ?thesis by (auto simp: less_prod_def')
  next
    case 3
    with Cons.prems show ?thesis by (auto intro: Cons.IH)
  qed (use Cons.prems in \<open>simp add: less_prod_def'\<close>)
qed

lemma month_day_bounds:
  assumes "r < sum_list ls" and "\<forall>l\<in>set ls. l \<le> 31"
  shows "m \<le> fst (month_day ls m r) \<and> fst (month_day ls m r) < m + length ls
    \<and> 1 \<le> snd (month_day ls m r) \<and> snd (month_day ls m r) \<le> ls ! (fst (month_day ls m r) - m)
    \<and> sum_list (take (fst (month_day ls m r) - m) ls) + (snd (month_day ls m r) - 1) = r"
  using assms
proof (induction ls arbitrary: m r)
  case Nil
  then show ?case by simp
next
  case (Cons l ls)
  show ?case
  proof (cases "r < l")
    case True
    then show ?thesis by simp
  next
    case False
    define x where "x = month_day ls (m + 1) (r - l)"
    have "m + 1 \<le> fst x \<and> fst x < m + 1 + length ls \<and> 1 \<le> snd x \<and> snd x \<le> ls ! (fst x - (m + 1))
      \<and> sum_list (take (fst x - (m + 1)) ls) + (snd x - 1) = r - l"
      unfolding x_def using Cons.prems False by (intro Cons.IH) auto
    moreover from this obtain k where k: "fst x = m + 1 + k" using le_Suc_ex by blast
    moreover have "month_day (l # ls) m r = x" using False by (simp add: x_def)
    ultimately show ?thesis using False by (simp, linarith)
  qed
qed

lemma sum_month_lengths: "sum_list (month_lengths leap) = 365 + (if leap then 1 else 0)"
  by (simp add: month_lengths_def)

lemma civil_less:
  assumes "n < n'" shows "civil n < civil n'"
proof -
  obtain p r where yd: "year_day n = (p, r)" by force
  obtain q s where yd': "year_day n' = (q, s)" by force
  from year_day_less [OF assms] consider "p < q" | "p = q" "r < s"
    by (auto simp: yd yd' less_prod_def')
  then show ?thesis
  proof cases
    case 2
    then show ?thesis using month_day_less [OF 2(2)] by (simp add: civil_def yd yd')
  qed (simp add: civil_def yd yd' less_prod_def')
qed

lemma civil_correct:
  assumes "civil n = (y, m, d)"
  shows "day_number y m d = n" and "1 \<le> y" and "1 \<le> m" and "m \<le> 12" and "1 \<le> d"
    and "d \<le> month_lengths (is_leap y) ! (m - 1)"
proof -
  obtain p r where yd: "year_day n = (p, r)" by force
  let ?ls = "month_lengths (is_leap (p + 1))"
  note c = year_day_correct [OF yd]
  have md: "month_day ?ls 1 r = (m, d)" and y: "y = p + 1"
    using assms by (auto simp: civil_def yd)
  have "r < sum_list ?ls" using c(2) by (simp add: sum_month_lengths)
  moreover have "\<forall>l\<in>set ?ls. l \<le> 31" by (simp add: month_lengths_def)
  ultimately have b: "1 \<le> m \<and> m < 1 + length ?ls \<and> 1 \<le> d \<and> d \<le> ?ls ! (m - 1)
      \<and> sum_list (take (m - 1) ?ls) + (d - 1) = r"
    using month_day_bounds [of r ?ls 1] unfolding md by simp
  then show "day_number y m d = n" using c(1) by (simp add: day_number_def y, linarith)
  show "1 \<le> y" "1 \<le> m" "m \<le> 12" "1 \<le> d" "d \<le> month_lengths (is_leap y) ! (m - 1)"
    using b by (auto simp: y month_lengths_def)
qed

lemma month_lengths_le:
  assumes "m < 12" shows "month_lengths leap ! m \<le> 31"
proof -
  have "month_lengths leap ! m \<in> set (month_lengths leap)"
    using assms by (intro nth_mem) (simp add: month_lengths_def)
  then show ?thesis by (auto simp: month_lengths_def split: if_splits)
qed

lemma civil_day_le_31:
  assumes "civil n = (y, m, d)" shows "d \<le> 31"
proof -
  have "d \<le> month_lengths (is_leap y) ! (m - 1)" by (rule civil_correct(6) [OF assms])
  also have "\<dots> \<le> 31"
    by (rule month_lengths_le) (use civil_correct(3,4) [OF assms] in linarith)
  finally show ?thesis .
qed

lemma civil_year_le:
  assumes "n < 3652059" and "civil n = (y, m, d)" shows "y \<le> 9999"
proof (rule ccontr)
  assume "\<not> y \<le> 9999"
  obtain p r where yd: "year_day n = (p, r)" by force
  with assms \<open>\<not> y \<le> 9999\<close> have "9999 \<le> p" by (simp add: civil_def)
  then have "days_before 9999 \<le> days_before p" by (rule days_before_mono)
  moreover have "days_before 9999 = 3652059" by (simp add: days_before_def)
  ultimately show False using year_day_correct(1) [OF yd] assms(1) by simp
qed

section \<open>ISO strings\<close>

text \<open>
  The instants a \<open>datetime\<close> can hold: years 1 to 9999.  Conversion to another zone or
  addition of a \<open>timedelta\<close> raises \<open>OverflowError\<close> outside them.
\<close>

definition max_instant :: nat where "max_instant = 3652059 * us_per_day"

definition in_range :: "int \<Rightarrow> bool" where
  "in_range t \<longleftrightarrow> 0 \<le> t \<and> t < int max_instant"

definition checked_instant :: "int \<Rightarrow> int result" where
  "checked_instant t = (if in_range t then Inr t else Inl (OverflowError ''date value out of range''))"

text \<open>\<open>value.astimezone(timezone.utc)\<close> of an aware value, and \<open>value + delta\<close>.\<close>

definition astimezone_utc :: "int \<Rightarrow> int result" where
  "astimezone_utc t = checked_instant t"

definition add_delta :: "int \<Rightarrow> int \<Rightarrow> int result" where
  "add_delta t dt = checked_instant (t + dt)"

definition date_str :: "nat \<times> nat \<times> nat \<Rightarrow> string" where
  "date_str x = (case x of (y, m, d) \<Rightarrow>
     pad_nat 4 y @ ''-'' @ pad_nat 2 m @ ''-'' @ pad_nat 2 d)"

definition clock :: "nat \<Rightarrow> nat \<times> nat \<times> nat" where
  "clock tod = (tod div us_per_hour, tod mod us_per_hour div us_per_minute,
                tod mod us_per_minute div us_per_second)"

definition clock_str :: "nat \<times> nat \<times> nat \<Rightarrow> string" where
  "clock_str x = (case x of (h, m, s) \<Rightarrow>
     pad_nat 2 h @ '':'' @ pad_nat 2 m @ '':'' @ pad_nat 2 s)"

definition micro_str :: "nat \<Rightarrow> string" where
  "micro_str us = (if us = 0 then [] else CHR ''.'' # pad_nat 6 us)"

text \<open>\<open>datetime.isoformat()\<close> of an aware UTC value.\<close>

definition iso_utc :: "nat \<Rightarrow> string" where
  "iso_utc t = date_str (civil (t div us_per_day)) @ ''T'' @ clock_str (clock (t mod us_per_day))
     @ micro_str (t mod us_per_second) @ ''+00:00''"

definition isoformat :: "int \<Rightarrow> string" where
  "isoformat t = iso_utc (nat t)"

text \<open>
  The Korean wall clock: \<open>astimezone(KST)\<close> of an aware value (as the wall clock it shows)
  and its \<open>strftime("%Y%m%d")\<close> and \<open>strftime("%H%M")\<close>.  The offset has been nine hours since 1988.
\<close>

definition kst_offset :: int where "kst_offset = hours 9"

definition astimezone_kst :: "pylib \<Rightarrow> int \<Rightarrow> int result" where
  "astimezone_kst L t = bind_result (checked_instant t) (\<lambda>t. checked_instant (t + seoul_offset L t))"

definition kst_date :: "nat \<Rightarrow> string" where
  "kst_date t = (case civil (t div us_per_day) of (y, m, d) \<Rightarrow> pad_nat 4 y @ pad_nat 2 m @ pad_nat 2 d)"

definition kst_clock :: "nat \<Rightarrow> string" where
  "kst_clock t = (case clock (t mod us_per_day) of (h, m, s) \<Rightarrow> pad_nat 2 h @ pad_nat 2 m)"

lemma mod_pow10_Suc: "n mod 10 ^ Suc k = n div 10 ^ k mod 10 * 10 ^ k + n mod (10 ^ k :: nat)"
  using mod_mult2_eq [of n "10 ^ k" 10] by (simp only: power_Suc2 mult.commute)

lemma pad_nat_less_iff: "pad_nat k m < pad_nat k n \<longleftrightarrow> m mod 10 ^ k < n mod 10 ^ k"
proof (induction k)
  case 0
  show ?case by simp
next
  case (Suc k)
  let ?a = "m div 10 ^ k mod 10" and ?b = "n div 10 ^ k mod 10"
  have lm: "m mod 10 ^ k < 10 ^ k" and ln: "n mod 10 ^ k < 10 ^ k" by simp_all
  have "m mod 10 ^ Suc k < n mod 10 ^ Suc k \<longleftrightarrow> ?a < ?b \<or> (?a = ?b \<and> m mod 10 ^ k < n mod 10 ^ k)"
  proof (cases "?a" "?b" rule: linorder_cases)
    case less
    then have "(?a + 1) * 10 ^ k \<le> ?b * 10 ^ k" by (intro mult_le_mono1) simp
    with less lm ln show ?thesis unfolding mod_pow10_Suc by (simp, linarith)
  next
    case greater
    then have "(?b + 1) * 10 ^ k \<le> ?a * 10 ^ k" by (intro mult_le_mono1) simp
    with greater lm ln show ?thesis unfolding mod_pow10_Suc by (simp, linarith)
  qed (simp add: mod_pow10_Suc del: power_Suc)
  then show ?case by (simp add: Suc.IH del: power_Suc)
qed

lemma pad_nat_eq_iff: "pad_nat k m = pad_nat k n \<longleftrightarrow> m mod 10 ^ k = n mod 10 ^ k"
  using pad_nat_less_iff [of k m n] pad_nat_less_iff [of k n m]
  by (metis less_irrefl linorder_less_linear)

lemma read_nat_pad_nat: "read_nat acc (pad_nat k n) = acc * 10 ^ k + n mod 10 ^ k"
proof (induction k arbitrary: acc)
  case (Suc k)
  have "read_nat acc (pad_nat (Suc k) n) = (10 * acc + n div 10 ^ k mod 10) * 10 ^ k + n mod 10 ^ k"
    by (simp add: Suc.IH)
  also have "\<dots> = acc * 10 ^ Suc k + n mod 10 ^ Suc k"
    unfolding mod_pow10_Suc by (simp add: algebra_simps)
  finally show ?case .
qed simp

lemma pad_nat_mono [simp]: "m < 10 ^ k \<Longrightarrow> n < 10 ^ k \<Longrightarrow> pad_nat k m < pad_nat k n \<longleftrightarrow> m < n"
  by (simp add: pad_nat_less_iff)

lemma pad_nat_inj [simp]: "m < 10 ^ k \<Longrightarrow> n < 10 ^ k \<Longrightarrow> pad_nat k m = pad_nat k n \<longleftrightarrow> m = n"
  by (simp add: pad_nat_eq_iff)

lemma date_str_less:
  assumes "fst x < 10000" "fst (snd x) < 100" "snd (snd x) < 100"
    and "fst x' < 10000" "fst (snd x') < 100" "snd (snd x') < 100"
    and "x < x'"
  shows "date_str x < date_str x'"
  using assms by (cases x; cases x') (auto simp: date_str_def less_prod_def' append_less_iff)

lemma clock_str_less:
  assumes "fst x < 100" "fst (snd x) < 100" "snd (snd x) < 100"
    and "fst x' < 100" "fst (snd x') < 100" "snd (snd x') < 100"
    and "x < x'"
  shows "clock_str x < clock_str x'"
  using assms by (cases x; cases x') (auto simp: clock_str_def less_prod_def' append_less_iff)

lemma length_date_str [simp]: "length (date_str x) = 10"
  by (simp add: date_str_def split: prod.splits)

lemma length_clock_str [simp]: "length (clock_str x) = 8"
  by (simp add: clock_str_def split: prod.splits)

lemma plus_less_dot: "CHR ''+'' < CHR ''.''"
  by (simp add: less_char_def)

lemma micro_str_less:
  assumes "us < us'" "us' < 1000000"
  shows "micro_str us @ ''+00:00'' < micro_str us' @ ''+00:00''"
  using assms plus_less_dot by (auto simp: micro_str_def append_less_iff)

lemma divmod_less_iff:
  fixes k :: nat assumes "0 < k"
  shows "x < y \<longleftrightarrow> x div k < y div k \<or> (x div k = y div k \<and> x mod k < y mod k)"
proof
  assume "x < y"
  then have "x div k \<le> y div k" by (simp add: div_le_mono)
  moreover have "x div k = y div k \<Longrightarrow> x mod k < y mod k"
    using \<open>x < y\<close> by (metis add_less_cancel_left div_mult_mod_eq)
  ultimately show "x div k < y div k \<or> (x div k = y div k \<and> x mod k < y mod k)" by linarith
next
  assume "x div k < y div k \<or> (x div k = y div k \<and> x mod k < y mod k)"
  then show "x < y"
    by (metis add_less_cancel_left div_le_mono div_mult_mod_eq linorder_not_le)
qed

lemma clock_less_or:
  assumes "x < y" "x < us_per_day" "y < us_per_day"
  shows "clock x < clock y \<or> (clock x = clock y \<and> x mod us_per_second < y mod us_per_second)"
proof -
  have 1: "z mod us_per_hour mod us_per_minute = z mod us_per_minute" for z
    by (rule mod_mod_cancel) (simp add: us_per_hour_def us_per_minute_def)
  have 2: "z mod us_per_minute mod us_per_second = z mod us_per_second" for z
    by (rule mod_mod_cancel) (simp add: us_per_second_def us_per_minute_def)
  have pos: "0 < us_per_hour" "0 < us_per_minute" "0 < us_per_second"
    by (simp_all add: us_per_hour_def us_per_minute_def us_per_second_def)
  show ?thesis
    using assms(1) divmod_less_iff [OF pos(1), of x y]
      divmod_less_iff [OF pos(2), of "x mod us_per_hour" "y mod us_per_hour"]
      divmod_less_iff [OF pos(3), of "x mod us_per_minute" "y mod us_per_minute"]
    unfolding 1 2 by (auto simp: clock_def less_prod_def')
qed

lemma clock_bounds:
  assumes "tod < us_per_day"
  shows "fst (clock tod) < 24" "fst (snd (clock tod)) < 60" "snd (snd (clock tod)) < 60"
  using assms
  by (simp_all add: clock_def us_per_day_def us_per_hour_def us_per_minute_def us_per_second_def
      less_mult_imp_div_less)

lemma civil_bounds:
  assumes "n < 3652059"
  shows "fst (civil n) < 10000" "fst (snd (civil n)) < 100" "snd (snd (civil n)) < 100"
proof -
  obtain y m d where c: "civil n = (y, m, d)" by (cases "civil n") auto
  show "fst (civil n) < 10000" "fst (snd (civil n)) < 100" "snd (snd (civil n)) < 100"
    using civil_year_le [OF assms c] civil_correct(4) [OF c] civil_day_le_31 [OF c] by (simp_all add: c)
qed

lemma iso_utc_less:
  assumes "t < t'" and "t' < max_instant"
  shows "iso_utc t < iso_utc t'"
proof -
  have pos: "0 < us_per_day" by (simp add: us_per_day_def)
  have days: "t div us_per_day < 3652059" "t' div us_per_day < 3652059"
    using assms by (simp_all add: max_instant_def less_mult_imp_div_less)
  have tods: "t mod us_per_day < us_per_day" "t' mod us_per_day < us_per_day" by (simp_all add: pos)
  have us: "t mod us_per_day mod us_per_second = t mod us_per_second" for t
    by (rule mod_mod_cancel) (simp add: us_per_day_def us_per_second_def)
  have small: "t' mod us_per_second < 1000000" by (simp add: us_per_second_def)
  note cb = clock_bounds [OF tods(1)] clock_bounds [OF tods(2)]
  from assms(1) consider
      (day) "t div us_per_day < t' div us_per_day"
    | (tod) "t div us_per_day = t' div us_per_day" "t mod us_per_day < t' mod us_per_day"
    using divmod_less_iff [OF pos, of t t'] by blast
  then show ?thesis
  proof cases
    case day
    from date_str_less [OF civil_bounds [OF days(1)] civil_bounds [OF days(2)] civil_less [OF day]]
    show ?thesis by (simp add: iso_utc_def append_less_iff)
  next
    case tod
    from clock_less_or [OF tod(2) tods] consider
        (clk) "clock (t mod us_per_day) < clock (t' mod us_per_day)"
      | (mic) "clock (t mod us_per_day) = clock (t' mod us_per_day)" "t mod us_per_second < t' mod us_per_second"
      unfolding us by blast
    then show ?thesis
    proof cases
      case clk
      have "clock_str (clock (t mod us_per_day)) < clock_str (clock (t' mod us_per_day))"
        by (rule clock_str_less) (use cb clk in linarith)+
      with tod(1) show ?thesis by (simp add: iso_utc_def append_less_iff)
    next
      case mic
      with tod(1) micro_str_less [OF mic(2) small]
      show ?thesis by (simp add: iso_utc_def append_less_iff)
    qed
  qed
qed

lemma isoformat_less_iff:
  assumes "in_range t" "in_range t'"
  shows "isoformat t < isoformat t' \<longleftrightarrow> t < t'"
proof -
  have r: "0 \<le> t" "0 \<le> t'" "nat t < max_instant" "nat t' < max_instant"
    using assms by (auto simp: in_range_def nat_less_iff)
  show ?thesis
  proof (cases t t' rule: linorder_cases)
    case less
    with r show ?thesis by (simp add: isoformat_def iso_utc_less)
  next
    case greater
    with r have "isoformat t' < isoformat t" by (simp add: isoformat_def iso_utc_less)
    with greater show ?thesis by (simp add: less_le_not_le)
  qed simp
qed

lemma isoformat_le_iff:
  assumes "in_range t" "in_range t'"
  shows "isoformat t \<le> isoformat t' \<longleftrightarrow> t \<le> t'"
  using isoformat_less_iff [OF assms(2,1)] by (simp add: linorder_not_less [symmetric])

lemma isoformat_eq_iff:
  assumes "in_range t" "in_range t'"
  shows "isoformat t = isoformat t' \<longleftrightarrow> t = t'"
  using isoformat_less_iff [OF assms] isoformat_less_iff [OF assms(2,1)]
  by (metis linorder_less_linear order_less_irrefl)

section \<open>Parsing ISO strings\<close>

text \<open>
  The extended calendar format of \<open>datetime.fromisoformat\<close>, the one \<open>isoformat\<close> prints:
  a date, optionally a separator and \<open>HH:MM[:SS[.ffffff]]\<close>, optionally an offset
  \<open>+HH:MM\<close> or \<open>-HH:MM\<close>.  The basic and week-date formats that newer interpreters also
  accept are not in it; the components take the parser as a parameter and use this one as
  an instance.
\<close>

definition take_digits :: "nat \<Rightarrow> string \<Rightarrow> (nat \<times> string) option" where
  "take_digits k s =
     (if length (take k s) = k \<and> list_all is_digit (take k s)
      then Some (read_nat 0 (take k s), drop k s) else None)"

definition take_char :: "char \<Rightarrow> string \<Rightarrow> string option" where
  "take_char c s = (case s of [] \<Rightarrow> None | d # ds \<Rightarrow> if d = c then Some ds else None)"

definition parse_date :: "string \<Rightarrow> (nat \<times> string) option" where
  "parse_date s = do {
     (y, s) \<leftarrow> take_digits 4 s;
     s \<leftarrow> take_char (CHR ''-'') s;
     (m, s) \<leftarrow> take_digits 2 s;
     s \<leftarrow> take_char (CHR ''-'') s;
     (d, s) \<leftarrow> take_digits 2 s;
     if 1 \<le> y \<and> 1 \<le> m \<and> m \<le> 12 \<and> 1 \<le> d \<and> d \<le> month_lengths (is_leap y) ! (m - 1)
     then Some (day_number y m d, s) else None }"

definition parse_seconds :: "string \<Rightarrow> (nat \<times> string) option" where
  "parse_seconds s = (case take_char (CHR '':'') s of
      None \<Rightarrow> Some (0, s)
    | Some s \<Rightarrow> do {
        (sec, s) \<leftarrow> take_digits 2 s;
        (us, s) \<leftarrow> (case take_char (CHR ''.'') s of None \<Rightarrow> Some (0, s) | Some s \<Rightarrow> take_digits 6 s);
        if sec < 60 then Some (sec * us_per_second + us, s) else None })"

definition parse_clock :: "string \<Rightarrow> (nat \<times> string) option" where
  "parse_clock s = do {
     (h, s) \<leftarrow> take_digits 2 s;
     s \<leftarrow> take_char (CHR '':'') s;
     (m, s) \<leftarrow> take_digits 2 s;
     (us, s) \<leftarrow> parse_seconds s;
     if h < 24 \<and> m < 60 then Some (h * us_per_hour + m * us_per_minute + us, s) else None }"

definition parse_offset :: "string \<Rightarrow> int option" where
  "parse_offset s = (case s of [] \<Rightarrow> None | c # s \<Rightarrow>
     if c \<noteq> CHR ''+'' \<and> c \<noteq> CHR ''-'' then None
     else do {
       (h, s) \<leftarrow> take_digits 2 s;
       s \<leftarrow> take_char (CHR '':'') s;
       (m, s) \<leftarrow> take_digits 2 s;
       if h < 24 \<and> m < 60 \<and> s = []
       then Some ((if c = CHR ''-'' then -1 else 1) * (hours (int h) + minutes (int m)))
       else None })"

definition parse_iso :: "string \<Rightarrow> pydatetime option" where
  "parse_iso s = do {
     (n, s) \<leftarrow> parse_date s;
     case s of
       [] \<Rightarrow> Some (Naive (int (n * us_per_day)))
     | _ # s \<Rightarrow> do {
         (tod, s) \<leftarrow> parse_clock s;
         case s of
           [] \<Rightarrow> Some (Naive (int (n * us_per_day + tod)))
         | _ # _ \<Rightarrow> do {
             off \<leftarrow> parse_offset s;
             Some (Aware (int (n * us_per_day + tod) - off)) }}}"

lemma take_digits_pad [simp]: "n < 10 ^ k \<Longrightarrow> take_digits k (pad_nat k n @ s) = Some (n, s)"
  by (simp add: take_digits_def list_all_iff pad_nat_digits read_nat_pad_nat)

lemma take_char_simps [simp]:
  "take_char c [] = None"
  "take_char c (d # s) = (if d = c then Some s else None)"
  by (simp_all add: take_char_def)

lemma parse_date_str:
  assumes "n < 3652059"
  shows "parse_date (date_str (civil n) @ s) = Some (n, s)"
proof -
  obtain y m d where c: "civil n = (y, m, d)" by (cases "civil n") auto
  note cc = civil_correct [OF c]
  have "y < 10 ^ 4" "m < 10 ^ 2" "d < 10 ^ 2"
    using civil_bounds [OF assms] by (simp_all add: c)
  then show ?thesis using cc by (simp add: parse_date_def date_str_def c)
qed

lemma parse_clock_str:
  assumes "tod < us_per_day" and "us = tod mod us_per_second"
  shows "parse_clock (clock_str (clock tod) @ micro_str us @ ''+00:00'') = Some (tod, ''+00:00'')"
proof -
  obtain h m s where c: "clock tod = (h, m, s)" by (cases "clock tod") auto
  have b: "h < 24" "m < 60" "s < 60" using clock_bounds [OF assms(1)] by (simp_all add: c)
  then have p: "h < 10 ^ 2" "m < 10 ^ 2" "s < 10 ^ 2" by simp_all
  have us: "us < 10 ^ 6" by (simp add: assms(2) us_per_second_def)
  have m: "tod mod us_per_hour mod us_per_minute = tod mod us_per_minute"
    by (rule mod_mod_cancel) (simp add: us_per_hour_def us_per_minute_def)
  have s: "tod mod us_per_minute mod us_per_second = tod mod us_per_second"
    by (rule mod_mod_cancel) (simp add: us_per_second_def us_per_minute_def)
  have "tod = h * us_per_hour + tod mod us_per_hour"
    using c div_mult_mod_eq [of tod us_per_hour, symmetric] unfolding clock_def by (simp only: prod.inject)
  moreover have "tod mod us_per_hour = m * us_per_minute + tod mod us_per_minute"
    using c div_mult_mod_eq [of "tod mod us_per_hour" us_per_minute, symmetric]
    unfolding clock_def m by (simp only: prod.inject)
  moreover have "tod mod us_per_minute = s * us_per_second + tod mod us_per_second"
    using c div_mult_mod_eq [of "tod mod us_per_minute" us_per_second, symmetric]
    unfolding clock_def s by (simp only: prod.inject)
  ultimately have tod: "h * us_per_hour + m * us_per_minute + (s * us_per_second + us) = tod"
    by (simp add: assms(2))
  have "parse_seconds (CHR '':'' # pad_nat 2 s @ micro_str us @ ''+00:00'')
      = Some (s * us_per_second + us, ''+00:00'')"
    using b p us by (simp add: parse_seconds_def micro_str_def)
  then show ?thesis using b p tod by (simp add: parse_clock_def clock_str_def c)
qed

lemma parse_iso_isoformat:
  assumes "in_range t"
  shows "parse_iso (isoformat t) = Some (Aware t)"
proof -
  let ?n = "nat t"
  have t: "int ?n = t" and n: "?n < max_instant" using assms by (auto simp: in_range_def)
  have day: "?n div us_per_day < 3652059"
    using n by (simp add: max_instant_def less_mult_imp_div_less)
  have us: "?n mod us_per_second = ?n mod us_per_day mod us_per_second"
    by (rule mod_mod_cancel [symmetric]) (simp add: us_per_day_def us_per_second_def)
  have tod: "?n mod us_per_day < us_per_day" by (simp add: us_per_day_def)
  have "parse_offset ''+00:00'' = Some 0"
    by (simp add: parse_offset_def take_digits_def is_digit_def digit_val_def hours_def minutes_def)
  then have "parse_iso (isoformat t)
      = Some (Aware (int (?n div us_per_day * us_per_day + ?n mod us_per_day)))"
    by (simp add: isoformat_def iso_utc_def parse_iso_def parse_date_str [OF day]
        parse_clock_str [OF tod us])
  then show ?thesis by (simp only: div_mult_mod_eq t)
qed

lemma Z_not_digit: "\<not> is_digit CHR ''Z''"
  by (simp add: is_digit_def)

lemma no_Z_pad_nat: "CHR ''Z'' \<notin> set (pad_nat k n)"
  using pad_nat_digits Z_not_digit by blast

lemma no_Z_isoformat: "CHR ''Z'' \<notin> set (isoformat t)"
  by (auto simp: isoformat_def iso_utc_def date_str_def clock_str_def micro_str_def no_Z_pad_nat
      split: prod.splits if_splits)

lemma replace_Z_id: "CHR ''Z'' \<notin> set s \<Longrightarrow> replace_Z s = s"
  by (induction s) (auto simp: replace_Z_def)

lemma replace_Z_isoformat [simp]: "replace_Z (isoformat t) = isoformat t"
  by (rule replace_Z_id [OF no_Z_isoformat])

section \<open>Timestamps that are values or ISO strings\<close>

text \<open>
  The common body of the \<open>_aware_utc\<close> and \<open>_timestamp\<close> helpers: a \<open>datetime\<close> or an ISO
  string (\<open>Z\<close> allowed), which must carry a zone, as a UTC instant.  The helpers differ in
  the exception they raise on a string that does not parse (\<open>e_parse\<close>), on a value of
  another type (\<open>e_type\<close>) and on a naive value (\<open>e_zone\<close>).
\<close>

definition coerce_utc :: "pylib \<Rightarrow> pyexc \<Rightarrow> pyexc \<Rightarrow> pyexc \<Rightarrow> pyobj \<Rightarrow> int result" where
  "coerce_utc L e_parse e_type e_zone v =
     bind_result
       (case v of
          PTime d \<Rightarrow> Inr d
        | PStr s \<Rightarrow> (case fromisoformat L (replace_Z s) of None \<Rightarrow> Inl e_parse | Some d \<Rightarrow> Inr d)
        | _ \<Rightarrow> Inl e_type)
       (\<lambda>d. case d of Naive _ \<Rightarrow> Inl e_zone | Aware t \<Rightarrow> astimezone_utc t)"

lemma checked_instant_Inr_iff [result_simps]:
  "checked_instant t = Inr t' \<longleftrightarrow> t' = t \<and> in_range t"
  by (auto simp: checked_instant_def)

lemma astimezone_utc_Inr_iff [result_simps]: "astimezone_utc t = Inr t' \<longleftrightarrow> t' = t \<and> in_range t"
  by (simp add: astimezone_utc_def checked_instant_Inr_iff)

lemma astimezone_utc_in_range [simp]: "in_range t \<Longrightarrow> astimezone_utc t = Inr t"
  by (simp add: astimezone_utc_def checked_instant_def)

lemma add_delta_Inr_iff [result_simps]: "add_delta t dt = Inr t' \<longleftrightarrow> t' = t + dt \<and> in_range (t + dt)"
  by (auto simp: add_delta_def checked_instant_Inr_iff)

lemma coerce_utc_in_range: "coerce_utc L e1 e2 e3 v = Inr t \<Longrightarrow> in_range t"
  by (auto simp: coerce_utc_def bind_result_def astimezone_utc_Inr_iff
      split: sum.splits pydatetime.splits)

lemma coerce_utc_Aware [simp]: "in_range t \<Longrightarrow> coerce_utc L e1 e2 e3 (PTime (Aware t)) = Inr t"
  by (simp add: coerce_utc_def)

lemma coerce_utc_Naive [simp]: "coerce_utc L e1 e2 e3 (PTime (Naive t)) = Inl e3"
  by (simp add: coerce_utc_def)

text \<open>Which exceptions are raised does not change which value is returned.\<close>

lemma coerce_utc_Inr_cong: "coerce_utc L e1 e2 e3 v = Inr t \<Longrightarrow> coerce_utc L f1 f2 f3 v = Inr t"
  by (auto simp: coerce_utc_def bind_result_def split: pyobj.splits sum.splits option.splits pydatetime.splits)

text \<open>
  The interface of the ISO printer and parser: what is printed is read back.  The clients
  prove their round trips of documents from it.
\<close>

locale iso_codec =
  fixes L :: pylib
  assumes fromisoformat_isoformat: "in_range t \<Longrightarrow> fromisoformat L (isoformat t) = Some (Aware t)"
begin

lemma coerce_utc_isoformat [simp]:
  "in_range t \<Longrightarrow> coerce_utc L e1 e2 e3 (PStr (isoformat t)) = Inr t"
  by (simp add: coerce_utc_def fromisoformat_isoformat)

end

end
