(* ===== verification/Py_Json.thy ===== *)
theory Py_Json
  imports Py_Time
begin

text \<open>
  JSON as the code uses it: \<open>json.dumps\<close> with sorted keys, compact separators and
  \<open>ensure_ascii=False\<close> (\<open>canonical_json\<close>), and \<open>json.loads\<close> of such text.  The parser inverts
  the printer (\<open>parse_json_render\<close>), so the canonical text of a document determines the
  document up to the order of its keys (\<open>canonical_json_inj\<close>): this is what makes the
  hashes of canonical text identities.
\<close>

section \<open>Printing\<close>

definition hex_digit :: "nat \<Rightarrow> char" where
  "hex_digit n = (if n < 10 then char_of (n + 48) else char_of (n + 87))"

definition json_escape :: "char \<Rightarrow> string" where
  "json_escape c =
     (let n = of_char c :: nat in
      if n = 34 then [CHR 0x5C, CHR 0x22]
      else if n = 92 then [CHR 0x5C, CHR 0x5C]
      else if n = 10 then [CHR 0x5C, CHR ''n'']
      else if n = 13 then [CHR 0x5C, CHR ''r'']
      else if n = 9 then [CHR 0x5C, CHR ''t'']
      else if n = 12 then [CHR 0x5C, CHR ''f'']
      else if n = 8 then [CHR 0x5C, CHR ''b'']
      else if n < 32 then CHR 0x5C # ''u00'' @ [hex_digit (n div 16), hex_digit (n mod 16)]
      else [c])"

definition json_string :: "string \<Rightarrow> string" where
  "json_string s = CHR 0x22 # concat (map json_escape s) @ [CHR 0x22]"

fun render :: "pylib \<Rightarrow> pyobj \<Rightarrow> string"
  and render_list :: "pylib \<Rightarrow> pyobj list \<Rightarrow> string"
  and render_fields :: "pylib \<Rightarrow> (string \<times> pyobj) list \<Rightarrow> string" where
  "render L PNone = ''null''"
| "render L (PBool b) = (if b then ''true'' else ''false'')"
| "render L (PInt i) = show_int i"
| "render L (PFloat (Finite r)) = float_repr L r"
| "render L (PFloat _) = []"
| "render L (PStr s) = json_string s"
| "render L (PList xs) = ''['' @ render_list L xs @ '']''"
| "render L (PDict d) = ''{'' @ render_fields L d @ ''}''"
| "render L (PTime _) = []"
| "render L (PDelta _) = []"
| "render L (POther _) = []"
| "render_list L [] = []"
| "render_list L [x] = render L x"
| "render_list L (x # y # ys) = render L x @ '','' @ render_list L (y # ys)"
| "render_fields L [] = []"
| "render_fields L [(k, v)] = json_string k @ '':'' @ render L v"
| "render_fields L ((k, v) # f # fs) = json_string k @ '':'' @ render L v @ '','' @ render_fields L (f # fs)"

text \<open>The values \<open>json.dumps(..., allow_nan=False)\<close> accepts.\<close>

fun json_ok :: "pyobj \<Rightarrow> bool" where
  "json_ok (PFloat (Finite _)) = True"
| "json_ok (PFloat _) = False"
| "json_ok (PList xs) = list_all json_ok xs"
| "json_ok (PDict d) = list_all (\<lambda>kv. json_ok (snd kv)) d"
| "json_ok (PTime _) = False"
| "json_ok (PDelta _) = False"
| "json_ok (POther _) = False"
| "json_ok _ = True"

text \<open>\<open>sort_keys=True\<close>: every object's fields in the order of their keys.\<close>

fun sort_keys :: "pyobj \<Rightarrow> pyobj" where
  "sort_keys (PList xs) = PList (map sort_keys xs)"
| "sort_keys (PDict d) = PDict (sort_key fst (map (\<lambda>(k, v). (k, sort_keys v)) d))"
| "sort_keys x = x"

definition canonical_json :: "pylib \<Rightarrow> pyobj \<Rightarrow> string option" where
  "canonical_json L x = (if json_ok x then Some (render L (sort_keys x)) else None)"

text \<open>
  \<open>json.dumps\<close> with any of its layouts: the white space after an opening and before a closing
  bracket of a non-empty container, after a comma, and after a colon.  \<open>indent=2\<close> breaks the line
  and indents by the depth; the default layout puts one space; the compact one is \<open>render\<close>.
\<close>

record layout =
  lay_break :: "nat \<Rightarrow> string"
  lay_sep :: "nat \<Rightarrow> string"
  lay_colon :: string

definition compact_layout :: layout where
  "compact_layout = \<lparr>lay_break = (\<lambda>_. []), lay_sep = (\<lambda>_. []), lay_colon = []\<rparr>"

definition default_layout :: layout where
  "default_layout = \<lparr>lay_break = (\<lambda>_. []), lay_sep = (\<lambda>_. '' ''), lay_colon = '' ''\<rparr>"

definition indent_layout :: layout where
  "indent_layout =
     (let br = (\<lambda>k. CHR 0x0A # replicate (2 * k) CHR '' '')
      in \<lparr>lay_break = br, lay_sep = br, lay_colon = '' ''\<rparr>)"

fun dump :: "pylib \<Rightarrow> layout \<Rightarrow> nat \<Rightarrow> pyobj \<Rightarrow> string"
  and dump_list :: "pylib \<Rightarrow> layout \<Rightarrow> nat \<Rightarrow> pyobj list \<Rightarrow> string"
  and dump_fields :: "pylib \<Rightarrow> layout \<Rightarrow> nat \<Rightarrow> (string \<times> pyobj) list \<Rightarrow> string" where
  "dump L y k (PList xs) = (if xs = [] then ''[]''
     else ''['' @ lay_break y (Suc k) @ dump_list L y (Suc k) xs @ lay_break y k @ '']'')"
| "dump L y k (PDict d) = (if d = [] then ''{}''
     else ''{'' @ lay_break y (Suc k) @ dump_fields L y (Suc k) d @ lay_break y k @ ''}'')"
| "dump L y k x = render L x"
| "dump_list L y k [] = []"
| "dump_list L y k [x] = dump L y k x"
| "dump_list L y k (x # x' # xs) = dump L y k x @ '','' @ lay_sep y k @ dump_list L y k (x' # xs)"
| "dump_fields L y k [] = []"
| "dump_fields L y k [(f, v)] = json_string f @ '':'' @ lay_colon y @ dump L y k v"
| "dump_fields L y k ((f, v) # f' # fs) =
     json_string f @ '':'' @ lay_colon y @ dump L y k v @ '','' @ lay_sep y k @ dump_fields L y k (f' # fs)"

lemmas dump_cases_induct = dump_dump_list_dump_fields.induct
  [case_names 1 2 pnone pbool pint pfloat pstr ptime pdelta pother 4 5 6 7 8 9]

lemma dump_compact:
  shows "dump L compact_layout k x = render L x"
    and "dump_list L compact_layout k xs = render_list L xs"
    and "dump_fields L compact_layout k d = render_fields L d"
  by (induction L "compact_layout" k x and L "compact_layout" k xs and L "compact_layout" k d
      rule: dump_cases_induct) (simp_all add: compact_layout_def)

text \<open>\<open>json.dumps(obj, ensure_ascii=False, indent=2)\<close>.\<close>

definition json_dumps_indent :: "pylib \<Rightarrow> pyobj \<Rightarrow> string" where
  "json_dumps_indent L x = dump L indent_layout 0 x"

section \<open>Parsing\<close>

definition take_word :: "string \<Rightarrow> 'a \<Rightarrow> string \<Rightarrow> ('a \<times> string) option" where
  "take_word w x s = (if is_prefix w s then Some (x, drop (length w) s) else None)"

definition json_space :: "char \<Rightarrow> bool" where
  "json_space c \<longleftrightarrow> c \<in> {CHR '' '', CHR 0x09, CHR 0x0A, CHR 0x0D}"

definition skip_ws :: "string \<Rightarrow> string" where
  "skip_ws s = dropWhile json_space s"

definition hex_val :: "char \<Rightarrow> nat" where
  "hex_val c = (let n = of_char c in if n < 58 then n - 48 else n - 87)"

text \<open>One character of a string literal and the rest of the text.\<close>

definition unescape_code :: "char \<Rightarrow> string \<Rightarrow> (char \<times> string) option" where
  "unescape_code d t =
     (if d = CHR ''n'' then Some (CHR 0x0A, t)
      else if d = CHR ''r'' then Some (CHR 0x0D, t)
      else if d = CHR ''t'' then Some (CHR 0x09, t)
      else if d = CHR ''f'' then Some (CHR 0x0C, t)
      else if d = CHR ''b'' then Some (CHR 0x08, t)
      else if d = CHR ''u'' then
        (case t of _ # _ # a # b # u \<Rightarrow> Some (char_of (16 * hex_val a + hex_val b), u) | _ \<Rightarrow> None)
      else Some (d, t))"

definition unescape :: "string \<Rightarrow> (char \<times> string) option" where
  "unescape s = (case s of
      [] \<Rightarrow> None
    | c # s \<Rightarrow> if c \<noteq> CHR 0x5C then Some (c, s)
               else (case s of [] \<Rightarrow> None | d # t \<Rightarrow> unescape_code d t))"

lemma unescape_code_shorter: "unescape_code d t = Some (c, u) \<Longrightarrow> length u \<le> length t"
  by (auto simp: unescape_code_def split: if_splits list.splits)

lemma unescape_shorter: "unescape s = Some (c, t) \<Longrightarrow> length t < length s"
  by (auto simp: unescape_def split: if_splits list.splits dest!: unescape_code_shorter)

function parse_string :: "string \<Rightarrow> (string \<times> string) option" where
  "parse_string s =
     (case s of [] \<Rightarrow> None
      | q # s' \<Rightarrow> if q = CHR 0x22 then Some ([], s')
        else (case unescape s of None \<Rightarrow> None
              | Some (c, t) \<Rightarrow> map_option (\<lambda>(cs, r). (c # cs, r)) (parse_string t)))"
  by pat_completeness auto
termination
proof (relation "measure length")
  fix s x y xy c t assume "s = x # y" "unescape s = Some xy" "(c, t) = xy"
  then show "(t, s) \<in> measure length" using unescape_shorter [of s c t] by simp
qed simp

declare parse_string.simps [simp del]

definition parse_number :: "string \<Rightarrow> (pyobj \<times> string) option" where
  "parse_number s =
     (let neg = (s \<noteq> [] \<and> hd s = CHR ''-''); u = (if neg then tl s else s);
          ds = takeWhile is_digit u
      in if ds = [] then None
         else Some (PInt ((if neg then -1 else 1) * int (read_nat 0 ds)), drop (length ds) u))"

text \<open>Fuel bounds the nesting and the number of elements; the length of the text is enough.\<close>

fun parse_value :: "nat \<Rightarrow> string \<Rightarrow> (pyobj \<times> string) option"
  and parse_elems :: "nat \<Rightarrow> string \<Rightarrow> (pyobj list \<times> string) option"
  and parse_fields :: "nat \<Rightarrow> string \<Rightarrow> ((string \<times> pyobj) list \<times> string) option" where
  "parse_value 0 s = None"
| "parse_value (Suc n) s =
     (case skip_ws s of [] \<Rightarrow> None
      | c # t \<Rightarrow>
        if c = CHR ''n'' then take_word ''null'' PNone (c # t)
        else if c = CHR ''t'' then take_word ''true'' (PBool True) (c # t)
        else if c = CHR ''f'' then take_word ''false'' (PBool False) (c # t)
        else if c = CHR 0x22 then map_option (\<lambda>(k, r). (PStr k, r)) (parse_string t)
        else if c = CHR ''['' then
          (if take_char (CHR '']'') (skip_ws t) \<noteq> None then Some (PList [], tl (skip_ws t))
           else map_option (\<lambda>(xs, r). (PList xs, r)) (parse_elems n t))
        else if c = CHR ''{'' then
          (if take_char (CHR ''}'') (skip_ws t) \<noteq> None then Some (PDict [], tl (skip_ws t))
           else map_option (\<lambda>(d, r). (PDict d, r)) (parse_fields n t))
        else parse_number (c # t))"
| "parse_elems 0 s = None"
| "parse_elems (Suc n) s = do {
     (x, s) \<leftarrow> parse_value n s;
     (case skip_ws s of [] \<Rightarrow> None
      | c # s \<Rightarrow>
        if c = CHR '','' then do { (xs, s) \<leftarrow> parse_elems n s; Some (x # xs, s) }
        else if c = CHR '']'' then Some ([x], s)
        else None) }"
| "parse_fields 0 s = None"
| "parse_fields (Suc n) s = do {
     s \<leftarrow> take_char (CHR 0x22) (skip_ws s);
     (k, s) \<leftarrow> parse_string s;
     s \<leftarrow> take_char (CHR '':'') (skip_ws s);
     (v, s) \<leftarrow> parse_value n s;
     (case skip_ws s of [] \<Rightarrow> None
      | c # s \<Rightarrow>
        if c = CHR '','' then do { (d, s) \<leftarrow> parse_fields n s; Some ((k, v) # d, s) }
        else if c = CHR ''}'' then Some ([(k, v)], s)
        else None) }"

definition parse_json :: "string \<Rightarrow> pyobj option" where
  "parse_json s = (case parse_value (length s + 1) s of
      Some (x, r) \<Rightarrow> if skip_ws r = [] then Some x else None | None \<Rightarrow> None)"

section \<open>The parser inverts the printer\<close>

lemma of_char_escaped:
  "(of_char c :: nat) = 34 \<longleftrightarrow> c = CHR 0x22" "(of_char c :: nat) = 92 \<longleftrightarrow> c = CHR 0x5C"
  "(of_char c :: nat) = 10 \<longleftrightarrow> c = CHR 0x0A" "(of_char c :: nat) = 13 \<longleftrightarrow> c = CHR 0x0D"
  "(of_char c :: nat) = 9 \<longleftrightarrow> c = CHR 0x09" "(of_char c :: nat) = 12 \<longleftrightarrow> c = CHR 0x0C"
  "(of_char c :: nat) = 8 \<longleftrightarrow> c = CHR 0x08"
  using of_char_eq_iff [where 'a = nat, of c "CHR 0x22"] of_char_eq_iff [where 'a = nat, of c "CHR 0x5C"]
    of_char_eq_iff [where 'a = nat, of c "CHR 0x0A"] of_char_eq_iff [where 'a = nat, of c "CHR 0x0D"]
    of_char_eq_iff [where 'a = nat, of c "CHR 0x09"] of_char_eq_iff [where 'a = nat, of c "CHR 0x0C"]
    of_char_eq_iff [where 'a = nat, of c "CHR 0x08"]
  by simp_all

lemma hex_val_digit [simp]: "n < 16 \<Longrightarrow> hex_val (hex_digit n) = n"
  by (simp add: hex_val_def hex_digit_def Let_def)

lemma unescape_backslash [simp]: "unescape (CHR 0x5C # d # t) = unescape_code d t"
  by (simp add: unescape_def)

lemma unescape_plain [simp]: "c \<noteq> CHR 0x5C \<Longrightarrow> unescape (c # s) = Some (c, s)"
  by (simp add: unescape_def)

lemma unescape_control:
  assumes "(of_char c :: nat) < 32"
  shows "unescape_code CHR ''u'' (CHR ''0'' # CHR ''0''
      # hex_digit (of_char c div 16) # hex_digit (of_char c mod 16) # s) = Some (c, s)"
proof -
  have "16 * (of_char c div 16) + of_char c mod 16 = (of_char c :: nat)" by simp
  then have "char_of (16 * (of_char c div 16) + of_char c mod 16 :: nat) = c"
    by (simp only: char_of_char)
  with assms show ?thesis by (simp add: unescape_code_def)
qed

lemma unescape_escape: "unescape (json_escape c @ s) = Some (c, s)"
proof -
  consider "c = CHR 0x22" | "c = CHR 0x5C" | "c = CHR 0x0A" | "c = CHR 0x0D" | "c = CHR 0x09"
    | "c = CHR 0x0C" | "c = CHR 0x08"
    | (plain) "c \<notin> {CHR 0x22, CHR 0x5C, CHR 0x0A, CHR 0x0D, CHR 0x09, CHR 0x0C, CHR 0x08}" by auto
  then show ?thesis
  proof cases
    case plain
    then have "json_escape c = (if (of_char c :: nat) < 32
        then CHR 0x5C # ''u00'' @ [hex_digit (of_char c div 16), hex_digit (of_char c mod 16)] else [c])"
      by (simp add: json_escape_def Let_def of_char_escaped)
    with plain unescape_control show ?thesis by simp
  qed (simp_all add: json_escape_def unescape_code_def)
qed

lemma escape_head: "\<exists>d t. json_escape c = d # t \<and> d \<noteq> CHR 0x22"
  by (auto simp: json_escape_def Let_def)

lemma parse_string_escape: "parse_string (concat (map json_escape s) @ CHR 0x22 # r) = Some (s, r)"
proof (induction s)
  case Nil
  show ?case by (simp add: parse_string.simps)
next
  case (Cons c s)
  let ?u = "concat (map json_escape s) @ CHR 0x22 # r"
  obtain d t where d: "json_escape c = d # t" "d \<noteq> CHR 0x22" using escape_head by blast
  have "unescape (d # t @ ?u) = Some (c, ?u)"
    using unescape_escape [of c ?u] by (simp add: d)
  then show ?case using Cons.IH by (subst parse_string.simps) (simp add: d)
qed

lemma parse_json_string: "parse_string (tl (json_string s) @ r) = Some (s, r)"
  by (simp add: json_string_def parse_string_escape)

text \<open>Documents of integers, strings, booleans and nulls, and their sizes.\<close>

fun plain :: "pyobj \<Rightarrow> bool" where
  "plain (PList xs) = list_all plain xs"
| "plain (PDict d) = list_all (\<lambda>kv. plain (snd kv)) d"
| "plain (PFloat _) = False"
| "plain (PTime _) = False"
| "plain (PDelta _) = False"
| "plain (POther _) = False"
| "plain _ = True"

fun vsize :: "pyobj \<Rightarrow> nat"
  and lsize :: "pyobj list \<Rightarrow> nat"
  and fsize :: "(string \<times> pyobj) list \<Rightarrow> nat" where
  "vsize (PList xs) = Suc (lsize xs)"
| "vsize (PDict d) = Suc (fsize d)"
| "vsize _ = 1"
| "lsize [] = 0"
| "lsize (x # xs) = Suc (vsize x + lsize xs)"
| "fsize [] = 0"
| "fsize ((k, v) # d) = Suc (vsize v + fsize d)"

definition nodigit :: "string \<Rightarrow> bool" where
  "nodigit s \<longleftrightarrow> (case s of [] \<Rightarrow> True | c # _ \<Rightarrow> \<not> is_digit c)"

lemma nodigit_simps [simp]: "nodigit []" "nodigit (c # s) \<longleftrightarrow> \<not> is_digit c"
  by (simp_all add: nodigit_def)

lemma not_digit_syntax [simp]:
  "\<not> is_digit CHR '',''" "\<not> is_digit CHR '']''" "\<not> is_digit CHR ''}''" "\<not> is_digit CHR '':''"
  "\<not> is_digit CHR ''n''" "\<not> is_digit CHR ''t''" "\<not> is_digit CHR ''f''" "\<not> is_digit CHR 0x22"
  "\<not> is_digit CHR ''[''" "\<not> is_digit CHR ''{''"
  by (simp_all add: is_digit_def)

lemma takeWhile_digits:
  assumes "\<forall>c\<in>set s. is_digit c" "nodigit r"
  shows "takeWhile is_digit (s @ r) = s"
proof -
  have "takeWhile is_digit r = []" using assms(2) by (cases r) auto
  then show ?thesis using assms(1) by (simp add: takeWhile_append2)
qed

lemma parse_number_show_int:
  assumes "nodigit r"
  shows "parse_number (show_int i @ r) = Some (PInt i, r)"
proof -
  have hd: "\<exists>c s. show_nat n = c # s \<and> is_digit c" for n
    using show_nat_nonempty [of n] show_nat_digits [of _ n] by (cases "show_nat n") auto
  have tw: "takeWhile is_digit (show_nat n @ r) = show_nat n" for n
    by (rule takeWhile_digits) (use show_nat_digits assms in auto)
  have minus: "hd (show_nat n @ r) \<noteq> CHR ''-''" for n using hd [of n] not_is_digit_minus by auto
  show ?thesis
    using tw minus by (simp add: parse_number_def show_int_def Let_def read_nat_show_nat)
qed

lemma show_int_head: "\<exists>c s. show_int i = c # s \<and> (is_digit c \<or> c = CHR ''-'')"
proof (cases "i < 0")
  case False
  then show ?thesis
    using show_nat_nonempty [of "nat i"] show_nat_digits [of _ "nat i"]
    by (cases "show_nat (nat i)") (auto simp: show_int_def)
qed (auto simp: show_int_def)

text \<open>White space before a token does not matter.\<close>

definition blank_text :: "string \<Rightarrow> bool" where
  "blank_text s \<longleftrightarrow> list_all json_space s"

definition good_layout :: "layout \<Rightarrow> bool" where
  "good_layout y \<longleftrightarrow> (\<forall>k. blank_text (lay_break y k)) \<and> (\<forall>k. blank_text (lay_sep y k)) \<and> blank_text (lay_colon y)"

lemma skip_ws_blank [simp]: "blank_text w \<Longrightarrow> skip_ws (w @ s) = skip_ws s"
  unfolding skip_ws_def blank_text_def by (rule dropWhile_append2) (simp add: list_all_iff)

lemma skip_ws_token [simp]: "\<not> json_space c \<Longrightarrow> skip_ws (c # s) = c # s"
  by (simp add: skip_ws_def)

lemma skip_ws_Nil [simp]: "skip_ws [] = []"
  by (simp add: skip_ws_def)

lemma not_space_syntax [simp]:
  "\<not> json_space CHR '',''" "\<not> json_space CHR '']''" "\<not> json_space CHR ''}''" "\<not> json_space CHR '':''"
  "\<not> json_space CHR ''n''" "\<not> json_space CHR ''t''" "\<not> json_space CHR ''f''" "\<not> json_space CHR 0x22"
  "\<not> json_space CHR ''[''" "\<not> json_space CHR ''{''" "\<not> json_space CHR ''-''"
  by (simp_all add: json_space_def)

lemma not_space_digit: "is_digit c \<Longrightarrow> \<not> json_space c"
  by (auto simp: is_digit_def json_space_def)

lemma space_not_digit: "json_space c \<Longrightarrow> \<not> is_digit c"
  using not_space_digit by blast

lemma nodigit_blank [simp]: "blank_text w \<Longrightarrow> nodigit (w @ s) \<longleftrightarrow> w \<noteq> [] \<or> nodigit s"
  by (cases w) (auto simp: blank_text_def space_not_digit)

lemma good_layouts [simp]: "good_layout compact_layout" "good_layout default_layout" "good_layout indent_layout"
  by (auto simp: good_layout_def compact_layout_def default_layout_def indent_layout_def Let_def blank_text_def
      json_space_def list_all_iff)

lemma parse_value_blank:
  "blank_text w \<Longrightarrow> parse_value n (w @ s) = parse_value n s"
  by (cases n) simp_all

lemma parse_elems_blank:
  "blank_text w \<Longrightarrow> parse_elems n (w @ s) = parse_elems n s"
  by (cases n) (simp_all add: parse_value_blank del: parse_value.simps)

lemma parse_fields_blank:
  "blank_text w \<Longrightarrow> parse_fields n (w @ s) = parse_fields n s"
  by (cases n) simp_all

lemma dump_head:
  "plain x \<Longrightarrow> \<exists>c s. dump L y k x = c # s \<and> c \<noteq> CHR '']'' \<and> c \<noteq> CHR ''}'' \<and> \<not> json_space c"
  using show_int_head [of "case x of PInt i \<Rightarrow> i | _ \<Rightarrow> 0"]
  by (cases x) (auto simp: json_string_def not_space_digit)

lemma dump_list_head:
  "list_all plain xs \<Longrightarrow> xs \<noteq> [] \<Longrightarrow>
     \<exists>c s. dump_list L y k xs = c # s \<and> c \<noteq> CHR '']'' \<and> \<not> json_space c"
  using dump_head [of "hd xs" L y k] by (cases xs rule: list.exhaust; cases "tl xs") auto

lemma dump_fields_head: "d \<noteq> [] \<Longrightarrow> \<exists>s. dump_fields L y k d = CHR 0x22 # s"
  by (cases d rule: list.exhaust; cases "tl d") (auto simp: json_string_def)

lemma parse_value_int:
  "nodigit r \<Longrightarrow> parse_value (Suc n) (show_int i @ r) = Some (PInt i, r)"
  using show_int_head [of i] parse_number_show_int [of r i]
  by (auto simp: not_space_digit simp del: show_int_inj)

lemma parse_dump:
  shows "good_layout y \<Longrightarrow> plain x \<Longrightarrow> vsize x \<le> n \<Longrightarrow> nodigit r \<Longrightarrow> parse_value n (dump L y k x @ r) = Some (x, r)"
    and "good_layout y \<Longrightarrow> list_all plain xs \<Longrightarrow> xs \<noteq> [] \<Longrightarrow> lsize xs \<le> m \<Longrightarrow> blank_text w \<Longrightarrow>
      parse_elems m (dump_list L y k xs @ w @ CHR '']'' # s) = Some (xs, s)"
    and "good_layout y \<Longrightarrow> list_all (\<lambda>kv. plain (snd kv)) d \<Longrightarrow> d \<noteq> [] \<Longrightarrow> fsize d \<le> i \<Longrightarrow> blank_text w' \<Longrightarrow>
      parse_fields i (dump_fields L y k d @ w' @ CHR ''}'' # t) = Some (d, t)"
proof (induction L y k x and L y k xs and L y k d arbitrary: n r and m s w and i t w'
    rule: dump_cases_induct)
  case (1 L y k xs)
  then obtain n' where n: "n = Suc n'" "lsize xs \<le> n'" by (cases n) auto
  have br: "blank_text (lay_break y i)" for i using 1(2) by (simp add: good_layout_def)
  show ?case
  proof (cases "xs = []")
    case True
    then show ?thesis by (simp add: n)
  next
    case False
    with 1 obtain c u where "dump_list L y (Suc k) xs = c # u" "c \<noteq> CHR '']''" "\<not> json_space c"
      using dump_list_head [of xs L y "Suc k"] by auto
    with 1 n False br show ?thesis by (simp add: parse_elems_blank)
  qed
next
  case (2 L y k d)
  then obtain n' where n: "n = Suc n'" "fsize d \<le> n'" by (cases n) auto
  have br: "blank_text (lay_break y i)" for i using 2(2) by (simp add: good_layout_def)
  show ?case
  proof (cases "d = []")
    case True
    then show ?thesis by (simp add: n)
  next
    case False
    then obtain u where "dump_fields L y (Suc k) d = CHR 0x22 # u" using dump_fields_head [of d L y "Suc k"] by auto
    with 2 n False br show ?thesis by (simp add: parse_fields_blank)
  qed
next
  case (pnone L y k)
  then show ?case by (cases n) (auto simp: take_word_def)
next
  case (pbool L y k b)
  then show ?case by (cases n) (auto simp: take_word_def)
next
  case (pint L y k i)
  then show ?case by (cases n) (simp_all add: parse_value_int del: parse_value.simps(2))
next
  case (pstr L y k u)
  then show ?case by (cases n) (auto simp: json_string_def parse_string_escape)
next
  case (5 L y k x)
  then show ?case by (cases m) (auto simp del: parse_value.simps)
next
  case (6 L y k x x' xs)
  then have "blank_text (lay_sep y k)" by (simp add: good_layout_def)
  with 6 show ?case by (cases m) (auto simp: parse_elems_blank simp del: parse_value.simps)
next
  case (8 L y k f v)
  then have "blank_text (lay_colon y)" by (simp add: good_layout_def)
  with 8 show ?case
    by (cases i) (auto simp: json_string_def parse_string_escape parse_value_blank simp del: parse_value.simps)
next
  case (9 L y k f v f' fs)
  then have "blank_text (lay_colon y)" "blank_text (lay_sep y k)" by (simp_all add: good_layout_def)
  with 9 show ?case
    by (cases i) (auto simp: json_string_def parse_string_escape parse_value_blank parse_fields_blank
        simp del: parse_value.simps)
qed auto

lemma size_le_dump:
  shows "plain x \<Longrightarrow> vsize x \<le> length (dump L y k x)"
    and "list_all plain xs \<Longrightarrow> lsize xs \<le> Suc (length (dump_list L y k xs))"
    and "list_all (\<lambda>kv. plain (snd kv)) d \<Longrightarrow> fsize d \<le> Suc (length (dump_fields L y k d))"
proof (induction L y k x and L y k xs and L y k d rule: dump_cases_induct)
  case (pint L y k i)
  then show ?case using show_int_head [of i] by auto
qed (auto simp: json_string_def)

theorem parse_json_dump: "good_layout y \<Longrightarrow> plain x \<Longrightarrow> parse_json (dump L y k x) = Some x"
  using parse_dump(1) [of y x "length (dump L y k x) + 1" "[]" L k] size_le_dump(1) [of x L y k]
  by (simp add: parse_json_def)

theorem parse_json_render: "plain x \<Longrightarrow> parse_json (render L x) = Some x"
  using parse_json_dump [of compact_layout x L 0] by (simp add: dump_compact)

lemma render_inj: "plain x \<Longrightarrow> plain y \<Longrightarrow> render L x = render L y \<longleftrightarrow> x = y"
  by (metis option.inject parse_json_render)

lemma plain_sort_keys [simp]: "plain (sort_keys x) = plain x"
  by (induction x rule: sort_keys.induct) (auto simp: list_all_iff image_iff)

lemma plain_json_ok: "plain x \<Longrightarrow> json_ok x"
  by (induction x rule: plain.induct) (auto simp: list_all_iff)

lemma canonical_json_plain: "plain x \<Longrightarrow> canonical_json L x = Some (render L (sort_keys x))"
  by (simp add: canonical_json_def plain_json_ok)

theorem canonical_json_inj:
  assumes "plain x" "plain y" "canonical_json L x = canonical_json L y"
  shows "sort_keys x = sort_keys y"
  using assms render_inj [of "sort_keys x" "sort_keys y" L] by (simp add: canonical_json_plain)

text \<open>Sorting the keys forgets nothing but the order of the fields.\<close>

lemma sort_keys_dict_get:
  assumes "dict_wf d" and "sort_keys (PDict d) = PDict e"
  shows "map_of e k = map_option sort_keys (map_of d k)"
proof -
  let ?d = "map (\<lambda>(k, v). (k, sort_keys v)) d"
  have e: "e = sort_key fst ?d" using assms(2) by simp
  have fst: "map fst ?d = map fst d" by (induction d) auto
  have "mset (map fst (sort_key fst ?d)) = mset (map fst d)" by (simp only: mset_map mset_sort flip: fst)
  then have "distinct (map fst (sort_key fst ?d)) = distinct (map fst d)"
    by (rule mset_eq_imp_distinct_iff)
  moreover have "distinct (map fst ?d) = distinct (map fst d)" by (simp only: fst)
  ultimately have "map_of e = map_of ?d"
    using assms(1) map_of_inject_set [of "sort_key fst ?d" ?d]
    unfolding e dict_wf_def set_sort by blast
  then have "map_of e k = map_of ?d k" by simp
  also have "map_of ?d k = map_option sort_keys (map_of d k)" by (induction d) auto
  finally show ?thesis .
qed

lemma sort_keys_eq_get:
  assumes "sort_keys (PDict d) = sort_keys (PDict e)" and "dict_wf d" "dict_wf e"
  shows "map_option sort_keys (map_of d k) = map_option sort_keys (map_of e k)"
proof -
  obtain f where f: "sort_keys (PDict d) = PDict f" by simp
  with assms(1) have "sort_keys (PDict e) = PDict f" by simp
  with f assms(2,3) show ?thesis using sort_keys_dict_get by metis
qed

text \<open>The interface of the JSON printer and parser, for the values the documents are made of.\<close>

locale json_codec = iso_codec +
  assumes json_loads_dump: "good_layout y \<Longrightarrow> plain x \<Longrightarrow> json_loads L (dump L y k x) = Some x"
begin

lemma json_loads_render: "plain x \<Longrightarrow> json_loads L (render L x) = Some x"
  using json_loads_dump [of compact_layout x 0] by (simp add: dump_compact)

lemma json_loads_indent: "plain x \<Longrightarrow> json_loads L (json_dumps_indent L x) = Some x"
  by (simp add: json_dumps_indent_def json_loads_dump)

end

text \<open>The standard library with the parsers above, the offset of today and any hash function.\<close>

definition std_lib :: "(string \<Rightarrow> string) \<Rightarrow> pylib" where
  "std_lib h = \<lparr>sha256_hex = h, seoul_offset = (\<lambda>_. kst_offset), seoul_wall_offset = (\<lambda>_. kst_offset),
     fromisoformat = parse_iso,
     float_repr = (\<lambda>_. ''0.0''), json_loads = parse_json,
     str_of_object = (\<lambda>_. ''object'')\<rparr>"

lemma std_lib_simps [simp]:
  "sha256_hex (std_lib h) = h" "fromisoformat (std_lib h) = parse_iso"
  "seoul_offset (std_lib h) = (\<lambda>_. kst_offset)" "seoul_wall_offset (std_lib h) = (\<lambda>_. kst_offset)"
  "json_loads (std_lib h) = parse_json"
  by (simp_all add: std_lib_def)

interpretation std: json_codec "std_lib h" for h
  by unfold_locales (simp_all add: parse_iso_isoformat parse_json_dump)

end
