(* ===== verification/Recovery_Planner.thy ===== *)
theory Recovery_Planner
  imports Py_Json
begin

text \<open>
  The recovery planner (\<open>dags/common/recovery/planner.py\<close>): the policy, the candidates
  and their validation, the classification of one candidate, the admission of the sorted
  decisions under the job and API budgets, and the plan with its identity and metrics.
  The lemmas show which evidence each decision rests on, that the budgets hold, that no
  decision is lost, that replays are admitted before recollections, and that the plan
  does not depend on the order of the candidates when their identities differ.
\<close>

section \<open>Data\<close>

datatype recovery_action = RAW_REPLAY | RECOLLECT | BLOCKED | DEFERRED

fun action_value :: "recovery_action \<Rightarrow> string" where
  "action_value RAW_REPLAY = ''raw_replay''"
| "action_value RECOLLECT = ''recollect''"
| "action_value BLOCKED = ''blocked''"
| "action_value DEFERRED = ''deferred''"

definition planner_schema :: string where "planner_schema = ''weather-recovery-plan/v1''"

record recovery_policy =
  pol_max_jobs :: int
  pol_max_api_jobs :: int
  pol_max_recovery_age :: int
  pol_version :: string

text \<open>The constructor's arguments, before validation.\<close>

record raw_candidate =
  raw_domain :: pyobj
  raw_source_id :: pyobj
  raw_slot_key :: pyobj
  raw_slot_ids :: "pyobj list"
  raw_scheduled_at :: pyobj
  raw_deadline_at :: pyobj
  raw_recovery_boundary :: pyobj
  raw_expected_count :: pyobj
  raw_covered_count :: pyobj
  raw_manifest_verified :: pyobj
  raw_historical_query_allowed :: pyobj
  raw_normal_run_active :: pyobj
  raw_normal_run_id :: pyobj
  raw_last_failure_code :: pyobj
  raw_attempt_count :: pyobj

text \<open>A constructed candidate; its timestamps are kept as they were given.\<close>

record recovery_candidate =
  cand_domain :: string
  cand_source_id :: string
  cand_slot_key :: string
  cand_slot_ids :: "string list"
  cand_scheduled_at :: pyobj
  cand_deadline_at :: pyobj
  cand_recovery_boundary :: pyobj
  cand_expected_count :: int
  cand_covered_count :: int
  cand_manifest_verified :: bool
  cand_historical_query_allowed :: bool
  cand_normal_run_active :: bool
  cand_normal_run_id :: "string option"
  cand_last_failure_code :: "string option"
  cand_attempt_count :: int

record recovery_job =
  job_key :: string
  job_action :: recovery_action
  job_domain :: string
  job_source_id :: string
  job_slot_key :: string
  job_slot_ids :: "string list"
  job_priority :: int
  job_api_cost :: int
  job_reason_code :: string
  job_scheduled_at :: string
  job_deadline_at :: string
  job_evidence :: "pyobj pydict"

record recovery_plan =
  plan_id :: string
  plan_generated_at :: string
  plan_status :: string
  plan_jobs :: "recovery_job list"
  plan_blocked :: "recovery_job list"
  plan_deferred :: "recovery_job list"
  plan_metrics :: "(string \<times> int) list"
  plan_policy_version :: string

section \<open>Validation\<close>

definition required_identifier :: "pyobj \<Rightarrow> string \<Rightarrow> string result" where
  "required_identifier v field =
     (case v of
        PStr s \<Rightarrow> if safe_pattern ''._:+-'' 199 s then Inr s
                  else Inl (RecoveryPlannerError (field @ '' must be a non-empty safe identifier''))
      | _ \<Rightarrow> Inl (RecoveryPlannerError (field @ '' must be a non-empty safe identifier'')))"

definition non_negative_int :: "pyobj \<Rightarrow> string \<Rightarrow> int result" where
  "non_negative_int v field =
     (case v of
        PInt i \<Rightarrow> if i < 0 then Inl (RecoveryPlannerError (field @ '' must be a non-negative integer''))
                  else Inr i
      | _ \<Rightarrow> Inl (RecoveryPlannerError (field @ '' must be a non-negative integer'')))"

definition positive_int :: "pyobj \<Rightarrow> string \<Rightarrow> int result" where
  "positive_int v field =
     bind_result (non_negative_int v field)
       (\<lambda>i. if i = 0 then Inl (RecoveryPlannerError (field @ '' must be positive'')) else Inr i)"

definition planner_aware_utc :: "pylib \<Rightarrow> pyobj \<Rightarrow> string \<Rightarrow> int result" where
  "planner_aware_utc L v field =
     coerce_utc L
       (RecoveryPlannerError (field @ '' must be an ISO timestamp''))
       (RecoveryPlannerError (field @ '' must be a datetime or ISO timestamp''))
       (RecoveryPlannerError (field @ '' must include timezone'')) v"

definition required_bool :: "pyobj \<Rightarrow> string \<Rightarrow> bool result" where
  "required_bool v field =
     (case v of PBool b \<Rightarrow> Inr b | _ \<Rightarrow> Inl (RecoveryPlannerError (field @ '' must be a bool'')))"

definition optional_identifier :: "pyobj \<Rightarrow> string \<Rightarrow> string option result" where
  "optional_identifier v field =
     (case v of PNone \<Rightarrow> Inr None
      | _ \<Rightarrow> bind_result (required_identifier v field) (\<lambda>s. Inr (Some s)))"

text \<open>
  \<open>a < b\<close> on two timestamps that are given as datetimes or as strings: strings compare as
  strings, and a string does not compare with a datetime.
\<close>

definition raw_time_less :: "pyobj \<Rightarrow> pyobj \<Rightarrow> bool result" where
  "raw_time_less a b =
     (case (a, b) of
        (PTime (Aware s), PTime (Aware t)) \<Rightarrow> Inr (s < t)
      | (PStr s, PStr t) \<Rightarrow> Inr (s < t)
      | _ \<Rightarrow> Inl (TypeError ''ordering not supported between instances''))"

definition recovery_policy_init :: "pyobj \<Rightarrow> pyobj \<Rightarrow> pyobj \<Rightarrow> pyobj \<Rightarrow> recovery_policy result" where
  "recovery_policy_init max_jobs max_api_jobs max_age version =
     bind_result (positive_int max_jobs ''max_jobs'') (\<lambda>jobs.
     bind_result (non_negative_int max_api_jobs ''max_api_jobs'') (\<lambda>api.
     if api > jobs then Inl (RecoveryPlannerError ''max_api_jobs must not exceed max_jobs'')
     else bind_result
       (case max_age of
          PDelta d \<Rightarrow> if d \<le> 0 then Inl (RecoveryPlannerError ''max_recovery_age must be positive'') else Inr d
        | _ \<Rightarrow> Inl (RecoveryPlannerError ''max_recovery_age must be positive'')) (\<lambda>age.
     bind_result (required_identifier version ''policy_version'') (\<lambda>v.
     Inr \<lparr>pol_max_jobs = jobs, pol_max_api_jobs = api, pol_max_recovery_age = age, pol_version = v\<rparr>))))"

definition default_policy :: recovery_policy where
  "default_policy = \<lparr>pol_max_jobs = 3, pol_max_api_jobs = 1,
     pol_max_recovery_age = hours 24, pol_version = ''weather-recovery-policy-v1''\<rparr>"

definition recovery_candidate_init :: "pylib \<Rightarrow> raw_candidate \<Rightarrow> recovery_candidate result" where
  "recovery_candidate_init L r =
     bind_result (required_identifier (raw_domain r) ''domain'') (\<lambda>dom.
     bind_result (required_identifier (raw_source_id r) ''source_id'') (\<lambda>src.
     bind_result (required_identifier (raw_slot_key r) ''slot_key'') (\<lambda>key.
     if list_ex unhashable (raw_slot_ids r) then Inl (TypeError ''unhashable type'')
     else if raw_slot_ids r = [] \<or> \<not> py_distinct (raw_slot_ids r)
     then Inl (RecoveryPlannerError ''slot_ids must be a non-empty unique tuple'')
     else bind_result (traverse (\<lambda>v. required_identifier v ''slot_id'') (raw_slot_ids r)) (\<lambda>ids.
     bind_result (planner_aware_utc L (raw_scheduled_at r) ''scheduled_at'') (\<lambda>_.
     bind_result (planner_aware_utc L (raw_deadline_at r) ''deadline_at'') (\<lambda>_.
     bind_result (planner_aware_utc L (raw_recovery_boundary r) ''recovery_boundary'') (\<lambda>_.
     bind_result (raw_time_less (raw_deadline_at r) (raw_scheduled_at r)) (\<lambda>early.
     if early then Inl (RecoveryPlannerError ''deadline_at must not precede scheduled_at'')
     else bind_result (non_negative_int (raw_expected_count r) ''expected_count'') (\<lambda>expected.
     bind_result (non_negative_int (raw_covered_count r) ''covered_count'') (\<lambda>covered.
     if expected = 0 then Inl (RecoveryPlannerError ''expected_count must be positive'')
     else if covered > expected
     then Inl (RecoveryPlannerError ''covered_count must not exceed expected_count'')
     else if int (length ids) \<noteq> expected
     then Inl (RecoveryPlannerError
            ''slot_ids length must equal expected_count for a bounded recovery unit'')
     else bind_result (required_bool (raw_manifest_verified r) ''raw_manifest_verified'') (\<lambda>verified.
     bind_result (required_bool (raw_historical_query_allowed r) ''historical_query_allowed'') (\<lambda>hist.
     bind_result (required_bool (raw_normal_run_active r) ''normal_run_active'') (\<lambda>active.
     bind_result (optional_identifier (raw_normal_run_id r) ''normal_run_id'') (\<lambda>run.
     bind_result (optional_identifier (raw_last_failure_code r) ''last_failure_code'') (\<lambda>failure.
     bind_result (non_negative_int (raw_attempt_count r) ''attempt_count'') (\<lambda>attempts.
     Inr \<lparr>cand_domain = dom, cand_source_id = src, cand_slot_key = key, cand_slot_ids = ids,
          cand_scheduled_at = raw_scheduled_at r, cand_deadline_at = raw_deadline_at r,
          cand_recovery_boundary = raw_recovery_boundary r,
          cand_expected_count = expected, cand_covered_count = covered,
          cand_manifest_verified = verified, cand_historical_query_allowed = hist,
          cand_normal_run_active = active, cand_normal_run_id = run,
          cand_last_failure_code = failure, cand_attempt_count = attempts\<rparr>))))))))))))))))"

definition normalized_scheduled_at :: "pylib \<Rightarrow> recovery_candidate \<Rightarrow> int result" where
  "normalized_scheduled_at L c = planner_aware_utc L (cand_scheduled_at c) ''scheduled_at''"

definition normalized_deadline_at :: "pylib \<Rightarrow> recovery_candidate \<Rightarrow> int result" where
  "normalized_deadline_at L c = planner_aware_utc L (cand_deadline_at c) ''deadline_at''"

definition normalized_recovery_boundary :: "pylib \<Rightarrow> recovery_candidate \<Rightarrow> int result" where
  "normalized_recovery_boundary L c = planner_aware_utc L (cand_recovery_boundary c) ''recovery_boundary''"

section \<open>Identities\<close>

definition candidate_identity :: "recovery_candidate \<Rightarrow> string" where
  "candidate_identity c = str_join '':'' [cand_domain c, cand_source_id c, cand_slot_key c]"

text \<open>\<open>json.dumps(..., sort_keys=True)\<close> of a document of strings, integers and booleans.\<close>

definition planner_json :: "pylib \<Rightarrow> pyobj \<Rightarrow> string" where
  "planner_json L x = render L (sort_keys x)"

definition job_material :: "recovery_candidate \<Rightarrow> recovery_action \<Rightarrow> pyobj" where
  "job_material c a = PDict
     [(''schema_version'', PStr planner_schema),
      (''domain'', PStr (cand_domain c)),
      (''source_id'', PStr (cand_source_id c)),
      (''slot_key'', PStr (cand_slot_key c)),
      (''action'', PStr (action_value a)),
      (''slot_ids'', PList (map PStr (sort (cand_slot_ids c))))]"

definition make_job_key :: "pylib \<Rightarrow> recovery_candidate \<Rightarrow> recovery_action \<Rightarrow> string" where
  "make_job_key L c a = ''weather-recovery/v1/'' @ sha256_hex L (planner_json L (job_material c a))"

definition plan_candidate_doc :: "pylib \<Rightarrow> recovery_candidate \<Rightarrow> pyobj result" where
  "plan_candidate_doc L c =
     bind_result (normalized_scheduled_at L c) (\<lambda>scheduled.
     bind_result (normalized_deadline_at L c) (\<lambda>deadline.
     bind_result (normalized_recovery_boundary L c) (\<lambda>boundary.
     Inr (PDict
       [(''identity'', PStr (candidate_identity c)),
        (''slot_ids'', PList (map PStr (sort (cand_slot_ids c)))),
        (''scheduled_at'', PStr (isoformat scheduled)),
        (''deadline_at'', PStr (isoformat deadline)),
        (''recovery_boundary'', PStr (isoformat boundary)),
        (''expected_count'', PInt (cand_expected_count c)),
        (''covered_count'', PInt (cand_covered_count c)),
        (''raw_manifest_verified'', PBool (cand_manifest_verified c)),
        (''historical_query_allowed'', PBool (cand_historical_query_allowed c)),
        (''normal_run_active'', PBool (cand_normal_run_active c)),
        (''last_failure_code'', opt_obj (cand_last_failure_code c))]))))"

definition make_plan_id :: "pylib \<Rightarrow> recovery_candidate list \<Rightarrow> recovery_policy \<Rightarrow> string result" where
  "make_plan_id L cs pol =
     bind_result (traverse (plan_candidate_doc L) (sort_key candidate_identity cs)) (\<lambda>docs.
     Inr (sha256_hex L (planner_json L (PDict
       [(''schema_version'', PStr planner_schema),
        (''policy_version'', PStr (pol_version pol)),
        (''candidates'', PList docs)]))))"

section \<open>Decisions\<close>

definition job_for_action ::
  "pylib \<Rightarrow> recovery_candidate \<Rightarrow> recovery_action \<Rightarrow> int \<Rightarrow> int \<Rightarrow> string \<Rightarrow> pyobj pydict
     \<Rightarrow> recovery_job result" where
  "job_for_action L c a priority api_cost reason evidence =
     bind_result (normalized_scheduled_at L c) (\<lambda>scheduled.
     bind_result (normalized_deadline_at L c) (\<lambda>deadline.
     Inr \<lparr>job_key = make_job_key L c a, job_action = a,
          job_domain = cand_domain c, job_source_id = cand_source_id c,
          job_slot_key = cand_slot_key c, job_slot_ids = sort (cand_slot_ids c),
          job_priority = priority, job_api_cost = api_cost, job_reason_code = reason,
          job_scheduled_at = isoformat scheduled, job_deadline_at = isoformat deadline,
          job_evidence = evidence\<rparr>))"

definition job_for_blocked ::
  "pylib \<Rightarrow> recovery_candidate \<Rightarrow> string \<Rightarrow> pyobj pydict \<Rightarrow> recovery_job result" where
  "job_for_blocked L c reason evidence = job_for_action L c BLOCKED 0 0 reason evidence"

definition job_for_deferred ::
  "pylib \<Rightarrow> recovery_candidate \<Rightarrow> string \<Rightarrow> pyobj pydict \<Rightarrow> recovery_job result" where
  "job_for_deferred L c reason evidence = job_for_action L c DEFERRED 0 0 reason evidence"

definition replace_job :: "recovery_job \<Rightarrow> recovery_action \<Rightarrow> string \<Rightarrow> recovery_job" where
  "replace_job j a reason = j\<lparr>job_action := a, job_reason_code := reason\<rparr>"

definition blocking_failure_codes :: "string list" where
  "blocking_failure_codes =
     [''auth_failed'', ''clock_skew'', ''data_contract_invalid'', ''invalid_contract'',
      ''quota_exhausted'']"

definition blocking_failure :: "string option \<Rightarrow> bool" where
  "blocking_failure f = (case f of None \<Rightarrow> False | Some s \<Rightarrow> s \<in> set blocking_failure_codes)"

definition classify :: "pylib \<Rightarrow> recovery_candidate \<Rightarrow> int \<Rightarrow> recovery_policy \<Rightarrow> recovery_job result" where
  "classify L c now pol =
     (if cand_normal_run_active c
      then job_for_deferred L c ''normal_run_active''
             [(''normal_run_id_present'', PBool (cand_normal_run_id c \<noteq> None))]
      else bind_result (normalized_deadline_at L c) (\<lambda>deadline.
      if deadline > now then job_for_deferred L c ''slot_not_due'' []
      else if blocking_failure (cand_last_failure_code c)
      then job_for_blocked L c ''deterministic_source_failure''
             [(''failure_code'', opt_obj (cand_last_failure_code c))]
      else bind_result (normalized_scheduled_at L c) (\<lambda>scheduled.
      let age = now - scheduled in
      if age > pol_max_recovery_age pol
      then job_for_blocked L c ''recovery_age_exceeded'' [(''age_seconds'', PInt (age div 1000000))]
      else if cand_manifest_verified c \<and> cand_covered_count c \<noteq> cand_expected_count c
      then job_for_blocked L c ''incomplete_coverage''
             [(''expected_count'', PInt (cand_expected_count c)),
              (''covered_count'', PInt (cand_covered_count c))]
      else if cand_manifest_verified c
      then job_for_action L c RAW_REPLAY 100 0 ''raw_manifest_verified''
             [(''manifest_verified'', PBool True)]
      else if cand_historical_query_allowed c
      then job_for_action L c RECOLLECT 50 1 ''historical_query_allowed''
             [(''historical_query_allowed'', PBool True)]
      else job_for_blocked L c ''no_recovery_evidence'' [])))"

section \<open>The plan\<close>

fun action_order :: "recovery_action \<Rightarrow> int" where
  "action_order RAW_REPLAY = 0"
| "action_order RECOLLECT = 1"
| "action_order BLOCKED = 2"
| "action_order DEFERRED = 3"

type_synonym job_rank = "int \<times> int \<times> string \<times> string \<times> string"

definition job_rank :: "recovery_job \<Rightarrow> job_rank" where
  "job_rank j = (action_order (job_action j), - job_priority j, job_scheduled_at j, job_slot_key j, job_key j)"

text \<open>
  The first loop: candidates by identity, in insertion order, and a blocked decision for
  every later candidate that has the identity of an earlier, different one.
\<close>

definition dedup_step ::
  "pylib \<Rightarrow> recovery_candidate \<Rightarrow> (string \<times> recovery_candidate) list \<times> recovery_job list
     \<Rightarrow> ((string \<times> recovery_candidate) list \<times> recovery_job list) result" where
  "dedup_step L c st =
     (let identity = candidate_identity c in
      case map_of (fst st) identity of
        None \<Rightarrow> Inr (dict_set identity c (fst st), snd st)
      | Some previous \<Rightarrow>
          if previous \<noteq> c
          then bind_result
                 (job_for_blocked L c ''duplicate_candidate_conflict'' [(''identity'', PStr identity)])
                 (\<lambda>j. Inr (fst st, snd st @ [j]))
          else Inr st)"

record budget_state =
  adm_jobs :: "recovery_job list"
  adm_blocked :: "recovery_job list"
  adm_deferred :: "recovery_job list"
  adm_api :: int

definition admit_step :: "recovery_policy \<Rightarrow> budget_state \<Rightarrow> recovery_job \<Rightarrow> budget_state" where
  "admit_step pol st j =
     (if job_action j = BLOCKED then st\<lparr>adm_blocked := adm_blocked st @ [j]\<rparr>
      else if job_action j = DEFERRED then st\<lparr>adm_deferred := adm_deferred st @ [j]\<rparr>
      else if int (length (adm_jobs st)) \<ge> pol_max_jobs pol
      then st\<lparr>adm_deferred := adm_deferred st
               @ [replace_job j DEFERRED ''coordinator_job_budget_exhausted'']\<rparr>
      else if job_api_cost j \<noteq> 0 \<and> adm_api st + job_api_cost j > pol_max_api_jobs pol
      then st\<lparr>adm_deferred := adm_deferred st
               @ [replace_job j DEFERRED ''coordinator_api_budget_exhausted'']\<rparr>
      else st\<lparr>adm_jobs := adm_jobs st @ [j], adm_api := adm_api st + job_api_cost j\<rparr>)"

definition admit_all :: "recovery_policy \<Rightarrow> recovery_job list \<Rightarrow> budget_state" where
  "admit_all pol jobs = foldl (admit_step pol)
     \<lparr>adm_jobs = [], adm_blocked = [], adm_deferred = [], adm_api = 0\<rparr> jobs"

definition budget_reasons :: "string list" where
  "budget_reasons = [''coordinator_job_budget_exhausted'', ''coordinator_api_budget_exhausted'']"

definition status_of :: "budget_state \<Rightarrow> string" where
  "status_of st =
     (if adm_blocked st \<noteq> [] \<and> adm_jobs st = [] then ''blocked''
      else if adm_deferred st \<noteq> [] \<and> adm_jobs st = [] \<and> adm_blocked st = []
      then (if list_all (\<lambda>j. job_reason_code j \<in> set budget_reasons) (adm_deferred st)
            then ''budget_exhausted'' else ''deferred'')
      else if adm_jobs st \<noteq> [] then ''ready'' else ''empty'')"

definition count_action :: "recovery_action \<Rightarrow> recovery_job list \<Rightarrow> int" where
  "count_action a js = int (length (filter (\<lambda>j. job_action j = a) js))"

text \<open>What the plan is built from: the candidates by identity and the sorted decisions.\<close>

definition classified_jobs ::
  "pylib \<Rightarrow> recovery_candidate list \<Rightarrow> int \<Rightarrow> recovery_policy
     \<Rightarrow> (recovery_candidate list \<times> recovery_job list) result" where
  "classified_jobs L cs now pol =
     bind_result (fold_result (dedup_step L) cs ([], [])) (\<lambda>st.
     bind_result (traverse (\<lambda>c. classify L c now pol) (map snd (fst st))) (\<lambda>decided.
     Inr (map snd (fst st), sort_key job_rank (decided @ snd st))))"

definition plan_recovery ::
  "pylib \<Rightarrow> recovery_candidate list \<Rightarrow> pyobj \<Rightarrow> recovery_policy option \<Rightarrow> recovery_plan result" where
  "plan_recovery L cs now policy =
     (let pol = (case policy of None \<Rightarrow> default_policy | Some p \<Rightarrow> p) in
      bind_result (planner_aware_utc L now ''now'') (\<lambda>normalized_now.
      bind_result (classified_jobs L cs normalized_now pol) (\<lambda>(unique, jobs).
      let st = admit_all pol jobs in
      bind_result (make_plan_id L unique pol) (\<lambda>pid.
      Inr \<lparr>plan_id = pid, plan_generated_at = isoformat normalized_now,
           plan_status = status_of st,
           plan_jobs = adm_jobs st, plan_blocked = adm_blocked st, plan_deferred = adm_deferred st,
           plan_metrics =
             [(''candidate_count'', int (length cs)),
              (''unique_candidate_count'', int (length unique)),
              (''admitted_job_count'', int (length (adm_jobs st))),
              (''blocked_job_count'', int (length (adm_blocked st))),
              (''deferred_job_count'', int (length (adm_deferred st))),
              (''api_job_count'', adm_api st),
              (''raw_replay_count'', count_action RAW_REPLAY (adm_jobs st)),
              (''recollect_count'', count_action RECOLLECT (adm_jobs st))],
           plan_policy_version = pol_version pol\<rparr>))))"

section \<open>Documents\<close>

definition job_to_dict :: "recovery_job \<Rightarrow> pyobj" where
  "job_to_dict j = PDict
     [(''job_key'', PStr (job_key j)),
      (''action'', PStr (action_value (job_action j))),
      (''domain'', PStr (job_domain j)),
      (''source_id'', PStr (job_source_id j)),
      (''slot_key'', PStr (job_slot_key j)),
      (''slot_ids'', PList (map PStr (job_slot_ids j))),
      (''priority'', PInt (job_priority j)),
      (''api_cost'', PInt (job_api_cost j)),
      (''reason_code'', PStr (job_reason_code j)),
      (''scheduled_at'', PStr (job_scheduled_at j)),
      (''deadline_at'', PStr (job_deadline_at j)),
      (''evidence'', PDict (job_evidence j))]"

definition plan_to_dict :: "recovery_plan \<Rightarrow> pyobj" where
  "plan_to_dict p = PDict
     [(''schema_version'', PStr planner_schema),
      (''policy_version'', PStr (plan_policy_version p)),
      (''plan_id'', PStr (plan_id p)),
      (''generated_at'', PStr (plan_generated_at p)),
      (''status'', PStr (plan_status p)),
      (''mutation_performed'', PBool False),
      (''jobs'', PList (map job_to_dict (plan_jobs p))),
      (''blocked'', PList (map job_to_dict (plan_blocked p))),
      (''deferred'', PList (map job_to_dict (plan_deferred p))),
      (''metrics'', PDict (map (\<lambda>(k, n). (k, PInt n)) (plan_metrics p)))]"

section \<open>The budget loop\<close>

lemma admit_step_frame [record_frame]:
  "job_action j = BLOCKED \<Longrightarrow> adm_jobs (admit_step pol st j) = adm_jobs st"
  "job_action j = DEFERRED \<Longrightarrow> adm_jobs (admit_step pol st j) = adm_jobs st"
  by (simp_all add: admit_step_def)

lemma replace_job_simps [simp]:
  "job_key (replace_job j a r) = job_key j" "job_action (replace_job j a r) = a"
  "job_reason_code (replace_job j a r) = r" "job_api_cost (replace_job j a r) = job_api_cost j"
  "job_domain (replace_job j a r) = job_domain j" "job_source_id (replace_job j a r) = job_source_id j"
  "job_slot_key (replace_job j a r) = job_slot_key j" "job_slot_ids (replace_job j a r) = job_slot_ids j"
  by (simp_all add: replace_job_def)

text \<open>A decision of the state: admitted, blocked or deferred.\<close>

definition decisions :: "budget_state \<Rightarrow> recovery_job list" where
  "decisions st = adm_jobs st @ adm_blocked st @ adm_deferred st"

lemma foldl_invariant:
  "P s \<Longrightarrow> (\<And>s x. x \<in> set xs \<Longrightarrow> P s \<Longrightarrow> P (f s x)) \<Longrightarrow> P (foldl f s xs)"
  by (induction xs arbitrary: s) auto

lemma admit_all_job_budget:
  assumes "0 \<le> pol_max_jobs pol"
  shows "int (length (adm_jobs (admit_all pol js))) \<le> pol_max_jobs pol"
  unfolding admit_all_def
  by (rule foldl_invariant [where P = "\<lambda>st. int (length (adm_jobs st)) \<le> pol_max_jobs pol"])
    (use assms in \<open>auto simp: admit_step_def\<close>)

lemma admit_all_api_budget:
  assumes "0 \<le> pol_max_api_jobs pol"
  shows "adm_api (admit_all pol js) = sum_list (map job_api_cost (adm_jobs (admit_all pol js)))
       \<and> adm_api (admit_all pol js) \<le> pol_max_api_jobs pol"
  unfolding admit_all_def
  by (rule foldl_invariant [where P = "\<lambda>st. adm_api st = sum_list (map job_api_cost (adm_jobs st))
        \<and> adm_api st \<le> pol_max_api_jobs pol"])
    (use assms in \<open>auto simp: admit_step_def\<close>)

text \<open>Deferring for a budget keeps the projections of a decision that \<open>replace_job\<close> keeps.\<close>

lemma admit_all_mset:
  assumes "\<And>j a r. f (replace_job j a r) = f j"
  shows "mset (map f (decisions (admit_all pol js))) = mset (map f js)"
proof -
  have step: "mset (map f (decisions (admit_step pol st j))) = add_mset (f j) (mset (map f (decisions st)))"
    for st j by (simp add: admit_step_def decisions_def assms)
  have "mset (map f (decisions (foldl (admit_step pol) st js)))
      = mset (map f (decisions st)) + mset (map f js)" for st
    by (induction js arbitrary: st) (simp_all add: step [unfolded mset_map])
  then show ?thesis by (simp add: admit_all_def decisions_def)
qed

lemma admit_step_jobs:
  "j' \<in> set (adm_jobs (admit_step pol st j)) \<Longrightarrow>
     j' \<in> set (adm_jobs st) \<or> (j' = j \<and> job_action j \<noteq> BLOCKED \<and> job_action j \<noteq> DEFERRED)"
  by (auto simp: admit_step_def split: if_splits)

lemma admit_all_jobs_subset:
  assumes "j \<in> set (adm_jobs (admit_all pol js))"
  shows "j \<in> set js \<and> job_action j \<noteq> BLOCKED \<and> job_action j \<noteq> DEFERRED"
proof -
  have "\<forall>j\<in>set (adm_jobs (admit_all pol js)). j \<in> set js \<and> job_action j \<noteq> BLOCKED \<and> job_action j \<noteq> DEFERRED"
    unfolding admit_all_def
    by (rule foldl_invariant) (auto dest!: admit_step_jobs)
  with assms show ?thesis by blast
qed

text \<open>A deferred decision was classified so, or hit one of the two budgets.\<close>

definition deferred_from :: "recovery_job list \<Rightarrow> recovery_job \<Rightarrow> bool" where
  "deferred_from js d \<longleftrightarrow>
     (d \<in> set js \<and> job_action d = DEFERRED)
     \<or> (\<exists>j\<in>set js. \<exists>r\<in>set budget_reasons. d = replace_job j DEFERRED r
          \<and> job_action j \<noteq> BLOCKED \<and> job_action j \<noteq> DEFERRED)"

lemma admit_step_deferred:
  "d \<in> set (adm_deferred (admit_step pol st j)) \<Longrightarrow> d \<in> set (adm_deferred st) \<or> deferred_from [j] d"
  by (simp add: admit_step_def deferred_from_def budget_reasons_def split: if_splits) blast+

lemma deferred_from_mono: "deferred_from [j] d \<Longrightarrow> j \<in> set js \<Longrightarrow> deferred_from js d"
  by (auto simp: deferred_from_def)

lemma admit_fold_deferred_origin:
  assumes "d \<in> set (adm_deferred (foldl (admit_step pol) st js))"
  shows "d \<in> set (adm_deferred st) \<or> deferred_from js d"
proof -
  have "\<forall>d\<in>set (adm_deferred (foldl (admit_step pol) st js)).
      d \<in> set (adm_deferred st) \<or> deferred_from js d"
    by (rule foldl_invariant) (auto dest!: admit_step_deferred intro: deferred_from_mono)
  with assms show ?thesis by blast
qed

text \<open>Once the job budget is spent nothing more is admitted.\<close>

lemma admit_full:
  "pol_max_jobs pol \<le> int (length (adm_jobs st)) \<Longrightarrow>
     adm_jobs (foldl (admit_step pol) st js) = adm_jobs st"
proof (induction js arbitrary: st)
  case (Cons j js)
  then have "adm_jobs (admit_step pol st j) = adm_jobs st" by (simp add: admit_step_def)
  with Cons show ?case by simp
qed simp

text \<open>A run of free replays is admitted until the budget is spent.\<close>

lemma admit_replays:
  "\<forall>j\<in>set js. job_action j = RAW_REPLAY \<and> job_api_cost j = 0 \<Longrightarrow>
     int (length (adm_jobs st) + length js) \<le> pol_max_jobs pol \<Longrightarrow>
     foldl (admit_step pol) st js = st\<lparr>adm_jobs := adm_jobs st @ js\<rparr>"
proof (induction js arbitrary: st)
  case (Cons j js)
  then have "admit_step pol st j = st\<lparr>adm_jobs := adm_jobs st @ [j]\<rparr>" by (simp add: admit_step_def)
  with Cons show ?case by simp
qed simp

lemma admit_replays_full:
  assumes "\<forall>j\<in>set js. job_action j = RAW_REPLAY \<and> job_api_cost j = 0"
    and "pol_max_jobs pol < int (length (adm_jobs st) + length js)"
  shows "pol_max_jobs pol \<le> int (length (adm_jobs (foldl (admit_step pol) st js)))
    \<and> set (adm_jobs (foldl (admit_step pol) st js)) \<subseteq> set (adm_jobs st) \<union> set js"
  using assms
proof (induction js arbitrary: st)
  case (Cons j js)
  show ?case
  proof (cases "pol_max_jobs pol \<le> int (length (adm_jobs st))")
    case True
    from admit_full [OF this, of "j # js"] True show ?thesis by auto
  next
    case False
    with Cons.prems have "admit_step pol st j = st\<lparr>adm_jobs := adm_jobs st @ [j]\<rparr>"
      by (simp add: admit_step_def)
    with Cons.IH [of "admit_step pol st j"] Cons.prems False show ?thesis by auto
  qed
qed simp

text \<open>
  In a list ordered by rank the replays come first: a recollection is admitted only when
  every replay was.
\<close>

lemma replays_prefix:
  assumes "sorted (map job_rank js)"
  shows "js = filter (\<lambda>j. job_action j = RAW_REPLAY) js @ filter (\<lambda>j. job_action j \<noteq> RAW_REPLAY) js"
  using assms
proof (induction js)
  case (Cons j js)
  show ?case
  proof (cases "job_action j = RAW_REPLAY")
    case True
    with Cons show ?thesis by simp
  next
    case False
    have "job_action i \<noteq> RAW_REPLAY" if "i \<in> set js" for i
    proof
      assume "job_action i = RAW_REPLAY"
      moreover have "job_rank j \<le> job_rank i" using Cons.prems that by simp
      ultimately have "action_order (job_action j) \<le> 0" by (auto simp: job_rank_def less_eq_prod_def)
      with False show False by (cases "job_action j") auto
    qed
    then have "filter (\<lambda>j. job_action j = RAW_REPLAY) js = []"
      and "filter (\<lambda>j. job_action j \<noteq> RAW_REPLAY) js = js"
      by (auto simp: filter_empty_conv)
    with False show ?thesis by simp
  qed
qed simp

lemma recollect_admitted_all_replays:
  assumes sorted: "sorted (map job_rank js)"
    and free: "\<forall>j\<in>set js. job_action j = RAW_REPLAY \<longrightarrow> job_api_cost j = 0"
    and adm: "j \<in> set (adm_jobs (admit_all pol js))" "job_action j = RECOLLECT"
  shows "\<exists>st. admit_all pol js = foldl (admit_step pol) st (filter (\<lambda>j. job_action j \<noteq> RAW_REPLAY) js)
      \<and> adm_jobs st = filter (\<lambda>j. job_action j = RAW_REPLAY) js \<and> adm_deferred st = []"
proof -
  let ?rs = "filter (\<lambda>j. job_action j = RAW_REPLAY) js"
  let ?os = "filter (\<lambda>j. job_action j \<noteq> RAW_REPLAY) js"
  let ?s0 = "\<lparr>adm_jobs = [], adm_blocked = [], adm_deferred = [], adm_api = 0\<rparr>"
  let ?s1 = "foldl (admit_step pol) ?s0 ?rs"
  have all: "admit_all pol js = foldl (admit_step pol) ?s1 ?os"
    unfolding admit_all_def by (subst replays_prefix [OF sorted]) simp
  have rs: "\<forall>j\<in>set ?rs. job_action j = RAW_REPLAY \<and> job_api_cost j = 0" using free by auto
  show ?thesis
  proof (cases "int (length ?rs) \<le> pol_max_jobs pol")
    case True
    with admit_replays [OF rs, of ?s0 pol] all show ?thesis by auto
  next
    case False
    with admit_replays_full [OF rs, of pol ?s0]
    have full: "pol_max_jobs pol \<le> int (length (adm_jobs ?s1))" "set (adm_jobs ?s1) \<subseteq> set ?rs"
      by auto
    with admit_full [OF full(1), of ?os] adm all show ?thesis by auto
  qed
qed

section \<open>Constructed candidates\<close>

text \<open>What \<open>__post_init__\<close> establishes and the planner relies on.\<close>

definition candidate_wf :: "pylib \<Rightarrow> recovery_candidate \<Rightarrow> bool" where
  "candidate_wf L c \<longleftrightarrow>
     \<not> isl (normalized_scheduled_at L c) \<and> \<not> isl (normalized_deadline_at L c)
     \<and> \<not> isl (normalized_recovery_boundary L c)
     \<and> cand_slot_ids c \<noteq> [] \<and> distinct (cand_slot_ids c)
     \<and> int (length (cand_slot_ids c)) = cand_expected_count c
     \<and> 0 \<le> cand_covered_count c \<and> cand_covered_count c \<le> cand_expected_count c"

lemma required_identifier_Inr_iff [result_simps]:
  "required_identifier v f = Inr s \<longleftrightarrow> v = PStr s \<and> safe_pattern ''._:+-'' 199 s"
  by (auto simp: required_identifier_def split: pyobj.splits)

lemma non_negative_int_Inr_iff [result_simps]:
  "non_negative_int v f = Inr i \<longleftrightarrow> v = PInt i \<and> 0 \<le> i"
  by (auto simp: non_negative_int_def split: pyobj.splits)

lemma positive_int_Inr_iff [result_simps]: "positive_int v f = Inr i \<longleftrightarrow> v = PInt i \<and> 0 < i"
  by (auto simp: positive_int_def non_negative_int_def bind_result_def split: pyobj.splits)

lemma required_bool_Inr_iff [result_simps]: "required_bool v f = Inr b \<longleftrightarrow> v = PBool b"
  by (auto simp: required_bool_def split: pyobj.splits)

lemma traverse_identifiers:
  "traverse (\<lambda>v. required_identifier v f) vs = Inr ids \<Longrightarrow> vs = map PStr ids"
  by (induction vs arbitrary: ids) (auto simp: required_identifier_Inr_iff split: sum.splits)

lemma not_isl_iff: "\<not> isl r \<longleftrightarrow> (\<exists>x. r = Inr x)"
  by (cases r) auto

lemma Inr_if_Inl [result_simps]:
  "(if b then Inl e else r) = Inr x \<longleftrightarrow> \<not> b \<and> r = Inr x"
  by simp

lemma recovery_candidate_init_wf:
  assumes "recovery_candidate_init L r = Inr c"
  shows "candidate_wf L c"
  using assms
  unfolding recovery_candidate_init_def bind_result_Inr_iff Inr_if_Inl non_negative_int_Inr_iff
  by - (elim exE conjE, drule traverse_identifiers,
      auto simp: candidate_wf_def not_isl_iff normalized_scheduled_at_def normalized_deadline_at_def
      normalized_recovery_boundary_def)

section \<open>The classification of one candidate\<close>

text \<open>The recovery unit a decision is about.\<close>

definition cand_unit :: "recovery_candidate \<Rightarrow> string \<times> string \<times> string \<times> string list" where
  "cand_unit c = (cand_domain c, cand_source_id c, cand_slot_key c, sort (cand_slot_ids c))"

definition job_unit :: "recovery_job \<Rightarrow> string \<times> string \<times> string \<times> string list" where
  "job_unit j = (job_domain j, job_source_id j, job_slot_key j, job_slot_ids j)"

lemma job_unit_replace_job [simp]: "job_unit (replace_job j a r) = job_unit j"
  by (simp add: job_unit_def)

lemma job_for_action_Inr:
  assumes "job_for_action L c a p k r ev = Inr j"
  shows "job_unit j = cand_unit c" "job_action j = a" "job_api_cost j = k" "job_reason_code j = r"
    "job_key j = make_job_key L c a" "job_priority j = p"
  using assms by (auto simp: job_for_action_def result_simps job_unit_def cand_unit_def)

lemmas job_builder_defs = job_for_blocked_def job_for_deferred_def

lemma job_for_action_view:
  "job_for_action L c a p k r ev = Inr j \<Longrightarrow>
     job_unit j = cand_unit c \<and> job_action j = a \<and> job_api_cost j = k \<and> job_reason_code j = r
     \<and> job_key j = make_job_key L c a"
  by (simp add: job_for_action_Inr)

lemma job_for_action_total:
  "candidate_wf L c \<Longrightarrow> \<exists>j. job_for_action L c a p k r ev = Inr j"
  by (auto simp: candidate_wf_def not_isl_iff job_for_action_def)

text \<open>The evidence a decision to act requires at the instant \<open>now\<close>.\<close>

definition recovery_due :: "pylib \<Rightarrow> recovery_candidate \<Rightarrow> int \<Rightarrow> recovery_policy \<Rightarrow> bool" where
  "recovery_due L c now pol \<longleftrightarrow>
     \<not> cand_normal_run_active c \<and> \<not> blocking_failure (cand_last_failure_code c)
     \<and> (case (normalized_scheduled_at L c, normalized_deadline_at L c) of
          (Inr s, Inr d) \<Rightarrow> d \<le> now \<and> now - s \<le> pol_max_recovery_age pol
        | _ \<Rightarrow> False)"

text \<open>Which action the evidence of a candidate allows, if any.\<close>

definition allowed_action :: "recovery_candidate \<Rightarrow> recovery_action option" where
  "allowed_action c =
     (if cand_manifest_verified c
      then (if cand_covered_count c = cand_expected_count c then Some RAW_REPLAY else None)
      else if cand_historical_query_allowed c then Some RECOLLECT else None)"

lemma classify_unit: "classify L c now pol = Inr j \<Longrightarrow> job_unit j = cand_unit c"
  by (auto simp: classify_def job_builder_defs result_simps Let_def dest!: job_for_action_view
      split: if_splits)

lemma classify_cost:
  "classify L c now pol = Inr j \<Longrightarrow> job_api_cost j = (if job_action j = RECOLLECT then 1 else 0)"
  by (auto simp: classify_def job_builder_defs result_simps Let_def dest!: job_for_action_view
      split: if_splits)

lemma classify_key: "classify L c now pol = Inr j \<Longrightarrow> job_key j = make_job_key L c (job_action j)"
  by (auto simp: classify_def job_builder_defs result_simps Let_def dest!: job_for_action_view
      split: if_splits)

lemma classify_reason: "classify L c now pol = Inr j \<Longrightarrow> job_reason_code j \<notin> set budget_reasons"
  by (auto simp: classify_def job_builder_defs result_simps Let_def budget_reasons_def
      dest!: job_for_action_view split: if_splits)

lemma classify_due:
  assumes "classify L c now pol = Inr j" "job_action j = RAW_REPLAY \<or> job_action j = RECOLLECT"
  shows "recovery_due L c now pol \<and> allowed_action c = Some (job_action j)"
  using assms
  by (auto simp: classify_def job_builder_defs result_simps Let_def recovery_due_def allowed_action_def
      dest!: job_for_action_view split: if_splits)

lemma classify_total:
  assumes "candidate_wf L c" shows "\<exists>j. classify L c now pol = Inr j"
proof -
  obtain s d where "normalized_scheduled_at L c = Inr s" "normalized_deadline_at L c = Inr d"
    using assms by (auto simp: candidate_wf_def not_isl_iff)
  then show ?thesis
    using job_for_action_total [OF assms] by (simp add: classify_def job_builder_defs Let_def)
qed

section \<open>Candidates by identity\<close>

lemma dedup_step_Inr:
  assumes "dedup_step L c st = Inr st'"
  shows "(st' = (fst st @ [(candidate_identity c, c)], snd st) \<and> candidate_identity c \<notin> fst ` set (fst st))
    \<or> (candidate_identity c \<in> fst ` set (fst st) \<and> fst st' = fst st
       \<and> (snd st' = snd st \<or> (\<exists>j. snd st' = snd st @ [j] \<and> job_action j = BLOCKED \<and> job_unit j = cand_unit c
            \<and> job_reason_code j = ''duplicate_candidate_conflict'')))"
proof (cases "map_of (fst st) (candidate_identity c)")
  case None
  then have "candidate_identity c \<notin> fst ` set (fst st)" by (simp add: map_of_eq_None_iff)
  with None assms show ?thesis by (auto simp: dedup_step_def dict_set_fresh)
next
  case (Some d)
  then have "candidate_identity c \<in> fst ` set (fst st)" by (metis domI dom_map_of_conv_image_fst)
  with Some assms show ?thesis
    by (auto simp: dedup_step_def Let_def result_simps job_builder_defs dest!: job_for_action_view split: if_splits)
qed

text \<open>What the first loop has gathered from the candidates \<open>cs\<close>.\<close>

definition dedup_inv ::
  "recovery_candidate list \<Rightarrow> (string \<times> recovery_candidate) list \<times> recovery_job list \<Rightarrow> bool" where
  "dedup_inv cs st \<longleftrightarrow>
     distinct (map fst (fst st))
     \<and> (\<forall>(k, c)\<in>set (fst st). k = candidate_identity c \<and> c \<in> set cs)
     \<and> (\<forall>j\<in>set (snd st). job_action j = BLOCKED \<and> job_reason_code j = ''duplicate_candidate_conflict''
           \<and> (\<exists>c\<in>set cs. job_unit j = cand_unit c))"

lemma dedup_step_inv:
  "dedup_inv cs st \<Longrightarrow> c \<in> set cs \<Longrightarrow> dedup_step L c st = Inr st' \<Longrightarrow> dedup_inv cs st'"
  using dedup_step_Inr [of L c st st'] by (auto simp: dedup_inv_def)

lemma dedup_inv:
  assumes "fold_result (dedup_step L) cs ([], []) = Inr st"
  shows "dedup_inv cs st"
  by (rule fold_result_invariant [OF assms])
    (auto simp: dedup_inv_def [of cs "([], [])"] intro: dedup_step_inv)

lemma dedup_keys:
  "fold_result (dedup_step L) cs st = Inr st' \<Longrightarrow>
     fst ` set (fst st') = fst ` set (fst st) \<union> candidate_identity ` set cs"
proof (induction cs arbitrary: st)
  case (Cons c cs)
  then obtain st1 where st1: "dedup_step L c st = Inr st1" "fold_result (dedup_step L) cs st1 = Inr st'"
    by (auto split: sum.splits)
  have "fst ` set (fst st1) = fst ` set (fst st) \<union> {candidate_identity c}"
    using dedup_step_Inr [OF st1(1)] by auto
  with Cons.IH [OF st1(2)] show ?case by auto
qed simp

lemma dedup_total:
  "(\<forall>c\<in>set cs. candidate_wf L c) \<Longrightarrow> \<exists>st'. fold_result (dedup_step L) cs st = Inr st'"
proof (induction cs arbitrary: st)
  case (Cons c cs)
  obtain j where "job_for_blocked L c ''duplicate_candidate_conflict''
      [(''identity'', PStr (candidate_identity c))] = Inr j"
    using job_for_action_total [of L c] Cons.prems unfolding job_for_blocked_def by fastforce
  then have "\<exists>st1. dedup_step L c st = Inr st1"
    by (cases "map_of (fst st) (candidate_identity c)") (auto simp: dedup_step_def Let_def)
  then obtain st1 where "dedup_step L c st = Inr st1" by blast
  with Cons show ?case by simp
qed simp

text \<open>With distinct identities every candidate is kept and none is in conflict.\<close>

lemma dedup_distinct:
  assumes "distinct (map candidate_identity (ds @ cs))"
  shows "fold_result (dedup_step L) cs (map (\<lambda>c. (candidate_identity c, c)) ds, js)
    = Inr (map (\<lambda>c. (candidate_identity c, c)) (ds @ cs), js)"
  using assms
proof (induction cs arbitrary: ds)
  case (Cons c cs)
  let ?by = "map (\<lambda>c. (candidate_identity c, c)) ds"
  have fresh: "candidate_identity c \<notin> fst ` set ?by" using Cons.prems by (auto simp: image_image)
  then have "map_of ?by (candidate_identity c) = None" unfolding map_of_eq_None_iff .
  with fresh have "dedup_step L c (?by, js) = Inr (map (\<lambda>c. (candidate_identity c, c)) (ds @ [c]), js)"
    unfolding dedup_step_def Let_def by (simp add: dict_set_fresh)
  with Cons.IH [of "ds @ [c]"] Cons.prems show ?case by simp
qed simp

lemma classified_jobs_distinct:
  assumes "distinct (map candidate_identity cs)"
  shows "classified_jobs L cs now pol
    = bind_result (traverse (\<lambda>c. classify L c now pol) cs) (\<lambda>js. Inr (cs, sort_key job_rank js))"
  using dedup_distinct [of "[]" cs L "[]"] assms by (simp add: classified_jobs_def comp_def)

lemma classified_jobs_Inr:
  assumes "classified_jobs L cs now pol = Inr (us, js)"
  obtains st decided where "fold_result (dedup_step L) cs ([], []) = Inr st" "us = map snd (fst st)"
    "traverse (\<lambda>c. classify L c now pol) us = Inr decided" "js = sort_key job_rank (decided @ snd st)"
    "dedup_inv cs st"
  using assms dedup_inv by (auto simp: classified_jobs_def result_simps)

text \<open>Every decision comes from a candidate: by classification, or as a blocked duplicate.\<close>

lemma classified_jobs_origin:
  assumes "classified_jobs L cs now pol = Inr (us, js)" "j \<in> set js"
  shows "(\<exists>c\<in>set cs. classify L c now pol = Inr j)
    \<or> (job_action j = BLOCKED \<and> job_reason_code j = ''duplicate_candidate_conflict'')"
proof -
  from assms(1) obtain st decided where st: "us = map snd (fst st)"
    "traverse (\<lambda>c. classify L c now pol) us = Inr decided" "js = sort_key job_rank (decided @ snd st)"
    "dedup_inv cs st" by (rule classified_jobs_Inr)
  show ?thesis
  proof (cases "j \<in> set decided")
    case True
    then obtain c where "c \<in> set us" "classify L c now pol = Inr j"
      using traverse_set [OF st(2)] by blast
    moreover have "set us \<subseteq> set cs" using st(1,4) by (auto simp: dedup_inv_def)
    ultimately show ?thesis by blast
  next
    case False
    with assms(2) st(3,4) show ?thesis by (auto simp: dedup_inv_def)
  qed
qed

lemma classified_jobs_units:
  assumes "classified_jobs L cs now pol = Inr (us, js)"
  shows "job_unit ` set js \<subseteq> cand_unit ` set cs" and "us = [] \<longleftrightarrow> cs = []" and "us \<noteq> [] \<Longrightarrow> js \<noteq> []"
proof -
  from assms obtain st decided where st: "fold_result (dedup_step L) cs ([], []) = Inr st"
    "us = map snd (fst st)" "traverse (\<lambda>c. classify L c now pol) us = Inr decided"
    "js = sort_key job_rank (decided @ snd st)" "dedup_inv cs st" by (rule classified_jobs_Inr)
  have "set us \<subseteq> set cs" using st(2,5) by (auto simp: dedup_inv_def)
  moreover have "job_unit j \<in> cand_unit ` set us" if "j \<in> set decided" for j
    using traverse_set [OF st(3) that] classify_unit by fastforce
  ultimately show "job_unit ` set js \<subseteq> cand_unit ` set cs"
    using st(5) unfolding st(4) dedup_inv_def by fastforce
  show "us = [] \<longleftrightarrow> cs = []" using dedup_keys [OF st(1)] by (auto simp: st(2))
  show "us \<noteq> [] \<Longrightarrow> js \<noteq> []"
    using traverse_length [OF st(3)] unfolding st(4) by (metis append_is_Nil_conv length_0_conv length_sort mset_sort mset_zero_iff)
qed

lemma classified_jobs_total:
  assumes "\<forall>c\<in>set cs. candidate_wf L c"
  shows "\<exists>us js. classified_jobs L cs now pol = Inr (us, js) \<and> set us \<subseteq> set cs"
proof -
  obtain st where st: "fold_result (dedup_step L) cs ([], []) = Inr st"
    using dedup_total [OF assms] by blast
  then have sub: "set (map snd (fst st)) \<subseteq> set cs" using dedup_inv [OF st] by (auto simp: dedup_inv_def)
  have "\<exists>g. \<forall>c\<in>set (map snd (fst st)). classify L c now pol = Inr (g c)"
    using classify_total assms sub by (intro bchoice) blast
  then obtain g where "\<forall>c\<in>set (map snd (fst st)). classify L c now pol = Inr (g c)" by blast
  then have "traverse (\<lambda>c. classify L c now pol) (map snd (fst st)) = Inr (map g (map snd (fst st)))"
    by (intro traverse_total) auto
  then show ?thesis using st sub by (simp add: classified_jobs_def)
qed

lemma make_plan_id_total:
  assumes "\<forall>c\<in>set cs. candidate_wf L c" shows "\<exists>i. make_plan_id L cs pol = Inr i"
proof -
  have "\<exists>g. \<forall>c\<in>set cs. plan_candidate_doc L c = Inr (g c)"
    using assms by (intro bchoice) (auto simp: candidate_wf_def not_isl_iff plan_candidate_doc_def)
  then obtain g where "\<forall>c\<in>set cs. plan_candidate_doc L c = Inr (g c)" by blast
  then have "traverse (plan_candidate_doc L) (sort_key candidate_identity cs)
      = Inr (map g (sort_key candidate_identity cs))"
    by (intro traverse_total) simp
  then show ?thesis by (simp add: make_plan_id_def)
qed

lemma plan_recovery_Inr:
  assumes "plan_recovery L cs now policy = Inr p"
    and "pol = (case policy of None \<Rightarrow> default_policy | Some q \<Rightarrow> q)"
  obtains t us js where "planner_aware_utc L now ''now'' = Inr t"
    "classified_jobs L cs t pol = Inr (us, js)" "make_plan_id L us pol = Inr (plan_id p)"
    "plan_jobs p = adm_jobs (admit_all pol js)" "plan_blocked p = adm_blocked (admit_all pol js)"
    "plan_deferred p = adm_deferred (admit_all pol js)" "plan_status p = status_of (admit_all pol js)"
    "plan_generated_at p = isoformat t"
  using assms by (auto simp: plan_recovery_def result_simps Let_def split: prod.splits)


lemma plan_recovery_total:
  assumes "\<forall>c\<in>set cs. candidate_wf L c" and "in_range t"
  shows "\<exists>p. plan_recovery L cs (PTime (Aware t)) policy = Inr p"
proof -
  let ?pol = "case policy of None \<Rightarrow> default_policy | Some q \<Rightarrow> q"
  obtain us js where us: "classified_jobs L cs t ?pol = Inr (us, js)" "set us \<subseteq> set cs"
    using classified_jobs_total [OF assms(1)] by blast
  then obtain i where "make_plan_id L us ?pol = Inr i"
    using make_plan_id_total [of us L] assms(1) by blast
  with us assms(2) show ?thesis by (simp add: plan_recovery_def Let_def planner_aware_utc_def)
qed

lemma recovery_policy_init_budgets:
  "recovery_policy_init a b g v = Inr pol \<Longrightarrow>
     0 < pol_max_jobs pol \<and> 0 \<le> pol_max_api_jobs pol \<and> pol_max_api_jobs pol \<le> pol_max_jobs pol
     \<and> 0 < pol_max_recovery_age pol"
  by (auto simp: recovery_policy_init_def result_simps split: pyobj.splits)

lemma job_api_cost_recollects:
  assumes "\<forall>j\<in>set js. job_api_cost j = (if job_action j = RECOLLECT then 1 else 0)"
  shows "sum_list (map job_api_cost js) = count_action RECOLLECT js"
  using assms by (induction js) (auto simp: count_action_def)

lemma classified_jobs_cost:
  assumes "classified_jobs L cs now pol = Inr (us, js)" "j \<in> set js" "job_action j \<noteq> BLOCKED"
  shows "job_api_cost j = (if job_action j = RECOLLECT then 1 else 0)"
  using classified_jobs_origin [OF assms(1,2)] assms(3) classify_cost by blast

section \<open>Order of the candidates\<close>

text \<open>On this input the digest does not confuse two of the texts the job keys are made of.\<close>

definition job_keys_distinct :: "pylib \<Rightarrow> recovery_candidate list \<Rightarrow> bool" where
  "job_keys_distinct L cs \<longleftrightarrow>
     inj_on (sha256_hex L) {planner_json L (job_material c a) |c a. c \<in> set cs}"

lemma plain_job_material: "plain (job_material c a)"
  by (simp add: job_material_def list_all_iff)

lemma job_material_identity:
  assumes "planner_json L (job_material c a) = planner_json L (job_material d b)"
  shows "candidate_identity c = candidate_identity d"
proof -
  have eq: "sort_keys (job_material c a) = sort_keys (job_material d b)"
    using assms plain_job_material render_inj unfolding planner_json_def by (metis plain_sort_keys)
  note get = sort_keys_eq_get [OF eq [unfolded job_material_def]]
  show ?thesis
    using get [of "''domain''"] get [of "''source_id''"] get [of "''slot_key''"]
    by (simp add: dict_wf_def candidate_identity_def)
qed

lemma classified_rank_inj:
  assumes keys: "job_keys_distinct L cs" and dist: "distinct (map candidate_identity cs)"
    and dec: "traverse (\<lambda>c. classify L c now pol) cs = Inr js"
  shows "inj_on job_rank (set js)"
proof (rule inj_onI)
  fix i j assume i: "i \<in> set js" and j: "j \<in> set js" and rank: "job_rank i = job_rank j"
  obtain c d where c: "c \<in> set cs" "classify L c now pol = Inr i"
    and d: "d \<in> set cs" "classify L d now pol = Inr j"
    using traverse_set [OF dec] i j by blast
  from rank classify_key [OF c(2)] classify_key [OF d(2)]
  have "sha256_hex L (planner_json L (job_material c (job_action i)))
      = sha256_hex L (planner_json L (job_material d (job_action j)))"
    by (simp add: job_rank_def make_job_key_def)
  with keys c(1) d(1) have "candidate_identity c = candidate_identity d"
    unfolding job_keys_distinct_def by (intro job_material_identity) (auto dest: inj_onD)
  with dist c(1) d(1) have "c = d" by (auto simp: distinct_map dest: inj_onD)
  with c d show "i = j" by simp
qed

lemma classified_jobs_perm:
  assumes perm: "mset cs = mset ds" and dist: "distinct (map candidate_identity cs)"
    and keys: "job_keys_distinct L cs" and run: "classified_jobs L cs now pol = Inr (us, js)"
  shows "us = cs \<and> classified_jobs L ds now pol = Inr (ds, js)"
proof -
  have "mset (map candidate_identity cs) = mset (map candidate_identity ds)" using perm by simp
  then have dist': "distinct (map candidate_identity ds)" using dist mset_eq_imp_distinct_iff by blast
  obtain gs where gs: "traverse (\<lambda>c. classify L c now pol) cs = Inr gs" "us = cs" "js = sort_key job_rank gs"
    using run unfolding classified_jobs_distinct [OF dist] by (auto simp: result_simps)
  obtain vs where vs: "traverse (\<lambda>c. classify L c now pol) ds = Inr vs" "mset vs = mset gs"
    using traverse_mset [OF perm gs(1)] by blast
  have "sort_key job_rank gs = sort_key job_rank vs"
    using vs(2) classified_rank_inj [OF keys dist gs(1)] by (intro sort_key_perm_eq) simp_all
  with gs vs show ?thesis by (simp add: classified_jobs_distinct [OF dist'])
qed

lemma make_plan_id_perm:
  assumes "mset cs = mset ds" and "distinct (map candidate_identity cs)"
  shows "make_plan_id L cs pol = make_plan_id L ds pol"
proof -
  have "sort_key candidate_identity cs = sort_key candidate_identity ds"
    using assms by (intro sort_key_perm_eq) (simp_all add: distinct_map)
  then show ?thesis by (simp add: make_plan_id_def)
qed

section \<open>Properties\<close>

text \<open>Two candidates for the applications below: one with verified raw data, one without.\<close>

definition demo_replay :: recovery_candidate where
  "demo_replay = \<lparr>cand_domain = ''weather'', cand_source_id = ''kma'', cand_slot_key = ''slot-1'',
     cand_slot_ids = [''slot-1a''], cand_scheduled_at = PTime (Aware 63900000000000000),
     cand_deadline_at = PTime (Aware 63900000600000000),
     cand_recovery_boundary = PTime (Aware 63900000000000000),
     cand_expected_count = 1, cand_covered_count = 1, cand_manifest_verified = True,
     cand_historical_query_allowed = False, cand_normal_run_active = False, cand_normal_run_id = None,
     cand_last_failure_code = None, cand_attempt_count = 0\<rparr>"

definition demo_recollect :: recovery_candidate where
  "demo_recollect = demo_replay\<lparr>cand_slot_key := ''slot-2'', cand_manifest_verified := False,
     cand_covered_count := 0, cand_historical_query_allowed := True\<rparr>"

definition demo_recollect2 :: recovery_candidate where
  "demo_recollect2 = demo_recollect\<lparr>cand_slot_key := ''slot-3''\<rparr>"

definition demo_now :: pyobj where "demo_now = PTime (Aware 63900001000000000)"

lemma demo_in_range [simp]:
  "in_range 63900000000000000" "in_range 63900000600000000" "in_range 63900001000000000"
  by (simp_all add: in_range_def max_instant_def us_per_day_def)

lemmas planner_eval = plan_recovery_def classified_jobs_def dedup_step_def Let_def classify_def
  job_builder_defs job_for_action_def make_plan_id_def plan_candidate_doc_def planner_aware_utc_def
  normalized_scheduled_at_def normalized_deadline_at_def normalized_recovery_boundary_def
  default_policy_def hours_def blocking_failure_def admit_all_def admit_step_def status_of_def
  demo_replay_def demo_recollect_def demo_recollect2_def demo_now_def job_rank_def candidate_identity_def
  less_eq_prod_def

lemma demo_wf: "candidate_wf L demo_replay" "candidate_wf L demo_recollect"
  by (simp_all add: candidate_wf_def planner_eval)

lemma demo_plan:
  "\<exists>p. plan_recovery L [demo_replay, demo_recollect] demo_now None = Inr p
     \<and> map job_action (plan_jobs p) = [RAW_REPLAY, RECOLLECT] \<and> plan_deferred p = []"
  by (simp add: planner_eval)

text \<open>C2: A plan stays within its budgets: for every validated policy, no more jobs than
  \<open>max_jobs\<close>, no more recollections than \<open>max_api_jobs\<close>, and the reported API cost is their number.\<close>

theorem plan_within_budget:
  assumes "recovery_policy_init max_jobs max_api max_age version = Inr pol"
    and "plan_recovery L cs now (Some pol) = Inr p"
  shows "int (length (plan_jobs p)) \<le> pol_max_jobs pol
    \<and> count_action RECOLLECT (plan_jobs p) \<le> pol_max_api_jobs pol
    \<and> map_of (plan_metrics p) ''api_job_count'' = Some (count_action RECOLLECT (plan_jobs p))"
proof -
  from assms(2) obtain t us js where run: "classified_jobs L cs t pol = Inr (us, js)"
    "plan_jobs p = adm_jobs (admit_all pol js)"
    "map_of (plan_metrics p) ''api_job_count'' = Some (adm_api (admit_all pol js))"
    by (auto simp: plan_recovery_def result_simps Let_def split: prod.splits)
  have "\<forall>j\<in>set (plan_jobs p). job_api_cost j = (if job_action j = RECOLLECT then 1 else 0)"
    using classified_jobs_cost [OF run(1)] admit_all_jobs_subset unfolding run(2) by blast
  from job_api_cost_recollects [OF this] show ?thesis
    using recovery_policy_init_budgets [OF assms(1)] admit_all_job_budget [of pol js]
      admit_all_api_budget [of pol js] run(2,3) by simp
qed

lemma plan_within_budget_witness:
  "\<exists>p. plan_recovery (std_lib id) [demo_replay, demo_recollect] demo_now
          (Some (default_policy\<lparr>pol_max_jobs := 1\<rparr>)) = Inr p \<and> length (plan_jobs p) \<le> 1"
proof -
  let ?pol = "default_policy\<lparr>pol_max_jobs := 1\<rparr>"
  have pol: "recovery_policy_init (PInt 1) (PInt 1) (PDelta (hours 24)) (PStr ''weather-recovery-policy-v1'')
      = Inr ?pol"
    by (simp add: recovery_policy_init_def positive_int_def non_negative_int_def required_identifier_def
        hours_def default_policy_def safe_pattern_def) code_simp
  obtain p where "plan_recovery (std_lib id) [demo_replay, demo_recollect] demo_now (Some ?pol) = Inr p"
    using plan_recovery_total [of "[demo_replay, demo_recollect]"] demo_wf
    by (fastforce simp: demo_now_def)
  with plan_within_budget [OF pol this] show ?thesis by (auto simp: default_policy_def)
qed

text \<open>C1: Every admitted job is backed by evidence: some candidate of the input is due at the
  planning instant, without an active normal run, a blocking failure or an excessive age, and its
  coverage evidence allows exactly the admitted action; the job carries that candidate's recovery
  unit and idempotency key.\<close>

theorem plan_jobs_backed_by_evidence:
  assumes "plan_recovery L cs now (Some pol) = Inr p" and "j \<in> set (plan_jobs p)"
  shows "\<exists>c\<in>set cs. \<exists>t. planner_aware_utc L now ''now'' = Inr t \<and> recovery_due L c t pol
    \<and> allowed_action c = Some (job_action j) \<and> job_unit j = cand_unit c
    \<and> job_key j = make_job_key L c (job_action j)"
proof -
  obtain t us js where run: "planner_aware_utc L now ''now'' = Inr t"
    "classified_jobs L cs t pol = Inr (us, js)" "plan_jobs p = adm_jobs (admit_all pol js)"
    by (rule plan_recovery_Inr [OF assms(1), of pol]) (simp, blast)
  have "j \<in> set js" and act: "job_action j \<noteq> BLOCKED" "job_action j \<noteq> DEFERRED"
    using admit_all_jobs_subset [of j pol js] assms(2) run(3) by simp_all
  then obtain c where c: "c \<in> set cs" "classify L c t pol = Inr j"
    using classified_jobs_origin [OF run(2)] by blast
  moreover have "job_action j = RAW_REPLAY \<or> job_action j = RECOLLECT"
    using act by (cases "job_action j") auto
  ultimately show ?thesis
    using classify_due [OF c(2)] classify_unit [OF c(2)] classify_key [OF c(2)] run(1) by blast
qed

lemma plan_jobs_backed_by_evidence_witness:
  "\<exists>p j. plan_recovery (std_lib id) [demo_replay] demo_now (Some default_policy) = Inr p
     \<and> j \<in> set (plan_jobs p) \<and> allowed_action demo_replay = Some (job_action j)"
proof -
  have "\<exists>p. plan_recovery (std_lib id) [demo_replay] demo_now (Some default_policy) = Inr p
      \<and> map job_action (plan_jobs p) = [RAW_REPLAY]"
    by (simp add: planner_eval)
  then obtain p where run: "plan_recovery (std_lib id) [demo_replay] demo_now (Some default_policy) = Inr p"
    and "map job_action (plan_jobs p) = [RAW_REPLAY]" by (elim exE conjE) (rule that)
  then obtain j where p: "plan_recovery (std_lib id) [demo_replay] demo_now (Some default_policy) = Inr p"
    "j \<in> set (plan_jobs p)" by (cases "plan_jobs p") auto
  from plan_jobs_backed_by_evidence [OF p] have "allowed_action demo_replay = Some (job_action j)" by auto
  with p show ?thesis by (intro exI conjI)
qed

text \<open>C3: The plan does not depend on the order in which the candidates arrive, when their
  identities differ and the digest does not collide on their job keys: not in its identity, its
  admitted, blocked and deferred jobs, their order, its status nor its metrics.\<close>

theorem plan_order_independent:
  assumes "mset cs = mset ds" and "distinct (map candidate_identity cs)" and "job_keys_distinct L cs"
    and "plan_recovery L cs now policy = Inr p"
  shows "plan_recovery L ds now policy = Inr p"
proof -
  let ?pol = "case policy of None \<Rightarrow> default_policy | Some q \<Rightarrow> q"
  obtain t us js where run: "planner_aware_utc L now ''now'' = Inr t"
    "classified_jobs L cs t ?pol = Inr (us, js)"
    by (rule plan_recovery_Inr [OF assms(4) refl])
  from classified_jobs_perm [OF assms(1-3) run(2)] make_plan_id_perm [OF assms(1,2)] run assms(4)
  show ?thesis
    using mset_eq_length [OF assms(1)] by (auto simp: plan_recovery_def Let_def result_simps)
qed

lemma plan_order_independent_witness:
  "\<exists>p. plan_recovery (std_lib id) [demo_replay, demo_recollect] demo_now None = Inr p
     \<and> plan_recovery (std_lib id) [demo_recollect, demo_replay] demo_now None = Inr p"
proof -
  obtain p where p: "plan_recovery (std_lib id) [demo_replay, demo_recollect] demo_now None = Inr p"
    using demo_plan by blast
  have "distinct (map candidate_identity [demo_replay, demo_recollect])"
    by (simp add: planner_eval)
  moreover have "job_keys_distinct (std_lib id) [demo_replay, demo_recollect]"
    by (simp add: job_keys_distinct_def)
  moreover have "mset [demo_replay, demo_recollect] = mset [demo_recollect, demo_replay]" by simp
  ultimately have "plan_recovery (std_lib id) [demo_recollect, demo_replay] demo_now None = Inr p"
    by (intro plan_order_independent [OF _ _ _ p])
  with p show ?thesis by blast
qed

text \<open>
  The candidates a plan has to decide: all of them, except a later exact repeat of the first
  candidate of its identity.  \<open>seen\<close> holds the candidates kept so far.\<close>

fun kept_candidates :: "recovery_candidate list \<Rightarrow> recovery_candidate list \<Rightarrow> recovery_candidate list" where
  "kept_candidates seen [] = []"
| "kept_candidates seen (c # cs) =
     (if find (\<lambda>d. candidate_identity d = candidate_identity c) seen = Some c then kept_candidates seen cs
      else c # kept_candidates (seen @ [c]) cs)"

lemma find_append: "find P (xs @ ys) = (case find P xs of None \<Rightarrow> find P ys | Some x \<Rightarrow> Some x)"
  by (induction xs) auto

lemma kept_candidates_set: "set seen \<union> set (kept_candidates seen cs) = set seen \<union> set cs"
proof (induction seen cs rule: kept_candidates.induct)
  case (2 seen c cs)
  have "c \<in> set seen" if "find (\<lambda>d. candidate_identity d = candidate_identity c) seen = Some c"
    using that by (metis find_Some_iff nth_mem)
  with 2 show ?case by auto
qed simp

lemma kept_candidates_distinct:
  "distinct (map candidate_identity (seen @ cs)) \<Longrightarrow> kept_candidates seen cs = cs"
proof (induction seen cs rule: kept_candidates.induct)
  case (2 seen c cs)
  from "2.prems" have "candidate_identity c \<notin> candidate_identity ` set seen" by simp
  then have "\<not> (\<exists>d. d \<in> set seen \<and> candidate_identity d = candidate_identity c)" by (metis imageI)
  then have "find (\<lambda>d. candidate_identity d = candidate_identity c) seen = None"
    unfolding find_None_iff .
  with "2.IH"(2) "2.prems" show ?case by simp
qed simp

lemma dedup_kept:
  assumes "fold_result (dedup_step L) cs st = Inr st'"
    and "\<And>i. map_of (fst st) i = find (\<lambda>d. candidate_identity d = i) seen"
  shows "mset (map cand_unit (map snd (fst st')) @ map job_unit (snd st'))
    = mset (map cand_unit (map snd (fst st)) @ map job_unit (snd st)) + mset (map cand_unit (kept_candidates seen cs))"
  using assms
proof (induction cs arbitrary: st seen)
  case (Cons c cs)
  let ?i = "candidate_identity c"
  obtain st1 where st1: "dedup_step L c st = Inr st1" "fold_result (dedup_step L) cs st1 = Inr st'"
    using Cons.prems(1) by (cases "dedup_step L c st") auto
  show ?case
  proof (cases "find (\<lambda>d. candidate_identity d = ?i) seen")
    case None
    then have st: "st1 = (fst st @ [(?i, c)], snd st)"
      using dedup_step_Inr [OF st1(1)] Cons.prems(2) [of ?i] by (auto simp: prod_eq_iff map_of_eq_None_iff)
    have "map_of (fst st1) i = find (\<lambda>d. candidate_identity d = i) (seen @ [c])" for i
      using Cons.prems(2) [of i] unfolding st by (auto simp: find_append map_add_def split: option.split)
    from Cons.IH [OF st1(2) this] None show ?thesis by (simp add: st)
  next
    case (Some d)
    have "d \<noteq> c \<Longrightarrow> \<exists>j. st1 = (fst st, snd st @ [j]) \<and> job_unit j = cand_unit c"
      using st1(1) Cons.prems(2) [of ?i] Some
      by (auto simp: dedup_step_def Let_def result_simps job_builder_defs dest!: job_for_action_view)
    moreover have "d = c \<Longrightarrow> st1 = st"
      using st1(1) Cons.prems(2) [of ?i] Some by (simp add: dedup_step_def)
    moreover have "find (\<lambda>d. candidate_identity d = i) (seen @ [c]) = find (\<lambda>d. candidate_identity d = i) seen" for i
      using Some by (auto simp: find_append split: option.split)
    ultimately show ?thesis
      using Cons.IH [OF st1(2), of "if d = c then seen else seen @ [c]"] Cons.prems(2) Some by (cases "d = c") auto
  qed
qed simp

text \<open>C4: Planning constructed candidates at an aware instant of \<open>datetime\<close>'s range never fails and
  loses none of them.  The admitted, blocked and deferred decisions are, as a multiset of recovery
  units, exactly the candidates that are not an exact repeat of the first candidate of their
  identity: every candidate is among those, and when the identities differ they are the whole input.
  A later candidate that differs from the first of its identity has a decision of its own.\<close>

theorem plan_decides_every_candidate:
  assumes "\<forall>c\<in>set cs. candidate_wf L c" and "in_range t"
  shows "\<exists>p. plan_recovery L cs (PTime (Aware t)) policy = Inr p
    \<and> mset (map job_unit (plan_jobs p @ plan_blocked p @ plan_deferred p))
       = mset (map cand_unit (kept_candidates [] cs))
    \<and> set (kept_candidates [] cs) = set cs
    \<and> (distinct (map candidate_identity cs) \<longrightarrow> kept_candidates [] cs = cs)"
proof -
  let ?pol = "case policy of None \<Rightarrow> default_policy | Some q \<Rightarrow> q"
  obtain p where p: "plan_recovery L cs (PTime (Aware t)) policy = Inr p"
    using plan_recovery_total [OF assms] by blast
  then obtain t' us js where run: "classified_jobs L cs t' ?pol = Inr (us, js)"
    "plan_jobs p = adm_jobs (admit_all ?pol js)" "plan_blocked p = adm_blocked (admit_all ?pol js)"
    "plan_deferred p = adm_deferred (admit_all ?pol js)"
    by (rule plan_recovery_Inr [OF _ refl])
  obtain st gs where st: "fold_result (dedup_step L) cs ([], []) = Inr st" "us = map snd (fst st)"
    "traverse (\<lambda>c. classify L c t' ?pol) us = Inr gs" "js = sort_key job_rank (gs @ snd st)"
    by (rule classified_jobs_Inr [OF run(1)])
  have "list_all2 (\<lambda>c j. job_unit j = cand_unit c) us gs"
    using st(3) unfolding traverse_Inr_iff by (rule list.rel_mono_strong) (rule classify_unit)
  then have "map job_unit gs = map cand_unit us" by (induction rule: list_all2_induct) simp_all
  then have "mset (map job_unit js) = mset (map cand_unit us @ map job_unit (snd st))"
    unfolding st(4) by (metis mset_map mset_sort map_append)
  also have "\<dots> = mset (map cand_unit (kept_candidates [] cs))" using dedup_kept [OF st(1), of "[]"] st(2) by simp
  finally show ?thesis
    using admit_all_mset [of job_unit ?pol js] p kept_candidates_set [of "[]" cs] kept_candidates_distinct [of "[]" cs]
    by (simp add: run(2-4) decisions_def)
qed

lemma plan_decides_every_candidate_witness:
  "let d = demo_replay\<lparr>cand_attempt_count := 5\<rparr> in
   \<exists>p. plan_recovery (std_lib id) [demo_replay, demo_recollect, d, demo_replay] (PTime (Aware 63900001000000000)) None = Inr p
     \<and> mset (map job_unit (plan_jobs p @ plan_blocked p @ plan_deferred p))
        = {# cand_unit demo_replay, cand_unit demo_recollect, cand_unit d #}"
proof -
  let ?d = "demo_replay\<lparr>cand_attempt_count := 5\<rparr>"
  have wf: "\<forall>c\<in>set [demo_replay, demo_recollect, ?d, demo_replay]. candidate_wf (std_lib id) c"
    by (simp add: candidate_wf_def planner_eval)
  have "demo_replay \<noteq> ?d" "candidate_identity ?d = candidate_identity demo_replay"
    "candidate_identity demo_recollect \<noteq> candidate_identity demo_replay"
    by (simp_all add: demo_replay_def demo_recollect_def candidate_identity_def)
  then have kept: "kept_candidates [] [demo_replay, demo_recollect, ?d, demo_replay] = [demo_replay, demo_recollect, ?d]"
    by simp
  obtain p where "plan_recovery (std_lib id) [demo_replay, demo_recollect, ?d, demo_replay]
      (PTime (Aware 63900001000000000)) None = Inr p"
    "mset (map job_unit (plan_jobs p @ plan_blocked p @ plan_deferred p))
       = mset (map cand_unit [demo_replay, demo_recollect, ?d])"
    using plan_decides_every_candidate [OF wf demo_in_range(3), of None, unfolded kept] by blast
  then show ?thesis unfolding Let_def list.map mset.simps by (intro exI conjI)
qed

text \<open>C5: Free replays are never crowded out by API recollections: when a plan admits a
  recollection, no replay was deferred for the job budget, and none for the API budget.\<close>

theorem recollect_only_after_replays:
  assumes "plan_recovery L cs now policy = Inr p"
    and "r \<in> set (plan_jobs p)" "job_action r = RECOLLECT"
    and "j \<in> set (plan_deferred p)" "job_reason_code j \<in> set budget_reasons"
  shows "job_api_cost j = 1"
proof -
  let ?pol = "case policy of None \<Rightarrow> default_policy | Some q \<Rightarrow> q"
  obtain t us js where run: "classified_jobs L cs t ?pol = Inr (us, js)"
    "plan_jobs p = adm_jobs (admit_all ?pol js)" "plan_deferred p = adm_deferred (admit_all ?pol js)"
    by (rule plan_recovery_Inr [OF assms(1) refl])
  let ?os = "filter (\<lambda>j. job_action j \<noteq> RAW_REPLAY) js"
  have "sorted (map job_rank js)" using run(1) by (auto elim!: classified_jobs_Inr)
  moreover have "\<forall>j\<in>set js. job_action j = RAW_REPLAY \<longrightarrow> job_api_cost j = 0"
    using classified_jobs_cost [OF run(1)] by force
  ultimately obtain st where st: "admit_all ?pol js = foldl (admit_step ?pol) st ?os" "adm_deferred st = []"
    using recollect_admitted_all_replays assms(2,3) unfolding run(2) by blast
  from assms(4) admit_fold_deferred_origin [of j ?pol st ?os] have "deferred_from ?os j"
    unfolding run(3) st(1) by (simp add: st(2))
  then consider "j \<in> set js" "job_action j = DEFERRED"
    | i r where "i \<in> set js" "job_action i \<noteq> RAW_REPLAY" "j = replace_job i DEFERRED r"
        "job_action i \<noteq> BLOCKED" "job_action i \<noteq> DEFERRED"
    by (auto simp: deferred_from_def)
  then show ?thesis
  proof cases
    case 1
    with classified_jobs_origin [OF run(1)] classify_reason assms(5) show ?thesis by fastforce
  next
    case (2 i r)
    then have "job_action i = RECOLLECT" by (cases "job_action i") auto
    with 2 classified_jobs_cost [OF run(1), of i] show ?thesis by simp
  qed
qed

lemma recollect_only_after_replays_witness:
  "\<exists>p r j. plan_recovery (std_lib id) [demo_recollect, demo_replay, demo_recollect2] demo_now None = Inr p
     \<and> r \<in> set (plan_jobs p) \<and> job_action r = RECOLLECT \<and> plan_deferred p = [j] \<and> job_api_cost j = 1"
proof -
  have "\<exists>p a b j. plan_recovery (std_lib id) [demo_recollect, demo_replay, demo_recollect2] demo_now None = Inr p
      \<and> plan_jobs p = [a, b] \<and> job_action b = RECOLLECT \<and> plan_deferred p = [j]
      \<and> job_reason_code j = ''coordinator_api_budget_exhausted''"
    by (simp add: planner_eval)
  then obtain p a b j where p: "plan_recovery (std_lib id) [demo_recollect, demo_replay, demo_recollect2] demo_now None = Inr p"
    "plan_jobs p = [a, b]" "job_action b = RECOLLECT" "plan_deferred p = [j]"
    "job_reason_code j = ''coordinator_api_budget_exhausted''" by blast
  then have "job_api_cost j = 1"
    by (intro recollect_only_after_replays [OF p(1), of b]) (simp_all add: budget_reasons_def)
  with p show ?thesis by auto
qed

text \<open>
  Which of two conflicting candidates of the same identity is planned depends on their order:
  the first one is classified and may be admitted, the later one is only reported as blocked.
  (The docstring promises that duplicates are rejected and that the order is not trusted.)\<close>

lemma conflicting_duplicate_first_wins:
  assumes "candidate_identity c = candidate_identity d" and "c \<noteq> d" and "candidate_wf L d"
    and "planner_aware_utc L now ''now'' = Inr t" and "candidate_wf L c"
    and "recovery_due L c t default_policy" and "allowed_action c = Some RAW_REPLAY"
  shows "\<exists>p b j. plan_recovery L [c, d] now None = Inr p \<and> plan_blocked p = [b] \<and> plan_deferred p = []
    \<and> job_reason_code b = ''duplicate_candidate_conflict'' \<and> job_unit b = cand_unit d
    \<and> plan_jobs p = [j] \<and> job_action j = RAW_REPLAY \<and> job_unit j = cand_unit c"
proof -
  obtain j where j: "classify L c t default_policy = Inr j" using classify_total [OF assms(5)] by blast
  have act: "job_action j = RAW_REPLAY"
    using j assms(6,7)
    by (auto simp: classify_def job_builder_defs result_simps Let_def recovery_due_def allowed_action_def
        dest!: job_for_action_view split: if_splits sum.splits)
  obtain b where b: "job_for_blocked L d ''duplicate_candidate_conflict''
      [(''identity'', PStr (candidate_identity c))] = Inr b"
    using job_for_action_total [OF assms(3)] unfolding job_for_blocked_def by blast
  then have bv: "job_action b = BLOCKED" "job_reason_code b = ''duplicate_candidate_conflict''"
    "job_unit b = cand_unit d"
    by (auto simp: job_for_blocked_def dest!: job_for_action_view)
  have "fold_result (dedup_step L) [c, d] ([], []) = Inr ([(candidate_identity c, c)], [b])"
    using b assms(1,2) by (simp add: dedup_step_def Let_def)
  moreover have "sort_key job_rank [j, b] = [j, b]"
    using act bv by (simp add: job_rank_def less_eq_prod_def)
  ultimately have run: "classified_jobs L [c, d] t default_policy = Inr ([c], [j, b])"
    using j by (simp add: classified_jobs_def)
  obtain i where i: "make_plan_id L [c] default_policy = Inr i"
    using make_plan_id_total [of "[c]" L default_policy] assms(5) by auto
  have "job_api_cost j = 0" using classify_cost [OF j] act by simp
  then have "admit_all default_policy [j, b]
      = \<lparr>adm_jobs = [j], adm_blocked = [b], adm_deferred = [], adm_api = 0\<rparr>"
    using act bv by (simp add: admit_all_def admit_step_def default_policy_def)
  with run i assms(4) bv act classify_unit [OF j] show ?thesis
    by (simp add: plan_recovery_def Let_def)
qed

lemma conflicting_duplicate_first_wins_witness:
  "let d = demo_replay\<lparr>cand_attempt_count := 5\<rparr> in
   \<exists>p b j. plan_recovery (std_lib id) [demo_replay, d] demo_now None = Inr p \<and> plan_blocked p = [b]
     \<and> plan_jobs p = [j] \<and> job_unit j = cand_unit demo_replay"
proof -
  let ?d = "demo_replay\<lparr>cand_attempt_count := 5\<rparr>"
  have h: "candidate_identity demo_replay = candidate_identity ?d" "demo_replay \<noteq> ?d"
    "candidate_wf (std_lib id) ?d" "planner_aware_utc (std_lib id) demo_now ''now'' = Inr 63900001000000000"
    "recovery_due (std_lib id) demo_replay 63900001000000000 default_policy"
    "allowed_action demo_replay = Some RAW_REPLAY"
    by (simp_all add: planner_eval candidate_wf_def recovery_due_def allowed_action_def)
  from conflicting_duplicate_first_wins [OF h(1-4) demo_wf(1) h(5,6)] show ?thesis
    unfolding Let_def by (elim exE conjE) (intro exI conjI; assumption)
qed

text \<open>The status says what the plan holds: \<open>ready\<close> exactly when a job is admitted, \<open>empty\<close>
  exactly when there was no candidate, \<open>blocked\<close> when nothing is admitted and something is blocked,
  and \<open>budget_exhausted\<close> only when every deferred decision hit a budget.\<close>

theorem plan_status_meaning:
  assumes "plan_recovery L cs now policy = Inr p"
  shows "(plan_status p = ''ready'' \<longleftrightarrow> plan_jobs p \<noteq> [])
    \<and> (plan_status p = ''empty'' \<longleftrightarrow> cs = [])
    \<and> (plan_status p = ''blocked'' \<longleftrightarrow> plan_jobs p = [] \<and> plan_blocked p \<noteq> [])
    \<and> (plan_status p = ''budget_exhausted'' \<longleftrightarrow> plan_jobs p = [] \<and> plan_blocked p = []
         \<and> plan_deferred p \<noteq> [] \<and> (\<forall>j\<in>set (plan_deferred p). job_reason_code j \<in> set budget_reasons))"
proof -
  let ?pol = "case policy of None \<Rightarrow> default_policy | Some q \<Rightarrow> q"
  obtain t us js where run: "classified_jobs L cs t ?pol = Inr (us, js)"
    "plan_jobs p = adm_jobs (admit_all ?pol js)" "plan_blocked p = adm_blocked (admit_all ?pol js)"
    "plan_deferred p = adm_deferred (admit_all ?pol js)" "plan_status p = status_of (admit_all ?pol js)"
    by (rule plan_recovery_Inr [OF assms refl])
  have "js = [] \<longleftrightarrow> cs = []"
    using classified_jobs_units [OF run(1)] run(1) by (auto simp: classified_jobs_def)
  moreover have "js = [] \<longleftrightarrow> decisions (admit_all ?pol js) = []"
    using admit_all_mset [of "\<lambda>_. ()" ?pol js] by (metis list.map_disc_iff mset_zero_iff)
  ultimately have "cs = [] \<longleftrightarrow> plan_jobs p = [] \<and> plan_blocked p = [] \<and> plan_deferred p = []"
    by (simp add: run(2-4) decisions_def)
  then show ?thesis unfolding run(5) status_of_def run(2-4)
    by (auto simp: list_all_iff)
qed

lemma plan_status_meaning_witness:
  "\<exists>p. plan_recovery (std_lib id) [demo_replay, demo_recollect] demo_now None = Inr p \<and> plan_status p = ''ready''"
proof -
  obtain p where p: "plan_recovery (std_lib id) [demo_replay, demo_recollect] demo_now None = Inr p"
    "map job_action (plan_jobs p) = [RAW_REPLAY, RECOLLECT]" using demo_plan [of "std_lib id"] by (elim exE conjE) (rule that)
  from p(2) have "plan_jobs p \<noteq> []" by auto
  with plan_status_meaning [OF p(1)] have "plan_status p = ''ready''" by blast
  with p(1) show ?thesis by (intro exI conjI)
qed

end
