(* ===== verification/Recovery_Dispatch.thy ===== *)
theory Recovery_Dispatch
  imports Recovery_Planner
begin

text \<open>
  The dispatch compiler (\<open>dags/common/recovery/dispatch.py\<close>): the evidence of a raw replay,
  the trigger requests, and their compilation from the admitted jobs of a plan.  The lemmas
  show that a compiled list of requests is, one for one, the plan's admitted jobs, each aimed
  at the DAG of its action.
\<close>

section \<open>Evidence and requests\<close>

definition dispatch_schema :: string where "dispatch_schema = ''weather-recovery-dispatch/v1''"
definition weather_source_id :: string where "weather_source_id = ''kma_vilage_fcst''"
definition raw_replay_dag_id :: string where "raw_replay_dag_id = ''weather_vilage_fcst_bronze_backfill''"
definition recollect_dag_id :: string where "recollect_dag_id = ''weather_vilage_fcst_recollect''"

definition dispatch_safe_key :: "pyobj \<Rightarrow> string \<Rightarrow> string result" where
  "dispatch_safe_key v field =
     (case v of
        PStr s \<Rightarrow> if safe_pattern ''._=/:+-'' 511 s then Inr s
                  else Inl (RecoveryDispatchError (field @ '' must be a safe non-empty identifier''))
      | _ \<Rightarrow> Inl (RecoveryDispatchError (field @ '' must be a safe non-empty identifier'')))"

text \<open>\<open>_LOAD_DATE.fullmatch\<close>.\<close>

definition load_date_pattern :: "string \<Rightarrow> bool" where
  "load_date_pattern s =
     (case Option.bind (re_digits 4 s) (\<lambda>s. Option.bind (re_char (CHR ''-'') s) (\<lambda>s.
           Option.bind (re_digits 2 s) (\<lambda>s. Option.bind (re_char (CHR ''-'') s) (re_digits 2)))) of
        Some [] \<Rightarrow> True | _ \<Rightarrow> False)"

record replay_evidence =
  ev_job_key :: string
  ev_manifest_key :: string
  ev_object_keys :: "string list"
  ev_load_date :: "string option"
  ev_manifest_verified :: bool

definition dispatch_object_key :: "pyobj \<Rightarrow> string result" where
  "dispatch_object_key v =
     bind_result (dispatch_safe_key v ''raw_object_key'') (\<lambda>s.
     if CHR ''?'' \<in> set s \<or> CHR ''#'' \<in> set s
     then Inl (RecoveryDispatchError ''raw object key must not contain query or fragment data'')
     else Inr s)"

definition replay_evidence_init ::
  "pyobj \<Rightarrow> pyobj \<Rightarrow> pyobj list \<Rightarrow> pyobj \<Rightarrow> pyobj \<Rightarrow> replay_evidence result" where
  "replay_evidence_init jkey manifest_key object_keys load_date manifest_verified =
     bind_result (dispatch_safe_key jkey ''job_key'') (\<lambda>jk.
     bind_result (dispatch_safe_key manifest_key ''manifest_key'') (\<lambda>mk.
     if manifest_verified \<noteq> PBool True
     then Inl (RecoveryDispatchError ''raw replay manifest must be verified'')
     else if list_ex unhashable object_keys then Inl (TypeError ''unhashable type'')
     else if object_keys = [] \<or> \<not> py_distinct object_keys
     then Inl (RecoveryDispatchError ''raw replay object_keys must be non-empty and unique'')
     else bind_result (traverse dispatch_object_key object_keys) (\<lambda>ks.
     bind_result
       (case load_date of
          PNone \<Rightarrow> Inr None
        | PStr d \<Rightarrow> if load_date_pattern d then Inr (Some d)
                    else Inl (RecoveryDispatchError ''load_date must use YYYY-MM-DD'')
        | _ \<Rightarrow> Inl (TypeError ''expected string or bytes-like object'')) (\<lambda>ld.
     Inr \<lparr>ev_job_key = jk, ev_manifest_key = mk, ev_object_keys = ks, ev_load_date = ld,
          ev_manifest_verified = True\<rparr>))))"

record dispatch_request =
  req_plan_id :: string
  req_job_key :: string
  req_action :: recovery_action
  req_target :: string
  req_conf :: "pyobj pydict"
  req_api_cost :: int

definition trigger_payload :: "dispatch_request \<Rightarrow> pyobj" where
  "trigger_payload r = PDict
     [(''trigger_dag_id'', PStr (req_target r)),
      (''conf'', PDict (req_conf r)),
      (''reset_dag_run'', PBool False),
      (''wait_for_completion'', PBool False)]"

definition request_to_redacted :: "dispatch_request \<Rightarrow> pyobj" where
  "request_to_redacted r = PDict
     [(''schema_version'', PStr dispatch_schema),
      (''plan_id'', PStr (req_plan_id r)),
      (''job_key'', PStr (req_job_key r)),
      (''action'', PStr (action_value (req_action r))),
      (''target_dag_id'', PStr (req_target r)),
      (''conf_keys'', PList (map PStr (sort (map fst (req_conf r))))),
      (''raw_object_count'', PInt (case dict_get ''raw_object_keys'' (req_conf r) of
         PList ks \<Rightarrow> int (length ks) | _ \<Rightarrow> 0)),
      (''api_cost'', PInt (req_api_cost r)),
      (''mutation_performed'', PBool False)]"

section \<open>Compilation\<close>

definition kma_base_datetime :: "pylib \<Rightarrow> string \<Rightarrow> (string \<times> string) result" where
  "kma_base_datetime L slot_key =
     (case fromisoformat L (replace_Z slot_key) of
        None \<Rightarrow> Inl (RecoveryDispatchError ''slot_key must be an ISO timestamp'')
      | Some (Naive _) \<Rightarrow> Inl (RecoveryDispatchError ''slot_key must include timezone'')
      | Some (Aware t) \<Rightarrow> bind_result (astimezone_kst L t) (\<lambda>w. Inr (kst_date (nat w), kst_clock (nat w))))"

definition replay_request :: "string \<Rightarrow> recovery_job \<Rightarrow> replay_evidence \<Rightarrow> dispatch_request" where
  "replay_request pid job ev =
     (let conf =
        [(''raw_object_keys'', PList (map PStr (ev_object_keys ev))),
         (''recovery_manifest_key'', PStr (ev_manifest_key ev)),
         (''recovery_job_key'', PStr (job_key job)),
         (''recovery_plan_id'', PStr pid),
         (''recovery_strategy'', PStr ''raw_replay'')]
      in \<lparr>req_plan_id = pid, req_job_key = job_key job, req_action = job_action job,
          req_target = raw_replay_dag_id,
          req_conf = (case ev_load_date ev of None \<Rightarrow> conf | Some d \<Rightarrow> dict_set ''load_date'' (PStr d) conf),
          req_api_cost = 0\<rparr>)"

definition recollect_request :: "string \<Rightarrow> recovery_job \<Rightarrow> string \<times> string \<Rightarrow> dispatch_request" where
  "recollect_request pid job base =
     \<lparr>req_plan_id = pid, req_job_key = job_key job, req_action = job_action job,
      req_target = recollect_dag_id,
      req_conf = [(''base_date'', PStr (fst base)), (''base_time'', PStr (snd base)),
                  (''recovery_job_key'', PStr (job_key job)), (''recovery_plan_id'', PStr pid),
                  (''recovery_strategy'', PStr ''recollect'')],
      req_api_cost = 1\<rparr>"

text \<open>The loop body; its state is the job keys seen and the requests made so far.\<close>

definition compile_step ::
  "pylib \<Rightarrow> string \<Rightarrow> (string \<times> replay_evidence) list \<Rightarrow> recovery_job
     \<Rightarrow> string list \<times> dispatch_request list \<Rightarrow> (string list \<times> dispatch_request list) result" where
  "compile_step L pid evidence job st =
     (if job_key job \<in> set (fst st) then Inl (RecoveryDispatchError ''plan contains duplicate job_key'')
      else if job_domain job \<noteq> ''weather'' \<or> job_source_id job \<noteq> weather_source_id
      then Inl (RecoveryDispatchError ''dispatch only accepts the Weather forecast source'')
      else (case job_action job of
          RAW_REPLAY \<Rightarrow>
            (case map_of evidence (job_key job) of
               None \<Rightarrow> Inl (RecoveryDispatchError ''raw replay evidence is missing'')
             | Some ev \<Rightarrow>
                 if ev_job_key ev \<noteq> job_key job
                 then Inl (RecoveryDispatchError ''raw replay evidence is missing'')
                 else if length (ev_object_keys ev) < length (job_slot_ids job)
                 then Inl (RecoveryDispatchError ''raw replay evidence does not cover planned slots'')
                 else Inr (fst st @ [job_key job], snd st @ [replay_request pid job ev]))
        | RECOLLECT \<Rightarrow>
            bind_result (kma_base_datetime L (job_slot_key job)) (\<lambda>base.
            Inr (fst st @ [job_key job], snd st @ [recollect_request pid job base]))
        | _ \<Rightarrow> Inl (RecoveryDispatchError ''blocked or deferred jobs cannot be dispatched'')))"

definition compile_dispatch_requests ::
  "pylib \<Rightarrow> recovery_plan \<Rightarrow> (string \<times> replay_evidence) list option \<Rightarrow> dispatch_request list result" where
  "compile_dispatch_requests L plan evidence =
     (let ev = (case evidence of None \<Rightarrow> [] | Some d \<Rightarrow> d) in
      bind_result (dispatch_safe_key (PStr (plan_id plan)) ''plan_id'') (\<lambda>pid.
      bind_result (fold_result (compile_step L (plan_id plan) ev) (plan_jobs plan) ([], [])) (\<lambda>st.
      Inr (snd st))))"

section \<open>What a request carries\<close>

text \<open>A request made for a job: the DAG and the cost of its action, and its evidence.\<close>

definition request_for :: "pylib \<Rightarrow> string \<Rightarrow> (string \<times> replay_evidence) list \<Rightarrow> recovery_job \<Rightarrow> dispatch_request \<Rightarrow> bool" where
  "request_for L pid ev job r \<longleftrightarrow>
     req_plan_id r = pid \<and> req_job_key r = job_key job \<and> req_action r = job_action job
     \<and> ((job_action job = RAW_REPLAY \<and> req_target r = raw_replay_dag_id \<and> req_api_cost r = 0
         \<and> (\<exists>e. map_of ev (job_key job) = Some e \<and> ev_job_key e = job_key job
              \<and> dict_get ''raw_object_keys'' (req_conf r) = PList (map PStr (ev_object_keys e))
              \<and> length (job_slot_ids job) \<le> length (ev_object_keys e)))
      \<or> (job_action job = RECOLLECT \<and> req_target r = recollect_dag_id \<and> req_api_cost r = 1
         \<and> (\<exists>d t. kma_base_datetime L (job_slot_key job) = Inr (d, t)
              \<and> dict_get ''base_date'' (req_conf r) = PStr d \<and> dict_get ''base_time'' (req_conf r) = PStr t)))"

lemma compile_step_Inr:
  assumes "compile_step L pid ev job st = Inr st'"
  obtains r where "st' = (fst st @ [job_key job], snd st @ [r])" "request_for L pid ev job r"
    "job_key job \<notin> set (fst st)" "job_domain job = ''weather''" "job_source_id job = weather_source_id"
proof (cases "job_action job")
  case RAW_REPLAY
  with assms obtain e where e: "map_of ev (job_key job) = Some e" "ev_job_key e = job_key job"
    "length (job_slot_ids job) \<le> length (ev_object_keys e)"
    "st' = (fst st @ [job_key job], snd st @ [replay_request pid job e])"
    by (auto simp: compile_step_def split: if_splits option.splits)
  have "request_for L pid ev job (replay_request pid job e)"
    using e RAW_REPLAY by (auto simp: request_for_def replay_request_def Let_def dict_get_def split: option.splits)
  with e assms show ?thesis by (intro that) (auto simp: compile_step_def split: if_splits)
next
  case RECOLLECT
  with assms obtain base where b: "kma_base_datetime L (job_slot_key job) = Inr base"
    "st' = (fst st @ [job_key job], snd st @ [recollect_request pid job base])"
    by (auto simp: compile_step_def result_simps split: if_splits)
  have "request_for L pid ev job (recollect_request pid job base)"
    using b(1) RECOLLECT by (cases base) (auto simp: request_for_def recollect_request_def dict_get_def)
  with b assms show ?thesis by (intro that) (auto simp: compile_step_def split: if_splits)
qed (use assms in \<open>auto simp: compile_step_def split: if_splits\<close>)

lemma compile_fold:
  assumes "fold_result (compile_step L pid ev) jobs st = Inr st'"
  shows "fst st' = fst st @ map job_key jobs \<and> (distinct (fst st) \<longrightarrow> distinct (fst st'))
    \<and> (\<forall>j\<in>set jobs. job_domain j = ''weather'' \<and> job_source_id j = weather_source_id)
    \<and> (\<exists>rs. snd st' = snd st @ rs \<and> list_all2 (request_for L pid ev) jobs rs)"
  using assms
proof (induction jobs arbitrary: st)
  case (Cons j jobs)
  then obtain st1 where st1: "compile_step L pid ev j st = Inr st1"
    "fold_result (compile_step L pid ev) jobs st1 = Inr st'" by (auto split: sum.splits)
  from st1(1) obtain r where r: "st1 = (fst st @ [job_key j], snd st @ [r])" "request_for L pid ev j r"
    "job_key j \<notin> set (fst st)" "job_domain j = ''weather''" "job_source_id j = weather_source_id"
    by (rule compile_step_Inr)
  from Cons.IH [OF st1(2)] r show ?case
    by (auto intro: exI [of _ "r # _"]) blast
qed auto

lemma compile_Inr:
  assumes "compile_dispatch_requests L plan evidence = Inr rs"
    and "ev = (case evidence of None \<Rightarrow> [] | Some d \<Rightarrow> d)"
  shows "list_all2 (request_for L (plan_id plan) ev) (plan_jobs plan) rs"
    "distinct (map job_key (plan_jobs plan))"
    "\<forall>j\<in>set (plan_jobs plan). job_domain j = ''weather'' \<and> job_source_id j = weather_source_id"
  using assms compile_fold [of L "plan_id plan" ev "plan_jobs plan" "([], [])"]
  by (auto simp: compile_dispatch_requests_def result_simps Let_def)

lemma request_for_keys: "list_all2 (request_for L pid ev) js rs \<Longrightarrow> map req_job_key rs = map job_key js"
  by (induction rule: list_all2_induct) (auto simp: request_for_def)

section \<open>Properties\<close>

text \<open>C6: Compilation translates the admitted jobs of a plan one for one, in their order, under
  distinct job keys: each request goes to the DAG of the job's action at its API cost, a replay
  request carries exactly the verified object keys, at least one per planned slot, and a recollect
  request carries the issue time of the job's slot in the Korean wall clock.\<close>

theorem compile_one_request_per_job:
  assumes "compile_dispatch_requests L plan (Some ev) = Inr rs"
  shows "list_all2 (request_for L (plan_id plan) ev) (plan_jobs plan) rs
    \<and> distinct (map req_job_key rs)"
  using compile_Inr [OF assms refl] request_for_keys by fastforce

definition demo_job :: recovery_job where
  "demo_job = \<lparr>job_key = ''weather-recovery/v1/aa'', job_action = RAW_REPLAY, job_domain = ''weather'',
     job_source_id = weather_source_id, job_slot_key = ''slot-1'', job_slot_ids = [''a'', ''b''],
     job_priority = 100, job_api_cost = 0, job_reason_code = ''raw_manifest_verified'',
     job_scheduled_at = [], job_deadline_at = [], job_evidence = []\<rparr>"

definition demo_plan_record :: recovery_plan where
  "demo_plan_record = \<lparr>plan_id = ''plan-1'', plan_generated_at = [], plan_status = ''ready'',
     plan_jobs = [demo_job], plan_blocked = [], plan_deferred = [], plan_metrics = [],
     plan_policy_version = ''v1''\<rparr>"

definition demo_evidence :: "(string \<times> replay_evidence) list" where
  "demo_evidence = [(''weather-recovery/v1/aa'',
     \<lparr>ev_job_key = ''weather-recovery/v1/aa'', ev_manifest_key = ''m'', ev_object_keys = [''k1'', ''k2''],
      ev_load_date = None, ev_manifest_verified = True\<rparr>)]"

lemma plan_id_ok: "dispatch_safe_key (PStr ''plan-1'') f = Inr ''plan-1''"
  by (simp add: dispatch_safe_key_def safe_pattern_def char_in_def alnum_def)

lemma demo_compiles:
  "compile_dispatch_requests L demo_plan_record (Some demo_evidence)
     = Inr [replay_request ''plan-1'' demo_job (snd (hd demo_evidence))]"
  by (simp add: compile_dispatch_requests_def compile_step_def demo_plan_record_def demo_job_def
      demo_evidence_def plan_id_ok)

lemma compile_one_request_per_job_witness:
  "\<exists>r. compile_dispatch_requests (std_lib id) demo_plan_record (Some demo_evidence) = Inr [r]
     \<and> request_for (std_lib id) ''plan-1'' demo_evidence demo_job r"
  using demo_compiles [of "std_lib id"] compile_one_request_per_job [OF demo_compiles, of "std_lib id"]
  by (simp add: demo_plan_record_def)

text \<open>C7: Compilation fails closed: a job that is not a Weather forecast job, a blocked or deferred
  job, a repeated job key, or a replay whose evidence is absent, belongs to another job or has fewer
  objects than the job has slots, makes the whole plan uncompiled.\<close>

theorem compile_fails_closed:
  assumes "j \<in> set (plan_jobs plan)"
    and "job_domain j \<noteq> ''weather'' \<or> job_source_id j \<noteq> weather_source_id
      \<or> job_action j = BLOCKED \<or> job_action j = DEFERRED
      \<or> \<not> distinct (map job_key (plan_jobs plan))
      \<or> (job_action j = RAW_REPLAY \<and> (case map_of ev (job_key j) of None \<Rightarrow> True
           | Some e \<Rightarrow> ev_job_key e \<noteq> job_key j \<or> length (ev_object_keys e) < length (job_slot_ids j)))"
  shows "\<exists>e. compile_dispatch_requests L plan (Some ev) = Inl e"
proof (cases "compile_dispatch_requests L plan (Some ev)")
  case (Inr rs)
  from compile_Inr [OF Inr refl] obtain r where "request_for L (plan_id plan) ev j r"
    using assms(1) by (force simp: list_all2_conv_all_nth in_set_conv_nth)
  with assms compile_Inr(2,3) [OF Inr refl] show ?thesis
    by (auto simp: request_for_def)
qed simp

lemma compile_fails_closed_witness:
  "\<exists>e. compile_dispatch_requests (std_lib id) demo_plan_record (Some []) = Inl e"
  by (rule compile_fails_closed [of demo_job]) (simp_all add: demo_plan_record_def demo_job_def)

end
