(* ===== verification/Recovery_Admission.thy ===== *)
theory Recovery_Admission
  imports Recovery_Dispatch
begin

text \<open>
  The admission policy (\<open>dags/common/recovery/admission.py\<close>): snapshots of DAG runs and pools,
  their validation, and the decision on each dispatch request.  The lemmas show what an admitted
  request is guaranteed about the snapshots, that the dispatch budget holds, and that every
  request gets exactly one decision, the one of the decision table.
\<close>

section \<open>Snapshots\<close>

definition admission_schema :: string where "admission_schema = ''weather-recovery-admission/v1''"

definition active_run_states :: "string list" where
  "active_run_states = [''queued'', ''running'', ''scheduled'', ''up_for_retry'', ''deferred'']"

definition trino_pool :: string where "trino_pool = ''trino_weather_heavy''"
definition kma_api_pool :: string where "kma_api_pool = ''kma_api_requests''"

datatype admission_decision = ADMIT | DEFER | REJECT

fun decision_value :: "admission_decision \<Rightarrow> string" where
  "decision_value ADMIT = ''admit''"
| "decision_value DEFER = ''defer''"
| "decision_value REJECT = ''reject''"

definition admission_safe_text :: "pyobj \<Rightarrow> string \<Rightarrow> string result" where
  "admission_safe_text v field =
     (case v of
        PStr s \<Rightarrow> if safe_pattern ''._:/+-'' 255 s then Inr s
                  else Inl (RecoveryAdmissionError (field @ '' must be a safe identifier''))
      | _ \<Rightarrow> Inl (RecoveryAdmissionError (field @ '' must be a safe identifier'')))"

record active_run =
  run_dag_id :: string
  run_run_id :: string
  run_state :: string

definition active_run_init :: "pyobj \<Rightarrow> pyobj \<Rightarrow> pyobj \<Rightarrow> active_run result" where
  "active_run_init dag_id run_id state =
     bind_result (admission_safe_text dag_id ''dag_id'') (\<lambda>d.
     bind_result (admission_safe_text run_id ''run_id'') (\<lambda>r.
     bind_result (admission_safe_text state ''state'') (\<lambda>s.
     Inr \<lparr>run_dag_id = d, run_run_id = r, run_state = s\<rparr>)))"

definition run_active :: "active_run \<Rightarrow> bool" where
  "run_active r \<longleftrightarrow> run_state r \<in> set active_run_states"

record pool_snapshot =
  pool_name :: string
  pool_total :: int
  pool_occupied :: int
  pool_queued :: int

definition pool_count :: "pyobj \<Rightarrow> string \<Rightarrow> int result" where
  "pool_count v field =
     (case v of
        PInt i \<Rightarrow> if i < 0 then Inl (RecoveryAdmissionError (field @ '' must be a non-negative integer''))
                  else Inr i
      | _ \<Rightarrow> Inl (RecoveryAdmissionError (field @ '' must be a non-negative integer'')))"

definition pool_snapshot_init :: "pyobj \<Rightarrow> pyobj \<Rightarrow> pyobj \<Rightarrow> pyobj \<Rightarrow> pool_snapshot result" where
  "pool_snapshot_init pool total_slots occupied_slots queued_tasks =
     bind_result (admission_safe_text pool ''pool'') (\<lambda>p.
     bind_result (pool_count total_slots ''total_slots'') (\<lambda>total.
     bind_result (pool_count occupied_slots ''occupied_slots'') (\<lambda>occupied.
     bind_result (pool_count queued_tasks ''queued_tasks'') (\<lambda>queued.
     if total = 0 then Inl (RecoveryAdmissionError ''total_slots must be positive'')
     else if occupied > total then Inl (RecoveryAdmissionError ''occupied_slots exceeds total_slots'')
     else Inr \<lparr>pool_name = p, pool_total = total, pool_occupied = occupied, pool_queued = queued\<rparr>))))"

definition available_slots :: "pool_snapshot \<Rightarrow> int" where
  "available_slots p = pool_total p - pool_occupied p"

record admission_policy =
  adp_max_dispatches :: int
  adp_require_empty_queue :: bool

definition admission_policy_init :: "pyobj \<Rightarrow> pyobj \<Rightarrow> admission_policy result" where
  "admission_policy_init max_dispatches require_empty_queue =
     (case max_dispatches of
        PInt n \<Rightarrow>
          if n < 1 then Inl (RecoveryAdmissionError ''max_dispatches must be positive'')
          else (case require_empty_queue of
              PBool b \<Rightarrow> Inr \<lparr>adp_max_dispatches = n, adp_require_empty_queue = b\<rparr>
            | _ \<Rightarrow> Inl (RecoveryAdmissionError ''require_empty_queue must be a bool''))
      | _ \<Rightarrow> Inl (RecoveryAdmissionError ''max_dispatches must be an integer''))"

definition default_admission_policy :: admission_policy where
  "default_admission_policy = \<lparr>adp_max_dispatches = 1, adp_require_empty_queue = True\<rparr>"

record admission_result =
  res_request :: dispatch_request
  res_decision :: admission_decision
  res_reason :: string
  res_active_conflicts :: "active_run list"
  res_pool_conflicts :: "pool_snapshot list"

definition admission_to_redacted :: "admission_result \<Rightarrow> pyobj" where
  "admission_to_redacted r = PDict
     [(''schema_version'', PStr admission_schema),
      (''plan_id'', PStr (req_plan_id (res_request r))),
      (''job_key'', PStr (req_job_key (res_request r))),
      (''target_dag_id'', PStr (req_target (res_request r))),
      (''action'', PStr (action_value (req_action (res_request r)))),
      (''decision'', PStr (decision_value (res_decision r))),
      (''reason_code'', PStr (res_reason r)),
      (''active_conflict_count'', PInt (int (length (res_active_conflicts r)))),
      (''pool_conflicts'', PList (map (\<lambda>p. PDict
         [(''pool'', PStr (pool_name p)), (''available_slots'', PInt (available_slots p)),
          (''queued_tasks'', PInt (pool_queued p))]) (res_pool_conflicts r))),
      (''mutation_performed'', PBool False)]"

section \<open>Decisions\<close>

definition required_pools :: "dispatch_request \<Rightarrow> string list result" where
  "required_pools r =
     (if req_target r = raw_replay_dag_id then Inr [trino_pool]
      else if req_target r = recollect_dag_id then Inr [kma_api_pool, trino_pool]
      else Inl (RecoveryAdmissionError ''unsupported target DAG''))"

definition common_conflict_dags :: "string list" where
  "common_conflict_dags =
     [''weather_vilage_fcst_bronze'', ''weather_vilage_fcst_bronze_backfill'',
      ''weather_vilage_fcst_recollect'', ''weather_vilage_fcst_transform'',
      ''weather_serving_snapshot_refresh'', ''weather_serving_export'',
      ''weather_serving_freshness_watchdog'', ''weather_ultra_srt_ncst_bronze'',
      ''weather_w2_canonical_transform'', ''weather_w1_contract_smoke'',
      ''weather_w2_canonical_contract_audit'', ''weather_w2_observation_recovery'',
      ''weather_reference_data_refresh'', ''ask_seoul_iceberg_maintenance'']"

definition conflict_dag_ids :: "string \<Rightarrow> string list result" where
  "conflict_dag_ids target =
     (if target = raw_replay_dag_id \<or> target = recollect_dag_id then Inr common_conflict_dags
      else Inl (RecoveryAdmissionError ''unsupported target DAG''))"

definition validate_active_run :: "active_run \<Rightarrow> (string \<times> string) list \<Rightarrow> (string \<times> string) list result" where
  "validate_active_run run seen =
     (if (run_dag_id run, run_run_id run) \<in> set seen
      then Inl (RecoveryAdmissionError ''duplicate active run snapshot'')
      else Inr ((run_dag_id run, run_run_id run) # seen))"

definition validate_active_runs :: "active_run list \<Rightarrow> (string \<times> string) list result" where
  "validate_active_runs runs = fold_result validate_active_run runs []"

text \<open>
  The \<open>pools\<close> argument: \<open>None\<close> when it is not a mapping; an entry is \<open>None\<close> when it is not a
  pool snapshot.
\<close>

definition validate_pool :: "string \<times> pool_snapshot option \<Rightarrow> (string \<times> pool_snapshot) result" where
  "validate_pool kv =
     (case snd kv of
        None \<Rightarrow> Inl (RecoveryAdmissionError ''pool mapping value is invalid'')
      | Some p \<Rightarrow> if fst kv \<noteq> pool_name p
                  then Inl (RecoveryAdmissionError ''pool mapping key does not match snapshot'')
                  else Inr (fst kv, p))"

definition validate_pools ::
  "(string \<times> pool_snapshot option) list option \<Rightarrow> (string \<times> pool_snapshot) list result" where
  "validate_pools pools =
     (case pools of
        None \<Rightarrow> Inl (RecoveryAdmissionError ''pools must be a mapping'')
      | Some d \<Rightarrow> traverse validate_pool d)"

definition missing_pool :: "string \<Rightarrow> pool_snapshot" where
  "missing_pool p = \<lparr>pool_name = p, pool_total = 1, pool_occupied = 1, pool_queued = 0\<rparr>"

definition pool_busy :: "admission_policy \<Rightarrow> pool_snapshot \<Rightarrow> bool" where
  "pool_busy pol p \<longleftrightarrow> available_slots p < 1 \<or> (adp_require_empty_queue pol \<and> pool_queued p > 0)"

definition plain_result :: "dispatch_request \<Rightarrow> admission_decision \<Rightarrow> string \<Rightarrow> admission_result" where
  "plain_result r d reason = \<lparr>res_request = r, res_decision = d, res_reason = reason,
     res_active_conflicts = [], res_pool_conflicts = []\<rparr>"

record admission_state =
  ads_seen :: "string list"
  ads_admitted :: int
  ads_results :: "admission_result list"

text \<open>The loop body from the pool checks on, for a request without an active conflict.\<close>

definition pool_step ::
  "admission_policy \<Rightarrow> (string \<times> pool_snapshot) list \<Rightarrow> dispatch_request \<Rightarrow> admission_state
     \<Rightarrow> admission_state result" where
  "pool_step pol pools r st =
     bind_result (required_pools r) (\<lambda>required.
     let missing = map missing_pool (filter (\<lambda>p. map_of pools p = None) required);
         busy = filter (pool_busy pol) (map (\<lambda>p. the (map_of pools p)) required);
         add = (\<lambda>x. st\<lparr>ads_results := ads_results st @ [x]\<rparr>)
     in if missing \<noteq> []
        then Inr (add ((plain_result r REJECT ''pool_snapshot_missing'')\<lparr>res_pool_conflicts := missing\<rparr>))
        else if busy \<noteq> []
        then Inr (add ((plain_result r DEFER ''pool_busy'')\<lparr>res_pool_conflicts := busy\<rparr>))
        else if ads_admitted st \<ge> adp_max_dispatches pol
        then Inr (add (plain_result r DEFER ''dispatch_budget_exhausted''))
        else Inr ((add (plain_result r ADMIT ''admission_clear''))\<lparr>ads_admitted := ads_admitted st + 1\<rparr>))"

definition request_step ::
  "admission_policy \<Rightarrow> active_run list \<Rightarrow> (string \<times> pool_snapshot) list \<Rightarrow> dispatch_request
     \<Rightarrow> admission_state \<Rightarrow> admission_state result" where
  "request_step pol runs pools r st =
     (let add = (\<lambda>s x. s\<lparr>ads_results := ads_results s @ [x]\<rparr>);
          st1 = st\<lparr>ads_seen := ads_seen st @ [req_job_key r]\<rparr>
      in if req_job_key r \<in> set (ads_seen st)
         then Inr (add st (plain_result r REJECT ''duplicate_job_key''))
         else if req_target r \<noteq> raw_replay_dag_id \<and> req_target r \<noteq> recollect_dag_id
         then Inr (add st1 (plain_result r REJECT ''unsupported_target_dag''))
         else if action_value (req_action r)
                 \<noteq> (if req_target r = raw_replay_dag_id then ''raw_replay'' else ''recollect'')
         then Inr (add st1 (plain_result r REJECT ''action_target_mismatch''))
         else bind_result (conflict_dag_ids (req_target r)) (\<lambda>dags.
         let conflicts = filter (\<lambda>run. run_active run \<and> run_dag_id run \<in> set dags) runs
         in if conflicts \<noteq> []
            then Inr (add st1 ((plain_result r DEFER ''active_run_conflict'')\<lparr>res_active_conflicts := conflicts\<rparr>))
            else pool_step pol pools r st1))"

definition admit_dispatch_requests ::
  "dispatch_request list \<Rightarrow> active_run list \<Rightarrow> (string \<times> pool_snapshot option) list option
     \<Rightarrow> admission_policy option \<Rightarrow> admission_result list result" where
  "admit_dispatch_requests requests runs pools policy =
     (let pol = (case policy of None \<Rightarrow> default_admission_policy | Some p \<Rightarrow> p) in
      bind_result (validate_active_runs runs) (\<lambda>_.
      bind_result (validate_pools pools) (\<lambda>pls.
      bind_result (fold_result (request_step pol runs pls) requests
          \<lparr>ads_seen = [], ads_admitted = 0, ads_results = []\<rparr>) (\<lambda>st.
      Inr (ads_results st)))))"

section \<open>The decision table\<close>

text \<open>Nothing in the snapshot stands against running the request now.\<close>

definition snapshot_clear ::
  "admission_policy \<Rightarrow> active_run list \<Rightarrow> (string \<times> pool_snapshot) list \<Rightarrow> dispatch_request \<Rightarrow> bool" where
  "snapshot_clear pol runs pools r \<longleftrightarrow>
     (\<forall>run\<in>set runs. \<not> (run_active run \<and> run_dag_id run \<in> set common_conflict_dags))
     \<and> (\<exists>ps. required_pools r = Inr ps \<and> (\<forall>p\<in>set ps. \<exists>s. map_of pools p = Some s \<and> \<not> pool_busy pol s))"

definition request_matches :: "dispatch_request \<Rightarrow> bool" where
  "request_matches r \<longleftrightarrow>
     (req_target r = raw_replay_dag_id \<and> req_action r = RAW_REPLAY)
     \<or> (req_target r = recollect_dag_id \<and> req_action r = RECOLLECT)"

lemma dag_ids_differ [simp]: "raw_replay_dag_id \<noteq> recollect_dag_id" "recollect_dag_id \<noteq> raw_replay_dag_id"
  by (simp_all add: raw_replay_dag_id_def recollect_dag_id_def)

lemma action_value_iff [simp]:
  "action_value a = ''raw_replay'' \<longleftrightarrow> a = RAW_REPLAY" "action_value a = ''recollect'' \<longleftrightarrow> a = RECOLLECT"
  by (cases a; simp)+

text \<open>The effect of one step on the loop's state.\<close>

definition decides :: "admission_policy \<Rightarrow> active_run list \<Rightarrow> (string \<times> pool_snapshot) list
    \<Rightarrow> admission_state \<Rightarrow> dispatch_request \<Rightarrow> admission_result \<Rightarrow> bool" where
  "decides pol runs pools st r x \<longleftrightarrow>
     res_request x = r
     \<and> (res_decision x = ADMIT \<longleftrightarrow> req_job_key r \<notin> set (ads_seen st) \<and> request_matches r
          \<and> snapshot_clear pol runs pools r \<and> ads_admitted st < adp_max_dispatches pol)
     \<and> (res_decision x = REJECT \<longleftrightarrow> req_job_key r \<in> set (ads_seen st) \<or> \<not> request_matches r
          \<or> res_reason x = ''pool_snapshot_missing'')"

lemma required_pools_matches: "request_matches r \<Longrightarrow> \<exists>ps. required_pools r = Inr ps"
  by (auto simp: request_matches_def required_pools_def)

lemma pool_step_decides:
  assumes "required_pools r = Inr ps"
  shows "\<exists>x. pool_step pol pools r st
      = Inr (st\<lparr>ads_results := ads_results st @ [x],
                ads_admitted := ads_admitted st + (if res_decision x = ADMIT then 1 else 0)\<rparr>)
    \<and> res_request x = r
    \<and> (res_decision x = ADMIT \<longleftrightarrow> (\<forall>p\<in>set ps. \<exists>s. map_of pools p = Some s \<and> \<not> pool_busy pol s)
         \<and> ads_admitted st < adp_max_dispatches pol)
    \<and> (res_decision x = REJECT \<longleftrightarrow> res_reason x = ''pool_snapshot_missing'')"
proof -
  let ?missing = "filter (\<lambda>p. map_of pools p = None) ps"
  let ?busy = "filter (pool_busy pol) (map (\<lambda>p. the (map_of pools p)) ps)"
  consider "?missing \<noteq> []" | "?missing = []" "?busy \<noteq> []" | "?missing = []" "?busy = []" by blast
  then show ?thesis
  proof cases
    case 1
    then have "\<not> (\<forall>p\<in>set ps. \<exists>s. map_of pools p = Some s \<and> \<not> pool_busy pol s)"
      by (fastforce simp: filter_empty_conv)
    with 1 assms show ?thesis
      by (intro exI [of _ "(plain_result r REJECT ''pool_snapshot_missing'')
            \<lparr>res_pool_conflicts := map missing_pool ?missing\<rparr>"])
        (simp add: pool_step_def Let_def plain_result_def)
  next
    case 2
    then have "\<not> (\<forall>p\<in>set ps. \<exists>s. map_of pools p = Some s \<and> \<not> pool_busy pol s)"
      by (fastforce simp: filter_empty_conv)
    with 2 assms show ?thesis
      by (intro exI [of _ "(plain_result r DEFER ''pool_busy'')\<lparr>res_pool_conflicts := ?busy\<rparr>"])
        (simp add: pool_step_def Let_def plain_result_def)
  next
    case 3
    then have all: "\<forall>p\<in>set ps. \<exists>s. map_of pools p = Some s \<and> \<not> pool_busy pol s"
      by (fastforce simp: filter_empty_conv)
    show ?thesis
    proof (cases "ads_admitted st \<ge> adp_max_dispatches pol")
      case True
      with 3 all assms show ?thesis
        by (intro exI [of _ "plain_result r DEFER ''dispatch_budget_exhausted''"])
          (simp add: pool_step_def Let_def plain_result_def)
    next
      case False
      with 3 all assms show ?thesis
        by (intro exI [of _ "plain_result r ADMIT ''admission_clear''"])
          (simp add: pool_step_def Let_def plain_result_def)
    qed
  qed
qed

lemma request_step_decides:
  "\<exists>x seen. request_step pol runs pools r st
      = Inr (st\<lparr>ads_seen := seen, ads_results := ads_results st @ [x],
                ads_admitted := ads_admitted st + (if res_decision x = ADMIT then 1 else 0)\<rparr>)
    \<and> set seen = insert (req_job_key r) (set (ads_seen st))
    \<and> decides pol runs pools st r x"
proof -
  let ?st = "st\<lparr>ads_seen := ads_seen st @ [req_job_key r]\<rparr>"
  let ?conflicts = "filter (\<lambda>run. run_active run \<and> run_dag_id run \<in> set common_conflict_dags) runs"
  consider (seen) "req_job_key r \<in> set (ads_seen st)"
    | (mismatch) "req_job_key r \<notin> set (ads_seen st)" "\<not> request_matches r"
    | (conflict) "req_job_key r \<notin> set (ads_seen st)" "request_matches r" "?conflicts \<noteq> []"
    | (pools) "req_job_key r \<notin> set (ads_seen st)" "request_matches r" "?conflicts = []" by blast
  then show ?thesis
  proof cases
    case seen
    let ?x = "plain_result r REJECT ''duplicate_job_key''"
    from seen show ?thesis
      by (intro exI [of _ ?x] exI [of _ "ads_seen st"])
        (simp add: request_step_def Let_def plain_result_def decides_def insert_absorb)
  next
    case mismatch
    let ?reason = "if req_target r \<noteq> raw_replay_dag_id \<and> req_target r \<noteq> recollect_dag_id
      then ''unsupported_target_dag'' else ''action_target_mismatch''"
    have "request_step pol runs pools r st
        = Inr (?st\<lparr>ads_results := ads_results st @ [plain_result r REJECT ?reason]\<rparr>)"
      using mismatch by (auto simp: request_step_def Let_def request_matches_def)
    with mismatch show ?thesis
      by (intro exI [of _ "plain_result r REJECT ?reason"] exI [of _ "ads_seen st @ [req_job_key r]"])
        (simp add: plain_result_def decides_def)
  next
    case conflict
    let ?x = "(plain_result r DEFER ''active_run_conflict'')\<lparr>res_active_conflicts := ?conflicts\<rparr>"
    have "request_step pol runs pools r st = Inr (?st\<lparr>ads_results := ads_results st @ [?x]\<rparr>)"
      using conflict by (auto simp: request_step_def Let_def request_matches_def conflict_dag_ids_def)
    moreover have "\<not> snapshot_clear pol runs pools r"
      using conflict(3) by (auto simp: snapshot_clear_def filter_empty_conv)
    ultimately show ?thesis using conflict
      by (intro exI [of _ ?x] exI [of _ "ads_seen st @ [req_job_key r]"])
        (simp add: plain_result_def decides_def)
  next
    case pools
    then obtain ps where ps: "required_pools r = Inr ps" using required_pools_matches by blast
    have "request_step pol runs pools r st = pool_step pol pools r ?st"
      using pools by (auto simp: request_step_def Let_def request_matches_def conflict_dag_ids_def)
    moreover have "snapshot_clear pol runs pools r
        \<longleftrightarrow> (\<forall>p\<in>set ps. \<exists>s. map_of pools p = Some s \<and> \<not> pool_busy pol s)"
      using pools(3) ps by (auto simp: snapshot_clear_def filter_empty_conv)
    ultimately show ?thesis using pools(1,2) pool_step_decides [OF ps, of pol pools ?st]
      by (elim exE conjE) (rule_tac x = x in exI, rule exI [of _ "ads_seen st @ [req_job_key r]"],
        simp add: decides_def)
  qed
qed

text \<open>The loop over the requests: every decision is the one of the table at its place.\<close>

definition admits :: "admission_result \<Rightarrow> bool" where
  "admits x \<longleftrightarrow> res_decision x = ADMIT"

definition table_ok :: "admission_policy \<Rightarrow> active_run list \<Rightarrow> (string \<times> pool_snapshot) list
    \<Rightarrow> dispatch_request list \<Rightarrow> admission_result list \<Rightarrow> bool" where
  "table_ok pol runs pools rs xs \<longleftrightarrow>
     map res_request xs = rs
     \<and> (\<forall>k<length rs. admits (xs ! k) \<longleftrightarrow>
           req_job_key (rs ! k) \<notin> req_job_key ` set (take k rs) \<and> request_matches (rs ! k)
           \<and> snapshot_clear pol runs pools (rs ! k)
           \<and> int (length (filter admits (take k xs))) < adp_max_dispatches pol)"

lemma table_ok_snoc:
  assumes "table_ok pol runs pools rs xs" and "res_request x = r"
    and "admits x \<longleftrightarrow> req_job_key r \<notin> req_job_key ` set rs \<and> request_matches r
      \<and> snapshot_clear pol runs pools r \<and> int (length (filter admits xs)) < adp_max_dispatches pol"
  shows "table_ok pol runs pools (rs @ [r]) (xs @ [x])"
proof -
  have "length xs = length rs" using assms(1) by (auto simp: table_ok_def)
  then show ?thesis
    using assms by (auto simp: table_ok_def nth_append less_Suc_eq)
qed

lemma requests_fold:
  "\<exists>st. fold_result (request_step pol runs pools) rs \<lparr>ads_seen = [], ads_admitted = 0, ads_results = []\<rparr> = Inr st
     \<and> set (ads_seen st) = req_job_key ` set rs
     \<and> ads_admitted st = int (length (filter admits (ads_results st)))
     \<and> table_ok pol runs pools rs (ads_results st)"
proof (induction rs rule: rev_induct)
  case (snoc r rs)
  then obtain st where st: "fold_result (request_step pol runs pools) rs
        \<lparr>ads_seen = [], ads_admitted = 0, ads_results = []\<rparr> = Inr st"
    "set (ads_seen st) = req_job_key ` set rs"
    "ads_admitted st = int (length (filter admits (ads_results st)))"
    "table_ok pol runs pools rs (ads_results st)" by blast
  obtain x seen where x: "request_step pol runs pools r st
      = Inr (st\<lparr>ads_seen := seen, ads_results := ads_results st @ [x],
                ads_admitted := ads_admitted st + (if res_decision x = ADMIT then 1 else 0)\<rparr>)"
    "set seen = insert (req_job_key r) (set (ads_seen st))" "decides pol runs pools st r x"
    using request_step_decides by blast
  have "table_ok pol runs pools (rs @ [r]) (ads_results st @ [x])"
    using st x(3) by (intro table_ok_snoc) (auto simp: decides_def admits_def [of x])
  with st x show ?case by (simp add: fold_result_append admits_def [of x])
qed (simp add: table_ok_def)

lemma admit_dispatch_requests_Inr:
  assumes "admit_dispatch_requests rs runs pools (Some pol) = Inr xs"
  obtains pls where "validate_pools pools = Inr pls" "table_ok pol runs pls rs xs"
proof -
  from assms obtain pls st where pls: "validate_pools pools = Inr pls"
    "fold_result (request_step pol runs pls) rs \<lparr>ads_seen = [], ads_admitted = 0, ads_results = []\<rparr> = Inr st"
    "xs = ads_results st"
    by (auto simp: admit_dispatch_requests_def bind_result_Inr_iff Let_def)
  from requests_fold [of pol runs pls rs] pls(2) have "table_ok pol runs pls rs (ads_results st)" by auto
  with pls show ?thesis by (intro that) simp_all
qed

lemma admits_count:
  assumes "table_ok pol runs pools rs xs" and "0 \<le> adp_max_dispatches pol" and "k \<le> length xs"
  shows "int (length (filter admits (take k xs))) \<le> adp_max_dispatches pol"
  using assms(3)
proof (induction k)
  case (Suc k)
  have "length xs = length rs" using assms(1) by (auto simp: table_ok_def)
  with Suc assms(1) show ?case
    by (cases "admits (xs ! k)") (auto simp: take_Suc_conv_app_nth table_ok_def)
qed (use assms(2) in simp)

lemma distinct_filter_first:
  assumes "\<And>k. k < length xs \<Longrightarrow> P (xs ! k) \<Longrightarrow> f (xs ! k) \<notin> f ` set (take k xs)"
  shows "distinct (map f (filter P xs))"
  using assms
proof (induction xs rule: rev_induct)
  case (snoc x xs)
  from snoc.prems [of "length xs"] have x: "P x \<Longrightarrow> f x \<notin> f ` set xs" by simp
  have "f (xs ! k) \<notin> f ` set (take k xs)" if "k < length xs" "P (xs ! k)" for k
    using snoc.prems [of k] that by (simp add: nth_append)
  then have "distinct (map f (filter P xs))" by (rule snoc.IH)
  with x show ?case by auto
qed simp

lemma snapshot_clear_pools:
  assumes "snapshot_clear pol runs pls r"
  shows "(\<forall>run\<in>set runs. run_state run \<in> set active_run_states \<longrightarrow> run_dag_id run \<notin> set common_conflict_dags)
    \<and> (\<exists>ps. required_pools r = Inr ps \<and> (\<forall>p\<in>set ps. \<exists>s. map_of pls p = Some s
         \<and> 1 \<le> available_slots s \<and> (adp_require_empty_queue pol \<longrightarrow> pool_queued s \<le> 0)))"
proof -
  from assms obtain ps where "required_pools r = Inr ps"
    "\<forall>p\<in>set ps. \<exists>s. map_of pls p = Some s \<and> \<not> pool_busy pol s"
    by (auto simp: snapshot_clear_def)
  moreover have "\<not> pool_busy pol s \<Longrightarrow> 1 \<le> available_slots s \<and> (adp_require_empty_queue pol \<longrightarrow> pool_queued s \<le> 0)" for s
    by (auto simp: pool_busy_def)
  ultimately show ?thesis using assms by (fastforce simp: snapshot_clear_def run_active_def)
qed

section \<open>Properties\<close>

text \<open>C8: An admitted dispatch is safe to run on the snapshot it was admitted from: its action is the
  one of its target DAG, no DAG of the conflict family has an active run, every pool it needs has a
  free slot and (when the policy asks for it) an empty queue; no job is admitted twice, and at most
  \<open>max_dispatches\<close> requests are admitted.\<close>

theorem admitted_dispatch_is_safe:
  assumes "admission_policy_init max_dispatches require_empty = Inr pol"
    and "admit_dispatch_requests rs runs pools (Some pol) = Inr xs"
  shows "int (length (filter admits xs)) \<le> adp_max_dispatches pol
    \<and> distinct (map (\<lambda>x. req_job_key (res_request x)) (filter admits xs))
    \<and> (\<forall>x\<in>set xs. admits x \<longrightarrow> request_matches (res_request x)
         \<and> (\<forall>run\<in>set runs. run_state run \<in> set active_run_states \<longrightarrow> run_dag_id run \<notin> set common_conflict_dags)
         \<and> (\<exists>ps pls. required_pools (res_request x) = Inr ps \<and> validate_pools pools = Inr pls
              \<and> (\<forall>p\<in>set ps. \<exists>s. map_of pls p = Some s \<and> 1 \<le> available_slots s
                   \<and> (adp_require_empty_queue pol \<longrightarrow> pool_queued s \<le> 0))))"
proof -
  obtain pls where t: "validate_pools pools = Inr pls" "table_ok pol runs pls rs xs"
    by (rule admit_dispatch_requests_Inr [OF assms(2)])
  have rs: "rs = map res_request xs" using t(2) by (simp add: table_ok_def)
  have "0 \<le> adp_max_dispatches pol"
    using assms(1) by (auto simp: admission_policy_init_def split: pyobj.splits if_splits)
  from admits_count [OF t(2) this, of "length xs"]
  have "int (length (filter admits xs)) \<le> adp_max_dispatches pol" by simp
  moreover have "distinct (map (\<lambda>x. req_job_key (res_request x)) (filter admits xs))"
    using t(2) unfolding rs
    by (intro distinct_filter_first) (auto simp: table_ok_def take_map image_image)
  moreover have ok: "request_matches (res_request x) \<and> snapshot_clear pol runs pls (res_request x)"
    if "x \<in> set xs" "admits x" for x
    using that t(2) unfolding rs by (auto simp: table_ok_def in_set_conv_nth)
  then have clear: "request_matches (res_request x)
      \<and> (\<forall>run\<in>set runs. run_state run \<in> set active_run_states \<longrightarrow> run_dag_id run \<notin> set common_conflict_dags)
      \<and> (\<exists>ps pls. required_pools (res_request x) = Inr ps \<and> validate_pools pools = Inr pls
           \<and> (\<forall>p\<in>set ps. \<exists>s. map_of pls p = Some s \<and> 1 \<le> available_slots s
                \<and> (adp_require_empty_queue pol \<longrightarrow> pool_queued s \<le> 0)))"
    if "x \<in> set xs" "admits x" for x
  proof -
    note c = snapshot_clear_pools [OF conjunct2 [OF ok [OF that]]]
    from conjunct2 [OF c] obtain ps where "required_pools (res_request x) = Inr ps"
      "\<forall>p\<in>set ps. \<exists>s. map_of pls p = Some s \<and> 1 \<le> available_slots s
         \<and> (adp_require_empty_queue pol \<longrightarrow> pool_queued s \<le> 0)" by (elim exE conjE) (rule that)
    with conjunct1 [OF c] conjunct1 [OF ok [OF that]] t(1) show ?thesis
      by (intro conjI exI [of _ ps] exI [of _ pls])
  qed
  ultimately show ?thesis by (intro conjI ballI impI clear)
qed

text \<open>C9: The admission of a request is decided by a table: it is admitted exactly when no earlier
  request had its job key, its action is the one of its target, the snapshot is clear, and fewer than
  \<open>max_dispatches\<close> requests before it were admitted; there is one result per request, in order.\<close>

theorem admission_decision_table:
  assumes "admit_dispatch_requests rs runs pools (Some pol) = Inr xs"
    and "validate_pools pools = Inr pls" and "k < length rs"
  shows "map res_request xs = rs
    \<and> (res_decision (xs ! k) = ADMIT \<longleftrightarrow>
         req_job_key (rs ! k) \<notin> req_job_key ` set (take k rs) \<and> request_matches (rs ! k)
         \<and> snapshot_clear pol runs pls (rs ! k)
         \<and> int (length (filter admits (take k xs))) < adp_max_dispatches pol)"
proof -
  obtain pls' where "validate_pools pools = Inr pls'" "table_ok pol runs pls' rs xs"
    by (rule admit_dispatch_requests_Inr [OF assms(1)])
  then have "table_ok pol runs pls rs xs" using assms(2) by simp
  then show ?thesis using assms(3) unfolding table_ok_def admits_def [symmetric] by blast
qed

definition demo_request :: dispatch_request where
  "demo_request = \<lparr>req_plan_id = ''p'', req_job_key = ''j'', req_action = RAW_REPLAY,
     req_target = raw_replay_dag_id, req_conf = [], req_api_cost = 0\<rparr>"

definition demo_pools :: "(string \<times> pool_snapshot option) list option" where
  "demo_pools = Some [(trino_pool, Some \<lparr>pool_name = trino_pool, pool_total = 1, pool_occupied = 0, pool_queued = 0\<rparr>)]"

lemma demo_pools_valid: "validate_pools demo_pools
    = Inr [(trino_pool, \<lparr>pool_name = trino_pool, pool_total = 1, pool_occupied = 0, pool_queued = 0\<rparr>)]"
  by (simp add: validate_pools_def validate_pool_def demo_pools_def)

lemma demo_admission:
  "admit_dispatch_requests [demo_request, demo_request] [] demo_pools (Some default_admission_policy)
    = Inr [plain_result demo_request ADMIT ''admission_clear'', plain_result demo_request REJECT ''duplicate_job_key'']"
  by (simp add: admit_dispatch_requests_def validate_active_runs_def demo_pools_valid request_step_def
      pool_step_def Let_def demo_request_def conflict_dag_ids_def required_pools_def pool_busy_def
      available_slots_def default_admission_policy_def plain_result_def)

lemma admitted_dispatch_is_safe_witness:
  "\<exists>xs. admit_dispatch_requests [demo_request, demo_request] [] demo_pools (Some default_admission_policy) = Inr xs
     \<and> length (filter admits xs) = 1 \<and> int (length (filter admits xs)) \<le> 1"
proof -
  have "admission_policy_init (PInt 1) (PBool True) = Inr default_admission_policy"
    by (simp add: admission_policy_init_def default_admission_policy_def)
  note safe = admitted_dispatch_is_safe [OF this demo_admission]
  show ?thesis unfolding demo_admission
    using conjunct1 [OF safe] by (simp add: admits_def plain_result_def default_admission_policy_def)
qed

lemma admission_decision_table_witness:
  "\<exists>xs. admit_dispatch_requests [demo_request, demo_request] [] demo_pools (Some default_admission_policy) = Inr xs
     \<and> res_decision (xs ! 1) \<noteq> ADMIT"
  using admission_decision_table [OF demo_admission demo_pools_valid, of 1] by (simp add: demo_admission)

end
