(* ===== verification/Recovery_Lease.thy ===== *)
theory Recovery_Lease
  imports Recovery_Planner
begin

text \<open>
  Fenced recovery leases (\<open>dags/common/recovery/lease.py\<close>): the lease and its document, the
  compare-and-swap interface of a lease store, the registry that claims, renews and closes
  leases through it, and the in-memory store.  Another process may run between any two calls of
  the store: the registry operations take the interference as an argument.  The interface is a
  locale; its clients' lemmas show what a successful operation guarantees, and, over all
  interleavings, fencing, mutual exclusion and the finality of terminal leases.
\<close>

section \<open>Leases and their documents\<close>

definition lease_schema :: string where "lease_schema = ''weather-recovery-lease/v1''"

definition active_states :: "string list" where "active_states = [''leased'', ''running'']"

definition terminal_states :: "string list" where
  "terminal_states = [''succeeded'', ''skipped'', ''unrecoverable'', ''blocked'']"

definition lease_states :: "string list" where "lease_states = active_states @ terminal_states"

definition claimable_actions :: "recovery_action list" where "claimable_actions = [RAW_REPLAY, RECOLLECT]"

datatype lease_decision = ACQUIRED | TAKEOVER | ALREADY_OWNED | HELD | TERMINAL | CONFLICT

record lease =
  ls_job_key :: string
  ls_lease_id :: string
  ls_owner :: string
  ls_plan :: string
  ls_action :: recovery_action
  ls_state :: string
  ls_acquired :: int
  ls_expires :: int
  ls_updated :: int
  ls_attempt :: int
  ls_evidence :: "pyobj pydict"

definition lease_safe_text :: "pyobj \<Rightarrow> string \<Rightarrow> string result" where
  "lease_safe_text v field =
     (case v of
        PStr s \<Rightarrow> if safe_pattern ''._:/+-'' 255 s then Inr s
                  else Inl (RecoveryLeaseError (field @ '' must be a safe identifier''))
      | _ \<Rightarrow> Inl (RecoveryLeaseError (field @ '' must be a safe identifier'')))"

definition denied_evidence_tokens :: "string list" where
  "denied_evidence_tokens =
     [''secret'', ''token'', ''password'', ''credential'', ''raw_object'', ''manifest_key'', ''access_key'']"

fun is_scalar :: "pyobj \<Rightarrow> bool" where
  "is_scalar PNone = True"
| "is_scalar (PStr _) = True"
| "is_scalar (PBool _) = True"
| "is_scalar (PInt _) = True"
| "is_scalar (PFloat _) = True"
| "is_scalar _ = False"

definition safe_evidence_item :: "string \<times> pyobj \<Rightarrow> unit result" where
  "safe_evidence_item kv =
     (if \<not> safe_pattern ''._:/+-'' 255 (fst kv)
      then Inl (RecoveryLeaseError ''evidence field name is invalid'')
      else if list_ex (\<lambda>t. is_infix t (str_lower (fst kv))) denied_evidence_tokens
      then Inl (RecoveryLeaseError ''sensitive evidence field is not allowed'')
      else if \<not> is_scalar (snd kv) then Inl (RecoveryLeaseError ''evidence values must be scalar'')
      else (case snd kv of
          PStr s \<Rightarrow> if py_len s > 256 \<or> CHR 0x0A \<in> set s \<or> CHR 0x0D \<in> set s
                    then Inl (RecoveryLeaseError ''evidence text is invalid'') else Inr ()
        | _ \<Rightarrow> Inr ()))"

definition safe_evidence :: "pyobj pydict \<Rightarrow> unit result" where
  "safe_evidence d =
     (if length d > 32 then Inl (RecoveryLeaseError ''evidence contains too many fields'')
      else bind_result (traverse safe_evidence_item d) (\<lambda>_. Inr ()))"

text \<open>
  The constructor.  Its timestamps are UTC instants: every caller has normalised them with
  \<open>_aware_utc\<close>.
\<close>

definition lease_init ::
  "string \<Rightarrow> string \<Rightarrow> string \<Rightarrow> string \<Rightarrow> recovery_action \<Rightarrow> string \<Rightarrow> int \<Rightarrow> int \<Rightarrow> int
     \<Rightarrow> int \<Rightarrow> pyobj \<Rightarrow> lease result" where
  "lease_init jkey lease_id owner plan action state acquired expires updated attempt evidence =
     bind_result (lease_safe_text (PStr jkey) ''job_key'') (\<lambda>_.
     bind_result (lease_safe_text (PStr lease_id) ''lease_id'') (\<lambda>_.
     bind_result (lease_safe_text (PStr owner) ''owner_id'') (\<lambda>_.
     bind_result (lease_safe_text (PStr plan) ''plan_id'') (\<lambda>_.
     if action \<notin> set claimable_actions then Inl (RecoveryLeaseError ''lease action is not claimable'')
     else if state \<notin> set lease_states then Inl (RecoveryLeaseError (''unsupported lease state: '' @ state))
     else bind_result (traverse astimezone_utc [acquired, expires, updated]) (\<lambda>_.
     if expires < acquired then Inl (RecoveryLeaseError ''expires_at must not precede acquired_at'')
     else if attempt < 1 then Inl (RecoveryLeaseError ''attempt_count must be positive'')
     else (case evidence of
         PDict d \<Rightarrow> bind_result (safe_evidence d) (\<lambda>_.
           Inr \<lparr>ls_job_key = jkey, ls_lease_id = lease_id, ls_owner = owner, ls_plan = plan,
                ls_action = action, ls_state = state, ls_acquired = acquired, ls_expires = expires,
                ls_updated = updated, ls_attempt = attempt, ls_evidence = d\<rparr>)
       | _ \<Rightarrow> Inl (RecoveryLeaseError ''evidence must be an object'')))))))"

definition is_active_at :: "lease \<Rightarrow> int \<Rightarrow> bool" where
  "is_active_at l now \<longleftrightarrow> ls_state l \<in> set active_states \<and> ls_expires l > now"

definition lease_to_dict :: "lease \<Rightarrow> pyobj pydict" where
  "lease_to_dict l =
     [(''schema_version'', PStr lease_schema),
      (''job_key'', PStr (ls_job_key l)),
      (''lease_id'', PStr (ls_lease_id l)),
      (''owner_id'', PStr (ls_owner l)),
      (''plan_id'', PStr (ls_plan l)),
      (''action'', PStr (action_value (ls_action l))),
      (''state'', PStr (ls_state l)),
      (''acquired_at'', PStr (isoformat (ls_acquired l))),
      (''expires_at'', PStr (isoformat (ls_expires l))),
      (''updated_at'', PStr (isoformat (ls_updated l))),
      (''attempt_count'', PInt (ls_attempt l)),
      (''evidence'', PDict (ls_evidence l))]"

definition lease_aware_utc :: "pylib \<Rightarrow> pyobj \<Rightarrow> string \<Rightarrow> int result" where
  "lease_aware_utc L v field =
     coerce_utc L
       (RecoveryLeaseError (field @ '' must be an ISO timestamp''))
       (RecoveryLeaseError (field @ '' must be a timestamp''))
       (RecoveryLeaseError (field @ '' must include timezone'')) v"

definition lease_text :: "pyobj pydict \<Rightarrow> string \<Rightarrow> string result" where
  "lease_text d field =
     (case dict_get field d of PStr s \<Rightarrow> Inr s
      | _ \<Rightarrow> Inl (RecoveryLeaseError (field @ '' must be a string'')))"

definition lease_int :: "pyobj \<Rightarrow> string \<Rightarrow> int result" where
  "lease_int v field =
     (case v of
        PInt i \<Rightarrow> if i < 1 then Inl (RecoveryLeaseError (field @ '' must be a positive integer'')) else Inr i
      | _ \<Rightarrow> Inl (RecoveryLeaseError (field @ '' must be a positive integer'')))"

text \<open>\<open>RecoveryAction(value)\<close>.\<close>

definition parse_action :: "string \<Rightarrow> recovery_action result" where
  "parse_action s =
     (if s = ''raw_replay'' then Inr RAW_REPLAY else if s = ''recollect'' then Inr RECOLLECT
      else if s = ''blocked'' then Inr BLOCKED else if s = ''deferred'' then Inr DEFERRED
      else Inl (ValueError ''not a valid RecoveryAction''))"

definition lease_from_document :: "pylib \<Rightarrow> pyobj pydict \<Rightarrow> lease result" where
  "lease_from_document L d =
     (if dict_get ''schema_version'' d \<noteq> PStr lease_schema
      then Inl (RecoveryLeaseError ''unsupported lease schema'')
      else try_except
        (bind_result (lease_text d ''job_key'') (\<lambda>jkey.
         bind_result (lease_text d ''lease_id'') (\<lambda>lid.
         bind_result (lease_text d ''owner_id'') (\<lambda>owner.
         bind_result (lease_text d ''plan_id'') (\<lambda>plan.
         bind_result (bind_result (lease_text d ''action'') parse_action) (\<lambda>action.
         bind_result (lease_text d ''state'') (\<lambda>state.
         bind_result (lease_aware_utc L (dict_get ''acquired_at'' d) ''acquired_at'') (\<lambda>acquired.
         bind_result (lease_aware_utc L (dict_get ''expires_at'' d) ''expires_at'') (\<lambda>expires.
         bind_result (lease_aware_utc L (dict_get ''updated_at'' d) ''updated_at'') (\<lambda>updated.
         bind_result (lease_int (dict_get ''attempt_count'' d) ''attempt_count'') (\<lambda>attempt.
         lease_init jkey lid owner plan action state acquired expires updated attempt
           (if falsy (dict_get ''evidence'' d) then PDict [] else dict_get ''evidence'' d))))))))))))
        (\<lambda>e. is_value_error e \<or> is_type_error e \<or> is_key_error e)
        (\<lambda>e. case e of RecoveryLeaseError m \<Rightarrow> Inl e | LeaseLostError m \<Rightarrow> Inl e
             | _ \<Rightarrow> Inl (RecoveryLeaseError ''lease document is invalid'')))"

text \<open>A lease the constructor accepts.\<close>

definition lease_ok :: "lease \<Rightarrow> bool" where
  "lease_ok l \<longleftrightarrow>
     lease_init (ls_job_key l) (ls_lease_id l) (ls_owner l) (ls_plan l) (ls_action l) (ls_state l)
       (ls_acquired l) (ls_expires l) (ls_updated l) (ls_attempt l) (PDict (ls_evidence l)) = Inr l"

lemma lease_init_Inr:
  assumes "lease_init jkey lid owner plan a state acq ex up n (PDict ev) = Inr l"
  shows "l = \<lparr>ls_job_key = jkey, ls_lease_id = lid, ls_owner = owner, ls_plan = plan, ls_action = a,
      ls_state = state, ls_acquired = acq, ls_expires = ex, ls_updated = up, ls_attempt = n, ls_evidence = ev\<rparr>"
    and "lease_ok l" and "a \<in> set claimable_actions" and "state \<in> set lease_states"
    and "in_range acq" "in_range ex" "in_range up" and "1 \<le> n"
proof -
  show *: "l = \<lparr>ls_job_key = jkey, ls_lease_id = lid, ls_owner = owner, ls_plan = plan, ls_action = a,
      ls_state = state, ls_acquired = acq, ls_expires = ex, ls_updated = up, ls_attempt = n, ls_evidence = ev\<rparr>"
    using assms by (simp add: lease_init_def bind_result_Inr_iff split: if_splits)
  show "lease_ok l" using assms by (simp add: lease_ok_def *)
  show "a \<in> set claimable_actions" "state \<in> set lease_states" "1 \<le> n"
    using assms by (simp_all add: lease_init_def bind_result_Inr_iff split: if_splits)
  show "in_range acq" "in_range ex" "in_range up"
    using assms by (simp_all add: lease_init_def bind_result_Inr_iff astimezone_utc_Inr_iff
        split: if_splits sum.splits)
qed

lemma lease_ok_facts:
  assumes "lease_ok l"
  shows "ls_action l \<in> set claimable_actions" "ls_state l \<in> set lease_states" "1 \<le> ls_attempt l"
    "in_range (ls_acquired l)" "in_range (ls_expires l)" "in_range (ls_updated l)"
  using lease_init_Inr(3-8) [OF assms [unfolded lease_ok_def]] by simp_all

lemma parse_action_value [simp]: "parse_action (action_value a) = Inr a"
  by (cases a) (simp_all add: parse_action_def)

lemma lease_states_disjoint: "s \<in> set active_states \<Longrightarrow> s \<notin> set terminal_states"
  by (auto simp: active_states_def terminal_states_def)

lemma lease_state_cases: "lease_ok l \<Longrightarrow> ls_state l \<notin> set active_states \<Longrightarrow> ls_state l \<in> set terminal_states"
  using lease_ok_facts(2) [of l] by (auto simp: lease_states_def)

text \<open>What is written to the store is read back.\<close>

context iso_codec
begin

lemma lease_from_to_dict:
  assumes "lease_ok l" shows "lease_from_document L (lease_to_dict l) = Inr l"
proof -
  note get = dict_get_def lease_to_dict_def
  show ?thesis
    using assms lease_ok_facts [OF assms] unfolding lease_ok_def
    by (cases "ls_evidence l = []")
      (simp_all add: lease_from_document_def lease_text_def lease_int_def lease_aware_utc_def get)
qed

end

section \<open>The store's interface\<close>

text \<open>
  \<open>LeaseBackend\<close>: a store and its four operations on a state of type \<open>'s\<close>.  Each is one
  transaction; the writing ones say whether they wrote.
\<close>

record 's lease_backend =
  be_read :: "'s \<Rightarrow> string \<Rightarrow> pyobj pydict option result"
  be_create :: "'s \<Rightarrow> string \<Rightarrow> pyobj pydict \<Rightarrow> (bool \<times> 's) result"
  be_replace_if_expired :: "'s \<Rightarrow> string \<Rightarrow> string \<Rightarrow> int \<Rightarrow> pyobj pydict \<Rightarrow> (bool \<times> 's) result"
  be_replace_if_owner :: "'s \<Rightarrow> string \<Rightarrow> string \<Rightarrow> string \<Rightarrow> int \<Rightarrow> pyobj pydict \<Rightarrow> (bool \<times> 's) result"

record lease_result =
  lr_decision :: lease_decision
  lr_lease :: lease

section \<open>The registry\<close>

definition registry_init :: "pyobj \<Rightarrow> int result" where
  "registry_init lease_ttl =
     (case lease_ttl of
        PDelta d \<Rightarrow> if d \<le> 0 then Inl (RecoveryLeaseError ''lease_ttl must be positive'') else Inr d
      | _ \<Rightarrow> Inl (RecoveryLeaseError ''lease_ttl must be positive''))"

definition registry_read :: "pylib \<Rightarrow> 's lease_backend \<Rightarrow> 's \<Rightarrow> string \<Rightarrow> lease option result" where
  "registry_read L B s jkey =
     bind_result (be_read B s jkey) (\<lambda>d.
     case d of None \<Rightarrow> Inr None
     | Some doc \<Rightarrow> bind_result (lease_from_document L doc) (\<lambda>l. Inr (Some l)))"

definition unit_sep :: string where "unit_sep = [CHR 0x1F]"

definition lease_material :: "recovery_job \<Rightarrow> string \<Rightarrow> string \<Rightarrow> int \<Rightarrow> int \<Rightarrow> string" where
  "lease_material job plan owner now attempt =
     str_join unit_sep [job_key job, plan, owner, isoformat now, show_int attempt]"

definition new_lease ::
  "pylib \<Rightarrow> int \<Rightarrow> recovery_job \<Rightarrow> string \<Rightarrow> string \<Rightarrow> int \<Rightarrow> int \<Rightarrow> lease result" where
  "new_lease L ttl job plan owner now attempt =
     bind_result (add_delta now ttl) (\<lambda>expires.
     lease_init (job_key job) (''lease/'' @ sha256_hex L (lease_material job plan owner now attempt))
       owner plan (job_action job) ''leased'' now expires now attempt
       (PDict [(''action'', PStr (action_value (job_action job))), (''reason_code'', PStr (job_reason_code job))]))"

text \<open>
  The interference of other processes: what happens to the store before the \<open>n\<close>-th call.
  With \<open>\<lambda>n s. s\<close> nothing does.
\<close>

type_synonym 's interference = "nat \<Rightarrow> 's \<Rightarrow> 's"

definition losing_decision :: "lease \<Rightarrow> string \<Rightarrow> int \<Rightarrow> lease_decision" where
  "losing_decision latest owner now =
     (if ls_owner latest = owner \<and> is_active_at latest now then ALREADY_OWNED
      else if is_active_at latest now then HELD
      else if ls_state latest \<in> set terminal_states then TERMINAL else CONFLICT)"

text \<open>The part of \<open>claim\<close> after a current lease has been read.\<close>

definition claim_current ::
  "pylib \<Rightarrow> 's lease_backend \<Rightarrow> int \<Rightarrow> 's interference \<Rightarrow> 's \<Rightarrow> recovery_job \<Rightarrow> string \<Rightarrow> string \<Rightarrow> int
     \<Rightarrow> lease \<Rightarrow> (lease_result \<times> 's) result" where
  "claim_current L B ttl env s job plan owner now current =
     (if ls_job_key current \<noteq> job_key job \<or> ls_action current \<noteq> job_action job
      then Inl (RecoveryLeaseError ''lease job identity mismatch'')
      else if ls_state current \<in> set terminal_states
      then Inr (\<lparr>lr_decision = TERMINAL, lr_lease = current\<rparr>, s)
      else if is_active_at current now
      then Inr (\<lparr>lr_decision = (if ls_owner current = owner then ALREADY_OWNED else HELD),
                 lr_lease = current\<rparr>, s)
      else bind_result (new_lease L ttl job plan owner now (ls_attempt current + 1)) (\<lambda>takeover.
      bind_result (be_replace_if_expired B (env 3 s) (job_key job) (ls_lease_id current) now
          (lease_to_dict takeover)) (\<lambda>(won, s2).
      if won then Inr (\<lparr>lr_decision = TAKEOVER, lr_lease = takeover\<rparr>, s2)
      else bind_result (registry_read L B (env 4 s2) (job_key job)) (\<lambda>latest.
      case latest of
        None \<Rightarrow> Inl (RecoveryLeaseError ''lease takeover race produced no readable record'')
      | Some l \<Rightarrow> Inr (\<lparr>lr_decision = losing_decision l owner now, lr_lease = l\<rparr>, env 4 s2)))))"

definition lease_claim ::
  "pylib \<Rightarrow> 's lease_backend \<Rightarrow> int \<Rightarrow> 's interference \<Rightarrow> 's \<Rightarrow> recovery_job \<Rightarrow> string \<Rightarrow> string \<Rightarrow> pyobj
     \<Rightarrow> (lease_result \<times> 's) result" where
  "lease_claim L B ttl env s job plan owner now_arg =
     (if job_action job \<notin> set claimable_actions
      then Inl (RecoveryLeaseError ''only raw_replay and recollect jobs are claimable'')
      else bind_result (lease_safe_text (PStr plan) ''plan_id'') (\<lambda>_.
      bind_result (lease_safe_text (PStr owner) ''owner_id'') (\<lambda>_.
      bind_result (lease_aware_utc L now_arg ''now'') (\<lambda>now.
      bind_result (registry_read L B (env 0 s) (job_key job)) (\<lambda>current.
      case current of
        Some c \<Rightarrow> claim_current L B ttl env (env 0 s) job plan owner now c
      | None \<Rightarrow>
          bind_result (new_lease L ttl job plan owner now 1) (\<lambda>proposed.
          bind_result (be_create B (env 1 (env 0 s)) (job_key job) (lease_to_dict proposed)) (\<lambda>(won, s1).
          if won then Inr (\<lparr>lr_decision = ACQUIRED, lr_lease = proposed\<rparr>, s1)
          else bind_result (registry_read L B (env 2 s1) (job_key job)) (\<lambda>current.
          case current of
            None \<Rightarrow> Inl (RecoveryLeaseError ''lease create race produced no readable record'')
          | Some c \<Rightarrow> claim_current L B ttl env (env 2 s1) job plan owner now c))))))))"

definition lease_write ::
  "pylib \<Rightarrow> 's lease_backend \<Rightarrow> 's \<Rightarrow> lease \<Rightarrow> string \<Rightarrow> int \<Rightarrow> lease \<Rightarrow> string \<Rightarrow> (lease \<times> 's) result" where
  "lease_write L B s l owner now updated message =
     bind_result (be_replace_if_owner B s (ls_job_key l) (ls_lease_id l) owner now (lease_to_dict updated))
       (\<lambda>(won, s2). if won then Inr (updated, s2) else Inl (LeaseLostError message))"

definition lease_renew ::
  "pylib \<Rightarrow> 's lease_backend \<Rightarrow> int \<Rightarrow> 's \<Rightarrow> lease \<Rightarrow> string \<Rightarrow> pyobj \<Rightarrow> (lease \<times> 's) result" where
  "lease_renew L B ttl s l owner now_arg =
     bind_result (lease_aware_utc L now_arg ''now'') (\<lambda>now.
     if ls_state l \<notin> set active_states then Inl (RecoveryLeaseError ''only active leases can be renewed'')
     else if ls_owner l \<noteq> owner \<or> \<not> is_active_at l now
     then Inl (LeaseLostError ''lease is no longer owned by this worker'')
     else bind_result (add_delta now ttl) (\<lambda>expires.
     bind_result (lease_init (ls_job_key l) (ls_lease_id l) (ls_owner l) (ls_plan l) (ls_action l)
         (ls_state l) (ls_acquired l) expires now (ls_attempt l) (PDict (ls_evidence l))) (\<lambda>updated.
     lease_write L B s l owner now updated ''lease renewal compare-and-swap failed'')))"

definition lease_transition ::
  "pylib \<Rightarrow> 's lease_backend \<Rightarrow> 's \<Rightarrow> lease \<Rightarrow> string \<Rightarrow> pyobj \<Rightarrow> string \<Rightarrow> pyobj pydict option
     \<Rightarrow> (lease \<times> 's) result" where
  "lease_transition L B s l owner now_arg state evidence =
     bind_result (lease_aware_utc L now_arg ''now'') (\<lambda>now.
     if ls_state l = ''leased'' \<and> state \<noteq> ''running'' \<and> state \<notin> set terminal_states
     then Inl (RecoveryLeaseError ''leased transition is invalid'')
     else if ls_state l = ''running'' \<and> state \<notin> set terminal_states
     then Inl (RecoveryLeaseError ''running transition is invalid'')
     else if ls_state l \<notin> set active_states
     then Inl (RecoveryLeaseError ''terminal lease cannot transition'')
     else if ls_owner l \<noteq> owner \<or> \<not> is_active_at l now
     then Inl (LeaseLostError ''lease is no longer owned by this worker'')
     else bind_result (lease_init (ls_job_key l) (ls_lease_id l) (ls_owner l) (ls_plan l) (ls_action l)
         state (ls_acquired l) (ls_expires l) now (ls_attempt l)
         (PDict (case evidence of Some d \<Rightarrow> if d = [] then ls_evidence l else d | None \<Rightarrow> ls_evidence l)))
       (\<lambda>updated. lease_write L B s l owner now updated ''lease transition compare-and-swap failed''))"

definition mark_running ::
  "pylib \<Rightarrow> 's lease_backend \<Rightarrow> 's \<Rightarrow> lease \<Rightarrow> string \<Rightarrow> pyobj \<Rightarrow> (lease \<times> 's) result" where
  "mark_running L B s l owner now = lease_transition L B s l owner now ''running'' None"

definition mark_terminal ::
  "pylib \<Rightarrow> 's lease_backend \<Rightarrow> 's \<Rightarrow> lease \<Rightarrow> string \<Rightarrow> string \<Rightarrow> pyobj \<Rightarrow> pyobj pydict option
     \<Rightarrow> (lease \<times> 's) result" where
  "mark_terminal L B s l owner state now evidence =
     (if state \<notin> set terminal_states
      then Inl (RecoveryLeaseError ''terminal transition requires a terminal state'')
      else lease_transition L B s l owner now state evidence)"

section \<open>The in-memory store\<close>

type_synonym memory = "(string \<times> pyobj pydict) list"

text \<open>\<open>json.loads(json.dumps(document))\<close>: a copy, of a document of JSON values.\<close>

fun json_value :: "pyobj \<Rightarrow> bool" where
  "json_value (PList xs) = list_all json_value xs"
| "json_value (PDict d) = list_all (\<lambda>kv. json_value (snd kv)) d"
| "json_value (PTime _) = False"
| "json_value (PDelta _) = False"
| "json_value (POther _) = False"
| "json_value _ = True"

definition json_copy :: "pyobj pydict \<Rightarrow> pyobj pydict result" where
  "json_copy d = (if json_value (PDict d) then Inr d else Inl (TypeError ''object is not JSON serializable''))"

definition mem_read :: "memory \<Rightarrow> string \<Rightarrow> pyobj pydict option result" where
  "mem_read s jkey =
     (case map_of s jkey of None \<Rightarrow> Inr None
      | Some d \<Rightarrow> bind_result (json_copy d) (\<lambda>d. Inr (Some d)))"

definition mem_create_if_absent :: "memory \<Rightarrow> string \<Rightarrow> pyobj pydict \<Rightarrow> (bool \<times> memory) result" where
  "mem_create_if_absent s jkey doc =
     (if map_of s jkey \<noteq> None then Inr (False, s)
      else bind_result (json_copy doc) (\<lambda>d. Inr (True, dict_set jkey d s)))"

definition mem_replace_if_expired ::
  "pylib \<Rightarrow> memory \<Rightarrow> string \<Rightarrow> string \<Rightarrow> int \<Rightarrow> pyobj pydict \<Rightarrow> (bool \<times> memory) result" where
  "mem_replace_if_expired L s jkey expected now doc =
     (case map_of s jkey of
        None \<Rightarrow> Inr (False, s)
      | Some current \<Rightarrow>
          if dict_get ''lease_id'' current \<noteq> PStr expected then Inr (False, s)
          else bind_result (lease_from_document L current) (\<lambda>parsed.
          if is_active_at parsed now then Inr (False, s)
          else bind_result (json_copy doc) (\<lambda>d. Inr (True, dict_set jkey d s))))"

definition mem_replace_if_owner ::
  "pylib \<Rightarrow> memory \<Rightarrow> string \<Rightarrow> string \<Rightarrow> string \<Rightarrow> int \<Rightarrow> pyobj pydict \<Rightarrow> (bool \<times> memory) result" where
  "mem_replace_if_owner L s jkey expected owner now doc =
     (case map_of s jkey of
        None \<Rightarrow> Inr (False, s)
      | Some current \<Rightarrow>
          if dict_get ''lease_id'' current \<noteq> PStr expected \<or> dict_get ''owner_id'' current \<noteq> PStr owner
          then Inr (False, s)
          else bind_result (lease_from_document L current) (\<lambda>parsed.
          if \<not> is_active_at parsed now then Inr (False, s)
          else bind_result (json_copy doc) (\<lambda>d. Inr (True, dict_set jkey d s))))"

definition memory_store :: "pylib \<Rightarrow> memory lease_backend" where
  "memory_store L = \<lparr>be_read = mem_read, be_create = mem_create_if_absent,
     be_replace_if_expired = mem_replace_if_expired L, be_replace_if_owner = mem_replace_if_owner L\<rparr>"

section \<open>The contract of a lease store\<close>

text \<open>What a lease says apart from its evidence.\<close>

definition core :: "lease \<Rightarrow> lease" where "core l = l\<lparr>ls_evidence := []\<rparr>"

lemma core_simps [simp]:
  "ls_job_key (core l) = ls_job_key l" "ls_lease_id (core l) = ls_lease_id l"
  "ls_owner (core l) = ls_owner l" "ls_plan (core l) = ls_plan l" "ls_action (core l) = ls_action l"
  "ls_state (core l) = ls_state l" "ls_acquired (core l) = ls_acquired l"
  "ls_expires (core l) = ls_expires l" "ls_updated (core l) = ls_updated l"
  "ls_attempt (core l) = ls_attempt l" "core (core l) = core l"
  by (simp_all add: core_def)

lemma is_active_at_core [simp]: "is_active_at (core l) now = is_active_at l now"
  by (simp add: is_active_at_def)

text \<open>
  \<open>view s\<close> is the store as a map from jobs to leases.  The laws are about the operations that
  return: a database may always raise instead.  \<open>replace_if_expired\<close> may write over a lease with
  the expected identity only when it is not active, and has to when it is an expired active one.
\<close>

locale lease_store = iso_codec L for L :: pylib +
  fixes B :: "'s lease_backend"
    and inv :: "'s \<Rightarrow> bool"
    and view :: "'s \<Rightarrow> string \<Rightarrow> lease option"
  assumes read_ok: "inv s \<Longrightarrow> be_read B s k = Inr d \<Longrightarrow>
      (case d of None \<Rightarrow> view s k = None
       | Some doc \<Rightarrow> \<exists>l. lease_from_document L doc = Inr l \<and> lease_ok l \<and> view s k = Some (core l)
           \<and> ls_job_key l = k)"
    and create_ok: "inv s \<Longrightarrow> lease_ok l \<Longrightarrow>
      be_create B s (ls_job_key l) (lease_to_dict l) = Inr (b, s') \<Longrightarrow>
      inv s' \<and> (b \<longleftrightarrow> view s (ls_job_key l) = None)
      \<and> view s' = (if b then (view s)(ls_job_key l \<mapsto> core l) else view s)"
    and expired_ok: "inv s \<Longrightarrow> lease_ok l \<Longrightarrow> in_range now \<Longrightarrow>
      be_replace_if_expired B s (ls_job_key l) e now (lease_to_dict l) = Inr (b, s') \<Longrightarrow>
      inv s' \<and> (b \<longrightarrow> (\<exists>c. view s (ls_job_key l) = Some c \<and> ls_lease_id c = e \<and> \<not> is_active_at c now))
      \<and> ((\<exists>c. view s (ls_job_key l) = Some c \<and> ls_lease_id c = e \<and> ls_state c \<in> set active_states
           \<and> ls_expires c \<le> now) \<longrightarrow> b)
      \<and> view s' = (if b then (view s)(ls_job_key l \<mapsto> core l) else view s)"
    and owner_ok: "inv s \<Longrightarrow> lease_ok l \<Longrightarrow> in_range now \<Longrightarrow>
      be_replace_if_owner B s (ls_job_key l) e u now (lease_to_dict l) = Inr (b, s') \<Longrightarrow>
      inv s' \<and> (b \<longleftrightarrow> (\<exists>c. view s (ls_job_key l) = Some c \<and> ls_lease_id c = e \<and> ls_owner c = u \<and> is_active_at c now))
      \<and> view s' = (if b then (view s)(ls_job_key l \<mapsto> core l) else view s)"

text \<open>A store that never writes over a terminal lease.\<close>

locale strict_lease_store = lease_store +
  assumes expired_active: "inv s \<Longrightarrow> lease_ok l \<Longrightarrow> in_range now \<Longrightarrow>
      be_replace_if_expired B s (ls_job_key l) e now (lease_to_dict l) = Inr (True, s') \<Longrightarrow>
      view s (ls_job_key l) = Some c \<Longrightarrow> ls_state c \<in> set active_states"

text \<open>The in-memory store keeps the documents of accepted leases under their job keys.\<close>

definition mem_inv :: "pylib \<Rightarrow> memory \<Rightarrow> bool" where
  "mem_inv L s \<longleftrightarrow> (\<forall>k d. map_of s k = Some d \<longrightarrow>
     (\<exists>l. d = lease_to_dict l \<and> lease_ok l \<and> ls_job_key l = k))"

definition mem_view :: "pylib \<Rightarrow> memory \<Rightarrow> string \<Rightarrow> lease option" where
  "mem_view L s k = (case map_of s k of None \<Rightarrow> None
     | Some d \<Rightarrow> (case lease_from_document L d of Inl _ \<Rightarrow> None | Inr l \<Rightarrow> Some (core l)))"

lemma safe_evidence_scalar:
  assumes "lease_ok l" shows "list_all (\<lambda>kv. json_value (snd kv)) (ls_evidence l)"
proof -
  from assms obtain us where "traverse safe_evidence_item (ls_evidence l) = Inr us"
    by (auto simp: lease_ok_def lease_init_def bind_result_Inr_iff safe_evidence_def split: if_splits)
  then have "list_all2 (\<lambda>kv u. is_scalar (snd kv)) (ls_evidence l) us"
    unfolding traverse_Inr_iff by (rule list.rel_mono_strong) (auto simp: safe_evidence_item_def split: if_splits)
  then have "list_all (\<lambda>kv. is_scalar (snd kv)) (ls_evidence l)" by (induction rule: list_all2_induct) simp_all
  moreover have "is_scalar v \<Longrightarrow> json_value v" for v by (cases v) auto
  ultimately show ?thesis by (auto simp: list_all_iff)
qed

lemma json_copy_lease [simp]: "lease_ok l \<Longrightarrow> json_copy (lease_to_dict l) = Inr (lease_to_dict l)"
  using safe_evidence_scalar by (simp add: json_copy_def lease_to_dict_def)

lemma lease_dict_get [simp]:
  "dict_get ''lease_id'' (lease_to_dict l) = PStr (ls_lease_id l)"
  "dict_get ''owner_id'' (lease_to_dict l) = PStr (ls_owner l)"
  by (simp_all add: lease_to_dict_def dict_get_def)

context iso_codec
begin

lemma mem_view_Some:
  "mem_inv L s \<Longrightarrow> map_of s k = Some d \<Longrightarrow>
     \<exists>l. d = lease_to_dict l \<and> lease_ok l \<and> ls_job_key l = k \<and> mem_view L s k = Some (core l)
       \<and> lease_from_document L d = Inr l"
  by (force simp: mem_inv_def mem_view_def lease_from_to_dict)

lemma mem_write:
  assumes "mem_inv L s" "lease_ok l"
  shows "mem_inv L (dict_set (ls_job_key l) (lease_to_dict l) s)
    \<and> mem_view L (dict_set (ls_job_key l) (lease_to_dict l) s) = (mem_view L s)(ls_job_key l \<mapsto> core l)"
  using assms by (auto simp: mem_inv_def mem_view_def lease_from_to_dict fun_eq_iff)

end

interpretation memory: lease_store "std_lib h" "memory_store (std_lib h)" "mem_inv (std_lib h)" "mem_view (std_lib h)" for h
proof unfold_locales
  let ?L = "std_lib h"
  fix s k d' assume inv: "mem_inv ?L s" and run: "be_read (memory_store ?L) s k = Inr d'"
  show "(case d' of None \<Rightarrow> mem_view ?L s k = None
         | Some doc \<Rightarrow> \<exists>l. lease_from_document ?L doc = Inr l \<and> lease_ok l \<and> mem_view ?L s k = Some (core l)
             \<and> ls_job_key l = k)"
  proof (cases "map_of s k")
    case None
    with run show ?thesis by (auto simp: memory_store_def mem_read_def mem_view_def)
  next
    case (Some d)
    with std.mem_view_Some [OF inv Some] run show ?thesis
      by (auto simp: memory_store_def mem_read_def)
  qed
next
  let ?L = "std_lib h"
  fix s l b s' assume inv: "mem_inv ?L s" and l: "lease_ok l"
    and run: "be_create (memory_store ?L) s (ls_job_key l) (lease_to_dict l) = Inr (b, s')"
  show "mem_inv ?L s'
      \<and> (b \<longleftrightarrow> mem_view ?L s (ls_job_key l) = None)
      \<and> mem_view ?L s' = (if b then (mem_view ?L s)(ls_job_key l \<mapsto> core l) else mem_view ?L s)"
  proof (cases "map_of s (ls_job_key l)")
    case None
    then have "mem_view ?L s (ls_job_key l) = None" by (simp add: mem_view_def)
    with None l std.mem_write [OF inv l] run show ?thesis
      by (auto simp add: memory_store_def mem_create_if_absent_def)
  next
    case (Some d)
    with std.mem_view_Some [OF inv Some] inv run show ?thesis
      by (auto simp: memory_store_def mem_create_if_absent_def)
  qed
next
  let ?L = "std_lib h"
  fix s l now e b s' assume inv: "mem_inv ?L s" and l: "lease_ok l"
    and run: "be_replace_if_expired (memory_store ?L) s (ls_job_key l) e now (lease_to_dict l) = Inr (b, s')"
  show "mem_inv ?L s'
      \<and> (b \<longrightarrow> (\<exists>c. mem_view ?L s (ls_job_key l) = Some c \<and> ls_lease_id c = e \<and> \<not> is_active_at c now))
      \<and> ((\<exists>c. mem_view ?L s (ls_job_key l) = Some c \<and> ls_lease_id c = e \<and> ls_state c \<in> set active_states
           \<and> ls_expires c \<le> now) \<longrightarrow> b)
      \<and> mem_view ?L s' = (if b then (mem_view ?L s)(ls_job_key l \<mapsto> core l) else mem_view ?L s)"
  proof (cases "map_of s (ls_job_key l)")
    case None
    with inv run show ?thesis by (auto simp: memory_store_def mem_replace_if_expired_def mem_view_def)
  next
    case (Some d)
    then obtain c where c: "d = lease_to_dict c" "lease_from_document ?L d = Inr c"
      "mem_view ?L s (ls_job_key l) = Some (core c)" using std.mem_view_Some [OF inv Some] by blast
    consider "ls_lease_id c \<noteq> e" | "ls_lease_id c = e" "is_active_at c now"
      | "ls_lease_id c = e" "\<not> is_active_at c now" by blast
    then show ?thesis
      by cases (use Some c inv l run std.mem_write [OF inv l] in
          \<open>auto simp: memory_store_def mem_replace_if_expired_def is_active_at_def\<close>)
  qed
next
  let ?L = "std_lib h"
  fix s l now e u b s' assume inv: "mem_inv ?L s" and l: "lease_ok l"
    and run: "be_replace_if_owner (memory_store ?L) s (ls_job_key l) e u now (lease_to_dict l) = Inr (b, s')"
  show "mem_inv ?L s'
      \<and> (b \<longleftrightarrow> (\<exists>c. mem_view ?L s (ls_job_key l) = Some c \<and> ls_lease_id c = e \<and> ls_owner c = u \<and> is_active_at c now))
      \<and> mem_view ?L s' = (if b then (mem_view ?L s)(ls_job_key l \<mapsto> core l) else mem_view ?L s)"
  proof (cases "map_of s (ls_job_key l)")
    case None
    with inv run show ?thesis by (auto simp: memory_store_def mem_replace_if_owner_def mem_view_def)
  next
    case (Some d)
    then obtain c where c: "d = lease_to_dict c" "lease_from_document ?L d = Inr c"
      "mem_view ?L s (ls_job_key l) = Some (core c)" using std.mem_view_Some [OF inv Some] by blast
    consider "ls_lease_id c \<noteq> e \<or> ls_owner c \<noteq> u" | "ls_lease_id c = e" "ls_owner c = u" "\<not> is_active_at c now"
      | "ls_lease_id c = e" "ls_owner c = u" "is_active_at c now" by blast
    then show ?thesis
      by cases (use Some c inv l run std.mem_write [OF inv l] in
          \<open>auto simp add: memory_store_def mem_replace_if_owner_def\<close>)
  qed
qed

section \<open>Events\<close>

text \<open>
  One successful write of a registry operation: the compare-and-swap at the end of a claim, with
  whatever was read before it, a renewal, or a transition.  \<open>l\<close> is the lease the worker is given.
\<close>

inductive lease_event :: "pylib \<Rightarrow> 's lease_backend \<Rightarrow> int \<Rightarrow> 's \<Rightarrow> lease \<Rightarrow> int \<Rightarrow> 's \<Rightarrow> bool"
  for L B ttl where
  created: "new_lease L ttl job plan owner now 1 = Inr l \<Longrightarrow>
      be_create B s (job_key job) (lease_to_dict l) = Inr (True, s') \<Longrightarrow> lease_event L B ttl s l now s'"
| taken: "new_lease L ttl job plan owner now n = Inr l \<Longrightarrow>
      be_replace_if_expired B s (job_key job) e now (lease_to_dict l) = Inr (True, s') \<Longrightarrow>
      lease_event L B ttl s l now s'"
| renewed: "lease_ok held \<Longrightarrow> lease_renew L B ttl s held owner (PTime (Aware now)) = Inr (l, s') \<Longrightarrow>
      lease_event L B ttl s l now s'"
| moved: "lease_ok held \<Longrightarrow> lease_transition L B s held owner (PTime (Aware now)) st ev = Inr (l, s') \<Longrightarrow>
      lease_event L B ttl s l now s'"

inductive_cases lease_eventE: "lease_event L B ttl s l now s'"

text \<open>
  A history: the store, the leases handed out so far (the latest first) and the time.  The clocks of
  the workers agree, and a worker renews or moves the lease it was handed last.
\<close>

inductive lease_history :: "pylib \<Rightarrow> 's lease_backend \<Rightarrow> int \<Rightarrow> 's \<Rightarrow> 's \<Rightarrow> lease list \<Rightarrow> int \<Rightarrow> bool"
  for L B ttl s0 where
  start: "lease_history L B ttl s0 s0 [] t"
| claim_won: "lease_history L B ttl s0 s ls t \<Longrightarrow> t \<le> now \<Longrightarrow>
      new_lease L ttl job plan owner now n = Inr l \<Longrightarrow>
      (n = 1 \<and> be_create B s (job_key job) (lease_to_dict l) = Inr (True, s'))
        \<or> be_replace_if_expired B s (job_key job) e now (lease_to_dict l) = Inr (True, s') \<Longrightarrow>
      lease_history L B ttl s0 s' (l # ls) now"
| renewal: "lease_history L B ttl s0 s ls t \<Longrightarrow> t \<le> now \<Longrightarrow>
      find (\<lambda>x. ls_job_key x = ls_job_key held) ls = Some held \<Longrightarrow>
      lease_renew L B ttl s held owner (PTime (Aware now)) = Inr (l, s') \<Longrightarrow>
      lease_history L B ttl s0 s' (l # ls) now"
| transition: "lease_history L B ttl s0 s ls t \<Longrightarrow> t \<le> now \<Longrightarrow>
      find (\<lambda>x. ls_job_key x = ls_job_key held) ls = Some held \<Longrightarrow>
      lease_transition L B s held owner (PTime (Aware now)) st ev = Inr (l, s') \<Longrightarrow>
      lease_history L B ttl s0 s' (l # ls) now"

lemma new_lease_Inr:
  assumes "new_lease L ttl job plan owner now n = Inr l"
  shows "lease_ok l" "ls_job_key l = job_key job" "ls_owner l = owner" "ls_state l = ''leased''"
    "ls_expires l = now + ttl" "ls_attempt l = n" "ls_acquired l = now" "in_range now" "ls_action l = job_action job"
proof -
  from assms obtain lid where l: "lease_init (job_key job) lid owner plan (job_action job) ''leased''
      now (now + ttl) now n (PDict [(''action'', PStr (action_value (job_action job))),
        (''reason_code'', PStr (job_reason_code job))]) = Inr l"
    by (auto simp: new_lease_def bind_result_Inr_iff add_delta_Inr_iff)
  from lease_init_Inr [OF l] show "lease_ok l" "ls_job_key l = job_key job" "ls_owner l = owner"
    "ls_state l = ''leased''" "ls_expires l = now + ttl" "ls_attempt l = n" "ls_acquired l = now"
    "in_range now" "ls_action l = job_action job" by simp_all
qed

text \<open>A renewal or a transition is one conditional write of a changed copy of the held lease.\<close>

definition owner_write :: "'s lease_backend \<Rightarrow> 's \<Rightarrow> lease \<Rightarrow> string \<Rightarrow> int \<Rightarrow> lease \<Rightarrow> 's \<Rightarrow> bool" where
  "owner_write B s held owner now l s' \<longleftrightarrow>
     lease_ok l \<and> in_range now \<and> ls_owner held = owner \<and> is_active_at held now
     \<and> ls_job_key l = ls_job_key held \<and> ls_lease_id l = ls_lease_id held \<and> ls_owner l = owner
     \<and> ls_attempt l = ls_attempt held
     \<and> be_replace_if_owner B s (ls_job_key held) (ls_lease_id held) owner now (lease_to_dict l) = Inr (True, s')"

lemma lease_write_Inr:
  "lease_write L B s l owner now u m = Inr (l', s') \<longleftrightarrow>
     l' = u \<and> be_replace_if_owner B s (ls_job_key l) (ls_lease_id l) owner now (lease_to_dict u) = Inr (True, s')"
  by (auto simp: lease_write_def bind_result_Inr_iff split: if_splits)

lemma lease_aware_utc_Aware [simp]: "lease_aware_utc L (PTime (Aware t)) f = Inr t' \<longleftrightarrow> t' = t \<and> in_range t"
  by (auto simp: lease_aware_utc_def coerce_utc_def bind_result_Inr_iff astimezone_utc_Inr_iff)

lemma lease_aware_utc_in_range [simp]: "in_range t \<Longrightarrow> lease_aware_utc L (PTime (Aware t)) f = Inr t"
  by (simp add: lease_aware_utc_def)

lemma lease_renew_Inr:
  assumes "lease_renew L B ttl s held owner (PTime (Aware now)) = Inr (l, s')"
  shows "owner_write B s held owner now l s'" "ls_expires l = now + ttl" "ls_state l = ls_state held"
proof -
  from assms have now: "in_range now" and act: "ls_owner held = owner" "is_active_at held now"
    and l: "lease_init (ls_job_key held) (ls_lease_id held) (ls_owner held) (ls_plan held) (ls_action held)
         (ls_state held) (ls_acquired held) (now + ttl) now (ls_attempt held) (PDict (ls_evidence held)) = Inr l"
    and w: "be_replace_if_owner B s (ls_job_key held) (ls_lease_id held) owner now (lease_to_dict l) = Inr (True, s')"
    by (auto simp: lease_renew_def bind_result_Inr_iff lease_write_Inr add_delta_Inr_iff split: if_splits)
  note i = lease_init_Inr [OF l]
  show "owner_write B s held owner now l s'" using now act w i(2) by (simp add: owner_write_def i(1))
  show "ls_expires l = now + ttl" "ls_state l = ls_state held" by (simp_all add: i(1))
qed

lemma lease_transition_Inr:
  assumes "lease_transition L B s held owner (PTime (Aware now)) st ev = Inr (l, s')"
  shows "owner_write B s held owner now l s'" "ls_expires l = ls_expires held" "ls_state l = st"
    "st \<in> set terminal_states \<or> (st = ''running'' \<and> ls_state held = ''leased'')"
proof -
  let ?ev = "case ev of Some d \<Rightarrow> if d = [] then ls_evidence held else d | None \<Rightarrow> ls_evidence held"
  from assms have now: "in_range now" and act: "ls_owner held = owner" "is_active_at held now"
    and l: "lease_init (ls_job_key held) (ls_lease_id held) (ls_owner held) (ls_plan held) (ls_action held)
         st (ls_acquired held) (ls_expires held) now (ls_attempt held) (PDict ?ev) = Inr l"
    and w: "be_replace_if_owner B s (ls_job_key held) (ls_lease_id held) owner now (lease_to_dict l) = Inr (True, s')"
    and st: "\<not> (ls_state held = ''leased'' \<and> st \<noteq> ''running'' \<and> st \<notin> set terminal_states)"
      "\<not> (ls_state held = ''running'' \<and> st \<notin> set terminal_states)"
    by (auto simp: lease_transition_def bind_result_Inr_iff lease_write_Inr split: if_splits)
  note i = lease_init_Inr [OF l]
  show "owner_write B s held owner now l s'" using now act w i(2) by (simp add: owner_write_def i(1))
  show "ls_expires l = ls_expires held" "ls_state l = st" by (simp_all add: i(1))
  show "st \<in> set terminal_states \<or> (st = ''running'' \<and> ls_state held = ''leased'')"
    using st act(2) by (auto simp: is_active_at_def active_states_def)
qed

section \<open>What the contract gives the registry\<close>

context lease_store
begin

lemma registry_read_view:
  assumes "inv s" "registry_read L B s k = Inr r"
  shows "view s k = map_option core r \<and> (\<forall>l. r = Some l \<longrightarrow> lease_ok l \<and> ls_job_key l = k)"
proof -
  from assms(2) obtain d where d: "be_read B s k = Inr d"
    "(case d of None \<Rightarrow> Inr None
      | Some doc \<Rightarrow> bind_result (lease_from_document L doc) (\<lambda>l. Inr (Some l))) = Inr r"
    unfolding registry_read_def bind_result_Inr_iff [of "be_read B s k"] by blast
  with read_ok [OF assms(1) d(1)] show ?thesis by (cases d) auto
qed

lemma created_view:
  assumes "inv s" "new_lease L ttl job plan owner now n = Inr l"
    and "be_create B s (job_key job) (lease_to_dict l) = Inr (True, s')"
  shows "inv s' \<and> view s (ls_job_key l) = None \<and> view s' = (view s)(ls_job_key l \<mapsto> core l)"
  using create_ok [OF assms(1) new_lease_Inr(1) [OF assms(2)], unfolded new_lease_Inr(2) [OF assms(2)], OF assms(3)]
    new_lease_Inr(2) [OF assms(2)] by simp

lemma taken_view:
  assumes "inv s" "new_lease L ttl job plan owner now n = Inr l"
    and "be_replace_if_expired B s (job_key job) e now (lease_to_dict l) = Inr (True, s')"
  shows "inv s' \<and> (\<exists>c. view s (ls_job_key l) = Some c \<and> ls_lease_id c = e \<and> \<not> is_active_at c now)
    \<and> view s' = (view s)(ls_job_key l \<mapsto> core l)"
  using expired_ok [OF assms(1) new_lease_Inr(1,8) [OF assms(2)], unfolded new_lease_Inr(2) [OF assms(2)], OF assms(3)]
    new_lease_Inr(2) [OF assms(2)] by simp

text \<open>Fencing: a write of an owner succeeds only on its own, still active lease.\<close>

lemma owner_write_view:
  assumes "inv s" "owner_write B s held owner now l s'"
  shows "inv s' \<and> (\<exists>c. view s (ls_job_key held) = Some c \<and> ls_lease_id c = ls_lease_id held
      \<and> ls_owner c = owner \<and> is_active_at c now)
    \<and> view s' = (view s)(ls_job_key held \<mapsto> core l)"
  using owner_ok [OF assms(1), of l now "ls_lease_id held" owner True s'] assms(2) by (auto simp: owner_write_def)

lemma event_inv:
  assumes "lease_event L B ttl s l now s'" "inv s"
  shows "inv s' \<and> view s' = (view s)(ls_job_key l \<mapsto> core l)"
  using assms(1)
proof cases
  case (created job plan owner)
  with created_view [OF assms(2)] show ?thesis by blast
next
  case (taken job plan owner n e)
  with taken_view [OF assms(2)] show ?thesis by blast
next
  case (renewed held owner)
  note w = lease_renew_Inr(1) [OF renewed(2)]
  from owner_write_view [OF assms(2) w] w show ?thesis by (auto simp: owner_write_def)
next
  case (moved held owner st ev)
  note w = lease_transition_Inr(1) [OF moved(2)]
  from owner_write_view [OF assms(2) w] w show ?thesis by (auto simp: owner_write_def)
qed

lemma history_inv: "lease_history L B ttl s0 s ls t \<Longrightarrow> inv s0 \<Longrightarrow> inv s"
proof (induction rule: lease_history.induct)
  case (claim_won s ls t now job plan owner n l s' e)
  with created_view taken_view show ?case by blast
next
  case (renewal s ls t now held owner l s')
  with owner_write_view [OF _ lease_renew_Inr(1) [OF renewal(4)]] show ?case by simp
next
  case (transition s ls t now held owner st ev l s')
  with owner_write_view [OF _ lease_transition_Inr(1) [OF transition(4)]] show ?case by simp
qed simp

end

text \<open>The steps of a claim, from its result.\<close>

lemma claim_current_expired:
  assumes run: "claim_current L B ttl env s job plan owner now c = Inr (r, s2)"
    and "ls_state c \<notin> set terminal_states" "\<not> is_active_at c now"
  shows "\<exists>l won s3. new_lease L ttl job plan owner now (ls_attempt c + 1) = Inr l
    \<and> be_replace_if_expired B (env 3 s) (job_key job) (ls_lease_id c) now (lease_to_dict l) = Inr (won, s3)
    \<and> (if won then r = \<lparr>lr_decision = TAKEOVER, lr_lease = l\<rparr> \<and> s2 = s3
        else (\<exists>m. registry_read L B (env 4 s3) (job_key job) = Inr (Some m)
          \<and> r = \<lparr>lr_decision = losing_decision m owner now, lr_lease = m\<rparr> \<and> s2 = env 4 s3))"
proof -
  let ?lose = "\<lambda>s3. bind_result (registry_read L B (env 4 s3) (job_key job)) (\<lambda>latest.
      case latest of
        None \<Rightarrow> Inl (RecoveryLeaseError ''lease takeover race produced no readable record'')
      | Some l \<Rightarrow> Inr (\<lparr>lr_decision = losing_decision l owner now, lr_lease = l\<rparr>, env 4 s3))"
  have "bind_result (new_lease L ttl job plan owner now (ls_attempt c + 1)) (\<lambda>takeover.
      bind_result (be_replace_if_expired B (env 3 s) (job_key job) (ls_lease_id c) now
          (lease_to_dict takeover)) (\<lambda>(won, s3).
      if won then Inr (\<lparr>lr_decision = TAKEOVER, lr_lease = takeover\<rparr>, s3) else ?lose s3)) = Inr (r, s2)"
    using assms unfolding claim_current_def by (simp only: if_False sum.distinct split: if_splits)
  then obtain l won s3 where l: "new_lease L ttl job plan owner now (ls_attempt c + 1) = Inr l"
    "be_replace_if_expired B (env 3 s) (job_key job) (ls_lease_id c) now (lease_to_dict l) = Inr (won, s3)"
    and last: "(if won then Inr (\<lparr>lr_decision = TAKEOVER, lr_lease = l\<rparr>, s3) else ?lose s3) = Inr (r, s2)"
    unfolding bind_result_Inr_iff [of "new_lease L ttl job plan owner now (ls_attempt c + 1)"]
      bind_result_Inr_iff [of "be_replace_if_expired B (env 3 s) (job_key job) (ls_lease_id c) now _"]
    by fastforce
  have "\<exists>m. registry_read L B (env 4 s3) (job_key job) = Inr (Some m)
      \<and> r = \<lparr>lr_decision = losing_decision m owner now, lr_lease = m\<rparr> \<and> s2 = env 4 s3" if "\<not> won"
    using that last by (auto simp: bind_result_Inr_iff split: option.splits)
  with l last show ?thesis by (intro exI [of _ l] exI [of _ won] exI [of _ s3]) auto
qed

lemma lease_claim_Inr:
  assumes "lease_claim L B ttl env s job plan owner (PTime (Aware now)) = Inr (r, s2)"
  shows "\<exists>cur. registry_read L B (env 0 s) (job_key job) = Inr cur
    \<and> (case cur of Some c \<Rightarrow> claim_current L B ttl env (env 0 s) job plan owner now c = Inr (r, s2)
      | None \<Rightarrow> \<exists>l won s1. new_lease L ttl job plan owner now 1 = Inr l
          \<and> be_create B (env 1 (env 0 s)) (job_key job) (lease_to_dict l) = Inr (won, s1)
          \<and> (if won then r = \<lparr>lr_decision = ACQUIRED, lr_lease = l\<rparr> \<and> s2 = s1
             else \<exists>c. registry_read L B (env 2 s1) (job_key job) = Inr (Some c)
               \<and> claim_current L B ttl env (env 2 s1) job plan owner now c = Inr (r, s2)))"
proof -
  let ?again = "\<lambda>s1. bind_result (registry_read L B (env 2 s1) (job_key job)) (\<lambda>current.
          case current of
            None \<Rightarrow> Inl (RecoveryLeaseError ''lease create race produced no readable record'')
          | Some c \<Rightarrow> claim_current L B ttl env (env 2 s1) job plan owner now c)"
  from assms have "bind_result (registry_read L B (env 0 s) (job_key job)) (\<lambda>current.
      case current of
        Some c \<Rightarrow> claim_current L B ttl env (env 0 s) job plan owner now c
      | None \<Rightarrow>
          bind_result (new_lease L ttl job plan owner now 1) (\<lambda>proposed.
          bind_result (be_create B (env 1 (env 0 s)) (job_key job) (lease_to_dict proposed)) (\<lambda>(won, s1).
          if won then Inr (\<lparr>lr_decision = ACQUIRED, lr_lease = proposed\<rparr>, s1) else ?again s1))) = Inr (r, s2)"
    by (auto simp only: lease_claim_def bind_result_Inr_iff [of "lease_safe_text _ _"]
        bind_result_Inr_iff [of "lease_aware_utc _ _ _"] lease_aware_utc_Aware sum.distinct split: if_splits)
  then obtain cur where cur: "registry_read L B (env 0 s) (job_key job) = Inr cur"
    and rest: "(case cur of
        Some c \<Rightarrow> claim_current L B ttl env (env 0 s) job plan owner now c
      | None \<Rightarrow>
          bind_result (new_lease L ttl job plan owner now 1) (\<lambda>proposed.
          bind_result (be_create B (env 1 (env 0 s)) (job_key job) (lease_to_dict proposed)) (\<lambda>(won, s1).
          if won then Inr (\<lparr>lr_decision = ACQUIRED, lr_lease = proposed\<rparr>, s1) else ?again s1))) = Inr (r, s2)"
    unfolding bind_result_Inr_iff [of "registry_read L B (env 0 s) (job_key job)"] by blast
  show ?thesis
  proof (cases cur)
    case (Some c)
    with cur rest show ?thesis by simp
  next
    case None
    note rest [unfolded None option.case]
    then obtain l won s1 where l: "new_lease L ttl job plan owner now 1 = Inr l"
      "be_create B (env 1 (env 0 s)) (job_key job) (lease_to_dict l) = Inr (won, s1)"
      and last: "(if won then Inr (\<lparr>lr_decision = ACQUIRED, lr_lease = l\<rparr>, s1) else ?again s1) = Inr (r, s2)"
      unfolding bind_result_Inr_iff [of "new_lease L ttl job plan owner now 1"]
        bind_result_Inr_iff [of "be_create B (env 1 (env 0 s)) (job_key job) _"] by fastforce
    have "\<exists>c. registry_read L B (env 2 s1) (job_key job) = Inr (Some c)
        \<and> claim_current L B ttl env (env 2 s1) job plan owner now c = Inr (r, s2)" if "\<not> won"
      using that last by (auto simp: bind_result_Inr_iff split: option.splits)
    with l last None cur show ?thesis
      by (intro exI [of _ cur]) (auto intro!: exI [of _ l] exI [of _ won] exI [of _ s1])
  qed
qed

lemma find_same_key: "x \<in> set ls \<Longrightarrow> \<exists>c. find (\<lambda>y. f y = f x) ls = Some c"
  by (induction ls) auto

text \<open>What a claim that returns says about the store, whatever ran in between.\<close>

definition claim_outcome ::
  "(string \<Rightarrow> lease option) \<Rightarrow> pylib \<Rightarrow> 's lease_backend \<Rightarrow> int \<Rightarrow> recovery_job \<Rightarrow> string \<Rightarrow> int \<Rightarrow> lease_result
     \<Rightarrow> 's \<Rightarrow> 's \<Rightarrow> bool" where
  "claim_outcome view L B ttl job owner now r s1 s2 \<longleftrightarrow>
     (case lr_decision r of
        ACQUIRED \<Rightarrow> lease_event L B ttl s1 (lr_lease r) now s2 \<and> ls_owner (lr_lease r) = owner
          \<and> ls_job_key (lr_lease r) = job_key job \<and> ls_attempt (lr_lease r) = 1
      | TAKEOVER \<Rightarrow> lease_event L B ttl s1 (lr_lease r) now s2 \<and> ls_owner (lr_lease r) = owner
          \<and> ls_job_key (lr_lease r) = job_key job \<and> ls_attempt (lr_lease r) \<ge> 2
      | ALREADY_OWNED \<Rightarrow> s2 = s1 \<and> view (job_key job) = Some (core (lr_lease r))
          \<and> is_active_at (lr_lease r) now \<and> ls_owner (lr_lease r) = owner
      | HELD \<Rightarrow> s2 = s1 \<and> view (job_key job) = Some (core (lr_lease r))
          \<and> is_active_at (lr_lease r) now \<and> ls_owner (lr_lease r) \<noteq> owner
      | TERMINAL \<Rightarrow> s2 = s1 \<and> view (job_key job) = Some (core (lr_lease r))
          \<and> ls_state (lr_lease r) \<in> set terminal_states
      | CONFLICT \<Rightarrow> s2 = s1 \<and> view (job_key job) = Some (core (lr_lease r))
          \<and> ls_state (lr_lease r) \<in> set active_states \<and> ls_expires (lr_lease r) \<le> now)"

context lease_store
begin

lemma registry_read_Inr:
  assumes "inv s" "registry_read L B s k = Inr (Some l)"
  shows "view s k = Some (core l)" "lease_ok l" "ls_job_key l = k"
  using registry_read_view [OF assms] by auto

lemma claim_current_outcome:
  assumes keep: "\<And>n s. inv s \<Longrightarrow> inv (env n s)" and inv: "inv s"
    and cur: "registry_read L B s (job_key job) = Inr (Some c)"
    and run: "claim_current L B ttl env s job plan owner now c = Inr (r, s2)"
  shows "\<exists>s1. inv s1 \<and> claim_outcome (view s1) L B ttl job owner now r s1 s2"
proof -
  note c = registry_read_Inr [OF inv cur]
  consider (terminal) "ls_state c \<in> set terminal_states"
    | (active) "ls_state c \<notin> set terminal_states" "is_active_at c now"
    | (expired) "ls_state c \<notin> set terminal_states" "\<not> is_active_at c now" by blast
  then show ?thesis
  proof cases
    case terminal
    with run have "r = \<lparr>lr_decision = TERMINAL, lr_lease = c\<rparr>" "s2 = s"
      by (auto simp: claim_current_def split: if_splits)
    with terminal inv c show ?thesis by (intro exI [of _ s]) (simp add: claim_outcome_def)
  next
    case active
    with run have "r = \<lparr>lr_decision = (if ls_owner c = owner then ALREADY_OWNED else HELD), lr_lease = c\<rparr>" "s2 = s"
      by (auto simp: claim_current_def split: if_splits)
    with active inv c show ?thesis by (intro exI [of _ s]) (simp add: claim_outcome_def)
  next
    case expired
    from claim_current_expired [OF run expired] obtain l won s3 where
      l: "new_lease L ttl job plan owner now (ls_attempt c + 1) = Inr l"
      and w: "be_replace_if_expired B (env 3 s) (job_key job) (ls_lease_id c) now (lease_to_dict l) = Inr (won, s3)"
      and rest: "if won then r = \<lparr>lr_decision = TAKEOVER, lr_lease = l\<rparr> \<and> s2 = s3
        else (\<exists>m. registry_read L B (env 4 s3) (job_key job) = Inr (Some m)
          \<and> r = \<lparr>lr_decision = losing_decision m owner now, lr_lease = m\<rparr> \<and> s2 = env 4 s3)"
      by (elim exE conjE) (rule that)
    note nl = new_lease_Inr [OF l]
    show ?thesis
    proof (cases won)
      case True
      then have "lease_event L B ttl (env 3 s) l now s2" using lease_event.taken [OF l] w rest by simp
      moreover have "2 \<le> ls_attempt l" using nl(6) lease_ok_facts(3) [OF c(2)] by simp
      ultimately show ?thesis using True rest nl keep [OF inv, of 3]
        by (intro exI [of _ "env 3 s"]) (simp add: claim_outcome_def)
    next
      case False
      from expired_ok [OF keep [OF inv, of 3] nl(1) nl(8), unfolded nl(2), OF w] have "inv s3" by simp
      then have s4: "inv (env 4 s3)" by (rule keep)
      from False rest obtain m where m: "registry_read L B (env 4 s3) (job_key job) = Inr (Some m)"
        "r = \<lparr>lr_decision = losing_decision m owner now, lr_lease = m\<rparr>" "s2 = env 4 s3" by auto
      note v = registry_read_Inr [OF s4 m(1)]
      have "claim_outcome (view (env 4 s3)) L B ttl job owner now r (env 4 s3) s2"
        using v lease_state_cases [OF v(2)] m(2,3)
        by (auto simp: claim_outcome_def losing_decision_def is_active_at_def)
      with s4 show ?thesis by blast
    qed
  qed
qed

lemma claim_outcome:
  assumes keep: "\<And>n s. inv s \<Longrightarrow> inv (env n s)" and inv: "inv s" and "in_range now"
    and run: "lease_claim L B ttl env s job plan owner (PTime (Aware now)) = Inr (r, s2)"
  shows "\<exists>s1. inv s1 \<and> claim_outcome (view s1) L B ttl job owner now r s1 s2"
proof -
  from lease_claim_Inr [OF run] obtain cur where cur: "registry_read L B (env 0 s) (job_key job) = Inr cur"
    and rest: "(case cur of Some c \<Rightarrow> claim_current L B ttl env (env 0 s) job plan owner now c = Inr (r, s2)
      | None \<Rightarrow> \<exists>l won s1. new_lease L ttl job plan owner now 1 = Inr l
          \<and> be_create B (env 1 (env 0 s)) (job_key job) (lease_to_dict l) = Inr (won, s1)
          \<and> (if won then r = \<lparr>lr_decision = ACQUIRED, lr_lease = l\<rparr> \<and> s2 = s1
             else \<exists>c. registry_read L B (env 2 s1) (job_key job) = Inr (Some c)
               \<and> claim_current L B ttl env (env 2 s1) job plan owner now c = Inr (r, s2)))"
    by (elim exE conjE) (rule that)
  have s0: "inv (env 0 s)" and s1: "inv (env 1 (env 0 s))" using keep inv by blast+
  show ?thesis
  proof (cases cur)
    case (Some c)
    with rest claim_current_outcome [OF keep s0, where job = job and c = c] cur show ?thesis by simp
  next
    case None
    with rest obtain l won s3 where l: "new_lease L ttl job plan owner now 1 = Inr l"
      and w: "be_create B (env 1 (env 0 s)) (job_key job) (lease_to_dict l) = Inr (won, s3)"
      and last: "if won then r = \<lparr>lr_decision = ACQUIRED, lr_lease = l\<rparr> \<and> s2 = s3
             else \<exists>c. registry_read L B (env 2 s3) (job_key job) = Inr (Some c)
               \<and> claim_current L B ttl env (env 2 s3) job plan owner now c = Inr (r, s2)" by auto
    note nl = new_lease_Inr [OF l]
    show ?thesis
    proof (cases won)
      case True
      then have "lease_event L B ttl (env 1 (env 0 s)) l now s2" using lease_event.created [OF l] w last by simp
      with True last nl s1 show ?thesis
        by (intro exI [of _ "env 1 (env 0 s)"]) (simp add: claim_outcome_def)
    next
      case False
      from create_ok [OF s1 nl(1), unfolded nl(2), OF w] have "inv s3" by simp
      then have s4: "inv (env 2 s3)" by (rule keep)
      from False last obtain c where "registry_read L B (env 2 s3) (job_key job) = Inr (Some c)"
        "claim_current L B ttl env (env 2 s3) job plan owner now c = Inr (r, s2)" by auto
      then show ?thesis
        by (rule claim_current_outcome [rotated 2]) (erule keep, rule s4)
    qed
  qed
qed

end

context strict_lease_store
begin

text \<open>A terminal lease is never written over.\<close>

lemma event_keeps_terminal:
  assumes ev: "lease_event L B ttl s l now s'" and inv: "inv s"
    and "view s k = Some c" "ls_state c \<in> set terminal_states"
  shows "view s' k = Some c"
proof (cases "ls_job_key l = k")
  case False
  with event_inv [OF ev inv] assms(3) show ?thesis by simp
next
  case True
  have not_act: "ls_state c \<notin> set active_states"
    using assms(4) lease_states_disjoint by blast
  from ev have False
  proof cases
    case (created job plan owner)
    with created_view [OF inv created] True assms(3) show ?thesis by simp
  next
    case (taken job plan owner n e)
    note nl = new_lease_Inr [OF taken(1)]
    have "ls_state c \<in> set active_states"
      using expired_active [OF inv nl(1,8)] taken(2) True nl(2) assms(3) by metis
    with not_act show ?thesis by simp
  next
    case (renewed held owner)
    note w = lease_renew_Inr(1) [OF renewed(2)]
    from owner_write_view [OF inv w] w True assms(3) not_act show ?thesis
      by (auto simp: owner_write_def is_active_at_def)
  next
    case (moved held owner st ev)
    note w = lease_transition_Inr(1) [OF moved(2)]
    from owner_write_view [OF inv w] w True assms(3) not_act show ?thesis
      by (auto simp: owner_write_def is_active_at_def)
  qed
  then show ?thesis ..
qed

lemma events_keep_terminal:
  assumes "(\<lambda>a b. \<exists>l now. lease_event L B ttl a l now b)\<^sup>*\<^sup>* s s'" "inv s"
    and "view s k = Some c" "ls_state c \<in> set terminal_states"
  shows "inv s' \<and> view s' k = Some c"
  using assms(1)
proof (induction rule: rtranclp_induct)
  case (step a b)
  then show ?case using event_inv event_keeps_terminal [OF _ _ _ assms(4)] by blast
qed (use assms in simp)

text \<open>
  The invariant of histories: the store shows the lease handed out last, and every lease that has
  not expired is the one of the same owner.
\<close>

definition history_ok :: "int \<Rightarrow> 'a \<Rightarrow> lease list \<Rightarrow> int \<Rightarrow> bool" where
  "history_ok ttl s ls t \<longleftrightarrow> inv s
     \<and> (\<forall>k. view s k = map_option core (find (\<lambda>x. ls_job_key x = k) ls))
     \<and> (\<forall>x\<in>set ls. ls_expires x \<le> t + ttl)
     \<and> (\<forall>x\<in>set ls. \<forall>c. find (\<lambda>y. ls_job_key y = ls_job_key x) ls = Some c \<longrightarrow>
          ls_expires x \<le> t \<or> (ls_owner x = ls_owner c \<and> ls_lease_id x = ls_lease_id c \<and> ls_expires x \<le> ls_expires c))"

lemma history_ok_same_owner:
  assumes ok: "history_ok ttl s ls t" and "t \<le> now"
    and held: "find (\<lambda>x. ls_job_key x = ls_job_key held) ls = Some held"
    and w: "owner_write B s held owner now l s'"
    and ex: "ls_expires l = now + ttl \<or> ls_expires l = ls_expires held"
  shows "history_ok ttl s' (l # ls) now"
proof -
  have view: "inv s'" "view s' = (view s)(ls_job_key held \<mapsto> core l)"
    using owner_write_view [OF _ w] ok by (auto simp: history_ok_def)
  have l: "ls_job_key l = ls_job_key held" "ls_lease_id l = ls_lease_id held" "ls_owner l = ls_owner held"
    using w by (auto simp: owner_write_def)
  have "held \<in> set ls" using held by (auto simp: find_Some_iff)
  then have "ls_expires held \<le> now + ttl" using ok \<open>t \<le> now\<close> by (fastforce simp: history_ok_def)
  with ex have up: "ls_expires l \<le> now + ttl" "ls_expires held \<le> ls_expires l" by auto
  have "ls_expires x \<le> now \<or> (ls_owner x = ls_owner l \<and> ls_lease_id x = ls_lease_id l \<and> ls_expires x \<le> ls_expires l)"
    if "x \<in> set ls" "ls_job_key x = ls_job_key l" for x
    using ok that held l up \<open>t \<le> now\<close> by (fastforce simp: history_ok_def)
  with ok view l up \<open>t \<le> now\<close> show ?thesis by (fastforce simp: history_ok_def)
qed

lemma history_ok_new:
  assumes ok: "history_ok ttl s ls t" and "t \<le> now" "inv s'"
    and old: "\<And>x. x \<in> set ls \<Longrightarrow> ls_job_key x = ls_job_key l \<Longrightarrow> ls_expires x \<le> now"
    and "view s' = (view s)(ls_job_key l \<mapsto> core l)" "ls_expires l = now + ttl"
  shows "history_ok ttl s' (l # ls) now"
  using assms by (fastforce simp: history_ok_def)

lemma history_ok:
  assumes "lease_history L B ttl s0 s ls t" and "inv s0" "view s0 = (\<lambda>_. None)"
  shows "history_ok ttl s ls t"
  using assms(1)
proof (induction rule: lease_history.induct)
  case start
  then show ?case using assms(2,3) by (simp add: history_ok_def)
next
  case (claim_won s ls t now job plan owner n l s' e)
  have inv: "inv s" using claim_won.IH by (simp add: history_ok_def)
  note nl = new_lease_Inr [OF claim_won(3)]
  have "inv s' \<and> view s' = (view s)(ls_job_key l \<mapsto> core l)"
    using claim_won(4) created_view [OF inv claim_won(3)] taken_view [OF inv claim_won(3)] by blast
  moreover have "ls_expires x \<le> now" if x: "x \<in> set ls" "ls_job_key x = ls_job_key l" for x
  proof -
    obtain c where c: "find (\<lambda>y. ls_job_key y = ls_job_key x) ls = Some c"
      using find_same_key [OF x(1), of ls_job_key] by blast
    then have v: "view s (ls_job_key l) = Some (core c)"
      using claim_won.IH that by (simp add: history_ok_def)
    with claim_won(4) have "be_replace_if_expired B s (job_key job) e now (lease_to_dict l) = Inr (True, s')"
      using created_view [OF inv claim_won(3)] by auto
    with taken_view [OF inv claim_won(3) this] expired_active [OF inv nl(1,8), of e s' "core c"] v nl(2)
    have "ls_expires c \<le> now" by (auto simp: is_active_at_def)
    with claim_won.IH c that claim_won(2) show ?thesis by (fastforce simp: history_ok_def)
  qed
  ultimately show ?case using history_ok_new claim_won.IH claim_won(2) nl(5) by blast
next
  case (renewal s ls t now held owner l s')
  with history_ok_same_owner lease_renew_Inr [OF renewal(4)] show ?case by blast
next
  case (transition s ls t now held owner st ev l s')
  with history_ok_same_owner lease_transition_Inr [OF transition(4)] show ?case by blast
qed

lemma one_unexpired_owner:
  assumes "lease_history L B ttl s0 s ls t" "inv s0" "view s0 = (\<lambda>_. None)"
    and "x \<in> set ls" "y \<in> set ls" "ls_job_key x = ls_job_key y" "t < ls_expires x" "t < ls_expires y"
  shows "ls_owner x = ls_owner y \<and> ls_lease_id x = ls_lease_id y"
proof -
  note ok = history_ok [OF assms(1-3)]
  obtain c where c: "find (\<lambda>z. ls_job_key z = ls_job_key x) ls = Some c"
    using find_same_key [OF assms(4), of ls_job_key] by blast
  have "ls_owner z = ls_owner c \<and> ls_lease_id z = ls_lease_id c"
    if "z \<in> set ls" "ls_job_key z = ls_job_key x" "t < ls_expires z" for z
    using ok c that by (auto simp: history_ok_def)
  with assms(4-8) show ?thesis by metis
qed

end

end
