(* ===== verification/Recovery_Postgres.thy ===== *)
theory Recovery_Postgres
  imports Recovery_Lease
begin

text \<open>
  The lease table of the production database (\<open>dags/common/recovery/postgres.py\<close>): its rows, the
  four statements, and the proof that they implement the strict lease-store contract when the
  database orders the printed timestamps as the instants they denote.  The properties of leases
  are stated for this store.
\<close>

section \<open>Rows\<close>

text \<open>The evidence column holds JSON text; it is kept as the value it denotes, \<open>None\<close> if it is not JSON.\<close>

record lease_row =
  row_job_key :: string
  row_lease_id :: string
  row_owner :: string
  row_plan :: string
  row_action :: string
  row_state :: string
  row_acquired :: string
  row_expires :: string
  row_updated :: string
  row_attempt :: int
  row_evidence :: "pyobj option"

type_synonym lease_table = "(string \<times> lease_row) list"

text \<open>\<open>document[key]\<close>, bound to a text or an integer column.\<close>

definition text_parameter :: "pyobj pydict \<Rightarrow> string \<Rightarrow> string result" where
  "text_parameter d key =
     (case map_of d key of None \<Rightarrow> Inl (KeyError key) | Some (PStr s) \<Rightarrow> Inr s
      | Some _ \<Rightarrow> Inl (TypeError ''column is of type text''))"

definition int_parameter :: "pyobj pydict \<Rightarrow> string \<Rightarrow> int result" where
  "int_parameter d key =
     (case map_of d key of None \<Rightarrow> Inl (KeyError key) | Some (PInt i) \<Rightarrow> Inr i
      | Some _ \<Rightarrow> Inl (TypeError ''column is of type integer''))"

definition pg_parameters :: "pyobj pydict \<Rightarrow> lease_row result" where
  "pg_parameters d =
     bind_result (text_parameter d ''job_key'') (\<lambda>jkey.
     bind_result (text_parameter d ''lease_id'') (\<lambda>lid.
     bind_result (text_parameter d ''owner_id'') (\<lambda>owner.
     bind_result (text_parameter d ''plan_id'') (\<lambda>plan.
     bind_result (text_parameter d ''action'') (\<lambda>action.
     bind_result (text_parameter d ''state'') (\<lambda>state.
     bind_result (text_parameter d ''acquired_at'') (\<lambda>acquired.
     bind_result (text_parameter d ''expires_at'') (\<lambda>expires.
     bind_result (text_parameter d ''updated_at'') (\<lambda>updated.
     bind_result (int_parameter d ''attempt_count'') (\<lambda>attempt.
     let evidence = (if falsy (dict_get ''evidence'' d) then PDict [] else dict_get ''evidence'' d) in
     if \<not> json_value evidence then Inl (TypeError ''object is not JSON serializable'')
     else Inr \<lparr>row_job_key = jkey, row_lease_id = lid, row_owner = owner, row_plan = plan,
            row_action = action, row_state = state, row_acquired = acquired, row_expires = expires,
            row_updated = updated, row_attempt = attempt,
            row_evidence = Some (sort_keys evidence)\<rparr>))))))))))"

text \<open>The column types and check constraints of \<open>CREATE_LEASE_TABLE_SQL\<close>.\<close>

definition row_allowed :: "lease_row \<Rightarrow> bool" where
  "row_allowed r \<longleftrightarrow>
     py_len (row_job_key r) \<le> 512 \<and> py_len (row_lease_id r) \<le> 256 \<and> py_len (row_owner r) \<le> 256
     \<and> py_len (row_plan r) \<le> 256
     \<and> row_action r \<in> set [''raw_replay'', ''recollect'']
     \<and> row_state r \<in> set [''leased'', ''running'', ''succeeded'', ''skipped'', ''unrecoverable'', ''blocked'']
     \<and> 0 < row_attempt r \<and> row_attempt r < 2 ^ 31"

definition row_document :: "lease_row \<Rightarrow> pyobj \<Rightarrow> pyobj pydict" where
  "row_document r evidence =
     [(''job_key'', PStr (row_job_key r)), (''lease_id'', PStr (row_lease_id r)),
      (''owner_id'', PStr (row_owner r)), (''plan_id'', PStr (row_plan r)),
      (''action'', PStr (row_action r)), (''state'', PStr (row_state r)),
      (''acquired_at'', PStr (row_acquired r)), (''expires_at'', PStr (row_expires r)),
      (''updated_at'', PStr (row_updated r)), (''attempt_count'', PInt (row_attempt r)),
      (''evidence'', evidence), (''schema_version'', PStr lease_schema)]"

section \<open>Statements\<close>

definition pg_read :: "lease_table \<Rightarrow> string \<Rightarrow> pyobj pydict option result" where
  "pg_read s jkey =
     (case map_of s jkey of
        None \<Rightarrow> Inr None
      | Some row \<Rightarrow> (case row_evidence row of
            None \<Rightarrow> Inl (ValueError ''recovery lease evidence is invalid JSON'')
          | Some v \<Rightarrow> Inr (Some (row_document row v))))"

definition pg_create_if_absent :: "lease_table \<Rightarrow> string \<Rightarrow> pyobj pydict \<Rightarrow> (bool \<times> lease_table) result" where
  "pg_create_if_absent s jkey doc =
     bind_result (pg_parameters doc) (\<lambda>row.
     if \<not> row_allowed row then Inl (RuntimeError ''database constraint'')
     else if map_of s (row_job_key row) \<noteq> None then Inr (False, s)
     else Inr (True, dict_set (row_job_key row) row s))"

text \<open>An \<open>UPDATE\<close> of the row with the document's job key, if \<open>cond\<close> holds of it.\<close>

definition pg_update :: "(lease_row \<Rightarrow> bool) \<Rightarrow> lease_table \<Rightarrow> pyobj pydict \<Rightarrow> (bool \<times> lease_table) result" where
  "pg_update cond s doc =
     bind_result (pg_parameters doc) (\<lambda>row.
     case map_of s (row_job_key row) of
       None \<Rightarrow> Inr (False, s)
     | Some current \<Rightarrow>
         if \<not> cond current then Inr (False, s)
         else if \<not> row_allowed row then Inl (RuntimeError ''database constraint'')
         else Inr (True, dict_set (row_job_key row) row s))"

text \<open>\<open>text_le\<close> is the database's order of text.\<close>

definition pg_replace_if_expired ::
  "(string \<Rightarrow> string \<Rightarrow> bool) \<Rightarrow> lease_table \<Rightarrow> string \<Rightarrow> string \<Rightarrow> int \<Rightarrow> pyobj pydict
     \<Rightarrow> (bool \<times> lease_table) result" where
  "pg_replace_if_expired text_le s jkey expected now doc =
     pg_update (\<lambda>c. row_lease_id c = expected \<and> row_state c \<in> set [''leased'', ''running'']
       \<and> text_le (row_expires c) (isoformat now)) s doc"

definition pg_replace_if_owner ::
  "(string \<Rightarrow> string \<Rightarrow> bool) \<Rightarrow> lease_table \<Rightarrow> string \<Rightarrow> string \<Rightarrow> string \<Rightarrow> int \<Rightarrow> pyobj pydict
     \<Rightarrow> (bool \<times> lease_table) result" where
  "pg_replace_if_owner text_le s jkey expected owner now doc =
     pg_update (\<lambda>c. row_lease_id c = expected \<and> row_owner c = owner
       \<and> row_state c \<in> set [''leased'', ''running''] \<and> \<not> text_le (row_expires c) (isoformat now)) s doc"

definition postgres_store :: "(string \<Rightarrow> string \<Rightarrow> bool) \<Rightarrow> lease_table lease_backend" where
  "postgres_store text_le = \<lparr>be_read = pg_read, be_create = pg_create_if_absent,
     be_replace_if_expired = pg_replace_if_expired text_le,
     be_replace_if_owner = pg_replace_if_owner text_le\<rparr>"

section \<open>The table as a map of leases\<close>

definition row_of :: "lease \<Rightarrow> lease_row" where
  "row_of l = \<lparr>row_job_key = ls_job_key l, row_lease_id = ls_lease_id l, row_owner = ls_owner l,
     row_plan = ls_plan l, row_action = action_value (ls_action l), row_state = ls_state l,
     row_acquired = isoformat (ls_acquired l), row_expires = isoformat (ls_expires l),
     row_updated = isoformat (ls_updated l), row_attempt = ls_attempt l,
     row_evidence = Some (sort_keys (PDict (ls_evidence l)))\<rparr>"

definition pg_inv :: "lease_table \<Rightarrow> bool" where
  "pg_inv s \<longleftrightarrow> (\<forall>k r. map_of s k = Some r \<longrightarrow> (\<exists>l. r = row_of l \<and> lease_ok l \<and> ls_job_key l = k))"

definition pg_view :: "pylib \<Rightarrow> lease_table \<Rightarrow> string \<Rightarrow> lease option" where
  "pg_view L s k =
     (case pg_read s k of Inr (Some d) \<Rightarrow> (case lease_from_document L d of Inr l \<Rightarrow> Some (core l) | Inl _ \<Rightarrow> None)
      | _ \<Rightarrow> None)"

lemma sort_keys_scalar: "is_scalar v \<Longrightarrow> sort_keys v = v"
  by (cases v) auto

lemma safe_evidence_iff:
  "safe_evidence d = Inr () \<longleftrightarrow> length d \<le> 32 \<and> (\<forall>kv\<in>set d. safe_evidence_item kv = Inr ())"
proof -
  have "(\<exists>us. traverse safe_evidence_item d = Inr us) \<longleftrightarrow> (\<forall>kv\<in>set d. safe_evidence_item kv = Inr ())"
    by (induction d) (auto split: sum.splits)
  then show ?thesis by (auto simp: safe_evidence_def bind_result_Inr_iff)
qed

lemma safe_item_scalar: "safe_evidence_item kv = Inr () \<Longrightarrow> is_scalar (snd kv)"
  by (auto simp: safe_evidence_item_def split: if_splits)

lemma lease_ok_evidence: "lease_ok l \<Longrightarrow> safe_evidence (ls_evidence l) = Inr ()"
  by (auto simp: lease_ok_def lease_init_def bind_result_Inr_iff split: if_splits)

lemma lease_ok_same:
  assumes "lease_ok l" "safe_evidence d = Inr ()"
  shows "lease_init (ls_job_key l) (ls_lease_id l) (ls_owner l) (ls_plan l) (ls_action l) (ls_state l)
    (ls_acquired l) (ls_expires l) (ls_updated l) (ls_attempt l) (PDict d) = Inr (l\<lparr>ls_evidence := d\<rparr>)"
  using assms by (auto simp: lease_ok_def lease_init_def bind_result_Inr_iff split: if_splits)

text \<open>Sorting the keys of safe evidence leaves safe evidence.\<close>

lemma sorted_evidence:
  assumes "lease_ok l"
  shows "sort_keys (PDict (ls_evidence l)) = PDict (sort_key fst (ls_evidence l))"
    and "safe_evidence (sort_key fst (ls_evidence l)) = Inr ()"
proof -
  from lease_ok_evidence [OF assms] have s: "length (ls_evidence l) \<le> 32"
    "\<forall>kv\<in>set (ls_evidence l). safe_evidence_item kv = Inr ()" by (auto simp: safe_evidence_iff)
  then have "map (\<lambda>(k, v). (k, sort_keys v)) (ls_evidence l) = ls_evidence l"
    by (intro map_idI) (auto dest!: safe_item_scalar simp: sort_keys_scalar)
  then show "sort_keys (PDict (ls_evidence l)) = PDict (sort_key fst (ls_evidence l))" by simp
  from s show "safe_evidence (sort_key fst (ls_evidence l)) = Inr ()" by (simp add: safe_evidence_iff)
qed

lemma pg_parameters_lease:
  assumes "lease_ok l" shows "pg_parameters (lease_to_dict l) = Inr (row_of l)"
proof -
  note get = text_parameter_def int_parameter_def lease_to_dict_def dict_get_def
  show ?thesis
    using safe_evidence_scalar [OF assms]
    by (cases "ls_evidence l = []") (simp_all add: pg_parameters_def get row_of_def)
qed

context iso_codec
begin

lemma row_document_lease:
  assumes "lease_ok l"
  shows "lease_from_document L (row_document (row_of l) (sort_keys (PDict (ls_evidence l))))
    = Inr (l\<lparr>ls_evidence := sort_key fst (ls_evidence l)\<rparr>)"
proof -
  note get = dict_get_def row_document_def row_of_def
  have ev: "lease_init (ls_job_key l) (ls_lease_id l) (ls_owner l) (ls_plan l) (ls_action l) (ls_state l)
    (ls_acquired l) (ls_expires l) (ls_updated l) (ls_attempt l) (PDict (sort_key fst (ls_evidence l)))
    = Inr (l\<lparr>ls_evidence := sort_key fst (ls_evidence l)\<rparr>)"
    by (rule lease_ok_same [OF assms sorted_evidence(2) [OF assms]])
  show ?thesis
    unfolding sorted_evidence(1) [OF assms] using ev lease_ok_facts [OF assms]
    by (cases "sort_key fst (ls_evidence l) = []")
      (simp_all add: lease_from_document_def lease_text_def lease_int_def lease_aware_utc_def get)
qed

lemma pg_view_simp:
  assumes "pg_inv s"
  shows "map_of s k = None \<Longrightarrow> pg_view L s k = None"
    and "map_of s k = Some r \<Longrightarrow> \<exists>l. r = row_of l \<and> lease_ok l \<and> ls_job_key l = k \<and> pg_view L s k = Some (core l)
      \<and> pg_read s k = Inr (Some (row_document r (sort_keys (PDict (ls_evidence l)))))"
proof -
  show "map_of s k = None \<Longrightarrow> pg_view L s k = None" by (simp add: pg_view_def pg_read_def)
  assume r: "map_of s k = Some r"
  with assms obtain l where l: "r = row_of l" "lease_ok l" "ls_job_key l = k" by (auto simp: pg_inv_def)
  have rd: "pg_read s k = Inr (Some (row_document r (sort_keys (PDict (ls_evidence l)))))"
    using r l(1) by (simp add: pg_read_def row_of_def)
  then have "pg_view L s k = Some (core l)"
    using row_document_lease [OF l(2)] l(1) by (simp add: pg_view_def core_def)
  with l rd show "\<exists>l. r = row_of l \<and> lease_ok l \<and> ls_job_key l = k \<and> pg_view L s k = Some (core l)
      \<and> pg_read s k = Inr (Some (row_document r (sort_keys (PDict (ls_evidence l)))))" by blast
qed

lemma pg_write:
  assumes "pg_inv s" "lease_ok l"
  shows "pg_inv (dict_set (ls_job_key l) (row_of l) s)
    \<and> pg_view L (dict_set (ls_job_key l) (row_of l) s) = (pg_view L s)(ls_job_key l \<mapsto> core l)"
proof -
  have inv: "pg_inv (dict_set (ls_job_key l) (row_of l) s)" using assms by (auto simp: pg_inv_def)
  moreover have "pg_view L (dict_set (ls_job_key l) (row_of l) s) k = ((pg_view L s)(ls_job_key l \<mapsto> core l)) k" for k
  proof (cases "k = ls_job_key l")
    case True
    with row_document_lease [OF assms(2)] show ?thesis
      by (simp add: pg_view_def pg_read_def core_def row_of_def [of l, THEN arg_cong [where f = row_evidence]])
  next
    case False
    then show ?thesis by (simp add: pg_view_def pg_read_def)
  qed
  ultimately show ?thesis by blast
qed

end

section \<open>The table implements the contract\<close>

text \<open>What the statements rely on: the database orders printed instants as instants.\<close>

locale text_order = iso_codec L for L :: pylib +
  fixes text_le :: "string \<Rightarrow> string \<Rightarrow> bool"
  assumes text_le_isoformat: "in_range t \<Longrightarrow> in_range u \<Longrightarrow> text_le (isoformat t) (isoformat u) \<longleftrightarrow> t \<le> u"
begin

lemma active_row:
  assumes "lease_ok c" "in_range now"
  shows "row_state (row_of c) \<in> set [''leased'', ''running''] \<and> \<not> text_le (row_expires (row_of c)) (isoformat now)
    \<longleftrightarrow> is_active_at c now"
    and "text_le (row_expires (row_of c)) (isoformat now) \<longleftrightarrow> ls_expires c \<le> now"
  using lease_ok_facts(5) [OF assms(1)] assms(2)
  by (auto simp: row_of_def is_active_at_def active_states_def text_le_isoformat)

lemma row_of_simps [simp]:
  "row_job_key (row_of l) = ls_job_key l" "row_lease_id (row_of l) = ls_lease_id l"
  "row_owner (row_of l) = ls_owner l" "row_state (row_of l) = ls_state l"
  by (simp_all add: row_of_def)

lemma pg_update_lease:
  assumes "pg_inv s" "lease_ok l" "pg_update cond s (lease_to_dict l) = Inr (b, s')"
  shows "pg_inv s' \<and> pg_view L s' = (if b then (pg_view L s)(ls_job_key l \<mapsto> core l) else pg_view L s)
    \<and> (b \<longleftrightarrow> (\<exists>c. lease_ok c \<and> pg_view L s (ls_job_key l) = Some (core c)
         \<and> map_of s (ls_job_key l) = Some (row_of c) \<and> cond (row_of c)))"
proof (cases "map_of s (ls_job_key l)")
  case None
  with assms pg_view_simp(1) [OF assms(1) None] show ?thesis
    by (simp add: pg_update_def pg_parameters_lease)
next
  case (Some r)
  from pg_view_simp(2) [OF assms(1) Some] obtain c where c: "r = row_of c" "lease_ok c"
    "pg_view L s (ls_job_key l) = Some (core c)" by blast
  show ?thesis
  proof (cases "cond r")
    case True
    with Some assms have "b" "s' = dict_set (ls_job_key l) (row_of l) s"
      by (auto simp: pg_update_def pg_parameters_lease split: if_splits)
    with pg_write [OF assms(1,2)] c Some True show ?thesis by auto
  next
    case False
    with Some assms have "\<not> b" "s' = s" by (auto simp: pg_update_def pg_parameters_lease split: if_splits)
    with assms(1) Some False show ?thesis by auto
  qed
qed

lemma pg_create_lease:
  assumes "pg_inv s" "lease_ok l" "pg_create_if_absent s k (lease_to_dict l) = Inr (b, s')"
  shows "pg_inv s' \<and> (b \<longleftrightarrow> pg_view L s (ls_job_key l) = None)
    \<and> pg_view L s' = (if b then (pg_view L s)(ls_job_key l \<mapsto> core l) else pg_view L s)"
proof (cases "map_of s (ls_job_key l)")
  case None
  with assms pg_write [OF assms(1,2)] pg_view_simp(1) [OF assms(1) None] show ?thesis
    by (auto simp: pg_create_if_absent_def pg_parameters_lease split: if_splits)
next
  case (Some r)
  with assms pg_view_simp(2) [OF assms(1) Some] show ?thesis
    by (auto simp: pg_create_if_absent_def pg_parameters_lease split: if_splits)
qed

lemma pg_expired_lease:
  assumes "pg_inv s" "lease_ok l" "in_range now"
    and "pg_replace_if_expired text_le s k e now (lease_to_dict l) = Inr (b, s')"
  shows "pg_inv s' \<and> pg_view L s' = (if b then (pg_view L s)(ls_job_key l \<mapsto> core l) else pg_view L s)
    \<and> (b \<longleftrightarrow> (\<exists>c. pg_view L s (ls_job_key l) = Some c \<and> ls_lease_id c = e
         \<and> ls_state c \<in> set active_states \<and> ls_expires c \<le> now))"
proof -
  note u = pg_update_lease [OF assms(1,2) assms(4) [unfolded pg_replace_if_expired_def]]
  have eq: "row_lease_id (row_of c) = e \<and> row_state (row_of c) \<in> set [''leased'', ''running'']
        \<and> text_le (row_expires (row_of c)) (isoformat now)
      \<longleftrightarrow> ls_lease_id c = e \<and> ls_state c \<in> set active_states \<and> ls_expires c \<le> now" if "lease_ok c" for c
    using active_row(2) [OF that assms(3)] by (simp add: active_states_def)
  have "b \<Longrightarrow> \<exists>c. pg_view L s (ls_job_key l) = Some c \<and> ls_lease_id c = e
      \<and> ls_state c \<in> set active_states \<and> ls_expires c \<le> now"
    using u eq by (metis core_simps(2,6,8))
  moreover have "b" if v: "pg_view L s (ls_job_key l) = Some c" "ls_lease_id c = e"
    "ls_state c \<in> set active_states" "ls_expires c \<le> now" for c
  proof -
    obtain r where "map_of s (ls_job_key l) = Some r"
      using v(1) pg_view_simp(1) [OF assms(1)] by (cases "map_of s (ls_job_key l)") auto
    with pg_view_simp(2) [OF assms(1) this] v(1) obtain d where "map_of s (ls_job_key l) = Some (row_of d)"
      "lease_ok d" "c = core d" by auto
    with u eq v show ?thesis by (metis core_simps(2,6,8))
  qed
  ultimately show ?thesis using u by blast
qed

lemma pg_owner_lease:
  assumes "pg_inv s" "lease_ok l" "in_range now"
    and "pg_replace_if_owner text_le s k e w now (lease_to_dict l) = Inr (b, s')"
  shows "pg_inv s' \<and> pg_view L s' = (if b then (pg_view L s)(ls_job_key l \<mapsto> core l) else pg_view L s)
    \<and> (b \<longleftrightarrow> (\<exists>c. pg_view L s (ls_job_key l) = Some c \<and> ls_lease_id c = e \<and> ls_owner c = w \<and> is_active_at c now))"
proof -
  note u = pg_update_lease [OF assms(1,2) assms(4) [unfolded pg_replace_if_owner_def]]
  have eq: "row_lease_id (row_of c) = e \<and> row_owner (row_of c) = w
        \<and> row_state (row_of c) \<in> set [''leased'', ''running''] \<and> \<not> text_le (row_expires (row_of c)) (isoformat now)
      \<longleftrightarrow> ls_lease_id c = e \<and> ls_owner c = w \<and> is_active_at c now" if "lease_ok c" for c
    using active_row(1) [OF that assms(3)] by simp
  have "b \<Longrightarrow> \<exists>c. pg_view L s (ls_job_key l) = Some c \<and> ls_lease_id c = e \<and> ls_owner c = w \<and> is_active_at c now"
    using u eq by (metis core_simps(2,3) is_active_at_core)
  moreover have "b" if v: "pg_view L s (ls_job_key l) = Some c" "ls_lease_id c = e" "ls_owner c = w"
    "is_active_at c now" for c
  proof -
    obtain r where "map_of s (ls_job_key l) = Some r"
      using v(1) pg_view_simp(1) [OF assms(1)] by (cases "map_of s (ls_job_key l)") auto
    with pg_view_simp(2) [OF assms(1) this] v(1) obtain d where "map_of s (ls_job_key l) = Some (row_of d)"
      "lease_ok d" "c = core d" by auto
    with u eq v show ?thesis by (metis core_simps(2,3) is_active_at_core)
  qed
  ultimately show ?thesis using u by blast
qed

end

sublocale text_order \<subseteq> pg: strict_lease_store L "postgres_store text_le" pg_inv "pg_view L"
proof unfold_locales
  fix s k d assume inv: "pg_inv s" and run: "be_read (postgres_store text_le) s k = Inr d"
  show "(case d of None \<Rightarrow> pg_view L s k = None
      | Some doc \<Rightarrow> \<exists>l. lease_from_document L doc = Inr l \<and> lease_ok l \<and> pg_view L s k = Some (core l)
          \<and> ls_job_key l = k)"
  proof (cases "map_of s k")
    case None
    with run pg_view_simp(1) [OF inv None] show ?thesis by (auto simp: postgres_store_def pg_read_def)
  next
    case (Some r)
    from pg_view_simp(2) [OF inv Some] obtain l where l: "r = row_of l" "lease_ok l" "ls_job_key l = k"
      "pg_view L s k = Some (core l)" "pg_read s k = Inr (Some (row_document r (sort_keys (PDict (ls_evidence l)))))"
      by blast
    let ?l = "l\<lparr>ls_evidence := sort_key fst (ls_evidence l)\<rparr>"
    have "lease_ok ?l"
      using lease_ok_same [OF l(2) sorted_evidence(2) [OF l(2)]] by (simp add: lease_ok_def)
    moreover have "d = Some (row_document r (sort_keys (PDict (ls_evidence l))))"
      using run l(5) by (simp add: postgres_store_def)
    ultimately show ?thesis using row_document_lease [OF l(2)] l(1,3,4) by (auto simp: core_def)
  qed
next
  fix s l b s' assume "pg_inv s" "lease_ok l"
    "be_create (postgres_store text_le) s (ls_job_key l) (lease_to_dict l) = Inr (b, s')"
  then show "pg_inv s' \<and> (b \<longleftrightarrow> pg_view L s (ls_job_key l) = None)
      \<and> pg_view L s' = (if b then (pg_view L s)(ls_job_key l \<mapsto> core l) else pg_view L s)"
    using pg_create_lease by (simp add: postgres_store_def)
next
  fix s l now e b s' assume a: "pg_inv s" "lease_ok l" "in_range now"
    "be_replace_if_expired (postgres_store text_le) s (ls_job_key l) e now (lease_to_dict l) = Inr (b, s')"
  then have run: "pg_replace_if_expired text_le s (ls_job_key l) e now (lease_to_dict l) = Inr (b, s')"
    by (simp add: postgres_store_def)
  from pg_expired_lease [OF a(1-3) run]
  show "pg_inv s' \<and> (b \<longrightarrow> (\<exists>c. pg_view L s (ls_job_key l) = Some c \<and> ls_lease_id c = e \<and> \<not> is_active_at c now))
      \<and> ((\<exists>c. pg_view L s (ls_job_key l) = Some c \<and> ls_lease_id c = e \<and> ls_state c \<in> set active_states
           \<and> ls_expires c \<le> now) \<longrightarrow> b)
      \<and> pg_view L s' = (if b then (pg_view L s)(ls_job_key l \<mapsto> core l) else pg_view L s)"
    by (auto simp: is_active_at_def)
next
  fix s l now e w b s' assume a: "pg_inv s" "lease_ok l" "in_range now"
    "be_replace_if_owner (postgres_store text_le) s (ls_job_key l) e w now (lease_to_dict l) = Inr (b, s')"
  then have run: "pg_replace_if_owner text_le s (ls_job_key l) e w now (lease_to_dict l) = Inr (b, s')"
    by (simp add: postgres_store_def)
  from pg_owner_lease [OF a(1-3) run]
  show "pg_inv s' \<and> (b \<longleftrightarrow> (\<exists>c. pg_view L s (ls_job_key l) = Some c \<and> ls_lease_id c = e \<and> ls_owner c = w
           \<and> is_active_at c now))
      \<and> pg_view L s' = (if b then (pg_view L s)(ls_job_key l \<mapsto> core l) else pg_view L s)" by blast
next
  fix s l now e s' c assume a: "pg_inv s" "lease_ok l" "in_range now"
    "be_replace_if_expired (postgres_store text_le) s (ls_job_key l) e now (lease_to_dict l) = Inr (True, s')"
    "pg_view L s (ls_job_key l) = Some c"
  then have run: "pg_replace_if_expired text_le s (ls_job_key l) e now (lease_to_dict l) = Inr (True, s')"
    by (simp add: postgres_store_def)
  from pg_expired_lease [OF a(1-3) run] a(5) show "ls_state c \<in> set active_states" by auto
qed

text \<open>Byte order, the order of the C collation, is such an order.\<close>

interpretation byte_order: text_order "std_lib h" "(\<le>)" for h
  by unfold_locales (simp add: isoformat_le_iff)

section \<open>Properties\<close>

text \<open>A recovery job and a lease of it, for the applications.\<close>

definition lease_lib :: pylib where "lease_lib = std_lib (\<lambda>_. ''aa'')"

definition lease_job :: recovery_job where
  "lease_job = \<lparr>job_key = ''job-1'', job_action = RAW_REPLAY, job_domain = ''weather'',
     job_source_id = ''kma'', job_slot_key = ''slot-1'', job_slot_ids = [''a''],
     job_priority = 100, job_api_cost = 0, job_reason_code = ''raw_manifest_verified'',
     job_scheduled_at = [], job_deadline_at = [], job_evidence = []\<rparr>"

definition demo_t :: int where "demo_t = 63900000000000000"

definition first_lease :: lease where
  "first_lease = \<lparr>ls_job_key = ''job-1'', ls_lease_id = ''lease/aa'', ls_owner = ''worker-a'',
     ls_plan = ''plan-1'', ls_action = RAW_REPLAY, ls_state = ''leased'', ls_acquired = demo_t,
     ls_expires = demo_t + minutes 15, ls_updated = demo_t, ls_attempt = 1,
     ls_evidence = [(''action'', PStr ''raw_replay''), (''reason_code'', PStr ''raw_manifest_verified'')]\<rparr>"

lemma demo_t_in_range [simp]: "in_range demo_t" "in_range (demo_t + minutes 15)" "in_range (demo_t + 1)"
  "in_range (demo_t + minutes 16)"
  by (simp_all add: demo_t_def in_range_def max_instant_def us_per_day_def minutes_def)

lemma minutes_15 [simp]: "0 < minutes 15" "\<not> minutes 15 < 0" "1 < minutes 15" "0 \<le> minutes 15" "\<not> minutes 15 \<le> 1"
  by (simp_all add: minutes_def)

lemma demo_texts [simp]:
  "lease_safe_text (PStr ''job-1'') f = Inr ''job-1''" "lease_safe_text (PStr ''lease/aa'') f = Inr ''lease/aa''"
  "lease_safe_text (PStr ''worker-a'') f = Inr ''worker-a''" "lease_safe_text (PStr ''worker-b'') f = Inr ''worker-b''"
  "lease_safe_text (PStr ''plan-1'') f = Inr ''plan-1''"
  by (simp_all add: lease_safe_text_def safe_pattern_def char_in_def alnum_def)

lemma demo_evidence_safe: "safe_evidence (ls_evidence first_lease) = Inr ()"
  by (simp add: first_lease_def) code_simp

lemma first_lease_ok: "lease_ok first_lease"
  using demo_evidence_safe
  by (simp add: lease_ok_def lease_init_def first_lease_def claimable_actions_def lease_states_def
      active_states_def)

definition second_job :: recovery_job where "second_job = lease_job\<lparr>job_key := ''plan-1''\<rparr>"

lemma new_lease_demo:
  "new_lease lease_lib (minutes 15) lease_job ''plan-1'' ''worker-a'' demo_t 1 = Inr first_lease"
proof -
  have ev: "safe_evidence [(''action'', PStr ''raw_replay''), (''reason_code'', PStr ''raw_manifest_verified'')] = Inr ()"
    using demo_evidence_safe by (simp add: first_lease_def)
  show ?thesis
    by (simp add: new_lease_def lease_lib_def lease_job_def first_lease_def add_delta_def checked_instant_def
        lease_init_def ev claimable_actions_def lease_states_def active_states_def)
qed

lemma new_lease_demo2:
  "new_lease lease_lib (minutes 15) second_job ''plan-1'' ''worker-a'' demo_t 1
     = Inr (first_lease\<lparr>ls_job_key := ''plan-1''\<rparr>)"
proof -
  have ev: "safe_evidence [(''action'', PStr ''raw_replay''), (''reason_code'', PStr ''raw_manifest_verified'')] = Inr ()"
    using demo_evidence_safe by (simp add: first_lease_def)
  show ?thesis
    by (simp add: new_lease_def lease_lib_def lease_job_def second_job_def first_lease_def add_delta_def
        checked_instant_def lease_init_def ev claimable_actions_def lease_states_def active_states_def)
qed

abbreviation pg_store :: "lease_table lease_backend" where "pg_store \<equiv> postgres_store (\<le>)"

lemma row_allowed_demo:
  "row_allowed (row_of first_lease)" "row_allowed (row_of (first_lease\<lparr>ls_job_key := ''plan-1''\<rparr>))"
  by (simp_all add: row_allowed_def row_of_def first_lease_def py_len_def)

lemma pg_create_demo:
  assumes "lease_ok l" "row_allowed (row_of l)" "map_of s (ls_job_key l) = None"
  shows "be_create pg_store s k (lease_to_dict l) = Inr (True, dict_set (ls_job_key l) (row_of l) s)"
  using assms by (simp add: postgres_store_def pg_create_if_absent_def pg_parameters_lease row_of_def)

definition done_lease :: lease where "done_lease = first_lease\<lparr>ls_state := ''succeeded''\<rparr>"

lemma done_lease_ok: "lease_ok done_lease" and second_lease_ok: "lease_ok (first_lease\<lparr>ls_job_key := ''plan-1''\<rparr>)"
  using demo_evidence_safe
  by (simp_all add: done_lease_def lease_ok_def lease_init_def first_lease_def claimable_actions_def
      lease_states_def active_states_def terminal_states_def)

text \<open>C15: A finished recovery is final: once the lease of a job in the production store is terminal,
  no sequence of claims, renewals and transitions, by any workers, in any interleaving and with any
  clocks, ever changes it again.\<close>

theorem postgres_terminal_is_final:
  assumes "pg_inv s" and "registry_read (std_lib h) pg_store s k = Inr (Some c)"
    and "ls_state c \<in> set terminal_states"
    and "(\<lambda>a b. \<exists>l now. lease_event (std_lib h) pg_store ttl a l now b)\<^sup>*\<^sup>* s s'"
    and "registry_read (std_lib h) pg_store s' k = Inr r"
  shows "\<exists>d. r = Some d \<and> core d = core c"
proof -
  note v = byte_order.pg.registry_read_view [OF assms(1,2)]
  have "pg_inv s' \<and> pg_view (std_lib h) s' k = Some (core c)"
    using byte_order.pg.events_keep_terminal [OF assms(4,1), of k "core c"] v assms(3) by simp
  with byte_order.pg.registry_read_view [OF _ assms(5)] show ?thesis by (cases r) auto
qed

lemma postgres_terminal_is_final_witness:
  "\<exists>s'. lease_event lease_lib pg_store (minutes 15) [(''job-1'', row_of done_lease)]
       (first_lease\<lparr>ls_job_key := ''plan-1''\<rparr>) demo_t s'
     \<and> (\<exists>d. registry_read lease_lib pg_store s' ''job-1'' = Inr (Some d) \<and> ls_state d = ''succeeded'')"
proof -
  let ?s = "[(''job-1'', row_of done_lease)]"
  let ?s' = "[(''job-1'', row_of done_lease), (''plan-1'', row_of (first_lease\<lparr>ls_job_key := ''plan-1''\<rparr>))]"
  let ?d = "done_lease\<lparr>ls_evidence := sort_key fst (ls_evidence done_lease)\<rparr>"
  have inv: "pg_inv ?s" using done_lease_ok by (auto simp: pg_inv_def done_lease_def first_lease_def)
  have "be_create pg_store ?s (job_key second_job)
      (lease_to_dict (first_lease\<lparr>ls_job_key := ''plan-1''\<rparr>)) = Inr (True, ?s')"
    using pg_create_demo [OF second_lease_ok row_allowed_demo(2), of ?s] by simp
  from lease_event.created [OF new_lease_demo2 this]
  have ev: "lease_event lease_lib pg_store (minutes 15) ?s (first_lease\<lparr>ls_job_key := ''plan-1''\<rparr>) demo_t ?s'" .
  have read: "registry_read lease_lib pg_store ((''job-1'', row_of done_lease) # s) ''job-1'' = Inr (Some ?d)" for s
    using std.row_document_lease [OF done_lease_ok, of "\<lambda>_. ''aa''"]
    by (simp add: registry_read_def postgres_store_def pg_read_def lease_lib_def row_of_def
        [of done_lease, THEN arg_cong [where f = row_evidence]])
  have "(\<lambda>a b. \<exists>l now. lease_event lease_lib pg_store (minutes 15) a l now b)\<^sup>*\<^sup>* ?s ?s'"
    using ev by blast
  then have "\<exists>d. Some ?d = Some d \<and> core d = core ?d"
    by (intro postgres_terminal_is_final [OF inv, of _ "''job-1''" ?d])
      (use read in \<open>simp_all add: lease_lib_def done_lease_def terminal_states_def\<close>)
  with ev read show ?thesis by (auto simp: done_lease_def)
qed

text \<open>C14: Mutual exclusion: when the workers' clocks agree and every worker renews and moves the lease
  it was handed last, at no time do two of the leases handed out for one job, by the production store,
  both unexpired, belong to different owners or to different claims.\<close>

theorem postgres_one_unexpired_owner:
  assumes "lease_history (std_lib h) pg_store ttl [] s ls t"
    and "x \<in> set ls" "y \<in> set ls" "ls_job_key x = ls_job_key y" "t < ls_expires x" "t < ls_expires y"
  shows "ls_owner x = ls_owner y \<and> ls_lease_id x = ls_lease_id y"
proof -
  have "pg_inv []" "pg_view (std_lib h) [] = (\<lambda>_. None)" by (auto simp: pg_inv_def pg_view_def pg_read_def)
  with byte_order.pg.one_unexpired_owner [OF assms(1)] assms(2-6) show ?thesis by blast
qed

lemma first_lease_fields:
  "ls_job_key first_lease = ''job-1''" "ls_lease_id first_lease = ''lease/aa''"
  "ls_owner first_lease = ''worker-a''" "ls_plan first_lease = ''plan-1''" "ls_action first_lease = RAW_REPLAY"
  "ls_state first_lease = ''leased''" "ls_acquired first_lease = demo_t"
  "ls_expires first_lease = demo_t + minutes 15" "ls_attempt first_lease = 1"
  by (simp_all add: first_lease_def)

definition running_lease :: lease where
  "running_lease = first_lease\<lparr>ls_state := ''running'', ls_updated := demo_t + 1\<rparr>"

lemma transition_demo:
  "lease_transition lease_lib pg_store [(''job-1'', row_of first_lease)] first_lease ''worker-a''
     (PTime (Aware (demo_t + 1))) ''running'' None = Inr (running_lease, [(''job-1'', row_of running_lease)])"
proof -
  have init: "lease_init ''job-1'' ''lease/aa'' ''worker-a'' ''plan-1'' RAW_REPLAY ''running'' demo_t
      (demo_t + minutes 15) (demo_t + 1) 1 (PDict (ls_evidence first_lease)) = Inr running_lease"
    using demo_evidence_safe
    by (simp add: lease_init_def running_lease_def first_lease_def claimable_actions_def lease_states_def
        active_states_def)
  have ok: "lease_ok running_lease" by (rule lease_init_Inr(2) [OF init])
  have "row_allowed (row_of running_lease)"
    using row_allowed_demo(1) by (simp add: row_allowed_def row_of_def running_lease_def)
  moreover have "\<not> isoformat (demo_t + minutes 15) \<le> isoformat (demo_t + 1)"
    by (subst isoformat_le_iff) simp_all
  ultimately have "be_replace_if_owner pg_store [(''job-1'', row_of first_lease)] ''job-1'' ''lease/aa'' ''worker-a''
      (demo_t + 1) (lease_to_dict running_lease) = Inr (True, [(''job-1'', row_of running_lease)])"
    by (simp add: postgres_store_def pg_replace_if_owner_def pg_update_def pg_parameters_lease [OF ok])
      (simp add: row_of_def running_lease_def first_lease_def)
  moreover have "is_active_at first_lease (demo_t + 1)"
    by (simp add: is_active_at_def first_lease_def active_states_def)
  ultimately show ?thesis
    using init by (simp add: lease_transition_def lease_write_def first_lease_fields active_states_def)
qed

lemma postgres_one_unexpired_owner_witness:
  "\<exists>s. lease_history lease_lib pg_store (minutes 15) [] s [running_lease, first_lease] (demo_t + 1)
     \<and> ls_owner running_lease = ls_owner first_lease"
proof -
  have c: "be_create pg_store [] (job_key lease_job) (lease_to_dict first_lease) = Inr (True, [(''job-1'', row_of first_lease)])"
    using pg_create_demo [OF first_lease_ok row_allowed_demo(1), of "[]"] by (simp add: first_lease_def)
  have h1: "lease_history lease_lib pg_store (minutes 15) [] [(''job-1'', row_of first_lease)] [first_lease] demo_t"
    by (rule lease_history.claim_won [OF lease_history.start [where t = demo_t] _ new_lease_demo]) (use c in simp_all)
  have h2: "lease_history lease_lib pg_store (minutes 15) [] [(''job-1'', row_of running_lease)]
      [running_lease, first_lease] (demo_t + 1)"
    by (rule lease_history.transition [OF h1 _ _ transition_demo]) simp_all
  have "ls_owner running_lease = ls_owner first_lease \<and> ls_lease_id running_lease = ls_lease_id first_lease"
    by (rule postgres_one_unexpired_owner [OF h2 [unfolded lease_lib_def]])
      (simp_all add: running_lease_def first_lease_def)
  with h2 show ?thesis by blast
qed

text \<open>C16: Fencing: a renewal or a transition succeeds only while the production store still holds the
  worker's own lease, active at the worker's time; it then changes that job's lease only.  A worker
  whose lease was taken over cannot publish anything.\<close>

theorem postgres_stale_worker_is_fenced:
  assumes "pg_inv s"
    and "lease_transition (std_lib h) pg_store s held owner (PTime (Aware now)) st ev = Inr (l, s')
      \<or> lease_renew (std_lib h) pg_store ttl s held owner (PTime (Aware now)) = Inr (l, s')"
  shows "(\<exists>c. pg_view (std_lib h) s (ls_job_key held) = Some c \<and> ls_lease_id c = ls_lease_id held
        \<and> ls_owner c = owner \<and> is_active_at c now)
    \<and> pg_view (std_lib h) s' = (pg_view (std_lib h) s)(ls_job_key held \<mapsto> core l)"
proof -
  have "owner_write pg_store s held owner now l s'"
    using assms(2) lease_transition_Inr(1) lease_renew_Inr(1) by metis
  from byte_order.pg.owner_write_view [OF assms(1) this] show ?thesis by blast
qed

lemma first_table: "pg_inv [(''job-1'', row_of first_lease)]"
  using first_lease_ok by (auto simp: pg_inv_def first_lease_fields)

lemma postgres_stale_worker_is_fenced_witness:
  "\<exists>c. pg_view lease_lib [(''job-1'', row_of first_lease)] ''job-1'' = Some c \<and> ls_owner c = ''worker-a''"
  using postgres_stale_worker_is_fenced [OF first_table disjI1 [OF transition_demo [unfolded lease_lib_def]]]
  by (auto simp: lease_lib_def first_lease_fields)

text \<open>C17: A claim tells the truth whatever other processes do to the production store between its calls:
  \<open>acquired\<close> and \<open>takeover\<close> mean that this worker's new lease was written in one conditional step
  (with attempt 1, or at least 2), \<open>already_owned\<close>, \<open>held\<close>, \<open>terminal\<close> and \<open>conflict\<close> that the store held
  the returned lease, active and the worker's own, active and another's, terminal, or expired.\<close>

theorem postgres_claim_outcome:
  assumes "\<And>n s. pg_inv s \<Longrightarrow> pg_inv (env n s)" and "pg_inv s" and "in_range now"
    and "lease_claim (std_lib h) pg_store ttl env s job plan owner (PTime (Aware now)) = Inr (r, s2)"
  shows "\<exists>s1. pg_inv s1 \<and> claim_outcome (pg_view (std_lib h) s1) (std_lib h) pg_store ttl job owner now r s1 s2"
  by (rule byte_order.pg.claim_outcome [OF assms])

lemma claim_demo:
  "lease_claim lease_lib pg_store (minutes 15) (\<lambda>n s. s) [] lease_job ''plan-1'' ''worker-a'' (PTime (Aware demo_t))
     = Inr (\<lparr>lr_decision = ACQUIRED, lr_lease = first_lease\<rparr>, [(''job-1'', row_of first_lease)])"
proof -
  have c: "be_create pg_store [] ''job-1'' (lease_to_dict first_lease) = Inr (True, [(''job-1'', row_of first_lease)])"
    using pg_create_demo [OF first_lease_ok row_allowed_demo(1), of "[]"] by (simp add: first_lease_fields)
  have "registry_read lease_lib pg_store [] ''job-1'' = Inr None"
    by (simp add: registry_read_def postgres_store_def pg_read_def)
  then show ?thesis using c new_lease_demo
    by (simp add: lease_claim_def lease_job_def claimable_actions_def)
qed

lemma postgres_claim_outcome_witness:
  "\<exists>s2. lease_claim lease_lib pg_store (minutes 15) (\<lambda>n s. s) [] lease_job ''plan-1'' ''worker-a'' (PTime (Aware demo_t))
       = Inr (\<lparr>lr_decision = ACQUIRED, lr_lease = first_lease\<rparr>, s2)
     \<and> (\<exists>s1. lease_event lease_lib pg_store (minutes 15) s1 first_lease demo_t s2)"
proof -
  have inv: "pg_inv []" by (simp add: pg_inv_def)
  have "\<exists>s1. pg_inv s1 \<and> claim_outcome (pg_view lease_lib s1) lease_lib pg_store (minutes 15) lease_job
      ''worker-a'' demo_t \<lparr>lr_decision = ACQUIRED, lr_lease = first_lease\<rparr> s1 [(''job-1'', row_of first_lease)]"
    unfolding lease_lib_def
    by (rule postgres_claim_outcome [OF _ inv demo_t_in_range(1) claim_demo [unfolded lease_lib_def]])
  with claim_demo show ?thesis by (auto simp: claim_outcome_def)
qed

text \<open>Lease documents survive the round trip: what the registry writes for an accepted lease is read
  back as that lease, from the in-memory copy of the document and (up to the order of the evidence
  fields) from the columns of the database row.\<close>

lemma lease_document_roundtrip:
  assumes "lease_ok l"
  shows "lease_from_document (std_lib h) (lease_to_dict l) = Inr l
    \<and> pg_parameters (lease_to_dict l) = Inr (row_of l)
    \<and> lease_from_document (std_lib h) (row_document (row_of l) (sort_keys (PDict (ls_evidence l))))
        = Inr (l\<lparr>ls_evidence := sort_key fst (ls_evidence l)\<rparr>)"
  using std.lease_from_to_dict [OF assms] pg_parameters_lease [OF assms] std.row_document_lease [OF assms] by simp

lemma lease_document_roundtrip_witness: "lease_from_document (std_lib id) (lease_to_dict first_lease) = Inr first_lease"
  using lease_document_roundtrip [OF first_lease_ok] by blast

text \<open>The in-memory store does not implement the production contract: asked to replace an expired
  lease, it writes over a terminal one of the expected identity, which the database refuses.\<close>

lemma memory_store_overwrites_terminal:
  assumes "lease_ok c" "ls_state c \<in> set terminal_states" "lease_ok l" "ls_job_key l = ls_job_key c"
    and "in_range now"
  shows "be_replace_if_expired (memory_store (std_lib h)) [(ls_job_key c, lease_to_dict c)] (ls_job_key c)
      (ls_lease_id c) now (lease_to_dict l) = Inr (True, [(ls_job_key c, lease_to_dict l)])
    \<and> be_replace_if_expired pg_store [(ls_job_key c, row_of c)] (ls_job_key c)
      (ls_lease_id c) now (lease_to_dict l) = Inr (False, [(ls_job_key c, row_of c)])"
proof -
  have na: "ls_state c \<notin> set active_states" using assms(2) lease_states_disjoint by blast
  then have "be_replace_if_expired (memory_store (std_lib h)) [(ls_job_key c, lease_to_dict c)] (ls_job_key c)
      (ls_lease_id c) now (lease_to_dict l) = Inr (True, [(ls_job_key c, lease_to_dict l)])"
    using std.lease_from_to_dict [OF assms(1)] assms(3)
    by (simp add: memory_store_def mem_replace_if_expired_def is_active_at_def)
  moreover have "be_replace_if_expired pg_store [(ls_job_key c, row_of c)] (ls_job_key c)
      (ls_lease_id c) now (lease_to_dict l) = Inr (False, [(ls_job_key c, row_of c)])"
    using na assms(4)
    by (simp add: postgres_store_def pg_replace_if_expired_def pg_update_def pg_parameters_lease [OF assms(3)])
      (simp add: row_of_def active_states_def)
  ultimately show ?thesis by blast
qed

lemma memory_store_overwrites_terminal_witness:
  "be_replace_if_expired (memory_store (std_lib id)) [(''job-1'', lease_to_dict done_lease)] ''job-1''
      ''lease/aa'' demo_t (lease_to_dict first_lease) = Inr (True, [(''job-1'', lease_to_dict first_lease)])"
  using memory_store_overwrites_terminal [OF done_lease_ok _ first_lease_ok _ demo_t_in_range(1), of id]
  by (simp add: done_lease_def first_lease_fields terminal_states_def)

end
