(* ===== verification/Slot_Contract.thy ===== *)
theory Slot_Contract
  imports Py_Json
begin

text \<open>
  Collection-slot identities and terminal evidence (\<open>dags/common/collection_slots/contract.py\<close>):
  the normalisers, expected slots and collection outcomes with their identities, and the documents
  written of them.  The lemmas show that an accepted outcome is in a consistent state, that the
  identity of a slot determines what it identifies, and that a document is accepted again and
  yields the same slot or outcome.
\<close>

section \<open>Normalisers\<close>

definition collection_states :: "string list" where
  "collection_states =
     [''observed'', ''source_empty_valid'', ''collection_failed'', ''not_scheduled'', ''missing_unknown'']"

definition recovery_states :: "string list" where
  "recovery_states = [''not_required'', ''pending'', ''recovered'', ''unrecoverable'']"

definition recovery_classes :: "string list" where
  "recovery_classes =
     [''raw_replay'', ''historical_query'', ''rolling_window'', ''full_refresh'', ''next_snapshot_diff'', ''none'']"

definition terminal_collection_states :: "string list" where
  "terminal_collection_states = [''observed'', ''source_empty_valid'', ''not_scheduled'']"

definition gap_required_states :: "string list" where
  "gap_required_states = [''collection_failed'', ''missing_unknown'']"

definition slot_canonical_json :: "pylib \<Rightarrow> pyobj \<Rightarrow> string result" where
  "slot_canonical_json L x =
     (case canonical_json L x of
        None \<Rightarrow> Inl (ValueError ''collection slot evidence must be JSON serializable'')
      | Some s \<Rightarrow> Inr s)"

definition slot_timestamp :: "pylib \<Rightarrow> pyobj \<Rightarrow> string \<Rightarrow> string result" where
  "slot_timestamp L v field =
     bind_result
       (coerce_utc L
          (ValueError (field @ '' must be an ISO timestamp''))
          (ValueError (field @ '' must be a datetime or ISO timestamp''))
          (ValueError (field @ '' must include timezone'')) v)
       (\<lambda>t. Inr (isoformat t))"

definition slot_text :: "pyobj \<Rightarrow> string \<Rightarrow> string result" where
  "slot_text v field =
     (case v of
        PStr s \<Rightarrow> if is_blank s then Inl (ValueError (field @ '' must be a non-empty string'')) else Inr s
      | _ \<Rightarrow> Inl (ValueError (field @ '' must be a non-empty string'')))"

text \<open>\<open>_text(..., required=False)\<close>.\<close>

definition slot_opt_text :: "pyobj \<Rightarrow> string \<Rightarrow> string option result" where
  "slot_opt_text v field =
     (case v of PNone \<Rightarrow> Inr None | _ \<Rightarrow> bind_result (slot_text v field) (\<lambda>s. Inr (Some s)))"

definition safe_code_pattern :: "string \<Rightarrow> bool" where
  "safe_code_pattern s \<longleftrightarrow> s \<noteq> [] \<and> list_all (char_in ''abcdefghijklmnopqrstuvwxyz0123456789_'') s"

definition slot_safe_code :: "pyobj \<Rightarrow> string \<Rightarrow> string option result" where
  "slot_safe_code v field =
     bind_result (slot_opt_text v field) (\<lambda>t.
     case t of
       None \<Rightarrow> Inr None
     | Some s \<Rightarrow> if safe_code_pattern s then Inr (Some s)
                 else Inl (ValueError (field @ '' must contain only lowercase letters, digits, and underscores'')))"

definition slot_enum :: "pyobj \<Rightarrow> string \<Rightarrow> string list \<Rightarrow> string result" where
  "slot_enum v field allowed =
     bind_result (slot_text v field) (\<lambda>s.
     if s \<notin> set allowed then Inl (ValueError (''unsupported '' @ field @ '': '' @ s)) else Inr s)"

definition slot_count :: "pyobj \<Rightarrow> string \<Rightarrow> int option result" where
  "slot_count v field =
     (case v of
        PNone \<Rightarrow> Inr None
      | PInt i \<Rightarrow> if i < 0 then Inl (ValueError (field @ '' must be a non-negative integer'')) else Inr (Some i)
      | _ \<Rightarrow> Inl (ValueError (field @ '' must be a non-negative integer'')))"

definition slot_grain :: "pylib \<Rightarrow> pyobj \<Rightarrow> pyobj pydict result" where
  "slot_grain L v =
     (case v of
        PDict _ \<Rightarrow>
          (case canonical_json L v of
             None \<Rightarrow> Inl (ValueError ''grain must be JSON serializable'')
           | Some text \<Rightarrow> (case json_loads L text of
               None \<Rightarrow> Inl (ValueError ''grain must be JSON serializable'')
             | Some (PDict d) \<Rightarrow> Inr d
             | Some _ \<Rightarrow> Inl (ValueError ''grain must be a JSON object'')))
      | _ \<Rightarrow> Inl (ValueError ''grain must be a JSON object''))"

definition slot_material ::
  "string \<Rightarrow> string \<Rightarrow> string \<Rightarrow> string \<Rightarrow> pyobj pydict \<Rightarrow> pyobj" where
  "slot_material version contract source slot_at grain = PDict
     [(''contract_version'', PStr version),
      (''collection_contract_id'', PStr contract),
      (''source_id'', PStr source),
      (''collection_slot_at'', PStr slot_at),
      (''grain'', PDict grain)]"

definition slot_id_for :: "pylib \<Rightarrow> pyobj \<Rightarrow> pyobj \<Rightarrow> pyobj \<Rightarrow> pyobj \<Rightarrow> pyobj \<Rightarrow> string result" where
  "slot_id_for L version contract source slot_at grain =
     bind_result (slot_text version ''contract_version'') (\<lambda>v.
     bind_result (slot_text contract ''collection_contract_id'') (\<lambda>c.
     bind_result (slot_text source ''source_id'') (\<lambda>s.
     bind_result (slot_timestamp L slot_at ''collection_slot_at'') (\<lambda>t.
     bind_result (slot_grain L grain) (\<lambda>g.
     bind_result (slot_canonical_json L (slot_material v c s t g)) (\<lambda>payload.
     Inr (sha256_hex L payload)))))))"

section \<open>Expected slots\<close>

record expected_slot =
  es_contract_version :: string
  es_slot_id :: string
  es_domain :: string
  es_contract_id :: string
  es_source_id :: string
  es_slot_at :: string
  es_grain :: "pyobj pydict"
  es_schedule_version :: string
  es_scheduled_at :: string
  es_deadline_at :: string
  es_is_scheduled :: bool
  es_boundary_type :: string
  es_boundary :: string
  es_declared_at :: string
  es_declared_by :: string

text \<open>The keyword arguments of \<open>ExpectedSlot.create\<close>.\<close>

record slot_args =
  sa_contract_version :: pyobj
  sa_domain :: pyobj
  sa_contract_id :: pyobj
  sa_source_id :: pyobj
  sa_slot_at :: pyobj
  sa_scheduled_at :: pyobj
  sa_deadline_at :: pyobj
  sa_grain :: pyobj
  sa_schedule_version :: pyobj
  sa_is_scheduled :: pyobj
  sa_boundary_type :: pyobj
  sa_boundary :: pyobj
  sa_declared_at :: pyobj
  sa_declared_by :: pyobj

definition expected_slot_create :: "pylib \<Rightarrow> slot_args \<Rightarrow> expected_slot result" where
  "expected_slot_create L a =
     (case sa_is_scheduled a of
        PBool is_scheduled \<Rightarrow>
          bind_result (slot_timestamp L (sa_slot_at a) ''collection_slot_at'') (\<lambda>slot_at.
          bind_result (slot_timestamp L (sa_scheduled_at a) ''scheduled_at'') (\<lambda>scheduled.
          bind_result (slot_timestamp L (sa_deadline_at a) ''deadline_at'') (\<lambda>deadline.
          if deadline < slot_at \<or> deadline < scheduled
          then Inl (ValueError ''deadline_at must not precede collection_slot_at or scheduled_at'')
          else bind_result (slot_grain L (sa_grain a)) (\<lambda>grain.
          bind_result (slot_text (sa_contract_version a) ''contract_version'') (\<lambda>version.
          bind_result (slot_text (sa_contract_id a) ''collection_contract_id'') (\<lambda>contract.
          bind_result (slot_text (sa_source_id a) ''source_id'') (\<lambda>source.
          bind_result (slot_id_for L (PStr version) (PStr contract) (PStr source) (PStr slot_at) (PDict grain)) (\<lambda>sid.
          bind_result (slot_text (sa_domain a) ''domain'') (\<lambda>domain.
          bind_result (slot_text (sa_schedule_version a) ''schedule_version'') (\<lambda>schedule.
          bind_result (slot_text (sa_boundary_type a) ''recovery_boundary_type'') (\<lambda>btype.
          bind_result (slot_text (sa_boundary a) ''recovery_boundary'') (\<lambda>boundary.
          bind_result (slot_timestamp L (sa_declared_at a) ''declared_at'') (\<lambda>declared_at.
          bind_result (slot_text (sa_declared_by a) ''declared_by'') (\<lambda>declared_by.
          Inr \<lparr>es_contract_version = version, es_slot_id = sid, es_domain = domain,
               es_contract_id = contract, es_source_id = source, es_slot_at = slot_at,
               es_grain = grain, es_schedule_version = schedule, es_scheduled_at = scheduled,
               es_deadline_at = deadline, es_is_scheduled = is_scheduled,
               es_boundary_type = btype, es_boundary = boundary,
               es_declared_at = declared_at, es_declared_by = declared_by\<rparr>))))))))))))))
      | _ \<Rightarrow> Inl (ValueError ''is_scheduled must be a bool''))"

definition es_grain_key :: "pylib \<Rightarrow> expected_slot \<Rightarrow> string result" where
  "es_grain_key L s =
     bind_result (slot_canonical_json L (PDict (es_grain s))) (\<lambda>text. Inr (sha256_hex L text))"

definition slot_create_kwargs :: "expected_slot \<Rightarrow> slot_args" where
  "slot_create_kwargs s =
     \<lparr>sa_contract_version = PStr (es_contract_version s), sa_domain = PStr (es_domain s),
      sa_contract_id = PStr (es_contract_id s), sa_source_id = PStr (es_source_id s),
      sa_slot_at = PStr (es_slot_at s), sa_scheduled_at = PStr (es_scheduled_at s),
      sa_deadline_at = PStr (es_deadline_at s), sa_grain = PDict (es_grain s),
      sa_schedule_version = PStr (es_schedule_version s), sa_is_scheduled = PBool (es_is_scheduled s),
      sa_boundary_type = PStr (es_boundary_type s), sa_boundary = PStr (es_boundary s),
      sa_declared_at = PStr (es_declared_at s), sa_declared_by = PStr (es_declared_by s)\<rparr>"

definition slot_to_document :: "pylib \<Rightarrow> expected_slot \<Rightarrow> pyobj pydict result" where
  "slot_to_document L s =
     bind_result (es_grain_key L s) (\<lambda>key.
     bind_result (slot_canonical_json L (PDict (es_grain s))) (\<lambda>text.
     Inr [(''contract_version'', PStr (es_contract_version s)),
          (''expected_slot_id'', PStr (es_slot_id s)),
          (''domain'', PStr (es_domain s)),
          (''collection_contract_id'', PStr (es_contract_id s)),
          (''source_id'', PStr (es_source_id s)),
          (''collection_slot_at'', PStr (es_slot_at s)),
          (''grain_key'', PStr key),
          (''grain_json'', PStr text),
          (''schedule_version'', PStr (es_schedule_version s)),
          (''scheduled_at'', PStr (es_scheduled_at s)),
          (''deadline_at'', PStr (es_deadline_at s)),
          (''is_scheduled'', PBool (es_is_scheduled s)),
          (''recovery_boundary_type'', PStr (es_boundary_type s)),
          (''recovery_boundary'', PStr (es_boundary s)),
          (''declared_at'', PStr (es_declared_at s)),
          (''declared_by'', PStr (es_declared_by s))]))"

section \<open>Collection outcomes\<close>

record collection_outcome =
  co_event_id :: string
  co_slot_id :: string
  co_event_type :: string
  co_collection_state :: string
  co_recovery_state :: string
  co_recovery_class :: string
  co_gap_reason :: "string option"
  co_dag_id :: string
  co_dag_run_id :: string
  co_task_id :: "string option"
  co_manifest_key :: "string option"
  co_object_count :: "int option"
  co_row_count :: "int option"
  co_result_code :: "string option"
  co_recovery_run_id :: "string option"
  co_recovered_at :: "string option"
  co_evidence_code :: "string option"
  co_event_at :: string

record outcome_args =
  oa_slot_id :: pyobj
  oa_collection_state :: pyobj
  oa_recovery_state :: pyobj
  oa_recovery_class :: pyobj
  oa_event_at :: pyobj
  oa_dag_id :: pyobj
  oa_dag_run_id :: pyobj
  oa_event_type :: pyobj
  oa_gap_reason :: pyobj
  oa_task_id :: pyobj
  oa_manifest_key :: pyobj
  oa_object_count :: pyobj
  oa_row_count :: pyobj
  oa_result_code :: pyobj
  oa_recovery_run_id :: pyobj
  oa_recovered_at :: pyobj
  oa_evidence_code :: pyobj

definition outcome_material ::
  "string \<Rightarrow> string \<Rightarrow> string \<Rightarrow> string \<Rightarrow> string \<Rightarrow> string \<Rightarrow> string \<Rightarrow> string option \<Rightarrow> string option \<Rightarrow> pyobj" where
  "outcome_material sid event_type cstate rstate rclass dag run task rrun = PDict
     [(''expected_slot_id'', PStr sid), (''event_type'', PStr event_type),
      (''collection_state'', PStr cstate), (''recovery_state'', PStr rstate),
      (''recovery_class'', PStr rclass), (''dag_id'', PStr dag), (''dag_run_id'', PStr run),
      (''task_id'', opt_obj task), (''recovery_run_id'', opt_obj rrun)]"

text \<open>The consistency of the three states with the gap reason and the recovery evidence.\<close>

definition outcome_state_check ::
  "string \<Rightarrow> string \<Rightarrow> string \<Rightarrow> string option \<Rightarrow> unit result" where
  "outcome_state_check cstate rstate rclass gap =
     (if (cstate \<in> set gap_required_states \<or> rstate = ''unrecoverable'') \<and> gap = None
      then Inl (ValueError ''gap_reason_code is required for failed or unrecoverable evidence'')
      else if cstate \<in> set terminal_collection_states \<and> (rstate \<noteq> ''not_required'' \<or> rclass \<noteq> ''none'')
      then Inl (ValueError
        ''observed, source_empty_valid, and not_scheduled require not_required/none recovery'')
      else if rstate = ''not_required'' \<and> rclass \<noteq> ''none''
      then Inl (ValueError ''not_required recovery must use recovery_class=none'')
      else if rstate = ''recovered'' \<and> rclass = ''none''
      then Inl (ValueError ''recovered evidence requires a recovery class'')
      else Inr ())"

definition recovery_evidence_check :: "string \<Rightarrow> string option \<Rightarrow> string option \<Rightarrow> unit result" where
  "recovery_evidence_check rstate run_id recovered_at =
     (if rstate = ''recovered'' \<and> (run_id = None \<or> recovered_at = None)
      then Inl (ValueError ''recovered evidence requires recovery_run_id and recovered_at'')
      else if rstate \<noteq> ''recovered'' \<and> (run_id \<noteq> None \<or> recovered_at \<noteq> None)
      then Inl (ValueError ''recovery evidence is only valid for recovery_state=recovered'')
      else Inr ())"

definition slot_opt_timestamp :: "pylib \<Rightarrow> pyobj \<Rightarrow> string \<Rightarrow> string option result" where
  "slot_opt_timestamp L v field =
     (case v of PNone \<Rightarrow> Inr None | _ \<Rightarrow> bind_result (slot_timestamp L v field) (\<lambda>s. Inr (Some s)))"

definition collection_outcome_create :: "pylib \<Rightarrow> outcome_args \<Rightarrow> collection_outcome result" where
  "collection_outcome_create L a =
     bind_result (slot_enum (oa_collection_state a) ''collection_state'' collection_states) (\<lambda>cstate.
     bind_result (slot_enum (oa_recovery_state a) ''recovery_state'' recovery_states) (\<lambda>rstate.
     bind_result (slot_enum (oa_recovery_class a) ''recovery_class'' recovery_classes) (\<lambda>rclass.
     bind_result (slot_opt_text (oa_gap_reason a) ''gap_reason_code'') (\<lambda>gap.
     bind_result (outcome_state_check cstate rstate rclass gap) (\<lambda>_.
     bind_result (slot_opt_text (oa_recovery_run_id a) ''recovery_run_id'') (\<lambda>rrun.
     bind_result (slot_opt_timestamp L (oa_recovered_at a) ''recovered_at'') (\<lambda>rat.
     bind_result (recovery_evidence_check rstate rrun rat) (\<lambda>_.
     bind_result (slot_text (oa_slot_id a) ''expected_slot_id'') (\<lambda>sid.
     bind_result (slot_text (oa_event_type a) ''event_type'') (\<lambda>etype.
     bind_result (slot_text (oa_dag_id a) ''dag_id'') (\<lambda>dag.
     bind_result (slot_text (oa_dag_run_id a) ''dag_run_id'') (\<lambda>run.
     bind_result (slot_opt_text (oa_task_id a) ''task_id'') (\<lambda>task.
     bind_result (slot_canonical_json L (outcome_material sid etype cstate rstate rclass dag run task rrun)) (\<lambda>payload.
     bind_result (slot_opt_text (oa_manifest_key a) ''raw_manifest_key'') (\<lambda>manifest.
     bind_result (slot_count (oa_object_count a) ''raw_object_count'') (\<lambda>objects.
     bind_result (slot_count (oa_row_count a) ''row_count'') (\<lambda>rows.
     bind_result (slot_opt_text (oa_result_code a) ''source_result_code'') (\<lambda>code.
     bind_result (slot_safe_code (oa_evidence_code a) ''recovery_evidence_code'') (\<lambda>evidence.
     bind_result (slot_timestamp L (oa_event_at a) ''event_at'') (\<lambda>event_at.
     Inr \<lparr>co_event_id = sha256_hex L payload, co_slot_id = sid, co_event_type = etype,
          co_collection_state = cstate, co_recovery_state = rstate, co_recovery_class = rclass,
          co_gap_reason = gap, co_dag_id = dag, co_dag_run_id = run, co_task_id = task,
          co_manifest_key = manifest, co_object_count = objects, co_row_count = rows,
          co_result_code = code, co_recovery_run_id = rrun, co_recovered_at = rat,
          co_evidence_code = evidence, co_event_at = event_at\<rparr>))))))))))))))))))))"

definition outcome_to_document :: "collection_outcome \<Rightarrow> pyobj pydict" where
  "outcome_to_document e =
     [(''event_id'', PStr (co_event_id e)),
      (''expected_slot_id'', PStr (co_slot_id e)),
      (''event_type'', PStr (co_event_type e)),
      (''collection_state'', PStr (co_collection_state e)),
      (''recovery_state'', PStr (co_recovery_state e)),
      (''recovery_class'', PStr (co_recovery_class e)),
      (''gap_reason_code'', opt_obj (co_gap_reason e)),
      (''dag_id'', PStr (co_dag_id e)),
      (''dag_run_id'', PStr (co_dag_run_id e)),
      (''task_id'', opt_obj (co_task_id e)),
      (''raw_manifest_key'', opt_obj (co_manifest_key e)),
      (''raw_object_count'', opt_int (co_object_count e)),
      (''row_count'', opt_int (co_row_count e)),
      (''source_result_code'', opt_obj (co_result_code e)),
      (''recovery_run_id'', opt_obj (co_recovery_run_id e)),
      (''recovered_at'', opt_obj (co_recovered_at e)),
      (''recovery_evidence_code'', opt_obj (co_evidence_code e)),
      (''event_at'', PStr (co_event_at e))]"

section \<open>Normalised values\<close>

lemma slot_text_Inr_iff [result_simps]: "slot_text v f = Inr s \<longleftrightarrow> v = PStr s \<and> \<not> is_blank s"
  by (auto simp: slot_text_def split: pyobj.splits)

lemma slot_text_PStr [simp]: "\<not> is_blank s \<Longrightarrow> slot_text (PStr s) f = Inr s"
  by (simp add: slot_text_def)

lemma slot_opt_text_Inr_iff [result_simps]:
  "slot_opt_text v f = Inr t \<longleftrightarrow> v = opt_obj t \<and> (\<forall>s. t = Some s \<longrightarrow> \<not> is_blank s)"
  by (cases t; cases v) (auto simp: slot_opt_text_def result_simps)

lemma slot_count_Inr_iff [result_simps]:
  "slot_count v f = Inr t \<longleftrightarrow> v = opt_int t \<and> (\<forall>i. t = Some i \<longrightarrow> 0 \<le> i)"
  by (cases t; cases v) (auto simp: slot_count_def)

lemma slot_safe_code_Inr_iff [result_simps]:
  "slot_safe_code v f = Inr t \<longleftrightarrow> v = opt_obj t \<and> (\<forall>s. t = Some s \<longrightarrow> \<not> is_blank s \<and> safe_code_pattern s)"
  by (cases t) (auto simp: slot_safe_code_def result_simps split: option.splits)

lemma slot_enum_Inr_iff [result_simps]:
  "slot_enum v f allowed = Inr s \<longleftrightarrow> v = PStr s \<and> \<not> is_blank s \<and> s \<in> set allowed"
  by (auto simp: slot_enum_def result_simps)

text \<open>A normalised timestamp prints an instant.\<close>

definition printed_instant :: "string \<Rightarrow> bool" where
  "printed_instant s \<longleftrightarrow> (\<exists>t. in_range t \<and> s = isoformat t)"

lemma slot_timestamp_printed: "slot_timestamp L v f = Inr s \<Longrightarrow> printed_instant s"
  by (auto simp: slot_timestamp_def result_simps printed_instant_def dest: coerce_utc_in_range)

lemma slot_opt_timestamp_Inr:
  "slot_opt_timestamp L v f = Inr t \<Longrightarrow> (v = PNone \<and> t = None) \<or> (\<exists>s. t = Some s \<and> printed_instant s)"
  by (cases v) (auto simp: slot_opt_timestamp_def result_simps dest: slot_timestamp_printed)

context iso_codec
begin

lemma slot_timestamp_again: "printed_instant s \<Longrightarrow> slot_timestamp L (PStr s) f = Inr s"
  by (auto simp: slot_timestamp_def printed_instant_def)

lemma slot_opt_timestamp_again:
  "slot_opt_timestamp L v f = Inr t \<Longrightarrow> slot_opt_timestamp L (opt_obj t) f = Inr t"
  by (drule slot_opt_timestamp_Inr) (auto simp: slot_opt_timestamp_def slot_timestamp_again)

end

lemma sort_keys_idem [simp]: "sort_keys (sort_keys x) = sort_keys x"
proof (induction x rule: sort_keys.induct)
  case (2 d)
  let ?s = "sort_key fst (map (\<lambda>(k, v). (k, sort_keys v)) d)"
  have "map (\<lambda>(k, v). (k, sort_keys v)) ?s = ?s"
    using 2 by (intro map_idI) auto
  moreover have "sort_key fst ?s = ?s" by (rule properties_for_sort_key) simp_all
  ultimately show ?case by simp
qed auto

context json_codec
begin

lemma slot_grain_plain:
  assumes "plain (PDict d)"
  obtains g where "slot_grain L (PDict d) = Inr g" "PDict g = sort_keys (PDict d)" "plain (PDict g)"
proof -
  obtain g where g: "PDict g = sort_keys (PDict d)" by simp
  have "plain (sort_keys (PDict d))" using assms plain_sort_keys by blast
  from json_loads_render [OF this] have "json_loads L (render L (sort_keys (PDict d))) = Some (PDict g)"
    unfolding g .
  then have "slot_grain L (PDict d) = Inr g"
    using canonical_json_plain [OF assms, of L] by (simp add: slot_grain_def)
  with g \<open>plain (sort_keys (PDict d))\<close> that show ?thesis by metis
qed

lemma slot_grain_again:
  assumes "plain v" "slot_grain L v = Inr g"
  shows "slot_grain L (PDict g) = Inr g \<and> plain (PDict g) \<and> sort_keys (PDict g) = PDict g"
proof -
  obtain d where v: "v = PDict d" using assms(2) by (cases v) (auto simp: slot_grain_def)
  obtain h where h: "slot_grain L (PDict d) = Inr h" "PDict h = sort_keys (PDict d)" "plain (PDict h)"
    using slot_grain_plain assms(1) v by blast
  with assms(2) v have g: "h = g" by simp
  have fix_g: "sort_keys (PDict g) = PDict g" using h(2) g sort_keys_idem by metis
  obtain k where "slot_grain L (PDict g) = Inr k" "PDict k = sort_keys (PDict g)"
    using slot_grain_plain h(3) g by blast
  with fix_g h(3) g show ?thesis by simp
qed

end

section \<open>Expected slots again\<close>

text \<open>What a created slot satisfies.\<close>

definition slot_wf :: "pylib \<Rightarrow> expected_slot \<Rightarrow> bool" where
  "slot_wf L s \<longleftrightarrow>
     printed_instant (es_slot_at s) \<and> printed_instant (es_scheduled_at s) \<and> printed_instant (es_deadline_at s)
     \<and> printed_instant (es_declared_at s)
     \<and> \<not> es_deadline_at s < es_slot_at s \<and> \<not> es_deadline_at s < es_scheduled_at s
     \<and> list_all (\<lambda>t. \<not> is_blank t) [es_contract_version s, es_contract_id s, es_source_id s, es_domain s,
          es_schedule_version s, es_boundary_type s, es_boundary s, es_declared_by s]
     \<and> slot_id_for L (PStr (es_contract_version s)) (PStr (es_contract_id s)) (PStr (es_source_id s))
         (PStr (es_slot_at s)) (PDict (es_grain s)) = Inr (es_slot_id s)"

lemma expected_slot_create_Inr:
  assumes "expected_slot_create L a = Inr s"
  shows "slot_wf L s" and "slot_grain L (sa_grain a) = Inr (es_grain s)"
proof -
  obtain b where b: "sa_is_scheduled a = PBool b"
    using assms by (cases "sa_is_scheduled a") (auto simp: expected_slot_create_def)
  from assms show "slot_grain L (sa_grain a) = Inr (es_grain s)"
    by (auto simp: expected_slot_create_def b bind_result_Inr_iff split: if_splits)
  from assms show "slot_wf L s"
    unfolding expected_slot_create_def b pyobj.case bind_result_Inr_iff
    by (elim exE conjE, split if_splits)
      (auto simp: slot_wf_def bind_result_Inr_iff slot_text_Inr_iff dest: slot_timestamp_printed)
qed

context json_codec
begin

lemma slot_wf_again:
  assumes "slot_wf L s" and "slot_grain L (PDict (es_grain s)) = Inr (es_grain s)"
  shows "expected_slot_create L (slot_create_kwargs s) = Inr s"
  using assms
  by (simp add: expected_slot_create_def slot_create_kwargs_def slot_wf_def slot_timestamp_again)

lemma expected_slot_create_again:
  assumes "expected_slot_create L a = Inr s" and "plain (sa_grain a)"
  shows "expected_slot_create L (slot_create_kwargs s) = Inr s"
  using slot_wf_again expected_slot_create_Inr [OF assms(1)] slot_grain_again [OF assms(2)] by blast

end

section \<open>Identities\<close>

lemma canonical_json_Inr:
  "slot_canonical_json L x = Inr s \<longleftrightarrow> json_ok x \<and> s = render L (sort_keys x)"
  by (auto simp: slot_canonical_json_def canonical_json_def)

lemma plain_slot_material [simp]: "plain (slot_material v c s t g) = plain (PDict g)"
  by (simp add: slot_material_def)

lemma opt_obj_plain [simp]: "plain (opt_obj t)" "plain (opt_int i)" "sort_keys (opt_obj t) = opt_obj t"
  "sort_keys (opt_int i) = opt_int i"
  by (cases t; simp) (cases i; simp | cases t; simp)+

lemma opt_obj_inj [simp]: "opt_obj s = opt_obj t \<longleftrightarrow> s = t" "opt_int i = opt_int j \<longleftrightarrow> i = j"
  by (cases s; cases t; simp) (cases i; cases j; simp)

lemma plain_outcome_material [simp]: "plain (outcome_material a b c d e f g h i)"
  by (simp add: outcome_material_def)

text \<open>The text a slot's identity is the digest of.\<close>

definition slot_payload :: "pylib \<Rightarrow> expected_slot \<Rightarrow> string" where
  "slot_payload L s = render L (sort_keys (slot_material (es_contract_version s) (es_contract_id s)
     (es_source_id s) (es_slot_at s) (es_grain s)))"

context json_codec
begin

lemma slot_wf_id:
  assumes "slot_wf L s" "slot_grain L (PDict (es_grain s)) = Inr (es_grain s)"
  shows "es_slot_id s = sha256_hex L (slot_payload L s)"
  using assms
  by (auto simp: slot_wf_def slot_id_for_def bind_result_Inr_iff slot_text_Inr_iff slot_timestamp_again
      canonical_json_Inr slot_payload_def)

end

lemma slot_payload_inj:
  assumes "plain (PDict (es_grain s))" "plain (PDict (es_grain t))" "slot_payload L s = slot_payload L t"
  shows "es_contract_version s = es_contract_version t \<and> es_contract_id s = es_contract_id t
    \<and> es_source_id s = es_source_id t \<and> es_slot_at s = es_slot_at t
    \<and> sort_keys (PDict (es_grain s)) = sort_keys (PDict (es_grain t))"
proof -
  let ?m = "\<lambda>s. slot_material (es_contract_version s) (es_contract_id s) (es_source_id s) (es_slot_at s) (es_grain s)"
  have "sort_keys (?m s) = sort_keys (?m t)"
    using assms render_inj [of "sort_keys (?m s)" "sort_keys (?m t)" L]
    by (simp only: slot_payload_def plain_sort_keys plain_slot_material)
  note get = sort_keys_eq_get [OF this [unfolded slot_material_def]]
  show ?thesis
    using get [of "''contract_version''"] get [of "''collection_contract_id''"] get [of "''source_id''"]
      get [of "''collection_slot_at''"] get [of "''grain''"]
    by (simp add: dict_wf_def del: sort_keys.simps(2))
qed

section \<open>Outcomes again\<close>

text \<open>The consistency of an outcome's states, counts and evidence.\<close>

definition outcome_consistent :: "collection_outcome \<Rightarrow> bool" where
  "outcome_consistent e \<longleftrightarrow>
     co_collection_state e \<in> set collection_states \<and> co_recovery_state e \<in> set recovery_states
     \<and> co_recovery_class e \<in> set recovery_classes
     \<and> (co_collection_state e \<in> set gap_required_states \<or> co_recovery_state e = ''unrecoverable''
          \<longrightarrow> co_gap_reason e \<noteq> None)
     \<and> (co_collection_state e \<in> set terminal_collection_states
          \<longrightarrow> co_recovery_state e = ''not_required'' \<and> co_recovery_class e = ''none'')
     \<and> (co_recovery_state e = ''not_required'' \<longrightarrow> co_recovery_class e = ''none'')
     \<and> (co_recovery_state e = ''recovered'' \<longleftrightarrow> co_recovery_run_id e \<noteq> None)
     \<and> (co_recovery_state e = ''recovered'' \<longleftrightarrow> co_recovered_at e \<noteq> None)
     \<and> (co_recovery_state e = ''recovered'' \<longrightarrow> co_recovery_class e \<noteq> ''none'')
     \<and> (\<forall>n. co_object_count e = Some n \<longrightarrow> 0 \<le> n) \<and> (\<forall>n. co_row_count e = Some n \<longrightarrow> 0 \<le> n)"

definition outcome_kwargs :: "collection_outcome \<Rightarrow> outcome_args" where
  "outcome_kwargs e =
     \<lparr>oa_slot_id = PStr (co_slot_id e), oa_collection_state = PStr (co_collection_state e),
      oa_recovery_state = PStr (co_recovery_state e), oa_recovery_class = PStr (co_recovery_class e),
      oa_event_at = PStr (co_event_at e), oa_dag_id = PStr (co_dag_id e),
      oa_dag_run_id = PStr (co_dag_run_id e), oa_event_type = PStr (co_event_type e),
      oa_gap_reason = opt_obj (co_gap_reason e), oa_task_id = opt_obj (co_task_id e),
      oa_manifest_key = opt_obj (co_manifest_key e), oa_object_count = opt_int (co_object_count e),
      oa_row_count = opt_int (co_row_count e), oa_result_code = opt_obj (co_result_code e),
      oa_recovery_run_id = opt_obj (co_recovery_run_id e), oa_recovered_at = opt_obj (co_recovered_at e),
      oa_evidence_code = opt_obj (co_evidence_code e)\<rparr>"

text \<open>The conditions of the constructor, on the outcome it returns.\<close>

definition outcome_wf :: "pylib \<Rightarrow> collection_outcome \<Rightarrow> bool" where
  "outcome_wf L e \<longleftrightarrow>
     list_all (\<lambda>t. \<not> is_blank t) [co_slot_id e, co_event_type e, co_collection_state e, co_recovery_state e,
        co_recovery_class e, co_dag_id e, co_dag_run_id e]
     \<and> list_all (\<lambda>v. \<forall>t. v = Some t \<longrightarrow> \<not> is_blank t) [co_gap_reason e, co_task_id e, co_manifest_key e,
        co_result_code e, co_recovery_run_id e, co_evidence_code e]
     \<and> co_collection_state e \<in> set collection_states \<and> co_recovery_state e \<in> set recovery_states
     \<and> co_recovery_class e \<in> set recovery_classes
     \<and> outcome_state_check (co_collection_state e) (co_recovery_state e) (co_recovery_class e) (co_gap_reason e) = Inr ()
     \<and> recovery_evidence_check (co_recovery_state e) (co_recovery_run_id e) (co_recovered_at e) = Inr ()
     \<and> (\<forall>t. co_recovered_at e = Some t \<longrightarrow> printed_instant t) \<and> printed_instant (co_event_at e)
     \<and> (\<forall>t. co_evidence_code e = Some t \<longrightarrow> safe_code_pattern t)
     \<and> (\<forall>n. co_object_count e = Some n \<longrightarrow> 0 \<le> n) \<and> (\<forall>n. co_row_count e = Some n \<longrightarrow> 0 \<le> n)
     \<and> co_event_id e = sha256_hex L (render L (sort_keys (outcome_material (co_slot_id e) (co_event_type e)
          (co_collection_state e) (co_recovery_state e) (co_recovery_class e) (co_dag_id e) (co_dag_run_id e)
          (co_task_id e) (co_recovery_run_id e))))"

lemma collection_outcome_create_Inr:
  assumes "collection_outcome_create L a = Inr e"
  shows "outcome_wf L e"
  using assms
  unfolding collection_outcome_create_def bind_result_Inr_iff slot_enum_Inr_iff slot_text_Inr_iff
    slot_opt_text_Inr_iff slot_count_Inr_iff slot_safe_code_Inr_iff canonical_json_Inr
  by (elim exE conjE)
    (auto simp: outcome_wf_def dest: slot_timestamp_printed slot_opt_timestamp_Inr)

lemma outcome_wf_consistent: "outcome_wf L e \<Longrightarrow> outcome_consistent e"
  by (auto simp: outcome_wf_def outcome_consistent_def outcome_state_check_def recovery_evidence_check_def
      split: if_splits)

context iso_codec
begin

lemma outcome_wf_again:
  assumes "outcome_wf L e"
  shows "collection_outcome_create L (outcome_kwargs e) = Inr e"
proof -
  have txt_ok: "slot_opt_text (opt_obj t) f = Inr t" if "\<forall>s. t = Some s \<longrightarrow> \<not> is_blank s" for t f
    using that by (simp add: slot_opt_text_Inr_iff)
  have enum: "slot_enum (PStr s) f A = Inr s" if "\<not> is_blank s" "s \<in> set A" for s f A
    using that by (simp add: slot_enum_Inr_iff)
  have cnt: "slot_count (opt_int t) f = Inr t" if "\<forall>i. t = Some i \<longrightarrow> 0 \<le> i" for t f
    using that by (simp add: slot_count_Inr_iff)
  have code: "slot_safe_code (opt_obj t) f = Inr t"
    if "\<forall>s. t = Some s \<longrightarrow> \<not> is_blank s" "\<forall>s. t = Some s \<longrightarrow> safe_code_pattern s" for t f
    using that by (simp add: slot_safe_code_Inr_iff)
  have ts: "slot_opt_timestamp L (opt_obj t) f = Inr t" if "\<forall>s. t = Some s \<longrightarrow> printed_instant s" for t f
    using that by (cases t) (simp_all add: slot_opt_timestamp_def slot_timestamp_again)
  have payload: "slot_canonical_json L (outcome_material a b c d e f g h i)
      = Inr (render L (sort_keys (outcome_material a b c d e f g h i)))" for a b c d e f g h i
    by (simp add: slot_canonical_json_def canonical_json_plain)
  show ?thesis
    using assms
    by (simp add: outcome_wf_def outcome_kwargs_def collection_outcome_create_def txt_ok enum cnt code ts payload
        slot_timestamp_again)
qed

end

section \<open>Properties\<close>

text \<open>A slot of one forecast grid, for the applications.\<close>

definition demo_slot_args :: slot_args where
  "demo_slot_args =
     \<lparr>sa_contract_version = PStr ''v1'', sa_domain = PStr ''weather'', sa_contract_id = PStr ''weather.v1'',
      sa_source_id = PStr ''kma'', sa_slot_at = PTime (Aware 63900000000000000),
      sa_scheduled_at = PTime (Aware 63900000000000000), sa_deadline_at = PTime (Aware 63900003600000000),
      sa_grain = PDict [(''place_id'', PStr ''p1''), (''nx'', PInt 60), (''ny'', PInt 127)],
      sa_schedule_version = PStr ''s1'', sa_is_scheduled = PBool True,
      sa_boundary_type = PStr ''b'', sa_boundary = PStr ''b1'',
      sa_declared_at = PTime (Aware 63900000000000000), sa_declared_by = PStr ''dag''\<rparr>"

lemma slot_instants [simp]: "in_range 63900000000000000" "in_range 63900003600000000"
  by (simp_all add: in_range_def max_instant_def us_per_day_def)

lemma not_blank_demo [simp]: "\<not> is_blank ''v1''" "\<not> is_blank ''weather''" "\<not> is_blank ''weather.v1''"
  "\<not> is_blank ''kma''" "\<not> is_blank ''s1''" "\<not> is_blank ''b''" "\<not> is_blank ''b1''" "\<not> is_blank ''dag''"
  "\<not> is_blank ''p1''" "\<not> is_blank ''run''" "\<not> is_blank ''observed''" "\<not> is_blank ''not_required''"
  "\<not> is_blank ''none''" "\<not> is_blank ''terminal''" "\<not> is_blank ''slot''"
  by (simp_all add: is_blank.simps ascii_space_def)

lemma slot_timestamp_Aware [simp]: "in_range t \<Longrightarrow> slot_timestamp L (PTime (Aware t)) f = Inr (isoformat t)"
  by (simp add: slot_timestamp_def)

text \<open>The same slot at another time, or declared by another task.\<close>

definition demo_slot_at :: "int \<Rightarrow> string \<Rightarrow> slot_args" where
  "demo_slot_at t who = demo_slot_args\<lparr>sa_slot_at := PTime (Aware t), sa_declared_by := PStr who\<rparr>"

lemma demo_slots:
  "\<exists>g. \<forall>t who. in_range t \<and> t \<le> 63900003600000000 \<and> \<not> is_blank who \<longrightarrow>
     (\<exists>s. expected_slot_create (std_lib h) (demo_slot_at t who) = Inr s \<and> es_slot_at s = isoformat t \<and> es_declared_by s = who
        \<and> es_grain s = g \<and> es_contract_version s = ''v1'' \<and> es_contract_id s = ''weather.v1'' \<and> es_source_id s = ''kma'')"
proof -
  obtain g where g: "slot_grain (std_lib h) (sa_grain demo_slot_args) = Inr g"
    "slot_grain (std_lib h) (PDict g) = Inr g" "plain (PDict g)"
  proof -
    have p: "plain (PDict [(''place_id'', PStr ''p1''), (''nx'', PInt 60), (''ny'', PInt 127)])" by simp
    from std.slot_grain_plain [OF p] obtain g where
      "slot_grain (std_lib h) (sa_grain demo_slot_args) = Inr g" by (auto simp: demo_slot_args_def)
    with std.slot_grain_again [OF _ this] p that show ?thesis by (auto simp: demo_slot_args_def)
  qed
  have order: "\<not> isoformat 63900003600000000 < isoformat t" if "in_range t" "t \<le> 63900003600000000" for t
    using that by (subst isoformat_less_iff) simp_all
  have again: "slot_timestamp (std_lib h) (PStr (isoformat t)) f = Inr (isoformat t)" if "in_range t" for t f
    by (rule std.slot_timestamp_again) (unfold printed_instant_def, rule exI [of _ t], simp add: that)
  from g have json: "slot_canonical_json (std_lib h) (slot_material ''v1'' ''weather.v1'' ''kma'' (isoformat t) g)
      = Inr (render (std_lib h) (sort_keys (slot_material ''v1'' ''weather.v1'' ''kma'' (isoformat t) g)))" for t
    by (simp add: slot_canonical_json_def canonical_json_plain)
  show ?thesis
    by (rule exI [of _ g])
      (use g json order again in \<open>simp add: expected_slot_create_def demo_slot_at_def demo_slot_args_def slot_id_for_def\<close>)
qed

lemma demo_time_le: "(63900000000000000 :: int) \<le> 63900003600000000"
  by simp

lemma demo_slot: "\<exists>s. expected_slot_create (std_lib h) demo_slot_args = Inr s"
proof -
  have "demo_slot_at 63900000000000000 ''dag'' = demo_slot_args" by (simp add: demo_slot_at_def demo_slot_args_def)
  with demo_slots [of h] show ?thesis by (metis slot_instants(1) not_blank_demo(8) demo_time_le)
qed

lemma demo_grain_plain: "plain (sa_grain demo_slot_args)"
  by (simp add: demo_slot_args_def)

text \<open>C20: The identity of an expected slot identifies it: when the grains are made of text, integers, booleans,
  lists and dictionaries and the digest does not collide on the two payloads, two slots have one identity exactly
  when they have the same contract version, contract, source, slot time and grain; so a collector and a
  reconciler that plan the same cell agree on its identity, and no two different cells share one.\<close>

theorem slot_identity_determines_cell:
  assumes "expected_slot_create (std_lib h) a = Inr s" "expected_slot_create (std_lib h) b = Inr t"
    and "plain (sa_grain a)" "plain (sa_grain b)"
    and "inj_on h {slot_payload (std_lib h) s, slot_payload (std_lib h) t}"
  shows "es_slot_id s = es_slot_id t \<longleftrightarrow>
     es_contract_version s = es_contract_version t \<and> es_contract_id s = es_contract_id t
     \<and> es_source_id s = es_source_id t \<and> es_slot_at s = es_slot_at t \<and> es_grain s = es_grain t"
proof -
  note s = std.slot_grain_again [OF assms(3) expected_slot_create_Inr(2) [OF assms(1)]]
  note t = std.slot_grain_again [OF assms(4) expected_slot_create_Inr(2) [OF assms(2)]]
  have ids: "es_slot_id s = h (slot_payload (std_lib h) s)" "es_slot_id t = h (slot_payload (std_lib h) t)"
    using std.slot_wf_id [OF expected_slot_create_Inr(1) [OF assms(1)]] s
      std.slot_wf_id [OF expected_slot_create_Inr(1) [OF assms(2)]] t by simp_all
  have same: "es_slot_id s = es_slot_id t \<longleftrightarrow> slot_payload (std_lib h) s = slot_payload (std_lib h) t"
    unfolding ids by (rule inj_on_eq_iff [OF assms(5)]) simp_all
  have grain: "es_grain s = es_grain t" if "sort_keys (PDict (es_grain s)) = sort_keys (PDict (es_grain t))"
    using that s t by (metis pyobj.inject(6))
  show ?thesis unfolding same
  proof
    assume "slot_payload (std_lib h) s = slot_payload (std_lib h) t"
    from slot_payload_inj [OF _ _ this] s t grain
    show "es_contract_version s = es_contract_version t \<and> es_contract_id s = es_contract_id t
      \<and> es_source_id s = es_source_id t \<and> es_slot_at s = es_slot_at t \<and> es_grain s = es_grain t" by blast
  qed (simp only: slot_payload_def)
qed

lemma slot_identity_determines_cell_witness:
  "\<exists>s t u. expected_slot_create (std_lib id) (demo_slot_at 63900000000000000 ''dag'') = Inr s
     \<and> expected_slot_create (std_lib id) (demo_slot_at 63900003600000000 ''dag'') = Inr t
     \<and> expected_slot_create (std_lib id) (demo_slot_at 63900000000000000 ''run'') = Inr u
     \<and> es_slot_id s \<noteq> es_slot_id t \<and> s \<noteq> u \<and> es_slot_id s = es_slot_id u"
proof -
  obtain s t u where s: "expected_slot_create (std_lib id) (demo_slot_at 63900000000000000 ''dag'') = Inr s"
      "es_slot_at s = isoformat 63900000000000000" "es_declared_by s = ''dag''"
    and t: "expected_slot_create (std_lib id) (demo_slot_at 63900003600000000 ''dag'') = Inr t"
      "es_slot_at t = isoformat 63900003600000000"
    and u: "expected_slot_create (std_lib id) (demo_slot_at 63900000000000000 ''run'') = Inr u"
      "es_slot_at u = isoformat 63900000000000000" "es_declared_by u = ''run''"
    and same: "es_grain u = es_grain s" "es_contract_version u = es_contract_version s" "es_contract_id u = es_contract_id s"
      "es_source_id u = es_source_id s"
    using demo_slots [of id] slot_instants not_blank_demo(8,10) demo_time_le by (metis order_refl)
  have grain: "plain (sa_grain (demo_slot_at t who))" for t who by (simp add: demo_slot_at_def demo_slot_args_def)
  have "es_slot_id s \<noteq> es_slot_id t"
    unfolding slot_identity_determines_cell [OF s(1) t(1) grain grain inj_on_id] s(2) t(2) by (simp add: isoformat_eq_iff)
  moreover have "es_slot_id s = es_slot_id u"
    unfolding slot_identity_determines_cell [OF s(1) u(1) grain grain inj_on_id] by (simp add: s(2) u(2) same)
  moreover have "s \<noteq> u" using s(3) u(3) by auto
  ultimately show ?thesis using s(1) t(1) u(1) by blast
qed

text \<open>C22: A declared slot has an ordered window and survives its own round trip: its deadline is an
  instant not before its slot time and its schedule (the code compares the printed instants), and
  creating a slot from its own fields gives the same slot with the same identity.\<close>

theorem slot_window_and_roundtrip:
  assumes "expected_slot_create (std_lib h) a = Inr s" and "plain (sa_grain a)"
  shows "(\<exists>slot_at sched deadline. in_range slot_at \<and> in_range sched \<and> in_range deadline
      \<and> es_slot_at s = isoformat slot_at \<and> es_scheduled_at s = isoformat sched
      \<and> es_deadline_at s = isoformat deadline \<and> slot_at \<le> deadline \<and> sched \<le> deadline)
    \<and> expected_slot_create (std_lib h) (slot_create_kwargs s) = Inr s"
proof -
  note wf = expected_slot_create_Inr(1) [OF assms(1)]
  then obtain x y z where "in_range x" "in_range y" "in_range z" "es_slot_at s = isoformat x"
    "es_scheduled_at s = isoformat y" "es_deadline_at s = isoformat z"
    by (auto simp: slot_wf_def printed_instant_def)
  moreover from this wf have "x \<le> z" "y \<le> z"
    by (auto simp: slot_wf_def isoformat_less_iff)
  ultimately show ?thesis using std.expected_slot_create_again [OF assms] by blast
qed

lemma slot_window_and_roundtrip_witness:
  "\<exists>s. expected_slot_create (std_lib id) demo_slot_args = Inr s
     \<and> expected_slot_create (std_lib id) (slot_create_kwargs s) = Inr s"
proof -
  obtain s where s: "expected_slot_create (std_lib id) demo_slot_args = Inr s" using demo_slot by blast
  with slot_window_and_roundtrip [OF s demo_grain_plain] show ?thesis by blast
qed

definition demo_outcome_args :: outcome_args where
  "demo_outcome_args =
     \<lparr>oa_slot_id = PStr ''slot'', oa_collection_state = PStr ''observed'',
      oa_recovery_state = PStr ''not_required'', oa_recovery_class = PStr ''none'',
      oa_event_at = PTime (Aware 63900000000000000), oa_dag_id = PStr ''dag'', oa_dag_run_id = PStr ''run'',
      oa_event_type = PStr ''terminal'', oa_gap_reason = PNone, oa_task_id = PNone, oa_manifest_key = PNone,
      oa_object_count = PNone, oa_row_count = PInt 3, oa_result_code = PNone, oa_recovery_run_id = PNone,
      oa_recovered_at = PNone, oa_evidence_code = PNone\<rparr>"

lemma demo_outcome:
  assumes "in_range t"
  shows "\<exists>e. collection_outcome_create (std_lib h) (demo_outcome_args\<lparr>oa_event_at := PTime (Aware t)\<rparr>) = Inr e
    \<and> co_event_at e = isoformat t"
  using assms
  by (simp add: collection_outcome_create_def demo_outcome_args_def slot_enum_def slot_opt_text_def
      slot_safe_code_def slot_count_def slot_opt_timestamp_def outcome_state_check_def recovery_evidence_check_def
      slot_canonical_json_def canonical_json_plain collection_states_def recovery_states_def recovery_classes_def
      gap_required_states_def terminal_collection_states_def)

text \<open>C21: An accepted collection outcome is in a consistent state: its states are known ones, failures and
  unrecoverable losses have a reason, terminal collections need no recovery, recovery evidence is present
  exactly for recovered outcomes, and counts are not negative; and it is accepted again, unchanged.\<close>

theorem accepted_outcome_is_consistent:
  assumes "collection_outcome_create (std_lib h) a = Inr e"
  shows "outcome_consistent e \<and> collection_outcome_create (std_lib h) (outcome_kwargs e) = Inr e"
  using outcome_wf_consistent std.outcome_wf_again collection_outcome_create_Inr [OF assms] by blast

lemma accepted_outcome_is_consistent_witness:
  "\<exists>e. collection_outcome_create (std_lib id) (demo_outcome_args\<lparr>oa_event_at := PTime (Aware 63900000000000000)\<rparr>) = Inr e
     \<and> outcome_consistent e"
proof -
  obtain e where e: "collection_outcome_create (std_lib id)
      (demo_outcome_args\<lparr>oa_event_at := PTime (Aware 63900000000000000)\<rparr>) = Inr e"
    using demo_outcome [of 63900000000000000 id] by auto
  with accepted_outcome_is_consistent [OF e] show ?thesis by blast
qed

end
