(* ===== verification/Py_Text.thy ===== *)
theory Py_Text
  imports Py_Json
begin

text \<open>
  Operations on text that several components share: \<open>strip\<close>, joining and splitting at a separator,
  object-key segments, percent encoding, and padded numbers.  Text is its UTF-8 bytes.  The lemmas
  show when the operations do nothing, and that joined and quoted segments can be told apart.
\<close>

section \<open>Stripping white space\<close>

fun lstrip :: "string \<Rightarrow> string" where
  "lstrip [] = []"
| "lstrip [a] = (if ascii_space a then [] else [a])"
| "lstrip [a, b] =
     (if ascii_space a then lstrip [b]
      else if wide_space2 (of_char a) (of_char b) then [] else [a, b])"
| "lstrip (a # b # c # s) =
     (if ascii_space a then lstrip (b # c # s)
      else if wide_space2 (of_char a) (of_char b) then lstrip (c # s)
      else if wide_space3 (of_char a) (of_char b) (of_char c) then lstrip s
      else a # b # c # s)"

text \<open>The same from the end, on the reversed text.\<close>

fun rstrip_rev :: "string \<Rightarrow> string" where
  "rstrip_rev [] = []"
| "rstrip_rev [a] = (if ascii_space a then [] else [a])"
| "rstrip_rev [b, a] =
     (if ascii_space b then rstrip_rev [a]
      else if wide_space2 (of_char a) (of_char b) then [] else [b, a])"
| "rstrip_rev (c # b # a # s) =
     (if ascii_space c then rstrip_rev (b # a # s)
      else if wide_space2 (of_char b) (of_char c) then rstrip_rev (a # s)
      else if wide_space3 (of_char a) (of_char b) (of_char c) then rstrip_rev s
      else c # b # a # s)"

definition py_strip :: "string \<Rightarrow> string" where
  "py_strip s = rev (rstrip_rev (rev (lstrip s)))"

declare lstrip.simps [simp del] rstrip_rev.simps [simp del]

lemma lstrip_Nil_iff: "lstrip s = [] \<longleftrightarrow> is_blank s"
  by (induction s rule: lstrip.induct)
    (simp_all add: lstrip.simps is_blank.simps del: wide_space2.simps wide_space3.simps)

text \<open>Printable ASCII text other than the blank is not white space.\<close>

definition graphic :: "char \<Rightarrow> bool" where
  "graphic c \<longleftrightarrow> 33 \<le> (of_char c :: nat) \<and> (of_char c :: nat) \<le> 126"

lemma graphic_no_space: "graphic c \<Longrightarrow> \<not> ascii_space c"
  by (auto simp: graphic_def ascii_space_def Let_def)

lemma lstrip_graphic: "graphic c \<Longrightarrow> lstrip (c # s) = c # s"
  by (cases "c # s" rule: lstrip.cases) (auto simp: lstrip.simps graphic_no_space graphic_def)

lemma rstrip_graphic: "graphic c \<Longrightarrow> rstrip_rev (c # s) = c # s"
  by (cases "c # s" rule: rstrip_rev.cases) (auto simp: rstrip_rev.simps graphic_no_space graphic_def)

lemma py_strip_graphic:
  assumes "s \<noteq> []" "list_all graphic s"
  shows "py_strip s = s"
proof -
  have "lstrip s = s" using assms by (cases s) (auto simp: lstrip_graphic)
  moreover have "rstrip_rev (rev s) = rev s"
    using assms by (cases "rev s") (auto simp: rstrip_graphic list_all_iff)
  ultimately show ?thesis by (simp add: py_strip_def)
qed

lemma is_blank_graphic: "graphic c \<Longrightarrow> \<not> is_blank (c # s)"
  by (simp add: lstrip_graphic flip: lstrip_Nil_iff)

lemma not_blank_graphic: "s \<noteq> [] \<Longrightarrow> list_all graphic s \<Longrightarrow> \<not> is_blank s"
  by (cases s) (auto simp: is_blank_graphic)

section \<open>Segments of object keys\<close>

definition in_range_char :: "nat \<Rightarrow> nat \<Rightarrow> char \<Rightarrow> bool" where
  "in_range_char a b c \<longleftrightarrow> a \<le> (of_char c :: nat) \<and> (of_char c :: nat) \<le> b"

definition alnum_char :: "char \<Rightarrow> bool" where
  "alnum_char c \<longleftrightarrow> in_range_char 48 57 c \<or> in_range_char 65 90 c \<or> in_range_char 97 122 c"

definition continuation_byte :: "char \<Rightarrow> bool" where
  "continuation_byte c \<longleftrightarrow> in_range_char 128 191 c"

text \<open>\<open>re.sub("[^...]", "-", s)\<close>: one dash for each code point outside the class.\<close>

definition dash_unsafe :: "(char \<Rightarrow> bool) \<Rightarrow> string \<Rightarrow> string" where
  "dash_unsafe safe s =
     map (\<lambda>c. if safe c then c else CHR ''-'') (filter (\<lambda>c. safe c \<or> \<not> continuation_byte c) s)"

lemma dash_unsafe_id: "list_all safe s \<Longrightarrow> dash_unsafe safe s = s"
  by (induction s) (simp_all add: dash_unsafe_def)

lemma dash_unsafe_safe: "safe CHR ''-'' \<Longrightarrow> list_all safe (dash_unsafe safe s)"
  by (auto simp: dash_unsafe_def list_all_iff)

text \<open>Segments without the separator can be told apart in the joined key.\<close>

lemma str_join_eq_iff:
  assumes "list_all (\<lambda>s. c \<notin> set s) xs" "list_all (\<lambda>s. c \<notin> set s) ys" "xs \<noteq> []" "ys \<noteq> []"
  shows "str_join [c] xs = str_join [c] ys \<longleftrightarrow> xs = ys"
proof -
  have split: "a @ c # u = b @ c # v \<longleftrightarrow> a = b \<and> u = v" if "c \<notin> set a" "c \<notin> set b" for a b u v
    using that by (induction a arbitrary: b) (case_tac b; auto)+
  have sep: "c \<in> set (str_join [c] (x # y # zs))" for x y zs by simp
  show ?thesis using assms
  proof (induction "[c]" xs arbitrary: ys rule: str_join.induct)
    case (2 s)
    then obtain y ys' where ys: "ys = y # ys'" by (cases ys) auto
    show ?case
    proof (cases ys')
      case (Cons z zs)
      have "str_join [c] (y # z # zs) \<noteq> s" using sep [of y z zs] 2(1) by auto
      then show ?thesis using ys Cons by auto
    qed (use ys in simp)
  next
    case (3 s t ts)
    then obtain y ys' where ys: "ys = y # ys'" by (cases ys) auto
    show ?case
    proof (cases ys')
      case Nil
      then show ?thesis using 3 ys by auto
    next
      case (Cons z zs)
      then show ?thesis using 3(1) [of "z # zs"] 3(2-) ys by (simp add: split)
    qed
  qed simp
qed

section \<open>Numbers in text\<close>

lemma utf8_head_shorter: "utf8_head s = Some (n, r) \<Longrightarrow> length r < length s"
  by (cases s) (auto simp: utf8_head_def split: if_splits list.splits)

text \<open>The code points of a text, and the value of a decimal digit of any script.\<close>

function code_points :: "string \<Rightarrow> nat list" where
  "code_points s = (case utf8_head s of None \<Rightarrow> [] | Some (n, r) \<Rightarrow> n # code_points r)"
  by pat_completeness auto
termination
  by (relation "measure length") (auto dest: utf8_head_shorter)

declare code_points.simps [simp del]

definition digit_value :: "nat \<Rightarrow> nat option" where
  "digit_value n = map_option (\<lambda>z. n - z) (find (\<lambda>z. z \<le> n \<and> n < z + 10) digit_zeros)"

text \<open>\<open>int(text)\<close>: white space around, a sign, digits with single underscores between them.\<close>

fun int_digits :: "int \<Rightarrow> nat list \<Rightarrow> int option" where
  "int_digits acc [] = Some acc"
| "int_digits acc (p # ps) =
     (if p = 95 then (case ps of q # qs \<Rightarrow>
          (case digit_value q of Some d \<Rightarrow> int_digits (10 * acc + int d) qs | None \<Rightarrow> None)
        | [] \<Rightarrow> None)
      else (case digit_value p of Some d \<Rightarrow> int_digits (10 * acc + int d) ps | None \<Rightarrow> None))"

definition unsigned_int :: "nat list \<Rightarrow> int option" where
  "unsigned_int ps = (case ps of [] \<Rightarrow> None | p # _ \<Rightarrow> if p = 95 then None else int_digits 0 ps)"

definition py_int_text :: "string \<Rightarrow> int option" where
  "py_int_text s = (case code_points (py_strip s) of
      [] \<Rightarrow> None
    | p # ps \<Rightarrow> if p = 43 then unsigned_int ps
               else if p = 45 then map_option uminus (unsigned_int ps)
               else unsigned_int (p # ps))"

definition truncate_rat :: "rat \<Rightarrow> int" where
  "truncate_rat r = (if r < 0 then - floor (- r) else floor r)"

text \<open>\<open>int(value)\<close> and \<open>str(value)\<close>.\<close>

definition py_int :: "pyobj \<Rightarrow> int result" where
  "py_int v = (case v of
      PInt i \<Rightarrow> Inr i
    | PBool b \<Rightarrow> Inr (if b then 1 else 0)
    | PStr s \<Rightarrow> (case py_int_text s of
        Some i \<Rightarrow> Inr i | None \<Rightarrow> Inl (ValueError ''invalid literal for int() with base 10''))
    | PFloat (Finite r) \<Rightarrow> Inr (truncate_rat r)
    | PFloat NaN \<Rightarrow> Inl (ValueError ''cannot convert float NaN to integer'')
    | PFloat _ \<Rightarrow> Inl (OverflowError ''cannot convert float infinity to integer'')
    | _ \<Rightarrow> Inl (TypeError ''int() argument must be a string, a bytes-like object or a real number''))"

definition py_str :: "pylib \<Rightarrow> pyobj \<Rightarrow> string" where
  "py_str L v = (case v of
      PStr s \<Rightarrow> s
    | PInt i \<Rightarrow> show_int i
    | PBool b \<Rightarrow> if b then ''True'' else ''False''
    | PNone \<Rightarrow> ''None''
    | PFloat (Finite r) \<Rightarrow> float_repr L r
    | PFloat PosInf \<Rightarrow> ''inf''
    | PFloat NegInf \<Rightarrow> ''-inf''
    | PFloat NaN \<Rightarrow> ''nan''
    | _ \<Rightarrow> str_of_object L v)"

text \<open>\<open>str(value or "")\<close>.\<close>

definition str_or_empty :: "pylib \<Rightarrow> pyobj \<Rightarrow> string" where
  "str_or_empty L v = (if falsy v then [] else py_str L v)"

text \<open>\<open>f"{n:02d}"\<close>.\<close>

definition show_02d :: "nat \<Rightarrow> string" where
  "show_02d n = (if n < 10 then ''0'' @ show_nat n else show_nat n)"

lemma rstrip_rev_head: "rstrip_rev s = c # t \<Longrightarrow> \<not> ascii_space c"
  by (induction s rule: rstrip_rev.induct)
    (simp_all add: rstrip_rev.simps split: if_splits del: wide_space2.simps wide_space3.simps)

lemma py_strip_last: "py_strip s \<noteq> [] \<Longrightarrow> \<not> ascii_space (last (py_strip s))"
  using rstrip_rev_head [of "rev (lstrip s)"]
  by (cases "rstrip_rev (rev (lstrip s))") (simp_all add: py_strip_def)

text \<open>The digits of a padded number are digits of a pattern.\<close>

lemma re_digits_pad: "re_digits k (pad_nat k n @ s) = Some s"
proof (induction k)
  case (Suc k)
  have "n div 10 ^ k mod 10 < 10" by simp
  then have "(of_char (digit_char (n div 10 ^ k mod 10)) :: nat) = n div 10 ^ k mod 10 + 48" by simp
  moreover have "decimal_point (n div 10 ^ k mod 10 + 48)"
    by (auto simp: decimal_point_def digit_zeros_def)
  ultimately show ?case using Suc by (simp add: utf8_head_def)
qed simp

end
