(* ===== verification/Ops_Contract.thy ===== *)
theory Ops_Contract
  imports Py_Text
begin

text \<open>
  The operations-record gate (\<open>dags/common/ops/contract.py\<close>): the closed sets of values, the
  object keys of the operations zone and their prefixes, and the validated record of one run.
  The lemmas show that an accepted key stays in the scope it was requested for and names it
  unambiguously, and that an accepted record keeps the rules of the gate.

  An \<open>OpsContractError\<close> carries the rule it reports; the message of the code is its Korean text.
  A \<open>StrEnum\<close> argument is given as its text, and a \<open>date\<close> as its ISO text.
\<close>

section \<open>Closed sets of values\<close>

datatype ops_category =
    CatRuns | CatMetrics | CatErrors | CatLogs | CatReports | CatRecovery | CatProductEvents
  | CatProductHealth | CatControl | CatReceipts

fun category_value :: "ops_category \<Rightarrow> string" where
  "category_value CatRuns = ''runs''"
| "category_value CatMetrics = ''metrics''"
| "category_value CatErrors = ''errors''"
| "category_value CatLogs = ''logs''"
| "category_value CatReports = ''reports''"
| "category_value CatRecovery = ''recovery''"
| "category_value CatProductEvents = ''product-events''"
| "category_value CatProductHealth = ''product-health''"
| "category_value CatControl = ''control''"
| "category_value CatReceipts = ''receipts''"

definition ops_categories :: "ops_category list" where
  "ops_categories = [CatRuns, CatMetrics, CatErrors, CatLogs, CatReports, CatRecovery,
     CatProductEvents, CatProductHealth, CatControl, CatReceipts]"

definition observation_categories :: "ops_category list" where
  "observation_categories = [CatRuns, CatMetrics, CatErrors, CatLogs, CatReports, CatRecovery,
     CatProductEvents, CatProductHealth]"

definition state_categories :: "ops_category list" where
  "state_categories = [CatControl, CatReceipts]"

datatype control_subtype = SubState | SubCheckpoints | SubQueues

fun subtype_value :: "control_subtype \<Rightarrow> string" where
  "subtype_value SubState = ''state''"
| "subtype_value SubCheckpoints = ''checkpoints''"
| "subtype_value SubQueues = ''queues''"

definition control_subtypes :: "control_subtype list" where
  "control_subtypes = [SubState, SubCheckpoints, SubQueues]"

text \<open>\<open>RETENTION_DAYS\<close>: how long a category is kept; \<open>None\<close> is for ever.\<close>

fun retention_days :: "ops_category \<Rightarrow> int option" where
  "retention_days CatErrors = Some 180"
| "retention_days CatLogs = Some 30"
| "retention_days CatReports = Some 180"
| "retention_days CatRecovery = Some 180"
| "retention_days CatControl = None"
| "retention_days CatReceipts = None"
| "retention_days _ = Some 400"

datatype ops_layer = LayRaw | LayBronze | LaySilver | LayGold | LayD1

fun layer_value :: "ops_layer \<Rightarrow> string" where
  "layer_value LayRaw = ''raw''"
| "layer_value LayBronze = ''bronze''"
| "layer_value LaySilver = ''silver''"
| "layer_value LayGold = ''gold''"
| "layer_value LayD1 = ''d1''"

definition ops_layers :: "ops_layer list" where
  "ops_layers = [LayRaw, LayBronze, LaySilver, LayGold, LayD1]"

datatype ops_grain =
    AirflowTask | DbtNode | ProductTransition | ProductHealth | Publication | ControlState

fun grain_value :: "ops_grain \<Rightarrow> string" where
  "grain_value AirflowTask = ''airflow_task''"
| "grain_value DbtNode = ''dbt_node''"
| "grain_value ProductTransition = ''product_transition''"
| "grain_value ProductHealth = ''product_health''"
| "grain_value Publication = ''publication''"
| "grain_value ControlState = ''control_state''"

definition ops_grains :: "ops_grain list" where
  "ops_grains = [AirflowTask, DbtNode, ProductTransition, ProductHealth, Publication, ControlState]"

datatype run_status = RunSuccess | RunFailed | RunSkipped | RunDegraded

fun status_value :: "run_status \<Rightarrow> string" where
  "status_value RunSuccess = ''success''"
| "status_value RunFailed = ''failed''"
| "status_value RunSkipped = ''skipped''"
| "status_value RunDegraded = ''degraded''"

definition run_statuses :: "run_status list" where
  "run_statuses = [RunSuccess, RunFailed, RunSkipped, RunDegraded]"

datatype rows_source =
    RawManifest | BronzeRunManifest | IcebergSnapshot | CountQuery | PublicationLedger | NotObserved

fun source_value :: "rows_source \<Rightarrow> string" where
  "source_value RawManifest = ''raw_manifest''"
| "source_value BronzeRunManifest = ''bronze_run_manifest''"
| "source_value IcebergSnapshot = ''iceberg_snapshot''"
| "source_value CountQuery = ''count_query''"
| "source_value PublicationLedger = ''publication_ledger''"
| "source_value NotObserved = ''not_observed''"

definition rows_sources :: "rows_source list" where
  "rows_sources = [RawManifest, BronzeRunManifest, IcebergSnapshot, CountQuery, PublicationLedger, NotObserved]"

datatype sink_type = SinkFile | SinkTable | SinkDb

fun sink_value :: "sink_type \<Rightarrow> string" where
  "sink_value SinkFile = ''file''"
| "sink_value SinkTable = ''table''"
| "sink_value SinkDb = ''db''"

definition sink_types :: "sink_type list" where
  "sink_types = [SinkFile, SinkTable, SinkDb]"

datatype environment = EnvDev | EnvProd

fun environment_value :: "environment \<Rightarrow> string" where
  "environment_value EnvDev = ''dev''"
| "environment_value EnvProd = ''prod''"

definition environments :: "environment list" where
  "environments = [EnvDev, EnvProd]"

text \<open>\<open>_coerce\<close>: the member with the given text.\<close>

definition coerce_enum :: "('a \<Rightarrow> string) \<Rightarrow> 'a list \<Rightarrow> string \<Rightarrow> string \<Rightarrow> 'a result" where
  "coerce_enum val members rule v =
     (case find (\<lambda>m. val m = v) members of
        None \<Rightarrow> Inl (OpsContractError rule) | Some m \<Rightarrow> Inr m)"

definition coerce_category :: "string \<Rightarrow> ops_category result" where
  "coerce_category v = coerce_enum category_value ops_categories ''R-1'' v"

definition required_by_grain :: "ops_grain \<Rightarrow> string list" where
  "required_by_grain g = (case g of
      AirflowTask \<Rightarrow> [''dag_id'', ''task_id'', ''run_id'']
    | DbtNode \<Rightarrow> [''task_id'', ''run_id'']
    | ProductTransition \<Rightarrow> [''dag_id'', ''run_id'']
    | ProductHealth \<Rightarrow> [''dag_id'', ''run_id'']
    | Publication \<Rightarrow> [''publication_id'']
    | ControlState \<Rightarrow> [''dag_id''])"

section \<open>Validators of segments and dates\<close>

text \<open>\<open>pattern.match(text)\<close> of a pattern that ends in \<open>$\<close>: a final line feed is ignored.\<close>

definition dollar_match :: "(string \<Rightarrow> bool) \<Rightarrow> string \<Rightarrow> bool" where
  "dollar_match p s \<longleftrightarrow> p s \<or> (s \<noteq> [] \<and> last s = CHR 0x0A \<and> p (butlast s))"

definition iso_date_text :: "string \<Rightarrow> bool" where
  "iso_date_text s \<longleftrightarrow>
     Option.bind (re_digits 4 s) (\<lambda>s. Option.bind (re_char (CHR ''-'') s) (\<lambda>s.
     Option.bind (re_digits 2 s) (\<lambda>s. Option.bind (re_char (CHR ''-'') s) (re_digits 2)))) = Some []"

definition segment_char :: "char \<Rightarrow> bool" where
  "segment_char c \<longleftrightarrow> alnum_char c \<or> c \<in> {CHR ''.'', CHR ''_'', CHR ''-''}"

definition safe_segment_text :: "string \<Rightarrow> bool" where
  "safe_segment_text s \<longleftrightarrow> (case s of [] \<Rightarrow> False | c # cs \<Rightarrow> alnum_char c \<and> list_all segment_char cs)"

definition object_char :: "char \<Rightarrow> bool" where
  "object_char c \<longleftrightarrow> segment_char c \<or> c = CHR ''=''"

definition is_hex_char :: "char \<Rightarrow> bool" where
  "is_hex_char c \<longleftrightarrow> in_range_char 48 57 c \<or> in_range_char 65 70 c \<or> in_range_char 97 102 c"

fun percent_escape :: "string \<Rightarrow> bool" where
  "percent_escape (c # a # b # s) =
     ((c = CHR ''%'' \<and> is_hex_char a \<and> is_hex_char b) \<or> percent_escape (a # b # s))"
| "percent_escape _ = False"

definition urlish :: "string \<Rightarrow> bool" where
  "urlish s \<longleftrightarrow> is_infix ''://'' s \<or> is_prefix ''/'' s \<or> CHR ''?'' \<in> set s \<or> CHR ''&'' \<in> set s
     \<or> percent_escape s"

definition assert_iso_date :: "string \<Rightarrow> string result" where
  "assert_iso_date s = (if dollar_match iso_date_text s then Inr s else Inl (OpsContractError ''P-1''))"

text \<open>\<open>str(value or "")\<close> of an optional text.\<close>

definition or_empty :: "string option \<Rightarrow> string" where
  "or_empty v = (case v of None \<Rightarrow> [] | Some s \<Rightarrow> s)"

definition assert_domain :: "string option \<Rightarrow> string result" where
  "assert_domain v =
     (let t = py_strip (or_empty v)
      in if t = [] \<or> \<not> dollar_match safe_segment_text t then Inl (OpsContractError ''domain'') else Inr t)"

definition safe_segment :: "string \<Rightarrow> string option \<Rightarrow> string" where
  "safe_segment dflt v =
     (case v of None \<Rightarrow> dflt
      | Some s \<Rightarrow> if s = [] then dflt else take 200 (dash_unsafe object_char s))"

text \<open>The distinct non-blank settings of the two variables; \<open>env\<close> is the process environment.\<close>

definition resolve_environment :: "(string \<Rightarrow> string option) \<Rightarrow> environment result" where
  "resolve_environment env =
     (let seen = remdups (map (\<lambda>v. str_lower (py_strip v))
            (filter (\<lambda>v. \<not> is_blank v) (map (\<lambda>n. or_empty (env n)) [''DBT_TARGET'', ''ASK_SEOUL_TARGET''])))
      in case seen of
           [] \<Rightarrow> Inl (OpsContractError ''Z-7'')
         | [v] \<Rightarrow> coerce_enum environment_value environments ''Z-7'' v
         | _ \<Rightarrow> Inl (OpsContractError ''Z-7''))"

section \<open>Object keys\<close>

definition ops_root :: string where "ops_root = ''ops''"

definition ops_subpath :: "string list \<Rightarrow> string list" where
  "ops_subpath parts = map (\<lambda>p. safe_segment ''unknown'' (Some p)) (filter (\<lambda>p. \<not> is_blank p) parts)"

definition ops_scope_parts :: "ops_category \<Rightarrow> string \<Rightarrow> string option \<Rightarrow> string list result" where
  "ops_scope_parts cat dm control =
     (if cat = CatControl then
        (case control of
           None \<Rightarrow> Inl (OpsContractError ''control subtype'')
         | Some c \<Rightarrow>
             bind_result (coerce_enum subtype_value control_subtypes ''control subtype'' c) (\<lambda>sub.
             Inr [ops_root, category_value cat, subtype_value sub, dm]))
      else if control \<noteq> None then Inl (OpsContractError ''control subtype'')
      else Inr [ops_root, category_value cat, dm])"

definition ops_date_part :: "ops_category \<Rightarrow> string option \<Rightarrow> string list result" where
  "ops_date_part cat observed_date =
     (if cat \<in> set observation_categories then
        (case observed_date of
           None \<Rightarrow> Inl (OpsContractError ''P-4'')
         | Some d \<Rightarrow> bind_result (assert_iso_date d) (\<lambda>d. Inr [''observed_date='' @ d]))
      else if observed_date \<noteq> None then Inl (OpsContractError ''P-5'')
      else Inr [])"

definition ops_key ::
  "string \<Rightarrow> string option \<Rightarrow> string option \<Rightarrow> string option \<Rightarrow> string option \<Rightarrow> string list \<Rightarrow> string result" where
  "ops_key category domain filename observed_date control subpath =
     bind_result (coerce_category category) (\<lambda>cat.
     bind_result (assert_domain domain) (\<lambda>dm.
     if is_blank (or_empty filename) then Inl (OpsContractError ''filename'')
     else bind_result (ops_scope_parts cat dm control) (\<lambda>scope.
     bind_result (ops_date_part cat observed_date) (\<lambda>date_part.
     Inr (str_join ''/'' (scope @ date_part @ ops_subpath subpath @ [safe_segment ''unknown'' filename]))))))"

definition legacy_observation_key ::
  "string \<Rightarrow> string option \<Rightarrow> string \<Rightarrow> string list \<Rightarrow> string option \<Rightarrow> string result" where
  "legacy_observation_key category domain date subpath filename =
     bind_result (coerce_category category) (\<lambda>cat.
     if cat \<notin> set observation_categories then Inl (OpsContractError ''P-5'')
     else bind_result (assert_domain domain) (\<lambda>dm.
     bind_result (assert_iso_date date) (\<lambda>d.
     Inr (str_join ''/'' ([ops_root, category_value cat, dm, ''load_date='' @ d]
            @ ops_subpath subpath @ [safe_segment ''unknown'' filename])))))"

definition category_prefix :: "string \<Rightarrow> string option \<Rightarrow> string option \<Rightarrow> string result" where
  "category_prefix category domain control =
     bind_result (coerce_category category) (\<lambda>cat.
     case (cat = CatControl, control, domain) of
       (True, Some c, _) \<Rightarrow>
         bind_result (coerce_enum subtype_value control_subtypes ''control subtype'' c) (\<lambda>sub.
         let base = ops_root @ ''/'' @ category_value cat @ ''/'' @ subtype_value sub @ ''/''
         in (case domain of None \<Rightarrow> Inr base
             | Some _ \<Rightarrow> bind_result (assert_domain domain) (\<lambda>dm. Inr (base @ dm @ ''/''))))
     | (True, None, Some _) \<Rightarrow> Inl (OpsContractError ''control subtype'')
     | (False, Some _, _) \<Rightarrow> Inl (OpsContractError ''control subtype'')
     | (_, None, None) \<Rightarrow> Inr (ops_root @ ''/'' @ category_value cat @ ''/'')
     | (_, None, Some _) \<Rightarrow>
         bind_result (assert_domain domain) (\<lambda>dm.
         Inr (ops_root @ ''/'' @ category_value cat @ ''/'' @ dm @ ''/'')))"

section \<open>Accepted keys\<close>

lemma find_value:
  assumes "inj_on val (set members)"
  shows "find (\<lambda>m. val m = v) members = Some m \<longleftrightarrow> m \<in> set members \<and> v = val m"
proof
  assume "find (\<lambda>m. val m = v) members = Some m"
  then show "m \<in> set members \<and> v = val m" by (auto simp: find_Some_iff)
next
  assume m: "m \<in> set members \<and> v = val m"
  then obtain m' where m': "find (\<lambda>m. val m = v) members = Some m'"
    by (cases "find (\<lambda>m. val m = v) members") (auto simp: find_None_iff)
  then have "m' \<in> set members" "val m' = v" by (auto simp: find_Some_iff)
  with m assms have "m' = m" by (auto dest: inj_onD)
  with m' show "find (\<lambda>m. val m = v) members = Some m" by simp
qed

lemma coerce_enum_Inr_iff:
  "inj_on val (set members) \<Longrightarrow>
     coerce_enum val members rule v = Inr m \<longleftrightarrow> m \<in> set members \<and> v = val m"
  by (simp add: coerce_enum_def find_value [symmetric] split: option.splits)

lemma category_value_inj: "inj_on category_value (set ops_categories)"
  by (auto simp: inj_on_def ops_categories_def)

lemma subtype_value_inj: "inj_on subtype_value (set control_subtypes)"
  by (auto simp: inj_on_def control_subtypes_def)

lemma coerce_category_Inr_iff: "coerce_category v = Inr c \<longleftrightarrow> v = category_value c"
proof -
  have "c \<in> set ops_categories" by (cases c) (simp_all add: ops_categories_def)
  then show ?thesis by (simp add: coerce_category_def coerce_enum_Inr_iff [OF category_value_inj])
qed

lemma coerce_subtype_Inr_iff:
  "coerce_enum subtype_value control_subtypes rule v = Inr c \<longleftrightarrow> v = subtype_value c"
proof -
  have "c \<in> set control_subtypes" by (cases c) (simp_all add: control_subtypes_def)
  then show ?thesis by (simp add: coerce_enum_Inr_iff [OF subtype_value_inj])
qed

lemma category_value_eq_iff [simp]: "category_value a = category_value b \<longleftrightarrow> a = b"
  by (cases a; cases b) simp_all

lemma subtype_value_eq_iff [simp]: "subtype_value a = subtype_value b \<longleftrightarrow> a = b"
  by (cases a; cases b) simp_all

text \<open>No segment of a key contains the separator.\<close>

definition segment_ok :: "string \<Rightarrow> bool" where
  "segment_ok s \<longleftrightarrow> CHR ''/'' \<notin> set s"

lemma object_char_no_slash: "\<not> object_char CHR ''/''"
  by (simp add: object_char_def segment_char_def alnum_char_def in_range_char_def)

lemma iso_date_no_slash:
  assumes "dollar_match iso_date_text s"
  shows "CHR ''/'' \<notin> set s" "s \<noteq> []"
proof -
  have core: "CHR ''/'' \<notin> set t \<and> t \<noteq> []" if "iso_date_text t" for t
  proof -
    from that obtain a b c d where steps: "re_digits 4 t = Some a" "re_char CHR ''-'' a = Some b" "re_digits 2 b = Some c"
      "re_char CHR ''-'' c = Some d" "re_digits 2 d = Some []"
      by (auto simp: iso_date_text_def bind_eq_Some_conv)
    have "CHR ''/'' \<notin> set t"
    proof
      assume "CHR ''/'' \<in> set t"
      from re_digits_chars [OF steps(1) this] have "CHR ''/'' \<in> set a" by simp
      from re_char_chars [OF steps(2) this] have "CHR ''/'' \<in> set b" by simp
      from re_digits_chars [OF steps(3) this] have "CHR ''/'' \<in> set c" by simp
      from re_char_chars [OF steps(4) this] have "CHR ''/'' \<in> set d" by simp
      from re_digits_chars [OF steps(5) this] have "CHR ''/'' \<in> set ([] :: string)" by simp
      then show False by simp
    qed
    moreover have "t \<noteq> []" using steps(1) by (auto simp: numeral_eq_Suc utf8_head_def)
    ultimately show ?thesis by simp
  qed
  have "last s = CHR 0x0A \<Longrightarrow> s \<noteq> [] \<Longrightarrow> set s = insert (CHR 0x0A) (set (butlast s))"
    by (subst append_butlast_last_id [symmetric, of s]) (auto simp del: append_butlast_last_id)
  with assms core show "CHR ''/'' \<notin> set s" "s \<noteq> []" by (auto simp: dollar_match_def)
qed

lemma assert_iso_date_Inr_iff: "assert_iso_date s = Inr d \<longleftrightarrow> d = s \<and> dollar_match iso_date_text s"
  by (auto simp: assert_iso_date_def)

lemma segment_char_no_slash: "segment_char c \<Longrightarrow> c \<noteq> CHR ''/''"
  by (auto simp: segment_char_def alnum_char_def in_range_char_def)

lemma assert_domain_Inr:
  assumes "assert_domain v = Inr d"
  shows "d = py_strip (or_empty v)" "segment_ok d"
proof -
  from assms have d: "d = py_strip (or_empty v)" "dollar_match safe_segment_text d" "d \<noteq> []"
    by (auto simp: assert_domain_def Let_def split: if_splits)
  have "CHR ''/'' \<notin> set t" if "safe_segment_text t" for t
    using that segment_char_no_slash [of "CHR ''/''"]
    by (auto simp: safe_segment_text_def list_all_iff alnum_char_def in_range_char_def split: list.splits)
  moreover have "last d = CHR 0x0A \<Longrightarrow> set d = insert (CHR 0x0A) (set (butlast d))"
    using d(3) by (subst append_butlast_last_id [symmetric, of d]) (auto simp del: append_butlast_last_id)
  ultimately show "d = py_strip (or_empty v)" "segment_ok d"
    using d by (auto simp: dollar_match_def segment_ok_def)
qed

lemma safe_segment_chars:
  "v = Some s \<Longrightarrow> s \<noteq> [] \<Longrightarrow> list_all object_char (safe_segment def v)"
  by (auto simp: safe_segment_def list_all_iff object_char_def segment_char_def dash_unsafe_def dest!: in_set_takeD)

lemma safe_segment_ok:
  assumes "segment_ok dflt"
  shows "segment_ok (safe_segment dflt v)"
proof (cases "\<exists>s. v = Some s \<and> s \<noteq> []")
  case True
  then show ?thesis
    using safe_segment_chars [of v _ dflt] object_char_no_slash by (auto simp: segment_ok_def list_all_iff)
qed (use assms in \<open>auto simp: safe_segment_def split: option.splits\<close>)

lemma ops_subpath_ok: "list_all segment_ok (ops_subpath parts)"
  by (auto simp: ops_subpath_def list_all_iff segment_ok_def [of "''unknown''"] intro!: safe_segment_ok)

lemma value_ok [simp]: "segment_ok (category_value c)" "segment_ok (subtype_value t)" "segment_ok ops_root"
  "segment_ok ''unknown''"
  by (cases c; simp add: segment_ok_def) (cases t; simp_all add: segment_ok_def ops_root_def)+

text \<open>What a key is made of.\<close>

definition scope_parts :: "ops_category \<Rightarrow> string option \<Rightarrow> string \<Rightarrow> string list" where
  "scope_parts cat control dm =
     ops_root # category_value cat # (case control of None \<Rightarrow> [dm] | Some c \<Rightarrow> [c, dm])"

definition date_parts :: "string option \<Rightarrow> string list" where
  "date_parts date = (case date of None \<Rightarrow> [] | Some d \<Rightarrow> [''observed_date='' @ d])"

lemma ops_scope_parts_Inr_iff:
  "ops_scope_parts cat dm control = Inr ps \<longleftrightarrow> ps = scope_parts cat control dm
     \<and> (control \<noteq> None \<longleftrightarrow> cat = CatControl) \<and> (\<forall>c. control = Some c \<longrightarrow> (\<exists>s. c = subtype_value s))"
  by (cases control) (auto simp: ops_scope_parts_def scope_parts_def bind_result_Inr_iff coerce_subtype_Inr_iff)

lemma ops_date_part_Inr_iff:
  "ops_date_part cat date = Inr ps \<longleftrightarrow> ps = date_parts date
     \<and> (date \<noteq> None \<longleftrightarrow> cat \<in> set observation_categories) \<and> (\<forall>d. date = Some d \<longrightarrow> dollar_match iso_date_text d)"
  by (cases date) (auto simp: ops_date_part_def date_parts_def bind_result_Inr_iff assert_iso_date_Inr_iff)

definition key_parts ::
  "ops_category \<Rightarrow> string option \<Rightarrow> string \<Rightarrow> string option \<Rightarrow> string list \<Rightarrow> string option \<Rightarrow> string list" where
  "key_parts cat control dm date subpath filename =
     scope_parts cat control dm @ date_parts date @ ops_subpath subpath @ [safe_segment ''unknown'' filename]"

lemma key_parts_nonempty: "key_parts cat control dm date subpath filename \<noteq> []"
  by (simp add: key_parts_def)

lemma ops_key_Inr:
  assumes "ops_key category domain filename date control subpath = Inr k"
  obtains cat where "category = category_value cat" "assert_domain domain = Inr (py_strip (or_empty domain))"
    "control \<noteq> None \<longleftrightarrow> cat = CatControl" "date \<noteq> None \<longleftrightarrow> cat \<in> set observation_categories"
    "\<forall>c. control = Some c \<longrightarrow> (\<exists>s. c = subtype_value s)" "\<forall>d. date = Some d \<longrightarrow> dollar_match iso_date_text d"
    "k = str_join ''/'' (key_parts cat control (py_strip (or_empty domain)) date subpath filename)"
proof -
  from assms obtain cat dm ps ds where c: "coerce_category category = Inr cat" "assert_domain domain = Inr dm"
    "ops_scope_parts cat dm control = Inr ps" "ops_date_part cat date = Inr ds"
    "k = str_join ''/'' (ps @ ds @ ops_subpath subpath @ [safe_segment ''unknown'' filename])"
    by (auto simp: ops_key_def bind_result_Inr_iff simp del: str_join.simps split: if_splits)
  from c show thesis
    by (intro that [of cat])
      (simp_all add: coerce_category_Inr_iff ops_scope_parts_Inr_iff ops_date_part_Inr_iff key_parts_def
        flip: assert_domain_Inr(1))
qed

lemma key_parts_ok:
  assumes "segment_ok dm" "\<forall>c. control = Some c \<longrightarrow> (\<exists>s. c = subtype_value s)"
    "\<forall>d. date = Some d \<longrightarrow> dollar_match iso_date_text d"
  shows "list_all (\<lambda>s. CHR ''/'' \<notin> set s) (key_parts cat control dm date subpath filename)"
proof -
  have "list_all segment_ok (scope_parts cat control dm)"
    using assms(1,2) by (auto simp: scope_parts_def split: option.splits)
  moreover have "list_all segment_ok (date_parts date)"
    using assms(3) iso_date_no_slash(1) by (auto simp: date_parts_def segment_ok_def split: option.splits)
  ultimately have "list_all segment_ok (key_parts cat control dm date subpath filename)"
    by (simp add: key_parts_def ops_subpath_ok safe_segment_ok)
  then show ?thesis by (simp add: segment_ok_def list_all_iff)
qed

lemma key_parts_inj:
  assumes "key_parts cat control dm date subpath filename = key_parts cat' control' dm' date' subpath' filename'"
    and "control \<noteq> None \<longleftrightarrow> cat = CatControl" "control' \<noteq> None \<longleftrightarrow> cat' = CatControl"
    and "date \<noteq> None \<longleftrightarrow> cat \<in> set observation_categories" "date' \<noteq> None \<longleftrightarrow> cat' \<in> set observation_categories"
  shows "cat = cat' \<and> control = control' \<and> dm = dm' \<and> date = date'
    \<and> ops_subpath subpath = ops_subpath subpath'
    \<and> safe_segment ''unknown'' filename = safe_segment ''unknown'' filename'"
proof -
  have "cat = cat'" using assms(1) by (simp add: key_parts_def scope_parts_def)
  then have "control \<noteq> None \<longleftrightarrow> control' \<noteq> None" "date \<noteq> None \<longleftrightarrow> date' \<noteq> None" using assms(2-) by simp_all
  with \<open>cat = cat'\<close> assms(1) show ?thesis
    by (cases control; cases control'; cases date; cases date') (simp_all add: key_parts_def scope_parts_def date_parts_def)
qed

lemma str_join_prefix: "ys \<noteq> [] \<Longrightarrow> xs \<noteq> [] \<Longrightarrow> str_join sep (xs @ ys) = str_join sep xs @ sep @ str_join sep ys"
  by (induction sep xs rule: str_join.induct) (auto simp: neq_Nil_conv)

lemma category_prefix_scope:
  assumes "assert_domain domain = Inr dm" "control \<noteq> None \<longleftrightarrow> cat = CatControl"
    and "\<forall>c. control = Some c \<longrightarrow> (\<exists>s. c = subtype_value s)"
  shows "category_prefix (category_value cat) domain control = Inr (str_join ''/'' (scope_parts cat control dm) @ ''/'')"
proof -
  obtain d where "domain = Some d" using assms(1) by (cases domain) (auto simp: assert_domain_def or_empty_def py_strip_def lstrip.simps rstrip_rev.simps)
  moreover have "coerce_category (category_value cat) = Inr cat" by (simp add: coerce_category_Inr_iff)
  moreover have "coerce_enum subtype_value control_subtypes r (subtype_value s) = Inr s" for r s
    by (simp add: coerce_subtype_Inr_iff)
  ultimately show ?thesis using assms
    by (cases control) (auto simp: category_prefix_def scope_parts_def Let_def)
qed

section \<open>Records\<close>

text \<open>The time arguments are \<open>datetime | str | None\<close>.\<close>

datatype instant_arg = NoInstant | Instant pydatetime | InstantText string

record ops_event_args =
  oe_category :: string
  oe_domain :: "string option"
  oe_layer :: string
  oe_grain :: string
  oe_status :: string
  oe_environment :: "string option"
  oe_dag_id :: "string option"
  oe_task_id :: "string option"
  oe_run_id :: "string option"
  oe_try_number :: "int option"
  oe_is_final_try :: "bool option"
  oe_observed_at :: instant_arg
  oe_started_at :: instant_arg
  oe_ended_at :: instant_arg
  oe_duration_s :: "rat option"
  oe_schedule_delay_s :: "rat option"
  oe_source_path_date :: "string option"
  oe_row_count :: pyobj
  oe_rows_source :: string
  oe_bytes :: "int option"
  oe_api_name :: "string option"
  oe_api_call_count :: "int option"
  oe_retry_count :: "int option"
  oe_failure_count :: "int option"
  oe_sink_type :: "string option"
  oe_sink_target :: "string option"
  oe_error_ref :: "string option"
  oe_quality :: "pyobj pydict"
  oe_publication_id :: "string option"
  oe_product_ids :: "string list"
  oe_event_id :: "string option"
  oe_source_key :: "string option"
  oe_log_bundle_key :: "string option"

definition ops_schema_version :: string where "ops_schema_version = ''ops-record/v1''"

definition record_fields :: "string list" where
  "record_fields =
     [''schema_version'', ''event_id'', ''domain'', ''layer'', ''grain'',
      ''dag_id'', ''task_id'', ''run_id'', ''try_number'', ''is_final_try'', ''environment'',
      ''observed_at'', ''started_at'', ''ended_at'', ''duration_s'', ''duration_hms'',
      ''observed_date_kst'', ''source_path_date'', ''schedule_delay_s'',
      ''row_count'', ''rows_source'', ''bytes'',
      ''api_name'', ''api_call_count'', ''retry_count'', ''failure_count'',
      ''sink_type'', ''sink_target'',
      ''status'', ''error_ref'', ''quality'', ''publication_id'', ''product_id'', ''product_ids'',
      ''source_category'', ''source_key'', ''log_bundle_key'']"

definition identity_fields :: "string list" where
  "identity_fields =
     [''domain'', ''layer'', ''grain'', ''dag_id'', ''task_id'', ''run_id'', ''try_number'',
      ''product_id'', ''publication_id'']"

text \<open>\<open>json.dumps(..., ensure_ascii=True)\<close> escapes what the plain text has beyond printable ASCII.\<close>

definition hex4 :: "nat \<Rightarrow> string" where
  "hex4 n = map (\<lambda>d. hex_digit (n div d mod 16)) [4096, 256, 16, 1]"

definition ascii_point :: "nat \<Rightarrow> string" where
  "ascii_point n =
     (if n < 127 then [char_of n]
      else if n < 65536 then [CHR 0x5C, CHR ''u''] @ hex4 n
      else [CHR 0x5C, CHR ''u''] @ hex4 (55296 + (n - 65536) div 1024)
           @ [CHR 0x5C, CHR ''u''] @ hex4 (56320 + (n - 65536) mod 1024))"

function ascii_json :: "string \<Rightarrow> string" where
  "ascii_json s = (case utf8_head s of None \<Rightarrow> [] | Some (n, r) \<Rightarrow> ascii_point n @ ascii_json r)"
  by pat_completeness auto
termination
  by (relation "measure length") (auto dest: utf8_head_shorter)

declare ascii_json.simps [simp del]

definition event_id_for :: "pylib \<Rightarrow> pyobj pydict \<Rightarrow> string" where
  "event_id_for L ident =
     sha256_hex L (ascii_json (render L (sort_keys (PDict (map (\<lambda>f. (f, dict_get f ident)) identity_fields)))))"

text \<open>A naive value counts as UTC.\<close>

definition assume_utc :: "pydatetime \<Rightarrow> int option result" where
  "assume_utc d = (case d of
      Naive t \<Rightarrow> Inr (Some t)
    | Aware t \<Rightarrow> bind_result (astimezone_utc t) (\<lambda>t. Inr (Some t)))"

definition as_utc :: "pylib \<Rightarrow> instant_arg \<Rightarrow> int option result" where
  "as_utc L v = (case v of
      NoInstant \<Rightarrow> Inr None
    | Instant d \<Rightarrow> assume_utc d
    | InstantText s \<Rightarrow> (case fromisoformat L (replace_Z s) of
        None \<Rightarrow> Inl (OpsContractError ''ISO8601'') | Some d \<Rightarrow> assume_utc d))"

text \<open>\<open>int(round(x))\<close> and \<open>round(x, 3)\<close>: to the nearest, ties to even.\<close>

definition round_half_even :: "rat \<Rightarrow> int" where
  "round_half_even r =
     (let f = floor r; d = r - of_int f
      in if d < 1 / 2 then f else if d > 1 / 2 then f + 1 else if even f then f else f + 1)"

definition round_3 :: "rat \<Rightarrow> rat" where
  "round_3 r = of_int (round_half_even (r * 1000)) / 1000"

definition hms :: "rat option \<Rightarrow> string option" where
  "hms secs = (case secs of
      None \<Rightarrow> None
    | Some r \<Rightarrow>
        (let i = round_half_even r; t = nat \<bar>i\<bar>
         in Some ((if i < 0 then ''-'' else []) @ show_02d (t div 3600) @ '':''
              @ show_02d (t mod 3600 div 60) @ '':'' @ show_02d (t mod 60))))"

definition validate_rows :: "pyobj \<Rightarrow> rows_source \<Rightarrow> int option result" where
  "validate_rows v src =
     (case v of
        PNone \<Rightarrow> if src \<noteq> NotObserved then Inl (OpsContractError ''F-3'') else Inr None
      | PInt i \<Rightarrow> if i < 0 then Inl (OpsContractError ''row_count'')
                  else if src = NotObserved then Inl (OpsContractError ''N-5'') else Inr (Some i)
      | _ \<Rightarrow> Inl (OpsContractError ''row_count''))"

definition validate_api_name :: "string option \<Rightarrow> string option result" where
  "validate_api_name v =
     (case v of None \<Rightarrow> Inr None
      | Some s \<Rightarrow>
          (let t = py_strip s
           in if t = [] then Inr None
              else if urlish t then Inl (OpsContractError ''X-1'') else Inr (Some t)))"

text \<open>\<open>values.get(name)\<close> of the identifiers, and the one product or the joined products.\<close>

definition identifier_value :: "ops_event_args \<Rightarrow> string \<Rightarrow> string option" where
  "identifier_value a name =
     (if name = ''dag_id'' then oe_dag_id a else if name = ''task_id'' then oe_task_id a
      else if name = ''run_id'' then oe_run_id a else if name = ''publication_id'' then oe_publication_id a
      else None)"

definition missing_identifiers :: "ops_event_args \<Rightarrow> ops_grain \<Rightarrow> string list" where
  "missing_identifiers a g = filter (\<lambda>n. is_blank (or_empty (identifier_value a n))) (required_by_grain g)"

definition normalized_products :: "ops_event_args \<Rightarrow> string list" where
  "normalized_products a = sort (remdups (oe_product_ids a))"

definition event_product :: "string list \<Rightarrow> string option" where
  "event_product ps = (case ps of
      [p] \<Rightarrow> Some p
    | _ \<Rightarrow> (let j = str_join ''|'' ps in if j = [] then None else Some j))"

definition event_identity :: "ops_event_args \<Rightarrow> string \<Rightarrow> ops_layer \<Rightarrow> ops_grain \<Rightarrow> pyobj pydict" where
  "event_identity a dm lyr grn =
     [(''domain'', PStr dm), (''layer'', PStr (layer_value lyr)), (''grain'', PStr (grain_value grn)),
      (''dag_id'', opt_obj (oe_dag_id a)), (''task_id'', opt_obj (oe_task_id a)),
      (''run_id'', opt_obj (oe_run_id a)), (''try_number'', opt_int (oe_try_number a)),
      (''product_id'', opt_obj (event_product (normalized_products a))),
      (''publication_id'', opt_obj (oe_publication_id a))]"

text \<open>\<open>str(x) if x else None\<close>.\<close>

definition some_text :: "string option \<Rightarrow> pyobj" where
  "some_text v = (if or_empty v = [] then PNone else PStr (or_empty v))"

definition opt_rat :: "rat option \<Rightarrow> pyobj" where
  "opt_rat v = (case v of None \<Rightarrow> PNone | Some r \<Rightarrow> PFloat (Finite (round_3 r)))"

definition opt_time :: "int option \<Rightarrow> pyobj" where
  "opt_time v = (case v of None \<Rightarrow> PNone | Some t \<Rightarrow> PStr (isoformat t))"

definition opt_bool :: "bool option \<Rightarrow> pyobj" where
  "opt_bool v = (case v of None \<Rightarrow> PNone | Some b \<Rightarrow> PBool b)"

text \<open>The validated enumeration values of an event.\<close>

record ops_kinds =
  ok_category :: ops_category
  ok_domain :: string
  ok_layer :: ops_layer
  ok_grain :: ops_grain
  ok_status :: run_status
  ok_source :: rows_source
  ok_environment :: environment
  ok_sink :: "sink_type option"

definition ops_event_kinds :: "(string \<Rightarrow> string option) \<Rightarrow> ops_event_args \<Rightarrow> ops_kinds result" where
  "ops_event_kinds env a =
     bind_result (coerce_category (oe_category a)) (\<lambda>cat.
     if cat \<in> set state_categories then Inl (OpsContractError ''R-4'')
     else bind_result (assert_domain (oe_domain a)) (\<lambda>dm.
     bind_result (coerce_enum layer_value ops_layers ''V-4'' (oe_layer a)) (\<lambda>lyr.
     bind_result (coerce_enum grain_value ops_grains ''V-5'' (oe_grain a)) (\<lambda>grn.
     bind_result (coerce_enum status_value run_statuses ''V-1'' (oe_status a)) (\<lambda>sts.
     bind_result (coerce_enum source_value rows_sources ''N-5'' (oe_rows_source a)) (\<lambda>rsrc.
     bind_result (case oe_environment a of
         Some e \<Rightarrow> coerce_enum environment_value environments ''Z-7'' e
       | None \<Rightarrow> resolve_environment env) (\<lambda>environ.
     bind_result (case oe_sink_type a of
         Some t \<Rightarrow> bind_result (coerce_enum sink_value sink_types ''F'' t) (\<lambda>t. Inr (Some t))
       | None \<Rightarrow> Inr None) (\<lambda>sink.
     Inr \<lparr>ok_category = cat, ok_domain = dm, ok_layer = lyr, ok_grain = grn, ok_status = sts,
          ok_source = rsrc, ok_environment = environ, ok_sink = sink\<rparr>))))))))"

text \<open>\<open>observed_at or ended_at or started_at or now\<close>.\<close>

definition observed_instant :: "pylib \<Rightarrow> int \<Rightarrow> ops_event_args \<Rightarrow> int result" where
  "observed_instant L now a =
     bind_result (as_utc L (oe_observed_at a)) (\<lambda>o1. case o1 of Some t \<Rightarrow> Inr t | None \<Rightarrow>
     bind_result (as_utc L (oe_ended_at a)) (\<lambda>o2. case o2 of Some t \<Rightarrow> Inr t | None \<Rightarrow>
     bind_result (as_utc L (oe_started_at a)) (\<lambda>o3. case o3 of Some t \<Rightarrow> Inr t | None \<Rightarrow> Inr now)))"

definition event_duration :: "ops_event_args \<Rightarrow> int option \<Rightarrow> int option \<Rightarrow> rat option" where
  "event_duration a st en = (case (oe_duration_s a, st, en) of
      (None, Some s, Some e) \<Rightarrow> Some (of_int (e - s) / 1000000)
    | _ \<Rightarrow> oe_duration_s a)"

definition date_str_dashed :: "int \<Rightarrow> string" where
  "date_str_dashed t = date_str (civil (nat t div us_per_day))"

definition event_record ::
  "pylib \<Rightarrow> ops_event_args \<Rightarrow> ops_kinds \<Rightarrow> int \<Rightarrow> int \<Rightarrow> int option \<Rightarrow> int option \<Rightarrow> string option \<Rightarrow> int option \<Rightarrow>
     string option \<Rightarrow> pyobj pydict" where
  "event_record L a k observed kst st en path_date rows api =
     (let duration = event_duration a st en; products = normalized_products a;
          ident = event_identity a (ok_domain k) (ok_layer k) (ok_grain k);
          given = or_empty (oe_event_id a) in
      [(''schema_version'', PStr ops_schema_version),
       (''event_id'', PStr (if given = [] then event_id_for L ident else given)),
       (''domain'', PStr (ok_domain k)),
       (''layer'', PStr (layer_value (ok_layer k))),
       (''grain'', PStr (grain_value (ok_grain k))),
       (''dag_id'', opt_obj (oe_dag_id a)),
       (''task_id'', opt_obj (oe_task_id a)),
       (''run_id'', opt_obj (oe_run_id a)),
       (''try_number'', opt_int (oe_try_number a)),
       (''is_final_try'', opt_bool (oe_is_final_try a)),
       (''environment'', PStr (environment_value (ok_environment k))),
       (''observed_at'', PStr (isoformat observed)),
       (''started_at'', opt_time st),
       (''ended_at'', opt_time en),
       (''duration_s'', opt_rat duration),
       (''duration_hms'', opt_obj (hms duration)),
       (''observed_date_kst'', PStr (date_str_dashed kst)),
       (''source_path_date'', opt_obj path_date),
       (''schedule_delay_s'', opt_rat (oe_schedule_delay_s a)),
       (''row_count'', opt_int rows),
       (''rows_source'', PStr (source_value (ok_source k))),
       (''bytes'', opt_int (oe_bytes a)),
       (''api_name'', opt_obj api),
       (''api_call_count'', opt_int (oe_api_call_count a)),
       (''retry_count'', opt_int (oe_retry_count a)),
       (''failure_count'', opt_int (oe_failure_count a)),
       (''sink_type'', opt_obj (map_option sink_value (ok_sink k))),
       (''sink_target'', some_text (oe_sink_target a)),
       (''status'', PStr (status_value (ok_status k))),
       (''error_ref'', some_text (oe_error_ref a)),
       (''quality'', PDict (oe_quality a)),
       (''publication_id'', opt_obj (oe_publication_id a)),
       (''product_id'', opt_obj (event_product products)),
       (''product_ids'', PList (map PStr products)),
       (''source_category'', PStr (category_value (ok_category k))),
       (''source_key'', some_text (oe_source_key a)),
       (''log_bundle_key'', some_text (oe_log_bundle_key a))])"

definition event_requirements :: "ops_event_args \<Rightarrow> ops_grain \<Rightarrow> unit result" where
  "event_requirements a g =
     (if missing_identifiers a g \<noteq> [] then Inl (OpsContractError ''identifiers of the grain'')
      else if g = ProductTransition \<and> oe_product_ids a = []
      then Inl (OpsContractError ''product_ids of the grain'')
      else Inr ())"

definition event_path_date :: "ops_event_args \<Rightarrow> string option result" where
  "event_path_date a =
     (let d = or_empty (oe_source_path_date a)
      in if d = [] then Inr None else bind_result (assert_iso_date d) (\<lambda>d. Inr (Some d)))"

definition build_ops_event ::
  "pylib \<Rightarrow> (string \<Rightarrow> string option) \<Rightarrow> int \<Rightarrow> ops_event_args \<Rightarrow> pyobj pydict result" where
  "build_ops_event L env now a =
     bind_result (ops_event_kinds env a) (\<lambda>k.
     bind_result (event_requirements a (ok_grain k)) (\<lambda>_.
     bind_result (observed_instant L now a) (\<lambda>observed.
     bind_result (as_utc L (oe_started_at a)) (\<lambda>st.
     bind_result (as_utc L (oe_ended_at a)) (\<lambda>en.
     bind_result (checked_instant (observed + kst_offset)) (\<lambda>kst.
     bind_result (event_path_date a) (\<lambda>path_date.
     bind_result (validate_rows (oe_row_count a) (ok_source k)) (\<lambda>rows.
     bind_result (validate_api_name (oe_api_name a)) (\<lambda>api.
     Inr (map (\<lambda>f. (f, dict_get f (event_record L a k observed kst st en path_date rows api)))
            record_fields))))))))))"

text \<open>\<open>record["source_category"]\<close> and the like are text in a built record.\<close>

definition record_text :: "string \<Rightarrow> pyobj pydict \<Rightarrow> string option" where
  "record_text f r = (case dict_get f r of PStr s \<Rightarrow> Some s | _ \<Rightarrow> None)"

definition event_object_key :: "pyobj pydict \<Rightarrow> string result" where
  "event_object_key r =
     ops_key (or_empty (record_text ''source_category'' r)) (record_text ''domain'' r)
       (Some (''event_id='' @ or_empty (record_text ''event_id'' r) @ ''.json''))
       (record_text ''observed_date_kst'' r) None
       [''dag_id='' @ safe_segment ''none'' (record_text ''dag_id'' r)]"

section \<open>Accepted records\<close>

lemma dict_get_fields:
  "f \<in> set fs \<Longrightarrow> dict_get f (map (\<lambda>f. (f, dict_get f d)) fs) = dict_get f d"
  by (induction fs) auto

lemma build_ops_event_Inr:
  assumes "build_ops_event L env now a = Inr r"
  obtains k observed rows api st en path_date where
    "ops_event_kinds env a = Inr k" "missing_identifiers a (ok_grain k) = []"
    "observed_instant L now a = Inr observed" "in_range (observed + kst_offset)"
    "validate_rows (oe_row_count a) (ok_source k) = Inr rows" "validate_api_name (oe_api_name a) = Inr api"
    "map fst r = record_fields"
    "\<forall>f\<in>set record_fields.
       dict_get f r = dict_get f (event_record L a k observed (observed + kst_offset) st en path_date rows api)"
proof -
  from assms obtain k observed st en kst path_date rows api where s:
    "ops_event_kinds env a = Inr k" "event_requirements a (ok_grain k) = Inr ()"
    "observed_instant L now a = Inr observed" "checked_instant (observed + kst_offset) = Inr kst"
    "validate_rows (oe_row_count a) (ok_source k) = Inr rows" "validate_api_name (oe_api_name a) = Inr api"
    "map (\<lambda>f. (f, dict_get f (event_record L a k observed kst st en path_date rows api))) record_fields = r"
    unfolding build_ops_event_def bind_result_Inr_iff sum.inject
    by (elim exE conjE) (rule that, assumption, metis old.unit.exhaust, assumption+)
  have "map fst r = record_fields" by (simp add: comp_def flip: s(7))
  moreover have "dict_get f r = dict_get f (event_record L a k observed (observed + kst_offset) st en path_date rows api)"
    if "f \<in> set record_fields" for f
    using s(4) dict_get_fields [OF that] by (simp add: checked_instant_Inr_iff flip: s(7))
  ultimately show thesis using that [OF s(1) _ s(3) _ s(5,6)] s(2,4)
    by (auto simp: checked_instant_Inr_iff event_requirements_def split: if_splits)
qed


lemma layer_grain_inj: "inj_on layer_value (set ops_layers)" "inj_on grain_value (set ops_grains)"
  "inj_on status_value (set run_statuses)" "inj_on source_value (set rows_sources)"
  "inj_on environment_value (set environments)" "inj_on sink_value (set sink_types)"
  by (auto simp: inj_on_def ops_layers_def ops_grains_def run_statuses_def rows_sources_def environments_def
      sink_types_def)

lemma ops_event_kinds_Inr:
  assumes "ops_event_kinds env a = Inr k"
  shows "ok_category k \<notin> set state_categories" "assert_domain (oe_domain a) = Inr (ok_domain k)"
    "oe_category a = category_value (ok_category k)"
  using assms
  by (auto simp: ops_event_kinds_def bind_result_Inr_iff coerce_category_Inr_iff split: if_splits)

lemma validate_rows_Inr:
  "validate_rows v src = Inr rows \<Longrightarrow> (rows = None \<longleftrightarrow> src = NotObserved) \<and> (\<forall>i. rows = Some i \<longrightarrow> 0 \<le> i)"
  by (auto simp: validate_rows_def split: pyobj.splits if_splits)

lemma validate_api_name_Inr:
  "validate_api_name v = Inr api \<Longrightarrow> api = Some t \<Longrightarrow> \<not> urlish t"
  by (auto simp: validate_api_name_def Let_def split: option.splits if_splits)

lemma event_record_get:
  "dict_get ''row_count'' (event_record L a k t u st en d rows api) = opt_int rows"
  "dict_get ''rows_source'' (event_record L a k t u st en d rows api) = PStr (source_value (ok_source k))"
  "dict_get ''api_name'' (event_record L a k t u st en d rows api) = opt_obj api"
  "dict_get ''source_category'' (event_record L a k t u st en d rows api) = PStr (category_value (ok_category k))"
  "dict_get ''domain'' (event_record L a k t u st en d rows api) = PStr (ok_domain k)"
  "dict_get ''grain'' (event_record L a k t u st en d rows api) = PStr (grain_value (ok_grain k))"
  "dict_get ''observed_date_kst'' (event_record L a k t u st en d rows api) = PStr (date_str_dashed u)"
  "dict_get ''observed_at'' (event_record L a k t u st en d rows api) = PStr (isoformat t)"
  "dict_get ''dag_id'' (event_record L a k t u st en d rows api) = opt_obj (oe_dag_id a)"
  "dict_get ''task_id'' (event_record L a k t u st en d rows api) = opt_obj (oe_task_id a)"
  "dict_get ''run_id'' (event_record L a k t u st en d rows api) = opt_obj (oe_run_id a)"
  "dict_get ''publication_id'' (event_record L a k t u st en d rows api) = opt_obj (oe_publication_id a)"
  by (simp_all add: event_record_def Let_def)

lemma required_names: "n \<in> set (required_by_grain g) \<Longrightarrow> n \<in> {''dag_id'', ''task_id'', ''run_id'', ''publication_id''}"
  by (cases g) (auto simp: required_by_grain_def)

lemma identifier_recorded:
  assumes "missing_identifiers a g = []" "n \<in> set (required_by_grain g)"
  shows "\<exists>s. dict_get n (event_record L a k t u st en d rows api) = PStr s \<and> \<not> is_blank s"
proof -
  from assms have present: "\<not> is_blank (or_empty (identifier_value a n))"
    by (auto simp: missing_identifiers_def filter_empty_conv)
  then obtain s where "identifier_value a n = Some s"
    by (cases "identifier_value a n") (auto simp: or_empty_def is_blank.simps)
  with present required_names [OF assms(2)] show ?thesis
    by (auto simp: identifier_value_def event_record_get or_empty_def)
qed

lemma source_value_eq_NotObserved [simp]: "source_value s = ''not_observed'' \<longleftrightarrow> s = NotObserved"
  by (cases s) simp_all

text \<open>The day of a record is a path date, and its domain is accepted again.\<close>

lemma re_digits_pad_Nil: "re_digits k (pad_nat k n) = Some []"
  using re_digits_pad [of k n "[]"] by simp

lemma date_str_iso: "iso_date_text (date_str x)"
  by (cases x) (simp add: iso_date_text_def date_str_def re_digits_pad re_digits_pad_Nil re_char_def)

lemma assert_domain_again:
  assumes "assert_domain v = Inr d"
  shows "assert_domain (Some d) = Inr d"
proof -
  from assms have d: "d = py_strip (or_empty v)" "dollar_match safe_segment_text d" "d \<noteq> []"
    by (auto simp: assert_domain_def Let_def split: if_splits)
  have "\<not> ascii_space (last d)" using py_strip_last d by simp
  then have "safe_segment_text d" using d(2) by (auto simp: dollar_match_def ascii_space_def Let_def)
  moreover from this have "list_all graphic d"
    by (auto simp: safe_segment_text_def graphic_def list_all_iff segment_char_def alnum_char_def in_range_char_def
        split: list.splits)
  ultimately show ?thesis using py_strip_graphic [OF d(3)] d(3) by (simp add: assert_domain_def or_empty_def dollar_match_def)
qed

text \<open>An event of a collection task, for the applications.\<close>

definition demo_event :: ops_event_args where
  "demo_event =
     \<lparr>oe_category = ''runs'', oe_domain = Some ''weather'', oe_layer = ''raw'', oe_grain = ''airflow_task'',
      oe_status = ''success'', oe_environment = Some ''prod'', oe_dag_id = Some ''collect'', oe_task_id = Some ''ingest'',
      oe_run_id = Some ''r1'', oe_try_number = Some 1, oe_is_final_try = Some True,
      oe_observed_at = Instant (Aware 63900000000000000), oe_started_at = NoInstant, oe_ended_at = NoInstant,
      oe_duration_s = None, oe_schedule_delay_s = None, oe_source_path_date = None, oe_row_count = PInt 80,
      oe_rows_source = ''raw_manifest'', oe_bytes = None, oe_api_name = None, oe_api_call_count = None,
      oe_retry_count = None, oe_failure_count = None, oe_sink_type = None, oe_sink_target = None,
      oe_error_ref = None, oe_quality = [], oe_publication_id = None, oe_product_ids = [], oe_event_id = None,
      oe_source_key = None, oe_log_bundle_key = None\<rparr>"

lemma demo_domain: "assert_domain (Some ''weather'') = Inr ''weather''"
  by (simp add: assert_domain_def or_empty_def py_strip_graphic graphic_def dollar_match_def safe_segment_text_def
      alnum_char_def in_range_char_def segment_char_def)

lemma demo_event_built: "\<exists>r. build_ops_event (std_lib h) (\<lambda>_. None) 0 demo_event = Inr r"
proof -
  have kinds: "ops_event_kinds (\<lambda>_. None) demo_event = Inr
     \<lparr>ok_category = CatRuns, ok_domain = ''weather'', ok_layer = LayRaw, ok_grain = AirflowTask, ok_status = RunSuccess,
      ok_source = RawManifest, ok_environment = EnvProd, ok_sink = None\<rparr>"
    by (simp add: ops_event_kinds_def demo_event_def coerce_category_def coerce_enum_def ops_categories_def
        state_categories_def demo_domain ops_layers_def ops_grains_def run_statuses_def rows_sources_def environments_def)
  have "in_range 63900000000000000" "in_range (63900000000000000 + kst_offset)"
    by (simp_all add: in_range_def max_instant_def us_per_day_def kst_offset_def hours_def)
  then show ?thesis
    by (simp add: build_ops_event_def kinds [unfolded demo_event_def] event_requirements_def missing_identifiers_def required_by_grain_def
        identifier_value_def or_empty_def observed_instant_def as_utc_def assume_utc_def event_path_date_def
        validate_rows_def validate_api_name_def checked_instant_def demo_event_def is_blank_graphic graphic_def)
qed

section \<open>Properties\<close>

text \<open>An accepted object key stays in the scope it was requested for and names it unambiguously: the
  key starts with the prefix its category, domain and control subtype are scanned by, and two requests
  with one key agree on the category, the domain, the subtype, the date and every path segment.\<close>

lemma ops_key_names_its_scope:
  assumes "ops_key category domain filename date control subpath = Inr k"
    and "ops_key category' domain' filename' date' control' subpath' = Inr k"
  shows "(\<exists>p rest. category_prefix category domain control = Inr p \<and> k = p @ rest)
    \<and> category = category' \<and> control = control' \<and> date = date'
    \<and> py_strip (or_empty domain) = py_strip (or_empty domain') \<and> ops_subpath subpath = ops_subpath subpath'
    \<and> safe_segment ''unknown'' filename = safe_segment ''unknown'' filename'"
proof -
  from assms(1) obtain cat where c: "category = category_value cat" "assert_domain domain = Inr (py_strip (or_empty domain))"
    "control \<noteq> None \<longleftrightarrow> cat = CatControl" "date \<noteq> None \<longleftrightarrow> cat \<in> set observation_categories"
    "\<forall>c. control = Some c \<longrightarrow> (\<exists>s. c = subtype_value s)" "\<forall>d. date = Some d \<longrightarrow> dollar_match iso_date_text d"
    "k = str_join ''/'' (key_parts cat control (py_strip (or_empty domain)) date subpath filename)" by (rule ops_key_Inr)
  from assms(2) obtain cat' where c': "category' = category_value cat'"
    "assert_domain domain' = Inr (py_strip (or_empty domain'))"
    "control' \<noteq> None \<longleftrightarrow> cat' = CatControl" "date' \<noteq> None \<longleftrightarrow> cat' \<in> set observation_categories"
    "\<forall>c. control' = Some c \<longrightarrow> (\<exists>s. c = subtype_value s)" "\<forall>d. date' = Some d \<longrightarrow> dollar_match iso_date_text d"
    "k = str_join ''/'' (key_parts cat' control' (py_strip (or_empty domain')) date' subpath' filename')" by (rule ops_key_Inr)
  have "key_parts cat control (py_strip (or_empty domain)) date subpath filename
      = key_parts cat' control' (py_strip (or_empty domain')) date' subpath' filename'"
    by (rule str_join_eq_iff [OF key_parts_ok [OF assert_domain_Inr(2) [OF c(2)] c(5,6)]
        key_parts_ok [OF assert_domain_Inr(2) [OF c'(2)] c'(5,6)] key_parts_nonempty key_parts_nonempty, THEN iffD1])
      (simp only: flip: c(7) c'(7))
  note parts = key_parts_inj [OF this c(3) c'(3) c(4) c'(4)]
  have "k = (str_join ''/'' (scope_parts cat control (py_strip (or_empty domain))) @ ''/'')
      @ str_join ''/'' (date_parts date @ ops_subpath subpath @ [safe_segment ''unknown'' filename])"
    unfolding c(7) key_parts_def by (subst str_join_prefix) (simp_all add: scope_parts_def)
  with category_prefix_scope [OF c(2,3,5)] parts c(1) c'(1) show ?thesis by blast
qed

lemma ops_key_names_its_scope_witness:
  "\<exists>k p rest. ops_key ''control'' (Some ''weather'') (Some ''a.json'') None (Some ''state'') [''v1''] = Inr k
     \<and> category_prefix ''control'' (Some ''weather'') (Some ''state'') = Inr p \<and> k = p @ rest"
proof -
  obtain k where k: "ops_key ''control'' (Some ''weather'') (Some ''a.json'') None (Some ''state'') [''v1''] = Inr k"
    by (simp add: ops_key_def coerce_category_def coerce_enum_def ops_categories_def demo_domain or_empty_def
        is_blank_graphic graphic_def ops_scope_parts_def ops_date_part_def control_subtypes_def observation_categories_def)
  from ops_key_names_its_scope [OF k k] k show ?thesis by blast
qed

text \<open>C24: An accepted record keeps the rules of the gate: it has exactly the listed fields in their order,
  an unknown row count is marked as not observed and only then, a count is not negative, no API name is
  a URL, every identifier its grain requires is there, and it is not a state category.\<close>

theorem accepted_event_keeps_the_rules:
  assumes "build_ops_event L env now a = Inr r"
  shows "map fst r = record_fields
    \<and> (dict_get ''row_count'' r = PNone \<longleftrightarrow> dict_get ''rows_source'' r = PStr ''not_observed'')
    \<and> (\<forall>i. dict_get ''row_count'' r = PInt i \<longrightarrow> 0 \<le> i)
    \<and> (\<forall>s. dict_get ''api_name'' r = PStr s \<longrightarrow> \<not> urlish s)
    \<and> (\<exists>g. dict_get ''grain'' r = PStr (grain_value g)
         \<and> (\<forall>n\<in>set (required_by_grain g). \<exists>s. dict_get n r = PStr s \<and> \<not> is_blank s))
    \<and> (\<exists>c. c \<notin> set state_categories \<and> dict_get ''source_category'' r = PStr (category_value c))"
proof -
  from assms obtain k observed rows api st en path_date where b:
    "ops_event_kinds env a = Inr k" "missing_identifiers a (ok_grain k) = []"
    "observed_instant L now a = Inr observed" "in_range (observed + kst_offset)"
    "validate_rows (oe_row_count a) (ok_source k) = Inr rows" "validate_api_name (oe_api_name a) = Inr api"
    "map fst r = record_fields"
    "\<forall>f\<in>set record_fields.
       dict_get f r = dict_get f (event_record L a k observed (observed + kst_offset) st en path_date rows api)"
    by (rule build_ops_event_Inr)
  have get: "dict_get ''row_count'' r = opt_int rows" "dict_get ''rows_source'' r = PStr (source_value (ok_source k))"
    "dict_get ''api_name'' r = opt_obj api" "dict_get ''grain'' r = PStr (grain_value (ok_grain k))"
    "dict_get ''source_category'' r = PStr (category_value (ok_category k))"
    by (simp_all add: b(8) event_record_get record_fields_def)
  have ids: "\<exists>s. dict_get n r = PStr s \<and> \<not> is_blank s" if "n \<in> set (required_by_grain (ok_grain k))" for n
    using identifier_recorded [OF b(2) that] required_names [OF that] b(8) by (auto simp: record_fields_def)
  have rows: "(rows = None \<longleftrightarrow> ok_source k = NotObserved)" "\<forall>i. rows = Some i \<longrightarrow> 0 \<le> i"
    using validate_rows_Inr [OF b(5)] by blast+
  show ?thesis
    using b(7) ids rows validate_api_name_Inr [OF b(6)] ops_event_kinds_Inr(1) [OF b(1)]
    by (intro conjI) (cases rows; cases api; auto simp: get)+
qed

lemma accepted_event_keeps_the_rules_witness:
  "\<exists>r. build_ops_event (std_lib id) (\<lambda>_. None) 0 demo_event = Inr r \<and> map fst r = record_fields"
proof -
  obtain r where r: "build_ops_event (std_lib id) (\<lambda>_. None) 0 demo_event = Inr r" using demo_event_built by blast
  from accepted_event_keeps_the_rules [OF r] r show ?thesis by blast
qed

text \<open>Every accepted record can be stored, and is stored under the Korean day of its own observation
  time and under its own category and domain, so a scan of a day finds exactly what was observed on it.\<close>

lemma event_is_stored_under_its_day:
  assumes "build_ops_event L env now a = Inr r"
  shows "\<exists>t p k rest. observed_instant L now a = Inr t \<and> dict_get ''observed_at'' r = PStr (isoformat t)
    \<and> category_prefix (oe_category a) (oe_domain a) None = Inr p \<and> event_object_key r = Inr k
    \<and> k = p @ ''observed_date='' @ date_str_dashed (t + kst_offset) @ ''/'' @ rest"
proof -
  from assms obtain c observed rows api st en path_date where b:
    "ops_event_kinds env a = Inr c" "missing_identifiers a (ok_grain c) = []"
    "observed_instant L now a = Inr observed" "in_range (observed + kst_offset)"
    "validate_rows (oe_row_count a) (ok_source c) = Inr rows" "validate_api_name (oe_api_name a) = Inr api"
    "map fst r = record_fields"
    "\<forall>f\<in>set record_fields.
       dict_get f r = dict_get f (event_record L a c observed (observed + kst_offset) st en path_date rows api)"
    by (rule build_ops_event_Inr)
  define day where "day = date_str_dashed (observed + kst_offset)"
  have get: "record_text ''source_category'' r = Some (category_value (ok_category c))"
    "record_text ''domain'' r = Some (ok_domain c)" "record_text ''observed_date_kst'' r = Some day"
    "dict_get ''observed_at'' r = PStr (isoformat observed)"
    by (simp_all add: b(8) event_record_get record_fields_def record_text_def day_def)
  note kinds = ops_event_kinds_Inr [OF b(1)]
  have cat: "ok_category c \<noteq> CatControl" "ok_category c \<in> set observation_categories"
    using kinds(1) by (cases "ok_category c"; simp add: state_categories_def observation_categories_def)+
  have day: "dollar_match iso_date_text day" by (simp add: dollar_match_def day_def date_str_dashed_def date_str_iso)
  let ?file = "Some (''event_id='' @ or_empty (record_text ''event_id'' r) @ ''.json'')"
  let ?sub = "ops_subpath [''dag_id='' @ safe_segment ''none'' (record_text ''dag_id'' r)]"
  have "event_object_key r = Inr (str_join ''/'' (scope_parts (ok_category c) None (ok_domain c)
      @ [''observed_date='' @ day] @ ?sub @ [safe_segment ''unknown'' ?file]))"
    using assert_domain_again [OF kinds(2)] cat day
    by (simp add: event_object_key_def ops_key_def get or_empty_def coerce_category_Inr_iff [THEN iffD2]
        is_blank_graphic graphic_def ops_scope_parts_def ops_date_part_def assert_iso_date_def scope_parts_def
        del: str_join.simps)
  moreover have "str_join ''/'' (scope_parts (ok_category c) None (ok_domain c)
      @ [''observed_date='' @ day] @ ?sub @ [safe_segment ''unknown'' ?file])
    = (str_join ''/'' (scope_parts (ok_category c) None (ok_domain c)) @ ''/'')
      @ ''observed_date='' @ day @ ''/'' @ str_join ''/'' (?sub @ [safe_segment ''unknown'' ?file])"
    by (subst str_join_prefix, simp, simp add: scope_parts_def, subst str_join_prefix) simp_all
  moreover have "category_prefix (oe_category a) (oe_domain a) None
      = Inr (str_join ''/'' (scope_parts (ok_category c) None (ok_domain c)) @ ''/'')"
    using category_prefix_scope [OF kinds(2), of None "ok_category c"] cat(1) kinds(3) by simp
  ultimately show ?thesis using b(3) get(4) unfolding day_def by metis
qed

lemma event_is_stored_under_its_day_witness:
  "\<exists>r k. build_ops_event (std_lib id) (\<lambda>_. None) 0 demo_event = Inr r \<and> event_object_key r = Inr k"
proof -
  obtain r where r: "build_ops_event (std_lib id) (\<lambda>_. None) 0 demo_event = Inr r" using demo_event_built by blast
  from event_is_stored_under_its_day [OF r] r show ?thesis by blast
qed

end
