(* ===== verification/Json_Storage.thy ===== *)
theory Json_Storage
  imports Py_Text
begin

text \<open>
  Object storage (\<open>dags/common/storage.py\<close>): the operations of \<open>Storage\<close> over any backend, the
  local file backend, and the conditional write of the R2 backend over its client.  The locale
  \<open>write_once_storage\<close> states what a client of conditional writes relies on, \<open>available_storage\<close>
  adds that the calls return; the local backend satisfies both, the R2 backend the first when the
  service honours \<open>If-None-Match\<close>.

  Keys of the local backend are normal relative paths, and no key is a directory of another.
\<close>

section \<open>Backends\<close>

text \<open>
  The primitive operations of a backend.  An operation that writes returns its result, or the
  exception, with the state it leaves.
\<close>

record 's storage =
  sto_put :: "string \<Rightarrow> string \<Rightarrow> 's \<Rightarrow> unit result \<times> 's"
  sto_put_if_absent :: "string \<Rightarrow> string \<Rightarrow> 's \<Rightarrow> bool result \<times> 's"
  sto_get :: "string \<Rightarrow> 's \<Rightarrow> string result"
  sto_exists :: "string \<Rightarrow> 's \<Rightarrow> bool"
  sto_list :: "string \<Rightarrow> 's \<Rightarrow> string list result"
  sto_delete :: "string \<Rightarrow> 's \<Rightarrow> 's"

text \<open>\<open>json.dumps(obj, ensure_ascii=False, indent=2)\<close> of values without infinities or NaN.\<close>

definition dumps_indent :: "pylib \<Rightarrow> pyobj \<Rightarrow> string result" where
  "dumps_indent L x =
     (if json_ok x then Inr (json_dumps_indent L x)
      else Inl (TypeError ''Object is not JSON serializable''))"

definition sto_copy :: "('s, 'b) storage_scheme \<Rightarrow> string \<Rightarrow> string \<Rightarrow> 's \<Rightarrow> unit result \<times> 's" where
  "sto_copy B src dst s =
     (case sto_get B src s of Inl e \<Rightarrow> (Inl e, s) | Inr d \<Rightarrow> sto_put B dst d s)"

definition sto_write_json :: "pylib \<Rightarrow> ('s, 'b) storage_scheme \<Rightarrow> string \<Rightarrow> pyobj \<Rightarrow> 's \<Rightarrow> unit result \<times> 's" where
  "sto_write_json L B k x s =
     (case dumps_indent L x of Inl e \<Rightarrow> (Inl e, s) | Inr d \<Rightarrow> sto_put B k d s)"

definition sto_write_json_if_absent ::
  "pylib \<Rightarrow> ('s, 'b) storage_scheme \<Rightarrow> string \<Rightarrow> pyobj \<Rightarrow> 's \<Rightarrow> bool result \<times> 's" where
  "sto_write_json_if_absent L B k x s =
     (case dumps_indent L x of Inl e \<Rightarrow> (Inl e, s) | Inr d \<Rightarrow> sto_put_if_absent B k d s)"

definition sto_read_json :: "pylib \<Rightarrow> ('s, 'b) storage_scheme \<Rightarrow> string \<Rightarrow> 's \<Rightarrow> pyobj result" where
  "sto_read_json L B k s =
     bind_result (sto_get B k s) (\<lambda>d.
     case json_loads L d of None \<Rightarrow> Inl (ValueError ''Expecting value'') | Some x \<Rightarrow> Inr x)"

subsection \<open>Local files\<close>

type_synonym files = "(string \<times> string) list"

definition file_del :: "string \<Rightarrow> files \<Rightarrow> files" where
  "file_del k fs = filter (\<lambda>f. fst f \<noteq> k) fs"

text \<open>The data is written to the key with \<open>.tmp\<close> appended, which then replaces the key.\<close>

definition local_put :: "string \<Rightarrow> string \<Rightarrow> files \<Rightarrow> unit result \<times> files" where
  "local_put k d fs =
     (let tmp = k @ ''.tmp''; written = dict_set tmp d fs
      in (Inr (), dict_set k d (file_del tmp written)))"

text \<open>The temporary file of \<open>write_bytes_if_absent\<close> has a fresh name and is removed again.\<close>

definition local_put_if_absent :: "string \<Rightarrow> string \<Rightarrow> files \<Rightarrow> bool result \<times> files" where
  "local_put_if_absent k d fs =
     (if map_of fs k = None then (Inr True, dict_set k d fs) else (Inr False, fs))"

definition local_get :: "string \<Rightarrow> files \<Rightarrow> string result" where
  "local_get k fs =
     (case map_of fs k of None \<Rightarrow> Inl (FileNotFoundError k) | Some d \<Rightarrow> Inr d)"

definition local_exists :: "string \<Rightarrow> files \<Rightarrow> bool" where
  "local_exists k fs \<longleftrightarrow> map_of fs k \<noteq> None"

text \<open>The prefix names a directory: the files below it.\<close>

definition as_directory :: "string \<Rightarrow> string" where
  "as_directory p = (if p = [] \<or> last p = CHR ''/'' then p else p @ ''/'')"

definition local_list :: "string \<Rightarrow> files \<Rightarrow> string list result" where
  "local_list p fs = Inr (sort (remdups (filter (is_prefix (as_directory p)) (map fst fs))))"

definition local_storage :: "files storage" where
  "local_storage =
     \<lparr>sto_put = local_put, sto_put_if_absent = local_put_if_absent, sto_get = local_get,
      sto_exists = local_exists, sto_list = local_list, sto_delete = file_del\<rparr>"

subsection \<open>R2\<close>

text \<open>
  The client of the object service: a conditional \<open>put_object\<close> answers with success or a
  \<open>ClientError\<close> with a code and an HTTP status.
\<close>

datatype put_answer = PutDone | PutError string int

record 's r2_client =
  r2_put :: "string \<Rightarrow> string \<Rightarrow> 's \<Rightarrow> unit result \<times> 's"
  r2_put_if_none_match :: "string \<Rightarrow> string \<Rightarrow> 's \<Rightarrow> put_answer \<times> 's"
  r2_get :: "string \<Rightarrow> 's \<Rightarrow> string result"
  r2_head :: "string \<Rightarrow> 's \<Rightarrow> unit result"
  r2_pages :: "string \<Rightarrow> 's \<Rightarrow> string list list result"
  r2_delete :: "string \<Rightarrow> 's \<Rightarrow> 's"

fun r2_attempts :: "('s, 'b) r2_client_scheme \<Rightarrow> nat \<Rightarrow> string \<Rightarrow> string \<Rightarrow> 's \<Rightarrow> bool result \<times> 's" where
  "r2_attempts C 0 k d s = (Inl (RuntimeError ''R2 conditional write conflicted repeatedly''), s)"
| "r2_attempts C (Suc n) k d s =
     (case r2_put_if_none_match C k d s of
        (PutDone, s') \<Rightarrow> (Inr True, s')
      | (PutError code status, s') \<Rightarrow>
          if code = ''PreconditionFailed'' \<or> status = 412 then (Inr False, s')
          else if code = ''ConditionalRequestConflict'' \<or> status = 409 then r2_attempts C n k d s'
          else (Inl (ClientError code), s'))"

definition r2_put_if_absent :: "('s, 'b) r2_client_scheme \<Rightarrow> string \<Rightarrow> string \<Rightarrow> 's \<Rightarrow> bool result \<times> 's" where
  "r2_put_if_absent C k d s = r2_attempts C 3 k d s"

definition r2_exists :: "('s, 'b) r2_client_scheme \<Rightarrow> string \<Rightarrow> 's \<Rightarrow> bool" where
  "r2_exists C k s = (case r2_head C k s of Inl _ \<Rightarrow> False | Inr _ \<Rightarrow> True)"

definition r2_list :: "('s, 'b) r2_client_scheme \<Rightarrow> string \<Rightarrow> 's \<Rightarrow> string list result" where
  "r2_list C p s = bind_result (r2_pages C p s) (\<lambda>ps. Inr (sort (concat ps)))"

definition r2_storage :: "('s, 'b) r2_client_scheme \<Rightarrow> 's storage" where
  "r2_storage C =
     \<lparr>sto_put = r2_put C, sto_put_if_absent = r2_put_if_absent C, sto_get = r2_get C,
      sto_exists = r2_exists C, sto_list = r2_list C, sto_delete = r2_delete C\<rparr>"

subsection \<open>The choice of a backend\<close>

datatype backend_choice = LocalBackend string | R2Backend "string list"

text \<open>\<open>r2_env\<close>: the setting \<open>R2_\<close> with the given name, which may carry the prefix itself.\<close>

definition remove_prefix :: "string \<Rightarrow> string \<Rightarrow> string" where
  "remove_prefix p s = (if is_prefix p s then drop (length p) s else s)"

definition env_text :: "(string \<Rightarrow> string option) \<Rightarrow> string \<Rightarrow> string \<Rightarrow> string" where
  "env_text env name dflt = (case env name of None \<Rightarrow> dflt | Some v \<Rightarrow> v)"

definition r2_env :: "(string \<Rightarrow> string option) \<Rightarrow> string \<Rightarrow> string result" where
  "r2_env env name =
     (let v = env_text env (''R2_'' @ remove_prefix ''R2_'' name) []
      in if v = [] then Inl (RuntimeError (''R2_'' @ remove_prefix ''R2_'' name)) else Inr v)"

definition build_storage :: "string \<Rightarrow> string \<Rightarrow> string list \<Rightarrow> backend_choice result" where
  "build_storage backend local_root r2 =
     (if backend = ''local'' then Inr (LocalBackend local_root)
      else if backend = ''r2'' then
        (if list_all (\<lambda>v. v \<noteq> []) (take 4 r2) then Inr (R2Backend r2)
         else Inl (ValueError ''R2 backend requires its settings''))
      else Inl (ValueError ''unknown storage backend''))"

definition resolve_storage :: "(string \<Rightarrow> string option) \<Rightarrow> backend_choice result" where
  "resolve_storage env =
     (let named = str_lower (py_strip (env_text env ''STORAGE_BACKEND'' []));
          has_r2 = list_all (\<lambda>p. env_text env (''R2_'' @ p) [] \<noteq> [])
                     [''BUCKET_NAME'', ''ENDPOINT'', ''ACCESS_KEY_ID'', ''SECRET_ACCESS_KEY''];
          backend = (if named = [] then (if has_r2 then ''r2'' else ''local'') else named)
      in if backend = ''local''
         then build_storage ''local'' (env_text env ''LOCAL_DATA_ROOT'' ''/opt/airflow/data'') []
         else
           bind_result (traverse (r2_env env)
               [''R2_BUCKET_NAME'', ''R2_ENDPOINT'', ''R2_ACCESS_KEY_ID'', ''R2_SECRET_ACCESS_KEY'']) (\<lambda>vs.
           build_storage ''r2'' [] (vs @ [env_text env ''R2_REGION'' ''auto''])))"

section \<open>What a client of conditional writes relies on\<close>

text \<open>
  \<open>objects\<close> abstracts the state to the bytes under each key.  A conditional write succeeds only on
  an absent key, and changes nothing else; a read returns what is there; a listing under a
  directory is the sorted list of its keys.
\<close>

locale write_once_storage = json_codec L for L :: pylib +
  fixes B :: "'s storage" and objects :: "'s \<Rightarrow> string \<Rightarrow> string option"
  assumes put_new: "sto_put_if_absent B k d s = (Inr True, s') \<Longrightarrow> objects s k = None \<and> objects s' = (objects s)(k := Some d)"
    and put_old: "sto_put_if_absent B k d s = (Inr False, s') \<Longrightarrow> objects s k \<noteq> None \<and> objects s' = objects s"
    and put_error: "sto_put_if_absent B k d s = (Inl e, s') \<Longrightarrow> objects s' = objects s"
    and get_object: "sto_get B k s = Inr d \<Longrightarrow> objects s k = Some d"
    and list_objects: "sto_list B p s = Inr ks \<Longrightarrow> p \<noteq> [] \<Longrightarrow> last p = CHR ''/'' \<Longrightarrow>
      set ks = {k. is_prefix p k \<and> objects s k \<noteq> None} \<and> sorted ks \<and> distinct ks"
begin

text \<open>The document under a key.\<close>

definition document_at :: "'s \<Rightarrow> string \<Rightarrow> pyobj option" where
  "document_at s k = Option.bind (objects s k) (json_loads L)"

lemma read_json_document: "sto_read_json L B k s = Inr x \<Longrightarrow> document_at s k = Some x"
  using get_object [of k s] by (auto simp: sto_read_json_def bind_result_Inr_iff document_at_def split: option.splits)

lemma write_json_new:
  assumes "sto_write_json_if_absent L B k x s = (Inr True, s')" "plain x"
  shows "objects s k = None \<and> document_at s' = (document_at s)(k := Some x)"
  using assms put_new [of k "json_dumps_indent L x" s s'] json_loads_indent [OF assms(2)]
  by (auto simp: sto_write_json_if_absent_def dumps_indent_def plain_json_ok document_at_def fun_eq_iff)

lemma write_json_old:
  assumes "sto_write_json_if_absent L B k x s = (Inr False, s')"
  shows "objects s k \<noteq> None \<and> objects s' = objects s"
  using assms put_old by (auto simp: sto_write_json_if_absent_def split: sum.splits)

lemma write_json_error: "sto_write_json_if_absent L B k x s = (Inl e, s') \<Longrightarrow> objects s' = objects s"
  using put_error by (auto simp: sto_write_json_if_absent_def split: sum.splits)

text \<open>Nothing that is stored is ever changed.\<close>

lemma write_json_extends:
  "sto_write_json_if_absent L B k x s = (r, s') \<Longrightarrow> objects s \<subseteq>\<^sub>m objects s'"
proof (cases r)
  case (Inr b)
  then show "sto_write_json_if_absent L B k x s = (r, s') \<Longrightarrow> objects s \<subseteq>\<^sub>m objects s'"
    using put_new put_old
    by (cases b) (auto simp: sto_write_json_if_absent_def map_le_def split: sum.splits)
qed (auto simp: map_le_def dest: write_json_error)

end

text \<open>A backend whose calls return: a present object is read, an absent one can be created.\<close>

locale available_storage = write_once_storage +
  assumes put_returns: "\<exists>b s'. sto_put_if_absent B k d s = (Inr b, s')"
    and get_returns: "objects s k = Some d \<Longrightarrow> sto_get B k s = Inr d"
    and list_returns: "\<exists>ks. sto_list B p s = Inr ks"
begin

lemma read_json_returns: "document_at s k = Some x \<Longrightarrow> sto_read_json L B k s = Inr x"
  by (auto simp: sto_read_json_def document_at_def bind_result_Inr_iff Option.bind_eq_Some_conv dest: get_returns)

lemma write_json_returns:
  "plain x \<Longrightarrow> \<exists>b s'. sto_write_json_if_absent L B k x s = (Inr b, s')"
  using put_returns by (simp add: sto_write_json_if_absent_def dumps_indent_def plain_json_ok)

end

text \<open>What the documentation of the object service promises of conditional creation.\<close>

locale r2_service = json_codec L for L :: pylib +
  fixes C :: "'s r2_client" and objects :: "'s \<Rightarrow> string \<Rightarrow> string option"
  assumes r2_created: "r2_put_if_none_match C k d s = (PutDone, s') \<Longrightarrow>
      objects s k = None \<and> objects s' = (objects s)(k := Some d)"
    and r2_refused: "r2_put_if_none_match C k d s = (PutError code status, s') \<Longrightarrow> objects s' = objects s"
    and r2_precondition: "r2_put_if_none_match C k d s = (PutError code status, s') \<Longrightarrow>
      code = ''PreconditionFailed'' \<or> status = 412 \<Longrightarrow> objects s k \<noteq> None"
    and r2_got: "r2_get C k s = Inr d \<Longrightarrow> objects s k = Some d"
    and r2_listed: "r2_pages C p s = Inr ps \<Longrightarrow>
      set (concat ps) = {k. is_prefix p k \<and> objects s k \<noteq> None} \<and> distinct (concat ps)"
begin

lemma r2_attempts_spec:
  assumes "r2_attempts C n k d s = (r, s')"
  shows "(r = Inr True \<longrightarrow> objects s k = None \<and> objects s' = (objects s)(k := Some d))
    \<and> (r \<noteq> Inr True \<longrightarrow> objects s' = objects s) \<and> (r = Inr False \<longrightarrow> objects s k \<noteq> None)"
  using assms
proof (induction n arbitrary: s)
  case (Suc n)
  obtain a t where put: "r2_put_if_none_match C k d s = (a, t)" by force
  show ?case
  proof (cases a)
    case PutDone
    with put Suc.prems r2_created [of k d s t] show ?thesis by auto
  next
    case (PutError code status)
    have same: "objects t = objects s" using r2_refused put PutError by blast
    have pre: "objects s k \<noteq> None" if "code = ''PreconditionFailed'' \<or> status = 412"
      using r2_precondition put PutError that by blast
    show ?thesis
    proof (cases "code = ''PreconditionFailed'' \<or> status = 412")
      case True
      with Suc.prems put PutError same pre show ?thesis by auto
    next
      case False
      then show ?thesis using Suc.prems Suc.IH [of t] put PutError same by (auto split: if_splits)
    qed
  qed
qed auto

end

sublocale r2_service \<subseteq> r2: write_once_storage L "r2_storage C" objects
proof
  fix p s ks
  assume "sto_list (r2_storage C) p s = Inr ks"
  then show "set ks = {k. is_prefix p k \<and> objects s k \<noteq> None} \<and> sorted ks \<and> distinct ks"
    using r2_listed by (auto simp: r2_storage_def r2_list_def bind_result_Inr_iff)
qed (auto simp: r2_storage_def r2_put_if_absent_def r2_got dest: r2_attempts_spec)

context r2_service
begin

lemma r2_write_once: "write_once_storage L (r2_storage C) objects"
  by (rule r2.write_once_storage_axioms)

end

section \<open>The backends satisfy the interfaces\<close>

lemma map_of_file_del: "map_of (file_del k fs) = (map_of fs)(k := None)"
  by (induction fs) (auto simp: file_del_def fun_eq_iff)

lemma local_storage_simps [simp]:
  "sto_put_if_absent local_storage = local_put_if_absent" "sto_get local_storage = local_get"
  "sto_list local_storage = local_list" "sto_put local_storage = local_put" "sto_delete local_storage = file_del"
  by (simp_all add: local_storage_def)

lemma local_put_if_absent_eq:
  "local_put_if_absent k d fs = (r, fs') \<longleftrightarrow>
     (if map_of fs k = None then r = Inr True \<and> fs' = dict_set k d fs else r = Inr False \<and> fs' = fs)"
  by (auto simp: local_put_if_absent_def)

lemma listed_keys: "set (filter (is_prefix p) (map fst fs)) = {k. is_prefix p k \<and> map_of fs k \<noteq> None}"
  unfolding map_of_eq_None_iff by auto

interpretation files: available_storage "std_lib h" local_storage map_of for h
proof
  fix p :: string and ks and s :: files
  assume "sto_list local_storage p s = Inr ks" "p \<noteq> []" "last p = CHR ''/''"
  then have "ks = sort (remdups (filter (is_prefix p) (map fst s)))" by (simp add: local_list_def as_directory_def)
  then show "set ks = {k. is_prefix p k \<and> map_of s k \<noteq> None} \<and> sorted ks \<and> distinct ks"
    by (simp only: set_sort set_remdups listed_keys sorted_sort distinct_sort distinct_remdups simp_thms)
next
  fix k d and s :: files
  show "\<exists>b s'. sto_put_if_absent local_storage k d s = (Inr b, s')" by (auto simp: local_put_if_absent_def)
qed (auto simp: local_put_if_absent_eq local_get_def local_list_def fun_upd_def split: option.splits if_splits)

text \<open>A service that honours the condition and never fails, as an instance of the interface.\<close>

definition plain_service :: "files r2_client" where
  "plain_service =
     \<lparr>r2_put = local_put,
      r2_put_if_none_match = (\<lambda>k d fs. if map_of fs k = None then (PutDone, dict_set k d fs)
                                       else (PutError ''PreconditionFailed'' 412, fs)),
      r2_get = local_get, r2_head = (\<lambda>k fs. bind_result (local_get k fs) (\<lambda>_. Inr ())),
      r2_pages = (\<lambda>p fs. Inr [remdups (filter (is_prefix p) (map fst fs))]), r2_delete = file_del\<rparr>"

interpretation service: r2_service "std_lib h" plain_service map_of for h
proof
  fix p :: string and ps and s :: files
  assume "r2_pages plain_service p s = Inr ps"
  then have "concat ps = remdups (filter (is_prefix p) (map fst s))" by (auto simp: plain_service_def)
  then show "set (concat ps) = {k. is_prefix p k \<and> map_of s k \<noteq> None} \<and> distinct (concat ps)"
    by (simp only: set_remdups listed_keys distinct_remdups simp_thms)
qed (auto simp: plain_service_def local_get_def fun_upd_def split: option.splits if_splits)

end
