(* ===== verification/Slot_Receipts.thy ===== *)
theory Slot_Receipts
  imports Slot_Contract Ops_Contract Json_Storage
begin

text \<open>
  Activation gates and write-once receipts of collection slots
  (\<open>dags/common/collection_slots/activation.py\<close> and \<open>receipts.py\<close>).  The lemmas show that recording
  never changes what is stored, that a recorded document is read back, that recording again changes
  nothing, and that different evidence under one identity is refused.
\<close>

section \<open>Activation\<close>

definition activation_utc :: "pylib \<Rightarrow> pyobj \<Rightarrow> string \<Rightarrow> int result" where
  "activation_utc L v field =
     coerce_utc L
       (CollectionSlotActivationError (field @ '' must be an ISO timestamp''))
       (CollectionSlotActivationError (field @ '' must be a datetime or ISO timestamp''))
       (CollectionSlotActivationError (field @ '' must include timezone''))
       (case v of PStr s \<Rightarrow> PStr (py_strip s) | _ \<Rightarrow> v)"

text \<open>\<open>None\<close> or blank text.\<close>

definition not_configured :: "pyobj \<Rightarrow> bool" where
  "not_configured v \<longleftrightarrow> (case v of PNone \<Rightarrow> True | PStr s \<Rightarrow> is_blank s | _ \<Rightarrow> False)"

definition parse_activation_at :: "pylib \<Rightarrow> pyobj \<Rightarrow> int option result" where
  "parse_activation_at L v =
     (if not_configured v then Inr None
      else bind_result (activation_utc L v ''activation_at'') (\<lambda>t. Inr (Some t)))"

definition require_policy_boundary :: "pylib \<Rightarrow> pyobj \<Rightarrow> string \<Rightarrow> int result" where
  "require_policy_boundary L v env_name =
     (if not_configured v then Inl (CollectionSlotActivationError (env_name @ '' must be configured''))
      else activation_utc L v env_name)"

definition is_slot_active :: "pylib \<Rightarrow> pyobj \<Rightarrow> pyobj \<Rightarrow> bool result" where
  "is_slot_active L slot_at activation_at =
     (if activation_at = PNone then Inr False
      else bind_result (activation_utc L slot_at ''slot_at'') (\<lambda>t.
           bind_result (activation_utc L activation_at ''activation_at'') (\<lambda>a.
           Inr (a \<le> t))))"

section \<open>Receipts\<close>

definition receipt_domain :: string where "receipt_domain = ''collection_slots''"
definition receipt_version :: string where "receipt_version = ''v1''"

definition expected_key :: "expected_slot \<Rightarrow> string result" where
  "expected_key s =
     ops_key (category_value CatControl) (Some receipt_domain) (Some (es_slot_id s @ ''.json'')) None
       (Some (subtype_value SubState))
       [receipt_version, ''expected'', ''domain='' @ es_domain s, ''source_id='' @ es_source_id s,
        ''slot_date='' @ take 10 (es_slot_at s)]"

definition outcome_key :: "collection_outcome \<Rightarrow> string result" where
  "outcome_key e =
     ops_key (category_value CatControl) (Some receipt_domain) (Some (co_event_id e @ ''.json'')) None
       (Some (subtype_value SubState))
       [receipt_version, ''events'', ''expected_slot_id='' @ co_slot_id e]"

definition write_idempotently ::
  "pylib \<Rightarrow> 's storage \<Rightarrow> string \<Rightarrow> pyobj pydict \<Rightarrow> string \<Rightarrow> 's \<Rightarrow> unit result \<times> 's" where
  "write_idempotently L B key doc identity_field s =
     (case sto_write_json_if_absent L B key (PDict doc) s of
        (Inl e, s') \<Rightarrow> (Inl e, s')
      | (Inr True, s') \<Rightarrow> (Inr (), s')
      | (Inr False, s') \<Rightarrow>
          (bind_result (sto_read_json L B key s') (\<lambda>existing.
           bind_result (slot_canonical_json L existing) (\<lambda>a.
           bind_result (slot_canonical_json L (PDict doc)) (\<lambda>b.
           if a \<noteq> b then Inl (ReceiptConflictError (identity_field @ '' conflict: '' @ key)) else Inr ()))), s'))"

definition record_expected :: "pylib \<Rightarrow> 's storage \<Rightarrow> expected_slot \<Rightarrow> 's \<Rightarrow> string result \<times> 's" where
  "record_expected L B slot s =
     (case expected_key slot of Inl e \<Rightarrow> (Inl e, s)
      | Inr key \<Rightarrow>
          (case slot_to_document L slot of Inl e \<Rightarrow> (Inl e, s)
           | Inr doc \<Rightarrow>
               (case write_idempotently L B key doc ''expected_slot_id'' s of
                  (r, s') \<Rightarrow> (bind_result r (\<lambda>_. Inr key), s'))))"

definition record_outcome :: "pylib \<Rightarrow> 's storage \<Rightarrow> collection_outcome \<Rightarrow> 's \<Rightarrow> string result \<times> 's" where
  "record_outcome L B e s =
     (case outcome_key e of Inl x \<Rightarrow> (Inl x, s)
      | Inr key \<Rightarrow>
          (case write_idempotently L B key (outcome_to_document e) ''event_id'' s of
             (r, s') \<Rightarrow> (bind_result r (\<lambda>_. Inr key), s')))"

section \<open>Keys of receipts\<close>

lemma receipt_domain_accepted: "assert_domain (Some receipt_domain) = Inr receipt_domain"
  by (simp add: receipt_domain_def assert_domain_def or_empty_def py_strip_graphic graphic_def dollar_match_def
      safe_segment_text_def alnum_char_def in_range_char_def segment_char_def)

lemma wide_not_graphic:
  "wide_space2 (of_char a) (of_char b) \<Longrightarrow> \<not> graphic a \<and> \<not> graphic b"
  "wide_space3 (of_char a) (of_char b) (of_char c) \<Longrightarrow> \<not> graphic a \<and> \<not> graphic b \<and> \<not> graphic c"
  by (auto simp: graphic_def)

lemma blank_no_graphic: "is_blank s \<Longrightarrow> c \<in> set s \<Longrightarrow> \<not> graphic c"
proof (induction s rule: is_blank.induct)
  case (3 a b)
  then show ?case using wide_not_graphic(1) [of a b] graphic_no_space
    by (auto simp: is_blank.simps simp del: wide_space2.simps split: if_splits)
next
  case (4 a b d s)
  then show ?case using wide_not_graphic(1) [of a b] wide_not_graphic(2) [of a b d] graphic_no_space
    by (simp add: is_blank.simps del: wide_space2.simps wide_space3.simps split: if_splits) metis+
qed (auto simp: is_blank.simps graphic_no_space)

lemma not_blank_suffix: "graphic c \<Longrightarrow> \<not> is_blank (s @ c # t)"
  using blank_no_graphic [of "s @ c # t" c] by auto

lemma expected_key_exists: "\<exists>k. expected_key s = Inr k"
proof -
  have "coerce_category (category_value CatControl) = Inr CatControl"
    "coerce_enum subtype_value control_subtypes r (subtype_value SubState) = Inr SubState" for r
    by (simp_all only: coerce_category_Inr_iff coerce_subtype_Inr_iff)
  then show ?thesis
    by (simp add: expected_key_def ops_key_def receipt_domain_accepted or_empty_def not_blank_suffix graphic_def
        ops_scope_parts_def ops_date_part_def observation_categories_def)
qed

lemma outcome_key_exists: "\<exists>k. outcome_key e = Inr k"
proof -
  have "coerce_category (category_value CatControl) = Inr CatControl"
    "coerce_enum subtype_value control_subtypes r (subtype_value SubState) = Inr SubState" for r
    by (simp_all only: coerce_category_Inr_iff coerce_subtype_Inr_iff)
  then show ?thesis
    by (simp add: outcome_key_def ops_key_def receipt_domain_accepted or_empty_def not_blank_suffix graphic_def
        ops_scope_parts_def ops_date_part_def observation_categories_def)
qed

section \<open>Recording over any store\<close>

lemma plain_slot_document: "slot_to_document L s = Inr doc \<Longrightarrow> plain (PDict doc)"
  by (auto simp: slot_to_document_def bind_result_Inr_iff)

lemma plain_outcome_document [simp]: "plain (PDict (outcome_to_document e))"
  by (simp add: outcome_to_document_def)

lemma canonical_plain: "plain x \<Longrightarrow> slot_canonical_json L x = Inr (render L (sort_keys x))"
  by (simp add: slot_canonical_json_def canonical_json_plain)

context write_once_storage
begin

lemma write_idempotently_extends:
  assumes "write_idempotently L B key doc f s = (r, s')"
  shows "objects s \<subseteq>\<^sub>m objects s'"
proof -
  obtain w t where w: "sto_write_json_if_absent L B key (PDict doc) s = (w, t)" by force
  have "t = s'" using assms w by (auto simp: write_idempotently_def split: sum.splits bool.splits)
  with write_json_extends [OF w] show ?thesis by simp
qed

lemma record_expected_extends: "record_expected L B slot s = (r, s') \<Longrightarrow> objects s \<subseteq>\<^sub>m objects s'"
  using write_idempotently_extends
  by (auto simp: record_expected_def split: sum.splits prod.splits)

lemma record_outcome_extends: "record_outcome L B e s = (r, s') \<Longrightarrow> objects s \<subseteq>\<^sub>m objects s'"
  using write_idempotently_extends
  by (auto simp: record_outcome_def split: sum.splits prod.splits)

text \<open>After a successful write the stored document says what was to be written.\<close>

lemma write_idempotently_stored:
  assumes "write_idempotently L B key doc f s = (Inr (), s')" "plain (PDict doc)"
  shows "\<exists>x. document_at s' key = Some x \<and> slot_canonical_json L x = slot_canonical_json L (PDict doc)"
proof -
  obtain w t where w: "sto_write_json_if_absent L B key (PDict doc) s = (w, t)" by force
  consider (new) "w = Inr True" "t = s'"
    | (old) "w = Inr False" "t = s'" "bind_result (sto_read_json L B key s') (\<lambda>existing.
           bind_result (slot_canonical_json L existing) (\<lambda>a.
           bind_result (slot_canonical_json L (PDict doc)) (\<lambda>b.
           if a \<noteq> b then Inl (ReceiptConflictError (f @ '' conflict: '' @ key)) else Inr ()))) = Inr ()"
    using assms(1) w by (auto simp: write_idempotently_def split: sum.splits bool.splits)
  then show ?thesis
  proof cases
    case new
    with w write_json_new [OF _ assms(2), of key s s'] show ?thesis by simp
  next
    case old
    then show ?thesis by (auto simp: bind_result_Inr_iff dest!: read_json_document split: if_splits)
  qed
qed

text \<open>A key that was absent holds exactly the document.\<close>

lemma write_idempotently_new:
  assumes "write_idempotently L B key doc f s = (Inr (), s')" "plain (PDict doc)" "objects s key = None"
  shows "document_at s' key = Some (PDict doc)"
proof -
  obtain w t where w: "sto_write_json_if_absent L B key (PDict doc) s = (w, t)" by force
  have "w = Inr True" "t = s'"
    using assms(1,3) w write_json_old [of key "PDict doc" s t]
    by (auto simp: write_idempotently_def split: sum.splits bool.splits)
  with w write_json_new [OF _ assms(2), of key s s'] show ?thesis by simp
qed

end

context available_storage
begin

text \<open>Writing what is already there succeeds and changes nothing; other evidence is refused.\<close>

lemma write_idempotently_again:
  assumes "document_at s key = Some x" "plain (PDict doc)"
  obtains s' where "objects s' = objects s"
    "write_idempotently L B key doc f s =
       (bind_result (slot_canonical_json L x) (\<lambda>a.
        if a \<noteq> render L (sort_keys (PDict doc)) then Inl (ReceiptConflictError (f @ '' conflict: '' @ key))
        else Inr ()), s')"
proof -
  obtain b s' where w: "sto_write_json_if_absent L B key (PDict doc) s = (Inr b, s')"
    using write_json_returns [OF assms(2)] by blast
  have present: "objects s key \<noteq> None" using assms(1) by (cases "objects s key") (auto simp: document_at_def)
  then have "b = False" using write_json_new [OF _ assms(2)] w by (cases b) auto
  with w have same: "objects s' = objects s" using write_json_old by blast
  then have "document_at s' = document_at s" by (simp add: document_at_def fun_eq_iff)
  then have "sto_read_json L B key s' = Inr x" using assms(1) read_json_returns by simp
  with that [OF same] w \<open>b = False\<close> canonical_plain [OF assms(2)] show thesis
    by (simp add: write_idempotently_def del: sort_keys.simps(2) render.simps)
qed

end

section \<open>Properties\<close>

text \<open>The local backend: a refused or repeated conditional write keeps the files themselves.\<close>

lemma local_write_again:
  assumes "files.document_at h s key = Some x" "plain (PDict doc)"
  shows "write_idempotently (std_lib h) local_storage key doc f s =
    (bind_result (slot_canonical_json (std_lib h) x) (\<lambda>a.
       if a \<noteq> render (std_lib h) (sort_keys (PDict doc))
       then Inl (ReceiptConflictError (f @ '' conflict: '' @ key)) else Inr ()), s)"
proof -
  obtain s' where s': "write_idempotently (std_lib h) local_storage key doc f s =
    (bind_result (slot_canonical_json (std_lib h) x) (\<lambda>a.
       if a \<noteq> render (std_lib h) (sort_keys (PDict doc))
       then Inl (ReceiptConflictError (f @ '' conflict: '' @ key)) else Inr ()), s')"
    by (rule files.write_idempotently_again [OF assms])
  have "map_of s key \<noteq> None" using assms(1) by (cases "map_of s key") (simp_all add: files.document_at_def)
  then obtain d where "map_of s key = Some d" by blast
  then have "snd (write_idempotently (std_lib h) local_storage key doc f s) = s"
    by (simp add: write_idempotently_def sto_write_json_if_absent_def dumps_indent_def plain_json_ok [OF assms(2)]
        local_put_if_absent_def)
  with s' show ?thesis by simp
qed

datatype receipt_op = RecordExpected expected_slot | RecordOutcome collection_outcome

fun record_receipt :: "pylib \<Rightarrow> 's storage \<Rightarrow> receipt_op \<Rightarrow> 's \<Rightarrow> string result \<times> 's" where
  "record_receipt L B (RecordExpected slot) s = record_expected L B slot s"
| "record_receipt L B (RecordOutcome e) s = record_outcome L B e s"

text \<open>A collector records one receipt after another, whatever the results.\<close>

definition record_receipts :: "pylib \<Rightarrow> 's storage \<Rightarrow> receipt_op list \<Rightarrow> 's \<Rightarrow> 's" where
  "record_receipts L B ops s = fold (\<lambda>op s. snd (record_receipt L B op s)) ops s"

context write_once_storage
begin

lemma record_receipt_extends: "record_receipt L B op s = (r, s') \<Longrightarrow> objects s \<subseteq>\<^sub>m objects s'"
  using record_expected_extends record_outcome_extends by (cases op) auto

lemma record_receipts_extends: "objects s \<subseteq>\<^sub>m objects (record_receipts L B ops s)"
proof (induction ops arbitrary: s)
  case Nil
  then show ?case by (simp add: record_receipts_def)
next
  case (Cons op ops)
  obtain r t where r: "record_receipt L B op s = (r, t)" by force
  from record_receipt_extends [OF r] have "objects s \<subseteq>\<^sub>m objects t" .
  also have "objects t \<subseteq>\<^sub>m objects (record_receipts L B ops t)" by (rule Cons.IH)
  finally (map_le_trans) show ?case using r by (simp add: record_receipts_def)
qed

lemma record_receipts_keeps: "objects s k = Some d \<Longrightarrow> objects (record_receipts L B ops s) k = Some d"
  using record_receipts_extends [of s ops] unfolding map_le_def by (metis domI)

end

text \<open>C18: Receipts are append-only: whatever sequence of slots and outcomes is recorded, and however many of
  the recordings are refused or fail, every object that was in the store keeps its content.  This holds of the
  store of local files, whose conditional writes are done as a whole, and of an R2 service that keeps the
  promise of conditional creation: it creates absent objects only, and a write it answers with an error has
  written nothing.\<close>

theorem receipts_are_append_only:
  assumes "r2_service (std_lib h) C objects"
  shows "(local_get k s = Inr d \<longrightarrow> local_get k (record_receipts (std_lib h) local_storage ops s) = Inr d)
    \<and> (objects t k = Some d \<longrightarrow> objects (record_receipts (std_lib h) (r2_storage C) ops t) k = Some d)"
proof -
  have "write_once_storage (std_lib h) (r2_storage C) objects"
    by (rule r2_service.r2_write_once [OF assms])
  from write_once_storage.record_receipts_keeps [OF this] files.record_receipts_keeps show ?thesis
    by (auto simp: local_get_def split: option.splits)
qed

definition other_event_at :: "outcome_args \<Rightarrow> pyobj \<Rightarrow> outcome_args" where
  "other_event_at a v = a\<lparr>oa_event_at := v\<rparr>"

lemma collection_outcome_create_fields:
  assumes "collection_outcome_create L a = Inr e"
  shows "oa_slot_id a = PStr (co_slot_id e) \<and> oa_event_type a = PStr (co_event_type e)
    \<and> oa_collection_state a = PStr (co_collection_state e) \<and> oa_recovery_state a = PStr (co_recovery_state e)
    \<and> oa_recovery_class a = PStr (co_recovery_class e) \<and> oa_dag_id a = PStr (co_dag_id e)
    \<and> oa_dag_run_id a = PStr (co_dag_run_id e) \<and> oa_task_id a = opt_obj (co_task_id e)
    \<and> oa_recovery_run_id a = opt_obj (co_recovery_run_id e)"
  using assms
  unfolding collection_outcome_create_def bind_result_Inr_iff slot_enum_Inr_iff slot_text_Inr_iff
    slot_opt_text_Inr_iff
  by (elim exE conjE) (simp only: sum.inject, hypsubst, simp)

lemma other_event_at_same:
  assumes "collection_outcome_create L a = Inr e" "collection_outcome_create L (other_event_at a v) = Inr e'"
  shows "co_event_id e' = co_event_id e" "co_slot_id e' = co_slot_id e"
proof -
  note f = collection_outcome_create_fields [OF assms(1)]
    collection_outcome_create_fields [OF assms(2), unfolded other_event_at_def, simplified]
  then have "co_slot_id e' = co_slot_id e" "co_event_type e' = co_event_type e"
    "co_collection_state e' = co_collection_state e" "co_recovery_state e' = co_recovery_state e"
    "co_recovery_class e' = co_recovery_class e" "co_dag_id e' = co_dag_id e"
    "co_dag_run_id e' = co_dag_run_id e" "co_task_id e' = co_task_id e"
    "co_recovery_run_id e' = co_recovery_run_id e" by (metis opt_obj_inj(1) pyobj.inject(4))+
  moreover have "outcome_wf L e" "outcome_wf L e'" using collection_outcome_create_Inr assms by blast+
  ultimately show "co_event_id e' = co_event_id e" "co_slot_id e' = co_slot_id e" by (simp_all add: outcome_wf_def)
qed

lemma record_outcome_local:
  assumes "record_outcome (std_lib h) local_storage e s = (Inr k, s')"
  shows "outcome_key e = Inr k"
    and "write_idempotently (std_lib h) local_storage k (outcome_to_document e) ''event_id'' s = (Inr (), s')"
  using assms by (auto simp: record_outcome_def bind_result_Inr_iff split: sum.splits prod.splits)

lemmas outcome_canonical = canonical_plain [OF plain_outcome_document]

lemma record_outcome_again:
  assumes "record_outcome (std_lib h) local_storage e s = (Inr k, s')"
    and "outcome_key e' = Inr k"
  shows "record_outcome (std_lib h) local_storage e' s' =
    (if slot_canonical_json (std_lib h) (PDict (outcome_to_document e')) = slot_canonical_json (std_lib h) (PDict (outcome_to_document e))
     then Inr k else Inl (ReceiptConflictError (''event_id conflict: '' @ k)), s')"
proof -
  obtain x where x: "files.document_at h s' k = Some x"
    "slot_canonical_json (std_lib h) x = slot_canonical_json (std_lib h) (PDict (outcome_to_document e))"
    using files.write_idempotently_stored [OF record_outcome_local(2) [OF assms(1)] plain_outcome_document] by blast
  show ?thesis
    using local_write_again [OF x(1) plain_outcome_document [of e'], of "''event_id''"] assms(2) x(2)
    by (simp add: record_outcome_def outcome_canonical del: sort_keys.simps(2) render.simps)
qed

lemma record_outcome_returns:
  assumes "outcome_key e = Inr k" "local_get k s = Inl x"
  shows "record_outcome (std_lib h) local_storage e s
    = (Inr k, dict_set k (json_dumps_indent (std_lib h) (PDict (outcome_to_document e))) s)"
proof -
  have "json_ok (PDict (outcome_to_document e))" by (rule plain_json_ok) (rule plain_outcome_document)
  moreover have "map_of s k = None" using assms(2) by (auto simp: local_get_def split: option.splits)
  ultimately show ?thesis
    by (simp add: record_outcome_def assms(1) write_idempotently_def sto_write_json_if_absent_def dumps_indent_def
        local_put_if_absent_def)
qed

text \<open>A recorded outcome is in the store and recording it again changes nothing: its key holds a document
  with its canonical text, and a retry of the same outcome succeeds with the same key and the same store.\<close>

lemma recorded_outcome_is_idempotent:
  assumes "record_outcome (std_lib h) local_storage e s = (Inr k, s')"
  shows "outcome_key e = Inr k
    \<and> (\<exists>x. sto_read_json (std_lib h) local_storage k s' = Inr x
          \<and> slot_canonical_json (std_lib h) x = slot_canonical_json (std_lib h) (PDict (outcome_to_document e)))
    \<and> record_outcome (std_lib h) local_storage e s' = (Inr k, s')"
proof -
  obtain x where "files.document_at h s' k = Some x"
    "slot_canonical_json (std_lib h) x = slot_canonical_json (std_lib h) (PDict (outcome_to_document e))"
    using files.write_idempotently_stored [OF record_outcome_local(2) [OF assms] plain_outcome_document] by blast
  with files.read_json_returns record_outcome_local(1) [OF assms] record_outcome_again [OF assms] show ?thesis by simp
qed

lemma recorded_outcome_is_idempotent_witness:
  "\<exists>e k s'. record_outcome (std_lib id) local_storage e [] = (Inr k, s')
     \<and> record_outcome (std_lib id) local_storage e s' = (Inr k, s')"
proof -
  fix e :: collection_outcome
  obtain k where k: "outcome_key e = Inr k" using outcome_key_exists by blast
  have "local_get k [] = Inl (FileNotFoundError k)" by (simp add: local_get_def)
  note r = record_outcome_returns [OF k this, of id]
  from recorded_outcome_is_idempotent [OF r] r show ?thesis by blast
qed

text \<open>The identity of an outcome leaves out when it happened, so a retried task that reports the same
  outcome with another event time gets the key of its first receipt and is refused: it raises
  \<open>ReceiptConflictError\<close> and the first receipt stays.\<close>

lemma same_event_at_another_time_conflicts:
  assumes "collection_outcome_create (std_lib h) a = Inr e"
    and "collection_outcome_create (std_lib h) (other_event_at a v) = Inr e'"
    and "co_event_at e' \<noteq> co_event_at e"
    and "record_outcome (std_lib h) local_storage e s = (Inr k, s')"
  shows "co_event_id e' = co_event_id e \<and>
    record_outcome (std_lib h) local_storage e' s' = (Inl (ReceiptConflictError (''event_id conflict: '' @ k)), s')"
proof -
  note same = other_event_at_same [OF assms(1,2)]
  have key: "outcome_key e' = Inr k"
    using record_outcome_local(1) [OF assms(4)] same by (simp add: outcome_key_def)
  have "sort_keys (PDict (outcome_to_document e')) \<noteq> sort_keys (PDict (outcome_to_document e))"
  proof
    assume "sort_keys (PDict (outcome_to_document e')) = sort_keys (PDict (outcome_to_document e))"
    from sort_keys_eq_get [OF this, of "''event_at''"] assms(3) show False
      by (simp add: dict_wf_def outcome_to_document_def)
  qed
  moreover have "plain (sort_keys (PDict (outcome_to_document d)))" for d
    unfolding plain_sort_keys by (rule plain_outcome_document)
  ultimately have "slot_canonical_json (std_lib h) (PDict (outcome_to_document e'))
      \<noteq> slot_canonical_json (std_lib h) (PDict (outcome_to_document e))"
    using render_inj by (simp add: outcome_canonical del: sort_keys.simps(2) render.simps)
  with record_outcome_again [OF assms(4) key] same show ?thesis by simp
qed

lemma same_event_at_another_time_conflicts_witness:
  "\<exists>e e' k s'. record_outcome (std_lib id) local_storage e [] = (Inr k, s') \<and> co_event_id e' = co_event_id e
     \<and> record_outcome (std_lib id) local_storage e' s' = (Inl (ReceiptConflictError (''event_id conflict: '' @ k)), s')"
proof -
  define a where "a = demo_outcome_args\<lparr>oa_event_at := PTime (Aware 63900000000000000)\<rparr>"
  obtain e where e: "collection_outcome_create (std_lib id) a = Inr e" "co_event_at e = isoformat 63900000000000000"
    using demo_outcome [of 63900000000000000 id] by (auto simp: a_def)
  obtain e' where e': "collection_outcome_create (std_lib id) (other_event_at a (PTime (Aware 63900003600000000))) = Inr e'"
    "co_event_at e' = isoformat 63900003600000000"
    using demo_outcome [of 63900003600000000 id] by (auto simp: a_def other_event_at_def)
  have times: "co_event_at e' \<noteq> co_event_at e" by (simp add: e(2) e'(2) isoformat_eq_iff)
  obtain k where k: "outcome_key e = Inr k" using outcome_key_exists by blast
  have "local_get k [] = Inl (FileNotFoundError k)" by (simp add: local_get_def)
  note r = record_outcome_returns [OF k this, of id]
  from same_event_at_another_time_conflicts [OF e(1) e'(1) times r] r show ?thesis by blast
qed

lemma receipts_are_append_only_witness:
  "\<exists>e e' k s d. record_outcome (std_lib id) local_storage e [] = (Inr k, s) \<and> local_get k s = Inr d
     \<and> record_outcome (std_lib id) local_storage e' s = (Inl (ReceiptConflictError (''event_id conflict: '' @ k)), s)
     \<and> local_get k (record_receipts (std_lib id) local_storage [RecordOutcome e', RecordOutcome e] s) = Inr d
     \<and> map_of (record_receipts (std_lib id) (r2_storage plain_service) [RecordOutcome e', RecordOutcome e] s) k = Some d"
proof -
  obtain e e' k s where run: "record_outcome (std_lib id) local_storage e [] = (Inr k, s)"
    "record_outcome (std_lib id) local_storage e' s = (Inl (ReceiptConflictError (''event_id conflict: '' @ k)), s)"
    using same_event_at_another_time_conflicts_witness by blast
  obtain d where d: "local_get k s = Inr d"
    using recorded_outcome_is_idempotent [OF run(1)] by (auto simp: sto_read_json_def bind_result_Inr_iff)
  then have "map_of s k = Some d" by (simp add: local_get_def split: option.split_asm)
  with run d receipts_are_append_only [OF service.r2_service_axioms [of id], where k = k and s = s and t = s
      and d = d and ops = "[RecordOutcome e', RecordOutcome e]"]
  show ?thesis by blast
qed

end
