(* ===== verification/Slot_Materializer.thy ===== *)
theory Slot_Materializer
  imports Slot_Receipts
begin

text \<open>
  Validation of a batch of receipts before it is written to the warehouse
  (\<open>dags/common/collection_slots/materializer.py\<close>).  The lemmas show that the documents the contract
  writes are accepted again unchanged, that an accepted batch is sorted, free of duplicates and
  refers only to declared slots, and that an invalid receipt stops the run before the sink is called.
\<close>

section \<open>Documents\<close>

definition receipt_root :: string where
  "receipt_root =
     (case category_prefix (category_value CatControl) (Some receipt_domain) (Some (subtype_value SubState)) of
        Inr p \<Rightarrow> p | Inl _ \<Rightarrow> [])"

definition expected_receipts_prefix :: string where
  "expected_receipts_prefix = receipt_root @ receipt_version @ ''/expected/''"

definition event_receipts_prefix :: string where
  "event_receipts_prefix = receipt_root @ receipt_version @ ''/events/''"

definition receipt_document :: "pyobj \<Rightarrow> string \<Rightarrow> pyobj pydict result" where
  "receipt_document v key =
     (case v of PDict d \<Rightarrow> Inr d
      | _ \<Rightarrow> Inl (MaterializationError (''receipt document must be an object: '' @ key)))"

definition require_fields :: "pyobj pydict \<Rightarrow> string list \<Rightarrow> string \<Rightarrow> unit result" where
  "require_fields d fs key =
     (let missing = filter (\<lambda>f. f \<notin> fst ` set d) fs
      in if missing \<noteq> []
         then Inl (MaterializationError (''receipt missing fields ('' @ str_join '', '' missing @ ''): '' @ key))
         else Inr ())"

definition expected_fields :: "string list" where
  "expected_fields =
     [''contract_version'', ''expected_slot_id'', ''domain'', ''collection_contract_id'', ''source_id'',
      ''collection_slot_at'', ''grain_key'', ''grain_json'', ''schedule_version'', ''scheduled_at'',
      ''deadline_at'', ''is_scheduled'', ''recovery_boundary_type'', ''recovery_boundary'', ''declared_at'',
      ''declared_by'']"

definition event_fields :: "string list" where
  "event_fields =
     [''event_id'', ''expected_slot_id'', ''event_type'', ''collection_state'', ''recovery_state'',
      ''recovery_class'', ''gap_reason_code'', ''dag_id'', ''dag_run_id'', ''task_id'', ''raw_manifest_key'',
      ''raw_object_count'', ''row_count'', ''source_result_code'', ''recovery_run_id'', ''recovered_at'',
      ''event_at'']"

definition document_slot_args :: "pyobj pydict \<Rightarrow> pyobj \<Rightarrow> slot_args" where
  "document_slot_args d grain =
     \<lparr>sa_contract_version = dict_get ''contract_version'' d, sa_domain = dict_get ''domain'' d,
      sa_contract_id = dict_get ''collection_contract_id'' d, sa_source_id = dict_get ''source_id'' d,
      sa_slot_at = dict_get ''collection_slot_at'' d, sa_scheduled_at = dict_get ''scheduled_at'' d,
      sa_deadline_at = dict_get ''deadline_at'' d, sa_grain = grain,
      sa_schedule_version = dict_get ''schedule_version'' d, sa_is_scheduled = dict_get ''is_scheduled'' d,
      sa_boundary_type = dict_get ''recovery_boundary_type'' d, sa_boundary = dict_get ''recovery_boundary'' d,
      sa_declared_at = dict_get ''declared_at'' d, sa_declared_by = dict_get ''declared_by'' d\<rparr>"

definition document_outcome_args :: "pyobj pydict \<Rightarrow> outcome_args" where
  "document_outcome_args d =
     \<lparr>oa_slot_id = dict_get ''expected_slot_id'' d, oa_collection_state = dict_get ''collection_state'' d,
      oa_recovery_state = dict_get ''recovery_state'' d, oa_recovery_class = dict_get ''recovery_class'' d,
      oa_event_at = dict_get ''event_at'' d, oa_dag_id = dict_get ''dag_id'' d,
      oa_dag_run_id = dict_get ''dag_run_id'' d, oa_event_type = dict_get ''event_type'' d,
      oa_gap_reason = dict_get ''gap_reason_code'' d, oa_task_id = dict_get ''task_id'' d,
      oa_manifest_key = dict_get ''raw_manifest_key'' d, oa_object_count = dict_get ''raw_object_count'' d,
      oa_row_count = dict_get ''row_count'' d, oa_result_code = dict_get ''source_result_code'' d,
      oa_recovery_run_id = dict_get ''recovery_run_id'' d, oa_recovered_at = dict_get ''recovered_at'' d,
      oa_evidence_code = dict_get ''recovery_evidence_code'' d\<rparr>"

text \<open>\<open>except (TypeError, ValueError)\<close>.\<close>

definition type_or_value_error :: "pyexc \<Rightarrow> bool" where
  "type_or_value_error e \<longleftrightarrow> is_type_error e \<or> is_value_error e"

definition receipt_grain :: "pylib \<Rightarrow> pyobj \<Rightarrow> string \<Rightarrow> pyobj result" where
  "receipt_grain L v key =
     (case v of
        PStr text \<Rightarrow>
          (case json_loads L text of
             None \<Rightarrow> Inl (MaterializationError (''grain_json is invalid JSON: '' @ key))
           | Some (PDict g) \<Rightarrow> Inr (PDict g)
           | Some _ \<Rightarrow> Inl (MaterializationError (''grain_json must contain an object: '' @ key)))
      | _ \<Rightarrow> Inl (MaterializationError (''grain_json must be a string: '' @ key)))"

definition expected_receipt :: "pylib \<Rightarrow> pyobj pydict \<Rightarrow> string \<Rightarrow> pyobj pydict result" where
  "expected_receipt L d key =
     bind_result (require_fields d expected_fields key) (\<lambda>_.
     bind_result (receipt_grain L (dict_get ''grain_json'' d) key) (\<lambda>grain.
     bind_result (try_except (expected_slot_create L (document_slot_args d grain)) type_or_value_error
         (\<lambda>_. Inl (MaterializationError (''expected receipt contract is invalid: '' @ key)))) (\<lambda>slot.
     if \<not> py_eq (PStr (es_slot_id slot)) (dict_get ''expected_slot_id'' d)
     then Inl (MaterializationError (''expected_slot_id identity mismatch: '' @ key))
     else bind_result (es_grain_key L slot) (\<lambda>gkey.
     if \<not> py_eq (PStr gkey) (dict_get ''grain_key'' d)
     then Inl (MaterializationError (''grain_key identity mismatch: '' @ key))
     else slot_to_document L slot))))"

definition event_receipt :: "pylib \<Rightarrow> pyobj pydict \<Rightarrow> string \<Rightarrow> pyobj pydict result" where
  "event_receipt L d key =
     bind_result (require_fields d event_fields key) (\<lambda>_.
     bind_result (try_except (collection_outcome_create L (document_outcome_args d)) type_or_value_error
         (\<lambda>_. Inl (MaterializationError (''event receipt contract is invalid: '' @ key)))) (\<lambda>e.
     if \<not> py_eq (PStr (co_event_id e)) (dict_get ''event_id'' d)
     then Inl (MaterializationError (''event_id identity mismatch: '' @ key))
     else Inr (outcome_to_document e)))"

section \<open>Batches\<close>

text \<open>\<open>str(document[field])\<close> of a normalised document, whose identities are text.\<close>

definition identity_text :: "string \<Rightarrow> pyobj pydict \<Rightarrow> string" where
  "identity_text field d = (case dict_get field d of PStr s \<Rightarrow> s | _ \<Rightarrow> [])"

definition dedup_receipt ::
  "pylib \<Rightarrow> string \<Rightarrow> pyobj pydict \<Rightarrow> (string \<times> pyobj pydict) list \<Rightarrow> (string \<times> pyobj pydict) list result" where
  "dedup_receipt L field d seen =
     (let i = identity_text field d in
      case map_of seen i of
        None \<Rightarrow> Inr (dict_set i d seen)
      | Some previous \<Rightarrow>
          bind_result (slot_canonical_json L (PDict previous)) (\<lambda>a.
          bind_result (slot_canonical_json L (PDict d)) (\<lambda>b.
          if a \<noteq> b then Inl (MaterializationError (field @ '' conflicting duplicate: '' @ i))
          else Inr (dict_set i d seen))))"

definition deduplicate :: "pylib \<Rightarrow> string \<Rightarrow> pyobj pydict list \<Rightarrow> pyobj pydict list result" where
  "deduplicate L field ds =
     bind_result (fold_result (dedup_receipt L field) ds []) (\<lambda>seen.
     Inr (map snd (sort_key fst seen)))"

record receipt_batch =
  rb_expected :: "pyobj pydict list"
  rb_events :: "pyobj pydict list"

definition read_receipts ::
  "pylib \<Rightarrow> 's storage \<Rightarrow> string \<Rightarrow> (pyobj pydict \<Rightarrow> string \<Rightarrow> pyobj pydict result) \<Rightarrow> 's \<Rightarrow> pyobj pydict list result" where
  "read_receipts L B prefix check s =
     bind_result (sto_list B prefix s) (\<lambda>ks.
     traverse (\<lambda>k. bind_result (sto_read_json L B k s) (\<lambda>v.
                   bind_result (receipt_document v k) (\<lambda>d. check d k)))
       (filter (is_suffix ''.json'') ks))"

definition read_batch :: "pylib \<Rightarrow> 's storage \<Rightarrow> 's \<Rightarrow> receipt_batch result" where
  "read_batch L B s =
     bind_result (read_receipts L B expected_receipts_prefix (expected_receipt L) s) (\<lambda>ds.
     bind_result (deduplicate L ''expected_slot_id'' ds) (\<lambda>expected.
     let expected_ids = map (identity_text ''expected_slot_id'') expected in
     bind_result (read_receipts L B event_receipts_prefix (event_receipt L) s) (\<lambda>es.
     bind_result (deduplicate L ''event_id'' es) (\<lambda>events.
     let unknown = sort (remdups (filter (\<lambda>i. i \<notin> set expected_ids)
           (map (identity_text ''expected_slot_id'') events))) in
     if unknown \<noteq> []
     then Inl (MaterializationError (''event references unknown expected_slot_id: '' @ str_join '', '' unknown))
     else Inr \<lparr>rb_expected = expected, rb_events = events\<rparr>))))"

text \<open>The sink: each call returns a count or raises, with the state it leaves.\<close>

record 't slot_sink =
  sink_expected :: "pyobj pydict list \<Rightarrow> 't \<Rightarrow> int result \<times> 't"
  sink_events :: "pyobj pydict list \<Rightarrow> 't \<Rightarrow> int result \<times> 't"

definition run_materializer ::
  "pylib \<Rightarrow> 's storage \<Rightarrow> 't slot_sink \<Rightarrow> 's \<Rightarrow> 't \<Rightarrow> (int \<times> int) result \<times> 't" where
  "run_materializer L B K s t =
     (case read_batch L B s of
        Inl e \<Rightarrow> (Inl e, t)
      | Inr b \<Rightarrow>
          (case sink_expected K (rb_expected b) t of
             (Inl e, t') \<Rightarrow> (Inl e, t')
           | (Inr n, t') \<Rightarrow>
               (case sink_events K (rb_events b) t' of
                  (Inl e, t'') \<Rightarrow> (Inl e, t'')
                | (Inr m, t'') \<Rightarrow> (Inr (n, m), t''))))"

section \<open>Accepted documents\<close>

lemma expected_receipt_Inr:
  assumes "expected_receipt L d key = Inr r"
  obtains slot where "slot_wf L slot" "slot_to_document L slot = Inr r" "identity_text ''expected_slot_id'' r = es_slot_id slot"
proof -
  from assms obtain g slot where s: "try_except (expected_slot_create L (document_slot_args d g)) type_or_value_error
         (\<lambda>_. Inl (MaterializationError (''expected receipt contract is invalid: '' @ key))) = Inr slot"
    "slot_to_document L slot = Inr r"
    by (auto simp: expected_receipt_def bind_result_Inr_iff simp del: py_eq_PStr split: if_splits)
  then have "slot_wf L slot" by (auto simp: try_except_Inr_iff intro: expected_slot_create_Inr(1))
  moreover have "identity_text ''expected_slot_id'' r = es_slot_id slot"
    using s(2) by (auto simp: slot_to_document_def bind_result_Inr_iff identity_text_def)
  ultimately show thesis using that s(2) by blast
qed

lemma event_receipt_Inr:
  assumes "event_receipt L d key = Inr r"
  obtains e where "outcome_wf L e" "r = outcome_to_document e"
proof -
  from assms obtain e where "try_except (collection_outcome_create L (document_outcome_args d)) type_or_value_error
         (\<lambda>_. Inl (MaterializationError (''event receipt contract is invalid: '' @ key))) = Inr e"
    "r = outcome_to_document e"
    by (auto simp: event_receipt_def bind_result_Inr_iff simp del: py_eq_PStr split: if_splits)
  then show thesis using that collection_outcome_create_Inr by (auto simp: try_except_Inr_iff)
qed

lemma outcome_identity [simp]:
  "identity_text ''expected_slot_id'' (outcome_to_document e) = co_slot_id e"
  "identity_text ''event_id'' (outcome_to_document e) = co_event_id e"
  by (simp_all add: identity_text_def outcome_to_document_def)

text \<open>A slot as the contract creates it of plain documents.\<close>

definition valid_slot :: "pylib \<Rightarrow> expected_slot \<Rightarrow> bool" where
  "valid_slot L s \<longleftrightarrow> slot_wf L s \<and> slot_grain L (PDict (es_grain s)) = Inr (es_grain s)
     \<and> plain (PDict (es_grain s)) \<and> sort_keys (PDict (es_grain s)) = PDict (es_grain s)"

lemma require_fields_ok: "set fs \<subseteq> fst ` set d \<Longrightarrow> require_fields d fs key = Inr ()"
  by (auto simp: require_fields_def Let_def filter_empty_conv)

context json_codec
begin

lemma created_slot_valid: "expected_slot_create L a = Inr s \<Longrightarrow> plain (sa_grain a) \<Longrightarrow> valid_slot L s"
  using expected_slot_create_Inr slot_grain_again by (simp add: valid_slot_def)

lemma expected_receipt_document:
  assumes "valid_slot L s" "slot_to_document L s = Inr doc"
  shows "expected_receipt L doc key = Inr doc"
proof -
  let ?text = "render L (PDict (es_grain s))"
  have v: "slot_wf L s" "slot_grain L (PDict (es_grain s)) = Inr (es_grain s)" "plain (PDict (es_grain s))"
    "sort_keys (PDict (es_grain s)) = PDict (es_grain s)" using assms(1) by (simp_all only: valid_slot_def)
  have canon: "slot_canonical_json L (PDict (es_grain s)) = Inr ?text"
    using canonical_plain [OF v(3)] v(4) by simp
  then have key: "es_grain_key L s = Inr (sha256_hex L ?text)" by (simp only: es_grain_key_def bind_result_simps)
  have doc: "dict_get ''grain_json'' doc = PStr ?text" "dict_get ''expected_slot_id'' doc = PStr (es_slot_id s)"
    "dict_get ''grain_key'' doc = PStr (sha256_hex L ?text)" "set expected_fields \<subseteq> fst ` set doc"
    "document_slot_args doc (PDict (es_grain s)) = slot_create_kwargs s"
    using assms(2) canon key
    by (auto simp: slot_to_document_def document_slot_args_def slot_create_kwargs_def expected_fields_def
        simp del: render.simps sort_keys.simps)
  have "receipt_grain L (PStr ?text) key = Inr (PDict (es_grain s))"
    using json_loads_render [OF v(3)] by (simp add: receipt_grain_def del: render.simps)
  then show ?thesis
    using doc require_fields_ok [OF doc(4)] slot_wf_again [OF v(1,2)] key assms(2)
    by (simp add: expected_receipt_def del: render.simps)
qed

lemma event_receipt_document:
  assumes "outcome_wf L e"
  shows "event_receipt L (outcome_to_document e) key = Inr (outcome_to_document e)"
proof -
  have "document_outcome_args (outcome_to_document e) = outcome_kwargs e"
    by (simp add: document_outcome_args_def outcome_kwargs_def outcome_to_document_def)
  moreover have "require_fields (outcome_to_document e) event_fields key = Inr ()"
    by (rule require_fields_ok) (simp add: event_fields_def outcome_to_document_def)
  moreover have "dict_get ''event_id'' (outcome_to_document e) = PStr (co_event_id e)"
    by (simp add: outcome_to_document_def)
  ultimately show ?thesis using outcome_wf_again [OF assms] by (simp add: event_receipt_def)
qed

end

section \<open>Accepted batches\<close>

lemma set_dict_set: "set (dict_set k v d) \<subseteq> insert (k, v) (set d)"
  by (induction k v d rule: dict_set.induct) (auto split: if_splits)

lemma dedup_receipt_Inr: "dedup_receipt L f d seen = Inr t \<Longrightarrow> t = dict_set (identity_text f d) d seen"
  by (auto simp: dedup_receipt_def Let_def bind_result_Inr_iff split: option.splits if_splits)

lemma dedup_receipts:
  assumes "fold_result (dedup_receipt L f) ds seen = Inr seen'" "dict_wf seen" "\<forall>p\<in>set seen. identity_text f (snd p) = fst p"
  shows "dict_wf seen' \<and> (\<forall>p\<in>set seen'. identity_text f (snd p) = fst p)
    \<and> fst ` set seen' = fst ` set seen \<union> identity_text f ` set ds \<and> snd ` set seen' \<subseteq> snd ` set seen \<union> set ds"
  using assms
proof (induction ds arbitrary: seen)
  case (Cons d ds)
  let ?t = "dict_set (identity_text f d) d seen"
  from Cons.prems(1) have rest: "fold_result (dedup_receipt L f) ds ?t = Inr seen'"
    by (auto split: sum.splits dest: dedup_receipt_Inr)
  have "\<forall>p\<in>set ?t. identity_text f (snd p) = fst p"
    using Cons.prems(3) set_dict_set [of "identity_text f d" d seen] by auto
  moreover have "dict_wf ?t" using Cons.prems(2) by blast
  moreover have "snd ` set ?t \<subseteq> insert d (snd ` set seen)"
    using set_dict_set [of "identity_text f d" d seen] by auto
  moreover note Cons.IH [OF rest]
  ultimately have "snd ` set seen' \<subseteq> insert d (snd ` set seen) \<union> set ds" and ih: "dict_wf seen'"
    "\<forall>p\<in>set seen'. identity_text f (snd p) = fst p" "fst ` set seen' = fst ` set ?t \<union> identity_text f ` set ds"
    by (blast dest: subsetD)+
  with ih show ?case by simp
qed simp

lemma deduplicate_Inr:
  assumes "deduplicate L f ds = Inr rs"
  shows "sorted (map (identity_text f) rs)" "distinct (map (identity_text f) rs)" "set rs \<subseteq> set ds"
    "identity_text f ` set rs = identity_text f ` set ds"
proof -
  from assms obtain seen where s: "fold_result (dedup_receipt L f) ds [] = Inr seen" "rs = map snd (sort_key fst seen)"
    by (auto simp: deduplicate_def bind_result_Inr_iff)
  note d = dedup_receipts [OF s(1), simplified]
  have ids: "map (identity_text f) rs = map fst (sort_key fst seen)"
    unfolding s(2) map_map by (rule map_cong) (use d in auto)
  show "sorted (map (identity_text f) rs)" unfolding ids by simp
  have "distinct (map fst seen)" using d by (simp add: dict_wf_def)
  then show "distinct (map (identity_text f) rs)"
    unfolding ids by (metis distinct_map distinct_sort set_sort)
  show "set rs \<subseteq> set ds" using d by (auto simp: s(2))
  have "identity_text f ` set rs = set (map (identity_text f) rs)" by simp
  also have "\<dots> = identity_text f ` set ds" unfolding ids using d by simp
  finally show "identity_text f ` set rs = identity_text f ` set ds" .
qed

lemma read_receipts_checked:
  assumes "read_receipts L B p check s = Inr rs" "r \<in> set rs"
  shows "\<exists>d k. check d k = Inr r"
proof -
  from assms(1) obtain ks where "traverse (\<lambda>k. bind_result (sto_read_json L B k s) (\<lambda>v.
      bind_result (receipt_document v k) (\<lambda>d. check d k))) ks = Inr rs"
    by (auto simp: read_receipts_def bind_result_Inr_iff)
  from traverse_set [OF this assms(2)] show ?thesis by (force simp: bind_result_Inr_iff)
qed

lemma traverse_Inl: "x \<in> set xs \<Longrightarrow> f x = Inl e \<Longrightarrow> \<exists>e'. traverse f xs = Inl e'"
  by (induction xs) (auto split: sum.splits)

text \<open>Stores with one file, for the applications.\<close>

lemma receipt_root_eq: "receipt_root = ''ops/control/state/collection_slots/''"
proof -
  have "category_prefix (category_value CatControl) (Some receipt_domain) (Some (subtype_value SubState))
    = Inr (str_join ''/'' (scope_parts CatControl (Some (subtype_value SubState)) receipt_domain) @ ''/'')"
    by (rule category_prefix_scope [OF receipt_domain_accepted]) (simp, blast)
  then show ?thesis by (simp add: receipt_root_def scope_parts_def ops_root_def receipt_domain_def)
qed

definition demo_receipt_key :: string where
  "demo_receipt_key = ''ops/control/state/collection_slots/v1/expected/a.json''"

lemma demo_receipt_listed:
  "local_list expected_receipts_prefix [(demo_receipt_key, d)] = Inr [demo_receipt_key]"
  "local_list event_receipts_prefix [(demo_receipt_key, d)] = Inr []"
  "is_suffix ''.json'' demo_receipt_key"
  by (simp_all add: local_list_def as_directory_def expected_receipts_prefix_def event_receipts_prefix_def
      receipt_root_eq receipt_version_def demo_receipt_key_def is_suffix_def)

lemma demo_batch:
  assumes "valid_slot (std_lib h) slot" "slot_to_document (std_lib h) slot = Inr doc"
  shows "read_batch (std_lib h) local_storage [(demo_receipt_key, json_dumps_indent (std_lib h) (PDict doc))]
    = Inr \<lparr>rb_expected = [doc], rb_events = []\<rparr>"
proof -
  have "parse_json (json_dumps_indent (std_lib h) (PDict doc)) = Some (PDict doc)"
    using std.json_loads_indent [OF plain_slot_document [OF assms(2)], of h] by simp
  then have "sto_read_json (std_lib h) local_storage demo_receipt_key [(demo_receipt_key, json_dumps_indent (std_lib h) (PDict doc))]
      = Inr (PDict doc)" by (simp add: sto_read_json_def local_get_def)
  then show ?thesis
    using std.expected_receipt_document [OF assms, of demo_receipt_key]
    by (simp add: read_batch_def read_receipts_def demo_receipt_listed receipt_document_def deduplicate_def
        dedup_receipt_def Let_def)
qed

section \<open>Properties\<close>

text \<open>C19: An accepted batch is what the warehouse may trust: both tables are sorted by identity without
  duplicates, every row is the document of a well-formed slot or of a consistent outcome, and every
  event belongs to a declared slot of the batch.\<close>

theorem materialized_batch_is_consistent:
  assumes "read_batch L B s = Inr b"
  shows "(let ids = map (identity_text ''expected_slot_id'') (rb_expected b); evs = map (identity_text ''event_id'') (rb_events b)
      in sorted ids \<and> distinct ids \<and> sorted evs \<and> distinct evs)
    \<and> (\<forall>r\<in>set (rb_expected b). \<exists>slot. slot_wf L slot \<and> slot_to_document L slot = Inr r)
    \<and> (\<forall>r\<in>set (rb_events b). \<exists>e. outcome_wf L e \<and> outcome_consistent e \<and> r = outcome_to_document e
         \<and> (\<exists>x\<in>set (rb_expected b). identity_text ''expected_slot_id'' x = co_slot_id e))"
proof -
  from assms obtain ds expected es events where r:
    "read_receipts L B expected_receipts_prefix (expected_receipt L) s = Inr ds"
    "deduplicate L ''expected_slot_id'' ds = Inr expected"
    "read_receipts L B event_receipts_prefix (event_receipt L) s = Inr es"
    "deduplicate L ''event_id'' es = Inr events"
    "sort (remdups (filter (\<lambda>i. i \<notin> set (map (identity_text ''expected_slot_id'') expected))
       (map (identity_text ''expected_slot_id'') events))) = []"
    "b = \<lparr>rb_expected = expected, rb_events = events\<rparr>"
    by (auto simp: read_batch_def bind_result_Inr_iff Let_def split: if_splits)
  note e = deduplicate_Inr [OF r(2)] and v = deduplicate_Inr [OF r(4)]
  have slots: "\<exists>slot. slot_wf L slot \<and> slot_to_document L slot = Inr x" if "x \<in> set expected" for x
    using that e(3) read_receipts_checked [OF r(1)] by (meson expected_receipt_Inr subsetD)
  have outs: "\<exists>o'. outcome_wf L o' \<and> x = outcome_to_document o'" if "x \<in> set events" for x
    using that v(3) read_receipts_checked [OF r(3)] by (meson event_receipt_Inr subsetD)
  have known: "\<exists>y\<in>set expected. identity_text ''expected_slot_id'' y = identity_text ''expected_slot_id'' x"
    if "x \<in> set events" for x
  proof -
    have "{i \<in> identity_text ''expected_slot_id'' ` set events. i \<notin> identity_text ''expected_slot_id'' ` set expected} = {}"
      using arg_cong [OF r(5), of set] by (simp only: set_sort set_remdups list.set set_filter set_map)
    with that have "identity_text ''expected_slot_id'' x \<in> identity_text ''expected_slot_id'' ` set expected" by blast
    then show ?thesis by (elim imageE) (rule bexI, rule sym)
  qed
  have evs: "\<exists>e. outcome_wf L e \<and> outcome_consistent e \<and> x = outcome_to_document e
      \<and> (\<exists>y\<in>set expected. identity_text ''expected_slot_id'' y = co_slot_id e)" if x: "x \<in> set events" for x
  proof -
    obtain e where "outcome_wf L e" "x = outcome_to_document e" using outs [OF x] by blast
    with known [OF x] outcome_wf_consistent show ?thesis by auto
  qed
  show ?thesis
    unfolding r(6) receipt_batch.select_convs Let_def
    by (intro conjI ballI e(1,2) v(1,2) slots evs)
qed

lemma materialized_batch_is_consistent_witness:
  "\<exists>slot doc. slot_to_document (std_lib id) slot = Inr doc
     \<and> read_batch (std_lib id) local_storage [(demo_receipt_key, json_dumps_indent (std_lib id) (PDict doc))]
         = Inr \<lparr>rb_expected = [doc], rb_events = []\<rparr>
     \<and> sorted (map (identity_text ''expected_slot_id'') [doc])"
proof -
  obtain slot where slot: "expected_slot_create (std_lib id) demo_slot_args = Inr slot" using demo_slot by blast
  have v: "valid_slot (std_lib id) slot" by (rule std.created_slot_valid [OF slot demo_grain_plain])
  then have "plain (PDict (es_grain slot))" by (simp only: valid_slot_def)
  from canonical_plain [OF this] obtain doc where doc: "slot_to_document (std_lib id) slot = Inr doc"
    by (simp add: slot_to_document_def es_grain_key_def del: render.simps sort_keys.simps)
  from materialized_batch_is_consistent [OF demo_batch [OF v doc]] demo_batch [OF v doc] doc
  show ?thesis unfolding Let_def receipt_batch.select_convs by blast
qed

text \<open>What the contract writes, the materializer accepts unchanged: the document of a created slot and
  the document of an accepted outcome are normalised to themselves.\<close>

lemma contract_documents_are_accepted:
  assumes "expected_slot_create (std_lib h) a = Inr slot" "plain (sa_grain a)"
    and "collection_outcome_create (std_lib h) o' = Inr e"
  shows "(\<exists>doc. slot_to_document (std_lib h) slot = Inr doc \<and> expected_receipt (std_lib h) doc key = Inr doc)
    \<and> event_receipt (std_lib h) (outcome_to_document e) key = Inr (outcome_to_document e)"
proof -
  have v: "valid_slot (std_lib h) slot" by (rule std.created_slot_valid [OF assms(1,2)])
  then have "plain (PDict (es_grain slot))" by (simp only: valid_slot_def)
  from canonical_plain [OF this] obtain doc where "slot_to_document (std_lib h) slot = Inr doc"
    by (simp add: slot_to_document_def es_grain_key_def del: render.simps sort_keys.simps)
  with std.expected_receipt_document [OF v this] std.event_receipt_document [OF collection_outcome_create_Inr [OF assms(3)]]
  show ?thesis by blast
qed

lemma contract_documents_are_accepted_witness:
  "\<exists>slot doc. expected_slot_create (std_lib id) demo_slot_args = Inr slot \<and> slot_to_document (std_lib id) slot = Inr doc
     \<and> expected_receipt (std_lib id) doc ''k'' = Inr doc"
proof -
  obtain slot where slot: "expected_slot_create (std_lib id) demo_slot_args = Inr slot" using demo_slot by blast
  obtain e where e: "collection_outcome_create (std_lib id)
      (demo_outcome_args\<lparr>oa_event_at := PTime (Aware 63900000000000000)\<rparr>) = Inr e"
    using demo_outcome [of 63900000000000000 id] by auto
  from contract_documents_are_accepted [OF slot demo_grain_plain e, of "''k''"] slot show ?thesis by blast
qed

text \<open>C23: The run fails closed: when any receipt under one of the two prefixes cannot be read, is not an
  object or violates the contract, the run raises and the sink is never called.\<close>

theorem invalid_receipt_stops_before_the_sink:
  assumes "(prefix, check) \<in> {(expected_receipts_prefix, expected_receipt L), (event_receipts_prefix, event_receipt L)}"
    and "sto_list B prefix s = Inr ks" "k \<in> set ks" "is_suffix ''.json'' k"
    and "bind_result (sto_read_json L B k s) (\<lambda>v. bind_result (receipt_document v k) (\<lambda>d. check d k)) = Inl x"
  shows "\<exists>e. run_materializer L B K s t = (Inl e, t)"
proof -
  let ?read = "\<lambda>k. bind_result (sto_read_json L B k s) (\<lambda>v. bind_result (receipt_document v k) (\<lambda>d. check d k))"
  have "k \<in> set (filter (is_suffix ''.json'') ks)" using assms(3,4) by simp
  from traverse_Inl [OF this, of ?read, OF assms(5)]
  obtain e where "read_receipts L B prefix check s = Inl e" using assms(2) by (auto simp: read_receipts_def)
  with assms(1) have "\<exists>e. read_batch L B s = Inl e"
  proof (elim insertE)
    assume "(prefix, check) = (expected_receipts_prefix, expected_receipt L)"
      and "read_receipts L B prefix check s = Inl e"
    then show ?thesis by (simp add: read_batch_def)
  next
    assume "(prefix, check) = (event_receipts_prefix, event_receipt L)"
      and "read_receipts L B prefix check s = Inl e"
    then have "read_batch L B s \<noteq> Inr b" for b by (auto simp: read_batch_def bind_result_Inr_iff Let_def)
    then show ?thesis by (cases "read_batch L B s") auto
  qed simp
  then show ?thesis by (auto simp: run_materializer_def)
qed


lemma invalid_receipt_stops_before_the_sink_witness:
  "\<exists>e. run_materializer (std_lib id) local_storage
      \<lparr>sink_expected = (\<lambda>rows n. (Inr (int (length rows)), n + length rows)),
       sink_events = (\<lambda>rows n. (Inr (int (length rows)), n + length rows))\<rparr>
      [(demo_receipt_key, ''[]'')] 0 = (Inl e, (0 :: nat))"
proof -
  let ?s = "[(demo_receipt_key, ''[]'')] :: files"
  have "sto_read_json (std_lib id) local_storage demo_receipt_key ?s = Inr (PList [])"
    by (simp add: sto_read_json_def local_get_def parse_json_def take_char_def)
  then have bad: "bind_result (sto_read_json (std_lib id) local_storage demo_receipt_key ?s) (\<lambda>v.
      bind_result (receipt_document v demo_receipt_key) (\<lambda>d. expected_receipt (std_lib id) d demo_receipt_key))
    = Inl (MaterializationError (''receipt document must be an object: '' @ demo_receipt_key))"
    by (simp add: receipt_document_def)
  show ?thesis
    by (rule invalid_receipt_stops_before_the_sink
        [where prefix = expected_receipts_prefix and check = "expected_receipt (std_lib id)"
          and ks = "[demo_receipt_key]", OF _ _ _ demo_receipt_listed(3) bad])
      (simp_all add: demo_receipt_listed)
qed

end
