(* ===== verification/Slot_Reconciler.thy ===== *)
theory Slot_Reconciler
  imports Slot_Materializer
begin

text \<open>
  Declaration of due slots and finalisation of missed ones
  (\<open>dags/common/collection_slots/due_reconciler.py\<close>).  The clock and the outcome factory are
  parameters, as in the constructor.  The lemmas show that a run counts every active candidate once,
  that it finalises only due slots without an outcome, and that afterwards every due slot has one.
\<close>

section \<open>Reading receipts\<close>

definition reconciler_utc :: "pylib \<Rightarrow> pyobj \<Rightarrow> string \<Rightarrow> int result" where
  "reconciler_utc L v field =
     coerce_utc L
       (DueSlotReconciliationError (field @ '' must be an ISO timestamp''))
       (DueSlotReconciliationError (field @ '' must be a datetime or ISO timestamp''))
       (DueSlotReconciliationError (field @ '' must include timezone'')) v"

text \<open>\<open>except MaterializationError\<close>, and its message as the new error.\<close>

fun is_materialization_error :: "pyexc \<Rightarrow> bool" where
  "is_materialization_error (MaterializationError _) = True"
| "is_materialization_error _ = False"

fun as_reconciliation_error :: "pyexc \<Rightarrow> 'a result" where
  "as_reconciliation_error (MaterializationError m) = Inl (DueSlotReconciliationError m)"
| "as_reconciliation_error e = Inl e"

definition slot_of_receipt :: "pylib \<Rightarrow> pyobj \<Rightarrow> string \<Rightarrow> expected_slot result" where
  "slot_of_receipt L v key =
     bind_result (receipt_document v key) (\<lambda>d.
     bind_result (expected_receipt L d key) (\<lambda>n.
     try_except
       (case Option.bind (case dict_get ''grain_json'' n of PStr t \<Rightarrow> Some t | _ \<Rightarrow> None) (json_loads L) of
          None \<Rightarrow> Inl (ValueError ''Expecting value'')
        | Some (PDict g) \<Rightarrow> expected_slot_create L (document_slot_args n (PDict g))
        | Some _ \<Rightarrow> Inl (TypeError ''grain_json must be an object''))
       (\<lambda>e. is_key_error e \<or> type_or_value_error e)
       (\<lambda>_. Inl (MaterializationError (''expected receipt contract is invalid: '' @ key)))))"

definition collect_slot ::
  "string \<Rightarrow> string \<Rightarrow> expected_slot \<Rightarrow> (string \<times> expected_slot) list \<Rightarrow> (string \<times> expected_slot) list result" where
  "collect_slot domain source slot by_id =
     (if es_domain slot \<noteq> domain \<or> es_source_id slot \<noteq> source then Inr by_id
      else (case map_of by_id (es_slot_id slot) of
              Some previous \<Rightarrow>
                if previous \<noteq> slot
                then Inl (DueSlotReconciliationError (''expected receipt conflict: '' @ es_slot_id slot))
                else Inr (dict_set (es_slot_id slot) slot by_id)
            | None \<Rightarrow> Inr (dict_set (es_slot_id slot) slot by_id)))"

definition existing_slots ::
  "pylib \<Rightarrow> 's storage \<Rightarrow> string \<Rightarrow> string \<Rightarrow> 's \<Rightarrow> expected_slot list result" where
  "existing_slots L B domain source s =
     (if domain = [] \<or> source = [] then Inl (DueSlotReconciliationError ''domain and source_id are required'')
      else bind_result (sto_list B expected_receipts_prefix s) (\<lambda>ks.
           bind_result (fold_result (\<lambda>k by_id.
               bind_result (try_except
                   (bind_result (sto_read_json L B k s) (\<lambda>v. slot_of_receipt L v k))
                   is_materialization_error as_reconciliation_error) (\<lambda>slot.
               collect_slot domain source slot by_id))
             (filter (is_suffix ''.json'') ks) []) (\<lambda>by_id.
           Inr (sort_key (\<lambda>x. (es_slot_at x, es_slot_id x)) (map snd by_id)))))"

definition slot_events_prefix :: "string \<Rightarrow> string" where
  "slot_events_prefix i = event_receipts_prefix @ ''expected_slot_id='' @ i @ ''/''"

definition check_event :: "pylib \<Rightarrow> 's storage \<Rightarrow> string \<Rightarrow> 's \<Rightarrow> string \<Rightarrow> unit result" where
  "check_event L B i s k =
     bind_result (try_except
         (bind_result (sto_read_json L B k s) (\<lambda>v.
          bind_result (receipt_document v k) (\<lambda>d. event_receipt L d k)))
         is_materialization_error as_reconciliation_error) (\<lambda>e.
     if identity_text ''expected_slot_id'' e \<noteq> i
     then Inl (DueSlotReconciliationError (''event receipt expected_slot_id mismatch: '' @ k))
     else Inr ())"

definition has_terminal_event :: "pylib \<Rightarrow> 's storage \<Rightarrow> string \<Rightarrow> 's \<Rightarrow> bool result" where
  "has_terminal_event L B i s =
     bind_result (sto_list B (slot_events_prefix i) s) (\<lambda>ks.
     bind_result (traverse (check_event L B i s) (filter (is_suffix ''.json'') ks)) (\<lambda>us.
     Inr (us \<noteq> [])))"

section \<open>The run\<close>

definition validate_missing_outcome :: "collection_outcome option \<Rightarrow> expected_slot \<Rightarrow> collection_outcome result" where
  "validate_missing_outcome out slot =
     (case out of
        None \<Rightarrow> Inl (DueSlotReconciliationError ''outcome_factory must return CollectionOutcome'')
      | Some e \<Rightarrow>
          if co_slot_id e \<noteq> es_slot_id slot
          then Inl (DueSlotReconciliationError ''outcome_factory returned different expected_slot_id'')
          else if co_collection_state e \<noteq> ''missing_unknown''
          then Inl (DueSlotReconciliationError ''outcome_factory must return collection_state=missing_unknown'')
          else if co_recovery_state e \<in> {''pending'', ''recovered''} \<and> co_evidence_code e = None
          then Inl (DueSlotReconciliationError
            ''outcome_factory must return recovery_evidence_code for pending or recovered recovery'')
          else if co_recovery_state e \<in> {''pending'', ''recovered''} \<and> co_recovery_class e = ''raw_replay''
                  \<and> co_evidence_code e \<noteq> Some ''raw_manifest_verified''
          then Inl (DueSlotReconciliationError
            ''raw_replay recovery must use recovery_evidence_code=raw_manifest_verified'')
          else Inr e)"

record reconciliation =
  rc_declared :: nat
  rc_not_due :: nat
  rc_already_terminal :: nat
  rc_finalized :: nat

definition reconciliation_as_dict :: "reconciliation \<Rightarrow> (string \<times> nat) list" where
  "reconciliation_as_dict r =
     [(''declared'', rc_declared r), (''not_due'', rc_not_due r),
      (''already_terminal'', rc_already_terminal r), (''finalized'', rc_finalized r)]"

text \<open>
  The factory returns an outcome, something else (\<open>None\<close>), or raises.  One candidate: the counters
  and the store it leaves; the store is kept when an exception ends the run.
\<close>

type_synonym outcome_factory = "expected_slot \<Rightarrow> collection_outcome option result"

definition finalize_slot ::
  "pylib \<Rightarrow> 's storage \<Rightarrow> outcome_factory \<Rightarrow> expected_slot \<Rightarrow> reconciliation \<Rightarrow> 's \<Rightarrow> reconciliation result \<times> 's" where
  "finalize_slot L B factory slot c s =
     (case bind_result (factory slot) (\<lambda>out. validate_missing_outcome out slot) of
        Inl e \<Rightarrow> (Inl e, s)
      | Inr e \<Rightarrow>
          (case record_outcome L B e s of
             (Inl x, s') \<Rightarrow> (Inl x, s')
           | (Inr _, s') \<Rightarrow> (Inr (c\<lparr>rc_finalized := rc_finalized c + 1\<rparr>), s')))"

definition reconcile_declared ::
  "pylib \<Rightarrow> 's storage \<Rightarrow> outcome_factory \<Rightarrow> int \<Rightarrow> expected_slot \<Rightarrow> reconciliation \<Rightarrow> 's \<Rightarrow> reconciliation result \<times> 's" where
  "reconcile_declared L B factory now slot c s =
     (case reconciler_utc L (PStr (es_deadline_at slot)) ''deadline_at'' of
        Inl e \<Rightarrow> (Inl e, s)
      | Inr deadline \<Rightarrow>
          if deadline > now then (Inr (c\<lparr>rc_not_due := rc_not_due c + 1\<rparr>), s)
          else (case has_terminal_event L B (es_slot_id slot) s of
                  Inl e \<Rightarrow> (Inl e, s)
                | Inr True \<Rightarrow> (Inr (c\<lparr>rc_already_terminal := rc_already_terminal c + 1\<rparr>), s)
                | Inr False \<Rightarrow> finalize_slot L B factory slot c s))"

definition reconcile_slot ::
  "pylib \<Rightarrow> 's storage \<Rightarrow> outcome_factory \<Rightarrow> int \<Rightarrow> pyobj \<Rightarrow> expected_slot \<Rightarrow> reconciliation \<Rightarrow> 's \<Rightarrow> reconciliation result \<times> 's" where
  "reconcile_slot L B factory now activation slot c s =
     (case is_slot_active L (PStr (es_slot_at slot)) activation of
        Inl e \<Rightarrow> (Inl e, s)
      | Inr False \<Rightarrow> (Inr c, s)
      | Inr True \<Rightarrow>
          (case record_expected L B slot s of
             (Inl e, s') \<Rightarrow> (Inl e, s')
           | (Inr _, s') \<Rightarrow>
               reconcile_declared L B factory now slot (c\<lparr>rc_declared := rc_declared c + 1\<rparr>) s'))"

fun reconcile_slots ::
  "pylib \<Rightarrow> 's storage \<Rightarrow> outcome_factory \<Rightarrow> int \<Rightarrow> pyobj \<Rightarrow> expected_slot list \<Rightarrow> reconciliation \<Rightarrow> 's
     \<Rightarrow> reconciliation result \<times> 's" where
  "reconcile_slots L B factory now activation [] c s = (Inr c, s)"
| "reconcile_slots L B factory now activation (slot # slots) c s =
     (case reconcile_slot L B factory now activation slot c s of
        (Inl e, s') \<Rightarrow> (Inl e, s')
      | (Inr c', s') \<Rightarrow> reconcile_slots L B factory now activation slots c' s')"

definition no_reconciliation :: reconciliation where
  "no_reconciliation = \<lparr>rc_declared = 0, rc_not_due = 0, rc_already_terminal = 0, rc_finalized = 0\<rparr>"

definition run_reconciler ::
  "pylib \<Rightarrow> 's storage \<Rightarrow> outcome_factory \<Rightarrow> pyobj \<Rightarrow> pyobj \<Rightarrow> expected_slot list \<Rightarrow> 's
     \<Rightarrow> reconciliation result \<times> 's" where
  "run_reconciler L B factory clock_now activation candidates s =
     (case reconciler_utc L clock_now ''clock'' of
        Inl e \<Rightarrow> (Inl e, s)
      | Inr now \<Rightarrow> reconcile_slots L B factory now activation candidates no_reconciliation s)"

section \<open>Keys under the events of a slot\<close>

text \<open>What the digest returns: 64 hexadecimal digits.\<close>

definition hex_id :: "string \<Rightarrow> bool" where
  "hex_id s \<longleftrightarrow> length s = 64 \<and> list_all is_hex_char s"

definition hex_digest :: "pylib \<Rightarrow> bool" where
  "hex_digest L \<longleftrightarrow> (\<forall>x. hex_id (sha256_hex L x))"

lemma hex_object_char: "is_hex_char c \<Longrightarrow> object_char c"
  by (auto simp: is_hex_char_def object_char_def segment_char_def alnum_char_def in_range_char_def)

lemma hex_no_slash: "hex_id s \<Longrightarrow> CHR ''/'' \<notin> set s"
  by (auto simp: hex_id_def list_all_iff is_hex_char_def in_range_char_def)

lemma slot_wf_hex: "hex_digest L \<Longrightarrow> slot_wf L s \<Longrightarrow> hex_id (es_slot_id s)"
  unfolding slot_wf_def slot_id_for_def bind_result_Inr_iff hex_digest_def sum.inject by (elim conjE exE) metis

lemma outcome_wf_hex: "hex_digest L \<Longrightarrow> outcome_wf L e \<Longrightarrow> hex_id (co_event_id e)"
  by (simp add: outcome_wf_def hex_digest_def)

lemma safe_segment_id:
  "list_all object_char s \<Longrightarrow> s \<noteq> [] \<Longrightarrow> length s \<le> 200 \<Longrightarrow> safe_segment dflt (Some s) = s"
  by (simp add: safe_segment_def dash_unsafe_id)

lemma object_text [simp]:
  "list_all object_char ''expected_slot_id=''" "list_all object_char ''.json''" "list_all object_char ''v1''"
  "list_all object_char ''events''" "list_all object_char ''expected''"
  by (simp_all add: object_char_def segment_char_def alnum_char_def in_range_char_def)

lemma receipt_scope:
  assumes "ops_key (category_value CatControl) (Some receipt_domain) f None (Some (subtype_value SubState)) sub = Inr k"
  shows "k = receipt_root @ str_join ''/'' (ops_subpath sub @ [safe_segment ''unknown'' f])"
proof -
  from assms obtain cat where k: "category_value CatControl = category_value cat"
    "k = str_join ''/'' (key_parts cat (Some (subtype_value SubState)) (py_strip (or_empty (Some receipt_domain))) None sub f)"
    by (rule ops_key_Inr)
  have "py_strip (or_empty (Some receipt_domain)) = receipt_domain"
    using assert_domain_Inr(1) [OF receipt_domain_accepted] by simp
  moreover have "cat = CatControl" using k(1) by (simp only: category_value_eq_iff)
  ultimately have "k = str_join ''/'' (scope_parts CatControl (Some (subtype_value SubState)) receipt_domain
      @ (ops_subpath sub @ [safe_segment ''unknown'' f]))"
    using k(2) by (simp add: key_parts_def date_parts_def del: str_join.simps)
  also have "\<dots> = str_join ''/'' (scope_parts CatControl (Some (subtype_value SubState)) receipt_domain)
      @ ''/'' @ str_join ''/'' (ops_subpath sub @ [safe_segment ''unknown'' f])"
    by (rule str_join_prefix) (simp_all add: scope_parts_def)
  also have "\<dots> = receipt_root @ str_join ''/'' (ops_subpath sub @ [safe_segment ''unknown'' f])"
    by (simp add: receipt_root_eq scope_parts_def ops_root_def receipt_domain_def del: str_join.simps(3))
      (simp add: receipt_domain_def)
  finally show ?thesis .
qed

lemma segment_v1: "safe_segment d (Some ''v1'') = ''v1''" "safe_segment d (Some ''events'') = ''events''"
  "safe_segment d (Some ''expected'') = ''expected''"
  by (simp_all add: safe_segment_id object_char_def segment_char_def alnum_char_def in_range_char_def)

lemma expected_key_form:
  assumes "expected_key s = Inr k"
  shows "\<exists>r. k = expected_receipts_prefix @ r"
  using receipt_scope [OF assms [unfolded expected_key_def]]
  by (simp add: ops_subpath_def is_blank_graphic graphic_def receipt_version_def segment_v1 expected_receipts_prefix_def)

lemma outcome_key_form:
  assumes "outcome_key e = Inr k" "hex_id (co_slot_id e)" "hex_id (co_event_id e)"
  shows "k = slot_events_prefix (co_slot_id e) @ co_event_id e @ ''.json''"
proof -
  have ok: "list_all object_char s" "length s = 64" if "hex_id s" for s
    using that hex_object_char by (auto simp: hex_id_def list_all_iff)
  have "safe_segment d (Some (''expected_slot_id='' @ co_slot_id e)) = ''expected_slot_id='' @ co_slot_id e" for d
    using ok [OF assms(2)] by (intro safe_segment_id) (simp_all only: list_all_append object_text, simp_all)
  moreover have "safe_segment d (Some (co_event_id e @ ''.json'')) = co_event_id e @ ''.json''" for d
    using ok [OF assms(3)] by (intro safe_segment_id) (simp_all only: list_all_append object_text, simp_all)
  ultimately show ?thesis
    using receipt_scope [OF assms(1) [unfolded outcome_key_def]]
    by (simp add: ops_subpath_def is_blank_graphic graphic_def receipt_version_def segment_v1 slot_events_prefix_def
        event_receipts_prefix_def)
qed

lemma slot_events_prefix_iff:
  assumes "hex_id i" "hex_id j"
  shows "is_prefix (slot_events_prefix i) (slot_events_prefix j @ r) \<longleftrightarrow> i = j"
proof
  assume "is_prefix (slot_events_prefix i) (slot_events_prefix j @ r)"
  then obtain t where "i @ CHR ''/'' # t = j @ CHR ''/'' # r" by (auto simp: is_prefix_iff slot_events_prefix_def)
  moreover have "CHR ''/'' \<notin> set i" "CHR ''/'' \<notin> set j" using hex_no_slash assms by blast+
  ultimately show "i = j" by (induction i arbitrary: j) (case_tac j; auto)+
qed (simp add: is_prefix_iff)

lemma expected_not_event: "\<not> is_prefix (slot_events_prefix i) (expected_receipts_prefix @ r)"
  by (auto simp: is_prefix_iff slot_events_prefix_def event_receipts_prefix_def expected_receipts_prefix_def receipt_version_def)

lemma json_suffix: "is_suffix ''.json'' (p @ x @ ''.json'')"
  by (simp add: is_suffix_def)

section \<open>Outcomes of a slot\<close>

context write_once_storage
begin

text \<open>The event receipts of a slot.\<close>

definition events_at :: "'s \<Rightarrow> string \<Rightarrow> string set" where
  "events_at s i = {k. is_prefix (slot_events_prefix i) k \<and> is_suffix ''.json'' k \<and> objects s k \<noteq> None}"

lemma write_json_frame:
  "sto_write_json_if_absent L B k x s = (r, s') \<Longrightarrow> k' \<noteq> k \<Longrightarrow> objects s' k' = objects s k'"
proof (cases r)
  case (Inr b)
  then show "sto_write_json_if_absent L B k x s = (r, s') \<Longrightarrow> k' \<noteq> k \<Longrightarrow> objects s' k' = objects s k'"
    using put_new put_old by (cases b) (auto simp: sto_write_json_if_absent_def split: sum.splits)
qed (auto dest: write_json_error)

lemma write_idempotently_frame:
  assumes "write_idempotently L B key doc f s = (r, s')" "k \<noteq> key"
  shows "objects s' k = objects s k"
proof -
  obtain w t where w: "sto_write_json_if_absent L B key (PDict doc) s = (w, t)" by force
  have "t = s'" using assms(1) w by (auto simp: write_idempotently_def split: sum.splits bool.splits)
  with write_json_frame [OF w assms(2)] show ?thesis by simp
qed

lemma record_expected_frame:
  assumes "record_expected L B slot s = (r, s')" "\<nexists>x. k = expected_receipts_prefix @ x"
  shows "objects s' k = objects s k"
proof -
  obtain key where key: "expected_key slot = Inr key" using expected_key_exists by blast
  with assms(2) have "k \<noteq> key" using expected_key_form by blast
  with assms(1) key show ?thesis
    using write_idempotently_frame by (auto simp: record_expected_def split: sum.splits prod.splits)
qed

lemma record_expected_events: "record_expected L B slot s = (r, s') \<Longrightarrow> events_at s' i = events_at s i"
  using record_expected_frame [of slot s r s'] expected_not_event by (auto simp: events_at_def) metis+

lemma record_outcome_events:
  assumes "record_outcome L B e s = (r, s')" "hex_id (co_slot_id e)" "hex_id (co_event_id e)" "hex_id i" "i \<noteq> co_slot_id e"
  shows "events_at s' i = events_at s i"
proof -
  obtain key where key: "outcome_key e = Inr key" using outcome_key_exists by blast
  have "\<not> is_prefix (slot_events_prefix i) key"
    using outcome_key_form [OF key assms(2,3)] slot_events_prefix_iff [OF assms(4,2)] assms(5) by simp
  moreover have "objects s' k = objects s k" if "k \<noteq> key" for k
    using assms(1) key that write_idempotently_frame
    by (auto simp: record_outcome_def split: sum.splits prod.splits)
  ultimately show ?thesis by (auto simp: events_at_def) metis+
qed

end

context available_storage
begin

lemma check_event_cong:
  assumes "objects s k = objects s' k" "objects s k \<noteq> None"
  shows "check_event L B i s k = check_event L B i s' k"
proof -
  obtain d where "objects s k = Some d" using assms(2) by auto
  then have "sto_get B k s = Inr d" "sto_get B k s' = Inr d" using get_returns assms(1) by simp_all
  then show ?thesis by (simp add: check_event_def sto_read_json_def)
qed

lemma traverse_unit:
  "(\<exists>us :: unit list. traverse f xs = Inr us \<and> b = (us \<noteq> [])) \<longleftrightarrow> (\<forall>x\<in>set xs. f x = Inr ()) \<and> b = (xs \<noteq> [])"
proof
  assume "\<exists>us :: unit list. traverse f xs = Inr us \<and> b = (us \<noteq> [])"
  then obtain us :: "unit list" where us: "traverse f xs = Inr us" "b = (us \<noteq> [])" by blast
  then have "f x = Inr ()" if "x \<in> set xs" for x
    using that by (auto simp: traverse_Inr_iff list_all2_conv_all_nth in_set_conv_nth)
  moreover have "length us = length xs" using traverse_length us(1) by blast
  ultimately show "(\<forall>x\<in>set xs. f x = Inr ()) \<and> b = (xs \<noteq> [])" using us(2) by auto
next
  assume "(\<forall>x\<in>set xs. f x = Inr ()) \<and> b = (xs \<noteq> [])"
  with traverse_total [of xs f "\<lambda>_. ()"] show "\<exists>us :: unit list. traverse f xs = Inr us \<and> b = (us \<noteq> [])" by auto
qed

lemma has_terminal_event_iff:
  "has_terminal_event L B i s = Inr b \<longleftrightarrow>
     (\<forall>k\<in>events_at s i. check_event L B i s k = Inr ()) \<and> (b \<longleftrightarrow> events_at s i \<noteq> {})"
proof -
  obtain ks where ks: "sto_list B (slot_events_prefix i) s = Inr ks" using list_returns by blast
  have "slot_events_prefix i \<noteq> []" "last (slot_events_prefix i) = CHR ''/''" by (simp_all add: slot_events_prefix_def)
  with list_objects [OF ks] have "set (filter (is_suffix ''.json'') ks) = events_at s i"
    by (auto simp: events_at_def)
  then have e: "\<forall>P. (\<forall>k\<in>set (filter (is_suffix ''.json'') ks). P k) \<longleftrightarrow> (\<forall>k\<in>events_at s i. P k)"
    "filter (is_suffix ''.json'') ks = [] \<longleftrightarrow> events_at s i = {}" by (simp, metis set_empty)
  have e2: "(filter (is_suffix ''.json'') ks \<noteq> []) = (events_at s i \<noteq> {})" using e(2) by simp
  have "has_terminal_event L B i s = Inr b \<longleftrightarrow>
      (\<exists>us. traverse (check_event L B i s) (filter (is_suffix ''.json'') ks) = Inr us \<and> b = (us \<noteq> []))"
    by (auto simp: has_terminal_event_def ks bind_result_Inr_iff)
  also have "\<dots> \<longleftrightarrow> (\<forall>k\<in>events_at s i. check_event L B i s k = Inr ()) \<and> (b \<longleftrightarrow> events_at s i \<noteq> {})"
    unfolding traverse_unit e(1) [rule_format] e2 ..
  finally show ?thesis .
qed

text \<open>Growing stores keep the answer for a slot with the same event receipts.\<close>

lemma has_terminal_event_stable:
  assumes "objects s \<subseteq>\<^sub>m objects s'" "events_at s' i = events_at s i"
  shows "has_terminal_event L B i s' = Inr b \<longleftrightarrow> has_terminal_event L B i s = Inr b"
proof -
  have "check_event L B i s k = check_event L B i s' k" if "k \<in> events_at s i" for k
  proof (rule check_event_cong)
    show "objects s k \<noteq> None" using that by (simp add: events_at_def)
    with assms(1) show "objects s k = objects s' k" by (auto simp: map_le_def dom_def)
  qed
  then show ?thesis unfolding has_terminal_event_iff assms(2) by simp
qed

text \<open>A recorded first outcome of a slot is found.\<close>

lemma recorded_outcome_found:
  assumes "record_outcome L B e s = (Inr k, s')" "outcome_wf L e" "hex_id (co_slot_id e)" "hex_id (co_event_id e)"
    and "has_terminal_event L B (co_slot_id e) s = Inr False"
  shows "has_terminal_event L B (co_slot_id e) s' = Inr True"
proof -
  have r: "outcome_key e = Inr k"
    "write_idempotently L B k (outcome_to_document e) ''event_id'' s = (Inr (), s')"
    using assms(1) by (auto simp: record_outcome_def bind_result_Inr_iff split: sum.splits prod.splits)
  have k: "k = slot_events_prefix (co_slot_id e) @ co_event_id e @ ''.json''"
    by (rule outcome_key_form [OF r(1) assms(3,4)])
  have none: "events_at s (co_slot_id e) = {}" using assms(5) by (simp add: has_terminal_event_iff)
  have pre: "is_prefix (slot_events_prefix (co_slot_id e)) k" "is_suffix ''.json'' k"
    unfolding k by (auto simp: is_prefix_iff intro: json_suffix)
  with none have absent: "objects s k = None" by (auto simp: events_at_def)
  from write_idempotently_new [OF r(2) plain_outcome_document absent]
  have stored: "document_at s' k = Some (PDict (outcome_to_document e))" .
  then have present: "objects s' k \<noteq> None" by (cases "objects s' k") (simp_all add: document_at_def)
  have frame: "objects s' k' = objects s k'" if "k' \<noteq> k" for k'
    by (rule write_idempotently_frame [OF r(2) that])
  then have evs: "events_at s' (co_slot_id e) = {k}"
  proof (intro equalityI subsetI)
    fix x assume x: "x \<in> events_at s' (co_slot_id e)"
    have "x = k"
    proof (rule ccontr)
      assume "x \<noteq> k"
      with frame x have "x \<in> events_at s (co_slot_id e)" by (simp add: events_at_def)
      with none show False by simp
    qed
    then show "x \<in> {k}" by simp
  next
    fix x assume "x \<in> {k}"
    then show "x \<in> events_at s' (co_slot_id e)" using pre present by (simp add: events_at_def)
  qed
  have "check_event L B (co_slot_id e) s' k = Inr ()"
    using read_json_returns [OF stored] event_receipt_document [OF assms(2), of k]
    by (simp add: check_event_def receipt_document_def)
  with evs show ?thesis by (simp add: has_terminal_event_iff)
qed

end

section \<open>What a run does\<close>

text \<open>An active candidate whose deadline has passed.\<close>

definition slot_due :: "pylib \<Rightarrow> int \<Rightarrow> pyobj \<Rightarrow> expected_slot \<Rightarrow> bool" where
  "slot_due L now activation x \<longleftrightarrow>
     is_slot_active L (PStr (es_slot_at x)) activation = Inr True
     \<and> (\<exists>d. reconciler_utc L (PStr (es_deadline_at x)) ''deadline_at'' = Inr d \<and> d \<le> now)"

definition factory_ok :: "pylib \<Rightarrow> outcome_factory \<Rightarrow> bool" where
  "factory_ok L factory \<longleftrightarrow> (\<forall>x e. factory x = Inr (Some e) \<longrightarrow> outcome_wf L e)"

lemma validate_missing_outcome_Inr:
  "validate_missing_outcome out slot = Inr e \<Longrightarrow>
     out = Some e \<and> co_slot_id e = es_slot_id slot \<and> co_collection_state e = ''missing_unknown''"
  by (auto simp: validate_missing_outcome_def split: option.splits if_splits)

lemma validated_evidence:
  "validate_missing_outcome (Some e) slot = Inr e \<Longrightarrow> co_recovery_state e \<in> {''pending'', ''recovered''} \<Longrightarrow>
     co_evidence_code e \<noteq> None \<and> (co_recovery_class e = ''raw_replay'' \<longrightarrow> co_evidence_code e = Some ''raw_manifest_verified'')"
  by (auto simp: validate_missing_outcome_def split: if_splits)

text \<open>
  The ways one candidate is treated: skipped, declared only, found with an outcome, or finalised.
  A failing step stops in one of them.
\<close>

lemma finalize_slot_cases:
  assumes "finalize_slot L B factory slot c s = (r, s')" "factory_ok L factory"
  obtains (failed) x where "r = Inl x" "s' = s"
    | (recorded) e q where "outcome_wf L e" "co_slot_id e = es_slot_id slot" "co_collection_state e = ''missing_unknown''"
      "record_outcome L B e s = (q, s')" "\<forall>k. q = Inr k \<longrightarrow> r = Inr (c\<lparr>rc_finalized := rc_finalized c + 1\<rparr>)"
      "\<forall>x. q = Inl x \<longrightarrow> r = Inl x"
proof (cases "bind_result (factory slot) (\<lambda>out. validate_missing_outcome out slot)")
  case (Inl x)
  with assms(1) failed show thesis by (auto simp: finalize_slot_def)
next
  case (Inr e)
  then have e: "factory slot = Inr (Some e)" "co_slot_id e = es_slot_id slot" "co_collection_state e = ''missing_unknown''"
    by (auto simp: bind_result_Inr_iff dest: validate_missing_outcome_Inr)
  obtain q t where q: "record_outcome L B e s = (q, t)" by force
  with assms(1) Inr have "t = s'" by (auto simp: finalize_slot_def split: sum.splits)
  show thesis
    by (rule recorded [of e q]) (use e q \<open>t = s'\<close> assms Inr in \<open>auto simp: factory_ok_def finalize_slot_def\<close>)
qed

lemma reconcile_slot_cases:
  assumes "reconcile_slot L B factory now activation slot c s = (r, s')"
  obtains (skipped) "s' = s" "r = Inr c" "is_slot_active L (PStr (es_slot_at slot)) activation = Inr False"
    | (failed) x where "s' = s" "r = Inl x"
    | (undeclared) x where "record_expected L B slot s = (Inl x, s')" "r = Inl x"
    | (declared) k t where "is_slot_active L (PStr (es_slot_at slot)) activation = Inr True"
      "record_expected L B slot s = (Inr k, t)"
      "reconcile_declared L B factory now slot (c\<lparr>rc_declared := rc_declared c + 1\<rparr>) t = (r, s')"
proof (cases "is_slot_active L (PStr (es_slot_at slot)) activation")
  case (Inl x)
  with assms failed show thesis by (auto simp: reconcile_slot_def)
next
  case (Inr a)
  show thesis
  proof (cases a)
    case False
    with assms Inr skipped show thesis by (auto simp: reconcile_slot_def)
  next
    case True
    obtain q t where q: "record_expected L B slot s = (q, t)" by force
    with assms Inr True undeclared declared show thesis
      by (cases q) (auto simp: reconcile_slot_def)
  qed
qed

lemma reconcile_declared_cases:
  assumes "reconcile_declared L B factory now slot c s = (r, s')"
  obtains (failed) x where "s' = s" "r = Inl x"
    | (not_due) d where "s' = s" "r = Inr (c\<lparr>rc_not_due := rc_not_due c + 1\<rparr>)"
      "reconciler_utc L (PStr (es_deadline_at slot)) ''deadline_at'' = Inr d" "now < d"
    | (terminal) d where "s' = s" "r = Inr (c\<lparr>rc_already_terminal := rc_already_terminal c + 1\<rparr>)"
      "reconciler_utc L (PStr (es_deadline_at slot)) ''deadline_at'' = Inr d" "d \<le> now"
      "has_terminal_event L B (es_slot_id slot) s = Inr True"
    | (missed) d where "reconciler_utc L (PStr (es_deadline_at slot)) ''deadline_at'' = Inr d" "d \<le> now"
      "has_terminal_event L B (es_slot_id slot) s = Inr False" "finalize_slot L B factory slot c s = (r, s')"
proof (cases "reconciler_utc L (PStr (es_deadline_at slot)) ''deadline_at''")
  case (Inl x)
  with assms failed show thesis by (auto simp: reconcile_declared_def)
next
  case (Inr d)
  show thesis
  proof (cases "now < d")
    case True
    with assms Inr not_due show thesis by (auto simp: reconcile_declared_def)
  next
    case False
    show thesis
    proof (cases "has_terminal_event L B (es_slot_id slot) s")
      case (Inl x)
      with assms Inr False failed show thesis by (auto simp: reconcile_declared_def)
    next
      case t: (Inr b)
      with assms Inr False terminal missed show thesis by (cases b) (auto simp: reconcile_declared_def)
    qed
  qed
qed

text \<open>The counters.\<close>

definition balanced :: "reconciliation \<Rightarrow> bool" where
  "balanced c \<longleftrightarrow> rc_declared c = rc_not_due c + rc_already_terminal c + rc_finalized c"

lemma finalize_slot_Inr:
  "finalize_slot L B factory slot c s = (Inr c', s') \<Longrightarrow> c' = c\<lparr>rc_finalized := rc_finalized c + 1\<rparr>"
  by (auto simp: finalize_slot_def split: sum.splits prod.splits)

lemma reconcile_slot_counts:
  assumes "reconcile_slot L B factory now activation slot c s = (Inr c', s')" "balanced c"
  shows "balanced c' \<and> rc_declared c' = rc_declared c
    + (if is_slot_active L (PStr (es_slot_at slot)) activation = Inr True then 1 else 0)"
  using assms(1)
proof (cases rule: reconcile_slot_cases)
  case (declared k t)
  from declared(3) show ?thesis
    by (cases rule: reconcile_declared_cases)
      (use declared(1) assms(2) in \<open>auto simp: balanced_def dest!: finalize_slot_Inr\<close>)
qed (use assms(2) in auto)

lemma reconcile_slots_counts:
  assumes "reconcile_slots L B factory now activation slots c s = (Inr c', s')" "balanced c"
  shows "balanced c' \<and> rc_declared c' = rc_declared c
    + length (filter (\<lambda>x. is_slot_active L (PStr (es_slot_at x)) activation = Inr True) slots)"
  using assms
proof (induction slots arbitrary: c s)
  case (Cons x slots)
  from Cons.prems(1) obtain d t where d: "reconcile_slot L B factory now activation x c s = (Inr d, t)"
    "reconcile_slots L B factory now activation slots d t = (Inr c', s')"
    by (auto split: prod.splits sum.splits)
  from reconcile_slot_counts [OF d(1) Cons.prems(2)] Cons.IH [OF d(2)] show ?case by auto
qed simp

text \<open>Slots that have an outcome keep it, and a due slot has one after its turn.\<close>

context available_storage
begin

lemma record_expected_keeps:
  assumes "record_expected L B slot s = (r, s')"
  shows "has_terminal_event L B i s' = Inr b \<longleftrightarrow> has_terminal_event L B i s = Inr b"
  by (rule has_terminal_event_stable [OF record_expected_extends [OF assms] record_expected_events [OF assms]])

lemma finalize_slot_keeps:
  assumes "finalize_slot L B factory slot c s = (r, s')" "factory_ok L factory" "hex_digest L" "slot_wf L slot"
    and "hex_id i" "has_terminal_event L B i s = Inr True" "has_terminal_event L B (es_slot_id slot) s = Inr False"
  shows "has_terminal_event L B i s' = Inr True"
  using assms(1,2)
proof (cases rule: finalize_slot_cases)
  case (recorded e q)
  have hex: "hex_id (co_slot_id e)" "hex_id (co_event_id e)"
    using slot_wf_hex [OF assms(3,4)] outcome_wf_hex [OF assms(3) recorded(1)] recorded(2) by simp_all
  have "i \<noteq> co_slot_id e" using assms(6,7) recorded(2) by auto
  from has_terminal_event_stable [OF record_outcome_extends [OF recorded(4)]
      record_outcome_events [OF recorded(4) hex assms(5) this]] assms(6) show ?thesis by simp
qed (use assms(6) in simp)

lemma reconcile_slot_keeps:
  assumes "reconcile_slot L B factory now activation slot c s = (r, s')" "factory_ok L factory" "hex_digest L"
    and "slot_wf L slot" "hex_id i" "has_terminal_event L B i s = Inr True"
  shows "has_terminal_event L B i s' = Inr True"
  using assms(1)
proof (cases rule: reconcile_slot_cases)
  case (undeclared x)
  with record_expected_keeps assms(6) show ?thesis by blast
next
  case (declared k t)
  with record_expected_keeps assms(6) have t: "has_terminal_event L B i t = Inr True" by blast
  from declared(3) show ?thesis
  proof (cases rule: reconcile_declared_cases)
    case (missed d)
    from finalize_slot_keeps [OF missed(4) assms(2-5) t missed(3)] show ?thesis .
  qed (use t in simp_all)
qed (use assms(6) in simp_all)

lemma reconcile_slot_terminal:
  assumes "reconcile_slot L B factory now activation slot c s = (Inr c', s')" "factory_ok L factory" "hex_digest L"
    and "slot_wf L slot" "slot_due L now activation slot"
  shows "has_terminal_event L B (es_slot_id slot) s' = Inr True"
  using assms(1)
proof (cases rule: reconcile_slot_cases)
  case (declared k t)
  from declared(3) show ?thesis
  proof (cases rule: reconcile_declared_cases)
    case (missed d)
    from missed(4) assms(2) show ?thesis
    proof (cases rule: finalize_slot_cases)
      case (recorded e q)
      have hex: "hex_id (co_slot_id e)" "hex_id (co_event_id e)"
        using slot_wf_hex [OF assms(3,4)] outcome_wf_hex [OF assms(3) recorded(1)] recorded(2) by simp_all
      obtain key where "q = Inr key" using recorded(6) by (cases q) auto
      with recorded_outcome_found [OF _ recorded(1) hex] recorded(2,4) missed(3) show ?thesis by simp
    qed simp
  qed (use assms(5) in \<open>auto simp: slot_due_def\<close>)
qed (use assms(5) in \<open>auto simp: slot_due_def\<close>)

lemma reconcile_slots_keep:
  assumes "reconcile_slots L B factory now activation slots c s = (r, s')" "factory_ok L factory" "hex_digest L"
    and "\<forall>x\<in>set slots. slot_wf L x" "hex_id i" "has_terminal_event L B i s = Inr True"
  shows "has_terminal_event L B i s' = Inr True"
  using assms(1,4,6)
proof (induction slots arbitrary: c s)
  case (Cons x slots)
  obtain q t where d: "reconcile_slot L B factory now activation x c s = (q, t)" by force
  have "has_terminal_event L B i t = Inr True"
    by (rule reconcile_slot_keeps [OF d assms(2,3) _ assms(5) Cons.prems(3)]) (use Cons.prems(2) in simp)
  with Cons.IH [of _ t] Cons.prems d show ?case by (cases q) auto
qed simp

lemma reconcile_slots_terminal:
  assumes "reconcile_slots L B factory now activation slots c s = (Inr c', s')" "factory_ok L factory" "hex_digest L"
    and "\<forall>x\<in>set slots. slot_wf L x" "x \<in> set slots" "slot_due L now activation x"
  shows "has_terminal_event L B (es_slot_id x) s' = Inr True"
  using assms(1,4,5)
proof (induction slots arbitrary: c s)
  case (Cons y slots)
  then obtain d t where d: "reconcile_slot L B factory now activation y c s = (Inr d, t)"
    "reconcile_slots L B factory now activation slots d t = (Inr c', s')"
    by (auto split: prod.splits sum.splits)
  show ?case
  proof (cases "x \<in> set slots")
    case True
    with Cons.IH [OF d(2)] Cons.prems(2) show ?thesis by simp
  next
    case False
    with Cons.prems have x: "x = y" "slot_wf L x" by auto
    have "has_terminal_event L B (es_slot_id x) t = Inr True"
      using reconcile_slot_terminal [OF d(1) assms(2,3)] x assms(6) by simp
    from reconcile_slots_keep [OF d(2) assms(2,3) _ slot_wf_hex [OF assms(3) x(2)] this] Cons.prems(2)
    show ?thesis by simp
  qed
qed simp

text \<open>With every due slot terminal there is nothing to finalise.\<close>

lemma reconcile_slots_idle:
  assumes "reconcile_slots L B factory now activation slots c s = (Inr c', s')"
    and "\<forall>x\<in>set slots. slot_due L now activation x \<longrightarrow> has_terminal_event L B (es_slot_id x) s = Inr True"
  shows "rc_finalized c' = rc_finalized c"
  using assms
proof (induction slots arbitrary: c s)
  case (Cons x slots)
  then obtain d t where d: "reconcile_slot L B factory now activation x c s = (Inr d, t)"
    "reconcile_slots L B factory now activation slots d t = (Inr c', s')"
    by (auto split: prod.splits sum.splits)
  from d(1) have step: "rc_finalized d = rc_finalized c
      \<and> (\<forall>i b. has_terminal_event L B i t = Inr b \<longleftrightarrow> has_terminal_event L B i s = Inr b)"
  proof (cases rule: reconcile_slot_cases)
    case (declared k u)
    note same = record_expected_keeps [OF declared(2)]
    from declared(3) show ?thesis
    proof (cases rule: reconcile_declared_cases)
      case (missed e)
      then have "slot_due L now activation x" using declared(1) by (auto simp: slot_due_def)
      with Cons.prems(2) missed(3) same show ?thesis by simp
    qed (use same in auto)
  qed auto
  with Cons.IH [OF d(2)] Cons.prems(2) show ?case by simp
qed simp

end

text \<open>
  What a run adds to a store: the declaration of an active candidate, or the outcome the factory gave for a due
  one that had none, with the document it is.
\<close>

definition declares :: "pylib \<Rightarrow> pyobj \<Rightarrow> expected_slot \<Rightarrow> string \<Rightarrow> pyobj \<Rightarrow> bool" where
  "declares L activation slot k x \<longleftrightarrow>
     is_slot_active L (PStr (es_slot_at slot)) activation = Inr True \<and> expected_key slot = Inr k
     \<and> (\<exists>doc. slot_to_document L slot = Inr doc \<and> x = PDict doc)"

definition finalizes ::
  "pylib \<Rightarrow> outcome_factory \<Rightarrow> int \<Rightarrow> pyobj \<Rightarrow> expected_slot \<Rightarrow> string \<Rightarrow> pyobj \<Rightarrow> bool" where
  "finalizes L factory now activation slot k x \<longleftrightarrow>
     slot_due L now activation slot
     \<and> (\<exists>e. factory slot = Inr (Some e) \<and> validate_missing_outcome (Some e) slot = Inr e \<and> outcome_key e = Inr k
          \<and> x = PDict (outcome_to_document e))"

context write_once_storage
begin

lemma write_idempotently_written:
  assumes "write_idempotently L B key doc f s = (r, s')" "plain (PDict doc)" "objects s k = None" "objects s' k \<noteq> None"
  shows "k = key \<and> document_at s' k = Some (PDict doc)"
proof -
  have key: "k = key" using write_idempotently_frame [OF assms(1), of k] assms(3,4) by metis
  obtain w t where w: "sto_write_json_if_absent L B key (PDict doc) s = (w, t)" by force
  have t: "t = s'" using assms(1) w by (auto simp: write_idempotently_def split: sum.splits bool.splits)
  have "w = Inr True"
    using w t key assms(3,4) write_json_old [of key "PDict doc" s t] write_json_error [of key "PDict doc" s]
    by (cases w) auto
  with w t key write_json_new [OF _ assms(2), of key s s'] show ?thesis by simp
qed

lemma record_expected_written:
  assumes "record_expected L B slot s = (r, s')" "objects s k = None" "objects s' k \<noteq> None"
  shows "expected_key slot = Inr k \<and> (\<exists>doc. slot_to_document L slot = Inr doc \<and> document_at s' k = Some (PDict doc))"
proof -
  obtain key where key: "expected_key slot = Inr key" using expected_key_exists by blast
  obtain doc u where doc: "slot_to_document L slot = Inr doc" "write_idempotently L B key doc ''expected_slot_id'' s = (u, s')"
    using assms key by (auto simp: record_expected_def split: sum.splits prod.splits)
  from write_idempotently_written [OF doc(2) plain_slot_document [OF doc(1)] assms(2,3)] doc(1) key show ?thesis by blast
qed

lemma record_outcome_written:
  assumes "record_outcome L B e s = (r, s')" "objects s k = None" "objects s' k \<noteq> None"
  shows "outcome_key e = Inr k \<and> document_at s' k = Some (PDict (outcome_to_document e))"
proof -
  obtain key where key: "outcome_key e = Inr key" using outcome_key_exists by blast
  obtain u where "write_idempotently L B key (outcome_to_document e) ''event_id'' s = (u, s')"
    using assms(1) key by (auto simp: record_outcome_def split: sum.splits prod.splits)
  from write_idempotently_written [OF this plain_outcome_document assms(2,3)] key show ?thesis by blast
qed

lemma document_at_extends: "objects s \<subseteq>\<^sub>m objects s' \<Longrightarrow> document_at s k = Some x \<Longrightarrow> document_at s' k = Some x"
  unfolding document_at_def map_le_def by (metis Option.bind_eq_None_conv domIff option.distinct(1))

lemma finalize_slot_written:
  assumes "finalize_slot L B factory slot c s = (r, s')" "objects s k = None" "objects s' k \<noteq> None"
  shows "\<exists>e. factory slot = Inr (Some e) \<and> validate_missing_outcome (Some e) slot = Inr e \<and> outcome_key e = Inr k
    \<and> document_at s' k = Some (PDict (outcome_to_document e))"
proof (cases "bind_result (factory slot) (\<lambda>out. validate_missing_outcome out slot)")
  case (Inl x)
  with assms show ?thesis by (simp add: finalize_slot_def)
next
  case (Inr e)
  then obtain out where out: "factory slot = Inr out" "validate_missing_outcome out slot = Inr e" by (auto simp: bind_result_Inr_iff)
  moreover from this have "out = Some e" by (simp add: validate_missing_outcome_Inr)
  moreover obtain q where "record_outcome L B e s = (q, s')"
    using assms(1) Inr by (auto simp: finalize_slot_def split: sum.splits prod.splits)
  ultimately show ?thesis using record_outcome_written assms(2,3) by blast
qed

end

context available_storage
begin

text \<open>What holds of a run over one candidate holds of the run over all of them.\<close>

lemma reconcile_slot_extends: "reconcile_slot L B factory now activation slot c s = (r, s') \<Longrightarrow> objects s \<subseteq>\<^sub>m objects s'"
proof (erule reconcile_slot_cases)
  fix k t
  assume "record_expected L B slot s = (Inr k, t)"
    and run: "reconcile_declared L B factory now slot (c\<lparr>rc_declared := rc_declared c + 1\<rparr>) t = (r, s')"
  then have "objects s \<subseteq>\<^sub>m objects t" using record_expected_extends by blast
  moreover have "objects t \<subseteq>\<^sub>m objects s'"
    using run record_outcome_extends
    by (auto simp: reconcile_declared_def finalize_slot_def split: sum.splits bool.splits prod.splits if_splits)
  ultimately show "objects s \<subseteq>\<^sub>m objects s'" by (rule map_le_trans)
qed (auto dest: record_expected_extends)

lemma reconcile_slots_extend: "reconcile_slots L B factory now activation slots c s = (r, s') \<Longrightarrow> objects s \<subseteq>\<^sub>m objects s'"
proof (induction slots arbitrary: c s)
  case (Cons x slots)
  obtain q t where d: "reconcile_slot L B factory now activation x c s = (q, t)" by force
  with Cons have "objects t \<subseteq>\<^sub>m objects s'" by (cases q) auto
  with reconcile_slot_extends [OF d] show ?case by (rule map_le_trans)
qed simp

lemma no_event_before:
  assumes "objects s \<subseteq>\<^sub>m objects t" "has_terminal_event L B i t = Inr False"
  shows "has_terminal_event L B i s = Inr False"
proof -
  have "objects t k \<noteq> None" if "objects s k \<noteq> None" for k using assms(1) that unfolding map_le_def by (metis domIff)
  then have "events_at s i \<subseteq> events_at t i" unfolding events_at_def by blast
  with assms(2) show ?thesis by (simp add: has_terminal_event_iff)
qed

lemma reconcile_slot_adds:
  assumes "reconcile_slot L B factory now activation slot c s = (r, s')" "objects s k = None" "objects s' k \<noteq> None"
  shows "\<exists>x. document_at s' k = Some x
    \<and> (declares L activation slot k x
       \<or> finalizes L factory now activation slot k x \<and> has_terminal_event L B (es_slot_id slot) s = Inr False)"
  using assms(1)
proof (cases rule: reconcile_slot_cases)
  case (undeclared x)
  have "is_slot_active L (PStr (es_slot_at slot)) activation = Inr True"
    using assms undeclared by (auto simp: reconcile_slot_def split: sum.splits bool.splits)
  with record_expected_written [OF undeclared(1) assms(2,3)] show ?thesis unfolding declares_def by blast
next
  case (declared kk t)
  show ?thesis
  proof (cases "objects t k = None")
    case False
    have "objects t \<subseteq>\<^sub>m objects s'"
      using declared(3) record_outcome_extends
      by (auto simp: reconcile_declared_def finalize_slot_def split: sum.splits bool.splits prod.splits if_splits)
    with record_expected_written [OF declared(2) assms(2) False] declared(1) document_at_extends show ?thesis
      unfolding declares_def by blast
  next
    case True
    from declared(3) show ?thesis
    proof (cases rule: reconcile_declared_cases)
      case (missed d)
      have "has_terminal_event L B (es_slot_id slot) s = Inr False"
        by (rule no_event_before [OF record_expected_extends [OF declared(2)] missed(3)])
      moreover have "slot_due L now activation slot" using declared(1) missed(1,2) by (auto simp: slot_due_def)
      ultimately show ?thesis
        using finalize_slot_written [OF missed(4) True assms(3)] unfolding finalizes_def by blast
    qed (use True assms(3) in simp_all)
  qed
qed (use assms(2,3) in simp_all)

lemma reconcile_slots_add:
  assumes "reconcile_slots L B factory now activation slots c s = (r, s')" "objects s k = None" "objects s' k \<noteq> None"
  shows "\<exists>slot \<in> set slots. \<exists>x. document_at s' k = Some x
    \<and> (declares L activation slot k x
       \<or> finalizes L factory now activation slot k x \<and> has_terminal_event L B (es_slot_id slot) s = Inr False)"
  using assms(1,2)
proof (induction slots arbitrary: c s)
  case (Cons y slots)
  obtain q t where d: "reconcile_slot L B factory now activation y c s = (q, t)" by force
  have rest: "objects t \<subseteq>\<^sub>m objects s'" using Cons.prems(1) d reconcile_slots_extend by (cases q) auto
  show ?case
  proof (cases "objects t k = None")
    case False
    with reconcile_slot_adds [OF d Cons.prems(2)] document_at_extends [OF rest] show ?thesis by (meson list.set_intros(1))
  next
    case True
    with Cons.prems(1) d assms(3) obtain c2 where "reconcile_slots L B factory now activation slots c2 t = (r, s')"
      by (cases q) auto
    from Cons.IH [OF this True] no_event_before [OF reconcile_slot_extends [OF d]] show ?thesis
      by (meson list.set_intros(2))
  qed
qed (use assms(3) in simp)

end

section \<open>Properties\<close>

text \<open>A run over one due slot on an empty store, for the applications.\<close>

lemma graphic_digits: "list_all graphic (pad_nat k n)"
  using pad_nat_digits by (fastforce simp: list_all_iff graphic_def is_digit_def)

lemma graphic_isoformat: "list_all graphic (isoformat t)" "isoformat t \<noteq> []"
  by (auto simp: isoformat_def iso_utc_def date_str_def clock_str_def micro_str_def graphic_digits graphic_def
      split: prod.splits)

lemma activation_utc_isoformat:
  "in_range t \<Longrightarrow> activation_utc (std_lib h) (PStr (isoformat t)) f = Inr t"
  "in_range t \<Longrightarrow> activation_utc (std_lib h) (PTime (Aware t)) f = Inr t"
  by (simp_all add: activation_utc_def py_strip_graphic graphic_isoformat std.coerce_utc_isoformat)

definition zero_digest :: "string \<Rightarrow> string" where
  "zero_digest _ = replicate 64 CHR ''0''"

lemma zero_digest_hex: "hex_digest (std_lib zero_digest)"
  by (simp add: hex_digest_def hex_id_def zero_digest_def list_all_iff is_hex_char_def in_range_char_def)

definition missing_args :: "string \<Rightarrow> outcome_args" where
  "missing_args i = demo_outcome_args\<lparr>oa_slot_id := PStr i, oa_collection_state := PStr ''missing_unknown'',
     oa_recovery_state := PStr ''unrecoverable'', oa_gap_reason := PStr ''slot'',
     oa_event_at := PTime (Aware 63900003600000000)\<rparr>"

lemma missing_outcome:
  assumes "\<not> is_blank i"
  obtains e where "collection_outcome_create (std_lib h) (missing_args i) = Inr e" "co_slot_id e = i"
    "co_collection_state e = ''missing_unknown''" "co_recovery_state e = ''unrecoverable''"
proof -
  have b: "\<not> is_blank ''missing_unknown''" "\<not> is_blank ''unrecoverable''"
    by (simp_all add: is_blank_graphic graphic_def)
  show thesis
    using assms b that
    by (simp add: collection_outcome_create_def missing_args_def demo_outcome_args_def slot_enum_def slot_opt_text_def
        slot_safe_code_def slot_count_def slot_opt_timestamp_def outcome_state_check_def recovery_evidence_check_def
        slot_canonical_json_def canonical_json_plain collection_states_def recovery_states_def recovery_classes_def
        gap_required_states_def terminal_collection_states_def)
qed

lemma demo_reconciliation:
  obtains slot e now activation s' where
    "expected_slot_create (std_lib zero_digest) demo_slot_args = Inr slot"
    "collection_outcome_create (std_lib zero_digest) (missing_args (es_slot_id slot)) = Inr e"
    "run_reconciler (std_lib zero_digest) local_storage (\<lambda>_. Inr (Some e)) (PTime (Aware now)) activation [slot] []
       = (Inr \<lparr>rc_declared = 1, rc_not_due = 0, rc_already_terminal = 0, rc_finalized = 1\<rparr>, s')"
    "slot_due (std_lib zero_digest) now activation slot" "in_range now"
    "\<exists>k. outcome_key e = Inr k \<and> local_exists k s'"
proof -
  let ?L = "std_lib zero_digest"
  obtain slot where slot: "expected_slot_create ?L demo_slot_args = Inr slot" using demo_slot by blast
  note wf = expected_slot_create_Inr(1) [OF slot]
  then obtain a d where t: "es_slot_at slot = isoformat a" "in_range a" "es_deadline_at slot = isoformat d" "in_range d"
    by (auto simp: slot_wf_def printed_instant_def)
  have hex: "hex_id (es_slot_id slot)" by (rule slot_wf_hex [OF zero_digest_hex wf])
  then have nb: "\<not> is_blank (es_slot_id slot)"
    by (intro not_blank_graphic) (auto simp: hex_id_def list_all_iff is_hex_char_def in_range_char_def graphic_def)
  obtain e where e: "collection_outcome_create ?L (missing_args (es_slot_id slot)) = Inr e" "co_slot_id e = es_slot_id slot"
    "co_collection_state e = ''missing_unknown''" "co_recovery_state e = ''unrecoverable''" by (rule missing_outcome [OF nb])
  have active: "is_slot_active ?L (PStr (es_slot_at slot)) (PTime (Aware a)) = Inr True"
    by (simp add: is_slot_active_def t activation_utc_isoformat)
  have due: "reconciler_utc ?L (PStr (es_deadline_at slot)) f = Inr d" for f
    using t(4) by (simp add: reconciler_utc_def t(3) std.coerce_utc_isoformat)
  obtain k where k: "expected_key slot = Inr k" using expected_key_exists by blast
  have "valid_slot ?L slot" by (rule std.created_slot_valid [OF slot demo_grain_plain])
  then have "plain (PDict (es_grain slot))" by (simp only: valid_slot_def)
  from canonical_plain [OF this] obtain doc where doc: "slot_to_document ?L slot = Inr doc"
    by (simp add: slot_to_document_def es_grain_key_def del: render.simps sort_keys.simps)
  define s1 where "s1 = [(k, json_dumps_indent ?L (PDict doc))]"
  have r1: "record_expected ?L local_storage slot [] = (Inr k, s1)"
    using plain_json_ok [OF plain_slot_document [OF doc]]
    by (simp add: record_expected_def k doc write_idempotently_def sto_write_json_if_absent_def dumps_indent_def
        local_put_if_absent_def s1_def)
  have none: "has_terminal_event ?L local_storage (es_slot_id slot) s1 = Inr False"
    unfolding files.has_terminal_event_iff files.record_expected_events [OF r1] by (simp add: files.events_at_def)
  obtain k2 where k2: "outcome_key e = Inr k2" using outcome_key_exists by blast
  have "\<nexists>x. k2 = expected_receipts_prefix @ x"
    using outcome_key_form [OF k2] hex e(2) outcome_wf_hex [OF zero_digest_hex collection_outcome_create_Inr [OF e(1)]]
      expected_not_event [of "es_slot_id slot"] unfolding is_prefix_iff by metis
  with files.record_expected_frame [OF r1] have "local_get k2 s1 = Inl (FileNotFoundError k2)" by (simp add: local_get_def)
  note r2 = record_outcome_returns [OF k2 this, of zero_digest]
  have "run_reconciler ?L local_storage (\<lambda>_. Inr (Some e)) (PTime (Aware d)) (PTime (Aware a)) [slot] []
      = (Inr \<lparr>rc_declared = 1, rc_not_due = 0, rc_already_terminal = 0, rc_finalized = 1\<rparr>,
         dict_set k2 (json_dumps_indent ?L (PDict (outcome_to_document e))) s1)"
    using t(4) e(2-4)
    by (simp add: run_reconciler_def reconciler_utc_def [of _ "PTime _"] reconcile_slot_def active r1 reconcile_declared_def
        due none finalize_slot_def validate_missing_outcome_def r2 no_reconciliation_def)
  moreover have "slot_due ?L d (PTime (Aware a)) slot" using active due by (simp add: slot_due_def)
  moreover have "local_exists k2 (dict_set k2 d' s1)" for d' by (simp add: local_exists_def)
  ultimately show thesis using that [OF slot e(1)] t(4) k2 by blast
qed

text \<open>C25: After a successful run every active slot whose deadline has passed has an outcome in the store,
  and a later run with the same clock finalises nothing: reconciliation reaches its goal in one run and
  is idempotent.  The digest returns hexadecimal text and the factory returns outcomes of the contract.\<close>

theorem due_slots_become_terminal:
  assumes "hex_digest (std_lib h)"
    and "\<forall>x\<in>set candidates. \<exists>a. expected_slot_create (std_lib h) a = Inr x"
    and "\<forall>x e. factory x = Inr (Some e) \<longrightarrow> (\<exists>a. collection_outcome_create (std_lib h) a = Inr e)"
    and "in_range now"
    and "run_reconciler (std_lib h) local_storage factory (PTime (Aware now)) activation candidates s = (Inr r, s')"
  shows "(\<forall>x\<in>set candidates. slot_due (std_lib h) now activation x \<longrightarrow>
        has_terminal_event (std_lib h) local_storage (es_slot_id x) s' = Inr True)
    \<and> (\<forall>r2 s2. run_reconciler (std_lib h) local_storage factory (PTime (Aware now)) activation candidates s' = (Inr r2, s2)
        \<longrightarrow> rc_finalized r2 = 0)"
proof -
  have clk: "reconciler_utc (std_lib h) (PTime (Aware now)) f = Inr now" for f
    using assms(4) by (simp add: reconciler_utc_def)
  have ok: "factory_ok (std_lib h) factory" using assms(3) collection_outcome_create_Inr unfolding factory_ok_def by blast
  have wf: "\<forall>x\<in>set candidates. slot_wf (std_lib h) x" using assms(2) expected_slot_create_Inr(1) by blast
  have run: "reconcile_slots (std_lib h) local_storage factory now activation candidates no_reconciliation s = (Inr r, s')"
    using assms(5) by (simp add: run_reconciler_def clk)
  note fin = files.reconcile_slots_terminal [OF run ok assms(1) wf]
  have "rc_finalized r2 = 0"
    if "run_reconciler (std_lib h) local_storage factory (PTime (Aware now)) activation candidates s' = (Inr r2, s2)" for r2 s2
  proof -
    from that have "reconcile_slots (std_lib h) local_storage factory now activation candidates no_reconciliation s' = (Inr r2, s2)"
      by (simp add: run_reconciler_def clk)
    from files.reconcile_slots_idle [OF this] fin show ?thesis by (simp add: no_reconciliation_def)
  qed
  with fin show ?thesis by blast
qed

lemma due_slots_become_terminal_witness:
  "\<exists>(slot :: expected_slot) s'. has_terminal_event (std_lib zero_digest) local_storage (es_slot_id slot) s' = Inr True"
proof -
  obtain slot e now activation s' where d: "expected_slot_create (std_lib zero_digest) demo_slot_args = Inr slot"
    "collection_outcome_create (std_lib zero_digest) (missing_args (es_slot_id slot)) = Inr e"
    "run_reconciler (std_lib zero_digest) local_storage (\<lambda>_. Inr (Some e)) (PTime (Aware now)) activation [slot] []
       = (Inr \<lparr>rc_declared = 1, rc_not_due = 0, rc_already_terminal = 0, rc_finalized = 1\<rparr>, s')"
    "slot_due (std_lib zero_digest) now activation slot" "in_range now" "\<exists>k. outcome_key e = Inr k \<and> local_exists k s'" by (rule demo_reconciliation)
  have "\<forall>x\<in>set [slot]. \<exists>a. expected_slot_create (std_lib zero_digest) a = Inr x" using d(1) by auto
  moreover have "\<forall>x e'. (\<lambda>_. Inr (Some e)) x = (Inr (Some e') :: collection_outcome option result) \<longrightarrow>
      (\<exists>a. collection_outcome_create (std_lib zero_digest) a = Inr e')" using d(2) by auto
  ultimately show ?thesis
    using due_slots_become_terminal [OF zero_digest_hex _ _ d(5,3)] d(4) list.set_intros(1) [of slot "[]"] by blast
qed

text \<open>C26: A run, a failed one too, adds nothing to the store but declarations and the outcomes of missed slots.
  Every new object is the document of the declaration of an active candidate under its key, or the document
  of the outcome that the factory gave for an active candidate whose deadline has passed and that had no
  terminal event before the run: an outcome of that slot, \<open>missing_unknown\<close>, with a recovery evidence code when
  the recovery is pending or done, which is \<open>raw_manifest_verified\<close> for a replay of raw data.\<close>

theorem reconciler_finalizes_only_missed_slots:
  assumes "in_range now"
    and "run_reconciler (std_lib h) local_storage factory (PTime (Aware now)) activation candidates s = (r, s')"
    and "\<not> local_exists k s" "local_exists k s'"
  shows "\<exists>slot \<in> set candidates. is_slot_active (std_lib h) (PStr (es_slot_at slot)) activation = Inr True \<and>
    ((\<exists>doc. expected_key slot = Inr k \<and> slot_to_document (std_lib h) slot = Inr doc
        \<and> sto_read_json (std_lib h) local_storage k s' = Inr (PDict doc))
     \<or> (\<exists>e. factory slot = Inr (Some e) \<and> outcome_key e = Inr k
        \<and> sto_read_json (std_lib h) local_storage k s' = Inr (PDict (outcome_to_document e))
        \<and> slot_due (std_lib h) now activation slot
        \<and> has_terminal_event (std_lib h) local_storage (es_slot_id slot) s = Inr False
        \<and> co_slot_id e = es_slot_id slot \<and> co_collection_state e = ''missing_unknown''
        \<and> (co_recovery_state e \<in> {''pending'', ''recovered''} \<longrightarrow> co_evidence_code e \<noteq> None
             \<and> (co_recovery_class e = ''raw_replay'' \<longrightarrow> co_evidence_code e = Some ''raw_manifest_verified''))))"
proof -
  have "reconcile_slots (std_lib h) local_storage factory now activation candidates no_reconciliation s = (r, s')"
    using assms(1,2) by (simp add: run_reconciler_def reconciler_utc_def)
  from files.reconcile_slots_add [OF this, of k] assms(3,4) obtain slot x where slot: "slot \<in> set candidates"
    "files.document_at h s' k = Some x"
    "declares (std_lib h) activation slot k x \<or> finalizes (std_lib h) factory now activation slot k x
      \<and> has_terminal_event (std_lib h) local_storage (es_slot_id slot) s = Inr False"
    by (auto simp: local_exists_def)
  then have "sto_read_json (std_lib h) local_storage k s' = Inr x" using files.read_json_returns by blast
  with slot show ?thesis
    by (intro bexI [OF _ slot(1)])
      (auto simp: declares_def finalizes_def slot_due_def dest: validate_missing_outcome_Inr validated_evidence)
qed

lemma demo_outcome_key:
  assumes "expected_slot_create (std_lib zero_digest) demo_slot_args = Inr slot"
    "collection_outcome_create (std_lib zero_digest) (missing_args (es_slot_id slot)) = Inr e" "outcome_key e = Inr k"
  shows "expected_key x \<noteq> Inr k"
proof
  assume "expected_key x = Inr k"
  then obtain r where k: "k = expected_receipts_prefix @ r" using expected_key_form by blast
  have "co_slot_id e = es_slot_id slot"
    using collection_outcome_create_fields [OF assms(2)] by (simp add: missing_args_def)
  then have "hex_id (co_slot_id e)" using slot_wf_hex [OF zero_digest_hex expected_slot_create_Inr(1) [OF assms(1)]] by simp
  from outcome_key_form [OF assms(3) this outcome_wf_hex [OF zero_digest_hex collection_outcome_create_Inr [OF assms(2)]]]
    expected_not_event k show False unfolding is_prefix_iff by metis
qed

lemma reconciler_finalizes_only_missed_slots_witness:
  "\<exists>slot e now activation s' k. run_reconciler (std_lib zero_digest) local_storage (\<lambda>_. Inr (Some e)) (PTime (Aware now)) activation [slot] []
       = (Inr \<lparr>rc_declared = 1, rc_not_due = 0, rc_already_terminal = 0, rc_finalized = 1\<rparr>, s')
     \<and> \<not> local_exists k [] \<and> outcome_key e = Inr k \<and> co_slot_id e = es_slot_id slot \<and> co_collection_state e = ''missing_unknown''
     \<and> sto_read_json (std_lib zero_digest) local_storage k s' = Inr (PDict (outcome_to_document e))
     \<and> has_terminal_event (std_lib zero_digest) local_storage (es_slot_id slot) [] = Inr False"
proof -
  obtain slot e now activation s' where d: "expected_slot_create (std_lib zero_digest) demo_slot_args = Inr slot"
    "collection_outcome_create (std_lib zero_digest) (missing_args (es_slot_id slot)) = Inr e"
    "run_reconciler (std_lib zero_digest) local_storage (\<lambda>_. Inr (Some e)) (PTime (Aware now)) activation [slot] []
       = (Inr \<lparr>rc_declared = 1, rc_not_due = 0, rc_already_terminal = 0, rc_finalized = 1\<rparr>, s')"
    "slot_due (std_lib zero_digest) now activation slot" "in_range now"
    "\<exists>k. outcome_key e = Inr k \<and> local_exists k s'" by (rule demo_reconciliation)
  obtain k where k: "outcome_key e = Inr k" "local_exists k s'" using d(6) by blast
  have new: "\<not> local_exists k []" by (simp add: local_exists_def)
  from reconciler_finalizes_only_missed_slots [OF d(5,3) new k(2)] demo_outcome_key [OF d(1,2) k(1)]
  have "co_slot_id e = es_slot_id slot \<and> co_collection_state e = ''missing_unknown''
     \<and> sto_read_json (std_lib zero_digest) local_storage k s' = Inr (PDict (outcome_to_document e))
     \<and> has_terminal_event (std_lib zero_digest) local_storage (es_slot_id slot) [] = Inr False" by auto
  with d(3) new k(1) show ?thesis by blast
qed

text \<open>A successful run counts every active candidate exactly once: the declared ones are the active ones,
  and each of them is not due yet, already has an outcome, or was finalised.\<close>

lemma reconciliation_counts_every_candidate:
  assumes "run_reconciler L B factory clock_now activation candidates s = (Inr r, s')"
  shows "rc_declared r = length (filter (\<lambda>x. is_slot_active L (PStr (es_slot_at x)) activation = Inr True) candidates)
    \<and> rc_declared r = rc_not_due r + rc_already_terminal r + rc_finalized r"
proof -
  obtain now where "reconcile_slots L B factory now activation candidates no_reconciliation s = (Inr r, s')"
    using assms by (auto simp: run_reconciler_def split: sum.splits)
  from reconcile_slots_counts [OF this] show ?thesis by (simp add: balanced_def no_reconciliation_def)
qed

lemma reconciliation_counts_every_candidate_witness:
  "\<exists>slot e now activation s'. run_reconciler (std_lib zero_digest) local_storage (\<lambda>_. Inr (Some e)) (PTime (Aware now)) activation [slot] []
       = (Inr \<lparr>rc_declared = 1, rc_not_due = 0, rc_already_terminal = 0, rc_finalized = 1\<rparr>, s')
     \<and> (1 :: nat) = 0 + 0 + 1"
proof -
  obtain slot e now activation s' where d: "run_reconciler (std_lib zero_digest) local_storage (\<lambda>_. Inr (Some e)) (PTime (Aware now)) activation [slot] []
       = (Inr \<lparr>rc_declared = 1, rc_not_due = 0, rc_already_terminal = 0, rc_finalized = 1\<rparr>, s')" by (rule demo_reconciliation) (rule that)
  from reconciliation_counts_every_candidate [OF d] have "(1 :: nat) = 0 + 0 + 1" by simp
  with d show ?thesis by (intro exI conjI)
qed

end
