(* ===== verification/Kma_Source.thy ===== *)
theory Kma_Source
  imports Py_Text
begin

text \<open>
  The KMA source (\<open>weather_ingest/kma.py\<close>): the base cycle of a request, its pages and parameters, the
  configured grids, and the validation of a response.  The lemmas show that the resolved cycle is the
  latest published one, that the pages cover the reported rows, and that an accepted response
  consists of valid rows of the request.

  The environment is a function from names to settings; the JSON parser is a parameter.
\<close>

section \<open>Settings and pages\<close>

definition kma_base_times :: "string list" where
  "kma_base_times = [''0200'', ''0500'', ''0800'', ''1100'', ''1400'', ''1700'', ''2000'', ''2300'']"

definition configured_integer :: "string \<Rightarrow> pyobj \<Rightarrow> int \<Rightarrow> int result" where
  "configured_integer name v minimum =
     bind_result (try_except (py_int v) (\<lambda>e. is_type_error e \<or> is_value_error e)
         (\<lambda>_. Inl (WeatherBronzeConfigurationError (name @ '' must be an integer'')))) (\<lambda>i.
     if i < minimum then Inl (WeatherBronzeConfigurationError (name @ '' must be at least '' @ show_int minimum))
     else Inr i)"

text \<open>\<open>os.environ.get(name, default)\<close>.\<close>

definition env_get :: "(string \<Rightarrow> string option) \<Rightarrow> string \<Rightarrow> pyobj \<Rightarrow> pyobj" where
  "env_get env name dflt = (case env name of None \<Rightarrow> dflt | Some s \<Rightarrow> PStr s)"

definition default_expected_grid_count :: int where "default_expected_grid_count = 80"
definition default_num_of_rows :: int where "default_num_of_rows = 1000"

definition expected_kma_grid_count :: "(string \<Rightarrow> string option) \<Rightarrow> int result" where
  "expected_kma_grid_count env =
     configured_integer ''ASK_SEOUL_KMA_EXPECTED_GRIDS''
       (env_get env ''ASK_SEOUL_KMA_EXPECTED_GRIDS''
          (env_get env ''ASK_SEOUL_REPORT_EXPECTED_KMA_GRIDS'' (PInt default_expected_grid_count))) 1"

text \<open>
  \<open>load_kma_grids\<close> on the CSV file: absent, one that does not decode or parse, or its header
  and rows, where a missing column of a row is \<open>PNone\<close>.
\<close>

datatype csv_file = Csv_Missing | Csv_Invalid | Csv_Rows "string list" "pyobj pydict list"

type_synonym kma_grid = "pyobj \<times> int \<times> int"

definition add_grid :: "pyobj pydict \<Rightarrow> kma_grid list \<Rightarrow> kma_grid list result" where
  "add_grid row grids =
     bind_result (py_int (dict_get ''nx'' row)) (\<lambda>nx.
     bind_result (py_int (dict_get ''ny'' row)) (\<lambda>ny.
     if (nx, ny) \<in> snd ` set grids then Inr grids
     else Inr (grids @ [(if falsy (dict_get ''place_id'' row)
                         then PStr (''kma_'' @ show_int nx @ ''_'' @ show_int ny)
                         else dict_get ''place_id'' row, nx, ny)])))"

definition load_kma_grids ::
  "(string \<Rightarrow> string option) \<Rightarrow> csv_file \<Rightarrow> int option \<Rightarrow> kma_grid list result" where
  "load_kma_grids env csv expected_count =
     bind_result
       (case csv of
          Csv_Missing \<Rightarrow> Inl (WeatherBronzeConfigurationError ''KMA grid CSV file does not exist'')
        | Csv_Invalid \<Rightarrow> Inl (WeatherBronzeConfigurationError ''KMA grid CSV content is invalid'')
        | Csv_Rows fieldnames rs \<Rightarrow>
            if \<not> {''nx'', ''ny''} \<subseteq> set fieldnames
            then Inl (WeatherBronzeConfigurationError ''KMA grid CSV content is invalid'')
            else try_except (fold_result add_grid rs []) (\<lambda>e. is_key_error e \<or> is_type_error e \<or> is_value_error e)
                   (\<lambda>_. Inl (WeatherBronzeConfigurationError ''KMA grid CSV content is invalid''))) (\<lambda>grids.
     if grids = [] then Inl (WeatherBronzeConfigurationError ''No KMA grids configured'')
     else bind_result (case expected_count of None \<Rightarrow> expected_kma_grid_count env | Some n \<Rightarrow> Inr n) (\<lambda>n.
     bind_result (configured_integer ''KMA expected grid count'' (PInt n) 1) (\<lambda>expected.
     if int (length grids) \<noteq> expected then Inl (WeatherBronzeConfigurationError ''KMA grid count mismatch'')
     else Inr grids)))"

definition kma_num_of_rows :: "(string \<Rightarrow> string option) \<Rightarrow> int result" where
  "kma_num_of_rows env =
     configured_integer ''KMA_NUM_OF_ROWS''
       (env_get env ''KMA_NUM_OF_ROWS'' (PStr (show_int default_num_of_rows))) 1"

definition kma_page_no :: "(string \<Rightarrow> string option) \<Rightarrow> int result" where
  "kma_page_no env = configured_integer ''KMA_PAGE_NO'' (env_get env ''KMA_PAGE_NO'' (PStr ''1'')) 1"

text \<open>\<open>math.ceil(total / rows_per_page)\<close>; the quotient of floats is exact enough below \<open>2 ^ 53\<close>.\<close>

definition kma_page_count :: "(string \<Rightarrow> string option) \<Rightarrow> pyobj \<Rightarrow> int option \<Rightarrow> int result" where
  "kma_page_count env total_count num_of_rows =
     bind_result (if falsy total_count then Inr 0 else py_int total_count) (\<lambda>total.
     if total < 0 then Inl (WeatherSourceSchemaError ''KMA total_count must be non-negative'')
     else bind_result (case num_of_rows of None \<Rightarrow> kma_num_of_rows env | Some n \<Rightarrow> Inr n) (\<lambda>rows.
     if rows < 1 then Inl (WeatherInvalidWindowError ''KMA num_of_rows must be positive'')
     else Inr (max 1 (\<lceil>rat_of_int total / rat_of_int rows\<rceil>))))"

definition kma_page_numbers :: "(string \<Rightarrow> string option) \<Rightarrow> pyobj \<Rightarrow> int option \<Rightarrow> int list result" where
  "kma_page_numbers env total_count num_of_rows =
     bind_result (kma_page_count env total_count num_of_rows) (\<lambda>n. Inr [1..n])"

definition page_parameters ::
  "(string \<Rightarrow> string option) \<Rightarrow> int option \<Rightarrow> int option \<Rightarrow> (int \<times> int) result" where
  "page_parameters env page_no num_of_rows =
     bind_result (case page_no of None \<Rightarrow> kma_page_no env | Some n \<Rightarrow> Inr n) (\<lambda>page.
     bind_result (case num_of_rows of None \<Rightarrow> kma_num_of_rows env | Some n \<Rightarrow> Inr n) (\<lambda>rows.
     if page < 1 then Inl (WeatherInvalidWindowError ''KMA page_no must be positive'')
     else if rows < 1 then Inl (WeatherInvalidWindowError ''KMA num_of_rows must be positive'')
     else Inr (page, rows)))"

definition request_params ::
  "(string \<Rightarrow> string option) \<Rightarrow> string \<Rightarrow> string \<Rightarrow> int \<Rightarrow> int \<Rightarrow> int option \<Rightarrow> int option \<Rightarrow> pyobj result" where
  "request_params env base_date base_time nx ny page_no num_of_rows =
     bind_result (page_parameters env page_no num_of_rows) (\<lambda>(page, rows).
     Inr (PDict
       [(''api'', PStr ''getVilageFcst''), (''dataType'', PStr ''JSON''), (''base_date'', PStr base_date),
        (''base_time'', PStr base_time), (''nx'', PInt nx), (''ny'', PInt ny),
        (''numOfRows'', PStr (show_int rows)), (''pageNo'', PStr (show_int page))]))"

text \<open>\<open>json.dumps(..., ensure_ascii=True, sort_keys=True)\<close> with the default separators, of ASCII text.\<close>

definition request_params_json ::
  "pylib \<Rightarrow> (string \<Rightarrow> string option) \<Rightarrow> string \<Rightarrow> string \<Rightarrow> int \<Rightarrow> int \<Rightarrow> int option \<Rightarrow> int option \<Rightarrow> string result" where
  "request_params_json L env base_date base_time nx ny page_no num_of_rows =
     bind_result (request_params env base_date base_time nx ny page_no num_of_rows) (\<lambda>p.
     Inr (dump L default_layout 0 (sort_keys p)))"

section \<open>The base cycle\<close>

text \<open>\<open>datetime.strptime\<close> with \<open>%Y%m%d\<close> on eight and \<open>%H%M\<close> on four digits, as code points.\<close>

definition two_digits :: "nat \<Rightarrow> nat \<Rightarrow> nat option" where
  "two_digits a b = Option.bind (digit_value a) (\<lambda>x. map_option (\<lambda>y. 10 * x + y) (digit_value b))"

definition ascii_digit :: "nat \<Rightarrow> nat \<Rightarrow> nat \<Rightarrow> bool" where
  "ascii_digit lo hi p \<longleftrightarrow> 48 + lo \<le> p \<and> p \<le> 48 + hi"

fun strptime_day :: "nat list \<Rightarrow> (nat \<times> nat \<times> nat) option" where
  "strptime_day [a, b, c, d, e, f, g, h] =
     (case (two_digits a b, two_digits c d, two_digits e f, two_digits g h) of
        (Some y1, Some y2, Some m, Some dd) \<Rightarrow>
          let y = 100 * y1 + y2 in
          if ((ascii_digit 0 0 e \<and> ascii_digit 1 9 f) \<or> (ascii_digit 1 1 e \<and> ascii_digit 0 2 f))
             \<and> ((ascii_digit 0 0 g \<and> ascii_digit 1 9 h) \<or> ascii_digit 1 2 g \<or> (ascii_digit 3 3 g \<and> ascii_digit 0 1 h))
             \<and> 1 \<le> y \<and> dd \<le> month_lengths (is_leap y) ! (m - 1)
          then Some (y, m, dd) else None
      | _ \<Rightarrow> None)"
| "strptime_day _ = None"

fun strptime_clock :: "nat list \<Rightarrow> (nat \<times> nat) option" where
  "strptime_clock [a, b, c, d] =
     (case (two_digits a b, two_digits c d) of
        (Some h, Some m) \<Rightarrow>
          if (ascii_digit 0 1 a \<or> (ascii_digit 2 2 a \<and> ascii_digit 0 3 b)) \<and> ascii_digit 0 5 c
          then Some (h, m) else None
      | _ \<Rightarrow> None)"
| "strptime_clock _ = None"

text \<open>The wall-clock time of a date and a time text.\<close>

definition kma_wall :: "string \<Rightarrow> string \<Rightarrow> int option" where
  "kma_wall date time =
     (case (strptime_day (code_points date), strptime_clock (code_points time)) of
        (Some (y, m, d), Some (h, mi)) \<Rightarrow>
          Some (int (day_number y m d * us_per_day + h * us_per_hour + mi * us_per_minute))
      | _ \<Rightarrow> None)"

definition normalize_kma_base_datetime :: "pylib \<Rightarrow> pyobj \<Rightarrow> pyobj \<Rightarrow> (string \<times> string) result" where
  "normalize_kma_base_datetime L base_date base_time =
     (let date = py_strip (str_or_empty L base_date); time = py_strip (str_or_empty L base_time) in
      if \<not> (length (code_points date) = 8 \<and> list_all (\<lambda>p. digit_value p \<noteq> None) (code_points date))
      then Inl (WeatherInvalidWindowError (''base_date must be YYYYMMDD: '' @ date))
      else if time \<notin> set kma_base_times
      then Inl (WeatherInvalidWindowError (''base_time is not a base time: '' @ time))
      else if kma_wall date time = None
      then Inl (WeatherInvalidWindowError (''invalid KMA base datetime: '' @ date @ '' '' @ time))
      else Inr (date, time))"

definition kma_base_datetime_from_conf :: "pylib \<Rightarrow> pyobj pydict \<Rightarrow> (string \<times> string) option result" where
  "kma_base_datetime_from_conf L conf =
     (let d = dict_get ''base_date'' conf; t = dict_get ''base_time'' conf in
      if \<not> falsy d \<or> \<not> falsy t
      then if falsy d \<or> falsy t
           then Inl (WeatherInvalidWindowError ''dag_run.conf base_date and base_time must be set together.'')
           else bind_result (normalize_kma_base_datetime L d t) (\<lambda>r. Inr (Some r))
      else Inr None)"

text \<open>The cycle published at a wall-clock time: the last one of the day, or of the previous day.\<close>

definition published_cycle :: "int \<Rightarrow> (string \<times> string) result" where
  "published_cycle available =
     (let candidates = filter (\<lambda>t. t \<le> kst_clock (nat available)) kma_base_times in
      if candidates \<noteq> [] then Inr (kst_date (nat available), last candidates)
      else bind_result (add_delta available (- hours 24)) (\<lambda>previous.
           Inr (kst_date (nat previous), last kma_base_times)))"

definition kma_publish_delay :: "(string \<Rightarrow> string option) \<Rightarrow> int result" where
  "kma_publish_delay env =
     configured_integer ''KMA_PUBLISH_DELAY_MINUTES'' (env_get env ''KMA_PUBLISH_DELAY_MINUTES'' (PStr ''20'')) 0"

text \<open>\<open>now\<close> is the wall-clock time in Korea.\<close>

definition resolve_kma_base_datetime ::
  "pylib \<Rightarrow> (string \<Rightarrow> string option) \<Rightarrow> int \<Rightarrow> (string \<times> string) result" where
  "resolve_kma_base_datetime L env now =
     (let d = env_get env ''KMA_BASE_DATE'' PNone; t = env_get env ''KMA_BASE_TIME'' PNone in
      if \<not> falsy d \<or> \<not> falsy t
      then if falsy d \<or> falsy t
           then Inl (WeatherBronzeConfigurationError ''KMA_BASE_DATE and KMA_BASE_TIME must be set together.'')
           else normalize_kma_base_datetime L d t
      else bind_result (kma_publish_delay env) (\<lambda>delay.
           bind_result (add_delta now (- minutes delay)) published_cycle))"

section \<open>Responses\<close>

definition kma_required_text :: "pyobj pydict \<Rightarrow> string \<Rightarrow> string result" where
  "kma_required_text row field =
     (case dict_get field row of
        PStr s \<Rightarrow> if is_blank s then Inl (WeatherSourceSchemaError (''KMA item is missing required field: '' @ field))
                  else Inr (py_strip s)
      | _ \<Rightarrow> Inl (WeatherSourceSchemaError (''KMA item is missing required field: '' @ field)))"

definition validate_kma_timestamp :: "string \<Rightarrow> string \<Rightarrow> unit result" where
  "validate_kma_timestamp v field =
     require (if is_suffix ''Date'' field then strptime_day (code_points v) \<noteq> None
              else strptime_clock (code_points v) \<noteq> None)
       (WeatherSourceSchemaError (''KMA item has invalid '' @ field))"

definition validate_kma_field :: "pyobj pydict \<Rightarrow> string \<Rightarrow> unit result" where
  "validate_kma_field row field =
     bind_result (kma_required_text row field) (\<lambda>v.
     if field \<in> {''baseDate'', ''baseTime'', ''fcstDate'', ''fcstTime''} then validate_kma_timestamp v field
     else Inr ())"

definition validate_kma_coordinate :: "pyobj pydict \<Rightarrow> string \<Rightarrow> unit result" where
  "validate_kma_coordinate row field =
     (case dict_get field row of
        PNone \<Rightarrow> Inl (WeatherSourceSchemaError (''KMA item is missing required field: '' @ field))
      | PBool _ \<Rightarrow> Inl (WeatherSourceSchemaError (''KMA item is missing required field: '' @ field))
      | v \<Rightarrow>
          bind_result (try_except (py_int v) (\<lambda>e. is_type_error e \<or> is_value_error e)
              (\<lambda>_. Inl (WeatherSourceSchemaError (''KMA item has invalid '' @ field)))) (\<lambda>i.
          require (0 < i) (WeatherSourceSchemaError (''KMA item has invalid '' @ field))))"

definition kma_text_fields :: "string list" where
  "kma_text_fields = [''baseDate'', ''baseTime'', ''category'', ''fcstDate'', ''fcstTime'', ''fcstValue'']"

definition validate_kma_row :: "pyobj \<Rightarrow> pyobj pydict result" where
  "validate_kma_row v =
     (case v of
        PDict row \<Rightarrow>
          bind_result (traverse (validate_kma_field row) kma_text_fields) (\<lambda>_.
          bind_result (traverse (validate_kma_coordinate row) [''nx'', ''ny'']) (\<lambda>_.
          Inr row))
      | _ \<Rightarrow> Inl (WeatherSourceSchemaError ''KMA item must be an object''))"

definition kma_nonnegative_integer :: "pyobj pydict \<Rightarrow> string \<Rightarrow> int result" where
  "kma_nonnegative_integer body field =
     (let v = dict_get field body in
      if v = PNone \<or> (case v of PBool _ \<Rightarrow> True | _ \<Rightarrow> False) \<or> v = PStr []
      then Inl (WeatherSourceSchemaError (''KMA response is missing '' @ field))
      else bind_result (try_except (py_int v) (\<lambda>e. is_type_error e \<or> is_value_error e)
               (\<lambda>_. Inl (WeatherSourceSchemaError (''KMA '' @ field @ '' must be an integer'')))) (\<lambda>i.
           if i < 0 then Inl (WeatherSourceSchemaError (''KMA '' @ field @ '' must be non-negative'')) else Inr i))"

definition object_field :: "string \<Rightarrow> pyobj pydict \<Rightarrow> string \<Rightarrow> pyobj pydict result" where
  "object_field what d f =
     (case dict_get f d of PDict x \<Rightarrow> Inr x
      | _ \<Rightarrow> Inl (WeatherSourceSchemaError (''KMA '' @ what @ '' field must be an object'')))"

definition kma_item_rows :: "pyobj \<Rightarrow> int \<Rightarrow> pyobj list result" where
  "kma_item_rows node expected_rows =
     (case node of
        PNone \<Rightarrow> if expected_rows = 0 then Inr [] else Inl (WeatherSourceSchemaError ''KMA items field is missing item'')
      | PDict d \<Rightarrow> Inr [PDict d]
      | PList xs \<Rightarrow> Inr xs
      | _ \<Rightarrow> Inl (WeatherSourceSchemaError ''Unexpected KMA item payload type''))"

record kma_metadata =
  km_result_code :: string
  km_result_msg :: string
  km_total_count :: int
  km_row_count :: nat

definition kma_result_code :: "pyobj pydict \<Rightarrow> string result" where
  "kma_result_code header =
     (case dict_get ''resultCode'' header of
        PStr s \<Rightarrow> if is_blank s then Inl (WeatherSourceSchemaError ''KMA resultCode must be a non-empty string'')
                  else Inr (py_strip s)
      | _ \<Rightarrow> Inl (WeatherSourceSchemaError ''KMA resultCode must be a non-empty string''))"

definition parse_kma_response :: "pylib \<Rightarrow> string \<Rightarrow> (kma_metadata \<times> pyobj pydict list) result" where
  "parse_kma_response L raw =
     bind_result
       (case json_loads L raw of
          None \<Rightarrow> Inl (WeatherSourceSchemaError ''KMA response is not valid UTF-8 JSON'')
        | Some (PDict p) \<Rightarrow> Inr p
        | Some _ \<Rightarrow> Inl (WeatherSourceSchemaError ''KMA JSON root must be an object'')) (\<lambda>payload.
     bind_result (object_field ''response'' payload ''response'') (\<lambda>response.
     bind_result (object_field ''header'' response ''header'') (\<lambda>header.
     bind_result (kma_result_code header) (\<lambda>code.
     let msg = str_or_empty L (dict_get ''resultMsg'' header) in
     if code \<noteq> ''00'' then Inl (WeatherSourceBusinessError (''KMA API returned resultCode='' @ code @ '', resultMsg='' @ msg))
     else bind_result (object_field ''body'' response ''body'') (\<lambda>body.
     bind_result (kma_nonnegative_integer body ''totalCount'') (\<lambda>total.
     bind_result (object_field ''items'' body ''items'') (\<lambda>items.
     bind_result (kma_item_rows (dict_get ''item'' items) total) (\<lambda>rows.
     bind_result (traverse validate_kma_row rows) (\<lambda>valid.
     if total = 0 \<and> rows = []
     then Inl (WeatherSourceSchemaError ''KMA response contains no forecast rows for request context validation'')
     else if total = 0 then Inl (WeatherSourceSchemaError ''KMA totalCount=0 cannot include item data'')
     else Inr (\<lparr>km_result_code = code, km_result_msg = msg, km_total_count = total, km_row_count = length rows\<rparr>,
               valid))))))))))"

text \<open>\<open>validate_kma_response_context\<close>: the rows are validated again and compared with the request.\<close>

definition check_kma_context :: "pylib \<Rightarrow> string \<Rightarrow> string \<Rightarrow> int \<Rightarrow> int \<Rightarrow> pyobj \<Rightarrow> unit result" where
  "check_kma_context L base_date base_time nx ny v =
     bind_result (validate_kma_row v) (\<lambda>row.
     bind_result (py_int (dict_get ''nx'' row)) (\<lambda>x.
     bind_result (py_int (dict_get ''ny'' row)) (\<lambda>y.
     require (py_str L (dict_get ''baseDate'' row) = base_date \<and> py_str L (dict_get ''baseTime'' row) = base_time
              \<and> x = nx \<and> y = ny)
       (WeatherSourceSchemaError ''KMA item response context mismatch''))))"

definition validate_kma_response_context ::
  "pylib \<Rightarrow> string \<Rightarrow> string \<Rightarrow> int \<Rightarrow> int \<Rightarrow> pyobj list \<Rightarrow> unit result" where
  "validate_kma_response_context L base_date base_time nx ny rows =
     bind_result (traverse (check_kma_context L base_date base_time nx ny) rows) (\<lambda>_. Inr ())"

section \<open>The cycle that is asked for\<close>

lemma digit_value_ascii [simp]: "d < 10 \<Longrightarrow> digit_value (d + 48) = Some d"
  by (simp add: digit_value_def digit_zeros_def)

lemma code_points_ascii: "list_all (\<lambda>c. (of_char c :: nat) < 128) s \<Longrightarrow> code_points s = map of_char s"
proof (induction s)
  case Nil
  show ?case by (simp add: code_points.simps [of "[]"] utf8_head_def)
next
  case (Cons c s)
  then have "utf8_head (c # s) = Some (of_char c, s)" by (simp add: utf8_head_def)
  with Cons show ?case by (simp add: code_points.simps [of "c # s"])
qed

lemma pad_nat_ascii: "list_all (\<lambda>c. (of_char c :: nat) < 128) (pad_nat k n)"
proof (unfold list_all_iff, rule ballI)
  fix c assume "c \<in> set (pad_nat k n)"
  then have "is_digit c" by (rule pad_nat_digits)
  then show "(of_char c :: nat) < 128" by (simp add: is_digit_def)
qed

text \<open>The code points of a padded number.\<close>

definition digit_points :: "nat \<Rightarrow> nat \<Rightarrow> nat list" where
  "digit_points k n = map of_char (pad_nat k n)"

lemma digit_points_2: "n < 100 \<Longrightarrow> digit_points 2 n = [n div 10 + 48, n mod 10 + 48]"
  by (simp add: digit_points_def numeral_2_eq_2)

lemma four_Suc: "(4 :: nat) = Suc (Suc (Suc (Suc 0)))"
  by simp

lemma digit_points_4:
  assumes "n < 10000"
  shows "digit_points 4 n = digit_points 2 (n div 100) @ digit_points 2 (n mod 100)"
proof -
  have "digit_points (Suc (Suc (Suc (Suc 0)))) n
      = [n div 1000 mod 10 + 48, n div 100 mod 10 + 48, n div 10 mod 10 + 48, n mod 10 + 48]"
    by (simp add: digit_points_def)
  moreover have "n div 100 div 10 = n div 1000" by (simp add: div_mult2_eq [symmetric])
  moreover have "n div 1000 mod 10 = n div 1000" using assms by (simp add: less_mult_imp_div_less)
  moreover have "n mod 100 div 10 = n div 10 mod 10" using mod_mult2_eq [of n 10 10] by simp
  moreover have "n mod 100 mod 10 = n mod 10" by (simp add: mod_mod_cancel)
  moreover have "n div 100 < 100" "n mod 100 < 100" using assms by (simp_all add: less_mult_imp_div_less)
  ultimately show ?thesis by (metis (no_types) append.simps digit_points_2 four_Suc)
qed

lemma code_points_pad [simp]:
  "code_points (pad_nat a x @ pad_nat b y) = digit_points a x @ digit_points b y"
  "code_points (pad_nat a x @ pad_nat b y @ pad_nat c z) = digit_points a x @ digit_points b y @ digit_points c z"
  by (simp_all add: code_points_ascii pad_nat_ascii digit_points_def)

lemma two_digits_number: "n < 100 \<Longrightarrow> two_digits (n div 10 + 48) (n mod 10 + 48) = Some n"
  by (simp add: two_digits_def less_mult_imp_div_less)

lemma strptime_day_digits:
  assumes "1 \<le> y" "y \<le> 9999" "1 \<le> m" "m \<le> 12" "1 \<le> d" "d \<le> month_lengths (is_leap y) ! (m - 1)"
  shows "strptime_day (digit_points 4 y @ digit_points 2 m @ digit_points 2 d) = Some (y, m, d)"
proof -
  have "month_lengths (is_leap y) ! (m - 1) \<le> 31" by (rule month_lengths_le) (use assms in linarith)
  then have d: "d \<le> 31" using assms(6) by linarith
  have small: "y < 10000" "y div 100 < 100" "y mod 100 < 100" "m < 100" "d < 100" using assms d by auto
  have whole: "100 * (y div 100) + y mod 100 = y" by (rule mult_div_mod_eq)
  have month: "(m div 10 = 0 \<and> 1 \<le> m mod 10) \<or> (m div 10 = 1 \<and> m mod 10 \<le> 2)"
    using assms(3,4) by arith
  have day: "(d div 10 = 0 \<and> 1 \<le> d mod 10) \<or> (1 \<le> d div 10 \<and> d div 10 \<le> 2) \<or> (d div 10 = 3 \<and> d mod 10 \<le> 1)"
    using assms(5) d by arith
  have nines: "m mod 10 \<le> 9" "d mod 10 \<le> 9" by arith+
  show ?thesis
    unfolding digit_points_4 [OF small(1)] digit_points_2 [OF small(2)] digit_points_2 [OF small(3)]
      digit_points_2 [OF small(4)] digit_points_2 [OF small(5)] append.simps strptime_day.simps
      two_digits_number [OF small(2)] two_digits_number [OF small(3)]
      two_digits_number [OF small(4)] two_digits_number [OF small(5)] option.case prod.case Let_def whole
    using month day nines assms(1,6) by (auto simp: ascii_digit_def)
qed

lemma strptime_clock_digits:
  assumes "h < 24" "m < 60"
  shows "strptime_clock (digit_points 2 h @ digit_points 2 m) = Some (h, m)"
proof -
  have small: "h < 100" "m < 100" using assms by auto
  have "(h div 10 \<le> 1) \<or> (h div 10 = 2 \<and> h mod 10 \<le> 3)" "m div 10 \<le> 5" using assms by arith+
  then show ?thesis
    unfolding digit_points_2 [OF small(1)] digit_points_2 [OF small(2)] append.simps strptime_clock.simps
      two_digits_number [OF small(1)] two_digits_number [OF small(2)] option.case prod.case
    by (auto simp: ascii_digit_def)
qed

definition kma_base_hours :: "nat list" where
  "kma_base_hours = [2, 5, 8, 11, 14, 17, 20, 23]"

definition hour_text :: "nat \<Rightarrow> string" where
  "hour_text h = pad_nat 2 h @ pad_nat 2 0"

lemma kma_base_times_hours: "kma_base_times = map hour_text kma_base_hours"
  by code_simp

lemma hour_text_le_iff: "k < 100 \<Longrightarrow> h < 100 \<Longrightarrow> hour_text k \<le> pad_nat 2 h @ pad_nat 2 m \<longleftrightarrow> k \<le> h"
  by (simp add: hour_text_def not_less [symmetric] append_less_iff pad_nat_less_iff)

lemma cycle_candidates:
  assumes "h < 24"
  shows "filter (\<lambda>t. t \<le> pad_nat 2 h @ pad_nat 2 m) kma_base_times = map hour_text (filter (\<lambda>k. k \<le> h) kma_base_hours)"
proof -
  have "\<forall>k\<in>set kma_base_hours. hour_text k \<le> pad_nat 2 h @ pad_nat 2 m \<longleftrightarrow> k \<le> h"
    using assms by (intro ballI hour_text_le_iff) (auto simp: kma_base_hours_def)
  then show ?thesis by (simp add: kma_base_times_hours filter_map o_def cong: filter_cong)
qed

lemma last_base_hour:
  assumes "2 \<le> h" "h < 24"
  shows "\<exists>k. filter (\<lambda>k. k \<le> h) kma_base_hours \<noteq> [] \<and> last (filter (\<lambda>k. k \<le> h) kma_base_hours) = k
    \<and> k \<in> set kma_base_hours \<and> k \<le> h \<and> h < k + 3"
proof -
  have "h \<in> set [2..<24]" unfolding set_upt using assms by (simp only: atLeastLessThan_iff)
  moreover have "\<forall>h\<in>set [2..<24]. filter (\<lambda>k. k \<le> h) kma_base_hours \<noteq> []
      \<and> last (filter (\<lambda>k. k \<le> h) kma_base_hours) \<in> set kma_base_hours
      \<and> last (filter (\<lambda>k. k \<le> h) kma_base_hours) \<le> h \<and> h < last (filter (\<lambda>k. k \<le> h) kma_base_hours) + 3"
    by code_simp
  ultimately show ?thesis by blast
qed

text \<open>The time of day and the hour of a wall-clock time.\<close>

lemma wall_parts:
  fixes t :: nat
  shows "t = t div us_per_day * us_per_day + t mod us_per_day div us_per_hour * us_per_hour + t mod us_per_hour"
    and "t mod us_per_day div us_per_hour < 24" "t mod us_per_hour < us_per_hour"
proof -
  have "t mod us_per_day mod us_per_hour = t mod us_per_hour"
    by (rule mod_mod_cancel) (simp add: us_per_day_def us_per_hour_def)
  then show "t = t div us_per_day * us_per_day + t mod us_per_day div us_per_hour * us_per_hour + t mod us_per_hour"
    by (metis add.assoc div_mult_mod_eq)
  show "t mod us_per_day div us_per_hour < 24"
    by (rule less_mult_imp_div_less) (simp add: us_per_day_def us_per_hour_def)
  show "t mod us_per_hour < us_per_hour" by (simp add: us_per_hour_def)
qed

text \<open>A printed day with a base hour reads back as the wall-clock time it means.\<close>

lemma kma_wall_day:
  assumes "n < 3652059" "h < 24" "kst_date (n * us_per_day + r) = s" "r < us_per_day"
  shows "kma_wall s (hour_text h) = Some (int (n * us_per_day + h * us_per_hour))"
    and "length (code_points s) = 8" and "list_all (\<lambda>p. digit_value p \<noteq> None) (code_points s)"
    and "py_strip s = s"
proof -
  obtain y m d where c: "civil n = (y, m, d)" by (cases "civil n") auto
  have "(n * us_per_day + r) div us_per_day = n" using assms(4) by simp
  then have s: "s = pad_nat 4 y @ pad_nat 2 m @ pad_nat 2 d" using assms(3) c by (simp add: kst_date_def)
  have bounds: "1 \<le> y" "y \<le> 9999" "1 \<le> m" "m \<le> 12" "1 \<le> d" "d \<le> month_lengths (is_leap y) ! (m - 1)"
    using civil_correct [OF c] civil_year_le [OF assms(1) c] by auto
  show "kma_wall s (hour_text h) = Some (int (n * us_per_day + h * us_per_hour))"
    using assms(2) civil_correct(1) [OF c]
    by (simp add: kma_wall_def s hour_text_def strptime_day_digits [OF bounds] strptime_clock_digits)
  have digits: "digit_value p \<noteq> None" if "p \<in> set (digit_points k x)" for p k x
  proof -
    from that obtain c where c: "c \<in> set (pad_nat k x)" "p = of_char c" by (auto simp: digit_points_def)
    then have "48 \<le> p" "p - 48 < 10" using pad_nat_digits [OF c(1)] by (auto simp: is_digit_def)
    then show ?thesis using digit_value_ascii [of "p - 48"] by simp
  qed
  show "length (code_points s) = 8" by (simp add: s digit_points_def)
  show "list_all (\<lambda>p. digit_value p \<noteq> None) (code_points s)" by (auto simp: s list_all_iff dest: digits)
  have "graphic c" if "is_digit c" for c using that by (simp add: graphic_def is_digit_def)
  then have "list_all graphic s" unfolding s list_all_iff by (simp, blast dest: pad_nat_digits)
  moreover have "length s = 8" by (simp add: s)
  ultimately show "py_strip s = s" by (intro py_strip_graphic) auto
qed

lemma configured_integer_Inr: "configured_integer n v k = Inr i \<Longrightarrow> py_int v = Inr i \<and> k \<le> i"
  by (auto simp: configured_integer_def bind_result_Inr_iff try_except_Inr_iff split: if_splits)

text \<open>Every cycle is at two o'clock modulo three hours, on some day.\<close>

lemma kma_wall_cycle:
  assumes "t \<in> set kma_base_times" "kma_wall d t = Some w"
  shows "\<exists>k. w = int k * hours 3 + hours 2"
proof -
  obtain h where h: "h \<in> set kma_base_hours" "t = hour_text h"
    using assms(1) by (auto simp: kma_base_times_hours)
  then have "h < 24" "h mod 3 = 2" by (auto simp: kma_base_hours_def)
  then have clk: "strptime_clock (code_points t) = Some (h, 0)"
    by (simp add: h hour_text_def strptime_clock_digits)
  obtain n where w: "w = int (n * us_per_day + h * us_per_hour)"
    using assms(2) by (auto simp: kma_wall_def clk split: option.splits)
  have "h = 3 * (h div 3) + 2" using \<open>h mod 3 = 2\<close> by presburger
  then obtain j where "h = 3 * j + 2" by blast
  then have "w = int (8 * n + j) * hours 3 + hours 2"
    by (simp add: w us_per_day_def us_per_hour_def hours_def algebra_simps)
  then show ?thesis by blast
qed

lemma cycle_gap:
  assumes "w = int k * hours 3 + hours 2" "w' = int k' * hours 3 + hours 2" "a < w + hours 3" "w' \<le> a"
  shows "w' \<le> w"
proof (rule ccontr)
  assume "\<not> w' \<le> w"
  then have "k < k'" using assms(1,2) by (simp add: hours_def)
  then have "int (k + 1) * hours 3 \<le> int k' * hours 3" by (simp add: hours_def)
  then have "w + hours 3 \<le> w'" using assms(1,2) by (simp add: hours_def)
  with assms(3,4) show False by linarith
qed

lemma published_cycle_window:
  assumes "published_cycle a = Inr (d, t)" "in_range a"
  shows "\<exists>w. kma_wall d t = Some w \<and> t \<in> set kma_base_times \<and> w \<le> a \<and> a < w + hours 3
    \<and> length (code_points d) = 8 \<and> list_all (\<lambda>p. digit_value p \<noteq> None) (code_points d) \<and> py_strip d = d"
proof -
  define n h r where "n = nat a div us_per_day" and "h = nat a mod us_per_day div us_per_hour"
    and "r = nat a mod us_per_hour"
  have a: "nat a = n * us_per_day + h * us_per_hour + r" and h: "h < 24" and r: "r < us_per_hour"
    unfolding n_def h_def r_def by (rule wall_parts)+
  have a0: "int (nat a) = a" using assms(2) by (simp add: in_range_def)
  have "nat a < 3652059 * us_per_day" using assms(2) by (auto simp: in_range_def max_instant_def)
  then have n: "n < 3652059" unfolding n_def by (rule less_mult_imp_div_less)
  have clk: "kst_clock (nat a) = pad_nat 2 h @ pad_nat 2 (fst (snd (clock (nat a mod us_per_day))))"
    by (simp add: kst_clock_def clock_def h_def)
  have day: "nat a = n * us_per_day + nat a mod us_per_day" "nat a mod us_per_day < us_per_day"
    by (simp_all add: n_def us_per_day_def)
  show ?thesis
  proof (cases "2 \<le> h")
    case True
    obtain k where k: "filter (\<lambda>k. k \<le> h) kma_base_hours \<noteq> []" "last (filter (\<lambda>k. k \<le> h) kma_base_hours) = k"
      "k \<in> set kma_base_hours" "k \<le> h" "h < k + 3"
      using last_base_hour [OF True h] by blast
    have dt: "d = kst_date (nat a)" "t = hour_text k"
      using assms(1) k(1,2) by (auto simp: published_cycle_def clk cycle_candidates [OF h] last_map)
    have "k < 24" using k(4) h by simp
    note wall = kma_wall_day [OF n this, of "nat a mod us_per_day" d]
    have "kst_date (n * us_per_day + nat a mod us_per_day) = d" using dt day(1) by simp
    note wall = wall [OF this day(2)]
    let ?w = "int (n * us_per_day + k * us_per_hour)"
    have "?w \<le> int (nat a)" "int (nat a) < ?w + hours 3"
      using k(4,5) r unfolding a us_per_hour_def us_per_day_def hours_def by simp_all
    then have "?w \<le> a" "a < ?w + hours 3" by (simp_all only: a0)
    then show ?thesis using wall dt k(3) by (auto simp: kma_base_times_hours)
  next
    case False
    have none: "filter (\<lambda>k. k \<le> h) kma_base_hours = []" using False by (auto simp: kma_base_hours_def)
    have last_cycle: "last kma_base_times = hour_text 23" by (simp add: kma_base_times_hours kma_base_hours_def)
    have prev: "in_range (a - hours 24)" "d = kst_date (nat (a - hours 24))" "t = hour_text 23"
      using assms(1) last_cycle
      by (auto simp: published_cycle_def clk cycle_candidates [OF h] none bind_result_Inr_iff add_delta_Inr_iff)
    have "us_per_day \<le> nat a" using prev(1) by (auto simp: in_range_def hours_def us_per_day_def)
    then have "1 \<le> n" by (simp add: n_def us_per_day_def)
    have day_back: "nat (a - hours 24) = (n - 1) * us_per_day + nat a mod us_per_day"
    proof -
      have "nat (a - hours 24) = nat a - us_per_day" by (simp add: hours_def us_per_day_def nat_diff_distrib')
      also have "\<dots> = n * us_per_day + nat a mod us_per_day - us_per_day" using day(1) by simp
      finally show ?thesis using \<open>1 \<le> n\<close> by (simp add: algebra_simps)
    qed
    have "n - 1 < 3652059" "(23 :: nat) < 24" using n by simp_all
    note wall = kma_wall_day [OF this, of "nat a mod us_per_day" d]
    have "kst_date ((n - 1) * us_per_day + nat a mod us_per_day) = d" using prev(2) day_back by simp
    note wall = wall [OF this day(2)]
    let ?w = "int ((n - 1) * us_per_day + 23 * us_per_hour)"
    obtain p where p: "n = Suc p" using \<open>1 \<le> n\<close> by (cases n) auto
    have "?w \<le> int (nat a)" "int (nat a) < ?w + hours 3"
      using False r unfolding a p us_per_hour_def us_per_day_def hours_def by simp_all
    then have "?w \<le> a" "a < ?w + hours 3" by (simp_all only: a0)
    then show ?thesis using wall prev(3) by (auto simp: kma_base_times_hours kma_base_hours_def)
  qed
qed

lemma str_or_empty_PStr [simp]: "str_or_empty L (PStr s) = s"
  by (cases s) (simp_all add: str_or_empty_def py_str_def)

lemma base_time_stripped: "t \<in> set kma_base_times \<Longrightarrow> py_strip t = t"
  by (rule py_strip_graphic) (auto simp: kma_base_times_def graphic_def)

text \<open>
  C27: With no base cycle set by hand, the resolved cycle is the latest published one: its time, in
  Korea, is at most the current time less the publication delay, no other base time lies between, and
  less than three hours have passed; and the pair is one that the validation of a configured cycle accepts.
\<close>

theorem resolved_cycle_is_the_latest_published:
  assumes "env ''KMA_BASE_DATE'' = None" "env ''KMA_BASE_TIME'' = None"
    and "resolve_kma_base_datetime L env now = Inr (d, t)"
  shows "\<exists>delay w. kma_publish_delay env = Inr delay \<and> 0 \<le> delay
    \<and> t \<in> set kma_base_times \<and> kma_wall d t = Some w
    \<and> w \<le> now - minutes delay \<and> now - minutes delay < w + hours 3
    \<and> (\<forall>d' t' w'. t' \<in> set kma_base_times \<longrightarrow> kma_wall d' t' = Some w' \<longrightarrow> w' \<le> now - minutes delay \<longrightarrow> w' \<le> w)
    \<and> normalize_kma_base_datetime L (PStr d) (PStr t) = Inr (d, t)"
proof -
  obtain delay where delay: "kma_publish_delay env = Inr delay" "in_range (now - minutes delay)"
    "published_cycle (now - minutes delay) = Inr (d, t)"
    using assms by (auto simp: resolve_kma_base_datetime_def env_get_def bind_result_Inr_iff add_delta_Inr_iff)
  have "0 \<le> delay" using delay(1) by (auto simp: kma_publish_delay_def dest: configured_integer_Inr)
  obtain w where w: "kma_wall d t = Some w" "t \<in> set kma_base_times" "w \<le> now - minutes delay"
    "now - minutes delay < w + hours 3"
    and d: "length (code_points d) = 8" "list_all (\<lambda>p. digit_value p \<noteq> None) (code_points d)" "py_strip d = d"
    using published_cycle_window [OF delay(3,2)] by blast
  obtain k where k: "w = int k * hours 3 + hours 2" using kma_wall_cycle [OF w(2,1)] by blast
  have latest: "w' \<le> w" if t': "t' \<in> set kma_base_times" and w': "kma_wall d' t' = Some w'" and "w' \<le> now - minutes delay"
    for d' t' w'
  proof -
    obtain k' where "w' = int k' * hours 3 + hours 2" using kma_wall_cycle [OF t' w'] by blast
    then show ?thesis using cycle_gap [OF k _ w(4)] that(3) by blast
  qed
  have "normalize_kma_base_datetime L (PStr d) (PStr t) = Inr (d, t)"
    using w(1,2) d by (simp add: normalize_kma_base_datetime_def Let_def base_time_stripped)
  with delay(1) \<open>0 \<le> delay\<close> w latest show ?thesis by blast
qed

lemma resolved_cycle_is_the_latest_published_witness:
  "\<exists>delay w. kma_publish_delay (\<lambda>_. None) = Inr delay \<and> kma_wall ''20251129'' ''0500'' = Some w
     \<and> w \<le> 63900000000000000 - minutes delay \<and> 63900000000000000 - minutes delay < w + hours 3"
proof -
  have "py_strip ''20'' = ''20''" by (rule py_strip_graphic) (simp_all add: graphic_def)
  moreover have "code_points ''20'' = [50, 48]" by (simp add: code_points_ascii)
  ultimately have delay: "kma_publish_delay (\<lambda>_. None) = Inr 20"
    using digit_value_ascii [of 0] digit_value_ascii [of 2]
    by (simp add: kma_publish_delay_def env_get_def configured_integer_def py_int_def py_int_text_def unsigned_int_def)
  have "pad_nat 2 7 = ''07''" "pad_nat 2 40 = ''40''" "pad_nat 4 2025 = ''2025''" "pad_nat 2 11 = ''11''"
    "pad_nat 2 29 = ''29''" by code_simp+
  moreover have "civil 739583 = (2025, 11, 29)"
    by (simp add: civil_def year_day_def Let_def month_lengths_def is_leap_def)
  ultimately have "kst_clock 63899998800000000 = ''0740''" "kst_date 63899998800000000 = ''20251129''"
    by (simp_all add: kst_clock_def clock_def us_per_day_def us_per_hour_def us_per_minute_def us_per_second_def
        kst_date_def)
  moreover have "in_range 63899998800000000" by (simp add: in_range_def max_instant_def us_per_day_def)
  moreover have "filter (\<lambda>t. t \<le> ''0740'') kma_base_times = [''0200'', ''0500'']"
    using cycle_candidates [of 7 40] by code_simp
  ultimately
  have "resolve_kma_base_datetime (std_lib (\<lambda>s. s)) (\<lambda>_. None) 63900000000000000 = Inr (''20251129'', ''0500'')"
    by (simp add: resolve_kma_base_datetime_def env_get_def delay published_cycle_def add_delta_def
        checked_instant_def minutes_def)
  from resolved_cycle_is_the_latest_published [OF refl refl this] show ?thesis by blast
qed

section \<open>The pages of a response\<close>

lemma ceiling_quotient:
  assumes "0 \<le> n" "1 \<le> k"
  shows "\<lceil>rat_of_int n / rat_of_int k\<rceil> = (n + k - 1) div k"
proof -
  define z where "z = (n + k - 1) div k"
  have "z * k + (n + k - 1) mod k = n + k - 1" by (simp add: z_def)
  moreover have "0 \<le> (n + k - 1) mod k" "(n + k - 1) mod k < k" using assms by simp_all
  ultimately have "(z - 1) * k < n" "n \<le> z * k" by (simp_all add: left_diff_distrib)
  then have "of_int ((z - 1) * k) < rat_of_int n" "rat_of_int n \<le> of_int (z * k)" by (simp_all only: of_int_less_iff of_int_le_iff)
  then have "of_int z - 1 < rat_of_int n / rat_of_int k" "rat_of_int n / rat_of_int k \<le> of_int z"
    using assms(2) by (simp_all add: pos_less_divide_eq pos_divide_le_eq)
  then show ?thesis unfolding z_def [symmetric] by (simp add: ceiling_eq_iff)
qed

lemma py_int_text_empty: "py_int_text [] = None"
  by (simp add: py_int_text_def py_strip_def lstrip.simps rstrip_rev.simps code_points.simps [of "[]"] utf8_head_def)

text \<open>
  The page numbers of a response start at one, have no gap, and put every reported row on one of them
  (row \<open>i\<close> is on page \<open>i div rows + 1\<close>); a page after the first has at least one row.
\<close>

lemma pages_cover_the_rows:
  assumes "kma_page_numbers env total_count (Some rows) = Inr pages"
    and "py_int total_count = Inr n" "n < 2 ^ 53"
  shows "0 \<le> n \<and> pages = [1..int (length pages)] \<and> pages \<noteq> []
    \<and> (\<forall>i. 0 \<le> i \<and> i < n \<longrightarrow> i div rows + 1 \<in> set pages)
    \<and> (\<forall>p\<in>set pages. 1 < p \<longrightarrow> (p - 1) * rows < n)"
proof -
  have total: "(if falsy total_count then Inr 0 else py_int total_count) = Inr n"
  proof (cases "falsy total_count")
    case True
    then have "n = 0" using assms(2) by (cases total_count rule: falsy.cases) (auto simp: py_int_def truncate_rat_def py_int_text_empty)
    with True show ?thesis by simp
  qed (use assms(2) in simp)
  obtain k where k: "0 \<le> n" "1 \<le> rows" "k = max 1 ((n + rows - 1) div rows)" "pages = [1..k]"
    using assms(1) unfolding kma_page_numbers_def kma_page_count_def total
    by (auto simp: bind_result_Inr_iff ceiling_quotient not_less split: if_splits)
  have upper: "i div rows + 1 \<le> k" if "0 \<le> i" "i < n" for i
  proof -
    have "(i + rows) div rows \<le> (n + rows - 1) div rows" by (rule zdiv_mono1) (use that k(2) in auto)
    then show ?thesis using k(2,3) by simp
  qed
  have rows_on: "(p - 1) * rows < n" if "1 < p" "p \<le> k" for p
  proof -
    have "p \<le> (n + rows - 1) div rows" using that k(3) by (auto simp: max_def split: if_splits)
    then have "p * rows \<le> (n + rows - 1) div rows * rows" using k(2) by (intro mult_right_mono) auto
    also have "\<dots> \<le> n + rows - 1" using k(2) pos_mod_sign [of rows "n + rows - 1"] unfolding minus_mod_eq_div_mult [symmetric] by linarith
    finally show ?thesis by (simp add: left_diff_distrib)
  qed
  have "1 \<le> k" using k(3) by simp
  then have "pages \<noteq> []" "pages = [1..int (length pages)]" by (auto simp: k(4))
  moreover have "i div rows + 1 \<in> set pages" if "0 \<le> i" "i < n" for i
    using upper [OF that] that k(2) by (simp add: k(4) pos_imp_zdiv_nonneg_iff)
  ultimately show ?thesis using k(1) rows_on by (auto simp: k(4))
qed

lemma pages_cover_the_rows_witness: "2500 div 1000 + 1 \<in> set [1::int..3]"
proof -
  have "kma_page_numbers (\<lambda>_. None) (PInt 2501) (Some 1000) = Inr [1..3]"
    using ceiling_quotient [of 2501 1000] by (simp add: kma_page_numbers_def kma_page_count_def py_int_def)
  from pages_cover_the_rows [OF this, of 2501] show ?thesis by (auto simp: py_int_def)
qed

section \<open>What an accepted response holds\<close>

text \<open>A row that passed the validation.\<close>

definition kma_row_valid :: "pyobj pydict \<Rightarrow> bool" where
  "kma_row_valid row \<longleftrightarrow>
     (\<forall>f\<in>set kma_text_fields. \<exists>s. dict_get f row = PStr s \<and> \<not> is_blank s
        \<and> (f \<in> {''baseDate'', ''fcstDate''} \<longrightarrow> strptime_day (code_points (py_strip s)) \<noteq> None)
        \<and> (f \<in> {''baseTime'', ''fcstTime''} \<longrightarrow> strptime_clock (code_points (py_strip s)) \<noteq> None))
     \<and> (\<forall>f\<in>{''nx'', ''ny''}. \<exists>i. py_int (dict_get f row) = Inr i \<and> 0 < i)"

lemma validate_kma_field_Inr:
  assumes "validate_kma_field row f = Inr u"
  shows "\<exists>s. dict_get f row = PStr s \<and> \<not> is_blank s
    \<and> (f \<in> {''baseDate'', ''fcstDate''} \<longrightarrow> strptime_day (code_points (py_strip s)) \<noteq> None)
    \<and> (f \<in> {''baseTime'', ''fcstTime''} \<longrightarrow> strptime_clock (code_points (py_strip s)) \<noteq> None)"
proof -
  obtain s where s: "dict_get f row = PStr s" "\<not> is_blank s"
    using assms by (auto simp: validate_kma_field_def bind_result_Inr_iff kma_required_text_def
        split: pyobj.splits if_splits)
  have suffix: "is_suffix ''Date'' ''baseDate''" "is_suffix ''Date'' ''fcstDate''"
    "\<not> is_suffix ''Date'' ''baseTime''" "\<not> is_suffix ''Date'' ''fcstTime''"
    by (simp_all add: is_suffix_def)
  show ?thesis
    using assms s suffix
    by (auto simp: validate_kma_field_def kma_required_text_def validate_kma_timestamp_def)
qed

lemma validate_kma_coordinate_Inr:
  assumes "validate_kma_coordinate row f = Inr u"
  shows "\<exists>i. py_int (dict_get f row) = Inr i \<and> 0 < i"
  using assms
  by (cases "dict_get f row")
    (auto simp: validate_kma_coordinate_def bind_result_Inr_iff try_except_Inr_iff)

lemma traverse_each: "traverse f xs = Inr ys \<Longrightarrow> x \<in> set xs \<Longrightarrow> \<exists>y. f x = Inr y"
  by (auto simp: traverse_Inr_iff list_all2_conv_all_nth in_set_conv_nth)

lemma validate_kma_row_Inr:
  assumes "validate_kma_row v = Inr row"
  shows "v = PDict row \<and> kma_row_valid row"
proof -
  obtain d us vs where d: "v = PDict d" "row = d" "traverse (validate_kma_field d) kma_text_fields = Inr us"
    "traverse (validate_kma_coordinate d) [''nx'', ''ny''] = Inr vs"
    using assms by (cases v) (auto simp: validate_kma_row_def bind_result_Inr_iff simp del: traverse.simps)
  have "\<exists>s. dict_get f d = PStr s \<and> \<not> is_blank s
    \<and> (f \<in> {''baseDate'', ''fcstDate''} \<longrightarrow> strptime_day (code_points (py_strip s)) \<noteq> None)
    \<and> (f \<in> {''baseTime'', ''fcstTime''} \<longrightarrow> strptime_clock (code_points (py_strip s)) \<noteq> None)"
    if "f \<in> set kma_text_fields" for f
    using traverse_each [OF d(3) that] validate_kma_field_Inr [of d f] by blast
  moreover have "\<exists>i. py_int (dict_get f d) = Inr i \<and> 0 < i" if "f \<in> {''nx'', ''ny''}" for f
    using traverse_each [OF d(4), of f] that validate_kma_coordinate_Inr [of d f] by auto
  ultimately show ?thesis using d(1,2) unfolding kma_row_valid_def by blast
qed

lemma kma_item_rows_Inr: "kma_item_rows node n = Inr rows \<Longrightarrow> node = PNone \<and> n = 0 \<and> rows = [] \<or> node = PList rows \<or> (\<exists>d. node = PDict d \<and> rows = [PDict d])"
  by (auto simp: kma_item_rows_def split: pyobj.splits if_splits)

lemma parse_kma_response_Inr:
  assumes "parse_kma_response L raw = Inr (meta, rows)"
  shows "list_all kma_row_valid rows \<and> km_result_code meta = ''00''
    \<and> 0 < km_total_count meta \<and> km_row_count meta = length rows"
proof -
  obtain body items nodes code msg total_count where
    parts: "kma_nonnegative_integer body ''totalCount'' = Inr total_count"
      "kma_item_rows (dict_get ''item'' items) total_count = Inr nodes"
      "traverse validate_kma_row nodes = Inr rows" "code = ''00''" "total_count \<noteq> 0"
      "meta = \<lparr>km_result_code = code, km_result_msg = msg, km_total_count = total_count, km_row_count = length nodes\<rparr>"
    using assms unfolding parse_kma_response_def Let_def
    by (auto simp: bind_result_Inr_iff split: if_splits)
  have total: "0 < total_count" using parts(1,5)
    by (auto simp: kma_nonnegative_integer_def Let_def bind_result_Inr_iff split: if_splits)
  have "list_all kma_row_valid rows"
    unfolding list_all_iff using traverse_set [OF parts(3)] validate_kma_row_Inr by blast
  moreover have "length rows = length nodes" by (rule traverse_length [OF parts(3)])
  ultimately show ?thesis using parts total by simp
qed

lemma kma_row_text: "kma_row_valid row \<Longrightarrow> f \<in> set kma_text_fields \<Longrightarrow> \<exists>s. dict_get f row = PStr s"
  unfolding kma_row_valid_def by blast

lemma check_kma_context_Inr:
  assumes "check_kma_context L d t nx ny (PDict row) = Inr u"
  shows "kma_row_valid row \<and> dict_get ''baseDate'' row = PStr d \<and> dict_get ''baseTime'' row = PStr t
    \<and> py_int (dict_get ''nx'' row) = Inr nx \<and> py_int (dict_get ''ny'' row) = Inr ny"
proof -
  obtain row' where row': "validate_kma_row (PDict row) = Inr row'" 
    "py_int (dict_get ''nx'' row') = Inr nx" "py_int (dict_get ''ny'' row') = Inr ny"
    "py_str L (dict_get ''baseDate'' row') = d" "py_str L (dict_get ''baseTime'' row') = t"
    using assms by (auto simp: check_kma_context_def bind_result_Inr_iff)
  then have row: "row' = row" "kma_row_valid row" using validate_kma_row_Inr [OF row'(1)] by auto
  moreover have "''baseDate'' \<in> set kma_text_fields" "''baseTime'' \<in> set kma_text_fields"
    by (simp_all add: kma_text_fields_def)
  then obtain a b where "dict_get ''baseDate'' row = PStr a" "dict_get ''baseTime'' row = PStr b"
    using kma_row_text [OF row(2)] by metis
  ultimately show ?thesis using row' by (simp add: py_str_def)
qed

text \<open>
  C28: A response that is parsed and passes the check of its request reports result code 00 and a positive
  total, its row count is the number of its rows, and every row has all text fields, readable times and
  positive coordinates, and is of the requested cycle and grid.
\<close>

theorem accepted_response_is_of_the_request:
  assumes "parse_kma_response L raw = Inr (meta, rows)"
    and "validate_kma_response_context L d t nx ny (map PDict rows) = Inr ()"
  shows "km_result_code meta = ''00'' \<and> 0 < km_total_count meta \<and> km_row_count meta = length rows
    \<and> (\<forall>row\<in>set rows. kma_row_valid row
        \<and> dict_get ''baseDate'' row = PStr d \<and> dict_get ''baseTime'' row = PStr t
        \<and> py_int (dict_get ''nx'' row) = Inr nx \<and> py_int (dict_get ''ny'' row) = Inr ny)"
proof -
  obtain us where us: "traverse (check_kma_context L d t nx ny) (map PDict rows) = Inr us"
    using assms(2) by (auto simp: validate_kma_response_context_def bind_result_Inr_iff)
  have "kma_row_valid row \<and> dict_get ''baseDate'' row = PStr d \<and> dict_get ''baseTime'' row = PStr t
      \<and> py_int (dict_get ''nx'' row) = Inr nx \<and> py_int (dict_get ''ny'' row) = Inr ny"
    if "row \<in> set rows" for row
  proof -
    have "PDict row \<in> set (map PDict rows)" using that by simp
    from traverse_each [OF us this] show ?thesis using check_kma_context_Inr by blast
  qed
  then show ?thesis using parse_kma_response_Inr [OF assms(1)] by blast
qed

definition demo_row :: "pyobj pydict" where
  "demo_row =
     [(''baseDate'', PStr ''20251129''), (''baseTime'', PStr ''0500''), (''category'', PStr ''TMP''),
      (''fcstDate'', PStr ''20251129''), (''fcstTime'', PStr ''0600''), (''fcstValue'', PStr ''3''),
      (''nx'', PInt 60), (''ny'', PInt 127)]"

definition demo_response :: pyobj where
  "demo_response =
     PDict [(''response'', PDict
       [(''header'', PDict [(''resultCode'', PStr ''00''), (''resultMsg'', PStr ''OK'')]),
        (''body'', PDict [(''totalCount'', PInt 1), (''items'', PDict [(''item'', PList [PDict demo_row])])])])]"

lemma graphic_all [simp]: "list_all graphic s \<Longrightarrow> s \<noteq> [] \<Longrightarrow> py_strip s = s \<and> \<not> is_blank s"
  by (simp add: py_strip_graphic not_blank_graphic)

lemma demo_row_points:
  "code_points ''20251129'' = digit_points 4 2025 @ digit_points 2 11 @ digit_points 2 29"
  "code_points ''0500'' = digit_points 2 5 @ digit_points 2 0"
  "code_points ''0600'' = digit_points 2 6 @ digit_points 2 0"
  by (simp_all add: code_points_ascii digit_points_4 digit_points_2)

lemma demo_row_text:
  "py_strip s = s \<and> \<not> is_blank s" if "s \<in> {''20251129'', ''0500'', ''0600'', ''TMP'', ''3'', ''00''}"
  by (rule graphic_all) (use that in \<open>auto simp: graphic_def\<close>)

lemma demo_row_valid: "validate_kma_row (PDict demo_row) = Inr demo_row"
proof -
  have suffix: "is_suffix ''Date'' ''baseDate''" "is_suffix ''Date'' ''fcstDate''"
    "\<not> is_suffix ''Date'' ''baseTime''" "\<not> is_suffix ''Date'' ''fcstTime''"
    by (simp_all add: is_suffix_def)
  have days: "strptime_day (code_points ''20251129'') = Some (2025, 11, 29)"
    unfolding demo_row_points by (rule strptime_day_digits) (simp_all add: month_lengths_def)
  have clocks: "strptime_clock (code_points ''0500'') = Some (5, 0)" "strptime_clock (code_points ''0600'') = Some (6, 0)"
    unfolding demo_row_points by (rule strptime_clock_digits; simp)+
  show ?thesis
    by (simp add: validate_kma_row_def demo_row_def kma_text_fields_def validate_kma_field_def kma_required_text_def
        dict_get_def demo_row_text validate_kma_timestamp_def suffix days clocks validate_kma_coordinate_def py_int_def)
qed

lemma accepted_response_is_of_the_request_witness:
  "parse_kma_response (std_lib (\<lambda>s. s)\<lparr>json_loads := \<lambda>_. Some demo_response\<rparr>) ''raw''
     = Inr (\<lparr>km_result_code = ''00'', km_result_msg = ''OK'', km_total_count = 1, km_row_count = 1\<rparr>, [demo_row])
   \<and> kma_row_valid demo_row"
proof -
  let ?L = "std_lib (\<lambda>s. s)\<lparr>json_loads := \<lambda>_. Some demo_response\<rparr>"
  have parsed: "parse_kma_response ?L ''raw''
     = Inr (\<lparr>km_result_code = ''00'', km_result_msg = ''OK'', km_total_count = 1, km_row_count = 1\<rparr>, [demo_row])"
    by (simp add: parse_kma_response_def demo_response_def object_field_def dict_get_def kma_result_code_def
        kma_nonnegative_integer_def kma_item_rows_def py_int_def demo_row_text demo_row_valid Let_def)
  have "validate_kma_response_context ?L ''20251129'' ''0500'' 60 127 (map PDict [demo_row]) = Inr ()"
    by (simp add: validate_kma_response_context_def check_kma_context_def demo_row_valid)
      (simp add: demo_row_def dict_get_def py_int_def py_str_def)
  from accepted_response_is_of_the_request [OF parsed this] show ?thesis using parsed by simp
qed

end
