(* ===== verification/Kma_Ledger.thy ===== *)
theory Kma_Ledger
  imports Kma_Source Json_Storage
begin

text \<open>
  The shared controls of the KMA pipelines, first part (\<open>weather_ingest/kma_coordination.py\<close>): the
  switch and the pools, the settings of the attempt ledger, its schema, and the transaction that
  reserves one physical API attempt.  The lemmas show that a ledger started empty never holds more
  attempts of a day than the configured limit, whatever workers do and whichever statements fail,
  and that the transaction implements a budget over a set of attempts.

  \<open>BEGIN IMMEDIATE\<close> takes the write lock, so that transactions of different workers do not
  interleave; a transaction that does not commit leaves the file unchanged.  Which statements of a
  transaction fail is a parameter: \<open>ok n\<close> says that statement \<open>n\<close> succeeds.
\<close>

section \<open>The switch and the pools\<close>

definition shared_guards_enabled :: "(string \<Rightarrow> string option) \<Rightarrow> bool result" where
  "shared_guards_enabled env =
     (let v = str_lower (py_strip (env_text env ''ASK_SEOUL_KMA_SHARED_GUARDS_ENABLED'' []))
      in if v \<in> {''1'', ''true'', ''yes'', ''on''} then Inr True
         else if v \<in> {[], ''0'', ''false'', ''no'', ''off''} then Inr False
         else Inl (KmaCoordinationConfigurationError
                ''ASK_SEOUL_KMA_SHARED_GUARDS_ENABLED must be a boolean value''))"

definition kma_api_pool :: string where "kma_api_pool = ''kma_api_requests''"
definition trino_weather_heavy_pool :: string where "trino_weather_heavy_pool = ''trino_weather_heavy''"
definition trino_weather_heavy_pool_slots :: int where "trino_weather_heavy_pool_slots = 2"

definition pool_kwargs :: "string \<Rightarrow> int \<Rightarrow> pyobj pydict" where
  "pool_kwargs pool slots = [(''pool'', PStr pool), (''pool_slots'', PInt slots)]"

definition kma_api_pool_kwargs :: "(string \<Rightarrow> string option) \<Rightarrow> pyobj pydict result" where
  "kma_api_pool_kwargs env =
     bind_result (shared_guards_enabled env) (\<lambda>b. Inr (if b then pool_kwargs kma_api_pool 1 else []))"

definition weather_heavy_pool :: "(string \<Rightarrow> string option) \<Rightarrow> string \<Rightarrow> string result" where
  "weather_heavy_pool env legacy =
     bind_result (shared_guards_enabled env) (\<lambda>b. Inr (if b then trino_weather_heavy_pool else legacy))"

definition weather_heavy_pool_kwargs ::
  "(string \<Rightarrow> string option) \<Rightarrow> string \<Rightarrow> pyobj \<Rightarrow> pyobj pydict result" where
  "weather_heavy_pool_kwargs env legacy pool_slots =
     (case pool_slots of
        PInt n \<Rightarrow>
          if n < 1 \<or> n > trino_weather_heavy_pool_slots
          then Inl (KmaCoordinationConfigurationError ''Weather Trino pool_slots must be between 1 and 2'')
          else bind_result (weather_heavy_pool env legacy) (\<lambda>selected.
               Inr (if selected \<noteq> trino_weather_heavy_pool then pool_kwargs selected 1
                    else pool_kwargs selected n))
      | _ \<Rightarrow> Inl (KmaCoordinationConfigurationError ''Weather Trino pool_slots must be an integer''))"

section \<open>Settings of the ledger\<close>

definition default_daily_attempt_limit :: int where "default_daily_attempt_limit = 7500"
definition provider_daily_attempt_quota :: int where "provider_daily_attempt_quota = 10000"
definition ledger_schema_version :: int where "ledger_schema_version = 1"

definition configured_daily_attempt_limit :: "(string \<Rightarrow> string option) \<Rightarrow> int result" where
  "configured_daily_attempt_limit env =
     bind_result
       (try_except
          (py_int (PStr (env_text env ''ASK_SEOUL_KMA_DAILY_ATTEMPT_LIMIT'' (show_int default_daily_attempt_limit))))
          (\<lambda>e. is_type_error e \<or> is_value_error e)
          (\<lambda>_. Inl (KmaAttemptLedgerConfigurationError ''daily attempt limit must be an integer''))) (\<lambda>limit.
     if limit \<le> 0 \<or> limit \<ge> provider_daily_attempt_quota
     then Inl (KmaAttemptLedgerConfigurationError
            ''daily attempt limit must be greater than zero and below the quota'')
     else Inr limit)"

text \<open>
  \<open>resolve\<close> is \<open>Path(text).expanduser().resolve(strict=False)\<close> as its parts;
  \<open>relative_to\<close> succeeds when the parts of the root are the first parts of the path.
\<close>

definition configured_ledger_path ::
  "(string \<Rightarrow> string list) \<Rightarrow> (string \<Rightarrow> string option) \<Rightarrow> (string list \<times> string list) result" where
  "configured_ledger_path resolve env =
     (let root_parts = resolve (env_text env ''ASK_SEOUL_KMA_CONTROL_ROOT'' ''/opt/airflow/logs/_weather_control'');
          path_parts = resolve (env_text env ''ASK_SEOUL_KMA_ATTEMPT_LEDGER_PATH''
                         ''/opt/airflow/logs/_weather_control/kma_api_budget.sqlite3'')
      in if take (length root_parts) path_parts \<noteq> root_parts
         then Inl (KmaAttemptLedgerConfigurationError ''the ledger path must be beneath the configured control root'')
         else if path_parts = root_parts
         then Inl (KmaAttemptLedgerConfigurationError ''the ledger path must name a file beneath the control root'')
         else Inr (root_parts, path_parts))"

section \<open>The file\<close>

record ledger_row =
  lr_reservation_id :: string
  lr_budget_date :: string
  lr_source_id :: string
  lr_dag_run_id :: string
  lr_observed_slot :: string
  lr_nx :: int
  lr_ny :: int
  lr_attempt_ordinal :: int
  lr_reserved_at :: string

definition reservation_columns :: "string list" where
  "reservation_columns =
     [''reservation_id'', ''budget_date'', ''source_id'', ''dag_run_id'', ''observed_slot'', ''nx'', ''ny'',
      ''attempt_ordinal'', ''reserved_at'']"

text \<open>
  A database: the rows of \<open>schema_version\<close> when that table exists, the columns of the table of
  reservations (none when it does not exist) and its rows.  A missing file is \<open>None\<close>.
\<close>

record ledger_db =
  db_versions :: "int list option"
  db_columns :: "string list"
  db_rows :: "ledger_row list"

definition empty_db :: ledger_db where
  "empty_db = \<lparr>db_versions = None, db_columns = [], db_rows = []\<rparr>"

definition create_version_table :: "ledger_db \<Rightarrow> ledger_db" where
  "create_version_table db =
     db\<lparr>db_versions := Some (case db_versions db of None \<Rightarrow> [] | Some vs \<Rightarrow> vs)\<rparr>"

definition create_reservation_table :: "ledger_db \<Rightarrow> ledger_db" where
  "create_reservation_table db =
     (if db_columns db = [] then db\<lparr>db_columns := reservation_columns, db_rows := []\<rparr> else db)"

definition validate_ledger_schema :: "(nat \<Rightarrow> bool) \<Rightarrow> ledger_db option \<Rightarrow> unit result" where
  "validate_ledger_schema ok file =
     (case file of
        None \<Rightarrow> Inl (KmaAttemptLedgerConfigurationError ''KMA attempt ledger is missing'')
      | Some db \<Rightarrow>
          if \<not> ok 0 \<or> \<not> ok 1 \<or> db_versions db = None
          then Inl (KmaAttemptLedgerConfigurationError ''KMA attempt ledger schema cannot be validated'')
          else if db_versions db \<noteq> Some [ledger_schema_version]
          then Inl (KmaAttemptLedgerConfigurationError ''KMA attempt ledger schema version is incompatible'')
          else if \<not> ok 2
          then Inl (KmaAttemptLedgerConfigurationError ''KMA attempt ledger schema cannot be validated'')
          else if db_columns db \<noteq> reservation_columns
          then Inl (KmaAttemptLedgerConfigurationError ''KMA attempt ledger reservation schema is incompatible'')
          else Inr ())"

text \<open>
  The statements of \<open>initialize_attempt_ledger\<close>.  The creation of a table commits at once, unless
  the insertion of the version has opened a transaction, which the end of the block commits.
\<close>

definition initialize_ledger_db :: "(nat \<Rightarrow> bool) \<Rightarrow> ledger_db option \<Rightarrow> unit result \<times> ledger_db option" where
  "initialize_ledger_db ok file =
     (let failed = Inl (KmaAttemptLedgerConfigurationError ''KMA attempt ledger initialization failed'');
          db = create_version_table (case file of None \<Rightarrow> empty_db | Some db \<Rightarrow> db)
      in if \<not> ok 0 \<or> \<not> ok 1 \<or> \<not> ok 2 then (failed, file)
         else if \<not> ok 3 then (failed, Some db)
         else (case db_versions db of
             Some (v # _) \<Rightarrow>
               if v \<noteq> ledger_schema_version
               then (Inl (KmaAttemptLedgerConfigurationError ''KMA attempt ledger has an incompatible schema version''), Some db)
               else if \<not> ok 5 then (failed, Some db)
               else (if ok 6 then Inr () else failed, Some (create_reservation_table db))
           | _ \<Rightarrow>
               if \<not> ok 4 \<or> \<not> ok 5 \<or> \<not> ok 6 \<or> \<not> ok 7 then (failed, Some db)
               else (Inr (), Some (create_reservation_table (db\<lparr>db_versions := Some [ledger_schema_version]\<rparr>)))))"

definition initialize_attempt_ledger ::
  "(string \<Rightarrow> string list) \<Rightarrow> (string \<Rightarrow> string option) \<Rightarrow> (nat \<Rightarrow> bool) \<Rightarrow> (nat \<Rightarrow> bool) \<Rightarrow> ledger_db option
     \<Rightarrow> string list result \<times> ledger_db option" where
  "initialize_attempt_ledger resolve env ok ok' file =
     (case configured_ledger_path resolve env of
        Inl e \<Rightarrow> (Inl e, file)
      | Inr (_, path_parts) \<Rightarrow>
          (case initialize_ledger_db ok file of
             (Inl e, file') \<Rightarrow> (Inl e, file')
           | (Inr _, file') \<Rightarrow> (bind_result (validate_ledger_schema ok' file') (\<lambda>_. Inr path_parts), file')))"

definition ledger_from_environment ::
  "(string \<Rightarrow> string list) \<Rightarrow> (string \<Rightarrow> string option) \<Rightarrow> (nat \<Rightarrow> bool) \<Rightarrow> ledger_db option \<Rightarrow> (string list \<times> int) result" where
  "ledger_from_environment resolve env ok file =
     bind_result (configured_daily_attempt_limit env) (\<lambda>limit.
     bind_result (configured_ledger_path resolve env) (\<lambda>(_, path_parts).
     bind_result (validate_ledger_schema ok file) (\<lambda>_.
     Inr (path_parts, limit))))"

section \<open>The transaction\<close>

record attempt_reservation =
  ar_reservation_id :: string
  ar_source_id :: string
  ar_dag_run_id :: string
  ar_observed_slot :: string
  ar_nx :: int
  ar_ny :: int
  ar_attempt_ordinal :: int
  ar_reserved_at :: pydatetime

record reservation_result =
  rr_reservation_id :: string
  rr_budget_date :: string
  rr_daily_count :: int
  rr_created :: bool

text \<open>\<open>_require_reservation\<close>: the budget day is the day in Korea, the time is printed in UTC.\<close>

definition require_reservation :: "pylib \<Rightarrow> attempt_reservation \<Rightarrow> (string \<times> string) result" where
  "require_reservation L r =
     bind_result
       (require (list_all (\<lambda>v. v \<noteq> [] \<and> \<not> is_blank v)
            [ar_reservation_id r, ar_source_id r, ar_dag_run_id r, ar_observed_slot r])
         (KmaAttemptLedgerConfigurationError ''KMA attempt reservation fields must be non-empty'')) (\<lambda>_.
     bind_result
       (require (0 < ar_attempt_ordinal r)
         (KmaAttemptLedgerConfigurationError ''KMA attempt ordinal must be positive'')) (\<lambda>_.
     case ar_reserved_at r of
       Naive _ \<Rightarrow> Inl (KmaAttemptLedgerConfigurationError ''KMA attempt reservation timestamp must be timezone-aware'')
     | Aware t \<Rightarrow>
         bind_result (astimezone_utc t) (\<lambda>utc.
         bind_result (astimezone_kst L t) (\<lambda>wall.
         Inr (date_str (civil (nat wall div us_per_day)), isoformat utc)))))"

definition reservation_values :: "pylib \<Rightarrow> attempt_reservation \<Rightarrow> ledger_row result" where
  "reservation_values L r =
     bind_result (require_reservation L r) (\<lambda>(day, at_utc).
     Inr \<lparr>lr_reservation_id = ar_reservation_id r, lr_budget_date = day, lr_source_id = ar_source_id r,
          lr_dag_run_id = ar_dag_run_id r, lr_observed_slot = ar_observed_slot r, lr_nx = ar_nx r,
          lr_ny = ar_ny r, lr_attempt_ordinal = ar_attempt_ordinal r, lr_reserved_at = at_utc\<rparr>)"

definition daily_count :: "string \<Rightarrow> ledger_row list \<Rightarrow> nat" where
  "daily_count day rows = length (filter (\<lambda>r. lr_budget_date r = day) rows)"

text \<open>The integers that can be bound to a statement.\<close>

definition sqlite_integer :: "int \<Rightarrow> bool" where
  "sqlite_integer i \<longleftrightarrow> - (2 ^ 63) \<le> i \<and> i < 2 ^ 63"

definition reservation_failed :: pyexc where
  "reservation_failed = KmaAttemptLedgerConfigurationError ''KMA attempt reservation failed closed''"

text \<open>
  \<open>reserve\<close>.  The connection (statement 0) is opened outside of the \<open>try\<close> block; statement 1 is
  \<open>BEGIN IMMEDIATE\<close>, 2 the lookup, 3 the count, 4 the insertion or the commit, 5 the commit.
\<close>

definition insert_reservation ::
  "int \<Rightarrow> (nat \<Rightarrow> bool) \<Rightarrow> ledger_row \<Rightarrow> ledger_db \<Rightarrow> reservation_result result \<times> ledger_db" where
  "insert_reservation limit ok v db =
     (let n = daily_count (lr_budget_date v) (db_rows db)
      in if \<not> ok 3 then (Inl reservation_failed, db)
         else if int n \<ge> limit
         then (Inl (KmaDailyAttemptLimitExceeded ''KMA shared daily attempt limit is exhausted''), db)
         else if \<not> list_all sqlite_integer [lr_nx v, lr_ny v, lr_attempt_ordinal v]
         then (Inl (OverflowError ''Python int too large to convert to SQLite INTEGER''), db)
         else if \<not> ok 4 \<or> \<not> ok 5 then (Inl reservation_failed, db)
         else (Inr \<lparr>rr_reservation_id = lr_reservation_id v, rr_budget_date = lr_budget_date v,
                 rr_daily_count = int n + 1, rr_created = True\<rparr>,
               db\<lparr>db_rows := db_rows db @ [v]\<rparr>))"

definition reserve_values ::
  "int \<Rightarrow> (nat \<Rightarrow> bool) \<Rightarrow> ledger_row \<Rightarrow> ledger_db \<Rightarrow> reservation_result result \<times> ledger_db" where
  "reserve_values limit ok v db =
     (if \<not> ok 0 then (Inl (SqliteError ''unable to open database file''), db)
      else if \<not> ok 1 \<or> \<not> ok 2 \<or> \<not> set reservation_columns \<subseteq> set (db_columns db)
      then (Inl reservation_failed, db)
      else (case find (\<lambda>r. lr_reservation_id r = lr_reservation_id v) (db_rows db) of
          Some r \<Rightarrow>
            if r \<noteq> v then (Inl (KmaAttemptLedgerConfigurationError ''KMA attempt reservation id collision''), db)
            else if \<not> ok 3 \<or> \<not> ok 4 then (Inl reservation_failed, db)
            else (Inr \<lparr>rr_reservation_id = lr_reservation_id v, rr_budget_date = lr_budget_date v,
                    rr_daily_count = int (daily_count (lr_budget_date v) (db_rows db)), rr_created = False\<rparr>, db)
        | None \<Rightarrow> insert_reservation limit ok v db))"

definition reserve ::
  "pylib \<Rightarrow> int \<Rightarrow> (nat \<Rightarrow> bool) \<Rightarrow> attempt_reservation \<Rightarrow> ledger_db option
     \<Rightarrow> reservation_result result \<times> ledger_db option" where
  "reserve L limit ok r file =
     (case reservation_values L r of
        Inl e \<Rightarrow> (Inl e, file)
      | Inr v \<Rightarrow>
          (case file of
             None \<Rightarrow> (Inl (SqliteError ''unable to open database file''), None)
           | Some db \<Rightarrow> map_prod id Some (reserve_values limit ok v db)))"

text \<open>The hook that runs before each HTTP call, at the reading \<open>now\<close> of the clock.\<close>

record physical_attempt =
  pa_reservation_id :: string
  pa_source_id :: string
  pa_dag_run_id :: string
  pa_observed_slot :: string
  pa_nx :: int
  pa_ny :: int
  pa_attempt_ordinal :: int

definition attempt_at :: "physical_attempt \<Rightarrow> pydatetime \<Rightarrow> attempt_reservation" where
  "attempt_at a now =
     \<lparr>ar_reservation_id = pa_reservation_id a, ar_source_id = pa_source_id a, ar_dag_run_id = pa_dag_run_id a,
      ar_observed_slot = pa_observed_slot a, ar_nx = pa_nx a, ar_ny = pa_ny a,
      ar_attempt_ordinal = pa_attempt_ordinal a, ar_reserved_at = now\<rparr>"

definition budget_hook ::
  "pylib \<Rightarrow> int \<Rightarrow> pydatetime \<Rightarrow> (nat \<Rightarrow> bool) \<Rightarrow> physical_attempt \<Rightarrow> ledger_db option
     \<Rightarrow> reservation_result result \<times> ledger_db option" where
  "budget_hook L limit now ok a file = reserve L limit ok (attempt_at a now) file"

section \<open>The budget of a day\<close>

definition ledger_ids :: "ledger_db \<Rightarrow> string set" where
  "ledger_ids db = lr_reservation_id ` set (db_rows db)"

definition ledger_ready :: "ledger_db \<Rightarrow> bool" where
  "ledger_ready db \<longleftrightarrow> db_versions db = Some [ledger_schema_version] \<and> db_columns db = reservation_columns"

lemma find_id_None: "find (\<lambda>r. lr_reservation_id r = k) (db_rows db) = None \<longleftrightarrow> k \<notin> ledger_ids db"
  by (auto simp: find_None_iff ledger_ids_def)

lemma find_id_Some:
  "find (\<lambda>r. lr_reservation_id r = k) rows = Some r \<Longrightarrow> r \<in> set rows \<and> lr_reservation_id r = k"
  by (auto simp: find_Some_iff)

text \<open>A transaction either leaves the database as it is or appends the row, which is then granted.\<close>

lemma reserve_values_cases:
  assumes "reserve_values limit ok v db = (res, db')"
  obtains (same) "db' = db" "\<And>g. res = Inr g \<Longrightarrow> \<not> rr_created g \<and> v \<in> set (db_rows db)
      \<and> rr_reservation_id g = lr_reservation_id v"
    | (added) "db' = db\<lparr>db_rows := db_rows db @ [v]\<rparr>" "lr_reservation_id v \<notin> ledger_ids db"
      "int (daily_count (lr_budget_date v) (db_rows db)) < limit"
      "res = Inr \<lparr>rr_reservation_id = lr_reservation_id v, rr_budget_date = lr_budget_date v,
         rr_daily_count = int (daily_count (lr_budget_date v) (db_rows db)) + 1, rr_created = True\<rparr>"
proof (cases "find (\<lambda>r. lr_reservation_id r = lr_reservation_id v) (db_rows db)")
  case None
  then have fresh: "lr_reservation_id v \<notin> ledger_ids db" by (simp add: find_id_None)
  show thesis
  proof (cases "\<exists>g. res = Inr g")
    case True
    with assms None fresh show thesis
      by (intro added) (auto simp: reserve_values_def insert_reservation_def Let_def split: if_splits)
  next
    case False
    with assms None show thesis
      by (intro same) (auto simp: reserve_values_def insert_reservation_def Let_def split: if_splits)
  qed
next
  case (Some r)
  then have "r \<in> set (db_rows db)" using find_id_Some by blast
  with assms Some show thesis
    by (intro same) (auto simp: reserve_values_def split: if_splits)
qed

lemma daily_count_snoc [simp]:
  "daily_count day (rows @ [v]) = daily_count day rows + (if lr_budget_date v = day then 1 else 0)"
  by (simp add: daily_count_def)

lemma daily_count_Nil [simp]: "daily_count day [] = 0"
  by (simp add: daily_count_def)

text \<open>A history of reservations: the results so far and the file they leave.\<close>

inductive ledger_history :: "pylib \<Rightarrow> int \<Rightarrow> ledger_db option \<Rightarrow> reservation_result result list \<Rightarrow> ledger_db option \<Rightarrow> bool"
  for L :: pylib and limit :: int and f0 :: "ledger_db option" where
  start: "ledger_history L limit f0 [] f0"
| reserved: "ledger_history L limit f0 rs f \<Longrightarrow> reserve L limit ok r f = (res, f')
     \<Longrightarrow> ledger_history L limit f0 (rs @ [res]) f'"

definition granted_on :: "string \<Rightarrow> reservation_result result \<Rightarrow> bool" where
  "granted_on day res \<longleftrightarrow> (case res of Inr g \<Rightarrow> rr_created g \<and> rr_budget_date g = day | Inl _ \<Rightarrow> False)"

text \<open>What holds after every history of a ledger that started empty.\<close>

definition ledger_inv :: "int \<Rightarrow> reservation_result result list \<Rightarrow> ledger_db \<Rightarrow> bool" where
  "ledger_inv limit rs db \<longleftrightarrow>
     ledger_ready db \<and> distinct (map lr_reservation_id (db_rows db))
     \<and> (\<forall>day. int (daily_count day (db_rows db)) \<le> limit)
     \<and> (\<forall>day. length (filter (granted_on day) rs) = daily_count day (db_rows db))
     \<and> (\<forall>g. Inr g \<in> set rs \<longrightarrow> rr_reservation_id g \<in> ledger_ids db)"

lemma ledger_inv_step:
  assumes "ledger_inv limit rs db" "reserve_values limit ok v db = (res, db')"
  shows "ledger_inv limit (rs @ [res]) db'"
  using assms(2)
proof (cases rule: reserve_values_cases)
  case same
  then have "rr_reservation_id g \<in> ledger_ids db" if "res = Inr g" for g
    using that by (auto simp: ledger_ids_def)
  moreover have "\<not> granted_on day res" for day
    using same by (auto simp: granted_on_def split: sum.splits)
  ultimately show ?thesis using assms(1) same(1) by (auto simp: ledger_inv_def)
next
  case added
  have "granted_on day res \<longleftrightarrow> lr_budget_date v = day" for day by (auto simp: added(4) granted_on_def)
  with added assms(1) show ?thesis
    by (auto simp: ledger_inv_def ledger_ids_def ledger_ready_def)
qed

lemma initialized_ledger:
  assumes "initialize_attempt_ledger resolve env ok ok' None = (Inr p, f)"
  shows "\<exists>db. f = Some db \<and> ledger_ready db \<and> db_rows db = []"
  using assms
  by (auto simp: initialize_attempt_ledger_def initialize_ledger_db_def Let_def create_version_table_def empty_db_def
      create_reservation_table_def ledger_ready_def reservation_columns_def split: sum.splits if_splits prod.splits)

lemma reserve_values_keeps:
  assumes "reserve_values limit ok v db = (res, db')" shows "set (db_rows db) \<subseteq> set (db_rows db')"
  using assms by (cases rule: reserve_values_cases) auto

text \<open>Every call keeps the invariant and every row.\<close>

lemma reserve_inv:
  assumes "ledger_inv limit rs db" "reserve L limit ok r (Some db) = (res, f)"
  shows "\<exists>db'. f = Some db' \<and> ledger_inv limit (rs @ [res]) db' \<and> set (db_rows db) \<subseteq> set (db_rows db')"
proof (cases "reservation_values L r")
  case (Inl e)
  have "\<not> granted_on day (Inl e)" for day by (simp add: granted_on_def)
  with Inl assms show ?thesis by (auto simp: reserve_def ledger_inv_def)
next
  case (Inr v)
  obtain res' db' where step: "reserve_values limit ok v db = (res', db')" by force
  with assms(2) Inr have "res = res'" "f = Some db'" by (auto simp: reserve_def)
  with ledger_inv_step [OF assms(1) step] reserve_values_keeps [OF step] show ?thesis by blast
qed

lemma ledger_history_inv:
  assumes "ledger_history L limit (Some db0) rs f" "ledger_inv limit [] db0"
  shows "\<exists>db. f = Some db \<and> ledger_inv limit rs db"
  using assms
proof (induction rule: ledger_history.induct)
  case start
  then show ?case by simp
next
  case (reserved rs f ok r res f')
  then obtain db where db: "f = Some db" "ledger_inv limit rs db" by blast
  from reserve_inv [OF db(2)] reserved.hyps(2) db(1) show ?case by blast
qed

lemma started_ledger_inv:
  assumes "0 < limit" "initialize_attempt_ledger resolve env ok ok' None = (Inr p, f0)" "ledger_history L limit f0 rs f"
  shows "\<exists>db. f = Some db \<and> ledger_inv limit rs db"
proof -
  obtain db0 where db0: "f0 = Some db0" "ledger_ready db0" "db_rows db0 = []"
    using initialized_ledger [OF assms(2)] by blast
  then have "ledger_inv limit [] db0" using assms(1) by (simp add: ledger_inv_def)
  with assms(3) show ?thesis unfolding db0(1) by (rule ledger_history_inv)
qed

lemma configured_limit_bounds:
  "configured_daily_attempt_limit env = Inr limit \<Longrightarrow> 0 < limit \<and> limit < 10000"
  by (auto simp: configured_daily_attempt_limit_def bind_result_Inr_iff provider_daily_attempt_quota_def split: if_splits)

text \<open>
  C29: Over any history of reservations by any workers, whichever statements fail, a ledger that was
  initialised on a missing file holds for each day in Korea exactly the attempts granted, never more than
  the configured limit and so fewer than the quota of the provider, under distinct identifiers; every
  granted attempt stays in it, and it keeps the schema that the start of a run requires.
\<close>

theorem daily_budget_is_never_exceeded:
  assumes "configured_daily_attempt_limit env = Inr limit"
    and "initialize_attempt_ledger resolve env ok ok' None = (Inr p, f0)"
    and "ledger_history L limit f0 rs f"
  shows "\<exists>db. f = Some db \<and> distinct (map lr_reservation_id (db_rows db))
    \<and> (\<forall>day. length (filter (granted_on day) rs) = daily_count day (db_rows db)
          \<and> int (daily_count day (db_rows db)) \<le> limit \<and> daily_count day (db_rows db) < 10000)
    \<and> (\<forall>g. Inr g \<in> set rs \<longrightarrow> rr_reservation_id g \<in> ledger_ids db)
    \<and> validate_ledger_schema (\<lambda>_. True) f = Inr ()"
proof -
  have limit: "0 < limit" "limit < 10000" using configured_limit_bounds [OF assms(1)] by auto
  obtain db where db: "f = Some db" "ledger_inv limit rs db"
    using started_ledger_inv [OF limit(1) assms(2,3)] by blast
  have count: "int (daily_count day (db_rows db)) \<le> limit" for day using db(2) by (simp add: ledger_inv_def)
  then have "daily_count day (db_rows db) < 10000" for day using limit(2) by (metis le_less_trans of_nat_less_numeral_iff)
  with db count show ?thesis by (auto simp: ledger_inv_def validate_ledger_schema_def ledger_ready_def)
qed

definition demo_reservation :: attempt_reservation where
  "demo_reservation =
     \<lparr>ar_reservation_id = ''r1'', ar_source_id = ''kma'', ar_dag_run_id = ''run'', ar_observed_slot = ''slot'',
      ar_nx = 60, ar_ny = 127, ar_attempt_ordinal = 1, ar_reserved_at = Aware 63900000000000000\<rparr>"

definition demo_ledger_row :: ledger_row where
  "demo_ledger_row =
     \<lparr>lr_reservation_id = ''r1'', lr_budget_date = date_str (civil 739583), lr_source_id = ''kma'',
      lr_dag_run_id = ''run'', lr_observed_slot = ''slot'', lr_nx = 60, lr_ny = 127, lr_attempt_ordinal = 1,
      lr_reserved_at = isoformat 63900000000000000\<rparr>"

definition fresh_ledger :: ledger_db where
  "fresh_ledger = \<lparr>db_versions = Some [1], db_columns = reservation_columns, db_rows = []\<rparr>"

lemma demo_reservation_values: "reservation_values (std_lib h) demo_reservation = Inr demo_ledger_row"
proof -
  have "\<not> is_blank s" if "s \<in> {''r1'', ''kma'', ''run'', ''slot''}" for s
    by (rule not_blank_graphic) (use that in \<open>auto simp: graphic_def\<close>)
  moreover have "in_range 63900000000000000" "in_range 63900032400000000"
    by (simp_all add: in_range_def max_instant_def us_per_day_def)
  moreover have "nat 63900032400000000 div us_per_day = 739583" by (simp add: us_per_day_def)
  ultimately show ?thesis
    by (simp add: reservation_values_def require_reservation_def demo_reservation_def demo_ledger_row_def
        astimezone_kst_def checked_instant_def kst_offset_def hours_def)
qed

lemma demo_reserve:
  "reserve (std_lib h) 7500 (\<lambda>_. True) demo_reservation (Some fresh_ledger)
     = (Inr \<lparr>rr_reservation_id = ''r1'', rr_budget_date = date_str (civil 739583), rr_daily_count = 1, rr_created = True\<rparr>,
        Some (fresh_ledger\<lparr>db_rows := [demo_ledger_row]\<rparr>))"
proof -
  have "list_all sqlite_integer [lr_nx demo_ledger_row, lr_ny demo_ledger_row, lr_attempt_ordinal demo_ledger_row]"
    by (simp add: demo_ledger_row_def sqlite_integer_def)
  moreover have "lr_reservation_id demo_ledger_row = ''r1''" "lr_budget_date demo_ledger_row = date_str (civil 739583)"
    by (simp_all add: demo_ledger_row_def)
  ultimately show ?thesis
    by (simp add: reserve_def demo_reservation_values reserve_values_def insert_reservation_def Let_def fresh_ledger_def)
qed

lemma default_limit: "configured_daily_attempt_limit (\<lambda>_. None) = Inr 7500"
proof -
  have "digit_char 7 = CHR ''7''" "digit_char 5 = CHR ''5''" "digit_char 0 = CHR ''0''" by code_simp+
  then have "show_int default_daily_attempt_limit = ''7500''"
    by (simp add: show_int_def default_daily_attempt_limit_def show_nat.simps)
  moreover have "py_strip ''7500'' = ''7500''" by (rule py_strip_graphic) (simp_all add: graphic_def)
  moreover have "code_points ''7500'' = [55, 53, 48, 48]" by (simp add: code_points_ascii)
  ultimately show ?thesis
    using digit_value_ascii [of 0] digit_value_ascii [of 5] digit_value_ascii [of 7]
    by (simp add: configured_daily_attempt_limit_def env_text_def py_int_def py_int_text_def unsigned_int_def
        provider_daily_attempt_quota_def)
qed

definition demo_resolve :: "string \<Rightarrow> string list" where
  "demo_resolve s = (if s = ''/opt/airflow/logs/_weather_control'' then [''c''] else [''c'', ''f''])"

lemma demo_initialized:
  "initialize_attempt_ledger demo_resolve (\<lambda>_. None) (\<lambda>_. True) (\<lambda>_. True) None = (Inr [''c'', ''f''], Some fresh_ledger)"
  by (simp add: initialize_attempt_ledger_def configured_ledger_path_def env_text_def initialize_ledger_db_def Let_def
      create_version_table_def empty_db_def create_reservation_table_def validate_ledger_schema_def fresh_ledger_def
      ledger_schema_version_def demo_resolve_def)

lemma daily_budget_is_never_exceeded_witness:
  "\<exists>rs f. ledger_history (std_lib (\<lambda>s. s)) 7500 (Some fresh_ledger) rs f \<and> rs \<noteq> []
     \<and> (\<exists>db. f = Some db \<and> int (daily_count (date_str (civil 739583)) (db_rows db)) \<le> 7500)"
proof -

  note start = daily_budget_is_never_exceeded [OF default_limit demo_initialized]
  note history = ledger_history.reserved [OF ledger_history.start demo_reserve [of "\<lambda>s. s"]]
  from start [OF history] show ?thesis using history by blast
qed

section \<open>The ledger implements a budget\<close>

text \<open>
  The specification: a set of attempts.  An attempt that is there is confirmed; another attempt under
  the same identifier is refused; when the day has as many attempts as the limit it is refused;
  otherwise it is added.
\<close>

datatype budget_answer = Confirmed nat | Collision | Exhausted | Granted nat

definition attempts_of :: "string \<Rightarrow> ledger_row set \<Rightarrow> ledger_row set" where
  "attempts_of day S = {r \<in> S. lr_budget_date r = day}"

definition budget_reserve :: "int \<Rightarrow> ledger_row \<Rightarrow> ledger_row set \<Rightarrow> budget_answer \<times> ledger_row set" where
  "budget_reserve limit v S =
     (let n = card (attempts_of (lr_budget_date v) S)
      in if v \<in> S then (Confirmed n, S)
         else if lr_reservation_id v \<in> lr_reservation_id ` S then (Collision, S)
         else if limit \<le> int n then (Exhausted, S)
         else (Granted (n + 1), insert v S))"

text \<open>The answer of the specification that a result of the transaction stands for, if any.\<close>

fun answer_of :: "reservation_result result \<Rightarrow> budget_answer option" where
  "answer_of (Inr g) = Some (if rr_created g then Granted (nat (rr_daily_count g)) else Confirmed (nat (rr_daily_count g)))"
| "answer_of (Inl (KmaDailyAttemptLimitExceeded _)) = Some Exhausted"
| "answer_of (Inl (KmaAttemptLedgerConfigurationError m)) =
     (if m = ''KMA attempt reservation id collision'' then Some Collision else None)"
| "answer_of (Inl _) = None"

lemma daily_count_card:
  assumes "distinct (map lr_reservation_id rows)"
  shows "daily_count day rows = card (attempts_of day (set rows))"
proof -
  have "distinct rows" using assms by (simp add: distinct_map)
  then have "card (set (filter (\<lambda>r. lr_budget_date r = day) rows)) = daily_count day rows"
    unfolding daily_count_def by (intro distinct_card) simp
  then show ?thesis by (simp add: attempts_of_def)
qed

lemma find_id_unique:
  assumes "distinct (map lr_reservation_id rows)" "find (\<lambda>r. lr_reservation_id r = lr_reservation_id v) rows = Some r"
  shows "v \<in> set rows \<longleftrightarrow> r = v"
proof
  have r: "r \<in> set rows" "lr_reservation_id r = lr_reservation_id v" using find_id_Some [OF assms(2)] by auto
  show "r = v" if "v \<in> set rows"
    using assms(1) r that by (auto simp: distinct_map dest: inj_onD)
  show "v \<in> set rows" if "r = v" using r that by simp
qed

text \<open>
  C33: The transaction implements the budget: when the rows have distinct identifiers, each call of
  \<open>reserve\<close> either fails without an answer (an error of SQLite, or an integer it cannot store) and leaves the
  set of attempts as it is, or answers as the specification does and leaves the set the specification
  leaves; and it answers whenever the statements succeed and the integers can be stored.
\<close>

theorem reservation_implements_the_budget:
  assumes "reservation_values L r = Inr v" "distinct (map lr_reservation_id (db_rows db))"
    and "reserve L limit ok r (Some db) = (res, Some db')"
  shows "distinct (map lr_reservation_id (db_rows db'))
    \<and> (answer_of res = None \<and> set (db_rows db') = set (db_rows db)
       \<or> (\<exists>a. answer_of res = Some a \<and> (a, set (db_rows db')) = budget_reserve limit v (set (db_rows db))))
    \<and> (ledger_ready db \<and> (\<forall>n. ok n) \<and> list_all sqlite_integer [lr_nx v, lr_ny v, lr_attempt_ordinal v]
       \<longrightarrow> answer_of res \<noteq> None)"
proof -
  have step: "reserve_values limit ok v db = (res, db')"
    using assms(1,3) by (cases "reserve_values limit ok v db") (simp add: reserve_def)
  note card = daily_count_card [OF assms(2), symmetric]
  show ?thesis
  proof (cases "find (\<lambda>r. lr_reservation_id r = lr_reservation_id v) (db_rows db)")
    case None
    then have fresh: "lr_reservation_id v \<notin> ledger_ids db" by (simp add: find_id_None)
    then have "v \<notin> set (db_rows db)" by (auto simp: ledger_ids_def)
    with fresh step None assms(2) show ?thesis
      by (auto simp: reserve_values_def insert_reservation_def Let_def budget_reserve_def card ledger_ids_def
          reservation_failed_def ledger_ready_def split: if_splits)
  next
    case (Some x)
    have "lr_reservation_id v \<in> lr_reservation_id ` set (db_rows db)" using find_id_Some [OF Some] by (metis image_eqI)
    with step Some find_id_unique [OF assms(2) Some] assms(2) show ?thesis
      by (auto simp: reserve_values_def Let_def budget_reserve_def card reservation_failed_def ledger_ready_def
          split: if_splits)
  qed
qed

lemma reservation_implements_the_budget_witness:
  "fst (budget_reserve 7500 demo_ledger_row {}) = Granted 1
   \<and> snd (budget_reserve 7500 demo_ledger_row {}) = {demo_ledger_row}"
proof -
  have "distinct (map lr_reservation_id (db_rows fresh_ledger))" by (simp add: fresh_ledger_def)
  from reservation_implements_the_budget [OF demo_reservation_values this demo_reserve]
  have "(Granted 1, {demo_ledger_row}) = budget_reserve 7500 demo_ledger_row {}" by (auto simp: fresh_ledger_def)
  then show ?thesis by (metis fst_conv snd_conv)
qed

section \<open>A retried attempt\<close>

text \<open>
  The row of a reservation carries the time of the clock, so that an attempt reserved again at
  another time is not confirmed but refused as a collision.
\<close>

lemma isoformat_inj_in_range:
  assumes "in_range t" "in_range t'" "t \<noteq> t'" shows "isoformat t \<noteq> isoformat t'"
  using assms(3) isoformat_eq_iff [OF assms(1,2)] by simp

lemma retried_attempt_collides:
  assumes first: "reservation_values L (attempt_at a (Aware t)) = Inr v" "v \<in> set (db_rows db)"
    and again: "reservation_values L (attempt_at a (Aware t')) = Inr v'" and "t \<noteq> t'"
    and "ledger_ready db" "distinct (map lr_reservation_id (db_rows db))"
  shows "budget_hook L limit (Aware t') (\<lambda>_. True) a (Some db)
    = (Inl (KmaAttemptLedgerConfigurationError ''KMA attempt reservation id collision''), Some db)"
proof -
  have v: "lr_reservation_id v = pa_reservation_id a" "lr_reserved_at v = isoformat t" "in_range t"
    using first(1) by (auto simp: reservation_values_def require_reservation_def bind_result_Inr_iff attempt_at_def
        astimezone_utc_Inr_iff)
  have v': "lr_reservation_id v' = pa_reservation_id a" "lr_reserved_at v' = isoformat t'" "in_range t'"
    using again by (auto simp: reservation_values_def require_reservation_def bind_result_Inr_iff attempt_at_def
        astimezone_utc_Inr_iff)
  have "v \<noteq> v'" using isoformat_inj_in_range [OF v(3) v'(3) \<open>t \<noteq> t'\<close>] v v' by metis
  moreover obtain r where r: "find (\<lambda>r. lr_reservation_id r = lr_reservation_id v') (db_rows db) = Some r"
    using first(2) v(1) v'(1)
    by (cases "find (\<lambda>r. lr_reservation_id r = lr_reservation_id v') (db_rows db)") (auto simp: find_None_iff)
  moreover have "r = v" using find_id_unique [OF assms(6), of v r] r v(1) v'(1) first(2) by simp
  ultimately show ?thesis using assms(5)
    by (simp add: budget_hook_def reserve_def again reserve_values_def ledger_ready_def)
qed

end
