(* ===== verification/Raw_Store.thy ===== *)
theory Raw_Store
  imports Json_Storage
begin

text \<open>
  The store of raw objects, checkpoints and manifests of the KMA collections: the operations the
  landing asks of it (the protocols of \<open>kma_coordination.py\<close> and \<open>kma_observation_landing.py\<close>) and
  their implementation over the object service, \<open>R2RawObjectStore\<close> of \<open>weather_ingest/runtime.py\<close>,
  which repeats a call whose connection broke.  Such a call may have taken effect, so that the
  repetition of a conditional write finds its own object.

  The locale \<open>raw_objects\<close> states what a client relies on while other workers add objects;
  \<open>raw_service\<close> states what the object service documents, and gives \<open>raw_objects\<close> for the
  implementation.
\<close>

section \<open>The operations\<close>

record 's raw_store =
  raw_exists :: "string \<Rightarrow> 's \<Rightarrow> bool result \<times> 's"
  raw_read :: "string \<Rightarrow> 's \<Rightarrow> string result \<times> 's"
  raw_put_if_absent :: "string \<Rightarrow> string \<Rightarrow> 's \<Rightarrow> bool result \<times> 's"

text \<open>
  \<open>objects\<close> abstracts the state to the bytes under each key.  Objects are only added, by the call
  itself or by other workers meanwhile.
\<close>

locale raw_objects =
  fixes B :: "('s, 'b) raw_store_scheme" and objects :: "'s \<Rightarrow> string \<Rightarrow> string option"
  assumes exists_grows: "raw_exists B k s = (r, s') \<Longrightarrow> objects s \<subseteq>\<^sub>m objects s'"
    and read_grows: "raw_read B k s = (r', s') \<Longrightarrow> objects s \<subseteq>\<^sub>m objects s'"
    and put_grows: "raw_put_if_absent B k d s = (r, s') \<Longrightarrow> objects s \<subseteq>\<^sub>m objects s'"
    and exists_present: "raw_exists B k s = (Inr True, s') \<Longrightarrow> objects s' k \<noteq> None"
    and exists_absent: "raw_exists B k s = (Inr False, s') \<Longrightarrow> objects s k = None"
    and read_object: "raw_read B k s = (Inr d, s') \<Longrightarrow> objects s' k = Some d"
    and put_created: "raw_put_if_absent B k d s = (Inr True, s') \<Longrightarrow> objects s k = None \<and> objects s' k = Some d"
    and put_present: "raw_put_if_absent B k d s = (Inr False, s') \<Longrightarrow> objects s' k \<noteq> None"

text \<open>A store without faults that nobody else writes to meanwhile.\<close>

locale quiet_raw_objects = raw_objects +
  assumes exists_returns: "\<exists>s'. raw_exists B k s = (Inr (objects s k \<noteq> None), s') \<and> objects s' = objects s"
    and read_returns: "objects s k = Some d \<Longrightarrow> \<exists>s'. raw_read B k s = (Inr d, s') \<and> objects s' = objects s"
    and put_returns: "\<exists>b s'. raw_put_if_absent B k d s = (Inr b, s')"
    and put_absent_only: "objects s k \<noteq> None \<Longrightarrow> \<exists>s'. raw_put_if_absent B k d s = (Inr False, s') \<and> objects s' = objects s"

section \<open>The object service\<close>

text \<open>
  An answer of the service: done, a \<open>ClientError\<close> with a code and an HTTP status, a broken
  connection (one of the exceptions that are retried), or another exception.
\<close>

datatype 'a service_answer = Done 'a | Refused string int | Broken pyexc | Failed pyexc

record 's object_service =
  svc_head :: "string \<Rightarrow> 's \<Rightarrow> unit service_answer \<times> 's"
  svc_get :: "string \<Rightarrow> 's \<Rightarrow> string service_answer \<times> 's"
  svc_put_if_none_match :: "string \<Rightarrow> string \<Rightarrow> 's \<Rightarrow> unit service_answer \<times> 's"

text \<open>\<open>_retry_transient\<close>: \<open>n\<close> further calls after a broken connection.\<close>

fun retry_transient :: "nat \<Rightarrow> ('s \<Rightarrow> 'a service_answer \<times> 's) \<Rightarrow> 's \<Rightarrow> 'a service_answer \<times> 's" where
  "retry_transient 0 f s = f s"
| "retry_transient (Suc n) f s =
     (case f s of (Broken e, s') \<Rightarrow> retry_transient n f s' | answer \<Rightarrow> answer)"

definition transient_retries :: nat where "transient_retries = 2"

definition missing_object_codes :: "string list" where
  "missing_object_codes = [''404'', ''NoSuchKey'', ''NotFound'']"

definition r2_raw_exists :: "('s, 'b) object_service_scheme \<Rightarrow> string \<Rightarrow> 's \<Rightarrow> bool result \<times> 's" where
  "r2_raw_exists C k s =
     (case retry_transient transient_retries (svc_head C k) s of
        (Done _, s') \<Rightarrow> (Inr True, s')
      | (Refused code status, s') \<Rightarrow>
          (if code \<in> set missing_object_codes then Inr False else Inl (ClientError code), s')
      | (Broken e, s') \<Rightarrow> (Inl e, s')
      | (Failed e, s') \<Rightarrow> (Inl e, s'))"

definition r2_raw_read :: "('s, 'b) object_service_scheme \<Rightarrow> string \<Rightarrow> 's \<Rightarrow> string result \<times> 's" where
  "r2_raw_read C k s =
     (case retry_transient transient_retries (svc_get C k) s of
        (Done d, s') \<Rightarrow> (Inr d, s')
      | (Refused code status, s') \<Rightarrow> (Inl (ClientError code), s')
      | (Broken e, s') \<Rightarrow> (Inl e, s')
      | (Failed e, s') \<Rightarrow> (Inl e, s'))"

text \<open>\<open>write_bytes_if_absent\<close>: \<open>n\<close> conditional writes, each with its repetitions.\<close>

fun r2_raw_puts :: "('s, 'b) object_service_scheme \<Rightarrow> nat \<Rightarrow> string \<Rightarrow> string \<Rightarrow> 's \<Rightarrow> bool result \<times> 's" where
  "r2_raw_puts C 0 k d s = (Inl (RuntimeError ''R2 conditional write conflicted repeatedly''), s)"
| "r2_raw_puts C (Suc n) k d s =
     (case retry_transient transient_retries (svc_put_if_none_match C k d) s of
        (Done _, s') \<Rightarrow> (Inr True, s')
      | (Refused code status, s') \<Rightarrow>
          (if code = ''PreconditionFailed'' \<or> status = 412 then (Inr False, s')
           else if code = ''ConditionalRequestConflict'' \<or> status = 409 then r2_raw_puts C n k d s'
           else (Inl (ClientError code), s'))
      | (Broken e, s') \<Rightarrow> (Inl e, s')
      | (Failed e, s') \<Rightarrow> (Inl e, s'))"

definition r2_raw_store :: "('s, 'b) object_service_scheme \<Rightarrow> 's raw_store" where
  "r2_raw_store C =
     \<lparr>raw_exists = r2_raw_exists C, raw_read = r2_raw_read C, raw_put_if_absent = r2_raw_puts C 3\<rparr>"

text \<open>
  What the service documents.  Objects are only added; a success answers for the state the call
  leaves; a conditional write succeeds on an absent key only and is refused with 412 on a present
  one; after a broken connection or a failure nothing else is known.
\<close>

locale raw_service =
  fixes C :: "('s, 'b) object_service_scheme" and objects :: "'s \<Rightarrow> string \<Rightarrow> string option"
  assumes head_grows: "svc_head C k s = (a, s') \<Longrightarrow> objects s \<subseteq>\<^sub>m objects s'"
    and get_grows: "svc_get C k s = (b, s') \<Longrightarrow> objects s \<subseteq>\<^sub>m objects s'"
    and put_grows: "svc_put_if_none_match C k d s = (a, s') \<Longrightarrow> objects s \<subseteq>\<^sub>m objects s'"
    and head_done: "svc_head C k s = (Done u, s') \<Longrightarrow> objects s' k \<noteq> None"
    and head_missing: "svc_head C k s = (Refused code status, s') \<Longrightarrow> code \<in> set missing_object_codes \<Longrightarrow> objects s k = None"
    and get_done: "svc_get C k s = (Done d, s') \<Longrightarrow> objects s' k = Some d"
    and put_done: "svc_put_if_none_match C k d s = (Done u, s') \<Longrightarrow> objects s k = None \<and> objects s' k = Some d"
    and put_precondition: "svc_put_if_none_match C k d s = (Refused code status, s') \<Longrightarrow>
      code = ''PreconditionFailed'' \<or> status = 412 \<Longrightarrow> objects s' k \<noteq> None"

text \<open>The answer of a repeated call is that of its last call, from a state that only grew.\<close>

lemma retry_transient_last:
  assumes "retry_transient n f s = (a, s')" and "\<And>t b t'. f t = (b, t') \<Longrightarrow> m t \<subseteq>\<^sub>m (m t' :: 'k \<Rightarrow> 'v option)"
  shows "\<exists>t. m s \<subseteq>\<^sub>m m t \<and> f t = (a, s')"
  using assms(1)
proof (induction n arbitrary: s)
  case 0
  then show ?case by (auto intro: map_le_refl)
next
  case (Suc n)
  obtain b t where step: "f s = (b, t)" by force
  show ?case
  proof (cases "\<exists>e. b = Broken e")
    case True
    then have "retry_transient n f t = (a, s')" using Suc.prems step by auto
    then show ?thesis using Suc.IH assms(2) [OF step] map_le_trans by blast
  next
    case False
    then have "f s = (a, s')" using Suc.prems step by (cases b) auto
    then show ?thesis by (auto intro: map_le_refl)
  qed
qed

lemma map_le_None: "m \<subseteq>\<^sub>m m' \<Longrightarrow> m' k = None \<Longrightarrow> m k = None"
  by (auto simp: map_le_def dom_def)

lemma map_le_Some: "m \<subseteq>\<^sub>m m' \<Longrightarrow> m k = Some v \<Longrightarrow> m' k = Some v"
  by (auto simp: map_le_def dom_def)

context raw_service
begin

lemma puts_spec:
  assumes "r2_raw_puts C n k d s = (r, s')"
  shows "objects s \<subseteq>\<^sub>m objects s' \<and> (r = Inr True \<longrightarrow> objects s k = None \<and> objects s' k = Some d)
    \<and> (r = Inr False \<longrightarrow> objects s' k \<noteq> None)"
  using assms
proof (induction n arbitrary: s)
  case 0
  then show ?case by (auto intro: map_le_refl)
next
  case (Suc n)
  obtain a t where call: "retry_transient transient_retries (svc_put_if_none_match C k d) s = (a, t)" by force
  obtain u where u: "objects s \<subseteq>\<^sub>m objects u" "svc_put_if_none_match C k d u = (a, t)"
    using retry_transient_last [where m = objects, OF call] put_grows by blast
  have grown: "objects s \<subseteq>\<^sub>m objects t" using u(1) put_grows [OF u(2)] by (rule map_le_trans)
  show ?case
  proof (cases a)
    case (Done x)
    then show ?thesis using Suc.prems call grown put_done [of k d u x t] u map_le_None [OF u(1)] by simp
  next
    case (Refused code status)
    consider "code = ''PreconditionFailed'' \<or> status = 412"
      | "\<not> (code = ''PreconditionFailed'' \<or> status = 412)" "code = ''ConditionalRequestConflict'' \<or> status = 409"
      | "\<not> (code = ''PreconditionFailed'' \<or> status = 412)" "\<not> (code = ''ConditionalRequestConflict'' \<or> status = 409)"
      by blast
    then show ?thesis
    proof cases
      case 1
      then have "objects t k \<noteq> None" using put_precondition [of k d u code status t] u(2) Refused by blast
      then show ?thesis using Suc.prems call Refused grown 1 by auto
    next
      case 2
      then have "r2_raw_puts C n k d t = (r, s')" using Suc.prems call Refused by simp
      note rest = Suc.IH [OF this]
      then have "objects s \<subseteq>\<^sub>m objects s'" using map_le_trans [OF grown] by simp
      with rest map_le_None [OF grown] show ?thesis by simp
    next
      case 3
      then show ?thesis using Suc.prems call Refused grown by auto
    qed
  qed (use Suc.prems call grown in auto)
qed

lemma r2_raw_exists_spec:
  assumes "r2_raw_exists C k s = (r, s')"
  shows "objects s \<subseteq>\<^sub>m objects s' \<and> (r = Inr True \<longrightarrow> objects s' k \<noteq> None) \<and> (r = Inr False \<longrightarrow> objects s k = None)"
proof -
  obtain a where call: "retry_transient transient_retries (svc_head C k) s = (a, s')"
    and r: "r = (case a of Done _ \<Rightarrow> Inr True
      | Refused code status \<Rightarrow> if code \<in> set missing_object_codes then Inr False else Inl (ClientError code)
      | Broken e \<Rightarrow> Inl e | Failed e \<Rightarrow> Inl e)"
    using assms by (auto simp: r2_raw_exists_def split: prod.splits service_answer.splits)
  obtain t where t: "objects s \<subseteq>\<^sub>m objects t" "svc_head C k t = (a, s')"
    using retry_transient_last [where m = objects, OF call] head_grows by blast
  have "objects s \<subseteq>\<^sub>m objects s'" using t(1) head_grows [OF t(2)] by (rule map_le_trans)
  then show ?thesis
    using r t head_done [of k t _ s'] head_missing [of k t _ _ s'] map_le_None [OF t(1)]
    by (cases a) (auto split: if_splits)
qed

lemma r2_raw_read_spec:
  assumes "r2_raw_read C k s = (r, s')"
  shows "objects s \<subseteq>\<^sub>m objects s' \<and> (\<forall>d. r = Inr d \<longrightarrow> objects s' k = Some d)"
proof -
  obtain a where call: "retry_transient transient_retries (svc_get C k) s = (a, s')"
    and r: "r = (case a of Done d \<Rightarrow> Inr d | Refused code status \<Rightarrow> Inl (ClientError code)
      | Broken e \<Rightarrow> Inl e | Failed e \<Rightarrow> Inl e)"
    using assms by (auto simp: r2_raw_read_def split: prod.splits service_answer.splits)
  obtain t where t: "objects s \<subseteq>\<^sub>m objects t" "svc_get C k t = (a, s')"
    using retry_transient_last [where m = objects, OF call] get_grows by blast
  have "objects s \<subseteq>\<^sub>m objects s'" using t(1) get_grows [OF t(2)] by (rule map_le_trans)
  then show ?thesis using r t(2) get_done by (cases a) auto
qed

end

sublocale raw_service \<subseteq> raw: raw_objects "r2_raw_store C" objects
  by unfold_locales
    (auto simp: r2_raw_store_def dest: r2_raw_exists_spec r2_raw_read_spec puts_spec)

section \<open>Instances\<close>

text \<open>The local backend of \<open>common/storage.py\<close> has the same operations.\<close>

definition file_raw_store :: "files raw_store" where
  "file_raw_store =
     \<lparr>raw_exists = (\<lambda>k fs. (Inr (local_exists k fs), fs)), raw_read = (\<lambda>k fs. (local_get k fs, fs)),
      raw_put_if_absent = local_put_if_absent\<rparr>"

lemma file_raw_store_simps [simp]:
  "raw_exists file_raw_store k fs = (Inr (local_exists k fs), fs)"
  "raw_read file_raw_store k fs = (local_get k fs, fs)"
  "raw_put_if_absent file_raw_store = local_put_if_absent"
  by (simp_all add: file_raw_store_def)

interpretation raw_files: quiet_raw_objects file_raw_store map_of
proof
  fix k d and s :: files
  show "\<exists>b s'. raw_put_if_absent file_raw_store k d s = (Inr b, s')" by (auto simp: local_put_if_absent_def)
qed (auto simp: local_exists_def local_get_def local_put_if_absent_eq map_le_def dom_def split: option.splits if_splits)

text \<open>
  A service with a script of faults: a request that is lost, a response that is lost after the call
  took effect, a conflict.
\<close>

datatype service_fault = NoFault | LostRequest | LostResponse | Conflict

definition scripted :: "(files \<Rightarrow> 'a service_answer \<times> files) \<Rightarrow> service_fault list \<times> files
    \<Rightarrow> 'a service_answer \<times> service_fault list \<times> files" where
  "scripted call s =
     (case s of
        ([], fs) \<Rightarrow> (case call fs of (a, fs') \<Rightarrow> (a, [], fs'))
      | (NoFault # es, fs) \<Rightarrow> (case call fs of (a, fs') \<Rightarrow> (a, es, fs'))
      | (LostRequest # es, fs) \<Rightarrow> (Broken (OSError ''connection closed''), es, fs)
      | (LostResponse # es, fs) \<Rightarrow> (case call fs of (a, fs') \<Rightarrow> (Broken (OSError ''read timeout''), es, fs'))
      | (Conflict # es, fs) \<Rightarrow> (Refused ''ConditionalRequestConflict'' 409, es, fs))"

definition faulty_service :: "(service_fault list \<times> files) object_service" where
  "faulty_service =
     \<lparr>svc_head = (\<lambda>k. scripted (\<lambda>fs. (if map_of fs k = None then Refused ''404'' 404 else Done (), fs))),
      svc_get = (\<lambda>k. scripted (\<lambda>fs. (case map_of fs k of None \<Rightarrow> Refused ''NoSuchKey'' 404 | Some d \<Rightarrow> Done d, fs))),
      svc_put_if_none_match = (\<lambda>k d. scripted (\<lambda>fs.
         if map_of fs k = None then (Done (), dict_set k d fs) else (Refused ''PreconditionFailed'' 412, fs)))\<rparr>"

interpretation faulty: raw_service faulty_service "\<lambda>s. map_of (snd s)"
  by unfold_locales
    (auto simp: faulty_service_def scripted_def missing_object_codes_def map_le_def dom_def
      split: prod.splits list.splits service_fault.splits if_splits option.splits)

end
