(* ===== verification/Kma_Deadline.thy ===== *)
theory Kma_Deadline
  imports Raw_Store
begin

text \<open>
  The shared controls of the KMA pipelines, second part (\<open>weather_ingest/kma_coordination.py\<close>): the
  anchor of a collection cycle, which is written once to an object storage, and the deadline view of a
  worker.  The lemmas show that every worker of a cycle gets the same anchor at every later time, and
  that a request is admitted only when it ends before the deadline of the anchor.

  Floats are rationals; \<open>ftext\<close> is \<open>float\<close> of a text.
\<close>

section \<open>The anchor\<close>

record cycle_identity =
  ci_dag_id :: string
  ci_dag_run_id :: string
  ci_source_id :: string
  ci_observed_slot :: string

record deadline_anchor =
  da_dag_id :: string
  da_dag_run_id :: string
  da_source_id :: string
  da_observed_slot :: string
  da_started_at :: pydatetime
  da_deadline_at :: pydatetime

definition collection_deadline :: int where "collection_deadline = minutes 40"

definition deadline_checkpoint_prefix :: string where
  "deadline_checkpoint_prefix = ''ops/weather/_control/kma_cycle_deadlines''"

text \<open>\<open>urllib.parse.quote(value, safe="")\<close> of the bytes of a text.\<close>

definition upper_hex :: "nat \<Rightarrow> char" where
  "upper_hex n = (if n < 10 then char_of (48 + n) else char_of (55 + n))"

definition quote_char :: "char \<Rightarrow> string" where
  "quote_char c =
     (if alnum_char c \<or> c \<in> {CHR ''_'', CHR ''.'', CHR ''-'', CHR ''~''} then [c]
      else [CHR ''%'', upper_hex (of_char c div 16), upper_hex (of_char c mod 16)])"

definition url_quote :: "string \<Rightarrow> string" where
  "url_quote s = concat (map quote_char s)"

definition deadline_checkpoint_key :: "cycle_identity \<Rightarrow> string result" where
  "deadline_checkpoint_key ci =
     (if \<not> list_all (\<lambda>v. v \<noteq> [] \<and> \<not> is_blank v)
            [ci_source_id ci, ci_observed_slot ci, ci_dag_id ci, ci_dag_run_id ci]
      then Inl (CycleDeadlineConfigurationError ''KMA cycle deadline identity fields must be non-empty'')
      else Inr (deadline_checkpoint_prefix @ ''/source='' @ url_quote (ci_source_id ci)
             @ ''/slot='' @ url_quote (ci_observed_slot ci)
             @ ''/dag_id='' @ url_quote (ci_dag_id ci)
             @ ''/run_id='' @ url_quote (ci_dag_run_id ci) @ ''.json''))"

definition cycle_utc :: "pydatetime \<Rightarrow> string \<Rightarrow> int result" where
  "cycle_utc v field =
     (case v of
        Naive _ \<Rightarrow> Inl (CycleDeadlineConfigurationError (''KMA cycle deadline '' @ field @ '' must be timezone-aware''))
      | Aware t \<Rightarrow> astimezone_utc t)"

definition anchor_document :: "deadline_anchor \<Rightarrow> int \<Rightarrow> int \<Rightarrow> pyobj" where
  "anchor_document a started deadline =
     PDict
       [(''dag_id'', PStr (da_dag_id a)), (''dag_run_id'', PStr (da_dag_run_id a)),
        (''source_id'', PStr (da_source_id a)), (''observed_slot'', PStr (da_observed_slot a)),
        (''started_at'', PStr (isoformat started)), (''deadline_at'', PStr (isoformat deadline)),
        (''schema_version'', PInt 1), (''duration_seconds'', PInt 2400)]"

definition serialize_deadline_anchor :: "pylib \<Rightarrow> deadline_anchor \<Rightarrow> string result" where
  "serialize_deadline_anchor L a =
     bind_result (cycle_utc (da_started_at a) ''started_at'') (\<lambda>started.
     bind_result (cycle_utc (da_deadline_at a) ''deadline_at'') (\<lambda>deadline.
     Inr (render L (sort_keys (anchor_document a started deadline)))))"

text \<open>\<open>document[key]\<close>, \<open>str\<close> of it, and \<open>datetime.fromisoformat\<close> of it.\<close>

definition dict_item :: "string \<Rightarrow> pyobj pydict \<Rightarrow> pyobj result" where
  "dict_item k d = (case map_of d k of None \<Rightarrow> Inl (KeyError k) | Some v \<Rightarrow> Inr v)"

definition text_item :: "pylib \<Rightarrow> pyobj pydict \<Rightarrow> string \<Rightarrow> string result" where
  "text_item L d k = bind_result (dict_item k d) (\<lambda>v. Inr (py_str L v))"

definition instant_item :: "pylib \<Rightarrow> pyobj pydict \<Rightarrow> string \<Rightarrow> pydatetime result" where
  "instant_item L d k =
     bind_result (dict_item k d) (\<lambda>v.
     bind_result
       (case v of
          PStr s \<Rightarrow> (case fromisoformat L s of None \<Rightarrow> Inl (ValueError ''Invalid isoformat string'') | Some t \<Rightarrow> Inr t)
        | _ \<Rightarrow> Inl (TypeError ''fromisoformat: argument must be str'')) (\<lambda>t.
     bind_result (cycle_utc t k) (\<lambda>u. Inr (Aware u))))"

definition anchor_of_document :: "pylib \<Rightarrow> pyobj pydict \<Rightarrow> deadline_anchor result" where
  "anchor_of_document L d =
     (if \<not> py_eq (dict_get ''schema_version'' d) (PInt 1) then Inl (ValueError ''schema version'')
      else if \<not> py_eq (dict_get ''duration_seconds'' d) (PInt 2400) then Inl (ValueError ''duration'')
      else bind_result (text_item L d ''dag_id'') (\<lambda>dag_id.
           bind_result (text_item L d ''dag_run_id'') (\<lambda>dag_run_id.
           bind_result (text_item L d ''source_id'') (\<lambda>source_id.
           bind_result (text_item L d ''observed_slot'') (\<lambda>observed_slot.
           bind_result (instant_item L d ''started_at'') (\<lambda>started.
           bind_result (instant_item L d ''deadline_at'') (\<lambda>deadline.
           Inr \<lparr>da_dag_id = dag_id, da_dag_run_id = dag_run_id, da_source_id = source_id,
                da_observed_slot = observed_slot, da_started_at = started, da_deadline_at = deadline\<rparr>)))))))"

definition deserialize_deadline_anchor :: "pylib \<Rightarrow> string \<Rightarrow> deadline_anchor result" where
  "deserialize_deadline_anchor L payload =
     try_except
       (case json_loads L payload of
          None \<Rightarrow> Inl (ValueError ''Expecting value'')
        | Some (PDict d) \<Rightarrow> anchor_of_document L d
        | Some _ \<Rightarrow> Inl (AttributeError ''get''))
       (\<lambda>e. is_key_error e \<or> is_type_error e \<or> is_value_error e)
       (\<lambda>_. Inl (CycleDeadlineConfigurationError ''KMA cycle deadline checkpoint is malformed''))"

definition anchor_identity :: "deadline_anchor \<Rightarrow> cycle_identity" where
  "anchor_identity a =
     \<lparr>ci_dag_id = da_dag_id a, ci_dag_run_id = da_dag_run_id a, ci_source_id = da_source_id a,
      ci_observed_slot = da_observed_slot a\<rparr>"

fun instant_of :: "pydatetime \<Rightarrow> int" where
  "instant_of (Naive t) = t"
| "instant_of (Aware t) = t"

definition validate_deadline_anchor :: "deadline_anchor \<Rightarrow> cycle_identity \<Rightarrow> deadline_anchor result" where
  "validate_deadline_anchor a ci =
     (if anchor_identity a \<noteq> ci
      then Inl (CycleDeadlineConfigurationError ''KMA cycle deadline checkpoint identity does not match'')
      else if instant_of (da_deadline_at a) - instant_of (da_started_at a) \<noteq> collection_deadline
      then Inl (CycleDeadlineConfigurationError ''KMA cycle deadline checkpoint must span exactly 40 minutes'')
      else Inr a)"

definition is_missing_object :: "pyexc \<Rightarrow> bool" where
  "is_missing_object e \<longleftrightarrow> is_key_error e \<or> (case e of FileNotFoundError _ \<Rightarrow> True | _ \<Rightarrow> False)"

definition load_cycle_deadline ::
  "pylib \<Rightarrow> ('s, 'b) raw_store_scheme \<Rightarrow> string \<Rightarrow> cycle_identity \<Rightarrow> 's \<Rightarrow> deadline_anchor result \<times> 's" where
  "load_cycle_deadline L B key ci s =
     (case raw_read B key s of (payload, s') \<Rightarrow>
        (bind_result
           (try_except (bind_result payload (deserialize_deadline_anchor L)) is_missing_object
              (\<lambda>_. Inl (CycleDeadlineConfigurationError
                 ''KMA cycle deadline checkpoint disappeared after write conflict''))) (\<lambda>a.
         validate_deadline_anchor a ci), s'))"

text \<open>The anchor a call at time \<open>now\<close> would create.\<close>

definition candidate_anchor :: "cycle_identity \<Rightarrow> pydatetime \<Rightarrow> deadline_anchor result" where
  "candidate_anchor ci now =
     bind_result (cycle_utc now ''started_at'') (\<lambda>started.
     bind_result (add_delta started collection_deadline) (\<lambda>deadline.
     Inr \<lparr>da_dag_id = ci_dag_id ci, da_dag_run_id = ci_dag_run_id ci, da_source_id = ci_source_id ci,
          da_observed_slot = ci_observed_slot ci, da_started_at = Aware started, da_deadline_at = Aware deadline\<rparr>))"

text \<open>The clock is read after the key is made.\<close>

definition initialize_cycle_deadline ::
  "pylib \<Rightarrow> ('s, 'b) raw_store_scheme \<Rightarrow> ('s \<Rightarrow> pydatetime \<times> 's) \<Rightarrow> cycle_identity \<Rightarrow> 's
     \<Rightarrow> deadline_anchor result \<times> 's" where
  "initialize_cycle_deadline L B now ci s =
     (case deadline_checkpoint_key ci of
        Inl e \<Rightarrow> (Inl e, s)
      | Inr key \<Rightarrow>
          (case now s of (t, s0) \<Rightarrow>
             (case bind_result (candidate_anchor ci t) (\<lambda>a.
                   bind_result (serialize_deadline_anchor L a) (\<lambda>payload. Inr (a, payload))) of
                Inl e \<Rightarrow> (Inl e, s0)
              | Inr (a, payload) \<Rightarrow>
                  (case raw_put_if_absent B key payload s0 of
                     (Inl e, s') \<Rightarrow> (Inl e, s')
                   | (Inr created, s') \<Rightarrow>
                       if created then (Inr a, s') else load_cycle_deadline L B key ci s'))))"

section \<open>The view of a worker\<close>

definition float_of :: "(string \<Rightarrow> pyfloat option) \<Rightarrow> pyexc \<Rightarrow> pyobj \<Rightarrow> pyfloat result" where
  "float_of ftext malformed v =
     (case v of
        PInt i \<Rightarrow> if \<bar>i\<bar> \<ge> 2 ^ 1024 - 2 ^ 970 then Inl (OverflowError ''int too large to convert to float'')
                   else Inr (Finite (of_int i))
      | PBool b \<Rightarrow> Inr (Finite (if b then 1 else 0))
      | PFloat x \<Rightarrow> Inr x
      | PStr s \<Rightarrow> (case ftext s of None \<Rightarrow> Inl malformed | Some x \<Rightarrow> Inr x)
      | _ \<Rightarrow> Inl malformed)"

definition cycle_seconds :: "(string \<Rightarrow> pyfloat option) \<Rightarrow> pyobj \<Rightarrow> string \<Rightarrow> rat result" where
  "cycle_seconds ftext v field =
     (let malformed = CycleDeadlineConfigurationError (''KMA cycle deadline '' @ field @ '' must be numeric'');
          unfit = Inl (CycleDeadlineConfigurationError (''KMA cycle deadline '' @ field @ '' must be finite and non-negative''))
      in case float_of ftext malformed v of
          Inl e \<Rightarrow> Inl e
        | Inr (Finite q) \<Rightarrow> if q < 0 then unfit else Inr q
        | Inr _ \<Rightarrow> unfit)"

record cycle_deadline =
  cd_anchor :: deadline_anchor
  cd_monotonic_started :: rat
  cd_initial_remaining :: rat
  cd_last_remaining :: rat

text \<open>\<open>max(0.0, (anchor.deadline_at - wall).total_seconds())\<close>.\<close>

definition durable_remaining :: "deadline_anchor \<Rightarrow> int \<Rightarrow> rat" where
  "durable_remaining a wall = max 0 (of_int (instant_of (da_deadline_at a) - wall) / 1000000)"

definition new_cycle_deadline :: "deadline_anchor \<Rightarrow> pydatetime \<Rightarrow> rat \<Rightarrow> cycle_deadline result" where
  "new_cycle_deadline a wall monotonic =
     bind_result (cycle_utc wall ''wall clock'') (\<lambda>w.
     Inr \<lparr>cd_anchor = a, cd_monotonic_started = monotonic, cd_initial_remaining = durable_remaining a w,
          cd_last_remaining = durable_remaining a w\<rparr>)"

definition remaining_seconds :: "pydatetime \<Rightarrow> rat \<Rightarrow> cycle_deadline \<Rightarrow> (rat \<times> cycle_deadline) result" where
  "remaining_seconds wall monotonic cd =
     bind_result (cycle_utc wall ''wall clock'') (\<lambda>w.
     let elapsed = max 0 (monotonic - cd_monotonic_started cd);
         monotonic_remaining = max 0 (cd_initial_remaining cd - elapsed);
         remaining = min (min (cd_last_remaining cd) (durable_remaining (cd_anchor cd) w)) monotonic_remaining
     in Inr (remaining, cd\<lparr>cd_last_remaining := remaining\<rparr>))"

text \<open>A check returns its result and the view it leaves.\<close>

definition require_remaining ::
  "pydatetime \<Rightarrow> rat \<Rightarrow> rat \<Rightarrow> string \<Rightarrow> cycle_deadline \<Rightarrow> unit result \<times> cycle_deadline" where
  "require_remaining wall monotonic seconds_needed action cd =
     (case remaining_seconds wall monotonic cd of
        Inl e \<Rightarrow> (Inl e, cd)
      | Inr (remaining, cd') \<Rightarrow>
          (if remaining < seconds_needed
           then Inl (CycleDeadlineExceeded (''KMA cycle deadline cannot admit '' @ action)) else Inr (), cd'))"

definition require_request ::
  "(string \<Rightarrow> pyfloat option) \<Rightarrow> pyobj \<Rightarrow> pyobj \<Rightarrow> pydatetime \<Rightarrow> rat \<Rightarrow> cycle_deadline \<Rightarrow> unit result \<times> cycle_deadline" where
  "require_request ftext timeout headroom wall monotonic cd =
     (case bind_result (cycle_seconds ftext timeout ''request timeout'') (\<lambda>t.
           bind_result (cycle_seconds ftext headroom ''request headroom'') (\<lambda>h. Inr (t + h))) of
        Inl e \<Rightarrow> (Inl e, cd)
      | Inr n \<Rightarrow> require_remaining wall monotonic n ''request'' cd)"

definition require_retry_sleep ::
  "(string \<Rightarrow> pyfloat option) \<Rightarrow> pyobj \<Rightarrow> pyobj \<Rightarrow> pydatetime \<Rightarrow> rat \<Rightarrow> cycle_deadline \<Rightarrow> unit result \<times> cycle_deadline" where
  "require_retry_sleep ftext sleep headroom wall monotonic cd =
     (case bind_result (cycle_seconds ftext sleep ''retry sleep'') (\<lambda>t.
           bind_result (cycle_seconds ftext headroom ''request headroom'') (\<lambda>h. Inr (t + h))) of
        Inl e \<Rightarrow> (Inl e, cd)
      | Inr n \<Rightarrow> require_remaining wall monotonic n ''retry sleep'' cd)"

section \<open>One anchor for a cycle\<close>

lemma append_sep_eq:
  "c \<notin> set a \<Longrightarrow> c \<notin> set b \<Longrightarrow> a @ c # u = b @ c # v \<longleftrightarrow> a = b \<and> u = v"
  by (induction a arbitrary: b) (case_tac b; auto)+

lemma upper_hex_inj:
  assumes "m < 16" "n < 16" "upper_hex m = upper_hex n" shows "m = n"
proof -
  have code: "(of_char (upper_hex k) :: nat) = (if k < 10 then 48 + k else 55 + k)" if "k < 16" for k
    using that by (auto simp: upper_hex_def)
  have "(if m < 10 then 48 + m else 55 + m) = (if n < 10 then 48 + n else 55 + n)"
    using code [OF assms(1)] code [OF assms(2)] assms(3) by metis
  then show "m = n" by (simp split: if_splits)
qed

text \<open>Quoting is injective and yields no slash.\<close>

lemma quote_char_no_slash: "CHR ''/'' \<notin> set (quote_char c)"
proof -
  have "upper_hex k \<noteq> CHR ''/''" if "k < 16" for k
  proof
    assume "upper_hex k = CHR ''/''"
    then have "(of_char (upper_hex k) :: nat) = 47" by simp
    then show False using that by (auto simp: upper_hex_def split: if_splits)
  qed
  moreover have "of_char c div 16 < (16 :: nat)" by (rule less_mult_imp_div_less) simp
  moreover have "of_char c mod 16 < (16 :: nat)" by simp
  ultimately have "CHR ''/'' \<noteq> upper_hex (of_char c div 16)" "CHR ''/'' \<noteq> upper_hex (of_char c mod 16)" by metis+
  moreover have "\<not> alnum_char CHR ''/''" by (simp add: alnum_char_def in_range_char_def)
  ultimately show ?thesis by (auto simp: quote_char_def)
qed

lemma url_quote_no_slash: "CHR ''/'' \<notin> set (url_quote s)"
  using quote_char_no_slash by (auto simp: url_quote_def)

lemma quote_char_step:
  assumes "quote_char c @ x = quote_char d @ y" shows "c = d \<and> x = y"
proof -
  let ?safe = "\<lambda>c. alnum_char c \<or> c \<in> {CHR ''_'', CHR ''.'', CHR ''-'', CHR ''~''}"
  have pct: "\<not> ?safe CHR ''%''" by (simp add: alnum_char_def in_range_char_def)
  show ?thesis
  proof (cases "?safe c")
    case True
    with assms pct show ?thesis by (cases "?safe d") (auto simp: quote_char_def)
  next
    case False
    then have "\<not> ?safe d" using assms pct by (auto simp: quote_char_def)
    with False assms have eq: "upper_hex (of_char c div 16) = upper_hex (of_char d div 16)"
      "upper_hex (of_char c mod 16) = upper_hex (of_char d mod 16)" "x = y"
      by (simp_all add: quote_char_def)
    have "of_char c div 16 = (of_char d div 16 :: nat)"
      by (rule upper_hex_inj [OF _ _ eq(1)]; rule less_mult_imp_div_less; simp)
    moreover have "of_char c mod 16 = (of_char d mod 16 :: nat)"
      by (rule upper_hex_inj [OF _ _ eq(2)]; simp)
    ultimately have "(of_char c :: nat) = of_char d" by (metis div_mult_mod_eq)
    with eq(3) show ?thesis by simp
  qed
qed

lemma url_quote_inj: "url_quote s = url_quote t \<longleftrightarrow> s = t"
proof
  have nonempty: "quote_char c \<noteq> []" for c by (simp add: quote_char_def)
  show "url_quote s = url_quote t \<Longrightarrow> s = t"
  proof (induction s arbitrary: t)
    case Nil
    then show ?case using nonempty by (cases t) (auto simp: url_quote_def)
  next
    case (Cons c s)
    then obtain d u where t: "t = d # u" using nonempty by (cases t) (auto simp: url_quote_def)
    with Cons.prems have "quote_char c @ url_quote s = quote_char d @ url_quote u" by (simp add: url_quote_def)
    then show ?case using quote_char_step Cons.IH t by blast
  qed
qed simp

lemma deadline_checkpoint_key_inj:
  assumes "deadline_checkpoint_key ci = Inr k" "deadline_checkpoint_key ci' = Inr k"
  shows "ci = ci'"
proof -
  have form: "k = deadline_checkpoint_prefix @ ''/source='' @ url_quote (ci_source_id x) @ CHR ''/'' # ''slot='' @
      url_quote (ci_observed_slot x) @ CHR ''/'' # ''dag_id='' @ url_quote (ci_dag_id x) @ CHR ''/'' # ''run_id=''
      @ url_quote (ci_dag_run_id x) @ ''.json''"
    if "deadline_checkpoint_key x = Inr k" for x
    using that by (simp add: deadline_checkpoint_key_def split: if_splits)
  from form [OF assms(1)] form [OF assms(2)]
  have "url_quote (ci_source_id ci) = url_quote (ci_source_id ci')
    \<and> url_quote (ci_observed_slot ci) = url_quote (ci_observed_slot ci')
    \<and> url_quote (ci_dag_id ci) = url_quote (ci_dag_id ci')
    \<and> url_quote (ci_dag_run_id ci) = url_quote (ci_dag_run_id ci')"
    by (simp add: append_sep_eq url_quote_no_slash)
  then show ?thesis by (simp add: url_quote_inj)
qed

text \<open>An anchor that a call creates is read back from its bytes.\<close>

definition anchor_ok :: "deadline_anchor \<Rightarrow> cycle_identity \<Rightarrow> bool" where
  "anchor_ok a ci \<longleftrightarrow> anchor_identity a = ci
     \<and> (\<exists>s d. da_started_at a = Aware s \<and> da_deadline_at a = Aware d \<and> in_range s \<and> in_range d
          \<and> d - s = collection_deadline)"

lemma candidate_anchor_ok: "candidate_anchor ci now = Inr a \<Longrightarrow> anchor_ok a ci"
  by (cases now) (auto simp: candidate_anchor_def cycle_utc_def bind_result_Inr_iff astimezone_utc_Inr_iff
      add_delta_Inr_iff anchor_ok_def anchor_identity_def)

lemma serialize_anchor_ok:
  "anchor_ok a ci \<Longrightarrow> \<exists>s d. da_started_at a = Aware s \<and> da_deadline_at a = Aware d
     \<and> serialize_deadline_anchor L a = Inr (render L (sort_keys (anchor_document a s d)))"
  by (auto simp: anchor_ok_def serialize_deadline_anchor_def cycle_utc_def)

lemma anchor_document_fields:
  assumes "sort_keys (anchor_document a s d) = PDict e"
  shows "map_of e ''dag_id'' = Some (PStr (da_dag_id a))" "map_of e ''dag_run_id'' = Some (PStr (da_dag_run_id a))"
    "map_of e ''source_id'' = Some (PStr (da_source_id a))" "map_of e ''observed_slot'' = Some (PStr (da_observed_slot a))"
    "map_of e ''started_at'' = Some (PStr (isoformat s))" "map_of e ''deadline_at'' = Some (PStr (isoformat d))"
    "map_of e ''schema_version'' = Some (PInt 1)" "map_of e ''duration_seconds'' = Some (PInt 2400)"
proof -
  have "dict_wf [(''dag_id'', PStr (da_dag_id a)), (''dag_run_id'', PStr (da_dag_run_id a)),
        (''source_id'', PStr (da_source_id a)), (''observed_slot'', PStr (da_observed_slot a)),
        (''started_at'', PStr (isoformat s)), (''deadline_at'', PStr (isoformat d)),
        (''schema_version'', PInt 1), (''duration_seconds'', PInt 2400)]" by (simp add: dict_wf_def)
  note fields = sort_keys_dict_get [OF this assms [unfolded anchor_document_def]]
  show "map_of e ''dag_id'' = Some (PStr (da_dag_id a))" "map_of e ''dag_run_id'' = Some (PStr (da_dag_run_id a))"
    "map_of e ''source_id'' = Some (PStr (da_source_id a))" "map_of e ''observed_slot'' = Some (PStr (da_observed_slot a))"
    "map_of e ''started_at'' = Some (PStr (isoformat s))" "map_of e ''deadline_at'' = Some (PStr (isoformat d))"
    "map_of e ''schema_version'' = Some (PInt 1)" "map_of e ''duration_seconds'' = Some (PInt 2400)"
    by (simp_all add: fields)
qed

context json_codec
begin

lemma anchor_reads_back:
  assumes "anchor_ok a ci" "serialize_deadline_anchor L a = Inr p"
  shows "deserialize_deadline_anchor L p = Inr a"
proof -
  obtain s d where a: "da_started_at a = Aware s" "da_deadline_at a = Aware d" "in_range s" "in_range d"
    "p = render L (sort_keys (anchor_document a s d))"
    using assms serialize_anchor_ok [OF assms(1), of L] by (auto simp: anchor_ok_def)
  obtain e where e: "sort_keys (anchor_document a s d) = PDict e" by (simp add: anchor_document_def)
  have "plain (sort_keys (anchor_document a s d))" by (simp add: anchor_document_def)
  then have "json_loads L p = Some (PDict e)" unfolding a(5) e by (rule json_loads_render)
  moreover have "anchor_of_document L e = Inr a"
    using a(1-4)
    by (cases a) (simp add: anchor_of_document_def dict_get_def text_item_def dict_item_def instant_item_def py_str_def
        cycle_utc_def fromisoformat_isoformat anchor_document_fields [OF e])
  ultimately show ?thesis by (simp add: deserialize_deadline_anchor_def)
qed

end

lemma validate_deadline_anchor_ok: "anchor_ok a ci \<Longrightarrow> validate_deadline_anchor a ci = Inr a"
  by (auto simp: anchor_ok_def validate_deadline_anchor_def)

lemma load_cycle_deadline_Inr:
  "load_cycle_deadline L B key ci s = (Inr a, s') \<longleftrightarrow>
     (\<exists>p. raw_read B key s = (Inr p, s') \<and> deserialize_deadline_anchor L p = Inr a) \<and> validate_deadline_anchor a ci = Inr a"
  by (auto simp: load_cycle_deadline_def bind_result_Inr_iff try_except_Inr_iff validate_deadline_anchor_def
      split: if_splits prod.splits)

lemma cycle_utc_Inr: "cycle_utc v f = Inr u \<Longrightarrow> v = Aware u \<and> in_range u"
  by (cases v) (simp_all add: cycle_utc_def astimezone_utc_Inr_iff)

lemma instant_item_Inr: "instant_item L d k = Inr x \<Longrightarrow> \<exists>u. x = Aware u \<and> in_range u"
  by (auto simp: instant_item_def bind_result_Inr_iff dest!: cycle_utc_Inr)

lemma loaded_anchor_ok:
  assumes "deserialize_deadline_anchor L p = Inr a" "validate_deadline_anchor a ci = Inr a"
  shows "anchor_ok a ci"
proof -
  obtain d where "anchor_of_document L d = Inr a"
    using assms(1) by (auto simp: deserialize_deadline_anchor_def try_except_Inr_iff split: option.splits pyobj.splits)
  then obtain u v where "da_started_at a = Aware u" "da_deadline_at a = Aware v" "in_range u" "in_range v"
    by (auto simp: anchor_of_document_def bind_result_Inr_iff split: if_splits dest!: instant_item_Inr)
  with assms(2) show ?thesis by (auto simp: anchor_ok_def validate_deadline_anchor_def split: if_splits)
qed

lemma initialize_cycle_deadline_Inr:
  assumes "initialize_cycle_deadline L B now ci s = (Inr a, s')"
  obtains key t s0 c payload created s1 where "deadline_checkpoint_key ci = Inr key" "now s = (t, s0)"
    "candidate_anchor ci t = Inr c" "serialize_deadline_anchor L c = Inr payload"
    "raw_put_if_absent B key payload s0 = (Inr created, s1)" "created \<Longrightarrow> a = c \<and> s' = s1"
    "\<not> created \<Longrightarrow> load_cycle_deadline L B key ci s1 = (Inr a, s')"
proof -
  obtain key where key: "deadline_checkpoint_key ci = Inr key"
    using assms by (cases "deadline_checkpoint_key ci") (auto simp: initialize_cycle_deadline_def)
  obtain t s0 where clock: "now s = (t, s0)" by force
  obtain c payload where c: "candidate_anchor ci t = Inr c" "serialize_deadline_anchor L c = Inr payload"
    using assms key clock
    by (cases "bind_result (candidate_anchor ci t) (\<lambda>a. bind_result (serialize_deadline_anchor L a) (\<lambda>p. Inr (a, p)))")
      (auto simp: initialize_cycle_deadline_def bind_result_Inr_iff)
  obtain r s1 where put: "raw_put_if_absent B key payload s0 = (r, s1)" by force
  then obtain created where "r = Inr created"
    using assms key clock c by (cases r) (simp_all add: initialize_cycle_deadline_def)
  then show thesis using that [OF key clock c] put assms key clock c
    by (cases created) (simp_all add: initialize_cycle_deadline_def)
qed

text \<open>A client of the store: it knows JSON, and reading its clock loses no object.\<close>

locale anchor_client = json_codec L + raw_objects B objects
  for L :: pylib and B :: "'s raw_store" and objects :: "'s \<Rightarrow> string \<Rightarrow> string option" +
  fixes now :: "'s \<Rightarrow> pydatetime \<times> 's"
  assumes clock_grows: "now s = (t, s') \<Longrightarrow> objects s \<subseteq>\<^sub>m objects s'"
begin

lemma initialize_grows:
  assumes "initialize_cycle_deadline L B now ci s = (r, s')"
  shows "objects s \<subseteq>\<^sub>m objects s'"
proof -
  obtain t s0 where clock: "now s = (t, s0)" by force
  note s0 = clock_grows [OF clock]
  consider "s' \<in> {s, s0}"
    | key payload r1 s1 where "raw_put_if_absent B key payload s0 = (r1, s1)" "s' = s1"
    | key payload r1 s1 r2 where "raw_put_if_absent B key payload s0 = (r1, s1)" "raw_read B key s1 = (r2, s')"
    using assms clock
    by (auto simp: initialize_cycle_deadline_def load_cycle_deadline_def split: sum.splits prod.splits if_splits)
  then show ?thesis
  proof cases
    case 1
    then show ?thesis using s0 by (auto intro: map_le_refl)
  next
    case 2
    then show ?thesis using put_grows s0 map_le_trans by blast
  next
    case 3
    show ?thesis by (rule map_le_trans [OF s0 map_le_trans [OF put_grows [OF 3(1)] read_grows [OF 3(2)]]])
  qed
qed

text \<open>After a call the key holds bytes that read back as the anchor.\<close>

lemma initialized_anchor:
  assumes "initialize_cycle_deadline L B now ci s = (Inr a, s')" "deadline_checkpoint_key ci = Inr key"
  shows "anchor_ok a ci \<and> (\<exists>p. objects s' key = Some p \<and> deserialize_deadline_anchor L p = Inr a)"
  using assms(1)
proof (rule initialize_cycle_deadline_Inr)
  fix key' t s0 c payload created s1
  assume parts: "deadline_checkpoint_key ci = Inr key'" "now s = (t, s0)" "candidate_anchor ci t = Inr c"
    "serialize_deadline_anchor L c = Inr payload" "raw_put_if_absent B key' payload s0 = (Inr created, s1)"
    "created \<Longrightarrow> a = c \<and> s' = s1" "\<not> created \<Longrightarrow> load_cycle_deadline L B key' ci s1 = (Inr a, s')"
  then have [simp]: "key' = key" using assms(2) by simp
  show ?thesis
  proof (cases created)
    case True
    have "anchor_ok c ci" by (rule candidate_anchor_ok [OF parts(3)])
    moreover have "objects s' key = Some payload" using put_created parts(5,6) True by fastforce
    ultimately show ?thesis using anchor_reads_back [OF _ parts(4)] parts(6) True by blast
  next
    case False
    then obtain p where p: "raw_read B key s1 = (Inr p, s')" "deserialize_deadline_anchor L p = Inr a"
      "validate_deadline_anchor a ci = Inr a"
      using parts(7) by (auto simp: load_cycle_deadline_Inr)
    then show ?thesis using read_object [OF p(1)] loaded_anchor_ok [OF p(2,3)] by blast
  qed
qed

text \<open>Two calls that return, in whatever states of the growing store, agree.\<close>

lemma initialized_same:
  assumes one: "initialize_cycle_deadline L B now ci s = (Inr a, s')"
    and grown: "objects s' \<subseteq>\<^sub>m objects t" and two: "initialize_cycle_deadline L B now ci t = (Inr b, t')"
  shows "b = a"
proof -
  obtain key where key: "deadline_checkpoint_key ci = Inr key"
    by (rule initialize_cycle_deadline_Inr [OF one])
  obtain p where p: "objects s' key = Some p" "deserialize_deadline_anchor L p = Inr a"
    using initialized_anchor [OF one key] by blast
  obtain q where q: "objects t' key = Some q" "deserialize_deadline_anchor L q = Inr b"
    using initialized_anchor [OF two key] by blast
  have "objects t' key = Some p"
    using p(1) grown initialize_grows [OF two] map_le_Some by metis
  then show ?thesis using p(2) q by simp
qed

end

locale quiet_anchor_client = anchor_client L B objects now + quiet_raw_objects B objects
  for L :: pylib and B :: "'s raw_store" and objects :: "'s \<Rightarrow> string \<Rightarrow> string option" and now +
  assumes clock_quiet: "now s = (t, s') \<Longrightarrow> objects s' = objects s"
begin

lemma initialized_again:
  assumes "anchor_ok a ci" "objects t key = Some p" "deserialize_deadline_anchor L p = Inr a"
    and "deadline_checkpoint_key ci = Inr key" "now t = (time, t0)" "candidate_anchor ci time = Inr c"
  shows "\<exists>t'. initialize_cycle_deadline L B now ci t = (Inr a, t') \<and> objects t' = objects t"
proof -
  obtain payload where payload: "serialize_deadline_anchor L c = Inr payload"
    using serialize_anchor_ok [OF candidate_anchor_ok [OF assms(6)], of L] by blast
  have t0: "objects t0 = objects t" by (rule clock_quiet [OF assms(5)])
  obtain t1 where put: "raw_put_if_absent B key payload t0 = (Inr False, t1)" "objects t1 = objects t"
    using put_absent_only [of t0 key payload] assms(2) t0 by auto
  obtain t' where got: "raw_read B key t1 = (Inr p, t')" "objects t' = objects t"
    using read_returns [of t1 key p] assms(2) put(2) by auto
  then have "load_cycle_deadline L B key ci t1 = (Inr a, t')"
    using assms(3) validate_deadline_anchor_ok [OF assms(1)] by (auto simp: load_cycle_deadline_Inr)
  then show ?thesis using put payload assms(4-6) got(2) by (auto simp: initialize_cycle_deadline_def)
qed

end

text \<open>The local backend and the object service with faults, each with a clock.\<close>

interpretation file_anchor: quiet_anchor_client "std_lib h" file_raw_store map_of "\<lambda>s. (time, s)" for h time
  by unfold_locales (auto intro: map_le_refl)

interpretation faulty_anchor: anchor_client "std_lib h" "r2_raw_store faulty_service" "\<lambda>s. map_of (snd s)" "\<lambda>s. (time, s)"
  for h time
  by unfold_locales (auto intro: map_le_refl)

text \<open>
  C31: Once a call has obtained the anchor of a cycle, every later call for the cycle, by any worker and at
  any time, obtains the same anchor and changes nothing, as long as nobody removes or overwrites objects;
  the anchor is of the cycle and spans exactly 40 minutes; and cycles that differ have different keys.
\<close>

theorem cycle_anchor_is_written_once:
  assumes "initialize_cycle_deadline (std_lib h) file_raw_store (\<lambda>s. (now, s)) ci s = (Inr a, s')"
    and "map_of s' \<subseteq>\<^sub>m map_of t"
  shows "(\<exists>start. da_started_at a = Aware start \<and> da_deadline_at a = Aware (start + minutes 40))
    \<and> anchor_identity a = ci
    \<and> (\<forall>now' c. candidate_anchor ci now' = Inr c
          \<longrightarrow> (\<exists>t'. initialize_cycle_deadline (std_lib h) file_raw_store (\<lambda>s. (now', s)) ci t = (Inr a, t')
                \<and> map_of t' = map_of t))
    \<and> (\<forall>ci'. ci' \<noteq> ci \<longrightarrow> deadline_checkpoint_key ci' \<noteq> deadline_checkpoint_key ci)"
proof -
  obtain key where key: "deadline_checkpoint_key ci = Inr key"
    by (rule initialize_cycle_deadline_Inr [OF assms(1)])
  obtain p where p: "anchor_ok a ci" "map_of s' key = Some p" "deserialize_deadline_anchor (std_lib h) p = Inr a"
    using file_anchor.initialized_anchor [OF assms(1) key] by blast
  then have "map_of t key = Some p" using assms(2) map_le_Some by metis
  note again = file_anchor.initialized_again [OF p(1) this p(3) key refl]
  have "\<exists>start. da_started_at a = Aware start \<and> da_deadline_at a = Aware (start + minutes 40)"
    using p(1) by (auto simp: anchor_ok_def collection_deadline_def algebra_simps)
  moreover have "anchor_identity a = ci" using p(1) by (simp add: anchor_ok_def)
  moreover have "deadline_checkpoint_key ci' \<noteq> deadline_checkpoint_key ci" if "ci' \<noteq> ci" for ci'
    using deadline_checkpoint_key_inj key that by metis
  ultimately show ?thesis using again by blast
qed

text \<open>
  Over the object service, whichever requests and responses are lost, the calls of one worker that
  return agree.
\<close>

lemma anchor_survives_faults:
  assumes "initialize_cycle_deadline (std_lib h) (r2_raw_store faulty_service) (\<lambda>s. (time, s)) ci s = (Inr a, s')"
    and "map_of (snd s') \<subseteq>\<^sub>m map_of (snd t)"
    and "initialize_cycle_deadline (std_lib h) (r2_raw_store faulty_service) (\<lambda>s. (time, s)) ci t = (Inr b, t')"
  shows "b = a"
  by (rule faulty_anchor.initialized_same [OF assms])

definition demo_cycle :: cycle_identity where
  "demo_cycle = \<lparr>ci_dag_id = ''dag'', ci_dag_run_id = ''run'', ci_source_id = ''kma'', ci_observed_slot = ''slot''\<rparr>"

lemma demo_cycle_starts:
  "\<exists>a s'. initialize_cycle_deadline (std_lib h) file_raw_store (\<lambda>s. (Aware 63900000000000000, s)) demo_cycle [] = (Inr a, s')
     \<and> da_started_at a = Aware 63900000000000000 \<and> da_deadline_at a = Aware 63900002400000000"
proof -
  have "\<not> is_blank s" if "s \<in> {''dag'', ''run'', ''kma'', ''slot''}" for s
    by (rule not_blank_graphic) (use that in \<open>auto simp: graphic_def\<close>)
  then obtain key where "deadline_checkpoint_key demo_cycle = Inr key"
    by (simp add: deadline_checkpoint_key_def demo_cycle_def)
  moreover have "in_range 63900000000000000" "in_range 63900002400000000"
    by (simp_all add: in_range_def max_instant_def us_per_day_def)
  ultimately show ?thesis
    by (simp add: initialize_cycle_deadline_def candidate_anchor_def cycle_utc_def add_delta_def checked_instant_def
        collection_deadline_def minutes_def serialize_deadline_anchor_def local_put_if_absent_def)
qed

lemma cycle_anchor_is_written_once_witness:
  "\<exists>a s' t'. initialize_cycle_deadline (std_lib (\<lambda>s. s)) file_raw_store (\<lambda>s. (Aware 63900000600000000, s)) demo_cycle s' = (Inr a, t')
     \<and> da_deadline_at a = Aware 63900002400000000"
proof -
  obtain a s' where first:
    "initialize_cycle_deadline (std_lib (\<lambda>s. s)) file_raw_store (\<lambda>s. (Aware 63900000000000000, s)) demo_cycle [] = (Inr a, s')"
    "da_deadline_at a = Aware 63900002400000000"
    using demo_cycle_starts [of "\<lambda>s. s"] by blast
  have "in_range 63900000600000000" "in_range 63900003000000000"
    by (simp_all add: in_range_def max_instant_def us_per_day_def)
  then have "\<exists>c. candidate_anchor demo_cycle (Aware 63900000600000000) = Inr c"
    by (simp add: candidate_anchor_def cycle_utc_def add_delta_def checked_instant_def collection_deadline_def minutes_def)
  with cycle_anchor_is_written_once [OF first(1) map_le_refl] first(2) show ?thesis by blast
qed

section \<open>What an admitted action has\<close>

lemma remaining_seconds_Inr:
  assumes "remaining_seconds wall monotonic cd = Inr (q, cd')"
  shows "cd_anchor cd' = cd_anchor cd \<and> cd_last_remaining cd' = q \<and> q \<le> cd_last_remaining cd
    \<and> (\<exists>w. wall = Aware w \<and> q \<le> durable_remaining (cd_anchor cd) w)"
  using assms by (auto simp: remaining_seconds_def Let_def bind_result_Inr_iff dest!: cycle_utc_Inr)

lemma durable_remaining_bound:
  assumes "q \<le> durable_remaining a w" "0 < q"
  shows "of_int w + q * 1000000 \<le> of_int (instant_of (da_deadline_at a))"
proof -
  have "q \<le> of_int (instant_of (da_deadline_at a) - w) / 1000000"
    using assms by (auto simp: durable_remaining_def max_def split: if_splits)
  then show ?thesis by (simp add: field_simps)
qed

text \<open>
  An admitted action of \<open>q\<close> seconds ends before the deadline, and a view never regains time, whatever
  the clocks show.
\<close>

lemma require_remaining_ok:
  assumes "require_remaining wall monotonic q action cd = (Inr (), cd')" "0 < q"
  shows "\<exists>w. wall = Aware w \<and> of_int w + q * 1000000 \<le> of_int (instant_of (da_deadline_at (cd_anchor cd)))"
proof -
  obtain r where "remaining_seconds wall monotonic cd = Inr (r, cd')" "q \<le> r"
    using assms(1) by (auto simp: require_remaining_def not_less split: sum.splits prod.splits if_splits)
  then obtain w where "wall = Aware w" "q \<le> durable_remaining (cd_anchor cd) w"
    using remaining_seconds_Inr by force
  then show ?thesis using durable_remaining_bound [OF _ assms(2)] by blast
qed

lemma require_remaining_view:
  "require_remaining wall monotonic q action cd = (r, cd') \<Longrightarrow>
     cd_anchor cd' = cd_anchor cd \<and> cd_last_remaining cd' \<le> cd_last_remaining cd"
  using remaining_seconds_Inr
  by (fastforce simp: require_remaining_def split: sum.splits prod.splits)

end
