(* ===== verification/Kma_Observation.thy ===== *)
theory Kma_Observation
  imports Kma_Source Kma_Deadline
begin

text \<open>
  The contract of the current observations (\<open>weather_ingest/kma_observation.py\<close>): slots, request
  parameters, the response, its result codes, and the normalised records.  The lemmas show that the
  records of an accepted response are one per required category, valid and of the requested slot and
  grid, whatever the order of the rows.

  \<open>ftext\<close> is \<open>float\<close> of a text; request texts are ASCII.
\<close>

section \<open>Categories\<close>

definition observation_source_id :: string where "observation_source_id = ''kma_ultra_srt_ncst''"
definition observation_source_api :: string where "observation_source_api = ''getUltraSrtNcst''"
definition default_kma_base_url :: string where
  "default_kma_base_url = ''https://apis.data.go.kr/1360000/VilageFcstInfoService_2.0''"

definition required_categories :: "string list" where
  "required_categories = [''PTY'', ''REH'', ''RN1'', ''T1H'', ''UUU'', ''VEC'', ''VVV'', ''WSD'']"

definition category_units :: "(string \<times> string) list" where
  "category_units =
     [(''T1H'', ''degC''), (''RN1'', ''mm''), (''UUU'', ''m/s''), (''VVV'', ''m/s''), (''REH'', ''percent''),
      (''PTY'', ''code''), (''VEC'', ''degree''), (''WSD'', ''m/s'')]"

definition allowed_pty_codes :: "int list" where
  "allowed_pty_codes = [0, 1, 2, 3, 5, 6, 7]"

section \<open>Integers and slots\<close>

definition is_whole :: "pyobj \<Rightarrow> bool" where
  "is_whole v = (case v of PFloat (Finite q) \<Rightarrow> of_int (truncate_rat q) = q | _ \<Rightarrow> True)"

definition observation_integer :: "pyexc \<Rightarrow> pyobj \<Rightarrow> int result" where
  "observation_integer e v =
     (case v of
        PBool _ \<Rightarrow> Inl e
      | _ \<Rightarrow> try_except (py_int v) (\<lambda>x. is_type_error x \<or> is_value_error x) (\<lambda>_. Inl e))"

definition obs_positive_integer :: "pyobj \<Rightarrow> string \<Rightarrow> int result" where
  "obs_positive_integer v field =
     (let e = WeatherInvalidWindowError (field @ '' must be a positive integer'')
      in bind_result (observation_integer e v) (\<lambda>i.
         if i < 1 \<or> \<not> is_whole v then Inl e
         else (case v of PStr s \<Rightarrow> if show_int i \<noteq> py_strip s then Inl e else Inr i | _ \<Rightarrow> Inr i)))"

definition obs_nonnegative_integer :: "pyobj \<Rightarrow> string \<Rightarrow> int result" where
  "obs_nonnegative_integer v field =
     (let e = WeatherInvalidWindowError (field @ '' must be a non-negative integer'')
      in bind_result (observation_integer e v) (\<lambda>i. if i < 0 \<or> \<not> is_whole v then Inl e else Inr i))"

fun hourly_points :: "nat list \<Rightarrow> bool" where
  "hourly_points [a, b, c, d] =
     (((ascii_digit 0 1 a \<and> digit_value b \<noteq> None) \<or> (ascii_digit 2 2 a \<and> ascii_digit 0 3 b)) \<and> c = 48 \<and> d = 48)"
| "hourly_points _ = False"

definition date_points :: "nat list \<Rightarrow> bool" where
  "date_points ps \<longleftrightarrow> length ps = 8 \<and> list_all (\<lambda>p. digit_value p \<noteq> None) ps"

definition normalize_observation_slot :: "pylib \<Rightarrow> pyobj \<Rightarrow> pyobj \<Rightarrow> (string \<times> string) result" where
  "normalize_observation_slot L base_date base_time =
     (let date = py_strip (str_or_empty L base_date); time = py_strip (str_or_empty L base_time)
      in if \<not> date_points (code_points date) \<or> \<not> hourly_points (code_points time)
         then Inl (WeatherInvalidWindowError ''KMA observation slot must be YYYYMMDD and hourly HH00'')
         else if kma_wall date time = None
         then Inl (WeatherInvalidWindowError ''KMA observation slot is not a valid datetime'')
         else Inr (date, time))"

text \<open>The wall-clock time in the zone \<open>Asia/Seoul\<close>, as an instant.\<close>

definition observation_slot_utc :: "pylib \<Rightarrow> pyobj \<Rightarrow> pyobj \<Rightarrow> int result" where
  "observation_slot_utc L base_date base_time =
     bind_result (normalize_observation_slot L base_date base_time) (\<lambda>(date, time).
     case kma_wall date time of
       None \<Rightarrow> Inl (ValueError ''time data does not match format'')
     | Some w \<Rightarrow> astimezone_utc (w - seoul_wall_offset L w))"

definition resolve_observation_slot :: "pylib \<Rightarrow> pydatetime \<Rightarrow> pyobj \<Rightarrow> (string \<times> string) result" where
  "resolve_observation_slot L now publish_delay_minutes =
     bind_result (obs_nonnegative_integer publish_delay_minutes ''publish_delay_minutes'') (\<lambda>delay.
     case now of
       Naive _ \<Rightarrow> Inl (WeatherInvalidWindowError ''now must be timezone-aware'')
     | Aware t \<Rightarrow>
         bind_result (astimezone_kst L t) (\<lambda>wall.
         bind_result (add_delta wall (- minutes delay)) (\<lambda>available.
         let slot = nat (available - available mod hours 1)
         in Inr (kst_date slot, kst_clock slot))))"

section \<open>Requests\<close>

definition observation_params ::
  "pylib \<Rightarrow> pyobj \<Rightarrow> pyobj \<Rightarrow> pyobj \<Rightarrow> pyobj \<Rightarrow> pyobj \<Rightarrow> pyobj \<Rightarrow> (string \<times> string) list result" where
  "observation_params L base_date base_time nx ny page_no num_of_rows =
     bind_result (normalize_observation_slot L base_date base_time) (\<lambda>(date, time).
     bind_result (obs_positive_integer nx ''nx'') (\<lambda>x.
     bind_result (obs_positive_integer ny ''ny'') (\<lambda>y.
     bind_result (obs_positive_integer page_no ''page_no'') (\<lambda>page.
     bind_result (obs_positive_integer num_of_rows ''num_of_rows'') (\<lambda>rows.
     Inr [(''base_date'', date), (''base_time'', time), (''dataType'', ''JSON''), (''numOfRows'', show_int rows),
          (''nx'', show_int x), (''ny'', show_int y), (''pageNo'', show_int page)])))))"

definition url_encode :: "(string \<times> string) list \<Rightarrow> string" where
  "url_encode ps = str_join ''&'' (map (\<lambda>(k, v). url_quote k @ ''='' @ url_quote v) ps)"

definition without_slashes :: "string \<Rightarrow> string" where
  "without_slashes s = rev (dropWhile (\<lambda>c. c = CHR ''/'') (rev s))"

definition build_kma_observation_url ::
  "pylib \<Rightarrow> (string \<Rightarrow> string option) \<Rightarrow> pyobj \<Rightarrow> pyobj \<Rightarrow> pyobj \<Rightarrow> pyobj \<Rightarrow> pyobj \<Rightarrow> pyobj \<Rightarrow> string \<Rightarrow> string result" where
  "build_kma_observation_url L env base_date base_time nx ny page_no num_of_rows base_url =
     bind_result (observation_params L base_date base_time nx ny page_no num_of_rows) (\<lambda>params.
     let configured = env_text env ''KMA_BASE_URL'' [];
         chosen = py_strip (if base_url \<noteq> [] then base_url else if configured \<noteq> [] then configured else default_kma_base_url)
     in if chosen = [] then Inl (WeatherInvalidWindowError ''KMA_BASE_URL must be a non-empty URL'')
        else Inr (without_slashes chosen @ ''/'' @ observation_source_api @ ''?'' @ url_encode params))"

definition request_metadata_json ::
  "pylib \<Rightarrow> pyobj \<Rightarrow> pyobj \<Rightarrow> pyobj \<Rightarrow> pyobj \<Rightarrow> pyobj \<Rightarrow> pyobj \<Rightarrow> string result" where
  "request_metadata_json L base_date base_time nx ny page_no num_of_rows =
     bind_result (observation_params L base_date base_time nx ny page_no num_of_rows) (\<lambda>params.
     bind_result (obs_positive_integer nx ''nx'') (\<lambda>x.
     bind_result (obs_positive_integer ny ''ny'') (\<lambda>y.
     Inr (render L (sort_keys (PDict
       (dict_set ''ny'' (PInt y) (dict_set ''nx'' (PInt x)
         ((''api'', PStr observation_source_api) # map (\<lambda>(k, v). (k, PStr v)) params)))))))))"

section \<open>Responses\<close>

definition response_integer :: "pyobj \<Rightarrow> string \<Rightarrow> int result" where
  "response_integer v field =
     (if v = PNone \<or> v = PStr [] \<or> (case v of PBool _ \<Rightarrow> True | _ \<Rightarrow> False)
      then Inl (WeatherSourceSchemaError (''KMA observation response is missing '' @ field))
      else bind_result
             (observation_integer (WeatherSourceSchemaError (''KMA observation '' @ field @ '' must be an integer'')) v) (\<lambda>i.
           if i < 0 \<or> \<not> is_whole v
           then Inl (WeatherSourceSchemaError (''KMA observation '' @ field @ '' must be non-negative'')) else Inr i))"

definition observation_text :: "pyobj pydict \<Rightarrow> string \<Rightarrow> string result" where
  "observation_text row field =
     (case dict_get field row of
        PStr s \<Rightarrow> if is_blank s then Inl (WeatherSourceSchemaError (''KMA observation item is missing required field: '' @ field))
                  else Inr (py_strip s)
      | _ \<Rightarrow> Inl (WeatherSourceSchemaError (''KMA observation item is missing required field: '' @ field)))"

fun is_window_error :: "pyexc \<Rightarrow> bool" where
  "is_window_error (WeatherInvalidWindowError _) = True"
| "is_window_error _ = False"

definition validate_raw_row :: "pylib \<Rightarrow> pyobj \<Rightarrow> pyobj pydict result" where
  "validate_raw_row L v =
     (case v of
        PDict row \<Rightarrow>
          bind_result (observation_text row ''baseDate'') (\<lambda>base_date.
          bind_result (observation_text row ''baseTime'') (\<lambda>base_time.
          bind_result (observation_text row ''category'') (\<lambda>_.
          let x = dict_get ''obsrValue'' row
          in if x = PNone \<or> (case x of PBool _ \<Rightarrow> True | _ \<Rightarrow> False) \<or> is_blank (py_str L x)
             then Inl (WeatherSourceSchemaError ''KMA observation item is missing required field: obsrValue'')
             else bind_result
                    (try_except (normalize_observation_slot L (PStr base_date) (PStr base_time)) is_window_error
                       (\<lambda>_. Inl (WeatherSourceSchemaError ''KMA observation item has invalid observation slot''))) (\<lambda>_.
                  bind_result
                    (traverse (\<lambda>f. try_except (obs_positive_integer (dict_get f row) f) is_window_error
                       (\<lambda>_. Inl (WeatherSourceSchemaError (''KMA observation item has invalid '' @ f)))) [''nx'', ''ny'']) (\<lambda>_.
                  Inr row)))))
      | _ \<Rightarrow> Inl (WeatherSourceSchemaError ''KMA observation item must be an object''))"

definition raise_for_result_code :: "string \<Rightarrow> unit result" where
  "raise_for_result_code code =
     (if code = ''00'' then Inr ()
      else if code = ''23'' then Inl (KmaObservationThrottleError code)
      else if code = ''22'' then Inl (KmaObservationDailyQuotaExhausted code)
      else if code \<in> {''20'', ''30'', ''31'', ''32''} then Inl (KmaObservationAuthenticationError code)
      else Inl (KmaObservationUnknownResultError code))"

definition observation_object :: "pyobj pydict \<Rightarrow> string \<Rightarrow> pyobj pydict result" where
  "observation_object d f =
     (case dict_get f d of PDict x \<Rightarrow> Inr x
      | _ \<Rightarrow> Inl (WeatherSourceSchemaError (''KMA observation '' @ f @ '' field must be an object'')))"

definition observation_code :: "pyobj \<Rightarrow> string result" where
  "observation_code v =
     (case v of
        PStr s \<Rightarrow> if is_blank s then Inl (WeatherSourceSchemaError ''KMA observation resultCode must be a non-empty string'')
                  else Inr (py_strip s)
      | _ \<Rightarrow> Inl (WeatherSourceSchemaError ''KMA observation resultCode must be a non-empty string''))"

text \<open>A key of a value that is not an object raises \<open>TypeError\<close>, a missing key \<open>KeyError\<close>; both are caught.\<close>

definition kma_observation_result_code :: "pylib \<Rightarrow> string \<Rightarrow> string result" where
  "kma_observation_result_code L raw =
     (let item = (\<lambda>v k. case v of PDict d \<Rightarrow> map_of d k | _ \<Rightarrow> None)
      in case Option.bind (json_loads L raw) (\<lambda>payload.
              Option.bind (item payload ''response'') (\<lambda>response.
              Option.bind (item response ''header'') (\<lambda>header. item header ''resultCode''))) of
           None \<Rightarrow> Inl (WeatherSourceSchemaError ''KMA observation response header is not valid UTF-8 JSON'')
         | Some v \<Rightarrow> observation_code v)"

definition observation_rows :: "pyobj \<Rightarrow> pyobj list result" where
  "observation_rows node =
     bind_result
       (case node of
          PDict d \<Rightarrow> Inr [PDict d]
        | PList xs \<Rightarrow> Inr xs
        | _ \<Rightarrow> Inl (WeatherSourceSchemaError ''KMA observation items.item must be an object or list'')) (\<lambda>rows.
     if rows = [] then Inl (WeatherSourceSchemaError ''KMA observation response contains no rows'') else Inr rows)"

record observation_metadata =
  om_result_code :: string
  om_total_count :: int
  om_row_count :: nat

definition parse_kma_observation_response ::
  "pylib \<Rightarrow> string \<Rightarrow> (observation_metadata \<times> pyobj list) result" where
  "parse_kma_observation_response L raw =
     bind_result
       (case json_loads L raw of
          None \<Rightarrow> Inl (WeatherSourceSchemaError ''KMA observation response is not valid UTF-8 JSON'')
        | Some (PDict p) \<Rightarrow> Inr p
        | Some _ \<Rightarrow> Inl (WeatherSourceSchemaError ''KMA observation JSON root must be an object'')) (\<lambda>payload.
     bind_result (observation_object payload ''response'') (\<lambda>response.
     bind_result (observation_object response ''header'') (\<lambda>header.
     bind_result (observation_code (dict_get ''resultCode'' header)) (\<lambda>code.
     bind_result (raise_for_result_code code) (\<lambda>_.
     bind_result (observation_object response ''body'') (\<lambda>body.
     bind_result (response_integer (dict_get ''totalCount'' body) ''totalCount'') (\<lambda>reported.
     bind_result (observation_object body ''items'') (\<lambda>items.
     bind_result (observation_rows (dict_get ''item'' items)) (\<lambda>rows.
     bind_result (traverse (validate_raw_row L) rows) (\<lambda>_.
     if reported \<noteq> int (length rows)
     then Inl (WeatherSourceSchemaError ''KMA observation totalCount does not equal the returned row count'')
     else Inr (\<lparr>om_result_code = code, om_total_count = reported, om_row_count = length rows\<rparr>, rows)))))))))))"

section \<open>Values and records\<close>

definition value_rule :: "string \<Rightarrow> rat \<Rightarrow> pyobj result" where
  "value_rule category q =
     (if category = ''PTY''
      then if of_int (truncate_rat q) \<noteq> q \<or> truncate_rat q \<notin> set allowed_pty_codes
           then Inl (WeatherSourceSchemaError ''KMA observation PTY code is invalid'')
           else Inr (PInt (truncate_rat q))
      else if category \<in> {''RN1'', ''WSD''} \<and> q < 0
      then Inl (WeatherSourceSchemaError (''KMA observation '' @ category @ '' cannot be negative''))
      else if category = ''REH'' \<and> \<not> (0 \<le> q \<and> q \<le> 100)
      then Inl (WeatherSourceSchemaError ''KMA observation REH must be between 0 and 100'')
      else if category = ''VEC'' \<and> \<not> (0 \<le> q \<and> q \<le> 360)
      then Inl (WeatherSourceSchemaError ''KMA observation VEC must be between 0 and 360'')
      else Inr (PFloat (Finite q)))"

definition finite_value :: "pylib \<Rightarrow> (string \<Rightarrow> pyfloat option) \<Rightarrow> string \<Rightarrow> pyobj \<Rightarrow> pyobj result" where
  "finite_value L ftext category v =
     (if v = PNone \<or> (case v of PBool _ \<Rightarrow> True | _ \<Rightarrow> False)
      then Inl (WeatherSourceSchemaError (''KMA observation '' @ category @ '' value is missing''))
      else let rendered = py_strip (py_str L v)
        in if rendered \<in> {[], ''-'', ''--'', ''null'', ''None''}
           then Inl (WeatherSourceSchemaError (''KMA observation '' @ category @ '' value is a sentinel''))
           else (case ftext rendered of
               None \<Rightarrow> Inl (WeatherSourceSchemaError (''KMA observation '' @ category @ '' value must be numeric''))
             | Some (Finite q) \<Rightarrow> value_rule category q
             | Some _ \<Rightarrow> Inl (WeatherSourceSchemaError (''KMA observation '' @ category @ '' value must be finite''))))"

record observation_record =
  ob_source_id :: string
  ob_grid_id :: string
  ob_nx :: int
  ob_ny :: int
  ob_observed_at :: int
  ob_category :: string
  ob_value :: pyobj
  ob_unit :: string
  ob_collected_at :: int
  ob_payload_sha256 :: string
  ob_source_revision :: string

definition sha256_text :: "string \<Rightarrow> bool" where
  "sha256_text s \<longleftrightarrow> length s = 64 \<and> list_all (\<lambda>c. in_range_char 48 57 c \<or> in_range_char 97 102 c) s"

definition grid_id_of :: "int \<Rightarrow> int \<Rightarrow> string" where
  "grid_id_of nx ny = ''kma_'' @ show_int nx @ ''_'' @ show_int ny"

text \<open>\<open>__post_init__\<close> on integers, aware times and texts: the value is checked again.\<close>

definition observation_record_init ::
  "pylib \<Rightarrow> (string \<Rightarrow> pyfloat option) \<Rightarrow> observation_record \<Rightarrow> observation_record result" where
  "observation_record_init L ftext r =
     (if ob_source_id r \<noteq> observation_source_id
      then Inl (WeatherSourceSchemaError ''KMA observation source_id is invalid'')
      else if ob_nx r < 1 \<or> ob_ny r < 1 \<or> ob_grid_id r \<noteq> grid_id_of (ob_nx r) (ob_ny r)
      then Inl (WeatherSourceSchemaError ''KMA observation grid identity is invalid'')
      else if ob_category r \<notin> set required_categories
      then Inl (WeatherSourceSchemaError ''KMA observation category is not versioned'')
      else if map_of category_units (ob_category r) \<noteq> Some (ob_unit r)
      then Inl (WeatherSourceSchemaError ''KMA observation category unit is invalid'')
      else bind_result (finite_value L ftext (ob_category r) (ob_value r)) (\<lambda>v.
           bind_result (astimezone_utc (ob_observed_at r)) (\<lambda>observed.
           bind_result (astimezone_utc (ob_collected_at r)) (\<lambda>collected.
           if collected < observed
           then Inl (WeatherSourceSchemaError ''KMA observation collected_at precedes observed_at'')
           else if \<not> sha256_text (ob_payload_sha256 r)
           then Inl (WeatherSourceSchemaError ''KMA observation payload_sha256 is invalid'')
           else if ob_source_revision r \<noteq> observation_source_id @ '':'' @ ob_payload_sha256 r
           then Inl (WeatherSourceSchemaError ''KMA observation source_revision is invalid'')
           else Inr (r\<lparr>ob_value := v, ob_observed_at := observed, ob_collected_at := collected\<rparr>)))))"

text \<open>One row of the loop: the values seen so far, by category.\<close>

definition observe_row ::
  "pylib \<Rightarrow> (string \<Rightarrow> pyfloat option) \<Rightarrow> string \<Rightarrow> string \<Rightarrow> int \<Rightarrow> int \<Rightarrow> pyobj
     \<Rightarrow> (string \<times> pyobj) list \<Rightarrow> (string \<times> pyobj) list result" where
  "observe_row L ftext date time nx ny v seen =
     bind_result (validate_raw_row L v) (\<lambda>row.
     bind_result (py_int (dict_get ''nx'' row)) (\<lambda>x.
     bind_result (py_int (dict_get ''ny'' row)) (\<lambda>y.
     if (py_str L (dict_get ''baseDate'' row), py_str L (dict_get ''baseTime'' row), x, y) \<noteq> (date, time, nx, ny)
     then Inl (WeatherSourceSchemaError ''KMA observation item response context mismatch'')
     else let category = py_strip (py_str L (dict_get ''category'' row))
       in if category \<notin> set required_categories
          then Inl (WeatherSourceSchemaError (''KMA observation category is not versioned: '' @ category))
          else if category \<in> fst ` set seen
          then Inl (WeatherSourceSchemaError (''KMA observation category is duplicated: '' @ category))
          else bind_result (finite_value L ftext category (dict_get ''obsrValue'' row)) (\<lambda>value.
               Inr (seen @ [(category, value)])))))"

definition observation_record_of ::
  "pylib \<Rightarrow> (string \<Rightarrow> pyfloat option) \<Rightarrow> (string \<times> pyobj) list \<Rightarrow> int \<Rightarrow> int \<Rightarrow> int \<Rightarrow> int \<Rightarrow> string \<Rightarrow> string
     \<Rightarrow> observation_record result" where
  "observation_record_of L ftext seen nx ny observed collected sha category =
     observation_record_init L ftext
       \<lparr>ob_source_id = observation_source_id, ob_grid_id = grid_id_of nx ny, ob_nx = nx, ob_ny = ny,
        ob_observed_at = observed, ob_category = category, ob_value = the (map_of seen category),
        ob_unit = the (map_of category_units category), ob_collected_at = collected, ob_payload_sha256 = sha,
        ob_source_revision = observation_source_id @ '':'' @ sha\<rparr>"

definition normalize_kma_observation_rows ::
  "pylib \<Rightarrow> (string \<Rightarrow> pyfloat option) \<Rightarrow> pyobj \<Rightarrow> pyobj \<Rightarrow> pyobj \<Rightarrow> pyobj \<Rightarrow> pydatetime \<Rightarrow> string \<Rightarrow> pyobj list
     \<Rightarrow> observation_record list result" where
  "normalize_kma_observation_rows L ftext base_date base_time nx ny collected_at sha rows =
     bind_result (normalize_observation_slot L base_date base_time) (\<lambda>(date, time).
     bind_result (obs_positive_integer nx ''nx'') (\<lambda>x.
     bind_result (obs_positive_integer ny ''ny'') (\<lambda>y.
     case collected_at of
       Naive _ \<Rightarrow> Inl (WeatherSourceSchemaError ''KMA observation collected_at must be timezone-aware'')
     | Aware t \<Rightarrow>
         bind_result (astimezone_utc t) (\<lambda>collected.
         if \<not> sha256_text sha then Inl (WeatherSourceSchemaError ''KMA observation payload_sha256 is invalid'')
         else bind_result (observation_slot_utc L (PStr date) (PStr time)) (\<lambda>observed.
              bind_result (fold_result (observe_row L ftext date time x y) rows []) (\<lambda>seen.
              if \<not> set required_categories \<subseteq> fst ` set seen
              then Inl (WeatherSourceSchemaError ''KMA observation response is missing required categories'')
              else traverse (observation_record_of L ftext seen x y observed collected sha) required_categories))))))"

definition parse_and_normalize_kma_observation ::
  "pylib \<Rightarrow> (string \<Rightarrow> pyfloat option) \<Rightarrow> pyobj \<Rightarrow> pyobj \<Rightarrow> pyobj \<Rightarrow> pyobj \<Rightarrow> pydatetime \<Rightarrow> string
     \<Rightarrow> ((observation_metadata \<times> string) \<times> observation_record list) result" where
  "parse_and_normalize_kma_observation L ftext base_date base_time nx ny collected_at raw =
     bind_result (parse_kma_observation_response L raw) (\<lambda>(meta, rows).
     let sha = sha256_hex L raw
     in bind_result (normalize_kma_observation_rows L ftext base_date base_time nx ny collected_at sha rows) (\<lambda>records.
        Inr ((meta, sha), records)))"

definition observation_call_budget :: "pyobj \<Rightarrow> pyobj \<Rightarrow> pyobj \<Rightarrow> (string \<times> int) list result" where
  "observation_call_budget grid_count observation_slots_per_day forecast_slots_per_day =
     bind_result (obs_positive_integer grid_count ''grid_count'') (\<lambda>grids.
     bind_result (obs_positive_integer observation_slots_per_day ''observation_slots_per_day'') (\<lambda>observations.
     bind_result (obs_positive_integer forecast_slots_per_day ''forecast_slots_per_day'') (\<lambda>forecasts.
     Inr [(''observation_calls_per_day'', grids * observations), (''forecast_calls_per_day'', grids * forecasts),
          (''combined_calls_per_day'', grids * observations + grids * forecasts)])))"

section \<open>What the records of a response are\<close>

text \<open>A row by itself: the category and the value it contributes.\<close>

definition row_observation ::
  "pylib \<Rightarrow> (string \<Rightarrow> pyfloat option) \<Rightarrow> string \<Rightarrow> string \<Rightarrow> int \<Rightarrow> int \<Rightarrow> pyobj \<Rightarrow> (string \<times> pyobj) result" where
  "row_observation L ftext date time nx ny v =
     bind_result (observe_row L ftext date time nx ny v []) (\<lambda>s. Inr (hd s))"

lemma observe_row_Inr:
  "observe_row L ftext date time nx ny v seen = Inr s \<longleftrightarrow>
     (\<exists>p. row_observation L ftext date time nx ny v = Inr p \<and> fst p \<notin> fst ` set seen \<and> s = seen @ [p])"
proof -
  have "observe_row L ftext date time nx ny v seen = Inr s \<longleftrightarrow>
     (\<exists>c w. observe_row L ftext date time nx ny v [] = Inr [(c, w)] \<and> c \<notin> fst ` set seen \<and> s = seen @ [(c, w)])"
    unfolding observe_row_def Let_def bind_result_Inr_iff by (auto simp: bind_result_Inr_iff split: if_splits)
  moreover have "\<exists>c w. s = [(c, w)]" if "observe_row L ftext date time nx ny v [] = Inr s" for s
    using that unfolding observe_row_def Let_def bind_result_Inr_iff by (auto simp: bind_result_Inr_iff split: if_splits)
  ultimately show ?thesis by (fastforce simp: row_observation_def bind_result_Inr_iff)
qed

lemma fold_observe_rows:
  "distinct (map fst seen) \<Longrightarrow>
   fold_result (observe_row L ftext date time nx ny) rows seen = Inr s \<longleftrightarrow>
     (\<exists>ps. traverse (row_observation L ftext date time nx ny) rows = Inr ps \<and> distinct (map fst (seen @ ps))
        \<and> s = seen @ ps)"
proof (induction rows arbitrary: seen)
  case Nil
  then show ?case by auto
next
  case (Cons v rows)
  let ?obs = "row_observation L ftext date time nx ny"
  show ?case
  proof (cases "\<exists>p. ?obs v = Inr p \<and> fst p \<notin> fst ` set seen")
    case True
    then obtain p where p: "?obs v = Inr p" "fst p \<notin> fst ` set seen" by blast
    then have step: "observe_row L ftext date time nx ny v seen = Inr (seen @ [p])" by (simp add: observe_row_Inr)
    have "distinct (map fst (seen @ [p]))" using Cons.prems p(2) by auto
    from Cons.IH [OF this] show ?thesis by (auto simp: step p(1) split: sum.splits)
  next
    case False
    then have "observe_row L ftext date time nx ny v seen \<noteq> Inr t" for t
      unfolding observe_row_Inr by blast
    then obtain e where e: "observe_row L ftext date time nx ny v seen = Inl e"
      by (cases "observe_row L ftext date time nx ny v seen") auto
    have "\<not> (\<exists>ps. traverse ?obs (v # rows) = Inr ps \<and> distinct (map fst (seen @ ps)))"
      using False by (auto split: sum.splits)
    with e show ?thesis by auto
  qed
qed

lemma row_observation_Inr:
  assumes "row_observation L ftext date time nx ny v = Inr (c, w)"
  shows "\<exists>row. v = PDict row \<and> py_str L (dict_get ''baseDate'' row) = date \<and> py_str L (dict_get ''baseTime'' row) = time
    \<and> py_int (dict_get ''nx'' row) = Inr nx \<and> py_int (dict_get ''ny'' row) = Inr ny
    \<and> c = py_strip (py_str L (dict_get ''category'' row)) \<and> c \<in> set required_categories
    \<and> finite_value L ftext c (dict_get ''obsrValue'' row) = Inr w"
proof -
  have row: "\<exists>row. v = PDict row \<and> row' = row" if "validate_raw_row L v = Inr row'" for row'
    using that unfolding validate_raw_row_def Let_def
    by (cases v) (auto simp: bind_result_Inr_iff simp del: traverse.simps split: if_splits)
  show ?thesis
    using assms unfolding row_observation_def observe_row_def Let_def bind_result_Inr_iff
    by (auto simp: bind_result_Inr_iff split: if_splits dest!: row)
qed

text \<open>The values a record may have, by category.\<close>

definition valid_value :: "string \<Rightarrow> pyobj \<Rightarrow> bool" where
  "valid_value category v \<longleftrightarrow>
     (if category = ''PTY'' then \<exists>i. v = PInt i \<and> i \<in> set allowed_pty_codes
      else \<exists>q. v = PFloat (Finite q) \<and> (category \<in> {''RN1'', ''WSD''} \<longrightarrow> 0 \<le> q)
        \<and> (category = ''REH'' \<longrightarrow> 0 \<le> q \<and> q \<le> 100) \<and> (category = ''VEC'' \<longrightarrow> 0 \<le> q \<and> q \<le> 360))"

lemma value_rule_valid: "value_rule c q = Inr v \<Longrightarrow> valid_value c v"
  unfolding value_rule_def valid_value_def by (auto split: if_splits)

lemma finite_value_valid: "finite_value L ftext c v = Inr w \<Longrightarrow> valid_value c w"
  using value_rule_valid
  by (auto simp: finite_value_def Let_def split: if_splits option.splits pyfloat.splits)

lemma observation_record_of_Inr:
  assumes "observation_record_of L ftext seen nx ny observed collected sha c = Inr r"
  shows "ob_category r = c \<and> ob_nx r = nx \<and> ob_ny r = ny \<and> ob_grid_id r = grid_id_of nx ny
    \<and> ob_source_id r = observation_source_id \<and> map_of category_units c = Some (ob_unit r)
    \<and> ob_observed_at r = observed \<and> ob_collected_at r = collected \<and> observed \<le> collected
    \<and> ob_payload_sha256 r = sha \<and> finite_value L ftext c (the (map_of seen c)) = Inr (ob_value r)"
  using assms unfolding observation_record_of_def observation_record_init_def
  by (auto simp: bind_result_Inr_iff astimezone_utc_Inr_iff split: if_splits)

lemma observation_record_of_cong:
  "map_of seen c = map_of seen' c \<Longrightarrow>
     observation_record_of L ftext seen nx ny observed collected sha c
       = observation_record_of L ftext seen' nx ny observed collected sha c"
  by (simp add: observation_record_of_def)

text \<open>The parts of a successful normalisation.\<close>

lemma normalize_Inr:
  assumes "normalize_kma_observation_rows L ftext bd bt nx ny at_time sha rows = Inr records"
  obtains date time x y collected observed ps where
    "normalize_observation_slot L bd bt = Inr (date, time)" "obs_positive_integer nx ''nx'' = Inr x"
    "obs_positive_integer ny ''ny'' = Inr y" "at_time = Aware collected" "sha256_text sha" "in_range collected"
    "observation_slot_utc L (PStr date) (PStr time) = Inr observed"
    "traverse (row_observation L ftext date time x y) rows = Inr ps" "distinct (map fst ps)"
    "set required_categories \<subseteq> fst ` set ps"
    "traverse (observation_record_of L ftext ps x y observed collected sha) required_categories = Inr records"
proof (cases at_time)
  case (Aware t)
  with assms that show thesis unfolding normalize_kma_observation_rows_def
    by (auto simp: bind_result_Inr_iff astimezone_utc_Inr_iff fold_observe_rows split: if_splits)
qed (use assms in \<open>auto simp: normalize_kma_observation_rows_def bind_result_Inr_iff\<close>)

lemma normalized_categories:
  assumes "traverse (row_observation L ftext date time x y) rows = Inr ps" "distinct (map fst ps)"
    and "set required_categories \<subseteq> fst ` set ps"
  shows "fst ` set ps = set required_categories \<and> length rows = length required_categories"
proof -
  have "c \<in> set required_categories" if cw: "(c, w) \<in> set ps" for c w
  proof -
    obtain v where "row_observation L ftext date time x y v = Inr (c, w)"
      using traverse_set [OF assms(1) cw] by blast
    from row_observation_Inr [OF this] show ?thesis by blast
  qed
  then have keys: "fst ` set ps = set required_categories" using assms(3) by auto
  have "length rows = length (map fst ps)" using traverse_length [OF assms(1)] by simp
  also have "\<dots> = card (fst ` set ps)" using distinct_card [OF assms(2)] by simp
  also have "\<dots> = length required_categories" unfolding keys by (rule distinct_card) (simp add: required_categories_def)
  finally show ?thesis using keys by simp
qed

text \<open>A record comes from the row of its category.\<close>

lemma record_of_its_row:
  assumes rows: "traverse (row_observation L ftext date time x y) rows = Inr ps" "distinct (map fst ps)"
    and c: "c \<in> fst ` set ps" and rec: "observation_record_of L ftext ps x y observed collected sha c = Inr r"
  shows "ob_category r = c \<and> valid_value c (ob_value r) \<and> ob_nx r = x \<and> ob_ny r = y \<and> ob_grid_id r = grid_id_of x y
    \<and> ob_payload_sha256 r = sha
    \<and> ob_observed_at r = observed \<and> ob_collected_at r = collected \<and> observed \<le> collected
    \<and> (\<exists>row w. PDict row \<in> set rows \<and> py_strip (py_str L (dict_get ''category'' row)) = c
        \<and> py_str L (dict_get ''baseDate'' row) = date \<and> py_str L (dict_get ''baseTime'' row) = time
        \<and> py_int (dict_get ''nx'' row) = Inr x \<and> py_int (dict_get ''ny'' row) = Inr y
        \<and> finite_value L ftext c (dict_get ''obsrValue'' row) = Inr w \<and> finite_value L ftext c w = Inr (ob_value r))"
proof -
  note facts = observation_record_of_Inr [OF rec]
  obtain w where w: "(c, w) \<in> set ps" using c by force
  then have "the (map_of ps c) = w" using rows(2) by simp
  with facts have fv: "finite_value L ftext c w = Inr (ob_value r)" by simp
  obtain v where v: "v \<in> set rows" "row_observation L ftext date time x y v = Inr (c, w)"
    using traverse_set [OF rows(1) w] by blast
  from row_observation_Inr [OF v(2)] obtain row where row: "v = PDict row"
    "py_str L (dict_get ''baseDate'' row) = date" "py_str L (dict_get ''baseTime'' row) = time"
    "py_int (dict_get ''nx'' row) = Inr x" "py_int (dict_get ''ny'' row) = Inr y"
    "c = py_strip (py_str L (dict_get ''category'' row))"
    "finite_value L ftext c (dict_get ''obsrValue'' row) = Inr w" by (elim exE conjE) (rule that)
  have "PDict row \<in> set rows" using v(1) row(1) by simp
  then show ?thesis using facts finite_value_valid [OF fv] fv row(2-5,7) row(6) [symmetric] by blast
qed

lemma obs_positive_integer_Inr: "obs_positive_integer v field = Inr i \<Longrightarrow> py_int v = Inr i \<and> 1 \<le> i"
  by (cases v) (auto simp: obs_positive_integer_def observation_integer_def Let_def bind_result_Inr_iff try_except_def
      split: sum.splits if_splits)

text \<open>The unit of a category is the entry of the table of units.\<close>

lemma observation_units:
  assumes "traverse (observation_record_of L ftext seen nx ny observed collected sha) required_categories = Inr records"
  shows "map ob_unit records = [''code'', ''percent'', ''mm'', ''degC'', ''m/s'', ''degree'', ''m/s'', ''m/s'']"
proof -
  have "map (\<lambda>r. Some (ob_unit r)) records = map (map_of category_units) required_categories"
  proof -
    have "list_all2 (\<lambda>c r. map_of category_units c = Some (ob_unit r)) required_categories records"
      using assms unfolding traverse_Inr_iff by (rule list.rel_mono_strong) (use observation_record_of_Inr in blast)
    then show ?thesis by (induction rule: list_all2_induct) simp_all
  qed
  then have "map Some (map ob_unit records)
      = map Some [''code'', ''percent'', ''mm'', ''degC'', ''m/s'', ''degree'', ''m/s'', ''m/s'']"
    by (simp add: required_categories_def category_units_def comp_def)
  then show ?thesis by (simp only: inj_map_eq_map inj_Some)
qed

text \<open>
  C32: An accepted set of rows has one row for each of the eight required categories and gives one record
  for each, in a fixed order and with the unit of its category.  Each record carries a value its category
  allows, read from the row of its category, the requested grid, the digest of the payload and the requested
  slot; every one of these rows names that slot and that grid.  The observation does not come after its
  collection.
\<close>

theorem observation_is_complete:
  assumes "normalize_kma_observation_rows L ftext bd bt nx ny at_time sha rows = Inr records"
  shows "map ob_category records = required_categories \<and> length rows = length required_categories
    \<and> map ob_unit records = [''code'', ''percent'', ''mm'', ''degC'', ''m/s'', ''degree'', ''m/s'', ''m/s'']
    \<and> (\<exists>date time x y observed collected.
        normalize_observation_slot L bd bt = Inr (date, time) \<and> observation_slot_utc L (PStr date) (PStr time) = Inr observed
      \<and> py_int nx = Inr x \<and> py_int ny = Inr y \<and> 1 \<le> x \<and> 1 \<le> y
      \<and> at_time = Aware collected \<and> observed \<le> collected
      \<and> (\<forall>r\<in>set records. valid_value (ob_category r) (ob_value r)
          \<and> ob_nx r = x \<and> ob_ny r = y \<and> ob_grid_id r = grid_id_of x y \<and> ob_payload_sha256 r = sha
          \<and> ob_observed_at r = observed \<and> ob_collected_at r = collected
          \<and> (\<exists>row w. PDict row \<in> set rows \<and> py_strip (py_str L (dict_get ''category'' row)) = ob_category r
              \<and> py_str L (dict_get ''baseDate'' row) = date \<and> py_str L (dict_get ''baseTime'' row) = time
              \<and> py_int (dict_get ''nx'' row) = Inr x \<and> py_int (dict_get ''ny'' row) = Inr y
              \<and> finite_value L ftext (ob_category r) (dict_get ''obsrValue'' row) = Inr w
              \<and> finite_value L ftext (ob_category r) w = Inr (ob_value r))))"
  using assms
proof (rule normalize_Inr)
  fix date time x y collected observed ps
  assume parts: "normalize_observation_slot L bd bt = Inr (date, time)" "obs_positive_integer nx ''nx'' = Inr x"
    "obs_positive_integer ny ''ny'' = Inr y" "at_time = Aware collected" "sha256_text sha" "in_range collected"
    "observation_slot_utc L (PStr date) (PStr time) = Inr observed"
    "traverse (row_observation L ftext date time x y) rows = Inr ps" "distinct (map fst ps)"
    "set required_categories \<subseteq> fst ` set ps"
    "traverse (observation_record_of L ftext ps x y observed collected sha) required_categories = Inr records"
  let ?rec = "observation_record_of L ftext ps x y observed collected sha"
  have keys: "fst ` set ps = set required_categories" "length rows = length required_categories"
    using normalized_categories [OF parts(8-10)] by auto
  have records: "list_all2 (\<lambda>c r. ?rec c = Inr r) required_categories records"
    using parts(11) by (simp add: traverse_Inr_iff)
  have "map ob_category records = map id required_categories"
    by (rule traverse_map_inverse [OF parts(11)]) (use observation_record_of_Inr in force)
  moreover have each: "valid_value (ob_category r) (ob_value r)
      \<and> ob_nx r = x \<and> ob_ny r = y \<and> ob_grid_id r = grid_id_of x y \<and> ob_payload_sha256 r = sha
      \<and> ob_observed_at r = observed \<and> ob_collected_at r = collected \<and> observed \<le> collected
      \<and> (\<exists>row w. PDict row \<in> set rows \<and> py_strip (py_str L (dict_get ''category'' row)) = ob_category r
          \<and> py_str L (dict_get ''baseDate'' row) = date \<and> py_str L (dict_get ''baseTime'' row) = time
          \<and> py_int (dict_get ''nx'' row) = Inr x \<and> py_int (dict_get ''ny'' row) = Inr y
          \<and> finite_value L ftext (ob_category r) (dict_get ''obsrValue'' row) = Inr w
          \<and> finite_value L ftext (ob_category r) w = Inr (ob_value r))" if r: "r \<in> set records" for r
  proof -
    obtain c where "c \<in> set required_categories" "?rec c = Inr r" using traverse_set [OF parts(11) r] by blast
    from record_of_its_row [OF parts(8,9) _ this(2)] this(1) keys(1) show ?thesis by simp
  qed
  moreover have "records \<noteq> []" using records by (auto simp: required_categories_def)
  then have "observed \<le> collected" using each [of "hd records"] by simp
  moreover note observation_units [OF parts(11)] obs_positive_integer_Inr [OF parts(2)] obs_positive_integer_Inr [OF parts(3)]
  ultimately show ?thesis using parts(1,4,7) keys(2) by (simp only: list.map_id) blast
qed

text \<open>
  The order of the rows does not matter: any arrangement of an accepted set of rows is accepted, with
  the same records.
\<close>

lemma observation_ignores_row_order:
  assumes "normalize_kma_observation_rows L ftext bd bt nx ny at_time sha rows = Inr records"
    and "mset rows' = mset rows"
  shows "normalize_kma_observation_rows L ftext bd bt nx ny at_time sha rows' = Inr records"
  using assms(1)
proof (rule normalize_Inr)
  fix date time x y collected observed ps
  assume parts: "normalize_observation_slot L bd bt = Inr (date, time)" "obs_positive_integer nx ''nx'' = Inr x"
    "obs_positive_integer ny ''ny'' = Inr y" "at_time = Aware collected" "sha256_text sha" "in_range collected"
    "observation_slot_utc L (PStr date) (PStr time) = Inr observed"
    "traverse (row_observation L ftext date time x y) rows = Inr ps" "distinct (map fst ps)"
    "set required_categories \<subseteq> fst ` set ps"
    "traverse (observation_record_of L ftext ps x y observed collected sha) required_categories = Inr records"
  obtain qs where qs: "traverse (row_observation L ftext date time x y) rows' = Inr qs" "mset qs = mset ps"
    using traverse_mset [OF assms(2) [symmetric] parts(8)] by blast
  then have same: "set qs = set ps" "distinct (map fst qs)"
    using mset_eq_setD [OF qs(2)] parts(9) mset_eq_imp_distinct_iff [of "map fst qs" "map fst ps"] by simp_all
  then have "map_of qs = map_of ps" using map_of_inject_set [OF same(2) parts(9)] by simp
  then have "observation_record_of L ftext qs x y observed collected sha
      = observation_record_of L ftext ps x y observed collected sha"
    by (intro ext observation_record_of_cong) simp
  moreover have "fold_result (observe_row L ftext date time x y) rows' [] = Inr qs"
    using fold_observe_rows [of "[]" L ftext date time x y rows' qs] qs(1) same(2) by simp
  ultimately show ?thesis
    using parts same(1) by (simp add: normalize_kma_observation_rows_def astimezone_utc_def checked_instant_def)
qed

definition demo_obs_row :: "string \<Rightarrow> pyobj pydict" where
  "demo_obs_row c =
     [(''baseDate'', PStr ''20251129''), (''baseTime'', PStr ''0500''), (''category'', PStr c),
      (''obsrValue'', PStr ''1''), (''nx'', PInt 60), (''ny'', PInt 127)]"

definition demo_sha :: string where "demo_sha = replicate 64 CHR ''0''"

lemma demo_wall: "kma_wall ''20251129'' ''0500'' = Some 63899989200000000"
proof -
  have "civil 739583 = (2025, 11, 29)"
    by (simp add: civil_def year_day_def Let_def month_lengths_def is_leap_def)
  then have "day_number 2025 11 29 = 739583" by (rule civil_correct(1))
  moreover have "strptime_day (code_points ''20251129'') = Some (2025, 11, 29)"
    unfolding demo_row_points by (rule strptime_day_digits) (simp_all add: month_lengths_def)
  moreover have "strptime_clock (code_points ''0500'') = Some (5, 0)"
    unfolding demo_row_points by (rule strptime_clock_digits) simp_all
  ultimately show ?thesis by (simp add: kma_wall_def us_per_day_def us_per_hour_def)
qed

lemma demo_observation_slot: "normalize_observation_slot L (PStr ''20251129'') (PStr ''0500'') = Inr (''20251129'', ''0500'')"
proof -
  have "date_points (code_points ''20251129'')"
    using digit_value_ascii [of 0] digit_value_ascii [of 1] digit_value_ascii [of 2] digit_value_ascii [of 5]
      digit_value_ascii [of 9]
    by (simp add: code_points_ascii date_points_def)
  moreover have "hourly_points (code_points ''0500'')"
    using digit_value_ascii [of 5] by (simp add: code_points_ascii ascii_digit_def)
  ultimately show ?thesis by (simp add: normalize_observation_slot_def demo_row_text demo_wall)
qed

lemma demo_category_text: "c \<in> set required_categories \<Longrightarrow> py_strip c = c \<and> \<not> is_blank c"
  by (rule graphic_all) (auto simp: required_categories_def graphic_def)

lemma demo_one_text: "py_strip ''1'' = ''1'' \<and> \<not> is_blank ''1''"
  by (rule graphic_all) (simp_all add: graphic_def)

lemma demo_finite_value:
  assumes "c \<in> set required_categories" "py_strip (py_str L v) = s" "s \<notin> {[], ''-'', ''--'', ''null'', ''None''}"
    "v \<noteq> PNone" "case v of PBool _ \<Rightarrow> False | _ \<Rightarrow> True"
  shows "finite_value L (\<lambda>_. Some (Finite 1)) c v = Inr (if c = ''PTY'' then PInt 1 else PFloat (Finite 1))"
proof -
  have "value_rule c 1 = Inr (if c = ''PTY'' then PInt 1 else PFloat (Finite 1))"
    by (simp add: value_rule_def truncate_rat_def allowed_pty_codes_def)
  with assms show ?thesis by (cases v) (auto simp: finite_value_def Let_def)
qed

lemma demo_row_fields:
  "dict_get ''baseDate'' (demo_obs_row c) = PStr ''20251129''" "dict_get ''baseTime'' (demo_obs_row c) = PStr ''0500''"
  "dict_get ''category'' (demo_obs_row c) = PStr c" "dict_get ''obsrValue'' (demo_obs_row c) = PStr ''1''"
  "dict_get ''nx'' (demo_obs_row c) = PInt 60" "dict_get ''ny'' (demo_obs_row c) = PInt 127"
  by (simp_all add: demo_obs_row_def dict_get_def)

lemma demo_row_validates:
  "c \<in> set required_categories \<Longrightarrow> validate_raw_row L (PDict (demo_obs_row c)) = Inr (demo_obs_row c)"
  by (simp add: validate_raw_row_def observation_text_def demo_row_fields demo_row_text demo_category_text
      demo_one_text demo_observation_slot py_str_def obs_positive_integer_def observation_integer_def py_int_def is_whole_def)

lemma demo_row_observed:
  assumes "c \<in> set required_categories"
  shows "row_observation L (\<lambda>_. Some (Finite 1)) ''20251129'' ''0500'' 60 127 (PDict (demo_obs_row c))
    = Inr (c, if c = ''PTY'' then PInt 1 else PFloat (Finite 1))"
proof -
  have "finite_value L (\<lambda>_. Some (Finite 1)) c (PStr ''1'') = Inr (if c = ''PTY'' then PInt 1 else PFloat (Finite 1))"
    by (rule demo_finite_value [OF assms, of _ _ "''1''"]) (simp_all add: py_str_def demo_one_text)
  then show ?thesis using assms
    by (simp add: row_observation_def observe_row_def demo_row_validates demo_row_fields py_str_def py_int_def
        demo_category_text)
qed

definition demo_observations :: "pyobj list" where
  "demo_observations = map (\<lambda>c. PDict (demo_obs_row c)) required_categories"

lemma demo_normalizes:
  "\<exists>records. normalize_kma_observation_rows (std_lib h) (\<lambda>_. Some (Finite 1)) (PStr ''20251129'') (PStr ''0500'')
     (PInt 60) (PInt 127) (Aware 63900000000000000) demo_sha demo_observations = Inr records"
proof -
  let ?L = "std_lib h" and ?f = "\<lambda>_. Some (Finite 1)"
  define ps where "ps = map (\<lambda>c. (c, if c = ''PTY'' then PInt 1 else PFloat (Finite 1))) required_categories"
  have rows: "traverse (row_observation ?L ?f ''20251129'' ''0500'' 60 127) demo_observations = Inr ps"
  proof -
    have "list_all2 (\<lambda>c p. row_observation ?L ?f ''20251129'' ''0500'' 60 127 (PDict (demo_obs_row c)) = Inr p)
        required_categories ps"
      unfolding ps_def list.rel_map by (rule list.rel_refl_strong) (rule demo_row_observed)
    then show ?thesis by (simp add: traverse_Inr_iff demo_observations_def list.rel_map)
  qed
  have keys: "distinct (map fst ps)" "fst ` set ps = set required_categories"
    by (auto simp: ps_def o_def required_categories_def image_iff)
  have "fold_result (observe_row ?L ?f ''20251129'' ''0500'' 60 127) demo_observations [] = Inr ps"
    using fold_observe_rows [of "[]" ?L ?f] rows keys(1) by simp
  moreover have "in_range 63899956800000000" "in_range 63900000000000000"
    by (simp_all add: in_range_def max_instant_def us_per_day_def)
  moreover have "observation_slot_utc ?L (PStr ''20251129'') (PStr ''0500'') = Inr 63899956800000000"
    using calculation(2)
    by (simp add: observation_slot_utc_def demo_observation_slot demo_wall kst_offset_def hours_def)
  moreover have "sha256_text demo_sha" by (simp add: sha256_text_def demo_sha_def in_range_char_def list_all_iff)
  moreover have "\<exists>r. observation_record_of ?L ?f ps 60 127 63899956800000000 63900000000000000 demo_sha c = Inr r"
    if c: "c \<in> set required_categories" for c
  proof -
    have "(c, if c = ''PTY'' then PInt 1 else PFloat (Finite 1)) \<in> set ps" using c by (auto simp: ps_def)
    then have m: "map_of ps c = Some (if c = ''PTY'' then PInt 1 else PFloat (Finite 1))" using keys(1) by simp
    have "finite_value ?L ?f c (the (map_of ps c)) = Inr (if c = ''PTY'' then PInt 1 else PFloat (Finite 1))"
    proof (rule demo_finite_value [OF c refl])
      have "show_int 1 = ''1''" by code_simp
      moreover have "py_strip ''0.0'' = ''0.0''" by (rule py_strip_graphic) (simp_all add: graphic_def)
      ultimately show "py_strip (py_str ?L (the (map_of ps c))) \<notin> {[], ''-'', ''--'', ''null'', ''None''}"
        by (simp add: m py_str_def demo_one_text std_lib_def)
    qed (simp_all add: m)
    moreover have "\<exists>u. map_of category_units c = Some u" using c by (auto simp: required_categories_def category_units_def)
    ultimately show ?thesis using c \<open>in_range 63899956800000000\<close> \<open>in_range 63900000000000000\<close> \<open>sha256_text demo_sha\<close>
      by (auto simp: observation_record_of_def observation_record_init_def)
  qed
  then have "\<exists>records. traverse (observation_record_of ?L ?f ps 60 127 63899956800000000 63900000000000000 demo_sha)
      required_categories = Inr records"
    using traverse_total [of required_categories _ "\<lambda>c. projr (observation_record_of ?L ?f ps 60 127 63899956800000000 63900000000000000 demo_sha c)"]
    by (metis sum.sel(2))
  ultimately show ?thesis
    by (simp add: normalize_kma_observation_rows_def demo_observation_slot obs_positive_integer_def
        observation_integer_def py_int_def is_whole_def keys(2))
qed

lemma observation_is_complete_witness:
  "\<exists>records. normalize_kma_observation_rows (std_lib (\<lambda>s. s)) (\<lambda>_. Some (Finite 1)) (PStr ''20251129'') (PStr ''0500'')
     (PInt 60) (PInt 127) (Aware 63900000000000000) demo_sha demo_observations = Inr records
   \<and> map ob_category records = required_categories \<and> ob_unit (records ! 3) = ''degC''
   \<and> (\<forall>r\<in>set records. ob_nx r = 60 \<and> ob_ny r = 127)"
proof -
  obtain records where "normalize_kma_observation_rows (std_lib (\<lambda>s. s)) (\<lambda>_. Some (Finite 1)) (PStr ''20251129'') (PStr ''0500'')
     (PInt 60) (PInt 127) (Aware 63900000000000000) demo_sha demo_observations = Inr records"
    using demo_normalizes by blast
  note complete = observation_is_complete [OF this] and run = this
  then have "map ob_unit records = [''code'', ''percent'', ''mm'', ''degC'', ''m/s'', ''degree'', ''m/s'', ''m/s'']" by blast
  note units = this
  have "length records = 8" using arg_cong [OF units, of length] by simp
  then have "ob_unit (records ! 3) = ''degC''" using arg_cong [OF units, of "\<lambda>us. us ! 3"] by simp
  moreover have "\<forall>r\<in>set records. ob_nx r = 60 \<and> ob_ny r = 127" using complete by (auto simp: py_int_def)
  ultimately show ?thesis using complete run by blast
qed

lemma observation_ignores_row_order_witness:
  "\<exists>records. normalize_kma_observation_rows (std_lib (\<lambda>s. s)) (\<lambda>_. Some (Finite 1)) (PStr ''20251129'') (PStr ''0500'')
     (PInt 60) (PInt 127) (Aware 63900000000000000) demo_sha (rev demo_observations) = Inr records"
proof -
  obtain records where "normalize_kma_observation_rows (std_lib (\<lambda>s. s)) (\<lambda>_. Some (Finite 1)) (PStr ''20251129'') (PStr ''0500'')
     (PInt 60) (PInt 127) (Aware 63900000000000000) demo_sha demo_observations = Inr records"
    using demo_normalizes by blast
  from observation_ignores_row_order [OF this mset_rev] show ?thesis by blast
qed

end
