(* ===== verification/Kma_Http.thy ===== *)
theory Kma_Http
  imports Kma_Ledger Kma_Observation
begin

text \<open>
  The HTTP policy of the observations (\<open>weather_ingest/kma_observation_http.py\<close>): the throttle circuit
  of a cycle and the loop of bounded physical attempts.  The client runs over ports, as in the code; the
  locale \<open>attempt_ports\<close> states what a port records of its action in the state, and the lemmas derive
  that each call of the transport follows an admission by the deadline and a reservation, at most
  \<open>max_attempts\<close> times.  It is interpreted on the ledger of \<open>Kma_Ledger\<close> and the deadline view of
  \<open>Kma_Deadline\<close>, which other workers and the clocks move between the actions.
\<close>

section \<open>The circuit\<close>

record throttle_circuit =
  tc_threshold :: int
  tc_count :: int

definition new_throttle_circuit :: "pyobj \<Rightarrow> throttle_circuit result" where
  "new_throttle_circuit threshold =
     (case threshold of
        PInt n \<Rightarrow> if n < 1
          then Inl (WeatherBronzeConfigurationError ''KMA throttle circuit threshold must be a positive integer'')
          else Inr \<lparr>tc_threshold = n, tc_count = 0\<rparr>
      | _ \<Rightarrow> Inl (WeatherBronzeConfigurationError ''KMA throttle circuit threshold must be a positive integer''))"

definition circuit_is_open :: "throttle_circuit \<Rightarrow> bool" where
  "circuit_is_open c \<longleftrightarrow> tc_count c \<ge> tc_threshold c"

definition require_closed :: "throttle_circuit \<Rightarrow> unit result" where
  "require_closed c =
     (if circuit_is_open c then Inl (KmaThrottleCircuitOpen ''KMA observation cycle throttle circuit is open'') else Inr ())"

definition record_throttle :: "throttle_circuit \<Rightarrow> unit result \<times> throttle_circuit" where
  "record_throttle c = (let c' = c\<lparr>tc_count := tc_count c + 1\<rparr> in (require_closed c', c'))"

section \<open>The policy\<close>

definition positive_finite :: "(string \<Rightarrow> pyfloat option) \<Rightarrow> pyobj \<Rightarrow> string \<Rightarrow> rat result" where
  "positive_finite ftext v field =
     (case float_of ftext (WeatherBronzeConfigurationError (field @ '' must be numeric'')) v of
        Inl e \<Rightarrow> Inl e
      | Inr (Finite q) \<Rightarrow>
          if q \<le> 0 then Inl (WeatherBronzeConfigurationError (field @ '' must be finite and greater than zero'')) else Inr q
      | Inr _ \<Rightarrow> Inl (WeatherBronzeConfigurationError (field @ '' must be finite and greater than zero'')))"

definition nonnegative_finite :: "(string \<Rightarrow> pyfloat option) \<Rightarrow> pyobj \<Rightarrow> string \<Rightarrow> rat result" where
  "nonnegative_finite ftext v field =
     (case float_of ftext (WeatherBronzeConfigurationError (field @ '' must be numeric'')) v of
        Inl e \<Rightarrow> Inl e
      | Inr (Finite q) \<Rightarrow>
          if q < 0 then Inl (WeatherBronzeConfigurationError (field @ '' must be finite and non-negative'')) else Inr q
      | Inr _ \<Rightarrow> Inl (WeatherBronzeConfigurationError (field @ '' must be finite and non-negative'')))"

record http_policy =
  hp_max_attempts :: int
  hp_request_timeout :: rat
  hp_request_headroom :: rat
  hp_backoff :: "rat list"
  hp_max_retry_delay :: rat

definition http_policy_init ::
  "(string \<Rightarrow> pyfloat option) \<Rightarrow> pyobj \<Rightarrow> pyobj \<Rightarrow> pyobj \<Rightarrow> pyobj list \<Rightarrow> pyobj \<Rightarrow> http_policy result" where
  "http_policy_init ftext max_attempts timeout headroom backoff max_delay =
     (case max_attempts of
        PInt n \<Rightarrow>
          if n < 1 then Inl (WeatherBronzeConfigurationError ''KMA HTTP max_attempts must be a positive integer'')
          else if backoff = [] then Inl (WeatherBronzeConfigurationError ''KMA HTTP retry backoff must not be empty'')
          else bind_result (positive_finite ftext timeout ''KMA HTTP request timeout'') (\<lambda>t.
               bind_result (nonnegative_finite ftext headroom ''KMA HTTP request headroom'') (\<lambda>h.
               bind_result (traverse (\<lambda>v. nonnegative_finite ftext v ''KMA HTTP retry backoff'') backoff) (\<lambda>bs.
               bind_result (positive_finite ftext max_delay ''KMA HTTP maximum retry delay'') (\<lambda>d.
               Inr \<lparr>hp_max_attempts = n, hp_request_timeout = t, hp_request_headroom = h, hp_backoff = bs,
                    hp_max_retry_delay = d\<rparr>))))
      | _ \<Rightarrow> Inl (WeatherBronzeConfigurationError ''KMA HTTP max_attempts must be a positive integer''))"

section \<open>The ports\<close>

record http_response =
  hr_status :: int
  hr_content :: string
  hr_headers :: "(string \<times> string) list"

datatype transport_answer = Answered http_response | TransportOsError | TransportOther pyexc

record 's http_ports =
  port_transport :: "string \<Rightarrow> rat \<Rightarrow> 's \<Rightarrow> transport_answer \<times> 's"
  port_require_request :: "rat \<Rightarrow> rat \<Rightarrow> 's \<Rightarrow> unit result \<times> 's"
  port_require_retry_sleep :: "rat \<Rightarrow> rat \<Rightarrow> 's \<Rightarrow> unit result \<times> 's"
  port_before_attempt :: "physical_attempt \<Rightarrow> 's \<Rightarrow> unit result \<times> 's"
  port_sleep :: "rat \<Rightarrow> 's \<Rightarrow> 's"
  port_jitter :: "rat \<Rightarrow> 's \<Rightarrow> pyobj \<times> 's"

text \<open>\<open>_retry_after\<close>: the first header of that name decides.\<close>

fun retry_after :: "(string \<Rightarrow> pyfloat option) \<Rightarrow> rat \<Rightarrow> (string \<times> string) list \<Rightarrow> rat option" where
  "retry_after ftext max_delay [] = None"
| "retry_after ftext max_delay ((k, v) # hs) =
     (if str_lower k \<noteq> ''retry-after'' then retry_after ftext max_delay hs
      else (case ftext v of
          Some (Finite q) \<Rightarrow> if q < 0 then None else Some (min q max_delay)
        | _ \<Rightarrow> None))"

definition retry_delay ::
  "(string \<Rightarrow> pyfloat option) \<Rightarrow> ('s, 'b) http_ports_scheme \<Rightarrow> http_policy \<Rightarrow> nat \<Rightarrow> (string \<times> string) list
     \<Rightarrow> 's \<Rightarrow> rat result \<times> 's" where
  "retry_delay ftext P pol n headers s =
     (case retry_after ftext (hp_max_retry_delay pol) headers of
        Some d \<Rightarrow> (Inr d, s)
      | None \<Rightarrow>
          (case port_jitter P (hp_backoff pol ! min (n - 1) (length (hp_backoff pol) - 1)) s of
             (v, s') \<Rightarrow>
               (bind_result (nonnegative_finite ftext v ''KMA HTTP jittered retry delay'') (\<lambda>j.
                  Inr (min j (hp_max_retry_delay pol))), s')))"

definition wait_before_retry ::
  "(string \<Rightarrow> pyfloat option) \<Rightarrow> ('s, 'b) http_ports_scheme \<Rightarrow> http_policy \<Rightarrow> nat \<Rightarrow> (string \<times> string) list
     \<Rightarrow> 's \<Rightarrow> unit result \<times> 's" where
  "wait_before_retry ftext P pol n headers s =
     (case retry_delay ftext P pol n headers s of
        (Inl e, s1) \<Rightarrow> (Inl e, s1)
      | (Inr d, s1) \<Rightarrow>
          (case port_require_retry_sleep P d (hp_request_timeout pol + hp_request_headroom pol) s1 of
             (Inl e, s2) \<Rightarrow> (Inl e, s2)
           | (Inr _, s2) \<Rightarrow> (Inr (), port_sleep P d s2)))"

section \<open>The loop\<close>

text \<open>What an answer of the transport leads to, and the circuit it leaves.\<close>

datatype attempt_step = Return int string | Raise pyexc | Retry "(string \<times> string) list"

definition retryable_http_statuses :: "int list" where
  "retryable_http_statuses = [500, 502, 503, 504]"

definition throttled :: "bool \<Rightarrow> pyexc \<Rightarrow> (string \<times> string) list \<Rightarrow> throttle_circuit \<Rightarrow> attempt_step \<times> throttle_circuit" where
  "throttled exhausted e headers c =
     (case record_throttle c of
        (Inl x, c') \<Rightarrow> (Raise x, c')
      | (Inr _, c') \<Rightarrow> (if exhausted then Raise e else Retry headers, c'))"

definition answer_step ::
  "pylib \<Rightarrow> bool \<Rightarrow> transport_answer \<Rightarrow> throttle_circuit \<Rightarrow> attempt_step \<times> throttle_circuit" where
  "answer_step L exhausted a c =
     (case a of
        TransportOther e \<Rightarrow> (Raise e, c)
      | TransportOsError \<Rightarrow>
          (if exhausted then Raise (KmaObservationTransportError ''KMA observation transport attempts exhausted'')
           else Retry [], c)
      | Answered r \<Rightarrow>
          if 200 \<le> hr_status r \<and> hr_status r < 300
          then (case kma_observation_result_code L (hr_content r) of
              Inl e \<Rightarrow> (Raise e, c)
            | Inr code \<Rightarrow>
                (case raise_for_result_code code of
                   Inl (KmaObservationThrottleError x) \<Rightarrow> throttled exhausted (KmaObservationThrottleError x) [] c
                 | Inl e \<Rightarrow> (Raise e, c)
                 | Inr _ \<Rightarrow> (Return (hr_status r) (hr_content r), c)))
          else if hr_status r = 429 then throttled exhausted (KmaObservationHttpError 429) (hr_headers r) c
          else if hr_status r \<in> set retryable_http_statuses
          then (if exhausted then Raise (KmaObservationHttpError (hr_status r)) else Retry [], c)
          else (Raise (KmaObservationHttpError (hr_status r)), c))"

record fetch_request =
  fr_nx :: int
  fr_ny :: int
  fr_dag_run_id :: string
  fr_observed_slot :: string
  fr_request_id :: string

definition reservation_id_for :: "pylib \<Rightarrow> fetch_request \<Rightarrow> nat \<Rightarrow> string" where
  "reservation_id_for L q n =
     sha256_hex L (str_join [CHR 0x1F]
       [observation_source_id, fr_dag_run_id q, fr_observed_slot q, show_int (fr_nx q), show_int (fr_ny q),
        fr_request_id q, show_nat n])"

definition attempt_for :: "pylib \<Rightarrow> fetch_request \<Rightarrow> nat \<Rightarrow> physical_attempt" where
  "attempt_for L q n =
     \<lparr>pa_reservation_id = reservation_id_for L q n, pa_source_id = observation_source_id,
      pa_dag_run_id = fr_dag_run_id q, pa_observed_slot = fr_observed_slot q, pa_nx = fr_nx q, pa_ny = fr_ny q,
      pa_attempt_ordinal = int n\<rparr>"

text \<open>The attempt with ordinal \<open>n\<close>, up to the answer of the transport.\<close>

definition physical_call ::
  "pylib \<Rightarrow> ('s, 'b) http_ports_scheme \<Rightarrow> http_policy \<Rightarrow> fetch_request \<Rightarrow> string \<Rightarrow> nat \<Rightarrow> 's
     \<Rightarrow> transport_answer result \<times> 's" where
  "physical_call L P pol q url n s =
     (case port_require_request P (hp_request_timeout pol) (hp_request_headroom pol) s of
        (Inl e, s1) \<Rightarrow> (Inl e, s1)
      | (Inr _, s1) \<Rightarrow>
          (case port_before_attempt P (attempt_for L q n) s1 of
             (Inl e, s2) \<Rightarrow> (Inl e, s2)
           | (Inr _, s2) \<Rightarrow> map_prod Inr id (port_transport P url (hp_request_timeout pol) s2)))"

text \<open>\<open>k\<close> attempts are left, the next one has ordinal \<open>n\<close>.\<close>

fun fetch_attempts ::
  "pylib \<Rightarrow> (string \<Rightarrow> pyfloat option) \<Rightarrow> ('s, 'b) http_ports_scheme \<Rightarrow> http_policy \<Rightarrow> fetch_request \<Rightarrow> string
     \<Rightarrow> nat \<Rightarrow> nat \<Rightarrow> throttle_circuit \<Rightarrow> 's \<Rightarrow> (int \<times> string) result \<times> throttle_circuit \<times> 's" where
  "fetch_attempts L ftext P pol q url 0 n c s = (Inl (AssertionError ''unreachable KMA HTTP attempt state''), c, s)"
| "fetch_attempts L ftext P pol q url (Suc k) n c s =
     (case require_closed c of
        Inl e \<Rightarrow> (Inl e, c, s)
      | Inr _ \<Rightarrow>
          (case physical_call L P pol q url n s of
             (Inl e, s1) \<Rightarrow> (Inl e, c, s1)
           | (Inr a, s1) \<Rightarrow>
               (case answer_step L (int n \<ge> hp_max_attempts pol) a c of
                  (Return status content, c1) \<Rightarrow> (Inr (status, content), c1, s1)
                | (Raise e, c1) \<Rightarrow> (Inl e, c1, s1)
                | (Retry headers, c1) \<Rightarrow>
                    (case wait_before_retry ftext P pol n headers s1 of
                       (Inl e, s2) \<Rightarrow> (Inl e, c1, s2)
                     | (Inr _, s2) \<Rightarrow> fetch_attempts L ftext P pol q url k (Suc n) c1 s2))))"

definition fetch_observation ::
  "pylib \<Rightarrow> (string \<Rightarrow> pyfloat option) \<Rightarrow> (string \<Rightarrow> string option) \<Rightarrow> ('s, 'b) http_ports_scheme \<Rightarrow> http_policy
     \<Rightarrow> string \<Rightarrow> string \<Rightarrow> fetch_request \<Rightarrow> throttle_circuit \<Rightarrow> 's \<Rightarrow> (int \<times> string) result \<times> throttle_circuit \<times> 's" where
  "fetch_observation L ftext env P pol base_date base_time q c s =
     (case build_kma_observation_url L env (PStr base_date) (PStr base_time) (PInt (fr_nx q)) (PInt (fr_ny q))
             (PInt 1) (PInt 1000) [] of
        Inl e \<Rightarrow> (Inl e, c, s)
      | Inr url \<Rightarrow> fetch_attempts L ftext P pol q url (nat (hp_max_attempts pol)) 1 c s)"

section \<open>What a client relies on\<close>

text \<open>
  \<open>log\<close> abstracts the state to the events so far.  An admitted request and a reservation are recorded
  when they succeed, a call of the transport always; the other ports record nothing.
\<close>

locale attempt_ports =
  fixes P :: "'s http_ports" and log :: "'s \<Rightarrow> 'e list" and admits :: "rat \<Rightarrow> 'e \<Rightarrow> bool"
    and reserves :: "physical_attempt \<Rightarrow> 'e \<Rightarrow> bool" and sends :: "string \<Rightarrow> 'e \<Rightarrow> bool"
  assumes request_admitted: "port_require_request P t h s = (Inr u, s') \<Longrightarrow> \<exists>e. admits (t + h) e \<and> log s' = log s @ [e]"
    and request_refused: "port_require_request P t h s = (Inl x, s') \<Longrightarrow> log s' = log s"
    and attempt_reserved: "port_before_attempt P a s = (Inr u, s') \<Longrightarrow> \<exists>e. reserves a e \<and> log s' = log s @ [e]"
    and attempt_refused: "port_before_attempt P a s = (Inl x, s') \<Longrightarrow> log s' = log s"
    and request_sent: "port_transport P url t s = (answer, s') \<Longrightarrow> \<exists>e. sends url e \<and> log s' = log s @ [e]"
    and sleep_checked: "port_require_retry_sleep P d h s = (r, s') \<Longrightarrow> log s' = log s"
    and slept: "log (port_sleep P d s) = log s"
    and jittered: "port_jitter P d s = (v, s') \<Longrightarrow> log s' = log s"
begin

text \<open>Blocks of admission, reservation and call, with ascending ordinals; the last block may end early.\<close>

fun disciplined :: "pylib \<Rightarrow> http_policy \<Rightarrow> fetch_request \<Rightarrow> string \<Rightarrow> nat \<Rightarrow> 'e list \<Rightarrow> bool" where
  "disciplined L pol q url n [] = True"
| "disciplined L pol q url n [a] = admits (hp_request_timeout pol + hp_request_headroom pol) a"
| "disciplined L pol q url n [a, b] = False"
| "disciplined L pol q url n (a # b # e # es) =
     (admits (hp_request_timeout pol + hp_request_headroom pol) a \<and> reserves (attempt_for L q n) b \<and> sends url e
      \<and> disciplined L pol q url (Suc n) es)"

lemma wait_before_retry_log: "wait_before_retry ftext P pol n headers s = (r, s') \<Longrightarrow> log s' = log s"
  using sleep_checked slept jittered
  by (auto simp: wait_before_retry_def retry_delay_def split: option.splits prod.splits sum.splits)

lemma physical_call_log:
  assumes "physical_call L P pol q url n s = (r, s')"
  shows "(\<exists>x. r = Inl x \<and> (log s' = log s \<or> (\<exists>a. disciplined L pol q url n [a] \<and> log s' = log s @ [a])))
    \<or> (\<exists>answer a b e. r = Inr answer \<and> disciplined L pol q url n [a, b, e] \<and> log s' = log s @ [a, b, e])"
proof (cases "port_require_request P (hp_request_timeout pol) (hp_request_headroom pol) s")
  case (Pair r1 s1)
  show ?thesis
  proof (cases r1)
    case (Inl x)
    with assms Pair request_refused show ?thesis by (auto simp: physical_call_def)
  next
    case (Inr u)
    from request_admitted [OF Pair [unfolded Inr]]
    obtain a where a: "admits (hp_request_timeout pol + hp_request_headroom pol) a" "log s1 = log s @ [a]" by blast
    obtain r2 s2 where two: "port_before_attempt P (attempt_for L q n) s1 = (r2, s2)" by force
    show ?thesis
    proof (cases r2)
      case (Inl x)
      with assms Pair Inr two a attempt_refused show ?thesis by (auto simp: physical_call_def)
    next
      case (Inr v)
      obtain b where b: "reserves (attempt_for L q n) b" "log s2 = log s1 @ [b]"
        using attempt_reserved two Inr by blast
      obtain answer s3 where three: "port_transport P url (hp_request_timeout pol) s2 = (answer, s3)" by force
      obtain e where "sends url e" "log s3 = log s2 @ [e]" using request_sent [OF three] by blast
      then show ?thesis using assms Pair \<open>r1 = Inr u\<close> two Inr three a b by (auto simp: physical_call_def)
    qed
  qed
qed

lemma disciplined_append:
  "disciplined L pol q url n [a, b, e] \<Longrightarrow> disciplined L pol q url (Suc n) es \<Longrightarrow> disciplined L pol q url n (a # b # e # es)"
  by simp

lemma fetch_attempts_log:
  assumes "fetch_attempts L ftext P pol q url k n c s = (r, c', s')"
  shows "\<exists>es. log s' = log s @ es \<and> disciplined L pol q url n es \<and> length es \<le> 3 * k
    \<and> (circuit_is_open c \<longrightarrow> es = [])"
  using assms
proof (induction k arbitrary: n c s)
  case 0
  then show ?case by (intro exI [of _ "[]"]) auto
next
  case (Suc k)
  show ?case
  proof (cases "circuit_is_open c")
    case True
    with Suc.prems have "s' = s" by (simp add: require_closed_def)
    then show ?thesis by (intro exI [of _ "[]"]) simp
  next
    case False
    obtain r1 s1 where call: "physical_call L P pol q url n s = (r1, s1)" by force
    show ?thesis
    proof (cases r1)
      case (Inl x)
      with Suc.prems call False have "s' = s1" by (simp add: require_closed_def)
      have last: "log s1 = log s \<or> (\<exists>a. disciplined L pol q url n [a] \<and> log s1 = log s @ [a])"
        using physical_call_log [OF call] Inl by blast
      show ?thesis
      proof (cases "log s1 = log s")
        case True
        with \<open>s' = s1\<close> show ?thesis by (intro exI [of _ "[]"]) simp
      next
        case no_event: False
        then obtain a where "disciplined L pol q url n [a]" "log s1 = log s @ [a]" using last by blast
        with \<open>s' = s1\<close> False show ?thesis by (intro exI [of _ "[a]"]) simp
      qed
    next
      case (Inr answer)
      obtain a b e where block: "disciplined L pol q url n [a, b, e]" "log s1 = log s @ [a, b, e]"
        using physical_call_log [OF call] Inr by blast
      obtain st c1 where step: "answer_step L (int n \<ge> hp_max_attempts pol) answer c = (st, c1)" by force
      show ?thesis
      proof (cases "\<exists>headers s2 u. st = Retry headers \<and> wait_before_retry ftext P pol n headers s1 = (Inr u, s2)")
        case True
        then obtain headers s2 u where retry: "st = Retry headers" "wait_before_retry ftext P pol n headers s1 = (Inr u, s2)"
          by blast
        have rest: "fetch_attempts L ftext P pol q url k (Suc n) c1 s2 = (r, c', s')"
          using Suc.prems call Inr step retry False by (simp add: require_closed_def)
        obtain es where es: "log s' = log s2 @ es" "disciplined L pol q url (Suc n) es" "length es \<le> 3 * k"
          using Suc.IH [OF rest] by blast
        have "log s2 = log s1" by (rule wait_before_retry_log [OF retry(2)])
        then show ?thesis using es block False disciplined_append [OF block(1) es(2)]
          by (intro exI [of _ "a # b # e # es"]) simp
      next
        case no_retry: False
        have "log s' = log s1"
        proof (cases st)
          case (Retry headers)
          obtain r2 s2 where w: "wait_before_retry ftext P pol n headers s1 = (r2, s2)" by force
          with no_retry Retry obtain x where "r2 = Inl x" by (cases r2) auto
          with Suc.prems call Inr step Retry w False have "s' = s2" by (simp add: require_closed_def)
          then show ?thesis using wait_before_retry_log [OF w] by simp
        qed (use Suc.prems call Inr step False in \<open>simp_all add: require_closed_def\<close>)
        then show ?thesis using block False by (intro exI [of _ "[a, b, e]"]) simp
      qed
    qed
  qed
qed

end

text \<open>An invariant that every port keeps is kept by the loop.\<close>

locale port_invariant =
  fixes P :: "'s http_ports" and holds :: "'s \<Rightarrow> bool"
  assumes keeps_require_request: "port_require_request P t h s = (r, s') \<Longrightarrow> holds s \<Longrightarrow> holds s'"
    and keeps_before_attempt: "port_before_attempt P a s = (r, s') \<Longrightarrow> holds s \<Longrightarrow> holds s'"
    and keeps_transport: "port_transport P url t s = (answer, s') \<Longrightarrow> holds s \<Longrightarrow> holds s'"
    and keeps_require_retry_sleep: "port_require_retry_sleep P d h s = (r, s') \<Longrightarrow> holds s \<Longrightarrow> holds s'"
    and keeps_sleep: "holds s \<Longrightarrow> holds (port_sleep P d s)"
    and keeps_jitter: "port_jitter P d s = (v, s') \<Longrightarrow> holds s \<Longrightarrow> holds s'"
begin

lemma keeps_physical_call:
  assumes "physical_call L P pol q url n s = (r, s')" "holds s" shows "holds s'"
proof -
  obtain r1 s1 where one: "port_require_request P (hp_request_timeout pol) (hp_request_headroom pol) s = (r1, s1)" by force
  obtain r2 s2 where two: "port_before_attempt P (attempt_for L q n) s1 = (r2, s2)" by force
  obtain answer s3 where three: "port_transport P url (hp_request_timeout pol) s2 = (answer, s3)" by force
  have s1: "holds s1" by (rule keeps_require_request [OF one assms(2)])
  have s2: "holds s2" by (rule keeps_before_attempt [OF two s1])
  have s3: "holds s3" by (rule keeps_transport [OF three s2])
  have "s' \<in> {s1, s2, s3}"
    using assms(1) by (cases r1; cases r2) (simp_all add: physical_call_def one two three)
  with s1 s2 s3 show ?thesis by blast
qed

lemma keeps_wait:
  assumes "wait_before_retry ftext P pol n headers s = (r, s')" "holds s" shows "holds s'"
proof -
  obtain r1 s1 where one: "retry_delay ftext P pol n headers s = (r1, s1)" by force
  have s1: "holds s1"
    using one assms(2) keeps_jitter [of "hp_backoff pol ! min (n - 1) (length (hp_backoff pol) - 1)" s]
    by (auto simp: retry_delay_def split: option.splits prod.splits)
  define d where "d = (case r1 of Inr d \<Rightarrow> d | Inl _ \<Rightarrow> 0)"
  obtain r2 s2 where two: "port_require_retry_sleep P d (hp_request_timeout pol + hp_request_headroom pol) s1 = (r2, s2)"
    by force
  have s2: "holds s2" by (rule keeps_require_retry_sleep [OF two s1])
  have "s' \<in> {s1, s2, port_sleep P d s2}"
    using assms(1) two by (cases r1; cases r2) (simp_all add: wait_before_retry_def one d_def)
  with s1 s2 keeps_sleep [OF s2] show ?thesis by blast
qed

lemma keeps_fetch_attempts: "fetch_attempts L ftext P pol q url k n c s = (r, c', s') \<Longrightarrow> holds s \<Longrightarrow> holds s'"
proof (induction k arbitrary: n c s)
  case 0
  then show ?case by simp
next
  case (Suc k)
  obtain r1 s1 where call: "physical_call L P pol q url n s = (r1, s1)" by force
  have s1: "holds s1" by (rule keeps_physical_call [OF call Suc.prems(2)])
  obtain st c1 where step: "\<And>answer. r1 = Inr answer \<Longrightarrow> answer_step L (int n \<ge> hp_max_attempts pol) answer c = (st, c1)"
    using that by (cases r1; cases "answer_step L (int n \<ge> hp_max_attempts pol) (projr r1) c") auto
  show ?case
  proof (cases "circuit_is_open c")
    case True
    with Suc.prems show ?thesis by (simp add: require_closed_def)
  next
    case closed: False
    show ?thesis
    proof (cases r1)
      case (Inl x)
      with Suc.prems(1) call closed s1 show ?thesis by (simp add: require_closed_def)
    next
      case (Inr answer)
      note unfolded = Suc.prems(1) [unfolded fetch_attempts.simps call] 
      obtain r2 s2 where w: "\<And>headers. st = Retry headers \<Longrightarrow> wait_before_retry ftext P pol n headers s1 = (r2, s2)"
        using that by (cases "wait_before_retry ftext P pol n (case st of Retry hs \<Rightarrow> hs) s1"; cases st) auto
      show ?thesis
      proof (cases st)
        case (Retry headers)
        have s2: "holds s2" by (rule keeps_wait [OF w [OF Retry] s1])
        show ?thesis
        proof (cases r2)
          case (Inl x)
          with unfolded closed Inr step [OF Inr] Retry w [OF Retry] s2 show ?thesis
            by (simp add: require_closed_def \<open>r1 = Inr answer\<close>)
        next
          case ok: (Inr u)
          have "fetch_attempts L ftext P pol q url k (Suc n) c1 s2 = (r, c', s')"
            using unfolded closed step [OF \<open>r1 = Inr answer\<close>] Retry w [OF Retry] ok
            by (simp add: require_closed_def \<open>r1 = Inr answer\<close>)
          then show ?thesis using s2 by (rule Suc.IH)
        qed
      qed (use unfolded closed step [OF Inr] Inr s1 in \<open>simp_all add: require_closed_def\<close>)
    qed
  qed
qed

end

section \<open>The ports of a collection cycle\<close>

datatype http_event = Admitted int rat | Reserved physical_attempt | Sent string

text \<open>
  What the surroundings do at each action: the clocks, the statements that succeed, the answer of the
  transport, the jitter, and the reservations other workers make before.
\<close>

record kma_surroundings =
  ks_wall :: "nat \<Rightarrow> pydatetime"
  ks_monotonic :: "nat \<Rightarrow> rat"
  ks_sql :: "nat \<Rightarrow> nat \<Rightarrow> bool"
  ks_answer :: "nat \<Rightarrow> transport_answer"
  ks_jitter :: "nat \<Rightarrow> rat \<Rightarrow> pyobj"
  ks_others :: "nat \<Rightarrow> ((nat \<Rightarrow> bool) \<times> attempt_reservation) list"

record kma_world =
  kw_tick :: nat
  kw_file :: "ledger_db option"
  kw_deadline :: cycle_deadline
  kw_log :: "http_event list"

fun other_workers :: "pylib \<Rightarrow> int \<Rightarrow> ((nat \<Rightarrow> bool) \<times> attempt_reservation) list \<Rightarrow> ledger_db option \<Rightarrow> ledger_db option" where
  "other_workers L limit [] file = file"
| "other_workers L limit ((ok, r) # rs) file = other_workers L limit rs (snd (reserve L limit ok r file))"

definition world_check ::
  "unit result \<times> cycle_deadline \<Rightarrow> http_event list \<Rightarrow> kma_world \<Rightarrow> unit result \<times> kma_world" where
  "world_check checked events w =
     (let w' = w\<lparr>kw_tick := kw_tick w + 1, kw_deadline := snd checked\<rparr>
      in (fst checked, if isl (fst checked) then w' else w'\<lparr>kw_log := kw_log w @ events\<rparr>))"

definition world_reserve ::
  "pylib \<Rightarrow> kma_surroundings \<Rightarrow> int \<Rightarrow> physical_attempt \<Rightarrow> kma_world \<Rightarrow> unit result \<times> kma_world" where
  "world_reserve L E limit a w =
     (case budget_hook L limit (ks_wall E (kw_tick w)) (ks_sql E (kw_tick w)) a
             (other_workers L limit (ks_others E (kw_tick w)) (kw_file w)) of
        (Inl e, f) \<Rightarrow> (Inl e, w\<lparr>kw_tick := kw_tick w + 1, kw_file := f\<rparr>)
      | (Inr _, f) \<Rightarrow> (Inr (), w\<lparr>kw_tick := kw_tick w + 1, kw_file := f, kw_log := kw_log w @ [Reserved a]\<rparr>))"

definition kma_ports ::
  "pylib \<Rightarrow> (string \<Rightarrow> pyfloat option) \<Rightarrow> kma_surroundings \<Rightarrow> int \<Rightarrow> kma_world http_ports" where
  "kma_ports L ftext E limit =
     \<lparr>port_transport = (\<lambda>url t w.
        (ks_answer E (kw_tick w), w\<lparr>kw_tick := kw_tick w + 1, kw_log := kw_log w @ [Sent url]\<rparr>)),
      port_require_request = (\<lambda>t h w.
        world_check
          (require_request ftext (PFloat (Finite t)) (PFloat (Finite h)) (ks_wall E (kw_tick w))
             (ks_monotonic E (kw_tick w)) (kw_deadline w))
          [Admitted (instant_of (ks_wall E (kw_tick w))) (t + h)] w),
      port_require_retry_sleep = (\<lambda>d h w.
        world_check
          (require_retry_sleep ftext (PFloat (Finite d)) (PFloat (Finite h)) (ks_wall E (kw_tick w))
             (ks_monotonic E (kw_tick w)) (kw_deadline w))
          [] w),
      port_before_attempt = world_reserve L E limit,
      port_sleep = (\<lambda>d w. w\<lparr>kw_tick := kw_tick w + 1\<rparr>),
      port_jitter = (\<lambda>d w. (ks_jitter E (kw_tick w) d, w\<lparr>kw_tick := kw_tick w + 1\<rparr>))\<rparr>"

interpretation cycle: attempt_ports "kma_ports L ftext E limit" kw_log
  "\<lambda>q e. \<exists>wall. e = Admitted wall q" "\<lambda>a e. e = Reserved a" "\<lambda>url e. e = Sent url"
  for L ftext E limit
  by unfold_locales
    (auto simp: kma_ports_def world_check_def world_reserve_def Let_def split: prod.splits sum.splits if_splits)

definition row_of_attempt :: "physical_attempt \<Rightarrow> ledger_row \<Rightarrow> bool" where
  "row_of_attempt a r \<longleftrightarrow>
     lr_reservation_id r = pa_reservation_id a \<and> lr_source_id r = pa_source_id a \<and> lr_dag_run_id r = pa_dag_run_id a
     \<and> lr_observed_slot r = pa_observed_slot a \<and> lr_nx r = pa_nx a \<and> lr_ny r = pa_ny a
     \<and> lr_attempt_ordinal r = pa_attempt_ordinal a"

text \<open>
  The invariant of the world: the ledger keeps its budget and has the row of every reserved attempt, every admitted
  request ends before the deadline, and the view keeps its anchor.
\<close>

definition world_ok :: "int \<Rightarrow> deadline_anchor \<Rightarrow> kma_world \<Rightarrow> bool" where
  "world_ok limit a w \<longleftrightarrow>
     (\<exists>db rs. kw_file w = Some db \<and> ledger_inv limit rs db
        \<and> (\<forall>x. Reserved x \<in> set (kw_log w) \<longrightarrow> (\<exists>r\<in>set (db_rows db). row_of_attempt x r)))
     \<and> (\<forall>wall q. Admitted wall q \<in> set (kw_log w) \<longrightarrow> 0 < q
          \<longrightarrow> of_int wall + q * 1000000 \<le> of_int (instant_of (da_deadline_at a)))
     \<and> cd_anchor (kw_deadline w) = a"

lemma other_workers_inv:
  "ledger_inv limit rs db \<Longrightarrow>
     \<exists>db' rs'. other_workers L limit calls (Some db) = Some db' \<and> ledger_inv limit rs' db' \<and> set (db_rows db) \<subseteq> set (db_rows db')"
proof (induction calls arbitrary: rs db)
  case Nil
  then show ?case by auto
next
  case (Cons call calls)
  obtain ok r where call: "call = (ok, r)" by force
  obtain res f where step: "reserve L limit ok r (Some db) = (res, f)" by force
  obtain db1 where db1: "f = Some db1" "ledger_inv limit (rs @ [res]) db1" "set (db_rows db) \<subseteq> set (db_rows db1)"
    using reserve_inv [OF Cons.prems step] by blast
  from Cons.IH [OF db1(2)] db1(1,3) step call show ?case by auto
qed

lemma require_request_ok:
  assumes "require_request ftext (PFloat (Finite t)) (PFloat (Finite h)) wall monotonic cd = (r, cd')"
  shows "cd_anchor cd' = cd_anchor cd"
    and "r = Inr u \<Longrightarrow> 0 < t + h \<Longrightarrow>
      of_int (instant_of wall) + (t + h) * 1000000 \<le> of_int (instant_of (da_deadline_at (cd_anchor cd)))"
proof -
  have "r \<noteq> Inr () \<and> cd' = cd \<or> require_remaining wall monotonic (t + h) ''request'' cd = (r, cd')"
    using assms by (auto simp: require_request_def cycle_seconds_def float_of_def Let_def split: if_splits)
  then consider "r \<noteq> Inr ()" "cd' = cd" | "require_remaining wall monotonic (t + h) ''request'' cd = (r, cd')" by blast
  note cases = this
  show "cd_anchor cd' = cd_anchor cd"
    using cases by cases (auto dest: require_remaining_view)
  show "of_int (instant_of wall) + (t + h) * 1000000 \<le> of_int (instant_of (da_deadline_at (cd_anchor cd)))"
    if "r = Inr u" "0 < t + h"
    using cases
  proof cases
    case 2
    then show ?thesis using require_remaining_ok [of wall monotonic "t + h" "''request''" cd cd'] that by fastforce
  qed (use that in simp)
qed

lemma require_retry_sleep_anchor:
  "require_retry_sleep ftext d h wall monotonic cd = (r, cd') \<Longrightarrow> cd_anchor cd' = cd_anchor cd"
  by (auto simp: require_retry_sleep_def split: sum.splits dest: require_remaining_view)

lemma budget_hook_row:
  assumes "budget_hook L limit now ok a (Some db) = (Inr g, Some db')"
  shows "\<exists>r\<in>set (db_rows db'). row_of_attempt a r"
proof -
  obtain v where v: "reservation_values L (attempt_at a now) = Inr v" "reserve_values limit ok v db = (Inr g, db')"
    using assms(1)
    by (cases "reserve_values limit ok (projr (reservation_values L (attempt_at a now))) db")
      (auto simp: budget_hook_def reserve_def split: sum.splits)
  then have "row_of_attempt a v"
    by (auto simp: reservation_values_def bind_result_Inr_iff attempt_at_def row_of_attempt_def)
  moreover from v(2) have "v \<in> set (db_rows db')" by (cases rule: reserve_values_cases) auto
  ultimately show ?thesis by blast
qed

lemma world_reserve_ok:
  assumes "world_reserve L E limit a w = (r, w')" "world_ok limit anchor w"
  shows "world_ok limit anchor w'"
proof -
  obtain db rs where db: "kw_file w = Some db" "ledger_inv limit rs db"
    "\<And>x. Reserved x \<in> set (kw_log w) \<Longrightarrow> \<exists>r\<in>set (db_rows db). row_of_attempt x r"
    using assms(2) by (auto simp: world_ok_def)
  obtain db1 rs1 where others: "other_workers L limit (ks_others E (kw_tick w)) (Some db) = Some db1"
    "ledger_inv limit rs1 db1" "set (db_rows db) \<subseteq> set (db_rows db1)"
    using other_workers_inv [OF db(2)] by blast
  obtain res f where hook: "budget_hook L limit (ks_wall E (kw_tick w)) (ks_sql E (kw_tick w)) a (Some db1) = (res, f)"
    by force
  obtain db2 where db2: "f = Some db2" "ledger_inv limit (rs1 @ [res]) db2" "set (db_rows db1) \<subseteq> set (db_rows db2)"
    using reserve_inv [OF others(2) hook [unfolded budget_hook_def]] by blast
  have kept: "\<exists>r\<in>set (db_rows db2). row_of_attempt x r" if "Reserved x \<in> set (kw_log w)" for x
    using db(3) [OF that] others(3) db2(3) by blast
  show ?thesis
  proof (cases res)
    case (Inl e)
    then have "w' = w\<lparr>kw_tick := kw_tick w + 1, kw_file := Some db2\<rparr>"
      using assms(1) hook db2(1) by (simp add: world_reserve_def db(1) others(1))
    with assms(2) db2(2) kept show ?thesis by (auto simp: world_ok_def)
  next
    case (Inr g)
    then have w': "w' = w\<lparr>kw_tick := kw_tick w + 1, kw_file := Some db2, kw_log := kw_log w @ [Reserved a]\<rparr>"
      using assms(1) hook db2(1) by (simp add: world_reserve_def db(1) others(1))
    have "\<exists>r\<in>set (db_rows db2). row_of_attempt a r" using budget_hook_row hook Inr db2(1) by blast
    with assms(2) db2(2) kept show ?thesis by (auto simp: world_ok_def w')
  qed
qed

interpretation cycle_inv: port_invariant "kma_ports L ftext E limit" "world_ok limit anchor"
  for L ftext E limit anchor
proof
  fix t h w r w'
  assume step: "port_require_request (kma_ports L ftext E limit) t h w = (r, w')" and "world_ok limit anchor w"
  obtain r1 cd where check: "require_request ftext (PFloat (Finite t)) (PFloat (Finite h)) (ks_wall E (kw_tick w))
      (ks_monotonic E (kw_tick w)) (kw_deadline w) = (r1, cd)" by force
  note facts = require_request_ok [OF check]
  show "world_ok limit anchor w'"
    using step \<open>world_ok limit anchor w\<close> facts
    by (cases r1) (auto simp: kma_ports_def world_check_def check world_ok_def)
next
  fix d h w r w'
  assume step: "port_require_retry_sleep (kma_ports L ftext E limit) d h w = (r, w')" and "world_ok limit anchor w"
  obtain r1 cd where check: "require_retry_sleep ftext (PFloat (Finite d)) (PFloat (Finite h)) (ks_wall E (kw_tick w))
      (ks_monotonic E (kw_tick w)) (kw_deadline w) = (r1, cd)" by force
  show "world_ok limit anchor w'"
    using step \<open>world_ok limit anchor w\<close> require_retry_sleep_anchor [OF check]
    by (cases r1) (auto simp: kma_ports_def world_check_def check world_ok_def)
next
  fix a w r w'
  assume "port_before_attempt (kma_ports L ftext E limit) a w = (r, w')" "world_ok limit anchor w"
  then show "world_ok limit anchor w'" by (simp add: kma_ports_def world_reserve_ok)
qed (auto simp: kma_ports_def world_ok_def)

section \<open>Every call is reserved and in time\<close>

text \<open>The events of a disciplined log, by their position.\<close>

lemma disciplined_nth:
  "cycle.disciplined L pol q url n es \<Longrightarrow> i < length es \<Longrightarrow> es ! i = Sent u \<Longrightarrow>
     u = url \<and> i mod 3 = 2 \<and> es ! (i - 1) = Reserved (attempt_for L q (n + i div 3))
     \<and> (\<exists>wall. es ! (i - 2) = Admitted wall (hp_request_timeout pol + hp_request_headroom pol))"
proof (induction L pol q url n es arbitrary: i rule: cycle.disciplined.induct)
  case (4 L pol q url n a b e es)
  then have block: "\<exists>wall. a = Admitted wall (hp_request_timeout pol + hp_request_headroom pol)"
    "b = Reserved (attempt_for L q n)" "e = Sent url" "cycle.disciplined L pol q url (Suc n) es" by auto
  consider "i = 0" | "i = 1" | "i = 2" | j where "i = Suc (Suc (Suc j))"
    by (metis One_nat_def Suc_1 not0_implies_Suc)
  then show ?case
  proof cases
    case (4 j)
    have "u = url \<and> j mod 3 = 2 \<and> es ! (j - 1) = Reserved (attempt_for L q (Suc n + j div 3))
       \<and> (\<exists>wall. es ! (j - 2) = Admitted wall (hp_request_timeout pol + hp_request_headroom pol))"
      using "4.IH" [OF block(4), of j] "4.prems"(2,3) 4 by simp
    moreover from this have "j mod 3 = 2" by blast
    then have "2 \<le> j" by presburger
    then obtain m where m: "j = Suc (Suc m)" by (metis add_2_eq_Suc le_Suc_ex)
    have "(a # b # e # es) ! (i - 1) = es ! (j - 1)" "(a # b # e # es) ! (i - 2) = es ! (j - 2)"
      by (simp_all add: 4 m)
    moreover have "i = j + 3" using 4 by simp
    then have "n + i div 3 = Suc n + j div 3" by simp
    moreover have "i mod 3 = j mod 3" using 4 by simp
    ultimately show ?thesis by simp
  next
    case 1
    then show ?thesis using block(1) "4.prems"(3) by auto
  next
    case 2
    then show ?thesis using block(2) "4.prems"(3) by simp
  next
    case 3
    then show ?thesis using block(1-3) "4.prems"(3) by simp
  qed
qed auto

definition is_sent :: "http_event \<Rightarrow> bool" where
  "is_sent e \<longleftrightarrow> (case e of Sent _ \<Rightarrow> True | _ \<Rightarrow> False)"

lemma disciplined_sent:
  "cycle.disciplined L pol q url n es \<Longrightarrow> 3 * length (filter is_sent es) \<le> length es"
  by (induction L pol q url n es rule: cycle.disciplined.induct) (auto simp: is_sent_def split: http_event.splits)

lemma http_policy_init_Inr:
  assumes "http_policy_init ftext m t h bs d = Inr pol"
  shows "0 < hp_request_timeout pol \<and> 0 \<le> hp_request_headroom pol \<and> 1 \<le> hp_max_attempts pol"
proof -
  have pos: "0 < q" if "positive_finite ftext v f = Inr q" for v f q
    using that by (auto simp: positive_finite_def split: sum.splits pyfloat.splits if_splits)
  have nonneg: "0 \<le> q" if "nonnegative_finite ftext v f = Inr q" for v f q
    using that by (auto simp: nonnegative_finite_def split: sum.splits pyfloat.splits if_splits)
  obtain k where k: "m = PInt k" "1 \<le> k"
    using assms by (cases m) (auto simp: http_policy_init_def split: if_splits)
  have "bs \<noteq> []" using assms k by (auto simp: http_policy_init_def)
  have "bind_result (positive_finite ftext t ''KMA HTTP request timeout'') (\<lambda>t.
      bind_result (nonnegative_finite ftext h ''KMA HTTP request headroom'') (\<lambda>h.
      bind_result (traverse (\<lambda>v. nonnegative_finite ftext v ''KMA HTTP retry backoff'') bs) (\<lambda>bs.
      bind_result (positive_finite ftext d ''KMA HTTP maximum retry delay'') (\<lambda>d.
      Inr \<lparr>hp_max_attempts = k, hp_request_timeout = t, hp_request_headroom = h, hp_backoff = bs,
           hp_max_retry_delay = d\<rparr>)))) = Inr pol"
    using assms k \<open>bs \<noteq> []\<close> by (simp add: http_policy_init_def)
  then obtain t' h' bs' d' where "positive_finite ftext t ''KMA HTTP request timeout'' = Inr t'"
    "nonnegative_finite ftext h ''KMA HTTP request headroom'' = Inr h'"
    "\<lparr>hp_max_attempts = k, hp_request_timeout = t', hp_request_headroom = h', hp_backoff = bs', hp_max_retry_delay = d'\<rparr> = pol"
    unfolding bind_result_Inr_iff sum.inject by (elim exE conjE) (rule that)
  then show ?thesis using pos nonneg k(2) by (metis http_policy.select_convs(1-3))
qed

text \<open>The row of the call with ordinal \<open>n\<close>: its identifier is the digest of what names the attempt.\<close>

definition row_of_call :: "pylib \<Rightarrow> fetch_request \<Rightarrow> nat \<Rightarrow> ledger_row \<Rightarrow> bool" where
  "row_of_call L q n r \<longleftrightarrow>
     lr_reservation_id r = sha256_hex L (str_join [CHR 0x1F]
       [observation_source_id, fr_dag_run_id q, fr_observed_slot q, show_int (fr_nx q), show_int (fr_ny q),
        fr_request_id q, show_nat n])
     \<and> lr_source_id r = observation_source_id \<and> lr_dag_run_id r = fr_dag_run_id q
     \<and> lr_observed_slot r = fr_observed_slot q \<and> lr_nx r = fr_nx q \<and> lr_ny r = fr_ny q
     \<and> lr_attempt_ordinal r = int n"

lemma row_of_call_iff: "row_of_attempt (attempt_for L q n) r \<longleftrightarrow> row_of_call L q n r"
  by (simp add: row_of_attempt_def row_of_call_def attempt_for_def reservation_id_for_def)

text \<open>In a world that keeps its invariant, a call is backed by its reservation and its admission.\<close>

lemma sent_is_backed:
  assumes log: "cycle.disciplined L pol q url 1 (kw_log w)" and ok: "world_ok limit a w"
    and pos: "0 < hp_request_timeout pol + hp_request_headroom pol"
    and i: "i < length (kw_log w)" "kw_log w ! i = Sent u" and db: "kw_file w = Some db"
  shows "i mod 3 = 2 \<and> kw_log w ! (i - 1) = Reserved (attempt_for L q (1 + i div 3))
    \<and> (\<exists>r\<in>set (db_rows db). row_of_call L q (1 + i div 3) r)
    \<and> (\<exists>wall. kw_log w ! (i - 2) = Admitted wall (hp_request_timeout pol + hp_request_headroom pol)
         \<and> of_int wall + (hp_request_timeout pol + hp_request_headroom pol) * 1000000
             \<le> of_int (instant_of (da_deadline_at a)))"
proof -
  let ?T = "hp_request_timeout pol + hp_request_headroom pol"
  obtain wall where found: "i mod 3 = 2" "kw_log w ! (i - 1) = Reserved (attempt_for L q (1 + i div 3))"
    "kw_log w ! (i - 2) = Admitted wall ?T"
    using disciplined_nth [OF log i] by blast
  have "i - 1 < length (kw_log w)" "i - 2 < length (kw_log w)" using i(1) by simp_all
  then have "Reserved (attempt_for L q (1 + i div 3)) \<in> set (kw_log w)" "Admitted wall ?T \<in> set (kw_log w)"
    using found(2,3) nth_mem by metis+
  note events = this
  have "\<exists>r\<in>set (db_rows db). row_of_attempt (attempt_for L q (1 + i div 3)) r"
    using ok db events(1) unfolding world_ok_def by fastforce
  moreover have "of_int wall + ?T * 1000000 \<le> of_int (instant_of (da_deadline_at a))"
    using ok pos events(2) unfolding world_ok_def by blast
  ultimately show ?thesis using found unfolding row_of_call_iff by blast
qed

definition sent_positions :: "http_event list \<Rightarrow> nat set" where
  "sent_positions es = {i. i < length es \<and> is_sent (es ! i)}"

lemma sent_position: "i \<in> sent_positions es \<Longrightarrow> \<exists>u. i < length es \<and> es ! i = Sent u"
  by (auto simp: sent_positions_def is_sent_def split: http_event.splits)

text \<open>Calls at different positions have different ordinals, so that their rows differ.\<close>

lemma call_rows_differ:
  assumes "\<And>i. i \<in> S \<Longrightarrow> i mod 3 = (2 :: nat) \<and> row_of_call L q (1 + i div 3) (row i)"
  shows "inj_on row S"
proof (rule inj_onI)
  fix i j assume ij: "i \<in> S" "j \<in> S" "row i = row j"
  then have "i div 3 = j div 3" using assms [OF ij(1)] assms [OF ij(2)] by (simp add: row_of_call_def)
  moreover have "i mod 3 = j mod 3" using assms [OF ij(1)] assms [OF ij(2)] by simp
  ultimately show "i = j" by (metis div_mult_mod_eq)
qed

text \<open>
  C30: A fetch over the shared ledger and the deadline of its cycle, while other workers reserve and the
  clocks and the network do anything: each call of the transport comes right after a reservation of its own
  attempt and has a row of its own in the ledger, different from the row of every other call, with the ordinal
  of the call and the digest of run, slot, grid, request and ordinal as its identifier; and right after an
  admission at a time from which the request timeout and the headroom end before the deadline of the anchor.
  There are at most \<open>max_attempts\<close> calls, none when the throttle circuit is open; and the ledger never
  exceeds the limit of a day.
\<close>

theorem observation_calls_are_reserved_and_in_time:
  assumes "configured_daily_attempt_limit cfg = Inr limit"
    and "initialize_attempt_ledger resolve cfg ok ok' None = (Inr p, f0)"
    and "ledger_history L limit f0 rs (kw_file w)"
    and "http_policy_init ftext m t h bs d = Inr pol" and "kw_log w = []"
    and "fetch_observation L ftext cfg (kma_ports L ftext E limit) pol bd bt q c w = (res, c', w')"
  shows "\<exists>db. kw_file w' = Some db \<and> (\<forall>day. int (daily_count day (db_rows db)) \<le> limit)
    \<and> (\<exists>row. inj_on row (sent_positions (kw_log w')) \<and> (\<forall>i \<in> sent_positions (kw_log w').
         i mod 3 = 2 \<and> kw_log w' ! (i - 1) = Reserved (attempt_for L q (1 + i div 3))
         \<and> row i \<in> set (db_rows db) \<and> row_of_call L q (1 + i div 3) (row i)
         \<and> (\<exists>wall. kw_log w' ! (i - 2) = Admitted wall (hp_request_timeout pol + hp_request_headroom pol)
              \<and> of_int wall + (hp_request_timeout pol + hp_request_headroom pol) * 1000000
                  \<le> of_int (instant_of (da_deadline_at (cd_anchor (kw_deadline w)))))))
    \<and> int (card (sent_positions (kw_log w'))) \<le> hp_max_attempts pol
    \<and> (circuit_is_open c \<longrightarrow> kw_log w' = [])"
proof -
  let ?P = "kma_ports L ftext E limit" and ?T = "hp_request_timeout pol + hp_request_headroom pol"
  let ?a = "cd_anchor (kw_deadline w)"
  have limit: "0 < limit" using configured_limit_bounds [OF assms(1)] by blast
  have pol: "0 < ?T" "1 \<le> hp_max_attempts pol" using http_policy_init_Inr [OF assms(4)] by auto
  have ok: "world_ok limit ?a w"
    using started_ledger_inv [OF limit assms(2,3)] assms(5) by (auto simp: world_ok_def)
  consider "w' = w" | url where "fetch_attempts L ftext ?P pol q url (nat (hp_max_attempts pol)) 1 c w = (res, c', w')"
    using assms(6) by (auto simp: fetch_observation_def split: sum.splits)
  then obtain url where log: "cycle.disciplined L pol q url 1 (kw_log w')"
    "length (kw_log w') \<le> 3 * nat (hp_max_attempts pol)" "circuit_is_open c \<longrightarrow> kw_log w' = []"
    and ok': "world_ok limit ?a w'"
  proof cases
    case 1
    then show ?thesis using that [of "[]"] assms(5) ok by simp
  next
    case (2 url)
    obtain es where "kw_log w' = kw_log w @ es" "cycle.disciplined L pol q url 1 es"
      "length es \<le> 3 * nat (hp_max_attempts pol)" "circuit_is_open c \<longrightarrow> es = []"
      using cycle.fetch_attempts_log [OF 2] by blast
    moreover have "world_ok limit ?a w'" by (rule cycle_inv.keeps_fetch_attempts [OF 2 ok])
    ultimately show ?thesis using that [of url] assms(5) by simp
  qed
  obtain db rs' where db: "kw_file w' = Some db" "ledger_inv limit rs' db" using ok' unfolding world_ok_def by blast
  note backed = sent_is_backed [OF log(1) ok' pol(1) _ _ db(1)]
  have "\<exists>r. r \<in> set (db_rows db) \<and> row_of_call L q (1 + i div 3) r" if "i \<in> sent_positions (kw_log w')" for i
    using sent_position [OF that] backed by blast
  then obtain row where row: "\<And>i. i \<in> sent_positions (kw_log w') \<Longrightarrow>
      row i \<in> set (db_rows db) \<and> row_of_call L q (1 + i div 3) (row i)" by metis
  note calls = sent_position [of _ "kw_log w'"] backed row
  have "inj_on row (sent_positions (kw_log w'))" by (rule call_rows_differ) (use calls in blast)
  moreover have "int (card (sent_positions (kw_log w'))) \<le> hp_max_attempts pol"
    using disciplined_sent [OF log(1)] log(2) pol(2)
    unfolding sent_positions_def length_filter_conv_card [symmetric] by linarith
  moreover have "int (daily_count day (db_rows db)) \<le> limit" for day using db(2) by (simp add: ledger_inv_def)
  ultimately show ?thesis using db(1) log(3) calls by blast
qed

definition demo_policy :: http_policy where
  "demo_policy = \<lparr>hp_max_attempts = 1, hp_request_timeout = 10, hp_request_headroom = 2, hp_backoff = [5], hp_max_retry_delay = 60\<rparr>"

definition retrying_policy :: http_policy where
  "retrying_policy = demo_policy\<lparr>hp_max_attempts := 2\<rparr>"

lemma retrying_policy_init:
  "http_policy_init (\<lambda>_. None) (PInt 2) (PInt 10) (PInt 2) [PInt 5] (PInt 60) = Inr retrying_policy"
proof -
  have "(2 :: int) ^ 970 \<le> 2 ^ 1023" by (rule power_increasing) simp_all
  then have big: "(2 :: int) ^ 1023 \<le> 2 ^ 1024 - 2 ^ 970" by simp
  have "(60 :: int) < 2 ^ 6" by simp
  also have "(2 :: int) ^ 6 \<le> 2 ^ 1023" by (rule power_increasing) simp_all
  finally have "\<not> 2 ^ 1024 - 2 ^ 970 \<le> \<bar>i\<bar>" if "\<bar>i\<bar> \<le> 60" for i :: int using big that by linarith
  then have "float_of ftext e (PInt i) = Inr (Finite (of_int i))" if "\<bar>i\<bar> \<le> 60" for ftext e i
    using that unfolding float_of_def by (simp only: pyobj.case if_False)
  note small = this
  have "float_of ftext e (PInt 10) = Inr (Finite 10)" "float_of ftext e (PInt 2) = Inr (Finite 2)"
    "float_of ftext e (PInt 5) = Inr (Finite 5)" "float_of ftext e (PInt 60) = Inr (Finite 60)" for ftext e
    using small [of 10 ftext e] small [of 2 ftext e] small [of 5 ftext e] small [of 60 ftext e] by simp_all
  then show ?thesis
    by (simp add: http_policy_init_def positive_finite_def nonnegative_finite_def demo_policy_def retrying_policy_def)
qed

definition demo_anchor :: deadline_anchor where
  "demo_anchor =
     \<lparr>da_dag_id = ''dag'', da_dag_run_id = ''run'', da_source_id = ''kma'', da_observed_slot = ''slot'',
      da_started_at = Aware 63900000000000000, da_deadline_at = Aware 63900002400000000\<rparr>"

definition demo_view :: cycle_deadline where
  "demo_view = \<lparr>cd_anchor = demo_anchor, cd_monotonic_started = 0, cd_initial_remaining = 2400, cd_last_remaining = 2400\<rparr>"

definition demo_surroundings :: kma_surroundings where
  "demo_surroundings =
     \<lparr>ks_wall = (\<lambda>_. Aware 63900000000000000), ks_monotonic = (\<lambda>_. 0), ks_sql = (\<lambda>_ _. True),
      ks_answer = (\<lambda>_. TransportOsError), ks_jitter = (\<lambda>_ d. PFloat (Finite d)), ks_others = (\<lambda>_. [])\<rparr>"

definition demo_world :: kma_world where
  "demo_world = \<lparr>kw_tick = 0, kw_file = Some fresh_ledger, kw_deadline = demo_view, kw_log = []\<rparr>"

definition demo_fetch :: fetch_request where
  "demo_fetch = \<lparr>fr_nx = 60, fr_ny = 127, fr_dag_run_id = ''run'', fr_observed_slot = ''slot'', fr_request_id = ''u''\<rparr>"

lemma demo_checks:
  "require_request ftext (PFloat (Finite 10)) (PFloat (Finite 2)) (Aware 63900000000000000) 0 demo_view = (Inr (), demo_view)"
  "require_retry_sleep ftext (PFloat (Finite 5)) (PFloat (Finite 12)) (Aware 63900000000000000) 0 demo_view = (Inr (), demo_view)"
proof -
  have "in_range 63900000000000000" by (simp add: in_range_def max_instant_def us_per_day_def)
  then show "require_request ftext (PFloat (Finite 10)) (PFloat (Finite 2)) (Aware 63900000000000000) 0 demo_view = (Inr (), demo_view)"
    "require_retry_sleep ftext (PFloat (Finite 5)) (PFloat (Finite 12)) (Aware 63900000000000000) 0 demo_view = (Inr (), demo_view)"
    by (simp_all add: require_request_def require_retry_sleep_def cycle_seconds_def float_of_def require_remaining_def
        remaining_seconds_def cycle_utc_def demo_view_def durable_remaining_def demo_anchor_def Let_def)
qed

text \<open>A digest that tells the attempts of a request apart: the last character is the ordinal.\<close>

definition tail_digest :: "string \<Rightarrow> string" where
  "tail_digest s = [CHR ''r'', last s]"

lemma demo_reservation_ids:
  "reservation_id_for (std_lib tail_digest) demo_fetch 1 = ''r1''"
  "reservation_id_for (std_lib tail_digest) demo_fetch 2 = ''r2''"
proof -
  have "digit_char 1 = CHR ''1''" "digit_char 2 = CHR ''2''" by code_simp+
  then show "reservation_id_for (std_lib tail_digest) demo_fetch 1 = ''r1''"
    "reservation_id_for (std_lib tail_digest) demo_fetch 2 = ''r2''"
    by (simp_all add: reservation_id_for_def tail_digest_def show_nat.simps)
qed

lemma demo_hook:
  assumes "n \<in> {1, 2}" "reservation_id_for (std_lib tail_digest) demo_fetch n \<notin> ledger_ids db"
    and "db_columns db = reservation_columns" "length (db_rows db) < 7500"
  shows "\<exists>g v. budget_hook (std_lib tail_digest) 7500 (Aware 63900000000000000) (\<lambda>_. True)
     (attempt_for (std_lib tail_digest) demo_fetch n) (Some db) = (Inr g, Some (db\<lparr>db_rows := db_rows db @ [v]\<rparr>))
     \<and> lr_reservation_id v = reservation_id_for (std_lib tail_digest) demo_fetch n"
proof -
  have "\<not> is_blank s" if "s \<in> {''r1'', ''r2'', ''kma_ultra_srt_ncst'', ''run'', ''slot''}" for s
    by (rule not_blank_graphic) (use that in \<open>auto simp: graphic_def\<close>)
  moreover have "in_range 63900000000000000" "in_range 63900032400000000"
    by (simp_all add: in_range_def max_instant_def us_per_day_def)
  ultimately obtain v where v: "reservation_values (std_lib tail_digest)
      (attempt_at (attempt_for (std_lib tail_digest) demo_fetch n) (Aware 63900000000000000)) = Inr v"
    "lr_nx v = 60" "lr_ny v = 127" "lr_attempt_ordinal v = int n"
    "lr_reservation_id v = reservation_id_for (std_lib tail_digest) demo_fetch n"
    using assms(1) demo_reservation_ids
    by (auto simp: reservation_values_def require_reservation_def attempt_at_def attempt_for_def
        demo_fetch_def observation_source_id_def astimezone_kst_def checked_instant_def kst_offset_def hours_def)
  moreover have "daily_count day (db_rows db) < 7500" for day
    using assms(4) length_filter_le le_less_trans unfolding daily_count_def by blast
  moreover have "find (\<lambda>r. lr_reservation_id r = lr_reservation_id v) (db_rows db) = None"
    using assms(2) v(5) by (simp add: find_id_None)
  ultimately show ?thesis
    using assms(1,3)
    by (auto simp: budget_hook_def reserve_def reserve_values_def insert_reservation_def Let_def sqlite_integer_def
        not_le [symmetric] simp del: not_le)
qed

lemma demo_call:
  assumes "kw_deadline w = demo_view" "kw_file w = Some db"
    and "n \<in> {1, 2}" "reservation_id_for (std_lib tail_digest) demo_fetch n \<notin> ledger_ids db"
    and "db_columns db = reservation_columns" "length (db_rows db) < 7500"
  shows "\<exists>w' v. physical_call (std_lib tail_digest) (kma_ports (std_lib tail_digest) ftext demo_surroundings 7500)
       retrying_policy demo_fetch url n w = (Inr TransportOsError, w')
     \<and> kw_deadline w' = demo_view \<and> kw_file w' = Some (db\<lparr>db_rows := db_rows db @ [v]\<rparr>)
     \<and> lr_reservation_id v = reservation_id_for (std_lib tail_digest) demo_fetch n
     \<and> kw_log w' = kw_log w @ [Admitted 63900000000000000 12, Reserved (attempt_for (std_lib tail_digest) demo_fetch n), Sent url]"
proof -
  obtain g v where hook: "budget_hook (std_lib tail_digest) 7500 (Aware 63900000000000000) (\<lambda>_. True)
     (attempt_for (std_lib tail_digest) demo_fetch n) (Some db) = (Inr g, Some (db\<lparr>db_rows := db_rows db @ [v]\<rparr>))"
    "lr_reservation_id v = reservation_id_for (std_lib tail_digest) demo_fetch n"
    using demo_hook [OF assms(3-6)] by blast
  then show ?thesis
    using assms(1,2)
    by (intro exI [of _ "snd (physical_call (std_lib tail_digest)
          (kma_ports (std_lib tail_digest) ftext demo_surroundings 7500) retrying_policy demo_fetch url n w)"] exI [of _ v])
      (simp add: physical_call_def kma_ports_def retrying_policy_def demo_policy_def demo_surroundings_def world_check_def
        demo_checks world_reserve_def Let_def)
qed

lemma demo_wait:
  assumes "kw_deadline w = demo_view"
  shows "\<exists>w'. wait_before_retry ftext (kma_ports L ftext demo_surroundings limit) retrying_policy n [] w = (Inr (), w')
     \<and> kw_deadline w' = demo_view \<and> kw_file w' = kw_file w \<and> kw_log w' = kw_log w"
  using assms
  by (simp add: wait_before_retry_def retry_delay_def kma_ports_def retrying_policy_def demo_policy_def
      demo_surroundings_def nonnegative_finite_def float_of_def world_check_def demo_checks Let_def)

lemma demo_url:
  assumes "env ''KMA_BASE_URL'' = None"
  shows "\<exists>url. build_kma_observation_url L env (PStr ''20251129'') (PStr ''0500'') (PInt 60) (PInt 127) (PInt 1) (PInt 1000) []
     = Inr url"
proof -
  have "py_strip default_kma_base_url = default_kma_base_url"
    by (rule py_strip_graphic) (simp_all add: default_kma_base_url_def graphic_def)
  moreover have "default_kma_base_url \<noteq> []" by (simp add: default_kma_base_url_def)
  ultimately show ?thesis
    using assms
    by (simp add: build_kma_observation_url_def observation_params_def demo_observation_slot obs_positive_integer_def
        observation_integer_def py_int_def is_whole_def env_text_def)
qed

lemma observation_calls_are_reserved_and_in_time_witness:
  "\<exists>res c' w' db row. fetch_observation (std_lib tail_digest) (\<lambda>_. None) (\<lambda>_. None)
       (kma_ports (std_lib tail_digest) (\<lambda>_. None) demo_surroundings 7500) retrying_policy ''20251129'' ''0500'' demo_fetch
       \<lparr>tc_threshold = 1, tc_count = 0\<rparr> demo_world = (res, c', w')
     \<and> sent_positions (kw_log w') = {2, 5} \<and> kw_file w' = Some db \<and> row (2 :: nat) \<noteq> row 5
     \<and> row 2 \<in> set (db_rows db) \<and> row_of_call (std_lib tail_digest) demo_fetch 1 (row 2)
     \<and> row 5 \<in> set (db_rows db) \<and> row_of_call (std_lib tail_digest) demo_fetch 2 (row 5)"
proof -
  let ?L = "std_lib tail_digest" and ?f = "\<lambda>_. None" and ?c = "\<lparr>tc_threshold = 1, tc_count = 0\<rparr>"
  let ?P = "kma_ports ?L ?f demo_surroundings 7500"
  obtain url where url: "build_kma_observation_url ?L (\<lambda>_. None) (PStr ''20251129'') (PStr ''0500'') (PInt 60) (PInt 127)
      (PInt 1) (PInt 1000) [] = Inr url" using demo_url [of "\<lambda>_. None"] by blast
  obtain w1 v where one: "physical_call ?L ?P retrying_policy demo_fetch url 1 demo_world = (Inr TransportOsError, w1)"
    "kw_deadline w1 = demo_view" "kw_file w1 = Some (fresh_ledger\<lparr>db_rows := [v]\<rparr>)" "lr_reservation_id v = ''r1''"
    "kw_log w1 = [Admitted 63900000000000000 12, Reserved (attempt_for ?L demo_fetch 1), Sent url]"
  proof -
    have "kw_deadline demo_world = demo_view" "kw_file demo_world = Some fresh_ledger" "kw_log demo_world = []"
      "reservation_id_for ?L demo_fetch 1 \<notin> ledger_ids fresh_ledger" "db_rows fresh_ledger = []"
      "db_columns fresh_ledger = reservation_columns"
      by (simp_all add: demo_world_def fresh_ledger_def ledger_ids_def)
    with demo_call [of demo_world fresh_ledger 1 ?f url] that show ?thesis by (simp add: demo_reservation_ids(1) del: One_nat_def) blast
  qed
  obtain w2 where two: "wait_before_retry ?f ?P retrying_policy 1 [] w1 = (Inr (), w2)"
    "kw_deadline w2 = demo_view" "kw_file w2 = kw_file w1" "kw_log w2 = kw_log w1"
    using demo_wait [OF one(2)] by blast
  obtain w3 where three: "physical_call ?L ?P retrying_policy demo_fetch url 2 w2 = (Inr TransportOsError, w3)"
    "kw_log w3 = kw_log w2 @ [Admitted 63900000000000000 12, Reserved (attempt_for ?L demo_fetch 2), Sent url]"
    using demo_call [OF two(2) two(3) [unfolded one(3)], of 2 ?f url] one(4)
    by (auto simp: fresh_ledger_def ledger_ids_def demo_reservation_ids(2))
  have fetch: "fetch_observation ?L ?f (\<lambda>_. None) ?P retrying_policy ''20251129'' ''0500'' demo_fetch ?c demo_world
      = (Inl (KmaObservationTransportError ''KMA observation transport attempts exhausted''), ?c, w3)"
  proof -
    have "nat (hp_max_attempts retrying_policy) = Suc (Suc 0)" "hp_max_attempts retrying_policy = 2" "fr_nx demo_fetch = 60"
      "fr_ny demo_fetch = 127" by (simp_all add: retrying_policy_def demo_fetch_def)
    moreover have "require_closed ?c = Inr ()" by (simp add: require_closed_def circuit_is_open_def)
    ultimately show ?thesis
      using url one(1) two(1) three(1) by (simp add: fetch_observation_def answer_step_def numeral_2_eq_2)
  qed
  have history: "ledger_history ?L 7500 (Some fresh_ledger) [] (kw_file demo_world)"
    by (simp add: demo_world_def ledger_history.start)
  have "sent_positions (kw_log w3) = {2, 5}"
    by (auto simp: sent_positions_def is_sent_def three(2) two(4) one(5) less_Suc_eq nth_Cons')
  moreover have "kw_log demo_world = []" by (simp add: demo_world_def)
  note observation_calls_are_reserved_and_in_time [OF default_limit demo_initialized history retrying_policy_init this fetch]
  ultimately obtain db row where "kw_file w3 = Some db" "inj_on row {2, 5}"
    "\<forall>i\<in>{2, 5}. row i \<in> set (db_rows db) \<and> row_of_call ?L demo_fetch (1 + i div 3) (row i)" by metis
  moreover from this have "row 2 \<noteq> row 5" by (auto dest: inj_onD)
  moreover have "1 + (2 :: nat) div 3 = 1" "1 + (5 :: nat) div 3 = 2" by simp_all
  ultimately have rows: "kw_file w3 = Some db" "row 2 \<noteq> row 5" "row 2 \<in> set (db_rows db)" "row 5 \<in> set (db_rows db)"
    "row_of_call ?L demo_fetch 1 (row 2)" "row_of_call ?L demo_fetch 2 (row 5)" by (metis insertI1 insertI2)+
  show ?thesis using fetch \<open>sent_positions (kw_log w3) = {2, 5}\<close>
    by (intro exI conjI) (rule fetch rows | assumption)+
qed

end
