(* ===== verification/Kma_Landing.thy ===== *)
theory Kma_Landing
  imports Kma_Http
begin

text \<open>
  The landing of the current observations (\<open>weather_ingest/kma_observation_landing.py\<close>): for every
  grid of a slot, the response is stored under a key that carries its hash, then a checkpoint is
  written; a later run of the same task resumes from the checkpoints; the manifest of the complete
  slot is written last.  The landing runs over ports for the store, the clocks, request ids and the
  source, which are then those of the other theories.

  The clock of the runtime shows UTC, so that aware times print with \<open>+00:00\<close>.
\<close>

section \<open>Records\<close>

record observation_run =
  or_dag_id :: string
  or_run_id :: string

record observation_grid =
  og_nx :: int
  og_ny :: int

text \<open>\<open>ObservationGrid.__post_init__\<close>, on integers.\<close>

definition observation_grid_init :: "int \<Rightarrow> int \<Rightarrow> observation_grid result" where
  "observation_grid_init nx ny =
     (if nx < 1 then Inl (WeatherCompletenessError ''KMA observation grid nx must be a positive integer'')
      else if ny < 1 then Inl (WeatherCompletenessError ''KMA observation grid ny must be a positive integer'')
      else Inr \<lparr>og_nx = nx, og_ny = ny\<rparr>)"

record landing_request =
  lq_base_date :: string
  lq_base_time :: string
  lq_grids :: "observation_grid list"

record observation_checkpoint =
  oc_source_id :: string
  oc_dag_id :: string
  oc_run_id :: string
  oc_base_date :: string
  oc_base_time :: string
  oc_observed_slot :: string
  oc_nx :: int
  oc_ny :: int
  oc_request_id :: string
  oc_raw_object_key :: string
  oc_payload_sha256 :: string
  oc_http_status :: int
  oc_collected_at :: pydatetime
  oc_category_count :: int
  oc_categories :: "string list"

record raw_object =
  ro_request_id :: string
  ro_raw_object_key :: string
  ro_payload_sha256 :: string
  ro_http_status :: int
  ro_collected_at :: pydatetime
  ro_nx :: int
  ro_ny :: int
  ro_category_count :: int
  ro_categories :: "string list"

record landing_batch =
  lb_source_id :: string
  lb_dag_id :: string
  lb_run_id :: string
  lb_base_date :: string
  lb_base_time :: string
  lb_observed_slot :: string
  lb_raw_objects :: "raw_object list"
  lb_grid_count :: nat
  lb_row_count :: int
  lb_api_request_count :: nat
  lb_reused_grid_count :: nat
  lb_manifest_key :: string
  lb_is_publishable :: bool

section \<open>Keys\<close>

definition default_raw_prefix :: string where
  "default_raw_prefix = ''raw/weather_observation/kma_ultra_srt_ncst''"

definition safe_part :: "string \<Rightarrow> string \<Rightarrow> string result" where
  "safe_part v field =
     (if is_blank v then Inl (WeatherRawIntegrityError (''KMA observation '' @ field @ '' must be non-empty''))
      else Inr (url_quote (py_strip v)))"

text \<open>Text as \<open>datetime.isoformat\<close> prints it: of a naive value, and of a wall clock with its offset.\<close>

definition iso_wall :: "nat \<Rightarrow> string" where
  "iso_wall t = date_str (civil (t div us_per_day)) @ ''T'' @ clock_str (clock (t mod us_per_day))
     @ micro_str (t mod us_per_second)"

definition offset_text :: "int \<Rightarrow> string" where
  "offset_text off =
     (let n = nat \<bar>off\<bar>; s = n mod us_per_minute div us_per_second
      in (if off < 0 then ''-'' else ''+'') @ pad_nat 2 (n div us_per_hour) @ '':''
         @ pad_nat 2 (n mod us_per_hour div us_per_minute) @ (if s = 0 then [] else '':'' @ pad_nat 2 s))"

fun iso_text :: "pydatetime \<Rightarrow> string" where
  "iso_text (Naive w) = iso_wall (nat w)"
| "iso_text (Aware t) = isoformat t"

definition observed_slot :: "pylib \<Rightarrow> string \<Rightarrow> string \<Rightarrow> string result" where
  "observed_slot L base_date base_time =
     bind_result (observation_slot_utc L (PStr base_date) (PStr base_time)) (\<lambda>u.
     bind_result (astimezone_kst L u) (\<lambda>wall. Inr (iso_wall (nat wall) @ offset_text (seoul_offset L u))))"

text \<open>The first code points of a text, and the rest.\<close>

fun split_points :: "nat \<Rightarrow> string \<Rightarrow> string \<times> string" where
  "split_points 0 s = ([], s)"
| "split_points (Suc n) s =
     (case utf8_head s of
        None \<Rightarrow> ([], s)
      | Some (_, r) \<Rightarrow> (case split_points n r of (a, b) \<Rightarrow> (take (length s - length r) s @ a, b)))"

definition slot_path :: "string \<Rightarrow> string \<Rightarrow> string" where
  "slot_path date hour =
     (case split_points 4 date of (y, rest) \<Rightarrow>
        (case split_points 2 rest of (m, d) \<Rightarrow>
           ''/observed_date='' @ y @ ''-'' @ m @ ''-'' @ d @ ''/observed_hour='' @ fst (split_points 2 hour)))"

definition observation_raw_object_key ::
  "pylib \<Rightarrow> observation_run \<Rightarrow> string \<Rightarrow> string \<Rightarrow> observation_grid \<Rightarrow> string \<Rightarrow> string \<Rightarrow> string \<Rightarrow> string result" where
  "observation_raw_object_key L run base_date base_time grid request_id payload raw_prefix =
     bind_result (normalize_observation_slot L (PStr base_date) (PStr base_time)) (\<lambda>(date, hour).
     bind_result (safe_part (or_run_id run) ''run_id'') (\<lambda>run_id.
     bind_result (safe_part request_id ''request_id'') (\<lambda>request.
     Inr (without_slashes raw_prefix @ slot_path date hour @ ''/run_id='' @ run_id
        @ ''/nx='' @ show_int (og_nx grid) @ ''/ny='' @ show_int (og_ny grid) @ ''/''
        @ request @ ''_'' @ sha256_hex L payload @ ''.json''))))"

definition observation_checkpoint_key ::
  "pylib \<Rightarrow> observation_run \<Rightarrow> string \<Rightarrow> string \<Rightarrow> observation_grid \<Rightarrow> string \<Rightarrow> string result" where
  "observation_checkpoint_key L run base_date base_time grid checkpoint_prefix =
     bind_result (normalize_observation_slot L (PStr base_date) (PStr base_time)) (\<lambda>(date, hour).
     bind_result (safe_part (or_dag_id run) ''dag_id'') (\<lambda>dag_id.
     bind_result (safe_part (or_run_id run) ''run_id'') (\<lambda>run_id.
     Inr (without_slashes checkpoint_prefix @ slot_path date hour @ ''/dag_id='' @ dag_id @ ''/run_id='' @ run_id
        @ ''/nx='' @ show_int (og_nx grid) @ ''/ny='' @ show_int (og_ny grid) @ ''.json''))))"

definition observation_manifest_key :: "pylib \<Rightarrow> observation_run \<Rightarrow> string \<Rightarrow> string \<Rightarrow> string \<Rightarrow> string result" where
  "observation_manifest_key L run base_date base_time manifest_prefix =
     bind_result (normalize_observation_slot L (PStr base_date) (PStr base_time)) (\<lambda>(date, hour).
     bind_result (safe_part (or_dag_id run) ''dag_id'') (\<lambda>dag_id.
     bind_result (safe_part (or_run_id run) ''run_id'') (\<lambda>run_id.
     Inr (without_slashes manifest_prefix @ slot_path date hour @ ''/dag_id='' @ dag_id @ ''/run_id='' @ run_id @ ''.json''))))"

section \<open>Checkpoints\<close>

definition checkpoint_document :: "observation_checkpoint \<Rightarrow> pyobj" where
  "checkpoint_document c =
     PDict
       [(''source_id'', PStr (oc_source_id c)), (''dag_id'', PStr (oc_dag_id c)), (''run_id'', PStr (oc_run_id c)),
        (''base_date'', PStr (oc_base_date c)), (''base_time'', PStr (oc_base_time c)),
        (''observed_slot'', PStr (oc_observed_slot c)), (''nx'', PInt (oc_nx c)), (''ny'', PInt (oc_ny c)),
        (''request_id'', PStr (oc_request_id c)), (''raw_object_key'', PStr (oc_raw_object_key c)),
        (''payload_sha256'', PStr (oc_payload_sha256 c)), (''http_status'', PInt (oc_http_status c)),
        (''collected_at'', PStr (iso_text (oc_collected_at c))), (''category_count'', PInt (oc_category_count c)),
        (''categories'', PList (map PStr (oc_categories c))), (''schema_version'', PInt 1)]"

definition checkpoint_bytes :: "pylib \<Rightarrow> observation_checkpoint \<Rightarrow> string" where
  "checkpoint_bytes L c = render L (sort_keys (checkpoint_document c))"

text \<open>\<open>int(document[key])\<close>, \<open>datetime.fromisoformat(document[key])\<close>, and iteration.\<close>

definition int_item :: "pyobj pydict \<Rightarrow> string \<Rightarrow> int result" where
  "int_item d k = bind_result (dict_item k d) py_int"

definition time_item :: "pylib \<Rightarrow> pyobj pydict \<Rightarrow> string \<Rightarrow> pydatetime result" where
  "time_item L d k =
     bind_result (dict_item k d) (\<lambda>v.
     case v of
       PStr s \<Rightarrow> (case fromisoformat L s of None \<Rightarrow> Inl (ValueError ''Invalid isoformat string'') | Some t \<Rightarrow> Inr t)
     | _ \<Rightarrow> Inl (TypeError ''fromisoformat: argument must be str''))"

function text_points :: "string \<Rightarrow> string list" where
  "text_points s =
     (case utf8_head s of None \<Rightarrow> [] | Some (_, r) \<Rightarrow> take (length s - length r) s # text_points r)"
  by pat_completeness auto
termination by (relation "measure length") (auto dest: utf8_head_shorter)

declare text_points.simps [simp del]

definition iterated :: "pyobj \<Rightarrow> pyobj list result" where
  "iterated v =
     (case v of
        PList xs \<Rightarrow> Inr xs
      | PDict d \<Rightarrow> Inr (map (PStr \<circ> fst) d)
      | PStr s \<Rightarrow> Inr (map PStr (text_points s))
      | _ \<Rightarrow> Inl (TypeError ''object is not iterable''))"

definition texts_item :: "pylib \<Rightarrow> pyobj pydict \<Rightarrow> string \<Rightarrow> string list result" where
  "texts_item L d k =
     bind_result (dict_item k d) (\<lambda>v. bind_result (iterated v) (\<lambda>xs. Inr (map (py_str L) xs)))"

definition checkpoint_of_document :: "pylib \<Rightarrow> pyobj pydict \<Rightarrow> observation_checkpoint result" where
  "checkpoint_of_document L d =
     (if \<not> py_eq (dict_get ''schema_version'' d) (PInt 1) then Inl (ValueError ''schema version'')
      else bind_result (text_item L d ''source_id'') (\<lambda>source_id.
           bind_result (text_item L d ''dag_id'') (\<lambda>dag_id.
           bind_result (text_item L d ''run_id'') (\<lambda>run_id.
           bind_result (text_item L d ''base_date'') (\<lambda>base_date.
           bind_result (text_item L d ''base_time'') (\<lambda>base_time.
           bind_result (text_item L d ''observed_slot'') (\<lambda>slot.
           bind_result (int_item d ''nx'') (\<lambda>nx.
           bind_result (int_item d ''ny'') (\<lambda>ny.
           bind_result (text_item L d ''request_id'') (\<lambda>request_id.
           bind_result (text_item L d ''raw_object_key'') (\<lambda>raw_key.
           bind_result (text_item L d ''payload_sha256'') (\<lambda>sha.
           bind_result (int_item d ''http_status'') (\<lambda>status.
           bind_result (time_item L d ''collected_at'') (\<lambda>collected.
           bind_result (int_item d ''category_count'') (\<lambda>n.
           bind_result (texts_item L d ''categories'') (\<lambda>categories.
           Inr \<lparr>oc_source_id = source_id, oc_dag_id = dag_id, oc_run_id = run_id, oc_base_date = base_date,
                oc_base_time = base_time, oc_observed_slot = slot, oc_nx = nx, oc_ny = ny,
                oc_request_id = request_id, oc_raw_object_key = raw_key, oc_payload_sha256 = sha,
                oc_http_status = status, oc_collected_at = collected, oc_category_count = n,
                oc_categories = categories\<rparr>))))))))))))))))"

definition checkpoint_from_bytes :: "pylib \<Rightarrow> string \<Rightarrow> observation_checkpoint result" where
  "checkpoint_from_bytes L payload =
     try_except
       (case json_loads L payload of
          None \<Rightarrow> Inl (ValueError ''Expecting value'')
        | Some (PDict d) \<Rightarrow> checkpoint_of_document L d
        | Some _ \<Rightarrow> Inl (AttributeError ''get''))
       (\<lambda>e. is_key_error e \<or> is_type_error e \<or> is_value_error e)
       (\<lambda>_. Inl (WeatherRawIntegrityError ''KMA observation checkpoint is malformed''))"

definition validate_grids :: "int \<Rightarrow> observation_grid list \<Rightarrow> observation_grid list result" where
  "validate_grids expected grids =
     (let keys = map (\<lambda>g. (og_nx g, og_ny g)) grids
      in if \<not> distinct keys
         then Inl (WeatherCompletenessError ''KMA observation grid collection contains a duplicate grid'')
         else if int (length keys) \<noteq> expected
         then Inl (WeatherCompletenessError ''KMA observation grid count mismatch'')
         else Inr grids)"

definition validate_checkpoint_identity ::
  "observation_run \<Rightarrow> string \<Rightarrow> string \<Rightarrow> string \<Rightarrow> observation_grid \<Rightarrow> observation_checkpoint \<Rightarrow> unit result" where
  "validate_checkpoint_identity run base_date base_time slot grid c =
     (if oc_source_id c \<noteq> observation_source_id
      then Inl (WeatherRawIntegrityError ''KMA observation checkpoint source does not match'')
      else if oc_dag_id c \<noteq> or_dag_id run \<or> oc_run_id c \<noteq> or_run_id run
      then Inl (WeatherRawIntegrityError ''KMA observation checkpoint run identity does not match'')
      else if oc_base_date c \<noteq> base_date \<or> oc_base_time c \<noteq> base_time \<or> oc_observed_slot c \<noteq> slot
      then Inl (WeatherRawIntegrityError ''KMA observation checkpoint slot does not match'')
      else if oc_nx c \<noteq> og_nx grid \<or> oc_ny c \<noteq> og_ny grid
      then Inl (WeatherRawIntegrityError ''KMA observation checkpoint grid does not match'')
      else if oc_category_count c \<noteq> int (length required_categories) \<or> oc_categories c \<noteq> required_categories
      then Inl (WeatherRawIntegrityError ''KMA observation checkpoint category contract does not match'')
      else Inr ())"

definition raw_of_checkpoint :: "observation_checkpoint \<Rightarrow> raw_object" where
  "raw_of_checkpoint c =
     \<lparr>ro_request_id = oc_request_id c, ro_raw_object_key = oc_raw_object_key c, ro_payload_sha256 = oc_payload_sha256 c,
      ro_http_status = oc_http_status c, ro_collected_at = oc_collected_at c, ro_nx = oc_nx c, ro_ny = oc_ny c,
      ro_category_count = oc_category_count c, ro_categories = oc_categories c\<rparr>"

text \<open>
  \<open>_raw_from_checkpoint\<close>.  The key is made with the default prefix, whatever prefix the landing has.
\<close>

definition is_schema_error :: "pyexc \<Rightarrow> bool" where
  "is_schema_error e \<longleftrightarrow> (case e of WeatherSourceSchemaError _ \<Rightarrow> True | _ \<Rightarrow> False)"

definition raw_from_checkpoint ::
  "pylib \<Rightarrow> (string \<Rightarrow> pyfloat option) \<Rightarrow> observation_run \<Rightarrow> observation_grid \<Rightarrow> observation_checkpoint \<Rightarrow> string
     \<Rightarrow> raw_object result" where
  "raw_from_checkpoint L ftext run grid c payload =
     (if sha256_hex L payload \<noteq> oc_payload_sha256 c
      then Inl (WeatherRawIntegrityError ''KMA observation checkpointed raw payload hash does not match'')
      else bind_result
             (observation_raw_object_key L run (oc_base_date c) (oc_base_time c) grid (oc_request_id c) payload
                default_raw_prefix) (\<lambda>expected_key.
           if expected_key \<noteq> oc_raw_object_key c
           then Inl (WeatherRawIntegrityError ''KMA observation checkpoint raw object key does not match hash context'')
           else bind_result
                  (try_except
                     (parse_and_normalize_kma_observation L ftext (PStr (oc_base_date c)) (PStr (oc_base_time c))
                        (PInt (og_nx grid)) (PInt (og_ny grid)) (oc_collected_at c) payload)
                     is_schema_error
                     (\<lambda>_. Inl (WeatherRawIntegrityError ''KMA observation checkpointed raw context is invalid''))) (\<lambda>(_, records).
                if map ob_category records \<noteq> required_categories
                then Inl (WeatherRawIntegrityError ''KMA observation checkpointed raw categories are invalid'')
                else Inr (raw_of_checkpoint c))))"

section \<open>The manifest\<close>

definition manifest_entry :: "observation_checkpoint \<Rightarrow> pyobj" where
  "manifest_entry c =
     PDict
       [(''nx'', PInt (oc_nx c)), (''ny'', PInt (oc_ny c)), (''request_id'', PStr (oc_request_id c)),
        (''raw_object_key'', PStr (oc_raw_object_key c)), (''payload_sha256'', PStr (oc_payload_sha256 c)),
        (''category_count'', PInt (oc_category_count c))]"

definition grid_order :: "observation_checkpoint \<Rightarrow> int \<times> int" where
  "grid_order c = (oc_nx c, oc_ny c)"

definition manifest_document ::
  "observation_run \<Rightarrow> string \<Rightarrow> string \<Rightarrow> string \<Rightarrow> int \<Rightarrow> observation_checkpoint list \<Rightarrow> pyobj" where
  "manifest_document run date hour slot row_count checkpoints =
     PDict
       [(''schema_version'', PInt 1), (''status'', PStr ''complete''), (''source_id'', PStr observation_source_id),
        (''dag_id'', PStr (or_dag_id run)), (''run_id'', PStr (or_run_id run)), (''base_date'', PStr date),
        (''base_time'', PStr hour), (''observed_slot'', PStr slot), (''grid_count'', PInt (int (length checkpoints))),
        (''row_count'', PInt row_count), (''categories'', PList (map PStr required_categories)),
        (''raw_objects'', PList (map manifest_entry (sort_key grid_order checkpoints)))]"

definition build_complete_observation_manifest ::
  "pylib \<Rightarrow> observation_run \<Rightarrow> string \<Rightarrow> string \<Rightarrow> int \<Rightarrow> observation_checkpoint list \<Rightarrow> pyobj result" where
  "build_complete_observation_manifest L run base_date base_time expected checkpoints =
     bind_result (normalize_observation_slot L (PStr base_date) (PStr base_time)) (\<lambda>(date, hour).
     bind_result (observed_slot L date hour) (\<lambda>slot.
     let row_count = sum_list (map oc_category_count checkpoints)
     in if \<not> distinct (map grid_order checkpoints)
        then Inl (WeatherCompletenessError ''KMA observation complete manifest contains a duplicate grid'')
        else if int (length checkpoints) \<noteq> expected
        then Inl (WeatherCompletenessError ''KMA observation complete manifest grid count mismatch'')
        else if row_count \<noteq> expected * int (length required_categories)
        then Inl (WeatherCompletenessError ''KMA observation complete manifest row count mismatch'')
        else bind_result
               (traverse (\<lambda>c.
                  bind_result (observation_grid_init (oc_nx c) (oc_ny c)) (\<lambda>grid.
                  validate_checkpoint_identity run date hour slot grid c)) checkpoints) (\<lambda>_.
             Inr (manifest_document run date hour slot row_count checkpoints))))"

section \<open>The landing\<close>

record landing_config =
  lc_expected_grid_count :: int
  lc_raw_prefix :: string
  lc_checkpoint_prefix :: string
  lc_manifest_prefix :: string

text \<open>\<open>KmaObservationLanding.__init__\<close>.\<close>

definition landing_config_init :: "pyobj \<Rightarrow> string \<Rightarrow> string \<Rightarrow> string \<Rightarrow> landing_config result" where
  "landing_config_init expected raw_prefix checkpoint_prefix manifest_prefix =
     (let unfit = Inl (WeatherCompletenessError ''KMA observation expected grid count must be positive'')
      in case expected of
          PInt n \<Rightarrow>
            if n < 1 then unfit
            else Inr \<lparr>lc_expected_grid_count = n, lc_raw_prefix = raw_prefix, lc_checkpoint_prefix = checkpoint_prefix,
                      lc_manifest_prefix = manifest_prefix\<rparr>
        | _ \<Rightarrow> unfit)"

record 's landing_ports =
  lp_store :: "'s raw_store"
  lp_clock :: "'s \<Rightarrow> pydatetime \<times> 's"
  lp_monotonic :: "'s \<Rightarrow> rat \<times> 's"
  lp_request_id :: "'s \<Rightarrow> string \<times> 's"
  lp_open_source :: "cycle_deadline \<Rightarrow> 's \<Rightarrow> unit result \<times> 's"
  lp_fetch :: "string \<Rightarrow> string \<Rightarrow> fetch_request \<Rightarrow> 's \<Rightarrow> (int \<times> string) result \<times> 's"

definition write_identical_or_absent ::
  "('s, 'b) raw_store_scheme \<Rightarrow> string \<Rightarrow> string \<Rightarrow> string \<Rightarrow> 's \<Rightarrow> unit result \<times> 's" where
  "write_identical_or_absent B key payload kind s =
     and_then (raw_put_if_absent B key payload s) (\<lambda>created s.
     if created then (Inr (), s)
     else (case raw_read B key s of (existing, s) \<Rightarrow>
        (bind_result
           (try_except existing is_missing_object
              (\<lambda>_. Inl (WeatherRawIntegrityError (''KMA observation '' @ kind @ '' conflict disappeared'')))) (\<lambda>e.
         require (e = payload)
           (WeatherRawIntegrityError (''KMA observation '' @ kind @ '' conflict is not byte-identical''))), s)))"

text \<open>What is known of the cycle: the run, the normalised slot and its text.\<close>

record landing_cycle =
  ly_run :: observation_run
  ly_base_date :: string
  ly_base_time :: string
  ly_slot :: string

definition fetch_of :: "landing_cycle \<Rightarrow> observation_grid \<Rightarrow> string \<Rightarrow> fetch_request" where
  "fetch_of y grid request_id =
     \<lparr>fr_nx = og_nx grid, fr_ny = og_ny grid, fr_dag_run_id = or_run_id (ly_run y), fr_observed_slot = ly_slot y,
      fr_request_id = request_id\<rparr>"

text \<open>The checkpoint of a response, or why it is not accepted; and the key of its raw object.\<close>

definition checkpoint_of_response ::
  "pylib \<Rightarrow> (string \<Rightarrow> pyfloat option) \<Rightarrow> landing_config \<Rightarrow> landing_cycle \<Rightarrow> observation_grid \<Rightarrow> string \<Rightarrow> int
     \<Rightarrow> string \<Rightarrow> pydatetime \<Rightarrow> observation_checkpoint result" where
  "checkpoint_of_response L ftext cfg y grid request_id status payload collected =
     bind_result
       (parse_and_normalize_kma_observation L ftext (PStr (ly_base_date y)) (PStr (ly_base_time y))
          (PInt (og_nx grid)) (PInt (og_ny grid)) collected payload) (\<lambda>((_, sha), records).
     if map ob_category records \<noteq> required_categories
     then Inl (WeatherSourceSchemaError ''KMA observation normalized categories are incomplete'')
     else bind_result
            (observation_raw_object_key L (ly_run y) (ly_base_date y) (ly_base_time y) grid request_id payload
               (lc_raw_prefix cfg)) (\<lambda>key.
          Inr \<lparr>oc_source_id = observation_source_id, oc_dag_id = or_dag_id (ly_run y), oc_run_id = or_run_id (ly_run y),
               oc_base_date = ly_base_date y, oc_base_time = ly_base_time y, oc_observed_slot = ly_slot y,
               oc_nx = og_nx grid, oc_ny = og_ny grid, oc_request_id = request_id, oc_raw_object_key = key,
               oc_payload_sha256 = sha, oc_http_status = status, oc_collected_at = collected,
               oc_category_count = int (length records), oc_categories = map ob_category records\<rparr>))"

text \<open>\<open>_collect_grid\<close>: the raw object is stored before its checkpoint.\<close>

definition collect_grid ::
  "pylib \<Rightarrow> (string \<Rightarrow> pyfloat option) \<Rightarrow> ('s, 'b) landing_ports_scheme \<Rightarrow> landing_config \<Rightarrow> landing_cycle
     \<Rightarrow> observation_grid \<Rightarrow> string \<Rightarrow> 's \<Rightarrow> observation_checkpoint result \<times> 's" where
  "collect_grid L ftext P cfg y grid key s =
     (case lp_request_id P s of (request_id, s) \<Rightarrow>
        and_then (lp_fetch P (ly_base_date y) (ly_base_time y) (fetch_of y grid request_id) s) (\<lambda>(status, payload) s.
        if \<not> (200 \<le> status \<and> status < 300)
        then (Inl (WeatherSourceSchemaError ''KMA observation source returned a non-success status''), s)
        else (case lp_clock P s of (collected, s) \<Rightarrow>
          and_then (checkpoint_of_response L ftext cfg y grid request_id status payload collected, s) (\<lambda>c s.
          and_then (write_identical_or_absent (lp_store P) (oc_raw_object_key c) payload ''raw object'' s) (\<lambda>_ s.
          and_then (write_identical_or_absent (lp_store P) key (checkpoint_bytes L c) ''checkpoint'' s) (\<lambda>_ s.
          (Inr c, s)))))))"

text \<open>A grid whose checkpoint is found.\<close>

definition resume_grid ::
  "pylib \<Rightarrow> (string \<Rightarrow> pyfloat option) \<Rightarrow> ('s, 'b) landing_ports_scheme \<Rightarrow> landing_cycle
     \<Rightarrow> observation_grid \<Rightarrow> string \<Rightarrow> 's \<Rightarrow> observation_checkpoint result \<times> 's" where
  "resume_grid L ftext P y grid key s =
     (let B = lp_store P in
      and_then (raw_read B key s) (\<lambda>bytes s.
      and_then (checkpoint_from_bytes L bytes, s) (\<lambda>c s.
      and_then (validate_checkpoint_identity (ly_run y) (ly_base_date y) (ly_base_time y) (ly_slot y) grid c, s) (\<lambda>_ s.
      and_then (raw_exists B (oc_raw_object_key c) s) (\<lambda>present s.
      if \<not> present then (Inl (WeatherRawIntegrityError ''KMA observation checkpointed raw object is missing''), s)
      else and_then (raw_read B (oc_raw_object_key c) s) (\<lambda>payload s.
           and_then (raw_from_checkpoint L ftext (ly_run y) grid c payload, s) (\<lambda>_ s. (Inr c, s))))))))"

text \<open>The grids of the loop: each checkpoint, and whether it was reused.\<close>

definition land_grid ::
  "pylib \<Rightarrow> (string \<Rightarrow> pyfloat option) \<Rightarrow> ('s, 'b) landing_ports_scheme \<Rightarrow> landing_config \<Rightarrow> landing_cycle
     \<Rightarrow> observation_grid \<Rightarrow> 's \<Rightarrow> (observation_checkpoint \<times> bool) result \<times> 's" where
  "land_grid L ftext P cfg y grid s =
     and_then (observation_checkpoint_key L (ly_run y) (ly_base_date y) (ly_base_time y) grid (lc_checkpoint_prefix cfg), s)
       (\<lambda>key s.
     and_then (raw_exists (lp_store P) key s) (\<lambda>present s.
     if present then and_then (resume_grid L ftext P y grid key s) (\<lambda>c s. (Inr (c, True), s))
     else and_then (collect_grid L ftext P cfg y grid key s) (\<lambda>c s. (Inr (c, False), s))))"

fun land_grids ::
  "pylib \<Rightarrow> (string \<Rightarrow> pyfloat option) \<Rightarrow> ('s, 'b) landing_ports_scheme \<Rightarrow> landing_config \<Rightarrow> landing_cycle
     \<Rightarrow> observation_grid list \<Rightarrow> 's \<Rightarrow> (observation_checkpoint \<times> bool) list result \<times> 's" where
  "land_grids L ftext P cfg y [] s = (Inr [], s)"
| "land_grids L ftext P cfg y (grid # grids) s =
     and_then (land_grid L ftext P cfg y grid s) (\<lambda>c s.
     and_then (land_grids L ftext P cfg y grids s) (\<lambda>cs s. (Inr (c # cs), s)))"

text \<open>The deadline of the cycle is set up and the source is opened before the first grid.\<close>

definition open_cycle ::
  "pylib \<Rightarrow> ('s, 'b) landing_ports_scheme \<Rightarrow> landing_cycle \<Rightarrow> 's \<Rightarrow> unit result \<times> 's" where
  "open_cycle L P y s =
     and_then
       (initialize_cycle_deadline L (lp_store P) (lp_clock P)
          \<lparr>ci_dag_id = or_dag_id (ly_run y), ci_dag_run_id = or_run_id (ly_run y), ci_source_id = observation_source_id,
           ci_observed_slot = ly_slot y\<rparr> s) (\<lambda>anchor s.
     case lp_monotonic P s of (monotonic, s) \<Rightarrow>
       (case lp_clock P s of (wall, s) \<Rightarrow>
          and_then (new_cycle_deadline anchor wall monotonic, s) (lp_open_source P)))"

definition write_manifest ::
  "pylib \<Rightarrow> ('s, 'b) raw_store_scheme \<Rightarrow> landing_config \<Rightarrow> landing_cycle \<Rightarrow> observation_checkpoint list \<Rightarrow> 's
     \<Rightarrow> string result \<times> 's" where
  "write_manifest L B cfg y checkpoints s =
     and_then (build_complete_observation_manifest L (ly_run y) (ly_base_date y) (ly_base_time y)
                 (lc_expected_grid_count cfg) checkpoints, s) (\<lambda>manifest s.
     and_then (observation_manifest_key L (ly_run y) (ly_base_date y) (ly_base_time y) (lc_manifest_prefix cfg), s) (\<lambda>key s.
     and_then (write_identical_or_absent B key (render L (sort_keys manifest)) ''manifest'' s) (\<lambda>_ s. (Inr key, s))))"

definition batch_of :: "landing_cycle \<Rightarrow> (observation_checkpoint \<times> bool) list \<Rightarrow> string \<Rightarrow> landing_batch" where
  "batch_of y landed key =
     (let raws = map (raw_of_checkpoint \<circ> fst) landed
      in \<lparr>lb_source_id = observation_source_id, lb_dag_id = or_dag_id (ly_run y), lb_run_id = or_run_id (ly_run y),
          lb_base_date = ly_base_date y, lb_base_time = ly_base_time y, lb_observed_slot = ly_slot y,
          lb_raw_objects = raws, lb_grid_count = length raws, lb_row_count = sum_list (map ro_category_count raws),
          lb_api_request_count = length (filter (\<lambda>c. \<not> snd c) landed), lb_reused_grid_count = length (filter snd landed),
          lb_manifest_key = key, lb_is_publishable = True\<rparr>)"

definition collect_observations ::
  "pylib \<Rightarrow> (string \<Rightarrow> pyfloat option) \<Rightarrow> ('s, 'b) landing_ports_scheme \<Rightarrow> landing_config \<Rightarrow> observation_run
     \<Rightarrow> landing_request \<Rightarrow> 's \<Rightarrow> landing_batch result \<times> 's" where
  "collect_observations L ftext P cfg run q s =
     and_then (normalize_observation_slot L (PStr (lq_base_date q)) (PStr (lq_base_time q)), s) (\<lambda>(date, hour) s.
     and_then (validate_grids (lc_expected_grid_count cfg) (lq_grids q), s) (\<lambda>grids s.
     and_then (observed_slot L date hour, s) (\<lambda>slot s.
     let y = \<lparr>ly_run = run, ly_base_date = date, ly_base_time = hour, ly_slot = slot\<rparr> in
     and_then (open_cycle L P y s) (\<lambda>_ s.
     and_then (land_grids L ftext P cfg y grids s) (\<lambda>landed s.
     and_then (write_manifest L (lp_store P) cfg y (map fst landed) s) (\<lambda>key s.
     (Inr (batch_of y landed key), s)))))))"

section \<open>What the landing leaves alone\<close>

text \<open>A relation between states that every port respects is respected by the landing.\<close>

locale landing_frame =
  fixes P :: "('s, 'b) landing_ports_scheme" and R :: "'s \<Rightarrow> 's \<Rightarrow> bool"
  assumes R_refl: "R s s" and R_trans: "R s t \<Longrightarrow> R t u \<Longrightarrow> R s u"
    and exists_frame: "R s (snd (raw_exists (lp_store P) k s))"
    and read_frame: "R s (snd (raw_read (lp_store P) k s))"
    and put_frame: "R s (snd (raw_put_if_absent (lp_store P) k d s))"
    and clock_frame: "R s (snd (lp_clock P s))"
    and monotonic_frame: "R s (snd (lp_monotonic P s))"
    and request_id_frame: "R s (snd (lp_request_id P s))"
    and open_frame: "R s (snd (lp_open_source P v s))"
    and fetch_frame: "R s (snd (lp_fetch P d h q s))"
begin

lemmas ports_frame =
  R_refl exists_frame read_frame put_frame clock_frame monotonic_frame request_id_frame open_frame fetch_frame

lemma frame_then: "R s (snd m) \<Longrightarrow> (\<And>x t. R t (snd (f x t))) \<Longrightarrow> R s (snd (and_then m f))"
  by (cases m; cases "fst m") (auto intro: R_trans)

lemma frame_case: "R s (snd p) \<Longrightarrow> (\<And>x t. R t (snd (f x t))) \<Longrightarrow> R s (snd (case p of (x, t) \<Rightarrow> f x t))"
  by (cases p) (auto intro: R_trans)

lemma frame_pair: "(\<And>a b. R s (snd (f a b s))) \<Longrightarrow> R s (snd ((case x of (a, b) \<Rightarrow> f a b) s))"
  by (cases x) simp

lemma frame_if: "R s (snd a) \<Longrightarrow> R s (snd b) \<Longrightarrow> R s (snd (if c then a else b))"
  by simp

lemma frame_done: "R s (snd (r, s))"
  by (simp add: R_refl)

lemmas frame_intros = frame_then frame_case frame_pair frame_if frame_done

lemma write_frame: "R s (snd (write_identical_or_absent (lp_store P) k d kind s))"
  unfolding write_identical_or_absent_def by (intro frame_intros ports_frame)

lemma resume_frame: "R s (snd (resume_grid L ftext P y grid key s))"
  unfolding resume_grid_def Let_def by (intro frame_intros ports_frame)

lemma collect_grid_frame: "R s (snd (collect_grid L ftext P cfg y grid key s))"
  unfolding collect_grid_def by (intro frame_intros ports_frame write_frame)

lemma land_grid_frame: "R s (snd (land_grid L ftext P cfg y grid s))"
  unfolding land_grid_def by (intro frame_intros ports_frame resume_frame collect_grid_frame)

lemma land_grids_frame: "R s (snd (land_grids L ftext P cfg y grids s))"
proof (induction grids arbitrary: s)
  case Nil
  then show ?case by (simp add: R_refl)
next
  case (Cons grid grids)
  show ?case unfolding land_grids.simps by (intro frame_intros land_grid_frame Cons.IH)
qed

lemma initialize_frame: "R s (snd (initialize_cycle_deadline L (lp_store P) (lp_clock P) ci s))"
proof -
  obtain t s0 where clock: "lp_clock P s = (t, s0)" by force
  have s0: "R s s0" using clock_frame [of s] clock by simp
  have put: "R s (snd (raw_put_if_absent (lp_store P) key d s0))" for key d
    using s0 put_frame by (rule R_trans)
  then have got: "R s (snd (raw_read (lp_store P) key (snd (raw_put_if_absent (lp_store P) key d s0))))" for key d
    using read_frame by (rule R_trans)
  show ?thesis
    using s0 put got clock R_refl
    by (auto simp: initialize_cycle_deadline_def load_cycle_deadline_def split: sum.splits prod.splits) (metis snd_conv)+
qed

lemma open_cycle_frame: "R s (snd (open_cycle L P y s))"
  unfolding open_cycle_def by (intro frame_intros ports_frame initialize_frame)

lemma write_manifest_frame: "R s (snd (write_manifest L (lp_store P) cfg y cs s))"
  unfolding write_manifest_def by (intro frame_intros ports_frame write_frame)

lemma collect_frame: "R s (snd (collect_observations L ftext P cfg run q s))"
  unfolding collect_observations_def Let_def
  by (intro frame_intros open_cycle_frame land_grids_frame write_manifest_frame)

end

section \<open>What a landed grid is\<close>

text \<open>
  The store holds the checkpoint of the grid, which is of the run and the slot, and the raw object it
  names, whose hash and key it carries and which is a complete response for the grid.
\<close>

definition complete_response ::
  "pylib \<Rightarrow> (string \<Rightarrow> pyfloat option) \<Rightarrow> landing_cycle \<Rightarrow> observation_grid \<Rightarrow> pydatetime \<Rightarrow> string \<Rightarrow> bool" where
  "complete_response L ftext y grid collected payload \<longleftrightarrow>
     (\<exists>meta records. parse_and_normalize_kma_observation L ftext (PStr (ly_base_date y)) (PStr (ly_base_time y))
        (PInt (og_nx grid)) (PInt (og_ny grid)) collected payload = Inr (meta, records)
      \<and> map ob_category records = required_categories)"

definition raw_matches ::
  "pylib \<Rightarrow> (string \<Rightarrow> pyfloat option) \<Rightarrow> string \<Rightarrow> landing_cycle \<Rightarrow> observation_grid \<Rightarrow> observation_checkpoint \<Rightarrow> string \<Rightarrow> bool" where
  "raw_matches L ftext prefix y grid c payload \<longleftrightarrow>
     sha256_hex L payload = oc_payload_sha256 c
     \<and> observation_raw_object_key L (ly_run y) (oc_base_date c) (oc_base_time c) grid (oc_request_id c) payload prefix
         = Inr (oc_raw_object_key c)
     \<and> complete_response L ftext y grid (oc_collected_at c) payload"

definition grid_landed ::
  "pylib \<Rightarrow> (string \<Rightarrow> pyfloat option) \<Rightarrow> string \<Rightarrow> landing_config \<Rightarrow> landing_cycle \<Rightarrow> (string \<Rightarrow> string option)
     \<Rightarrow> observation_grid \<Rightarrow> observation_checkpoint \<Rightarrow> bool" where
  "grid_landed L ftext prefix cfg y objs grid c \<longleftrightarrow>
     validate_checkpoint_identity (ly_run y) (ly_base_date y) (ly_base_time y) (ly_slot y) grid c = Inr ()
     \<and> (\<exists>key bytes.
          observation_checkpoint_key L (ly_run y) (ly_base_date y) (ly_base_time y) grid (lc_checkpoint_prefix cfg) = Inr key
        \<and> objs key = Some bytes \<and> checkpoint_from_bytes L bytes = Inr c)
     \<and> (\<exists>payload. objs (oc_raw_object_key c) = Some payload \<and> raw_matches L ftext prefix y grid c payload)"

lemma grid_landed_grows: "grid_landed L ftext prefix cfg y m grid c \<Longrightarrow> m \<subseteq>\<^sub>m m' \<Longrightarrow> grid_landed L ftext prefix cfg y m' grid c"
  unfolding grid_landed_def by (blast intro: map_le_Some)

lemma validate_identity_fields:
  "validate_checkpoint_identity run d h slot grid c = Inr () \<Longrightarrow>
     oc_base_date c = d \<and> oc_base_time c = h \<and> oc_nx c = og_nx grid \<and> oc_ny c = og_ny grid
     \<and> oc_category_count c = int (length required_categories) \<and> oc_categories c = required_categories"
  by (auto simp: validate_checkpoint_identity_def split: if_splits)

lemma raw_from_checkpoint_Inr:
  assumes "validate_checkpoint_identity (ly_run y) (ly_base_date y) (ly_base_time y) (ly_slot y) grid c = Inr ()"
  shows "raw_from_checkpoint L ftext (ly_run y) grid c payload = Inr r \<longleftrightarrow>
     raw_matches L ftext default_raw_prefix y grid c payload \<and> r = raw_of_checkpoint c"
  using validate_identity_fields [OF assms]
  by (auto simp: raw_from_checkpoint_def raw_matches_def complete_response_def bind_result_Inr_iff try_except_Inr_iff
      is_schema_error_def split: if_splits pyexc.splits)

lemma checkpoint_of_response_Inr:
  assumes "checkpoint_of_response L ftext cfg y grid request_id status payload collected = Inr c"
  shows "validate_checkpoint_identity (ly_run y) (ly_base_date y) (ly_base_time y) (ly_slot y) grid c = Inr ()
    \<and> raw_matches L ftext (lc_raw_prefix cfg) y grid c payload
    \<and> (\<exists>u. oc_collected_at c = Aware u \<and> in_range u)"
proof -
  obtain meta sha records key where parts:
    "parse_and_normalize_kma_observation L ftext (PStr (ly_base_date y)) (PStr (ly_base_time y))
       (PInt (og_nx grid)) (PInt (og_ny grid)) collected payload = Inr ((meta, sha), records)"
    "map ob_category records = required_categories"
    "observation_raw_object_key L (ly_run y) (ly_base_date y) (ly_base_time y) grid request_id payload (lc_raw_prefix cfg)
       = Inr key"
    "c = \<lparr>oc_source_id = observation_source_id, oc_dag_id = or_dag_id (ly_run y), oc_run_id = or_run_id (ly_run y),
          oc_base_date = ly_base_date y, oc_base_time = ly_base_time y, oc_observed_slot = ly_slot y,
          oc_nx = og_nx grid, oc_ny = og_ny grid, oc_request_id = request_id, oc_raw_object_key = key,
          oc_payload_sha256 = sha, oc_http_status = status, oc_collected_at = collected,
          oc_category_count = int (length records), oc_categories = map ob_category records\<rparr>"
    using assms by (auto simp: checkpoint_of_response_def bind_result_Inr_iff split: if_splits prod.splits)
  obtain rows where rows: "sha = sha256_hex L payload"
    "normalize_kma_observation_rows L ftext (PStr (ly_base_date y)) (PStr (ly_base_time y)) (PInt (og_nx grid))
       (PInt (og_ny grid)) collected sha rows = Inr records"
    using parts(1) by (auto simp: parse_and_normalize_kma_observation_def bind_result_Inr_iff Let_def)
  obtain u where "collected = Aware u" "in_range u" using normalize_Inr [OF rows(2)] by metis
  moreover have "length records = length required_categories" using parts(2) by (metis length_map)
  ultimately show ?thesis using parts rows(1)
    by (auto simp: validate_checkpoint_identity_def raw_matches_def complete_response_def)
qed

text \<open>A checkpoint reads back from its bytes.\<close>

lemma checkpoint_fields:
  assumes "sort_keys (checkpoint_document c) = PDict e"
  shows "map_of e ''source_id'' = Some (PStr (oc_source_id c))" "map_of e ''dag_id'' = Some (PStr (oc_dag_id c))"
    "map_of e ''run_id'' = Some (PStr (oc_run_id c))" "map_of e ''base_date'' = Some (PStr (oc_base_date c))"
    "map_of e ''base_time'' = Some (PStr (oc_base_time c))" "map_of e ''observed_slot'' = Some (PStr (oc_observed_slot c))"
    "map_of e ''nx'' = Some (PInt (oc_nx c))" "map_of e ''ny'' = Some (PInt (oc_ny c))"
    "map_of e ''request_id'' = Some (PStr (oc_request_id c))" "map_of e ''raw_object_key'' = Some (PStr (oc_raw_object_key c))"
    "map_of e ''payload_sha256'' = Some (PStr (oc_payload_sha256 c))" "map_of e ''http_status'' = Some (PInt (oc_http_status c))"
    "map_of e ''collected_at'' = Some (PStr (iso_text (oc_collected_at c)))"
    "map_of e ''category_count'' = Some (PInt (oc_category_count c))"
    "map_of e ''categories'' = Some (PList (map PStr (oc_categories c)))" "map_of e ''schema_version'' = Some (PInt 1)"
proof -
  obtain d where d: "checkpoint_document c = PDict d" by (simp add: checkpoint_document_def)
  then have "dict_wf d" by (auto simp: checkpoint_document_def dict_wf_def)
  note fields = sort_keys_dict_get [OF this assms [unfolded d]]
  have [simp]: "map (sort_keys \<circ> PStr) xs = map PStr xs" for xs by simp
  note d' = d [unfolded checkpoint_document_def, simplified, symmetric]
  show "map_of e ''source_id'' = Some (PStr (oc_source_id c))" "map_of e ''dag_id'' = Some (PStr (oc_dag_id c))"
    "map_of e ''run_id'' = Some (PStr (oc_run_id c))" "map_of e ''base_date'' = Some (PStr (oc_base_date c))"
    "map_of e ''base_time'' = Some (PStr (oc_base_time c))" "map_of e ''observed_slot'' = Some (PStr (oc_observed_slot c))"
    "map_of e ''nx'' = Some (PInt (oc_nx c))" "map_of e ''ny'' = Some (PInt (oc_ny c))"
    "map_of e ''request_id'' = Some (PStr (oc_request_id c))" "map_of e ''raw_object_key'' = Some (PStr (oc_raw_object_key c))"
    "map_of e ''payload_sha256'' = Some (PStr (oc_payload_sha256 c))" "map_of e ''http_status'' = Some (PInt (oc_http_status c))"
    "map_of e ''collected_at'' = Some (PStr (iso_text (oc_collected_at c)))"
    "map_of e ''category_count'' = Some (PInt (oc_category_count c))"
    "map_of e ''categories'' = Some (PList (map PStr (oc_categories c)))" "map_of e ''schema_version'' = Some (PInt 1)"
    by (simp_all add: fields d')
qed

context json_codec
begin

lemma checkpoint_reads_back:
  assumes "oc_collected_at c = Aware u" "in_range u"
  shows "checkpoint_from_bytes L (checkpoint_bytes L c) = Inr c"
proof -
  obtain e where e: "sort_keys (checkpoint_document c) = PDict e" by (simp add: checkpoint_document_def)
  have "plain (sort_keys (checkpoint_document c))" by (auto simp: checkpoint_document_def list_all_iff)
  then have "json_loads L (checkpoint_bytes L c) = Some (PDict e)"
    unfolding checkpoint_bytes_def e by (rule json_loads_render)
  moreover have "checkpoint_of_document L e = Inr c"
    using assms
    by (cases c) (simp add: checkpoint_of_document_def dict_get_def text_item_def int_item_def time_item_def texts_item_def
        iterated_def dict_item_def py_str_def py_int_def fromisoformat_isoformat checkpoint_fields [OF e] o_def)
  ultimately show ?thesis by (simp add: checkpoint_from_bytes_def)
qed

end

section \<open>A landing over a growing store\<close>

locale landing_client = json_codec L + raw_objects "lp_store P" objects
  for L :: pylib and P :: "'s landing_ports" and objects :: "'s \<Rightarrow> string \<Rightarrow> string option" +
  assumes clock_grows: "objects s \<subseteq>\<^sub>m objects (snd (lp_clock P s))"
    and monotonic_grows: "objects s \<subseteq>\<^sub>m objects (snd (lp_monotonic P s))"
    and request_id_grows: "objects s \<subseteq>\<^sub>m objects (snd (lp_request_id P s))"
    and open_grows: "objects s \<subseteq>\<^sub>m objects (snd (lp_open_source P v s))"
    and fetch_grows: "objects s \<subseteq>\<^sub>m objects (snd (lp_fetch P d h q s))"

sublocale landing_client \<subseteq> frame: landing_frame P "\<lambda>s t. objects s \<subseteq>\<^sub>m objects t"
  using exists_grows read_grows put_grows clock_grows monotonic_grows request_id_grows open_grows fetch_grows
  by unfold_locales (auto intro: map_le_trans, (metis prod.collapse)+)

sublocale landing_client \<subseteq> anchor: anchor_client L "lp_store P" objects "lp_clock P"
  using clock_grows by unfold_locales (metis snd_conv)

context landing_client
begin

lemma write_done:
  assumes "write_identical_or_absent (lp_store P) k d kind s = (Inr u, s')"
  shows "objects s' k = Some d"
proof -
  obtain created t where put: "raw_put_if_absent (lp_store P) k d s = (Inr created, t)"
    and rest: "(if created then (Inr (), t)
      else (case raw_read (lp_store P) k t of (existing, s) \<Rightarrow>
        (bind_result
           (try_except existing is_missing_object
              (\<lambda>_. Inl (WeatherRawIntegrityError (''KMA observation '' @ kind @ '' conflict disappeared'')))) (\<lambda>e.
         require (e = d)
           (WeatherRawIntegrityError (''KMA observation '' @ kind @ '' conflict is not byte-identical''))), s))) = (Inr u, s')"
    using assms unfolding write_identical_or_absent_def and_then_Inr_iff by blast
  show ?thesis
  proof (cases created)
    case True
    then show ?thesis using put_created [of k d s t] put rest by simp
  next
    case False
    then have "raw_read (lp_store P) k t = (Inr d, s')"
      using rest by (auto simp: bind_result_Inr_iff try_except_Inr_iff split: prod.splits)
    then show ?thesis by (rule read_object)
  qed
qed

lemma resume_landed:
  assumes "resume_grid L ftext P y grid key s = (Inr c, s')"
    and "observation_checkpoint_key L (ly_run y) (ly_base_date y) (ly_base_time y) grid (lc_checkpoint_prefix cfg) = Inr key"
  shows "grid_landed L ftext default_raw_prefix cfg y (objects s') grid c"
proof -
  obtain bytes s1 s2 payload r where one: "raw_read (lp_store P) key s = (Inr bytes, s1)" "checkpoint_from_bytes L bytes = Inr c"
    "validate_checkpoint_identity (ly_run y) (ly_base_date y) (ly_base_time y) (ly_slot y) grid c = Inr ()"
    and two: "raw_exists (lp_store P) (oc_raw_object_key c) s1 = (Inr True, s2)"
    "raw_read (lp_store P) (oc_raw_object_key c) s2 = (Inr payload, s')"
    "raw_from_checkpoint L ftext (ly_run y) grid c payload = Inr r"
    using assms(1) unfolding resume_grid_def Let_def
    by (auto simp: and_then_Inr_iff split: if_splits)
  have "objects s1 \<subseteq>\<^sub>m objects s'"
    by (rule map_le_trans [OF exists_grows [OF two(1)] read_grows [OF two(2)]])
  then have "objects s' key = Some bytes" using read_object [OF one(1)] map_le_Some by metis
  moreover have "objects s' (oc_raw_object_key c) = Some payload" by (rule read_object [OF two(2)])
  moreover have "raw_matches L ftext default_raw_prefix y grid c payload"
    using two(3) raw_from_checkpoint_Inr [OF one(3)] by simp
  ultimately show ?thesis using one assms(2) by (auto simp: grid_landed_def)
qed

lemma collect_landed:
  assumes "collect_grid L ftext P cfg y grid key s = (Inr c, s')"
    and "observation_checkpoint_key L (ly_run y) (ly_base_date y) (ly_base_time y) grid (lc_checkpoint_prefix cfg) = Inr key"
  shows "grid_landed L ftext (lc_raw_prefix cfg) cfg y (objects s') grid c"
proof -
  obtain request_id status payload collected s1 s2 where
    made: "checkpoint_of_response L ftext cfg y grid request_id status payload collected = Inr c"
    and raw: "write_identical_or_absent (lp_store P) (oc_raw_object_key c) payload ''raw object'' s1 = (Inr (), s2)"
    and cp: "write_identical_or_absent (lp_store P) key (checkpoint_bytes L c) ''checkpoint'' s2 = (Inr (), s')"
    using assms(1) unfolding collect_grid_def
    by (auto simp: and_then_Inr_iff split: if_splits prod.splits)
  note facts = checkpoint_of_response_Inr [OF made]
  have "objects s2 \<subseteq>\<^sub>m objects s'" using frame.write_frame [of s2] cp by (metis snd_conv)
  then have "objects s' (oc_raw_object_key c) = Some payload" using write_done [OF raw] map_le_Some by metis
  moreover have "objects s' key = Some (checkpoint_bytes L c)" by (rule write_done [OF cp])
  moreover have "checkpoint_from_bytes L (checkpoint_bytes L c) = Inr c" using facts checkpoint_reads_back by blast
  ultimately show ?thesis using facts assms(2) by (auto simp: grid_landed_def)
qed

lemma land_grid_landed:
  assumes "land_grid L ftext P cfg y grid s = (Inr (c, reused), s')"
  shows "grid_landed L ftext (if reused then default_raw_prefix else lc_raw_prefix cfg) cfg y (objects s') grid c"
proof -
  obtain key present s1 where key: "observation_checkpoint_key L (ly_run y) (ly_base_date y) (ly_base_time y) grid
      (lc_checkpoint_prefix cfg) = Inr key"
    and rest: "(if present then and_then (resume_grid L ftext P y grid key s1) (\<lambda>c s. (Inr (c, True), s))
      else and_then (collect_grid L ftext P cfg y grid key s1) (\<lambda>c s. (Inr (c, False), s))) = (Inr (c, reused), s')"
    using assms unfolding land_grid_def by (auto simp: and_then_Inr_iff)
  show ?thesis
  proof (cases present)
    case True
    with rest have "resume_grid L ftext P y grid key s1 = (Inr c, s')" "reused" by (auto simp: and_then_Inr_iff)
    then show ?thesis using resume_landed [OF _ key] by simp
  next
    case False
    with rest have "collect_grid L ftext P cfg y grid key s1 = (Inr c, s')" "\<not> reused" by (auto simp: and_then_Inr_iff)
    then show ?thesis using collect_landed [OF _ key] by simp
  qed
qed

lemma land_grids_landed:
  assumes "land_grids L ftext P cfg y grids s = (Inr cs, s')"
  shows "list_all2 (\<lambda>grid (c, reused).
    grid_landed L ftext (if reused then default_raw_prefix else lc_raw_prefix cfg) cfg y (objects s') grid c) grids cs"
  using assms
proof (induction grids arbitrary: s cs)
  case Nil
  then show ?case by simp
next
  case (Cons grid grids)
  obtain c reused s1 ds where first: "land_grid L ftext P cfg y grid s = (Inr (c, reused), s1)"
    and rest: "land_grids L ftext P cfg y grids s1 = (Inr ds, s')" and cs: "cs = (c, reused) # ds"
    using Cons.prems by (auto simp: and_then_Inr_iff)
  have "objects s1 \<subseteq>\<^sub>m objects s'" using frame.land_grids_frame [of s1] rest by (metis snd_conv)
  then show ?case using grid_landed_grows [OF land_grid_landed [OF first]] Cons.IH [OF rest] cs by simp
qed

end

section \<open>A batch that is returned is complete\<close>

text \<open>What a complete batch is, of the objects of the store.\<close>

definition batch_complete ::
  "pylib \<Rightarrow> (string \<Rightarrow> pyfloat option) \<Rightarrow> landing_config \<Rightarrow> landing_cycle \<Rightarrow> observation_grid list
     \<Rightarrow> (string \<Rightarrow> string option) \<Rightarrow> landing_batch \<Rightarrow> bool" where
  "batch_complete L ftext cfg y grids objs b \<longleftrightarrow>
     int (length (lb_raw_objects b)) = lc_expected_grid_count cfg \<and> lb_grid_count b = length (lb_raw_objects b)
     \<and> lb_row_count b = lc_expected_grid_count cfg * int (length required_categories)
     \<and> lb_api_request_count b + lb_reused_grid_count b = lb_grid_count b
     \<and> map (\<lambda>r. (ro_nx r, ro_ny r)) (lb_raw_objects b) = map (\<lambda>g. (og_nx g, og_ny g)) grids
     \<and> distinct (map (\<lambda>r. (ro_nx r, ro_ny r)) (lb_raw_objects b))
     \<and> list_all2 (\<lambda>grid r. \<exists>payload. objs (ro_raw_object_key r) = Some payload
          \<and> sha256_hex L payload = ro_payload_sha256 r \<and> ro_categories r = required_categories
          \<and> complete_response L ftext y grid (ro_collected_at r) payload) grids (lb_raw_objects b)
     \<and> (\<exists>cs. lb_raw_objects b = map raw_of_checkpoint cs
          \<and> objs (lb_manifest_key b) = Some (render L (sort_keys
               (manifest_document (ly_run y) (ly_base_date y) (ly_base_time y) (ly_slot y) (lb_row_count b) cs))))"

lemma raw_of_checkpoint_simps [simp]:
  "ro_nx (raw_of_checkpoint c) = oc_nx c" "ro_ny (raw_of_checkpoint c) = oc_ny c"
  "ro_raw_object_key (raw_of_checkpoint c) = oc_raw_object_key c"
  "ro_payload_sha256 (raw_of_checkpoint c) = oc_payload_sha256 c"
  "ro_collected_at (raw_of_checkpoint c) = oc_collected_at c"
  "ro_category_count (raw_of_checkpoint c) = oc_category_count c"
  "ro_categories (raw_of_checkpoint c) = oc_categories c"
  by (simp_all add: raw_of_checkpoint_def)

text \<open>The slot is normalised once more for the manifest; a normalised slot stays as it is.\<close>

lemma build_manifest_Inr:
  "build_complete_observation_manifest L run d h n cs = Inr m \<Longrightarrow>
     (\<exists>date hour slot. normalize_observation_slot L (PStr d) (PStr h) = Inr (date, hour) \<and> observed_slot L date hour = Inr slot
        \<and> m = manifest_document run date hour slot (sum_list (map oc_category_count cs)) cs
        \<and> (\<forall>c\<in>set cs. \<exists>grid. validate_checkpoint_identity run date hour slot grid c = Inr ()))
     \<and> distinct (map grid_order cs) \<and> int (length cs) = n
     \<and> sum_list (map oc_category_count cs) = n * int (length required_categories)"
  unfolding build_complete_observation_manifest_def Let_def
  by (auto simp: bind_result_Inr_iff split: if_splits dest!: traverse_each)

lemma collect_Inr:
  assumes "collect_observations L ftext P cfg run q s = (Inr b, s')"
  obtains date hour slot y s1 s2 landed key where
    "normalize_observation_slot L (PStr (lq_base_date q)) (PStr (lq_base_time q)) = Inr (date, hour)"
    "validate_grids (lc_expected_grid_count cfg) (lq_grids q) = Inr (lq_grids q)" "observed_slot L date hour = Inr slot"
    "y = \<lparr>ly_run = run, ly_base_date = date, ly_base_time = hour, ly_slot = slot\<rparr>"
    "open_cycle L P y s = (Inr (), s1)" "land_grids L ftext P cfg y (lq_grids q) s1 = (Inr landed, s2)"
    "write_manifest L (lp_store P) cfg y (map fst landed) s2 = (Inr key, s')" "b = batch_of y landed key"
proof -
  have grids: "g = lq_grids q" if "validate_grids (lc_expected_grid_count cfg) (lq_grids q) = Inr g" for g
    using that by (auto simp: validate_grids_def Let_def split: if_splits)
  from assms obtain date hour g slot s1 landed s2 key where parts:
    "normalize_observation_slot L (PStr (lq_base_date q)) (PStr (lq_base_time q)) = Inr (date, hour)"
    "validate_grids (lc_expected_grid_count cfg) (lq_grids q) = Inr g" "observed_slot L date hour = Inr slot"
    "open_cycle L P \<lparr>ly_run = run, ly_base_date = date, ly_base_time = hour, ly_slot = slot\<rparr> s = (Inr (), s1)"
    "land_grids L ftext P cfg \<lparr>ly_run = run, ly_base_date = date, ly_base_time = hour, ly_slot = slot\<rparr> g s1 = (Inr landed, s2)"
    "write_manifest L (lp_store P) cfg \<lparr>ly_run = run, ly_base_date = date, ly_base_time = hour, ly_slot = slot\<rparr>
       (map fst landed) s2 = (Inr key, s')"
    "b = batch_of \<lparr>ly_run = run, ly_base_date = date, ly_base_time = hour, ly_slot = slot\<rparr> landed key"
    unfolding collect_observations_def Let_def by (auto simp: and_then_Inr_iff)
  note g = grids [OF parts(2)]
  show thesis by (rule that [OF parts(1) parts(2) [unfolded g] parts(3) refl parts(4) parts(5) [unfolded g] parts(6,7)])
qed

lemma batch_of_simps [simp]:
  "lb_raw_objects (batch_of y landed key) = map (raw_of_checkpoint \<circ> fst) landed"
  "lb_grid_count (batch_of y landed key) = length landed" "lb_manifest_key (batch_of y landed key) = key"
  "lb_row_count (batch_of y landed key) = sum_list (map (oc_category_count \<circ> fst) landed)"
  "lb_api_request_count (batch_of y landed key) = length (filter (\<lambda>c. \<not> snd c) landed)"
  "lb_reused_grid_count (batch_of y landed key) = length (filter snd landed)"
  by (simp_all add: batch_of_def Let_def o_def)

context landing_client
begin

lemma write_manifest_Inr:
  assumes "write_manifest L (lp_store P) cfg y cs s = (Inr key, s')"
  shows "\<exists>m. build_complete_observation_manifest L (ly_run y) (ly_base_date y) (ly_base_time y) (lc_expected_grid_count cfg) cs
       = Inr m
     \<and> observation_manifest_key L (ly_run y) (ly_base_date y) (ly_base_time y) (lc_manifest_prefix cfg) = Inr key
     \<and> objects s' key = Some (render L (sort_keys m))"
  using assms write_done unfolding write_manifest_def by (auto simp: and_then_Inr_iff)

text \<open>The manifest names the slot the checkpoints have.\<close>

lemma landed_checkpoints:
  assumes "list_all2 (\<lambda>grid (c, reused). grid_landed L ftext (p reused) cfg y m grid c) grids landed"
  shows "map (oc_category_count \<circ> fst) landed = replicate (length grids) (int (length required_categories))"
    and "map (grid_order \<circ> fst) landed = map (\<lambda>g. (og_nx g, og_ny g)) grids"
  using assms
  by (induction grids landed rule: list_all2_induct)
    (auto simp: grid_landed_def grid_order_def dest!: validate_identity_fields)

lemma landed_checkpoint:
  assumes "list_all2 (\<lambda>grid (c, reused). grid_landed L ftext (p reused) cfg y m grid c) grids landed"
    and "(c, reused) \<in> set landed"
  shows "\<exists>grid. grid_landed L ftext (p reused) cfg y m grid c"
  using assms by (induction grids landed rule: list_all2_induct) auto

lemma collected_batch_complete:
  assumes collect: "collect_observations L ftext P cfg run q s = (Inr b, s')" and n: "1 \<le> lc_expected_grid_count cfg"
  shows "\<exists>date hour slot y. normalize_observation_slot L (PStr (lq_base_date q)) (PStr (lq_base_time q)) = Inr (date, hour)
    \<and> observed_slot L date hour = Inr slot \<and> y = \<lparr>ly_run = run, ly_base_date = date, ly_base_time = hour, ly_slot = slot\<rparr>
    \<and> batch_complete L ftext cfg y (lq_grids q) (objects s') b"
  using collect
proof (rule collect_Inr)
  fix date hour slot y s1 s2 landed key
  assume parts: "normalize_observation_slot L (PStr (lq_base_date q)) (PStr (lq_base_time q)) = Inr (date, hour)"
    "validate_grids (lc_expected_grid_count cfg) (lq_grids q) = Inr (lq_grids q)" "observed_slot L date hour = Inr slot"
    "y = \<lparr>ly_run = run, ly_base_date = date, ly_base_time = hour, ly_slot = slot\<rparr>"
    "open_cycle L P y s = (Inr (), s1)" "land_grids L ftext P cfg y (lq_grids q) s1 = (Inr landed, s2)"
    "write_manifest L (lp_store P) cfg y (map fst landed) s2 = (Inr key, s')" "b = batch_of y landed key"
  have grids: "distinct (map (\<lambda>g. (og_nx g, og_ny g)) (lq_grids q))" "int (length (lq_grids q)) = lc_expected_grid_count cfg"
    using parts(2) by (auto simp: validate_grids_def Let_def split: if_splits)
  let ?p = "\<lambda>reused. if reused then default_raw_prefix else lc_raw_prefix cfg"
  have "objects s2 \<subseteq>\<^sub>m objects s'" using frame.write_manifest_frame [of s2] parts(7) by (metis snd_conv)
  then have landed: "list_all2 (\<lambda>grid (c, reused). grid_landed L ftext (?p reused) cfg y (objects s') grid c) (lq_grids q) landed"
    using list_all2_mono [OF land_grids_landed [OF parts(6)]] grid_landed_grows by fastforce
  note facts = landed_checkpoints [OF landed]
  have len: "length landed = length (lq_grids q)" using landed by (simp add: list_all2_lengthD)
  obtain m where m: "build_complete_observation_manifest L (ly_run y) (ly_base_date y) (ly_base_time y)
      (lc_expected_grid_count cfg) (map fst landed) = Inr m" "objects s' key = Some (render L (sort_keys m))"
    using write_manifest_Inr [OF parts(7)] by blast
  obtain d h sl where manifest: "m = manifest_document (ly_run y) d h sl (sum_list (map oc_category_count (map fst landed))) (map fst landed)"
    "\<And>c. c \<in> set (map fst landed) \<Longrightarrow> \<exists>grid. validate_checkpoint_identity (ly_run y) d h sl grid c = Inr ()"
    using build_manifest_Inr [OF m(1)] by metis
  obtain c reused where c: "(c, reused) \<in> set landed" using n grids(2) len by (cases landed) auto
  obtain g where g: "validate_checkpoint_identity (ly_run y) (ly_base_date y) (ly_base_time y) (ly_slot y) g c = Inr ()"
    using landed_checkpoint [OF landed c] by (auto simp: grid_landed_def)
  obtain g' where "validate_checkpoint_identity (ly_run y) d h sl g' c = Inr ()" using manifest(2) [of c] c by force
  then have same: "d = ly_base_date y" "h = ly_base_time y" "sl = ly_slot y"
    using g by (auto simp: validate_checkpoint_identity_def split: if_splits)
  have rows: "sum_list (map (oc_category_count \<circ> fst) landed) = lc_expected_grid_count cfg * int (length required_categories)"
    unfolding facts(1) grids(2) [symmetric] by (simp add: sum_list_replicate)
  have keys: "map ((\<lambda>r. (ro_nx r, ro_ny r)) \<circ> (raw_of_checkpoint \<circ> fst)) landed = map (\<lambda>g. (og_nx g, og_ny g)) (lq_grids q)"
    unfolding facts(2) [symmetric] by (simp add: grid_order_def)
  have "list_all2 (\<lambda>grid r. \<exists>payload. objects s' (ro_raw_object_key r) = Some payload
      \<and> sha256_hex L payload = ro_payload_sha256 r \<and> ro_categories r = required_categories
      \<and> complete_response L ftext y grid (ro_collected_at r) payload) (lq_grids q) (map (raw_of_checkpoint \<circ> fst) landed)"
    unfolding list.rel_map
    by (rule list_all2_mono [OF landed]) (auto simp: grid_landed_def raw_matches_def dest!: validate_identity_fields)
  moreover have "length (filter (\<lambda>c. \<not> snd c) landed) + length (filter snd landed) = length landed"
    by (induction landed) auto
  moreover have "\<exists>cs. map (raw_of_checkpoint \<circ> fst) landed = map raw_of_checkpoint cs
      \<and> objects s' key = Some (render L (sort_keys (manifest_document (ly_run y) (ly_base_date y) (ly_base_time y) (ly_slot y)
           (sum_list (map (oc_category_count \<circ> fst) landed)) cs)))"
    using m(2) manifest(1) same by (intro exI [of _ "map fst landed"]) simp
  ultimately have "batch_complete L ftext cfg y (lq_grids q) (objects s') b"
    unfolding batch_complete_def parts(8) batch_of_simps map_map keys
    using grids len rows by simp
  then show ?thesis using parts(1,3,4) by blast
qed

end

section \<open>Resuming\<close>

text \<open>The clock shows aware times that are a deadline away from the end of time.\<close>

definition clock_in_range :: "('s, 'b) landing_ports_scheme \<Rightarrow> bool" where
  "clock_in_range P \<longleftrightarrow> (\<forall>s. \<exists>u. fst (lp_clock P s) = Aware u \<and> in_range u \<and> in_range (u + collection_deadline))"

text \<open>
  A store without faults that nobody else writes to and a source that opens; \<open>calls\<close> counts what the
  source has done.
\<close>

locale quiet_landing = landing_client L P objects + quiet_raw_objects "lp_store P" objects
  for L :: pylib and P :: "'s landing_ports" and objects :: "'s \<Rightarrow> string \<Rightarrow> string option" +
  fixes calls :: "'s \<Rightarrow> 'c"
  assumes store_calls: "calls (snd (raw_exists (lp_store P) k s)) = calls s"
    "calls (snd (raw_read (lp_store P) k s)) = calls s" "calls (snd (raw_put_if_absent (lp_store P) k d s)) = calls s"
    and clock_quiet: "objects (snd (lp_clock P s)) = objects s" "calls (snd (lp_clock P s)) = calls s"
    and monotonic_quiet: "objects (snd (lp_monotonic P s)) = objects s" "calls (snd (lp_monotonic P s)) = calls s"
    and request_id_quiet: "calls (snd (lp_request_id P s)) = calls s"
    and open_quiet: "fst (lp_open_source P v s) = Inr ()" "objects (snd (lp_open_source P v s)) = objects s"
      "calls (snd (lp_open_source P v s)) = calls s"

sublocale quiet_landing \<subseteq> quiet_anchor: quiet_anchor_client L "lp_store P" objects "lp_clock P"
  using clock_quiet by unfold_locales (metis snd_conv)

sublocale quiet_landing \<subseteq> idle: landing_frame "P\<lparr>lp_fetch := \<lambda>d h q s. (Inl (OSError ''''), s)\<rparr>" "\<lambda>s t. calls t = calls s"
  using store_calls clock_quiet(2) monotonic_quiet(2) request_id_quiet open_quiet(3)
  by unfold_locales simp_all

context quiet_landing
begin

definition same :: "'s \<Rightarrow> 's \<Rightarrow> bool" where
  "same s t \<longleftrightarrow> objects t = objects s \<and> calls t = calls s"

lemma same_trans: "same s t \<Longrightarrow> same t u \<Longrightarrow> same s u"
  by (simp add: same_def)

lemma present: "objects s k \<noteq> None \<Longrightarrow> \<exists>t. raw_exists (lp_store P) k s = (Inr True, t) \<and> same s t"
  using exists_returns [of k s] store_calls(1) [of k s] by (auto simp: same_def)

lemma read_present: "objects s k = Some d \<Longrightarrow> \<exists>t. raw_read (lp_store P) k s = (Inr d, t) \<and> same s t"
  using read_returns [of s k d] store_calls(2) [of k s] by (auto simp: same_def)

lemma write_again:
  assumes "objects s k = Some d"
  shows "\<exists>t. write_identical_or_absent (lp_store P) k d kind s = (Inr (), t) \<and> same s t"
proof -
  obtain t where t: "raw_put_if_absent (lp_store P) k d s = (Inr False, t)" "same s t"
    using put_absent_only [of s k d] assms store_calls(3) [of k d s] by (auto simp: same_def)
  then have "objects t k = Some d" using assms by (simp add: same_def)
  then obtain u where "raw_read (lp_store P) k t = (Inr d, u)" "same t u" using read_present by blast
  then show ?thesis using t same_trans [OF t(2)] by (auto simp: write_identical_or_absent_def)
qed

text \<open>The steps of a resumed grid, up to the check of the raw object.\<close>

lemma resume_steps:
  assumes "grid_landed L ftext prefix cfg y (objects s) grid c"
  shows "\<exists>payload t. raw_matches L ftext prefix y grid c payload \<and> same s t
    \<and> land_grid L ftext P cfg y grid s
        = (bind_result (raw_from_checkpoint L ftext (ly_run y) grid c payload) (\<lambda>_. Inr (c, True)), t)"
proof -
  obtain key bytes payload where landed:
    "validate_checkpoint_identity (ly_run y) (ly_base_date y) (ly_base_time y) (ly_slot y) grid c = Inr ()"
    "observation_checkpoint_key L (ly_run y) (ly_base_date y) (ly_base_time y) grid (lc_checkpoint_prefix cfg) = Inr key"
    "objects s key = Some bytes" "checkpoint_from_bytes L bytes = Inr c"
    "objects s (oc_raw_object_key c) = Some payload" "raw_matches L ftext prefix y grid c payload"
    using assms by (auto simp: grid_landed_def)
  obtain s1 where s1: "raw_exists (lp_store P) key s = (Inr True, s1)" "same s s1" using present landed(3) by blast
  obtain s2 where s2: "raw_read (lp_store P) key s1 = (Inr bytes, s2)" "same s1 s2"
    using read_present [of s1 key bytes] landed(3) s1(2) by (auto simp: same_def)
  note to_s2 = same_trans [OF s1(2) s2(2)]
  obtain s3 where s3: "raw_exists (lp_store P) (oc_raw_object_key c) s2 = (Inr True, s3)" "same s2 s3"
    using present [of s2 "oc_raw_object_key c"] landed(5) to_s2 by (auto simp: same_def)
  note to_s3 = same_trans [OF to_s2 s3(2)]
  obtain s4 where s4: "raw_read (lp_store P) (oc_raw_object_key c) s3 = (Inr payload, s4)" "same s3 s4"
    using read_present [of s3 "oc_raw_object_key c" payload] landed(5) to_s3 by (auto simp: same_def)
  have "land_grid L ftext P cfg y grid s
      = (bind_result (raw_from_checkpoint L ftext (ly_run y) grid c payload) (\<lambda>_. Inr (c, True)), s4)"
    by (cases "raw_from_checkpoint L ftext (ly_run y) grid c payload")
      (simp_all add: land_grid_def resume_grid_def landed(1,2,4) s1(1) s2(1) s3(1) s4(1))
  then show ?thesis using landed(6) same_trans [OF to_s3 s4(2)] by blast
qed

lemma land_grid_again:
  assumes "grid_landed L ftext default_raw_prefix cfg y (objects s) grid c"
  shows "\<exists>t. land_grid L ftext P cfg y grid s = (Inr (c, True), t) \<and> same s t"
proof -
  have valid: "validate_checkpoint_identity (ly_run y) (ly_base_date y) (ly_base_time y) (ly_slot y) grid c = Inr ()"
    using assms by (simp add: grid_landed_def)
  obtain payload t where t: "raw_matches L ftext default_raw_prefix y grid c payload" "same s t"
    "land_grid L ftext P cfg y grid s
       = (bind_result (raw_from_checkpoint L ftext (ly_run y) grid c payload) (\<lambda>_. Inr (c, True)), t)"
    using resume_steps [OF assms] by blast
  have "raw_from_checkpoint L ftext (ly_run y) grid c payload = Inr (raw_of_checkpoint c)"
    using raw_from_checkpoint_Inr [OF valid] t(1) by simp
  then show ?thesis using t(2,3) by simp
qed

lemma land_grids_again:
  "list_all2 (\<lambda>grid c. grid_landed L ftext default_raw_prefix cfg y (objects s) grid c) grids cs \<Longrightarrow>
     \<exists>t. land_grids L ftext P cfg y grids s = (Inr (map (\<lambda>c. (c, True)) cs), t) \<and> same s t"
proof (induction grids arbitrary: s cs)
  case Nil
  then show ?case by (simp add: same_def)
next
  case (Cons grid grids)
  then obtain c cs' where cs: "cs = c # cs'" "grid_landed L ftext default_raw_prefix cfg y (objects s) grid c"
    "list_all2 (\<lambda>grid c. grid_landed L ftext default_raw_prefix cfg y (objects s) grid c) grids cs'"
    by (cases cs) auto
  obtain s1 where s1: "land_grid L ftext P cfg y grid s = (Inr (c, True), s1)" "same s s1"
    using land_grid_again [OF cs(2)] by blast
  obtain t where "land_grids L ftext P cfg y grids s1 = (Inr (map (\<lambda>c. (c, True)) cs'), t)" "same s1 t"
    using Cons.IH [of s1 cs'] cs(3) s1(2) by (auto simp: same_def)
  then show ?case using s1 same_trans [OF s1(2)] by (auto simp: cs(1))
qed

end

text \<open>A key depends on its prefix only through the prefix without its trailing slashes.\<close>

lemma raw_key_prefix:
  "observation_raw_object_key L run d h grid request payload prefix = Inr k \<Longrightarrow>
     \<exists>rest. k = without_slashes prefix @ rest
       \<and> observation_raw_object_key L run d h grid request payload prefix' = Inr (without_slashes prefix' @ rest)"
  by (auto simp: observation_raw_object_key_def bind_result_Inr_iff)

lemma raw_matches_prefix:
  assumes "raw_matches L ftext prefix y grid c payload"
  shows "raw_matches L ftext prefix' y grid c payload \<longleftrightarrow> without_slashes prefix' = without_slashes prefix"
  using assms raw_key_prefix [of L "ly_run y" _ _ grid _ payload prefix _ prefix'] by (fastforce simp: raw_matches_def)

lemma raw_from_checkpoint_refused:
  assumes "raw_matches L ftext prefix y grid c payload" "without_slashes prefix \<noteq> without_slashes default_raw_prefix"
  shows "raw_from_checkpoint L ftext (ly_run y) grid c payload
    = Inl (WeatherRawIntegrityError ''KMA observation checkpoint raw object key does not match hash context'')"
proof -
  have "observation_raw_object_key L (ly_run y) (oc_base_date c) (oc_base_time c) grid (oc_request_id c) payload prefix
      = Inr (oc_raw_object_key c)" "sha256_hex L payload = oc_payload_sha256 c"
    using assms(1) by (simp_all add: raw_matches_def)
  with raw_key_prefix [OF this(1), of default_raw_prefix] assms(2) show ?thesis
    by (auto simp: raw_from_checkpoint_def)
qed

text \<open>After a cycle has been opened its anchor is stored, and it opens again.\<close>

context landing_client
begin

lemma opened_anchor:
  assumes "open_cycle L P y s = (Inr u, s')"
  shows "\<exists>key a p. deadline_checkpoint_key \<lparr>ci_dag_id = or_dag_id (ly_run y), ci_dag_run_id = or_run_id (ly_run y),
        ci_source_id = observation_source_id, ci_observed_slot = ly_slot y\<rparr> = Inr key
    \<and> anchor_ok a \<lparr>ci_dag_id = or_dag_id (ly_run y), ci_dag_run_id = or_run_id (ly_run y),
        ci_source_id = observation_source_id, ci_observed_slot = ly_slot y\<rparr>
    \<and> objects s' key = Some p \<and> deserialize_deadline_anchor L p = Inr a"
proof -
  let ?ci = "\<lparr>ci_dag_id = or_dag_id (ly_run y), ci_dag_run_id = or_run_id (ly_run y),
    ci_source_id = observation_source_id, ci_observed_slot = ly_slot y\<rparr>"
  obtain a s1 where one: "initialize_cycle_deadline L (lp_store P) (lp_clock P) ?ci s = (Inr a, s1)"
    and two: "(case lp_monotonic P s1 of (monotonic, s) \<Rightarrow> (case lp_clock P s of (wall, s) \<Rightarrow>
          and_then (new_cycle_deadline a wall monotonic, s) (lp_open_source P))) = (Inr u, s')"
    using assms unfolding open_cycle_def and_then_Inr_iff by blast
  obtain key where key: "deadline_checkpoint_key ?ci = Inr key" by (rule initialize_cycle_deadline_Inr [OF one])
  have "objects s1 \<subseteq>\<^sub>m objects (snd (case lp_monotonic P s1 of (monotonic, s) \<Rightarrow> (case lp_clock P s of (wall, s) \<Rightarrow>
          and_then (new_cycle_deadline a wall monotonic, s) (lp_open_source P))))"
    by (intro frame.frame_intros frame.ports_frame)
  then have "objects s1 \<subseteq>\<^sub>m objects s'" unfolding two by simp
  then show ?thesis using anchor.initialized_anchor [OF one key] key map_le_Some by metis
qed

end

context quiet_landing
begin

lemma open_again:
  assumes "deadline_checkpoint_key \<lparr>ci_dag_id = or_dag_id (ly_run y), ci_dag_run_id = or_run_id (ly_run y),
        ci_source_id = observation_source_id, ci_observed_slot = ly_slot y\<rparr> = Inr key"
    and "anchor_ok a \<lparr>ci_dag_id = or_dag_id (ly_run y), ci_dag_run_id = or_run_id (ly_run y),
        ci_source_id = observation_source_id, ci_observed_slot = ly_slot y\<rparr>"
    and "objects s key = Some p" "deserialize_deadline_anchor L p = Inr a" and clock: "clock_in_range P"
  shows "\<exists>t. open_cycle L P y s = (Inr (), t) \<and> same s t"
proof -
  let ?ci = "\<lparr>ci_dag_id = or_dag_id (ly_run y), ci_dag_run_id = or_run_id (ly_run y),
    ci_source_id = observation_source_id, ci_observed_slot = ly_slot y\<rparr>"
  obtain v s0 where read: "lp_clock P s = (v, s0)" by force
  obtain u where u: "v = Aware u" "in_range u" "in_range (u + collection_deadline)"
    using clock read unfolding clock_in_range_def by (metis fst_conv)
  then have cand: "\<exists>c. candidate_anchor ?ci v = Inr c" by (simp add: candidate_anchor_def cycle_utc_def add_delta_def checked_instant_def)
  then obtain s1 where s1: "initialize_cycle_deadline L (lp_store P) (lp_clock P) ?ci s = (Inr a, s1)" "objects s1 = objects s"
    using quiet_anchor.initialized_again [OF assms(2,3,4,1) read] by blast
  have "calls s1 = calls s" using idle.initialize_frame [of L ?ci s] s1(1) by simp
  then have first: "same s s1" using s1(2) by (simp add: same_def)
  obtain monotonic s2 where s2: "lp_monotonic P s1 = (monotonic, s2)" by force
  then have "same s1 s2" using monotonic_quiet [of s1] by (simp add: same_def)
  obtain wall s3 where s3: "lp_clock P s2 = (wall, s3)" by force
  then have "same s2 s3" using clock_quiet [of s2] by (simp add: same_def)
  obtain w where "wall = Aware w" "in_range w" using clock s3 unfolding clock_in_range_def by (metis fst_conv)
  then obtain cd where cd: "new_cycle_deadline a wall monotonic = Inr cd" by (simp add: new_cycle_deadline_def cycle_utc_def)
  obtain s4 where s4: "lp_open_source P cd s3 = (Inr (), s4)" "same s3 s4"
    using open_quiet [of cd s3] by (cases "lp_open_source P cd s3") (auto simp: same_def)
  have "open_cycle L P y s = (Inr (), s4)" by (simp add: open_cycle_def s1(1) s2 s3 cd s4(1))
  moreover have "same s s4"
    using first \<open>same s1 s2\<close> \<open>same s2 s3\<close> s4(2) by (simp add: same_def)
  ultimately show ?thesis by blast
qed

lemma write_manifest_again:
  assumes "build_complete_observation_manifest L (ly_run y) (ly_base_date y) (ly_base_time y) (lc_expected_grid_count cfg) cs = Inr m"
    and "observation_manifest_key L (ly_run y) (ly_base_date y) (ly_base_time y) (lc_manifest_prefix cfg) = Inr key"
    and "objects s key = Some (render L (sort_keys m))"
  shows "\<exists>t. write_manifest L (lp_store P) cfg y cs s = (Inr key, t) \<and> same s t"
  using write_again [OF assms(3), of "''manifest''"] assms(1,2) by (auto simp: write_manifest_def)

end

text \<open>What a returned batch leaves in the store, for the calls that follow.\<close>

definition batch_stored ::
  "pylib \<Rightarrow> (string \<Rightarrow> pyfloat option) \<Rightarrow> landing_config \<Rightarrow> observation_run \<Rightarrow> landing_request
     \<Rightarrow> (string \<Rightarrow> string option) \<Rightarrow> landing_batch \<Rightarrow> bool" where
  "batch_stored L ftext cfg run q objs b \<longleftrightarrow>
     (\<exists>date hour slot y landed m key dkey a p.
        normalize_observation_slot L (PStr (lq_base_date q)) (PStr (lq_base_time q)) = Inr (date, hour)
      \<and> validate_grids (lc_expected_grid_count cfg) (lq_grids q) = Inr (lq_grids q) \<and> observed_slot L date hour = Inr slot
      \<and> y = \<lparr>ly_run = run, ly_base_date = date, ly_base_time = hour, ly_slot = slot\<rparr>
      \<and> list_all2 (\<lambda>grid (c, reused). grid_landed L ftext (if reused then default_raw_prefix else lc_raw_prefix cfg) cfg y
          objs grid c) (lq_grids q) landed
      \<and> build_complete_observation_manifest L run date hour (lc_expected_grid_count cfg) (map fst landed) = Inr m
      \<and> observation_manifest_key L run date hour (lc_manifest_prefix cfg) = Inr key
      \<and> objs key = Some (render L (sort_keys m)) \<and> b = batch_of y landed key
      \<and> deadline_checkpoint_key \<lparr>ci_dag_id = or_dag_id run, ci_dag_run_id = or_run_id run,
          ci_source_id = observation_source_id, ci_observed_slot = slot\<rparr> = Inr dkey
      \<and> anchor_ok a \<lparr>ci_dag_id = or_dag_id run, ci_dag_run_id = or_run_id run,
          ci_source_id = observation_source_id, ci_observed_slot = slot\<rparr>
      \<and> objs dkey = Some p \<and> deserialize_deadline_anchor L p = Inr a)"

lemma batch_stored_grows:
  assumes "batch_stored L ftext cfg run q m b" "m \<subseteq>\<^sub>m m'"
  shows "batch_stored L ftext cfg run q m' b"
proof -
  have grown: "list_all2 (\<lambda>grid (c, reused). grid_landed L ftext (p reused) cfg y m' grid c) grids landed"
    if "list_all2 (\<lambda>grid (c, reused). grid_landed L ftext (p reused) cfg y m grid c) grids landed" for p y grids landed
    using that by (rule list_all2_mono) (auto intro: grid_landed_grows [OF _ assms(2)])
  from assms(1) obtain date hour slot y landed mf key dkey a p where st:
    "normalize_observation_slot L (PStr (lq_base_date q)) (PStr (lq_base_time q)) = Inr (date, hour)"
    "validate_grids (lc_expected_grid_count cfg) (lq_grids q) = Inr (lq_grids q)" "observed_slot L date hour = Inr slot"
    "y = \<lparr>ly_run = run, ly_base_date = date, ly_base_time = hour, ly_slot = slot\<rparr>"
    "list_all2 (\<lambda>grid (c, reused). grid_landed L ftext (if reused then default_raw_prefix else lc_raw_prefix cfg) cfg y
        m grid c) (lq_grids q) landed"
    "build_complete_observation_manifest L run date hour (lc_expected_grid_count cfg) (map fst landed) = Inr mf"
    "observation_manifest_key L run date hour (lc_manifest_prefix cfg) = Inr key"
    "m key = Some (render L (sort_keys mf))" "b = batch_of y landed key"
    "deadline_checkpoint_key \<lparr>ci_dag_id = or_dag_id run, ci_dag_run_id = or_run_id run,
        ci_source_id = observation_source_id, ci_observed_slot = slot\<rparr> = Inr dkey"
    "anchor_ok a \<lparr>ci_dag_id = or_dag_id run, ci_dag_run_id = or_run_id run,
        ci_source_id = observation_source_id, ci_observed_slot = slot\<rparr>"
    "m dkey = Some p" "deserialize_deadline_anchor L p = Inr a"
    unfolding batch_stored_def by (elim exE conjE) (rule that)
  show ?thesis unfolding batch_stored_def
    by (intro exI conjI)
      (rule st(1,2,3,4,6,7,9,10,11,13) grown [OF st(5)] map_le_Some [OF assms(2) st(8)] map_le_Some [OF assms(2) st(12)])+
qed

context landing_client
begin

lemma collected_state:
  assumes "collect_observations L ftext P cfg run q s = (Inr b, s')"
  shows "batch_stored L ftext cfg run q (objects s') b"
  using assms
proof (rule collect_Inr)
  fix date hour slot y s1 s2 landed key
  assume parts: "normalize_observation_slot L (PStr (lq_base_date q)) (PStr (lq_base_time q)) = Inr (date, hour)"
    "validate_grids (lc_expected_grid_count cfg) (lq_grids q) = Inr (lq_grids q)" "observed_slot L date hour = Inr slot"
    "y = \<lparr>ly_run = run, ly_base_date = date, ly_base_time = hour, ly_slot = slot\<rparr>"
    "open_cycle L P y s = (Inr (), s1)" "land_grids L ftext P cfg y (lq_grids q) s1 = (Inr landed, s2)"
    "write_manifest L (lp_store P) cfg y (map fst landed) s2 = (Inr key, s')" "b = batch_of y landed key"
  have y: "ly_run y = run" "ly_base_date y = date" "ly_base_time y = hour" "ly_slot y = slot" by (simp_all add: parts(4))
  have s2: "objects s2 \<subseteq>\<^sub>m objects s'" using frame.write_manifest_frame [of s2] parts(7) by (metis snd_conv)
  have s1: "objects s1 \<subseteq>\<^sub>m objects s'" using frame.land_grids_frame [of s1] parts(6) s2 by (metis snd_conv map_le_trans)
  have landed: "list_all2 (\<lambda>grid (c, reused). grid_landed L ftext (if reused then default_raw_prefix else lc_raw_prefix cfg) cfg y
      (objects s') grid c) (lq_grids q) landed"
    using list_all2_mono [OF land_grids_landed [OF parts(6)]] grid_landed_grows [OF _ s2] by fastforce
  obtain m where m: "build_complete_observation_manifest L run date hour (lc_expected_grid_count cfg) (map fst landed) = Inr m"
    "observation_manifest_key L run date hour (lc_manifest_prefix cfg) = Inr key"
    "objects s' key = Some (render L (sort_keys m))"
    using write_manifest_Inr [OF parts(7)] unfolding y by blast
  obtain dkey a p where a: "deadline_checkpoint_key \<lparr>ci_dag_id = or_dag_id run, ci_dag_run_id = or_run_id run,
        ci_source_id = observation_source_id, ci_observed_slot = slot\<rparr> = Inr dkey"
    "anchor_ok a \<lparr>ci_dag_id = or_dag_id run, ci_dag_run_id = or_run_id run,
        ci_source_id = observation_source_id, ci_observed_slot = slot\<rparr>"
    "objects s1 dkey = Some p" "deserialize_deadline_anchor L p = Inr a"
    using opened_anchor [OF parts(5)] unfolding y by blast
  have "objects s' dkey = Some p" using a(3) s1 map_le_Some by metis
  with parts(1-4,8) landed m a(1,2,4) show ?thesis unfolding batch_stored_def by blast
qed

end

context quiet_landing
begin

lemma collect_again:
  assumes stored: "batch_stored L ftext cfg run q (objects t) b"
    and prefix: "without_slashes (lc_raw_prefix cfg) = without_slashes default_raw_prefix" and clock: "clock_in_range P"
  shows "\<exists>t'. collect_observations L ftext P cfg run q t
      = (Inr (b\<lparr>lb_api_request_count := 0, lb_reused_grid_count := lb_grid_count b\<rparr>), t') \<and> same t t'"
proof -
  obtain date hour slot y landed m key dkey a p where st:
    "normalize_observation_slot L (PStr (lq_base_date q)) (PStr (lq_base_time q)) = Inr (date, hour)"
    "validate_grids (lc_expected_grid_count cfg) (lq_grids q) = Inr (lq_grids q)" "observed_slot L date hour = Inr slot"
    "y = \<lparr>ly_run = run, ly_base_date = date, ly_base_time = hour, ly_slot = slot\<rparr>"
    "list_all2 (\<lambda>grid (c, reused). grid_landed L ftext (if reused then default_raw_prefix else lc_raw_prefix cfg) cfg y
        (objects t) grid c) (lq_grids q) landed"
    "build_complete_observation_manifest L run date hour (lc_expected_grid_count cfg) (map fst landed) = Inr m"
    "observation_manifest_key L run date hour (lc_manifest_prefix cfg) = Inr key"
    "objects t key = Some (render L (sort_keys m))" "b = batch_of y landed key"
    "deadline_checkpoint_key \<lparr>ci_dag_id = or_dag_id run, ci_dag_run_id = or_run_id run,
        ci_source_id = observation_source_id, ci_observed_slot = slot\<rparr> = Inr dkey"
    "anchor_ok a \<lparr>ci_dag_id = or_dag_id run, ci_dag_run_id = or_run_id run,
        ci_source_id = observation_source_id, ci_observed_slot = slot\<rparr>"
    "objects t dkey = Some p" "deserialize_deadline_anchor L p = Inr a"
    using stored unfolding batch_stored_def by (elim exE conjE) (rule that)
  have y: "ly_run y = run" "ly_base_date y = date" "ly_base_time y = hour" "ly_slot y = slot" by (simp_all add: st(4))
  obtain t1 where t1: "open_cycle L P y t = (Inr (), t1)" "same t t1"
    using open_again [of y dkey a t p] st(10,11,13) st(12) clock unfolding y by blast
  have landed_again: "grid_landed L ftext default_raw_prefix cfg y (objects t1) grid c"
    if "grid_landed L ftext (if reused then default_raw_prefix else lc_raw_prefix cfg) cfg y (objects t) grid c" for grid c reused
    using that raw_matches_prefix prefix t1(2)
    by (cases reused) (auto simp: grid_landed_def same_def)
  have "list_all2 (\<lambda>grid c. grid_landed L ftext default_raw_prefix cfg y (objects t1) grid c) (lq_grids q) (map fst landed)"
    unfolding list.rel_map
    by (rule list_all2_mono [OF st(5)]) (simp only: split_beta, erule landed_again)
  then obtain t2 where t2: "land_grids L ftext P cfg y (lq_grids q) t1 = (Inr (map (\<lambda>c. (c, True)) (map fst landed)), t2)"
    "same t1 t2" using land_grids_again by blast
  have "objects t2 key = Some (render L (sort_keys m))"
    using st(8) t1(2) t2(2) by (simp add: same_def)
  then obtain t3 where t3: "write_manifest L (lp_store P) cfg y (map fst landed) t2 = (Inr key, t3)" "same t2 t3"
    using write_manifest_again [of y cfg "map fst landed" m key t2] st(6,7) unfolding y by blast
  have "collect_observations L ftext P cfg run q t = (Inr (batch_of y (map (\<lambda>c. (c, True)) (map fst landed)) key), t3)"
    using t1(1) t2(1) t3(1) by (simp add: collect_observations_def st(1,2,3) st(4) [symmetric] o_def)
  moreover have "batch_of y (map (\<lambda>c. (c, True)) (map fst landed)) key
      = b\<lparr>lb_api_request_count := 0, lb_reused_grid_count := lb_grid_count b\<rparr>"
    by (simp add: st(9) batch_of_def Let_def o_def)
  moreover have "same t t3" using t1(2) t2(2) t3(2) by (simp add: same_def)
  ultimately show ?thesis by auto
qed

end

context quiet_landing
begin

text \<open>
  The check of a resumed raw object is made with the default prefix: under another prefix a fresh
  batch can never be resumed.
\<close>

lemma collect_refused:
  assumes stored: "batch_stored L ftext cfg run q (objects t) b"
    and prefix: "without_slashes (lc_raw_prefix cfg) \<noteq> without_slashes default_raw_prefix"
    and fresh: "lb_reused_grid_count b = 0" and n: "1 \<le> lc_expected_grid_count cfg" and clock: "clock_in_range P"
  shows "fst (collect_observations L ftext P cfg run q t)
      = Inl (WeatherRawIntegrityError ''KMA observation checkpoint raw object key does not match hash context'')"
proof -
  obtain date hour slot y landed m key dkey a p where st:
    "normalize_observation_slot L (PStr (lq_base_date q)) (PStr (lq_base_time q)) = Inr (date, hour)"
    "validate_grids (lc_expected_grid_count cfg) (lq_grids q) = Inr (lq_grids q)" "observed_slot L date hour = Inr slot"
    "y = \<lparr>ly_run = run, ly_base_date = date, ly_base_time = hour, ly_slot = slot\<rparr>"
    "list_all2 (\<lambda>grid (c, reused). grid_landed L ftext (if reused then default_raw_prefix else lc_raw_prefix cfg) cfg y
        (objects t) grid c) (lq_grids q) landed" "b = batch_of y landed key"
    "deadline_checkpoint_key \<lparr>ci_dag_id = or_dag_id run, ci_dag_run_id = or_run_id run,
        ci_source_id = observation_source_id, ci_observed_slot = slot\<rparr> = Inr dkey"
    "anchor_ok a \<lparr>ci_dag_id = or_dag_id run, ci_dag_run_id = or_run_id run,
        ci_source_id = observation_source_id, ci_observed_slot = slot\<rparr>"
    "objects t dkey = Some p" "deserialize_deadline_anchor L p = Inr a"
    using stored unfolding batch_stored_def by (elim exE conjE) (rule that)
  have y: "ly_run y = run" "ly_slot y = slot" by (simp_all add: st(4))
  obtain t1 where t1: "open_cycle L P y t = (Inr (), t1)" "same t t1"
    using open_again [of y dkey a t p] st(7,8,10) st(9) clock unfolding y by blast
  have "length (lq_grids q) \<noteq> 0" using st(2) n by (auto simp: validate_grids_def Let_def split: if_splits)
  then obtain grid grids where grids: "lq_grids q = grid # grids" by (cases "lq_grids q") auto
  obtain c reused landed' where c: "landed = (c, reused) # landed'"
    "grid_landed L ftext (if reused then default_raw_prefix else lc_raw_prefix cfg) cfg y (objects t) grid c"
    using st(5) unfolding grids by (cases landed) auto
  have "\<not> reused" using fresh by (simp add: st(6) c(1) split: if_splits)
  then have "grid_landed L ftext (lc_raw_prefix cfg) cfg y (objects t1) grid c"
    using c(2) t1(2) by (simp add: same_def)
  then obtain payload t2 where t2: "raw_matches L ftext (lc_raw_prefix cfg) y grid c payload"
    "land_grid L ftext P cfg y grid t1
       = (bind_result (raw_from_checkpoint L ftext (ly_run y) grid c payload) (\<lambda>_. Inr (c, True)), t2)"
    using resume_steps by blast
  have "land_grid L ftext P cfg y grid t1
      = (Inl (WeatherRawIntegrityError ''KMA observation checkpoint raw object key does not match hash context''), t2)"
    using t2(2) raw_from_checkpoint_refused [OF t2(1) prefix] by simp
  then show ?thesis
    using t1(1) by (simp add: collect_observations_def st(1,3) st(2) [unfolded grids] st(4) [symmetric] grids)
qed

end

end
