(* ===== verification/Kma_Xcom.thy ===== *)
theory Kma_Xcom
  imports Kma_Landing
begin

text \<open>
  The document that carries a landed batch from one task to the next
  (\<open>ObservationLandingBatch.to_xcom\<close> and \<open>from_xcom\<close> of
  \<open>weather_ingest/kma_observation_landing.py\<close>), and its round trip.
\<close>

section \<open>Writing\<close>

definition raw_to_xcom :: "raw_object \<Rightarrow> pyobj" where
  "raw_to_xcom r =
     PDict
       [(''request_id'', PStr (ro_request_id r)), (''raw_object_key'', PStr (ro_raw_object_key r)),
        (''payload_sha256'', PStr (ro_payload_sha256 r)), (''http_status'', PInt (ro_http_status r)),
        (''collected_at'', PStr (iso_text (ro_collected_at r))), (''nx'', PInt (ro_nx r)), (''ny'', PInt (ro_ny r)),
        (''category_count'', PInt (ro_category_count r)), (''categories'', PList (map PStr (ro_categories r)))]"

definition batch_to_xcom :: "landing_batch \<Rightarrow> pyobj pydict" where
  "batch_to_xcom b =
     [(''source_id'', PStr (lb_source_id b)), (''dag_id'', PStr (lb_dag_id b)), (''run_id'', PStr (lb_run_id b)),
      (''base_date'', PStr (lb_base_date b)), (''base_time'', PStr (lb_base_time b)),
      (''observed_slot'', PStr (lb_observed_slot b)), (''raw_objects'', PList (map raw_to_xcom (lb_raw_objects b))),
      (''raw_object_keys'', PList (map (PStr \<circ> ro_raw_object_key) (lb_raw_objects b))),
      (''grid_count'', PInt (lb_grid_count b)), (''row_count'', PInt (lb_row_count b)),
      (''api_request_count'', PInt (lb_api_request_count b)), (''reused_grid_count'', PInt (lb_reused_grid_count b)),
      (''manifest_key'', PStr (lb_manifest_key b)), (''is_publishable'', PBool (lb_is_publishable b))]"

section \<open>Reading\<close>

text \<open>\<open>datetime.fromisoformat(str(raw[key]))\<close>.\<close>

definition printed_time_item :: "pylib \<Rightarrow> pyobj pydict \<Rightarrow> string \<Rightarrow> pydatetime result" where
  "printed_time_item L d k =
     bind_result (text_item L d k) (\<lambda>s.
     case fromisoformat L s of None \<Rightarrow> Inl (ValueError ''Invalid isoformat string'') | Some t \<Rightarrow> Inr t)"

definition raw_from_xcom :: "pylib \<Rightarrow> pyobj pydict \<Rightarrow> raw_object result" where
  "raw_from_xcom L d =
     bind_result (text_item L d ''request_id'') (\<lambda>request_id.
     bind_result (text_item L d ''raw_object_key'') (\<lambda>key.
     bind_result (text_item L d ''payload_sha256'') (\<lambda>sha.
     bind_result (int_item d ''http_status'') (\<lambda>status.
     bind_result (printed_time_item L d ''collected_at'') (\<lambda>collected.
     bind_result (int_item d ''nx'') (\<lambda>nx.
     bind_result (int_item d ''ny'') (\<lambda>ny.
     bind_result (int_item d ''category_count'') (\<lambda>n.
     bind_result (texts_item L d ''categories'') (\<lambda>categories.
     Inr \<lparr>ro_request_id = request_id, ro_raw_object_key = key, ro_payload_sha256 = sha, ro_http_status = status,
          ro_collected_at = collected, ro_nx = nx, ro_ny = ny, ro_category_count = n, ro_categories = categories\<rparr>)))))))))"

fun raws_from_xcom :: "pylib \<Rightarrow> pyobj list \<Rightarrow> raw_object list result" where
  "raws_from_xcom L [] = Inr []"
| "raws_from_xcom L (PDict d # vs) =
     bind_result (raw_from_xcom L d) (\<lambda>r. bind_result (raws_from_xcom L vs) (\<lambda>rs. Inr (r # rs)))"
| "raws_from_xcom L (_ # vs) = raws_from_xcom L vs"

text \<open>A batch as it was sent: the counts are any integers.\<close>

record xcom_batch =
  xb_source_id :: string
  xb_dag_id :: string
  xb_run_id :: string
  xb_base_date :: string
  xb_base_time :: string
  xb_observed_slot :: string
  xb_raw_objects :: "raw_object list"
  xb_grid_count :: int
  xb_row_count :: int
  xb_api_request_count :: int
  xb_reused_grid_count :: int
  xb_manifest_key :: string
  xb_is_publishable :: bool

definition batch_of_xcom :: "pylib \<Rightarrow> pyobj pydict \<Rightarrow> xcom_batch result" where
  "batch_of_xcom L d =
     bind_result (dict_item ''raw_objects'' d) (\<lambda>raws.
     bind_result (case raws of PList vs \<Rightarrow> Inr vs | _ \<Rightarrow> Inl (TypeError ''raw_objects'')) (\<lambda>vs.
     bind_result (raws_from_xcom L vs) (\<lambda>rs.
     if length rs \<noteq> length vs then Inl (TypeError ''raw_objects'')
     else bind_result (text_item L d ''source_id'') (\<lambda>source_id.
          bind_result (text_item L d ''dag_id'') (\<lambda>dag_id.
          bind_result (text_item L d ''run_id'') (\<lambda>run_id.
          bind_result (text_item L d ''base_date'') (\<lambda>base_date.
          bind_result (text_item L d ''base_time'') (\<lambda>base_time.
          bind_result (text_item L d ''observed_slot'') (\<lambda>slot.
          bind_result (int_item d ''grid_count'') (\<lambda>grid_count.
          bind_result (int_item d ''row_count'') (\<lambda>row_count.
          bind_result (int_item d ''api_request_count'') (\<lambda>api.
          bind_result (int_item d ''reused_grid_count'') (\<lambda>reused.
          bind_result (text_item L d ''manifest_key'') (\<lambda>key.
          bind_result (dict_item ''is_publishable'' d) (\<lambda>publishable.
          Inr \<lparr>xb_source_id = source_id, xb_dag_id = dag_id, xb_run_id = run_id, xb_base_date = base_date,
               xb_base_time = base_time, xb_observed_slot = slot, xb_raw_objects = rs, xb_grid_count = grid_count,
               xb_row_count = row_count, xb_api_request_count = api, xb_reused_grid_count = reused,
               xb_manifest_key = key, xb_is_publishable = (\<not> falsy publishable)\<rparr>)))))))))))))))"

definition batch_from_xcom :: "pylib \<Rightarrow> pyobj pydict \<Rightarrow> xcom_batch result" where
  "batch_from_xcom L d =
     try_except (batch_of_xcom L d) (\<lambda>e. is_key_error e \<or> is_type_error e \<or> is_value_error e)
       (\<lambda>_. Inl (WeatherRawIntegrityError ''KMA observation landing XCom contract is malformed''))"

section \<open>The round trip\<close>

definition sent_batch :: "landing_batch \<Rightarrow> xcom_batch" where
  "sent_batch b =
     \<lparr>xb_source_id = lb_source_id b, xb_dag_id = lb_dag_id b, xb_run_id = lb_run_id b, xb_base_date = lb_base_date b,
      xb_base_time = lb_base_time b, xb_observed_slot = lb_observed_slot b, xb_raw_objects = lb_raw_objects b,
      xb_grid_count = lb_grid_count b, xb_row_count = lb_row_count b, xb_api_request_count = lb_api_request_count b,
      xb_reused_grid_count = lb_reused_grid_count b, xb_manifest_key = lb_manifest_key b,
      xb_is_publishable = lb_is_publishable b\<rparr>"

definition utc_collected :: "raw_object \<Rightarrow> bool" where
  "utc_collected r \<longleftrightarrow> (\<exists>u. ro_collected_at r = Aware u \<and> in_range u)"

context iso_codec
begin

lemma raw_roundtrip:
  assumes "utc_collected r"
  shows "raws_from_xcom L (raw_to_xcom r # vs) = bind_result (raws_from_xcom L vs) (\<lambda>rs. Inr (r # rs))"
  using assms
  by (cases r) (auto simp: raw_to_xcom_def utc_collected_def raw_from_xcom_def text_item_def int_item_def printed_time_item_def
      texts_item_def iterated_def dict_item_def py_str_def py_int_def fromisoformat_isoformat o_def)

lemma raws_roundtrip: "list_all utc_collected rs \<Longrightarrow> raws_from_xcom L (map raw_to_xcom rs) = Inr rs"
  by (induction rs) (simp_all add: raw_roundtrip)

lemma batch_roundtrip:
  assumes "list_all utc_collected (lb_raw_objects b)"
  shows "batch_from_xcom L (batch_to_xcom b) = Inr (sent_batch b)"
  by (simp add: batch_from_xcom_def batch_of_xcom_def batch_to_xcom_def raws_roundtrip [OF assms] text_item_def int_item_def
      dict_item_def py_str_def py_int_def sent_batch_def)

end

text \<open>
  C37: The document of a batch with aware collection times reads back as the batch, whichever keys it has;
  a document without its raw objects, or with one that is not an object, is refused with the integrity
  error.
\<close>

theorem batch_survives_xcom:
  assumes "list_all utc_collected (lb_raw_objects b)"
  shows "batch_from_xcom (std_lib h) (batch_to_xcom b) = Inr (sent_batch b)
    \<and> (\<forall>d v. (map_of d ''raw_objects'' = None \<or> (map_of d ''raw_objects'' = Some v \<and> (\<forall>vs. v \<noteq> PList vs))
          \<or> (map_of d ''raw_objects'' = Some (PList (v # map raw_to_xcom (lb_raw_objects b))) \<and> (\<forall>e. v \<noteq> PDict e)))
        \<longrightarrow> batch_from_xcom (std_lib h) d = Inl (WeatherRawIntegrityError ''KMA observation landing XCom contract is malformed''))"
proof -
  have skip: "raws_from_xcom (std_lib h) (v # map raw_to_xcom (lb_raw_objects b)) = Inr (lb_raw_objects b)"
    if "\<forall>e. v \<noteq> PDict e" for v
    using that std.raws_roundtrip [OF assms] by (cases v) simp_all
  have "batch_from_xcom (std_lib h) d = Inl (WeatherRawIntegrityError ''KMA observation landing XCom contract is malformed'')"
    if "map_of d ''raw_objects'' = None \<or> (map_of d ''raw_objects'' = Some v \<and> (\<forall>vs. v \<noteq> PList vs))
          \<or> (map_of d ''raw_objects'' = Some (PList (v # map raw_to_xcom (lb_raw_objects b))) \<and> (\<forall>e. v \<noteq> PDict e))" for d v
  proof -
    have "\<exists>e. batch_of_xcom (std_lib h) d = Inl e \<and> (is_key_error e \<or> is_type_error e)"
      using that skip [of v] by (auto simp: batch_of_xcom_def dict_item_def split: pyobj.splits)
    then show ?thesis by (auto simp: batch_from_xcom_def)
  qed
  with std.batch_roundtrip [OF assms] show ?thesis by blast
qed

definition demo_landing_batch :: landing_batch where
  "demo_landing_batch =
     \<lparr>lb_source_id = ''s'', lb_dag_id = ''d'', lb_run_id = ''r'', lb_base_date = ''20251129'', lb_base_time = ''0500'',
      lb_observed_slot = ''slot'',
      lb_raw_objects =
        [\<lparr>ro_request_id = ''q'', ro_raw_object_key = ''k'', ro_payload_sha256 = ''0'', ro_http_status = 200,
          ro_collected_at = Aware 63900000000000000, ro_nx = 60, ro_ny = 127, ro_category_count = 8,
          ro_categories = required_categories\<rparr>],
      lb_grid_count = 1, lb_row_count = 8, lb_api_request_count = 1, lb_reused_grid_count = 0, lb_manifest_key = ''m'',
      lb_is_publishable = True\<rparr>"

lemma batch_survives_xcom_witness:
  "batch_from_xcom (std_lib id) (batch_to_xcom demo_landing_batch) = Inr (sent_batch demo_landing_batch) \<and> lb_row_count demo_landing_batch = 8"
proof -
  have "in_range 63900000000000000" by (simp add: in_range_def max_instant_def us_per_day_def)
  then have "list_all utc_collected (lb_raw_objects demo_landing_batch)" by (simp add: demo_landing_batch_def utc_collected_def)
  from batch_survives_xcom [OF this, of id] show ?thesis by (simp add: demo_landing_batch_def)
qed

end
