(* ===== verification/Kma_Collection.thy ===== *)
theory Kma_Collection
  imports Kma_Landing
begin

text \<open>
  One collection of the current observations as the runtime builds it
  (\<open>weather_ingest/kma_observation_runtime.py\<close>, with the environment of
  \<open>weather_ingest/common/runtime.py\<close>): the landing over the object store, the deadline of the cycle,
  the HTTP client, the shared attempt ledger and the throttle circuit.  The theorems are about the
  whole: what a run leaves in the store and in the ledger, and what a second run of the same task does.
\<close>

section \<open>The environment\<close>

definition is_dev_target :: "(string \<Rightarrow> string option) \<Rightarrow> bool" where
  "is_dev_target env \<longleftrightarrow> env_text env ''ASK_SEOUL_TARGET'' (env_text env ''DBT_TARGET'' ''prod'') = ''dev''"

definition required_env :: "(string \<Rightarrow> string option) \<Rightarrow> string \<Rightarrow> string result" where
  "required_env env name =
     (let v = env_text env name []
      in if v = [] then Inl (WeatherBronzeConfigurationError (''Missing required environment variable: '' @ name)) else Inr v)"

definition raw_prefix :: "(string \<Rightarrow> string option) \<Rightarrow> string" where
  "raw_prefix env =
     (if is_dev_target env then env_text env ''ASK_SEOUL_DEV_RAW_PREFIX'' ''raw''
      else env_text env ''ASK_SEOUL_RAW_PREFIX'' ''raw'')"

definition checkpoint_prefix :: "(string \<Rightarrow> string option) \<Rightarrow> string" where
  "checkpoint_prefix env =
     (let configured = py_strip (env_text env ''WEATHER_CHECKPOINT_PREFIX'' [])
      in if configured \<noteq> [] then without_slashes configured else ''ops/control/checkpoints/weather'')"

text \<open>\<open>_positive_integer\<close> and \<open>_positive_float\<close>: NaN passes the comparison with zero.\<close>

definition runtime_integer :: "(string \<Rightarrow> string option) \<Rightarrow> string \<Rightarrow> int \<Rightarrow> int result" where
  "runtime_integer env name dflt =
     (let unfit = Inl (ValueError (name @ '' must be a positive integer''))
      in case py_int_text (env_text env name (show_int dflt)) of
          None \<Rightarrow> unfit
        | Some n \<Rightarrow> if n < 1 then unfit else Inr n)"

definition runtime_float :: "(string \<Rightarrow> pyfloat option) \<Rightarrow> (string \<Rightarrow> string option) \<Rightarrow> string \<Rightarrow> string \<Rightarrow> pyfloat result" where
  "runtime_float ftext env name dflt =
     (let unfit = Inl (ValueError (name @ '' must be a positive number''))
      in case ftext (env_text env name dflt) of
          None \<Rightarrow> unfit
        | Some (Finite q) \<Rightarrow> if q \<le> 0 then unfit else Inr (Finite q)
        | Some NegInf \<Rightarrow> unfit
        | Some x \<Rightarrow> Inr x)"

section \<open>The collection the runtime builds\<close>

definition observation_raw_prefix :: "(string \<Rightarrow> string option) \<Rightarrow> string" where
  "observation_raw_prefix env = without_slashes (raw_prefix env) @ ''/weather_observation/kma_ultra_srt_ncst''"

definition observation_landing_config :: "(string \<Rightarrow> string option) \<Rightarrow> landing_config result" where
  "observation_landing_config env =
     (let root = without_slashes (checkpoint_prefix env)
      in landing_config_init (PInt 80) (observation_raw_prefix env) (root @ ''/kma_ultra_srt_ncst/grids'')
           (root @ ''/kma_ultra_srt_ncst/manifests''))"

text \<open>The policy of \<open>source_factory\<close>.\<close>

definition observation_http_policy :: "(string \<Rightarrow> pyfloat option) \<Rightarrow> http_policy result" where
  "observation_http_policy ftext =
     http_policy_init ftext (PInt 4) (PInt 10) (PInt 2) [PFloat (Finite 5), PFloat (Finite 10), PFloat (Finite 20)] (PInt 60)"

record observation_settings =
  os_daily_limit :: int
  os_requests_per_second :: pyfloat
  os_circuit :: throttle_circuit
  os_config :: landing_config

definition build_observation_landing ::
  "(string \<Rightarrow> string list) \<Rightarrow> (string \<Rightarrow> pyfloat option) \<Rightarrow> (string \<Rightarrow> string option) \<Rightarrow> (nat \<Rightarrow> bool) \<Rightarrow> ledger_db option
     \<Rightarrow> observation_settings result" where
  "build_observation_landing resolve ftext env ok file =
     bind_result (traverse (required_env env)
        [''R2_ENDPOINT'', ''R2_ACCESS_KEY_ID'', ''R2_SECRET_ACCESS_KEY'', ''R2_BUCKET_NAME'']) (\<lambda>_.
     bind_result (ledger_from_environment resolve env ok file) (\<lambda>(_, limit).
     bind_result (runtime_float ftext env ''ASK_SEOUL_KMA_OBSERVATION_REQUESTS_PER_SECOND'' ''1.0'') (\<lambda>rate.
     bind_result (required_env env ''KMA_SERVICE_KEY'') (\<lambda>_.
     bind_result (runtime_integer env ''ASK_SEOUL_KMA_OBSERVATION_THROTTLE_THRESHOLD'' 3) (\<lambda>threshold.
     bind_result (new_throttle_circuit (PInt threshold)) (\<lambda>circuit.
     bind_result (observation_landing_config env) (\<lambda>cfg.
     Inr \<lparr>os_daily_limit = limit, os_requests_per_second = rate, os_circuit = circuit, os_config = cfg\<rparr>)))))))"

section \<open>The world of a collection\<close>

record 'f collection_world =
  cw_store :: 'f
  cw_kma :: kma_world
  cw_circuit :: throttle_circuit
  cw_ids :: nat

text \<open>A port of the store or of the other half, in the whole world.\<close>

definition in_store :: "('f \<Rightarrow> 'a \<times> 'f) \<Rightarrow> 'f collection_world \<Rightarrow> 'a \<times> 'f collection_world" where
  "in_store f w = (case f (cw_store w) of (r, s) \<Rightarrow> (r, w\<lparr>cw_store := s\<rparr>))"

definition clock_tick :: "'f collection_world \<Rightarrow> 'f collection_world" where
  "clock_tick w = w\<lparr>cw_kma := (cw_kma w)\<lparr>kw_tick := kw_tick (cw_kma w) + 1\<rparr>\<rparr>"

definition collection_ports ::
  "pylib \<Rightarrow> (string \<Rightarrow> pyfloat option) \<Rightarrow> (string \<Rightarrow> string option) \<Rightarrow> kma_surroundings \<Rightarrow> int \<Rightarrow> http_policy
     \<Rightarrow> (nat \<Rightarrow> string) \<Rightarrow> 'f raw_store \<Rightarrow> 'f collection_world landing_ports" where
  "collection_ports L ftext env E limit pol ids B =
     \<lparr>lp_store = \<lparr>raw_exists = (\<lambda>k. in_store (raw_exists B k)), raw_read = (\<lambda>k. in_store (raw_read B k)),
                  raw_put_if_absent = (\<lambda>k d. in_store (raw_put_if_absent B k d))\<rparr>,
      lp_clock = (\<lambda>w. (ks_wall E (kw_tick (cw_kma w)), clock_tick w)),
      lp_monotonic = (\<lambda>w. (ks_monotonic E (kw_tick (cw_kma w)), clock_tick w)),
      lp_request_id = (\<lambda>w. (ids (cw_ids w), w\<lparr>cw_ids := cw_ids w + 1\<rparr>)),
      lp_open_source = (\<lambda>cd w. (Inr (), w\<lparr>cw_kma := (cw_kma w)\<lparr>kw_deadline := cd\<rparr>\<rparr>)),
      lp_fetch = (\<lambda>d h q w.
        case fetch_observation L ftext env (kma_ports L ftext E limit) pol d h q (cw_circuit w) (cw_kma w) of
          (r, c, k) \<Rightarrow> (r, w\<lparr>cw_circuit := c, cw_kma := k\<rparr>))\<rparr>"

lemma collection_ports_simps [simp]:
  "raw_exists (lp_store (collection_ports L ftext env E limit pol ids B)) k = in_store (raw_exists B k)"
  "raw_read (lp_store (collection_ports L ftext env E limit pol ids B)) k = in_store (raw_read B k)"
  "raw_put_if_absent (lp_store (collection_ports L ftext env E limit pol ids B)) k d = in_store (raw_put_if_absent B k d)"
  "lp_clock (collection_ports L ftext env E limit pol ids B) w = (ks_wall E (kw_tick (cw_kma w)), clock_tick w)"
  "lp_monotonic (collection_ports L ftext env E limit pol ids B) w = (ks_monotonic E (kw_tick (cw_kma w)), clock_tick w)"
  "lp_request_id (collection_ports L ftext env E limit pol ids B) w = (ids (cw_ids w), w\<lparr>cw_ids := cw_ids w + 1\<rparr>)"
  "lp_open_source (collection_ports L ftext env E limit pol ids B) cd w
     = (Inr (), w\<lparr>cw_kma := (cw_kma w)\<lparr>kw_deadline := cd\<rparr>\<rparr>)"
  "lp_fetch (collection_ports L ftext env E limit pol ids B) d h q w
     = (case fetch_observation L ftext env (kma_ports L ftext E limit) pol d h q (cw_circuit w) (cw_kma w) of
          (r, c, k) \<Rightarrow> (r, w\<lparr>cw_circuit := c, cw_kma := k\<rparr>))"
  by (simp_all add: collection_ports_def)

lemma in_store_simps [simp]:
  "cw_kma (snd (in_store f w)) = cw_kma w" "cw_store (snd (in_store f w)) = snd (f (cw_store w))"
  "fst (in_store f w) = fst (f (cw_store w))" "cw_store (clock_tick w) = cw_store w"
  "kw_log (cw_kma (clock_tick w)) = kw_log (cw_kma w)" "kw_file (cw_kma (clock_tick w)) = kw_file (cw_kma w)"
  by (simp_all add: in_store_def clock_tick_def split: prod.splits)

lemma in_store_eq: "in_store f w = (r, w') \<longleftrightarrow> (\<exists>s. f (cw_store w) = (r, s) \<and> w' = w\<lparr>cw_store := s\<rparr>)"
  by (auto simp: in_store_def split: prod.splits)

lemma in_store_returns:
  "\<exists>s. f (cw_store w) = (r, s) \<and> Q s \<Longrightarrow> \<exists>w'. in_store f w = (r, w') \<and> Q (cw_store w')"
  by (force simp: in_store_eq)

section \<open>The interfaces hold\<close>

text \<open>A store keeps its contract inside of the world.\<close>

lemma raw_objects_in_world:
  assumes "raw_objects B objects"
  shows "raw_objects (lp_store (collection_ports L ftext env E limit pol ids B)) (\<lambda>w. objects (cw_store w))"
  using raw_objects.exists_grows [OF assms] raw_objects.read_grows [OF assms] raw_objects.put_grows [OF assms]
    raw_objects.exists_present [OF assms] raw_objects.exists_absent [OF assms] raw_objects.read_object [OF assms]
    raw_objects.put_created [OF assms] raw_objects.put_present [OF assms]
  by unfold_locales (auto simp: in_store_eq)

lemma quiet_raw_objects_in_world:
  assumes "quiet_raw_objects B objects"
  shows "quiet_raw_objects (lp_store (collection_ports L ftext env E limit pol ids B)) (\<lambda>w. objects (cw_store w))"
proof (rule quiet_raw_objects.intro)
  have "raw_objects B objects" using assms by (simp add: quiet_raw_objects_def)
  then show "raw_objects (lp_store (collection_ports L ftext env E limit pol ids B)) (\<lambda>w. objects (cw_store w))"
    by (rule raw_objects_in_world)
  show "quiet_raw_objects_axioms (lp_store (collection_ports L ftext env E limit pol ids B)) (\<lambda>w. objects (cw_store w))"
  proof
    fix k d and w :: "'a collection_world"
    show "\<exists>w'. raw_exists (lp_store (collection_ports L ftext env E limit pol ids B)) k w = (Inr (objects (cw_store w) k \<noteq> None), w')
        \<and> objects (cw_store w') = objects (cw_store w)"
      unfolding collection_ports_simps by (rule in_store_returns) (rule quiet_raw_objects.exists_returns [OF assms])
    show "\<exists>w'. raw_read (lp_store (collection_ports L ftext env E limit pol ids B)) k w = (Inr d, w')
        \<and> objects (cw_store w') = objects (cw_store w)" if "objects (cw_store w) k = Some d"
      unfolding collection_ports_simps by (rule in_store_returns) (rule quiet_raw_objects.read_returns [OF assms that])
    obtain b s where "raw_put_if_absent B k d (cw_store w) = (Inr b, s)" using quiet_raw_objects.put_returns [OF assms] by blast
    then show "\<exists>b w'. raw_put_if_absent (lp_store (collection_ports L ftext env E limit pol ids B)) k d w = (Inr b, w')"
      unfolding collection_ports_simps in_store_eq by blast
    show "\<exists>w'. raw_put_if_absent (lp_store (collection_ports L ftext env E limit pol ids B)) k d w = (Inr False, w')
        \<and> objects (cw_store w') = objects (cw_store w)" if "objects (cw_store w) k \<noteq> None"
      unfolding collection_ports_simps by (rule in_store_returns) (rule quiet_raw_objects.put_absent_only [OF assms that])
  qed
qed

lemma landing_client_in_world:
  assumes "raw_objects B objects"
  shows "landing_client (std_lib h) (collection_ports (std_lib h) ftext env E limit pol ids B) (\<lambda>w. objects (cw_store w))"
proof (rule landing_client.intro)
  show "json_codec (std_lib h)" by unfold_locales
  show "raw_objects (lp_store (collection_ports (std_lib h) ftext env E limit pol ids B)) (\<lambda>w. objects (cw_store w))"
    by (rule raw_objects_in_world [OF assms])
  show "landing_client_axioms (collection_ports (std_lib h) ftext env E limit pol ids B) (\<lambda>w. objects (cw_store w))"
    by unfold_locales (auto split: prod.splits intro: map_le_refl)
qed

interpretation r2_collection:
  landing_client "std_lib h" "collection_ports (std_lib h) ftext env E limit pol ids (r2_raw_store faulty_service)"
    "\<lambda>w. map_of (snd (cw_store w))"
  for h ftext env E limit pol ids
  by (rule landing_client_in_world [OF faulty.raw.raw_objects_axioms])

lemma quiet_landing_in_world:
  assumes "quiet_raw_objects B objects"
  shows "quiet_landing (std_lib h) (collection_ports (std_lib h) ftext env E limit pol ids B) (\<lambda>w. objects (cw_store w))
    (\<lambda>w. (kw_log (cw_kma w), kw_file (cw_kma w)))"
proof (rule quiet_landing.intro)
  have "raw_objects B objects" using assms by (simp add: quiet_raw_objects_def)
  then show "landing_client (std_lib h) (collection_ports (std_lib h) ftext env E limit pol ids B) (\<lambda>w. objects (cw_store w))"
    by (rule landing_client_in_world)
  show "quiet_raw_objects (lp_store (collection_ports (std_lib h) ftext env E limit pol ids B)) (\<lambda>w. objects (cw_store w))"
    by (rule quiet_raw_objects_in_world [OF assms])
  show "quiet_landing_axioms (collection_ports (std_lib h) ftext env E limit pol ids B) (\<lambda>w. objects (cw_store w))
    (\<lambda>w. (kw_log (cw_kma w), kw_file (cw_kma w)))"
    by unfold_locales simp_all
qed

interpretation file_collection:
  quiet_landing "std_lib h" "collection_ports (std_lib h) ftext env E limit pol ids file_raw_store"
    "\<lambda>w. map_of (cw_store w)" "\<lambda>w. (kw_log (cw_kma w), kw_file (cw_kma w))"
  for h ftext env E limit pol ids
  by (rule quiet_landing_in_world [OF raw_files.quiet_raw_objects_axioms])

text \<open>Whatever a collection does, the ledger keeps its budget.\<close>

definition within_budget :: "int \<Rightarrow> kma_world \<Rightarrow> bool" where
  "within_budget limit k \<longleftrightarrow> (\<exists>db rs. kw_file k = Some db \<and> ledger_inv limit rs db)"

interpretation budget: port_invariant "kma_ports L ftext E limit" "within_budget limit"
  for L ftext E limit
proof
  fix a k r k'
  assume step: "port_before_attempt (kma_ports L ftext E limit) a k = (r, k')" and "within_budget limit k"
  then obtain db rs where db: "kw_file k = Some db" "ledger_inv limit rs db" by (auto simp: within_budget_def)
  obtain db1 rs1 where others: "other_workers L limit (ks_others E (kw_tick k)) (Some db) = Some db1"
    "ledger_inv limit rs1 db1" using other_workers_inv [OF db(2)] by blast
  obtain res f where hook: "budget_hook L limit (ks_wall E (kw_tick k)) (ks_sql E (kw_tick k)) a (Some db1) = (res, f)" by force
  obtain db2 where db2: "f = Some db2" "ledger_inv limit (rs1 @ [res]) db2"
    using reserve_inv [OF others(2) hook [unfolded budget_hook_def]] by blast
  have "kw_file k' = Some db2"
    using step hook by (cases res) (auto simp: kma_ports_def world_reserve_def db(1) others(1) db2(1))
  with db2(2) show "within_budget limit k'" by (auto simp: within_budget_def)
qed (auto simp: kma_ports_def world_check_def within_budget_def Let_def split: if_splits)

lemma fetch_within_budget:
  assumes "fetch_observation L ftext env (kma_ports L ftext E limit) pol d h q c k = (r, c', k')" "within_budget limit k"
  shows "within_budget limit k'"
  using assms budget.keeps_fetch_attempts by (auto simp: fetch_observation_def split: sum.splits)

interpretation budget_frame:
  landing_frame "collection_ports L ftext env E limit pol ids B"
    "\<lambda>w w'. within_budget limit (cw_kma w) \<longrightarrow> within_budget limit (cw_kma w')"
  for L ftext env E limit pol ids B
  by unfold_locales
    (auto simp: clock_tick_def within_budget_def split: prod.splits dest: fetch_within_budget [unfolded within_budget_def])

section \<open>What a collection leaves\<close>

lemma without_slashes_append: "s \<noteq> [] \<Longrightarrow> last s \<noteq> CHR ''/'' \<Longrightarrow> without_slashes (a @ s) = a @ s"
  by (cases s rule: rev_cases) (simp_all add: without_slashes_def)

lemma observation_raw_prefix_slashes [simp]: "without_slashes (observation_raw_prefix env) = observation_raw_prefix env"
  unfolding observation_raw_prefix_def by (rule without_slashes_append) simp_all

lemma default_prefix_slashes [simp]: "without_slashes default_raw_prefix = ''raw'' @ ''/weather_observation/kma_ultra_srt_ncst''"
  using without_slashes_append [of "''/weather_observation/kma_ultra_srt_ncst''" "''raw''"]
  by (simp add: default_raw_prefix_def)

lemma observation_raw_prefix_default:
  "observation_raw_prefix env = ''raw'' @ ''/weather_observation/kma_ultra_srt_ncst'' \<longleftrightarrow> without_slashes (raw_prefix env) = ''raw''"
  unfolding observation_raw_prefix_def append_same_eq ..

lemma landing_config_init_positive: "landing_config_init n r c m = Inr cfg \<Longrightarrow> 1 \<le> lc_expected_grid_count cfg"
  by (auto simp: landing_config_init_def Let_def split: pyobj.splits if_splits)

text \<open>
  C34: Over the object service, whichever requests and responses are lost: a collection changes no stored
  object and never exceeds the daily limit of the ledger; and a batch it returns is complete.  It has the
  configured number of grids, those of the request, and eight rows for each; every raw object is stored
  under its key with the hash the batch carries and is a complete response for its grid; and the stored
  manifest is that of these raw objects.
\<close>

theorem collected_batch_is_complete:
  assumes "configured_daily_attempt_limit env = Inr limit"
    and "initialize_attempt_ledger resolve env ok ok' None = (Inr p, f0)"
    and "ledger_history (std_lib h) limit f0 rs (kw_file (cw_kma w))"
    and "landing_config_init n raw checkpoints manifests = Inr cfg"
    and "collect_observations (std_lib h) ftext
           (collection_ports (std_lib h) ftext env E limit pol ids (r2_raw_store faulty_service)) cfg run q w = (r, w')"
  shows "map_of (snd (cw_store w)) \<subseteq>\<^sub>m map_of (snd (cw_store w'))
    \<and> (\<exists>db. kw_file (cw_kma w') = Some db \<and> (\<forall>day. int (daily_count day (db_rows db)) \<le> limit))
    \<and> (\<forall>b. r = Inr b \<longrightarrow>
        (\<exists>date hour slot. normalize_observation_slot (std_lib h) (PStr (lq_base_date q)) (PStr (lq_base_time q)) = Inr (date, hour)
          \<and> observed_slot (std_lib h) date hour = Inr slot
          \<and> batch_complete (std_lib h) ftext cfg
              \<lparr>ly_run = run, ly_base_date = date, ly_base_time = hour, ly_slot = slot\<rparr> (lq_grids q)
              (map_of (snd (cw_store w'))) b))"
proof -
  let ?P = "collection_ports (std_lib h) ftext env E limit pol ids (r2_raw_store faulty_service)"
  have grown: "map_of (snd (cw_store w)) \<subseteq>\<^sub>m map_of (snd (cw_store w'))"
    using r2_collection.frame.collect_frame [where s = w] assms(5) by (metis snd_conv)
  have "0 < limit" using configured_limit_bounds [OF assms(1)] by blast
  then have "within_budget limit (cw_kma w)"
    using started_ledger_inv [OF _ assms(2,3)] by (auto simp: within_budget_def)
  then have "within_budget limit (cw_kma w')"
    using budget_frame.collect_frame [where s = w] assms(5) by (metis snd_conv)
  then have ledger: "\<exists>db. kw_file (cw_kma w') = Some db \<and> (\<forall>day. int (daily_count day (db_rows db)) \<le> limit)"
    by (auto simp: within_budget_def ledger_inv_def)
  note complete = r2_collection.collected_batch_complete [OF _ landing_config_init_positive [OF assms(4)]]
  have "\<exists>date hour slot. normalize_observation_slot (std_lib h) (PStr (lq_base_date q)) (PStr (lq_base_time q)) = Inr (date, hour)
      \<and> observed_slot (std_lib h) date hour = Inr slot
      \<and> batch_complete (std_lib h) ftext cfg \<lparr>ly_run = run, ly_base_date = date, ly_base_time = hour, ly_slot = slot\<rparr>
          (lq_grids q) (map_of (snd (cw_store w'))) b" if "r = Inr b" for b
    using complete [OF assms(5) [unfolded that]] by blast
  with grown ledger show ?thesis by blast
qed

text \<open>
  C35: Let the environment leave the raw prefix at its default and let a first run, whatever faults its store
  met, return a batch.  A second run with the same configuration, run and request, over a local store that has
  at least the objects the first one left and whose calls do not fail, at clock readings within the range of
  \<open>datetime\<close>, returns the same batch, with every grid counted as reused; it calls the source not even once,
  reserves nothing and changes no object.  (With another raw prefix it fails, as the next property shows.)
\<close>

theorem resumed_collection_calls_nothing:
  assumes "collect_observations (std_lib h) ftext
        (collection_ports (std_lib h) ftext env E limit pol ids (r2_raw_store faulty_service)) cfg run q w = (Inr b, w')"
    and "map_of (snd (cw_store w')) \<subseteq>\<^sub>m map_of (cw_store v)"
    and "lc_raw_prefix cfg = observation_raw_prefix env" and "without_slashes (raw_prefix env) = ''raw''"
    and "\<And>n. \<exists>u. ks_wall E' n = Aware u \<and> in_range u \<and> in_range (u + collection_deadline)"
  shows "\<exists>v'. collect_observations (std_lib h) ftext
        (collection_ports (std_lib h) ftext env E' limit' pol' ids' file_raw_store) cfg run q v
      = (Inr (b\<lparr>lb_api_request_count := 0, lb_reused_grid_count := lb_grid_count b\<rparr>), v')
    \<and> map_of (cw_store v') = map_of (cw_store v) \<and> kw_log (cw_kma v') = kw_log (cw_kma v)
    \<and> kw_file (cw_kma v') = kw_file (cw_kma v)"
proof -
  have "batch_stored (std_lib h) ftext cfg run q (map_of (cw_store v)) b"
    by (rule batch_stored_grows [OF r2_collection.collected_state [OF assms(1)] assms(2)])
  moreover have "without_slashes (lc_raw_prefix cfg) = without_slashes default_raw_prefix"
    unfolding assms(3) observation_raw_prefix_slashes default_prefix_slashes observation_raw_prefix_default by (rule assms(4))
  moreover have "clock_in_range (collection_ports (std_lib h) ftext env E' limit' pol' ids' file_raw_store)"
    using assms(5) by (simp add: clock_in_range_def)
  ultimately obtain v' where "collect_observations (std_lib h) ftext
        (collection_ports (std_lib h) ftext env E' limit' pol' ids' file_raw_store) cfg run q v
      = (Inr (b\<lparr>lb_api_request_count := 0, lb_reused_grid_count := lb_grid_count b\<rparr>), v')"
    "file_collection.same v v'"
    using file_collection.collect_again by blast
  then show ?thesis by (auto simp: file_collection.same_def)
qed

text \<open>
  C36: The check of a resumed object is made with the default prefix, not with the prefix the landing has:
  when the environment sets another raw prefix, a batch whose grids were all collected cannot be resumed,
  every later run of the task fails with an integrity error.
\<close>

theorem configured_prefix_is_never_resumed:
  assumes "collect_observations (std_lib h) ftext
        (collection_ports (std_lib h) ftext env E limit pol ids (r2_raw_store faulty_service)) cfg run q w = (Inr b, w')"
    and "map_of (snd (cw_store w')) \<subseteq>\<^sub>m map_of (cw_store v)"
    and "landing_config_init n (observation_raw_prefix env) checkpoints manifests = Inr cfg"
    and "without_slashes (raw_prefix env) \<noteq> ''raw''" and "lb_reused_grid_count b = 0"
    and "\<And>n. \<exists>u. ks_wall E' n = Aware u \<and> in_range u \<and> in_range (u + collection_deadline)"
  shows "fst (collect_observations (std_lib h) ftext
        (collection_ports (std_lib h) ftext env E' limit' pol' ids' file_raw_store) cfg run q v)
      = Inl (WeatherRawIntegrityError ''KMA observation checkpoint raw object key does not match hash context'')"
proof -
  have "batch_stored (std_lib h) ftext cfg run q (map_of (cw_store v)) b"
    by (rule batch_stored_grows [OF r2_collection.collected_state [OF assms(1)] assms(2)])
  moreover have "lc_raw_prefix cfg = observation_raw_prefix env"
    using assms(3) by (auto simp: landing_config_init_def Let_def split: pyobj.splits if_splits)
  then have "without_slashes (lc_raw_prefix cfg) \<noteq> without_slashes default_raw_prefix"
    using assms(4) observation_raw_prefix_default [of env] by (simp only: observation_raw_prefix_slashes default_prefix_slashes) simp
  moreover have "clock_in_range (collection_ports (std_lib h) ftext env E' limit' pol' ids' file_raw_store)"
    using assms(6) by (simp add: clock_in_range_def)
  ultimately show ?thesis
    using file_collection.collect_refused landing_config_init_positive [OF assms(3)] assms(5) by blast
qed

section \<open>A collection of one grid\<close>

text \<open>A response for the grid, and surroundings in which every answer is that response.\<close>

definition demo_response :: pyobj where
  "demo_response =
     PDict [(''response'', PDict
       [(''header'', PDict [(''resultCode'', PStr ''00'')]),
        (''body'', PDict [(''totalCount'', PInt 8), (''items'', PDict [(''item'', PList demo_observations)])])])]"

definition demo_payload :: "pylib \<Rightarrow> string" where
  "demo_payload L = render L demo_response"

definition answering :: "string \<Rightarrow> kma_surroundings" where
  "answering payload =
     demo_surroundings\<lparr>ks_answer := \<lambda>_. Answered \<lparr>hr_status = 200, hr_content = payload, hr_headers = []\<rparr>\<rparr>"

definition demo_lib :: pylib where
  "demo_lib = std_lib (\<lambda>_. demo_sha)"

lemma demo_instants:
  "in_range 63900000000000000" "in_range 63900002400000000" "in_range 63900032400000000" "in_range 63899956800000000"
  "in_range 63899989200000000"
  by (simp_all add: in_range_def max_instant_def us_per_day_def)

lemma demo_response_parses:
  "json_loads demo_lib (demo_payload demo_lib) = Some demo_response"
  unfolding demo_payload_def demo_lib_def
  by (rule std.json_loads_render) (simp add: demo_response_def demo_observations_def demo_obs_row_def list_all_iff)

lemma demo_code_text: "py_strip ''00'' = ''00'' \<and> \<not> is_blank ''00''"
  by (rule graphic_all) (simp_all add: graphic_def)

lemma observation_record_order:
  assumes "normalize_kma_observation_rows L ftext bd bt nx ny at_time sha rows = Inr records"
  shows "map ob_category records = required_categories"
  using assms
proof (rule normalize_Inr)
  fix date time x y collected observed ps
  assume "traverse (observation_record_of L ftext ps x y observed collected sha) required_categories = Inr records"
  then have "map ob_category records = map id required_categories"
    by (rule traverse_map_inverse) (use observation_record_of_Inr in force)
  then show ?thesis by simp
qed

lemma demo_observation_accepted:
  "\<exists>meta records. parse_and_normalize_kma_observation demo_lib (\<lambda>_. Some (Finite 1)) (PStr ''20251129'') (PStr ''0500'')
     (PInt 60) (PInt 127) (Aware 63900000000000000) (demo_payload demo_lib) = Inr ((meta, demo_sha), records)
   \<and> map ob_category records = required_categories"
proof -
  obtain records where records: "normalize_kma_observation_rows demo_lib (\<lambda>_. Some (Finite 1)) (PStr ''20251129'') (PStr ''0500'')
      (PInt 60) (PInt 127) (Aware 63900000000000000) demo_sha demo_observations = Inr records"
    unfolding demo_lib_def using demo_normalizes by blast
  have "traverse (validate_raw_row demo_lib) demo_observations = Inr (map (\<lambda>v. projr (validate_raw_row demo_lib v)) demo_observations)"
    by (rule traverse_total) (auto simp: demo_observations_def demo_row_validates)
  moreover have "length demo_observations = 8" by (simp add: demo_observations_def required_categories_def)
  moreover from this have "demo_observations \<noteq> []" by auto
  ultimately obtain meta where "parse_kma_observation_response demo_lib (demo_payload demo_lib) = Inr (meta, demo_observations)"
    by (simp add: parse_kma_observation_response_def demo_response_parses demo_response_def observation_object_def
        observation_code_def demo_code_text raise_for_result_code_def response_integer_def observation_integer_def py_int_def
        is_whole_def observation_rows_def)
  moreover have "map ob_category records = required_categories" using observation_record_order [OF records] .
  moreover have "sha256_hex demo_lib (demo_payload demo_lib) = demo_sha" by (simp add: demo_lib_def)
  ultimately show ?thesis using records by (simp add: parse_and_normalize_kma_observation_def)
qed

text \<open>The first request of the cycle is admitted, reserved and answered.\<close>

definition demo_slot_text :: string where
  "demo_slot_text = iso_wall 63899989200000000 @ offset_text kst_offset"

lemma demo_observed_slot: "observed_slot demo_lib ''20251129'' ''0500'' = Inr demo_slot_text"
  using demo_instants
  by (simp add: observed_slot_def observation_slot_utc_def demo_observation_slot demo_wall demo_lib_def demo_slot_text_def
      kst_offset_def hours_def astimezone_kst_def checked_instant_def)

lemma iso_wall_not_blank: "\<not> is_blank (iso_wall t @ s)"
proof -
  obtain y m d where "civil (t div us_per_day) = (y, m, d)" by (metis prod_cases3)
  then have "\<exists>n r. iso_wall t @ s = digit_char (n mod 10) # r"
    using pad_nat.simps(2) [of 3 y] by (auto simp: iso_wall_def date_str_def)
  moreover have "graphic (digit_char (n mod 10))" for n
    using of_digit_char [of "n mod 10"] by (simp add: graphic_def)
  ultimately show ?thesis using is_blank_graphic by metis
qed

lemma demo_slot_not_blank: "\<not> is_blank demo_slot_text"
  unfolding demo_slot_text_def by (rule iso_wall_not_blank)

definition demo_run :: observation_run where "demo_run = \<lparr>or_dag_id = ''dag'', or_run_id = ''run''\<rparr>"
definition demo_grid :: observation_grid where "demo_grid = \<lparr>og_nx = 60, og_ny = 127\<rparr>"

definition demo_request :: landing_request where
  "demo_request = \<lparr>lq_base_date = ''20251129'', lq_base_time = ''0500'', lq_grids = [demo_grid]\<rparr>"

definition demo_landing_cycle :: landing_cycle where
  "demo_landing_cycle =
     \<lparr>ly_run = demo_run, ly_base_date = ''20251129'', ly_base_time = ''0500'', ly_slot = demo_slot_text\<rparr>"

definition demo_cycle_view :: "cycle_deadline \<Rightarrow> bool" where
  "demo_cycle_view cd \<longleftrightarrow> da_deadline_at (cd_anchor cd) = Aware 63900002400000000 \<and> cd_monotonic_started cd = 0
     \<and> cd_initial_remaining cd = 2400 \<and> cd_last_remaining cd = 2400"

lemma demo_admitted:
  assumes "demo_cycle_view cd"
  shows "\<exists>cd'. require_request ftext (PFloat (Finite 10)) (PFloat (Finite 2)) (Aware 63900000000000000) 0 cd = (Inr (), cd')"
  using assms demo_instants
  by (simp add: demo_cycle_view_def require_request_def cycle_seconds_def float_of_def require_remaining_def
      remaining_seconds_def cycle_utc_def durable_remaining_def Let_def)

lemma demo_texts_not_blank: "s \<in> {''kma_ultra_srt_ncst'', ''run'', ''dag'', ''u''} \<Longrightarrow> \<not> is_blank s \<and> py_strip s = s"
  using graphic_all [of s] by (auto simp: graphic_def)

lemma demo_sha_not_blank: "\<not> is_blank demo_sha"
  by (rule not_blank_graphic) (simp_all add: demo_sha_def graphic_def list_all_iff)

lemma demo_reserved:
  "\<exists>g db. budget_hook demo_lib 7500 (Aware 63900000000000000) (\<lambda>_. True)
     (attempt_for demo_lib (fetch_of demo_landing_cycle demo_grid ''u'') 1) (Some fresh_ledger) = (Inr g, Some db)"
proof -
  let ?a = "attempt_at (attempt_for demo_lib (fetch_of demo_landing_cycle demo_grid ''u'') 1) (Aware 63900000000000000)"
  have "demo_sha \<noteq> []" "demo_slot_text \<noteq> []" using demo_sha_not_blank demo_slot_not_blank by (auto simp: is_blank.simps)
  then obtain v where v: "reservation_values demo_lib ?a = Inr v" "lr_nx v = 60" "lr_ny v = 127" "lr_attempt_ordinal v = 1"
    using demo_instants demo_sha_not_blank demo_slot_not_blank demo_texts_not_blank
    by (simp add: reservation_values_def require_reservation_def attempt_at_def attempt_for_def reservation_id_for_def
        fetch_of_def demo_landing_cycle_def demo_grid_def demo_run_def demo_lib_def
        observation_source_id_def astimezone_kst_def checked_instant_def kst_offset_def hours_def)
  then show ?thesis
    by (simp add: budget_hook_def reserve_def reserve_values_def insert_reservation_def Let_def fresh_ledger_def
        sqlite_integer_def)
qed

lemma demo_answered:
  assumes "env ''KMA_BASE_URL'' = None" "kw_file k = Some fresh_ledger" "demo_cycle_view (kw_deadline k)"
    and "\<not> circuit_is_open c"
  shows "\<exists>k'. fetch_observation demo_lib ftext env (kma_ports demo_lib ftext (answering (demo_payload demo_lib)) 7500) demo_policy
      ''20251129'' ''0500'' (fetch_of demo_landing_cycle demo_grid ''u'') c k = (Inr (200, demo_payload demo_lib), c, k')"
proof -
  let ?q = "fetch_of demo_landing_cycle demo_grid ''u''" and ?E = "answering (demo_payload demo_lib)"
  let ?P = "kma_ports demo_lib ftext ?E 7500"
  obtain url where url: "build_kma_observation_url demo_lib env (PStr ''20251129'') (PStr ''0500'') (PInt 60) (PInt 127)
      (PInt 1) (PInt 1000) [] = Inr url" using demo_url [of env demo_lib] assms(1) by blast
  obtain g db where hook: "budget_hook demo_lib 7500 (Aware 63900000000000000) (\<lambda>_. True) (attempt_for demo_lib ?q 1)
      (Some fresh_ledger) = (Inr g, Some db)" using demo_reserved by blast
  obtain cd where cd: "require_request ftext (PFloat (Finite 10)) (PFloat (Finite 2)) (Aware 63900000000000000) 0 (kw_deadline k)
      = (Inr (), cd)" using demo_admitted [OF assms(3)] by blast
  obtain k' where call: "physical_call demo_lib ?P demo_policy ?q url 1 k
      = (Inr (Answered \<lparr>hr_status = 200, hr_content = demo_payload demo_lib, hr_headers = []\<rparr>), k')"
    using hook cd assms(2)
    by (simp add: physical_call_def kma_ports_def demo_policy_def answering_def demo_surroundings_def world_check_def
        world_reserve_def Let_def)
  have "kma_observation_result_code demo_lib (demo_payload demo_lib) = Inr ''00''"
    by (simp add: kma_observation_result_code_def demo_response_parses demo_response_def observation_code_def demo_code_text)
  then have "answer_step demo_lib True (Answered \<lparr>hr_status = 200, hr_content = demo_payload demo_lib, hr_headers = []\<rparr>) c
      = (Return 200 (demo_payload demo_lib), c)"
    by (simp add: answer_step_def raise_for_result_code_def)
  moreover have "nat (hp_max_attempts demo_policy) = Suc 0" "hp_max_attempts demo_policy = 1" "fr_nx ?q = 60"
    "fr_ny ?q = 127" by (simp_all add: demo_policy_def fetch_of_def demo_grid_def)
  moreover have "require_closed c = Inr ()" using assms(4) by (simp add: require_closed_def)
  ultimately show ?thesis using url call by (simp add: fetch_observation_def)
qed

text \<open>The object service without faults, the world before the run and the landing of one grid.\<close>

lemma faultless_service:
  "r2_raw_exists faulty_service k ([], fs) = (Inr (map_of fs k \<noteq> None), [], fs)"
  "map_of fs k = None \<Longrightarrow> r2_raw_puts faulty_service (Suc n) k d ([], fs) = (Inr True, [], dict_set k d fs)"
  by (simp_all add: r2_raw_exists_def transient_retries_def numeral_2_eq_2 faulty_service_def
      scripted_def missing_object_codes_def)

lemma faultless_store:
  "raw_exists (r2_raw_store faulty_service) k ([], fs) = (Inr (map_of fs k \<noteq> None), [], fs)"
  "map_of fs k = None \<Longrightarrow> raw_put_if_absent (r2_raw_store faulty_service) k d ([], fs) = (Inr True, [], dict_set k d fs)"
  using faultless_service(2) [of fs k 2] by (simp_all add: r2_raw_store_def faultless_service(1) numeral_eq_Suc)

definition demo_collection :: "(service_fault list \<times> files) collection_world" where
  "demo_collection =
     \<lparr>cw_store = ([], []), cw_kma = demo_world, cw_circuit = \<lparr>tc_threshold = 1, tc_count = 0\<rparr>, cw_ids = 0\<rparr>"

definition demo_config :: "string \<Rightarrow> landing_config" where
  "demo_config raw =
     \<lparr>lc_expected_grid_count = 1, lc_raw_prefix = raw, lc_checkpoint_prefix = ''c'', lc_manifest_prefix = ''m''\<rparr>"

abbreviation demo_ports ::
  "(string \<Rightarrow> string option) \<Rightarrow> (service_fault list \<times> files) collection_world landing_ports" where
  "demo_ports env \<equiv> collection_ports demo_lib (\<lambda>_. Some (Finite 1)) env (answering (demo_payload demo_lib)) 7500 demo_policy
     (\<lambda>_. ''u'') (r2_raw_store faulty_service)"

lemma answering_simps [simp]:
  "ks_wall (answering p) n = Aware 63900000000000000" "ks_monotonic (answering p) n = 0"
  by (simp_all add: answering_def demo_surroundings_def)

lemma demo_opened:
  "\<exists>key d w. open_cycle demo_lib (demo_ports env) demo_landing_cycle demo_collection = (Inr (), w)
     \<and> cw_store w = ([], [(CHR ''o'' # key, d)]) \<and> demo_cycle_view (kw_deadline (cw_kma w))
     \<and> kw_file (cw_kma w) = Some fresh_ledger \<and> cw_circuit w = \<lparr>tc_threshold = 1, tc_count = 0\<rparr>"
proof -
  let ?ci = "\<lparr>ci_dag_id = ''dag'', ci_dag_run_id = ''run'', ci_source_id = observation_source_id, ci_observed_slot = demo_slot_text\<rparr>"
  have named: "s \<noteq> []" if "\<not> is_blank s" for s using that by (auto simp: is_blank.simps)
  have "\<not> is_blank ''dag''" "\<not> is_blank ''run''" "\<not> is_blank observation_source_id"
    using demo_texts_not_blank by (simp_all add: observation_source_id_def)
  note given = this demo_slot_not_blank this [THEN named] demo_slot_not_blank [THEN named]
  have "deadline_checkpoint_prefix = CHR ''o'' # tl deadline_checkpoint_prefix" by (simp add: deadline_checkpoint_prefix_def)
  then obtain key where key: "deadline_checkpoint_key ?ci = Inr (CHR ''o'' # key)"
    unfolding deadline_checkpoint_key_def by (simp add: given) (metis append_Cons)
  obtain a where a: "candidate_anchor ?ci (Aware 63900000000000000) = Inr a" "da_started_at a = Aware 63900000000000000"
    "da_deadline_at a = Aware 63900002400000000"
    using demo_instants by (simp add: candidate_anchor_def cycle_utc_def add_delta_def checked_instant_def
        collection_deadline_def minutes_def)
  obtain d where d: "serialize_deadline_anchor demo_lib a = Inr d"
    using demo_instants by (simp add: serialize_deadline_anchor_def cycle_utc_def a(2,3) astimezone_utc_def checked_instant_def)
  show ?thesis using demo_instants
    by (simp add: open_cycle_def demo_landing_cycle_def demo_run_def initialize_cycle_deadline_def key a d in_store_def
        demo_collection_def clock_tick_def demo_world_def faultless_store new_cycle_deadline_def cycle_utc_def astimezone_utc_def
        checked_instant_def demo_cycle_view_def durable_remaining_def)
qed

lemma key_parts:
  assumes "\<not> is_blank (or_run_id run)"
  shows "\<not> is_blank (or_dag_id run) \<Longrightarrow>
      \<exists>r. observation_checkpoint_key L run ''20251129'' ''0500'' grid ''c'' = Inr (CHR ''c'' # r)"
    and "\<not> is_blank (or_dag_id run) \<Longrightarrow> \<exists>r. observation_manifest_key L run ''20251129'' ''0500'' ''m'' = Inr (CHR ''m'' # r)"
    and "\<not> is_blank request \<Longrightarrow> without_slashes raw = x # y \<Longrightarrow>
      \<exists>r. observation_raw_object_key L run ''20251129'' ''0500'' grid request payload raw = Inr (x # r)"
  using assms
  by (simp_all add: observation_checkpoint_key_def observation_manifest_key_def observation_raw_object_key_def safe_part_def
      demo_observation_slot without_slashes_def)

lemma demo_collected:
  assumes "cw_store w = ([], [(CHR ''o'' # k, d)])" "demo_cycle_view (kw_deadline (cw_kma w))"
    and "kw_file (cw_kma w) = Some fresh_ledger" "cw_circuit w = \<lparr>tc_threshold = 1, tc_count = 0\<rparr>"
    and "env ''KMA_BASE_URL'' = None" "without_slashes raw = x # y" "x \<notin> set ''ocm''"
  shows "\<exists>c fs w'. land_grids demo_lib (\<lambda>_. Some (Finite 1)) (demo_ports env) (demo_config raw) demo_landing_cycle [demo_grid] w
      = (Inr [(c, False)], w')
    \<and> cw_store w' = ([], fs) \<and> (\<forall>q \<in> set fs. hd (fst q) \<in> {CHR ''o'', CHR ''c'', x})
    \<and> validate_checkpoint_identity demo_run ''20251129'' ''0500'' demo_slot_text demo_grid c = Inr ()"
proof -
  have run: "\<not> is_blank (or_run_id demo_run)" "\<not> is_blank (or_dag_id demo_run)" "\<not> is_blank ''u''"
    using demo_texts_not_blank by (simp_all add: demo_run_def)
  obtain ck where ck: "observation_checkpoint_key demo_lib demo_run ''20251129'' ''0500'' demo_grid ''c'' = Inr (CHR ''c'' # ck)"
    using key_parts(1) [OF run(1,2)] by blast
  obtain rk where rk: "observation_raw_object_key demo_lib demo_run ''20251129'' ''0500'' demo_grid ''u''
      (demo_payload demo_lib) raw = Inr (x # rk)" using key_parts(3) [OF run(1,3) assms(6)] by blast
  have "\<not> circuit_is_open (cw_circuit w)" by (simp add: assms(4) circuit_is_open_def)
  from demo_answered [of env "cw_kma w" "cw_circuit w" "\<lambda>_. Some (Finite 1)", OF assms(5,3,2) this]
  obtain k' where fetched: "fetch_observation demo_lib (\<lambda>_. Some (Finite 1)) env
      (kma_ports demo_lib (\<lambda>_. Some (Finite 1)) (answering (demo_payload demo_lib)) 7500) demo_policy
      ''20251129'' ''0500'' (fetch_of demo_landing_cycle demo_grid ''u'') (cw_circuit w) (cw_kma w)
      = (Inr (200, demo_payload demo_lib), cw_circuit w, k')" by blast
  obtain c where c: "checkpoint_of_response demo_lib (\<lambda>_. Some (Finite 1)) (demo_config raw) demo_landing_cycle demo_grid ''u'' 200
      (demo_payload demo_lib) (Aware 63900000000000000) = Inr c" "oc_raw_object_key c = x # rk"
    using demo_observation_accepted rk
    by (auto simp: checkpoint_of_response_def demo_landing_cycle_def demo_grid_def demo_config_def)
  have "validate_checkpoint_identity demo_run ''20251129'' ''0500'' demo_slot_text demo_grid c = Inr ()"
    using checkpoint_of_response_Inr [OF c(1)] by (simp add: demo_landing_cycle_def)
  moreover have "x \<noteq> CHR ''o''" "x \<noteq> CHR ''c''" using assms(7) by auto
  ultimately show ?thesis
    using ck fetched c assms(1)
    by (simp add: land_grid_def collect_grid_def demo_landing_cycle_def in_store_def demo_config_def
        faultless_store write_identical_or_absent_def clock_tick_def fetch_of_def)
qed

lemma demo_collects:
  assumes "env ''KMA_BASE_URL'' = None" "without_slashes raw = x # y" "x \<notin> set ''ocm''"
  shows "\<exists>b fs w'. collect_observations demo_lib (\<lambda>_. Some (Finite 1)) (demo_ports env) (demo_config raw) demo_run demo_request
      demo_collection = (Inr b, w') \<and> cw_store w' = ([], fs) \<and> lb_reused_grid_count b = 0"
proof -
  obtain key d w1 where w1: "open_cycle demo_lib (demo_ports env) demo_landing_cycle demo_collection = (Inr (), w1)"
    "cw_store w1 = ([], [(CHR ''o'' # key, d)])" "demo_cycle_view (kw_deadline (cw_kma w1))"
    "kw_file (cw_kma w1) = Some fresh_ledger" "cw_circuit w1 = \<lparr>tc_threshold = 1, tc_count = 0\<rparr>"
    using demo_opened [of env] by blast
  obtain c fs w2 where w2: "land_grids demo_lib (\<lambda>_. Some (Finite 1)) (demo_ports env) (demo_config raw) demo_landing_cycle
      [demo_grid] w1 = (Inr [(c, False)], w2)" "cw_store w2 = ([], fs)"
    "\<forall>q \<in> set fs. hd (fst q) \<in> {CHR ''o'', CHR ''c'', x}"
    "validate_checkpoint_identity demo_run ''20251129'' ''0500'' demo_slot_text demo_grid c = Inr ()"
    using demo_collected [of w1 key d env raw x y, OF w1(2-5) assms] by blast
  have run: "\<not> is_blank (or_run_id demo_run)" "\<not> is_blank (or_dag_id demo_run)"
    using demo_texts_not_blank by (simp_all add: demo_run_def)
  obtain mk where mk: "observation_manifest_key demo_lib demo_run ''20251129'' ''0500'' ''m'' = Inr (CHR ''m'' # mk)"
    using key_parts(2) [OF run] by blast
  have "map_of fs (CHR ''m'' # mk) = None" using w2(3) assms(3) by (force simp: map_of_eq_None_iff)
  moreover have "observation_grid_init (oc_nx c) (oc_ny c) = Inr demo_grid" "oc_category_count c = int (length required_categories)"
    using validate_identity_fields [OF w2(4)] by (simp_all add: observation_grid_init_def demo_grid_def)
  ultimately obtain w3 fs' where w3: "write_manifest demo_lib (lp_store (demo_ports env)) (demo_config raw) demo_landing_cycle [c] w2
      = (Inr (CHR ''m'' # mk), w3)" "cw_store w3 = ([], fs')"
    using w2(2,4) mk
    by (simp add: write_manifest_def build_complete_observation_manifest_def demo_observation_slot demo_observed_slot
        demo_landing_cycle_def demo_config_def Let_def write_identical_or_absent_def in_store_def faultless_store)
  moreover have "validate_grids (lc_expected_grid_count (demo_config raw)) [demo_grid] = Inr [demo_grid]"
    by (simp add: validate_grids_def demo_config_def)
  ultimately show ?thesis using w1(1) w2(1)
    by (simp add: collect_observations_def demo_request_def demo_observation_slot demo_observed_slot batch_of_def
        flip: demo_landing_cycle_def)
qed

lemma demo_config_init: "landing_config_init (PInt 1) raw ''c'' ''m'' = Inr (demo_config raw)"
  by (simp add: landing_config_init_def demo_config_def)

definition demo_env :: "string \<Rightarrow> string \<Rightarrow> string option" where
  "demo_env p name = (if name = ''ASK_SEOUL_RAW_PREFIX'' then Some p else None)"

lemma demo_prefix:
  "raw_prefix (demo_env ''raw'') = ''raw''" "raw_prefix (demo_env ''lake'') = ''lake''"
  "without_slashes ''raw'' = ''raw''" "without_slashes ''lake'' = ''lake''" "demo_env p ''KMA_BASE_URL'' = None"
  by (simp_all add: raw_prefix_def is_dev_target_def env_text_def demo_env_def without_slashes_def)

lemma demo_clock: "\<exists>u. ks_wall (answering p) n = Aware u \<and> in_range u \<and> in_range (u + collection_deadline)"
  using demo_instants by (simp add: collection_deadline_def minutes_def)

lemma collected_batch_is_complete_witness:
  "\<exists>b w'. collect_observations demo_lib (\<lambda>_. Some (Finite 1)) (demo_ports (\<lambda>_. None)) (demo_config ''raw'') demo_run demo_request
      demo_collection = (Inr b, w')
    \<and> batch_complete demo_lib (\<lambda>_. Some (Finite 1)) (demo_config ''raw'') demo_landing_cycle [demo_grid]
        (map_of (snd (cw_store w'))) b"
proof -
  obtain b w' where run: "collect_observations demo_lib (\<lambda>_. Some (Finite 1)) (demo_ports (\<lambda>_. None)) (demo_config ''raw'')
      demo_run demo_request demo_collection = (Inr b, w')"
    using demo_collects [of "\<lambda>_. None" "''raw''"] demo_prefix(3) by auto
  have history: "ledger_history (std_lib (\<lambda>_. demo_sha)) 7500 (Some fresh_ledger) [] (kw_file (cw_kma demo_collection))"
    by (simp add: demo_collection_def demo_world_def ledger_history.start)
  note complete = collected_batch_is_complete [OF default_limit demo_initialized history demo_config_init
      run [unfolded demo_lib_def], folded demo_lib_def]
  show ?thesis
    using run complete demo_observation_slot demo_observed_slot
    by (auto simp: demo_request_def demo_landing_cycle_def)
qed

lemma resumed_collection_calls_nothing_witness:
  "\<exists>b v v'. collect_observations demo_lib (\<lambda>_. Some (Finite 1)) (collection_ports demo_lib (\<lambda>_. Some (Finite 1))
        (demo_env ''raw'') (answering []) 1 demo_policy (\<lambda>_. ''v'') file_raw_store)
        (demo_config (observation_raw_prefix (demo_env ''raw''))) demo_run demo_request v = (Inr b, v')
    \<and> lb_reused_grid_count b = lb_grid_count b \<and> kw_log (cw_kma v') = kw_log (cw_kma v)"
proof -
  have "without_slashes (observation_raw_prefix (demo_env ''raw'')) = CHR ''r'' # tl (observation_raw_prefix (demo_env ''raw''))"
    by (simp only: observation_raw_prefix_slashes) (simp add: observation_raw_prefix_def demo_prefix)
  from demo_collects [of "demo_env ''raw''", OF demo_prefix(5) this]
  obtain b fs w' where run: "collect_observations demo_lib (\<lambda>_. Some (Finite 1)) (demo_ports (demo_env ''raw''))
      (demo_config (observation_raw_prefix (demo_env ''raw''))) demo_run demo_request demo_collection = (Inr b, w')"
    "cw_store w' = ([], fs)" by auto
  obtain v :: "files collection_world" where v: "cw_store v = fs" by (metis collection_world.select_convs(1))
  have "\<exists>v'. collect_observations demo_lib (\<lambda>_. Some (Finite 1)) (collection_ports demo_lib (\<lambda>_. Some (Finite 1))
        (demo_env ''raw'') (answering []) 1 demo_policy (\<lambda>_. ''v'') file_raw_store)
        (demo_config (observation_raw_prefix (demo_env ''raw''))) demo_run demo_request v
      = (Inr (b\<lparr>lb_api_request_count := 0, lb_reused_grid_count := lb_grid_count b\<rparr>), v')
    \<and> kw_log (cw_kma v') = kw_log (cw_kma v)"
    using resumed_collection_calls_nothing [where v = v and E' = "answering []" and limit' = 1 and pol' = demo_policy and ids' = "\<lambda>_. ''v''",
        OF run(1) [unfolded demo_lib_def], folded demo_lib_def, OF _ _ _ demo_clock] run(2) v
    by (auto simp: demo_config_def demo_prefix)
  moreover have "lb_reused_grid_count (b\<lparr>lb_api_request_count := 0, lb_reused_grid_count := lb_grid_count b\<rparr>)
      = lb_grid_count (b\<lparr>lb_api_request_count := 0, lb_reused_grid_count := lb_grid_count b\<rparr>)" by simp
  ultimately show ?thesis by metis
qed

lemma configured_prefix_is_never_resumed_witness:
  "\<exists>v. fst (collect_observations demo_lib (\<lambda>_. Some (Finite 1)) (collection_ports demo_lib (\<lambda>_. Some (Finite 1))
        (demo_env ''lake'') (answering []) 1 demo_policy (\<lambda>_. ''v'') file_raw_store)
        (demo_config (observation_raw_prefix (demo_env ''lake''))) demo_run demo_request v)
      = Inl (WeatherRawIntegrityError ''KMA observation checkpoint raw object key does not match hash context'')"
proof -
  have "without_slashes (observation_raw_prefix (demo_env ''lake'')) = CHR ''l'' # tl (observation_raw_prefix (demo_env ''lake''))"
    by (simp only: observation_raw_prefix_slashes) (simp add: observation_raw_prefix_def demo_prefix)
  from demo_collects [of "demo_env ''lake''", OF demo_prefix(5) this]
  obtain b fs w' where run: "collect_observations demo_lib (\<lambda>_. Some (Finite 1)) (demo_ports (demo_env ''lake''))
      (demo_config (observation_raw_prefix (demo_env ''lake''))) demo_run demo_request demo_collection = (Inr b, w')"
    "cw_store w' = ([], fs)" "lb_reused_grid_count b = 0" by auto
  obtain v :: "files collection_world" where v: "cw_store v = fs" by (metis collection_world.select_convs(1))
  show ?thesis
    using configured_prefix_is_never_resumed [where v = v and E' = "answering []" and limit' = 1 and pol' = demo_policy and ids' = "\<lambda>_. ''v''",
        OF run(1) [unfolded demo_lib_def], folded demo_lib_def, OF _ demo_config_init _ run(3) demo_clock] run(2) v
    by (auto simp: demo_prefix intro!: exI)
qed

end
