(* ===== verification/Deploy_Models.thy ===== *)
theory Deploy_Models
  imports Json_Storage
begin

text \<open>
  The data of a deployment (\<open>deployment/models.py\<close>, \<open>deployment/canonical_json.py\<close>, the record and the
  fingerprint of \<open>deployment/target.py\<close>) and the encoding of bytes as text that its records use
  (\<open>base64\<close>).  Paths are their POSIX texts.
\<close>

section \<open>Base64\<close>

definition b64_char :: "nat \<Rightarrow> char" where
  "b64_char n = char_of
     (if n < 26 then n + 65 else if n < 52 then n + 71 else if n < 62 then n - 4 else if n = 62 then 43 else 47)"

definition b64_value :: "char \<Rightarrow> nat option" where
  "b64_value c =
     (let n = of_char c :: nat in
      if 65 \<le> n \<and> n \<le> 90 then Some (n - 65)
      else if 97 \<le> n \<and> n \<le> 122 then Some (n - 71)
      else if 48 \<le> n \<and> n \<le> 57 then Some (n + 4)
      else if n = 43 then Some 62
      else if n = 47 then Some 63
      else None)"

fun b64_encode :: "string \<Rightarrow> string" where
  "b64_encode [] = []"
| "b64_encode [a] =
     (let x = of_char a :: nat in [b64_char (x div 4), b64_char (x mod 4 * 16), CHR ''='', CHR ''=''])"
| "b64_encode [a, b] =
     (let x = of_char a :: nat; y = of_char b :: nat
      in [b64_char (x div 4), b64_char (x mod 4 * 16 + y div 16), b64_char (y mod 16 * 4), CHR ''=''])"
| "b64_encode (a # b # c # s) =
     (let x = of_char a :: nat; y = of_char b :: nat; z = of_char c :: nat
      in [b64_char (x div 4), b64_char (x mod 4 * 16 + y div 16), b64_char (y mod 16 * 4 + z div 64), b64_char (z mod 64)]
         @ b64_encode s)"

text \<open>\<open>base64.b64decode(text, validate=True)\<close>: the unused bits of the last digit are ignored.\<close>

fun b64_decode :: "string \<Rightarrow> string option" where
  "b64_decode [] = Some []"
| "b64_decode (p # q # r # t # s) =
     (case (b64_value p, b64_value q) of
        (Some i, Some j) \<Rightarrow>
          (let a = char_of (4 * i + j div 16) in
           if r = CHR ''='' then (if t = CHR ''='' \<and> s = [] then Some [a] else None)
           else (case b64_value r of
                   None \<Rightarrow> None
                 | Some k \<Rightarrow>
                     (let b = char_of (j mod 16 * 16 + k div 4) in
                      if t = CHR ''='' then (if s = [] then Some [a, b] else None)
                      else (case b64_value t of
                              None \<Rightarrow> None
                            | Some l \<Rightarrow> map_option (\<lambda>u. a # b # char_of (k mod 4 * 64 + l) # u) (b64_decode s)))))
      | _ \<Rightarrow> None)"
| "b64_decode _ = None"

lemma b64_value_char [simp]: "n < 64 \<Longrightarrow> b64_value (b64_char n) = Some n"
  by (auto simp: b64_value_def b64_char_def of_char_of Let_def)

lemma b64_char_pad [simp]:
  assumes "n < 64" shows "b64_char n \<noteq> CHR ''=''"
proof
  assume "b64_char n = CHR ''=''"
  then have "b64_value CHR ''='' = Some n" using b64_value_char [OF assms] by metis
  then show False by (simp add: b64_value_def)
qed

lemma b64_split:
  fixes x y z :: nat
  assumes "x < 256" "y < 256" "z < 256"
  shows "x div 4 < 64" "x mod 4 * 16 < 64" "x mod 4 * 16 + y div 16 < 64" "y mod 16 * 4 < 64" "y mod 16 * 4 + z div 64 < 64"
    "(x mod 4 * 16 + y div 16) div 16 = x mod 4" "(x mod 4 * 16 + y div 16) mod 16 = y div 16"
    "(y mod 16 * 4 + z div 64) div 4 = y mod 16" "(y mod 16 * 4 + z div 64) mod 4 = z div 64" "y div 16 mod 16 = y div 16"
proof -
  have "x mod 4 < 4" "y div 16 < 16" "y mod 16 < 16" "z div 64 < 4" "x div 4 < 64" using assms by auto
  then show "x div 4 < 64" "x mod 4 * 16 < 64" "x mod 4 * 16 + y div 16 < 64" "y mod 16 * 4 < 64"
    "y mod 16 * 4 + z div 64 < 64"
    "(x mod 4 * 16 + y div 16) div 16 = x mod 4" "(x mod 4 * 16 + y div 16) mod 16 = y div 16"
    "(y mod 16 * 4 + z div 64) div 4 = y mod 16" "(y mod 16 * 4 + z div 64) mod 4 = z div 64" "y div 16 mod 16 = y div 16"
    by simp_all
qed

lemma b64_bytes:
  fixes a b c :: char
  shows "char_of (4 * ((of_char a :: nat) div 4) + of_char a mod 4) = a"
    "char_of ((of_char b :: nat) div 16 * 16 + of_char b mod 16) = b"
    "char_of ((of_char c :: nat) div 64 * 64 + of_char c mod 64) = c"
  by (simp_all only: mult_div_mod_eq div_mult_mod_eq char_of_char)

lemma b64_decode_encode: "b64_decode (b64_encode s) = Some s"
proof (induction s rule: b64_encode.induct)
  case (2 a)
  note split = b64_split [of "of_char a" 0 0]
  show ?case using split b64_bytes(1) [of a] by (simp add: Let_def)
next
  case (3 a b)
  note split = b64_split [of "of_char a" "of_char b" 0]
  show ?case using split b64_bytes(1) [of a] b64_bytes(2) [of b] by (simp add: Let_def)
next
  case (4 a b c s)
  note split = b64_split [of "of_char a" "of_char b" "of_char c"]
  show ?case using 4 split b64_bytes(1) [of a] b64_bytes(2) [of b] b64_bytes(3) [of c] by (simp add: Let_def)
qed simp

section \<open>Canonical bytes\<close>

text \<open>\<open>canonical_bytes\<close>: infinities and NaN raise a \<open>ValueError\<close>.\<close>

definition canonical_bytes :: "pylib \<Rightarrow> string list \<Rightarrow> pyobj pydict \<Rightarrow> string result" where
  "canonical_bytes L excluded d =
     (case canonical_json L (PDict (filter (\<lambda>kv. fst kv \<notin> set excluded) d)) of
        None \<Rightarrow> Inl (ValueError ''Out of range float values are not JSON compliant'')
      | Some s \<Rightarrow> Inr s)"

section \<open>Records\<close>

datatype deployment_outcome =
  OutcomeStarted | OutcomeSuccess | OutcomeFailed | OutcomeRolledBack | OutcomeRollbackFailed

fun outcome_value :: "deployment_outcome \<Rightarrow> string" where
  "outcome_value OutcomeStarted = ''started''"
| "outcome_value OutcomeSuccess = ''success''"
| "outcome_value OutcomeFailed = ''failed''"
| "outcome_value OutcomeRolledBack = ''rolled_back''"
| "outcome_value OutcomeRollbackFailed = ''rollback_failed''"

definition outcome_of_value :: "string \<Rightarrow> deployment_outcome option" where
  "outcome_of_value s =
     find (\<lambda>out. outcome_value out = s)
       [OutcomeStarted, OutcomeSuccess, OutcomeFailed, OutcomeRolledBack, OutcomeRollbackFailed]"

lemma outcome_of_value [simp]: "outcome_of_value (outcome_value out) = Some out"
  by (cases out) (simp_all add: outcome_of_value_def)

datatype terminal_category = PauseStateUnverified

fun terminal_value :: "terminal_category \<Rightarrow> string" where
  "terminal_value PauseStateUnverified = ''pause_state_unverified''"

record writer_run_counts =
  wc_running :: int
  wc_queued :: int

text \<open>\<open>WriterRunCounts.__post_init__\<close>, on integers.\<close>

definition writer_run_counts_init :: "int \<Rightarrow> int \<Rightarrow> writer_run_counts result" where
  "writer_run_counts_init running queued =
     (if running < 0 \<or> queued < 0 then Inl (ValueError ''writer run counts must be non-negative integers'')
      else Inr \<lparr>wc_running = running, wc_queued = queued\<rparr>)"

record deployment_record =
  dr_schema_version :: string
  dr_deployment_id :: string
  dr_repository :: string
  dr_candidate_sha :: string
  dr_target_fingerprint :: string
  dr_started_at :: string
  dr_completed_at :: "string option"
  dr_outcome :: deployment_outcome
  dr_health :: "string option"
  dr_overlay_content_b64 :: "string option"
  dr_overlay_sha256 :: "string option"
  dr_terminal_category :: "terminal_category option"

record baseline_record =
  br_schema_version :: string
  br_baseline_id :: string
  br_target_fingerprint :: string
  br_captured_at :: string
  br_rehearsal :: string
  br_overlay_content_b64 :: string
  br_overlay_sha256 :: string

record deployment_result =
  de_deployment_id :: string
  de_outcome :: deployment_outcome
  de_health :: "string option"
  de_idempotent :: bool

text \<open>\<open>_SHA40\<close> and \<open>_SHA64\<close>, and the pattern of a UTC timestamp.\<close>

definition lower_hex :: "nat \<Rightarrow> string \<Rightarrow> bool" where
  "lower_hex n s \<longleftrightarrow> length s = n \<and> list_all (char_in ''0123456789abcdef'') s"

definition utc_timestamp :: "string \<Rightarrow> bool" where
  "utc_timestamp s \<longleftrightarrow>
     Option.bind (re_digits 4 s) (\<lambda>s. Option.bind (re_char CHR ''-'' s) (\<lambda>s. Option.bind (re_digits 2 s) (\<lambda>s.
     Option.bind (re_char CHR ''-'' s) (\<lambda>s. Option.bind (re_digits 2 s) (\<lambda>s. Option.bind (re_char CHR ''T'' s) (\<lambda>s.
     Option.bind (re_digits 2 s) (\<lambda>s. Option.bind (re_char CHR '':'' s) (\<lambda>s. Option.bind (re_digits 2 s) (\<lambda>s.
     Option.bind (re_char CHR '':'' s) (\<lambda>s. Option.bind (re_digits 2 s) (\<lambda>s. re_char CHR ''Z'' s)))))))))))
     = Some []"

definition require_sha :: "nat \<Rightarrow> string \<Rightarrow> string \<Rightarrow> unit result" where
  "require_sha n v field = require (lower_hex n v) (ValueError (field @ '' must be lowercase hex''))"

definition deployment_id :: "pylib \<Rightarrow> string \<Rightarrow> string \<Rightarrow> string \<Rightarrow> string result" where
  "deployment_id L repository candidate_sha fingerprint =
     bind_result (require_sha 40 candidate_sha ''candidate_sha'') (\<lambda>_.
     bind_result (require_sha 64 fingerprint ''target_fingerprint'') (\<lambda>_.
     if repository = [] then Inl (ValueError ''repository must be non-empty'')
     else bind_result
            (canonical_bytes L []
               [(''repository'', PStr repository), (''candidate_sha'', PStr candidate_sha),
                (''target_fingerprint'', PStr fingerprint)]) (\<lambda>bytes.
          Inr (sha256_hex L bytes))))"

section \<open>The target\<close>

text \<open>The fields of \<open>DeployTarget\<close> that the deployment reads.\<close>

record deploy_target =
  dt_rollback_bytes :: string
  dt_airflow_code_services :: "string list"
  dt_forbidden_data_services :: "string list"
  dt_dags_host_path :: string
  dt_dbt_host_path :: string
  dt_runtime_root :: string
  dt_dag_allowlist :: "string list"
  dt_writer_dag_allowlist :: "string list"
  dt_drain_timeout_seconds :: int
  dt_poll_interval_seconds :: int
  dt_generated_overlay_file :: string

definition fingerprint_excluded_keys :: "string list" where
  "fingerprint_excluded_keys = [''dag_allowlist'', ''writer_dag_allowlist'']"

definition rollback_relevant_document :: "pyobj pydict \<Rightarrow> pyobj pydict" where
  "rollback_relevant_document raw =
     map (\<lambda>(k, v). (k,
       case v of
         PDict d \<Rightarrow> if k = ''airflow'' then PDict (filter (\<lambda>kv. fst kv \<notin> set fingerprint_excluded_keys) d) else v
       | _ \<Rightarrow> v)) raw"

definition target_fingerprint :: "pylib \<Rightarrow> deploy_target \<Rightarrow> string" where
  "target_fingerprint L t = sha256_hex L (dt_rollback_bytes t)"

text \<open>The bytes \<open>load_deploy_target\<close> fixes; a change of the lists of DAGs does not change them.\<close>

definition canonical_rollback_bytes :: "pylib \<Rightarrow> pyobj pydict \<Rightarrow> string result" where
  "canonical_rollback_bytes L raw = canonical_bytes L [] (rollback_relevant_document raw)"

end
