(* ===== verification/Deploy_Ledger.thy ===== *)
theory Deploy_Ledger
  imports Deploy_Models Py_Text
begin

text \<open>
  The ledger of deployments (\<open>deployment/ledger.py\<close>): one file per deployment, replaced atomically,
  with a checksum over its canonical text; what cannot be verified is not read.  The directory maps
  file names to texts.  The texts of a record are ASCII.
\<close>

section \<open>Validation of records\<close>

definition deployment_schema_v1 :: string where "deployment_schema_v1 = ''weather-local-deployment-record/v1''"
definition deployment_schema_v2 :: string where "deployment_schema_v2 = ''weather-local-deployment-record/v2''"
definition baseline_schema_version :: string where "baseline_schema_version = ''weather-local-baseline-record/v1''"

definition require_timestamp :: "string \<Rightarrow> string \<Rightarrow> unit result" where
  "require_timestamp v field = require (utc_timestamp v) (ValueError (field @ '' must be canonical UTC''))"

definition require_overlay :: "pylib \<Rightarrow> string option \<Rightarrow> string option \<Rightarrow> unit result" where
  "require_overlay L content_b64 sha =
     (case content_b64 of
        None \<Rightarrow> Inl (ValueError ''overlay_content_b64 must be base64'')
      | Some text64 \<Rightarrow>
          (case sha of
             None \<Rightarrow> Inl (ValueError ''overlay_sha256 must be lowercase hex'')
           | Some h \<Rightarrow>
               bind_result (require_sha 64 h ''overlay_sha256'') (\<lambda>_.
               case b64_decode text64 of
                 None \<Rightarrow> Inl (ValueError ''overlay_content_b64 must be base64'')
               | Some content \<Rightarrow> require (sha256_hex L content = h) (ValueError ''overlay checksum mismatch''))))"

definition validate_started :: "deployment_record \<Rightarrow> unit result" where
  "validate_started r =
     require (dr_completed_at r = None \<and> dr_health r = None \<and> dr_overlay_content_b64 r = None
        \<and> dr_overlay_sha256 r = None \<and> dr_terminal_category r = None)
       (ValueError ''started deployment must not have completion fields'')"

definition validate_success :: "pylib \<Rightarrow> deployment_record \<Rightarrow> unit result" where
  "validate_success L r =
     (if dr_health r \<noteq> Some ''passed'' then Inl (ValueError ''successful deployment requires passed health'')
      else bind_result (require_overlay L (dr_overlay_content_b64 r) (dr_overlay_sha256 r)) (\<lambda>_.
           require (dr_terminal_category r = None) (ValueError ''successful deployment must not have terminal category'')))"

definition validate_failure :: "pylib \<Rightarrow> deployment_record \<Rightarrow> unit result" where
  "validate_failure L r =
     (if dr_health r \<notin> {None, Some ''failed''} then Inl (ValueError ''non-success deployment must not have passed health'')
      else if (dr_overlay_content_b64 r = None) \<noteq> (dr_overlay_sha256 r = None)
      then Inl (ValueError ''overlay fields must be paired'')
      else bind_result
             (if dr_overlay_content_b64 r \<noteq> None then require_overlay L (dr_overlay_content_b64 r) (dr_overlay_sha256 r)
              else Inr ()) (\<lambda>_.
           require (dr_terminal_category r = None \<or> dr_outcome r = OutcomeRollbackFailed)
             (ValueError ''terminal category requires rollback failure'')))"

definition validate_deployment_record :: "pylib \<Rightarrow> deployment_record \<Rightarrow> unit result" where
  "validate_deployment_record L r =
     (if dr_schema_version r \<notin> {deployment_schema_v1, deployment_schema_v2}
      then Inl (ValueError ''unsupported deployment record schema'')
      else if dr_schema_version r = deployment_schema_v1 \<and> dr_terminal_category r \<noteq> None
      then Inl (ValueError ''v1 deployment must not have terminal category'')
      else if dr_repository r = [] then Inl (ValueError ''repository must be a non-empty string'')
      else bind_result (require_sha 40 (dr_candidate_sha r) ''candidate_sha'') (\<lambda>_.
           bind_result (require_sha 64 (dr_target_fingerprint r) ''target_fingerprint'') (\<lambda>_.
           bind_result (deployment_id L (dr_repository r) (dr_candidate_sha r) (dr_target_fingerprint r)) (\<lambda>i.
           if dr_deployment_id r \<noteq> i then Inl (ValueError ''deployment_id mismatch'')
           else bind_result (require_timestamp (dr_started_at r) ''started_at'') (\<lambda>_.
                if dr_outcome r = OutcomeStarted then validate_started r
                else (case dr_completed_at r of
                        None \<Rightarrow> Inl (ValueError ''completed_at must be canonical UTC'')
                      | Some c \<Rightarrow>
                          bind_result (require_timestamp c ''completed_at'') (\<lambda>_.
                          if dr_outcome r = OutcomeSuccess then validate_success L r else validate_failure L r)))))))"

definition validate_baseline_record :: "pylib \<Rightarrow> baseline_record \<Rightarrow> unit result" where
  "validate_baseline_record L r =
     (if br_schema_version r \<noteq> baseline_schema_version then Inl (ValueError ''unsupported baseline record schema'')
      else if br_baseline_id r \<noteq> ''baseline://existing-local'' then Inl (ValueError ''unsupported baseline id'')
      else bind_result (require_sha 64 (br_target_fingerprint r) ''target_fingerprint'') (\<lambda>_.
           bind_result (require_timestamp (br_captured_at r) ''captured_at'') (\<lambda>_.
           if br_rehearsal r \<noteq> ''passed'' then Inl (ValueError ''baseline rehearsal must be passed'')
           else require_overlay L (Some (br_overlay_content_b64 r)) (Some (br_overlay_sha256 r)))))"

section \<open>Documents\<close>

definition record_payload :: "deployment_record \<Rightarrow> pyobj pydict" where
  "record_payload r =
     [(''schema_version'', PStr (dr_schema_version r)), (''deployment_id'', PStr (dr_deployment_id r)),
      (''repository'', PStr (dr_repository r)), (''candidate_sha'', PStr (dr_candidate_sha r)),
      (''target_fingerprint'', PStr (dr_target_fingerprint r)), (''started_at'', PStr (dr_started_at r)),
      (''completed_at'', opt_obj (dr_completed_at r)), (''outcome'', PStr (outcome_value (dr_outcome r))),
      (''health'', opt_obj (dr_health r)), (''overlay_content_b64'', opt_obj (dr_overlay_content_b64 r)),
      (''overlay_sha256'', opt_obj (dr_overlay_sha256 r))]
     @ (if dr_schema_version r = deployment_schema_v1 then []
        else [(''terminal_category'', opt_obj (map_option terminal_value (dr_terminal_category r)))])"

definition baseline_payload :: "baseline_record \<Rightarrow> pyobj pydict" where
  "baseline_payload r =
     [(''schema_version'', PStr (br_schema_version r)), (''baseline_id'', PStr (br_baseline_id r)),
      (''target_fingerprint'', PStr (br_target_fingerprint r)), (''captured_at'', PStr (br_captured_at r)),
      (''rehearsal'', PStr (br_rehearsal r)), (''overlay_content_b64'', PStr (br_overlay_content_b64 r)),
      (''overlay_sha256'', PStr (br_overlay_sha256 r))]"

definition deployment_v1_keys :: "string list" where
  "deployment_v1_keys =
     [''schema_version'', ''deployment_id'', ''repository'', ''candidate_sha'', ''target_fingerprint'', ''started_at'',
      ''completed_at'', ''outcome'', ''health'', ''overlay_content_b64'', ''overlay_sha256'', ''record_sha256'']"

definition deployment_v2_keys :: "string list" where
  "deployment_v2_keys = deployment_v1_keys @ [''terminal_category'']"

definition baseline_keys :: "string list" where
  "baseline_keys =
     [''schema_version'', ''baseline_id'', ''target_fingerprint'', ''captured_at'', ''rehearsal'',
      ''overlay_content_b64'', ''overlay_sha256'', ''record_sha256'']"

fun text_value :: "pyobj \<Rightarrow> string option" where
  "text_value (PStr s) = Some s"
| "text_value _ = None"

lemma text_value_opt_obj [simp]: "text_value (opt_obj x) = x"
  by (cases x) simp_all

text \<open>The category of a payload, or that it is not one.\<close>

definition category_of_payload :: "pyobj \<Rightarrow> terminal_category option option" where
  "category_of_payload v =
     (case v of
        PNone \<Rightarrow> Some None
      | PStr s \<Rightarrow> if s = terminal_value PauseStateUnverified then Some (Some PauseStateUnverified) else None
      | _ \<Rightarrow> None)"

text \<open>The record before its validation: a required field that is not text is refused there.\<close>

definition record_of_payload :: "pyobj pydict \<Rightarrow> deployment_record option" where
  "record_of_payload d =
     (let txt = (\<lambda>k. text_value (dict_get k d)) in
      case (txt ''schema_version'', txt ''deployment_id'', txt ''repository'', txt ''candidate_sha'',
            txt ''target_fingerprint'', txt ''started_at'', Option.bind (txt ''outcome'') outcome_of_value,
            category_of_payload (dict_get ''terminal_category'' d)) of
        (Some schema, Some i, Some repo, Some sha, Some fp, Some started, Some out, Some category) \<Rightarrow>
          Some \<lparr>dr_schema_version = schema, dr_deployment_id = i, dr_repository = repo, dr_candidate_sha = sha,
                dr_target_fingerprint = fp, dr_started_at = started, dr_completed_at = txt ''completed_at'',
                dr_outcome = out, dr_health = txt ''health'', dr_overlay_content_b64 = txt ''overlay_content_b64'',
                dr_overlay_sha256 = txt ''overlay_sha256'', dr_terminal_category = category\<rparr>
      | _ \<Rightarrow> None)"

definition has_exactly :: "string list \<Rightarrow> pyobj pydict \<Rightarrow> bool" where
  "has_exactly ks d \<longleftrightarrow> set (map fst d) = set ks"

text \<open>A schema version that cannot be hashed raises a \<open>TypeError\<close>.\<close>

definition deployment_from_payload :: "pylib \<Rightarrow> pyobj pydict \<Rightarrow> deployment_record option result" where
  "deployment_from_payload L d =
     (let schema = dict_get ''schema_version'' d;
          expected = (if schema = PStr deployment_schema_v1 then Some deployment_v1_keys
                      else if schema = PStr deployment_schema_v2 then Some deployment_v2_keys else None)
      in if unhashable schema then Inl (TypeError ''unhashable type'')
         else case expected of
             None \<Rightarrow> Inr None
           | Some ks \<Rightarrow>
               if \<not> has_exactly ks d then Inr None
               else (case record_of_payload d of
                       None \<Rightarrow> Inr None
                     | Some r \<Rightarrow> (case validate_deployment_record L r of Inl _ \<Rightarrow> Inr None | Inr _ \<Rightarrow> Inr (Some r))))"

definition baseline_from_payload :: "pylib \<Rightarrow> pyobj pydict \<Rightarrow> baseline_record option" where
  "baseline_from_payload L d =
     (let txt = (\<lambda>k. text_value (dict_get k d)) in
      if \<not> has_exactly baseline_keys d then None
      else case (txt ''schema_version'', txt ''baseline_id'', txt ''target_fingerprint'', txt ''captured_at'',
                 txt ''rehearsal'', txt ''overlay_content_b64'', txt ''overlay_sha256'') of
          (Some schema, Some i, Some fp, Some captured, Some rehearsal, Some content, Some sha) \<Rightarrow>
            (let r = \<lparr>br_schema_version = schema, br_baseline_id = i, br_target_fingerprint = fp,
                      br_captured_at = captured, br_rehearsal = rehearsal, br_overlay_content_b64 = content,
                      br_overlay_sha256 = sha\<rparr>
             in case validate_baseline_record L r of Inl _ \<Rightarrow> None | Inr _ \<Rightarrow> Some r)
        | _ \<Rightarrow> None)"

section \<open>Files\<close>

text \<open>
  \<open>_write_atomic\<close>: the text is written to a temporary file, which replaces the file; a write is torn
  when it fails before that, with perhaps a part of the text in the temporary file.
\<close>

datatype write_fate = WriteDone | WriteTorn "string option"

definition record_text :: "pylib \<Rightarrow> pyobj pydict \<Rightarrow> string result" where
  "record_text L payload =
     bind_result (canonical_bytes L [] payload) (\<lambda>bytes.
     Inr (render L (sort_keys (PDict (dict_set ''record_sha256'' (PStr (sha256_hex L bytes)) payload))) @ [CHR 0x0A]))"

definition temporary_name :: "string \<Rightarrow> string" where
  "temporary_name name = ''.'' @ name @ ''.tmp''"

definition write_atomic :: "pylib \<Rightarrow> write_fate \<Rightarrow> string \<Rightarrow> pyobj pydict \<Rightarrow> files \<Rightarrow> unit result \<times> files" where
  "write_atomic L fate name payload fs =
     (case record_text L payload of
        Inl e \<Rightarrow> (Inl e, fs)
      | Inr text \<Rightarrow>
          (case fate of
             WriteDone \<Rightarrow> (Inr (), dict_set name text (file_del (temporary_name name) fs))
           | WriteTorn None \<Rightarrow> (Inl (OSError ''ledger write''), fs)
           | WriteTorn (Some part) \<Rightarrow> (Inl (OSError ''ledger write''), dict_set (temporary_name name) part fs)))"

text \<open>
  \<open>_read_record\<close>: \<open>None\<close> for a text that cannot be verified; a number outside of JSON raises a
  \<open>ValueError\<close>, which is not caught.
\<close>

definition read_record :: "pylib \<Rightarrow> string \<Rightarrow> pyobj pydict option result" where
  "read_record L text =
     (case json_loads L text of
        Some (PDict d) \<Rightarrow>
          (case dict_get ''record_sha256'' d of
             PStr checksum \<Rightarrow>
               bind_result (canonical_bytes L [''record_sha256''] d) (\<lambda>bytes.
               Inr (if sha256_hex L bytes = checksum then Some d else None))
           | _ \<Rightarrow> Inr None)
      | _ \<Rightarrow> Inr None)"

definition ledger_path :: "pylib \<Rightarrow> string \<Rightarrow> string \<Rightarrow> string" where
  "ledger_path L prefix digest = prefix @ ''-'' @ sha256_hex L digest @ ''.json''"

definition ledger_write :: "pylib \<Rightarrow> write_fate \<Rightarrow> deployment_record \<Rightarrow> files \<Rightarrow> unit result \<times> files" where
  "ledger_write L fate r fs =
     (case validate_deployment_record L r of
        Inl e \<Rightarrow> (Inl e, fs)
      | Inr _ \<Rightarrow> write_atomic L fate (ledger_path L ''deployment'' (dr_deployment_id r)) (record_payload r) fs)"

definition record_baseline :: "pylib \<Rightarrow> write_fate \<Rightarrow> baseline_record \<Rightarrow> files \<Rightarrow> unit result \<times> files" where
  "record_baseline L fate r fs =
     (case validate_baseline_record L r of
        Inl e \<Rightarrow> (Inl e, fs)
      | Inr _ \<Rightarrow> write_atomic L fate (ledger_path L ''baseline'' (br_baseline_id r @ ''|'' @ br_captured_at r))
                  (baseline_payload r) fs)"

definition glob_names :: "string \<Rightarrow> files \<Rightarrow> string list" where
  "glob_names prefix fs = filter (\<lambda>n. is_prefix (prefix @ ''-'') n \<and> is_suffix ''.json'' n) (sort (map fst fs))"

definition read_deployment :: "pylib \<Rightarrow> files \<Rightarrow> string \<Rightarrow> deployment_record option result" where
  "read_deployment L fs name =
     (case map_of fs name of
        None \<Rightarrow> Inr None
      | Some text \<Rightarrow>
          bind_result (read_record L text) (\<lambda>d. case d of None \<Rightarrow> Inr None | Some d \<Rightarrow> deployment_from_payload L d))"

definition deployment_records :: "pylib \<Rightarrow> files \<Rightarrow> deployment_record list result" where
  "deployment_records L fs =
     bind_result (traverse (read_deployment L fs) (glob_names ''deployment'' fs)) (\<lambda>rs. Inr (List.map_filter id rs))"

definition eligible_success :: "string \<Rightarrow> deployment_record \<Rightarrow> bool" where
  "eligible_success fp r \<longleftrightarrow>
     dr_target_fingerprint r = fp \<and> dr_outcome r = OutcomeSuccess \<and> dr_health r = Some ''passed''
     \<and> dr_completed_at r \<noteq> None \<and> dr_overlay_content_b64 r \<noteq> None \<and> dr_overlay_sha256 r \<noteq> None"

text \<open>\<open>max(records, key=key)\<close>: the first of the greatest.\<close>

fun first_max :: "('a \<Rightarrow> 'k :: linorder) \<Rightarrow> 'a list \<Rightarrow> 'a option" where
  "first_max key [] = None"
| "first_max key (x # xs) =
     (case first_max key xs of None \<Rightarrow> Some x | Some y \<Rightarrow> if key x < key y then Some y else Some x)"

definition completion_order :: "deployment_record \<Rightarrow> string \<times> string" where
  "completion_order r = (the (dr_completed_at r), dr_deployment_id r)"

definition previous_success :: "pylib \<Rightarrow> string \<Rightarrow> files \<Rightarrow> deployment_record option result" where
  "previous_success L fp fs =
     bind_result (deployment_records L fs) (\<lambda>rs. Inr (first_max completion_order (filter (eligible_success fp) rs)))"

definition already_successful :: "pylib \<Rightarrow> string \<Rightarrow> files \<Rightarrow> bool result" where
  "already_successful L i fs =
     bind_result (deployment_records L fs) (\<lambda>rs.
     Inr (list_ex (\<lambda>r. dr_deployment_id r = i \<and> eligible_success (dr_target_fingerprint r) r) rs))"

definition baseline_records :: "pylib \<Rightarrow> files \<Rightarrow> baseline_record list result" where
  "baseline_records L fs =
     bind_result
       (traverse (\<lambda>n. case map_of fs n of
            None \<Rightarrow> Inr None
          | Some text \<Rightarrow>
              bind_result (read_record L text) (\<lambda>d. Inr (Option.bind d (baseline_from_payload L))))
          (glob_names ''baseline'' fs)) (\<lambda>rs. Inr (List.map_filter id rs))"

definition ledger_baseline :: "pylib \<Rightarrow> string \<Rightarrow> files \<Rightarrow> baseline_record option result" where
  "ledger_baseline L fp fs =
     bind_result (baseline_records L fs) (\<lambda>rs.
     Inr (first_max (\<lambda>r. (br_captured_at r, br_baseline_id r))
       (filter (\<lambda>r. br_baseline_id r = ''baseline://existing-local'' \<and> br_rehearsal r = ''passed''
          \<and> br_target_fingerprint r = fp \<and> br_overlay_content_b64 r \<noteq> [] \<and> br_overlay_sha256 r \<noteq> []) rs)))"

definition read_summary :: "pylib \<Rightarrow> files \<Rightarrow> pyobj result" where
  "read_summary L fs =
     bind_result (deployment_records L fs) (\<lambda>rs.
     bind_result (baseline_records L fs) (\<lambda>bs.
     Inr (PDict
       [(''baseline'', opt_obj (map_option br_baseline_id
           (first_max (\<lambda>r. (br_captured_at r, br_target_fingerprint r))
              (filter (\<lambda>r. br_baseline_id r = ''baseline://existing-local'') bs)))),
        (''previous_success'', opt_obj (map_option dr_deployment_id
           (first_max completion_order (filter (\<lambda>r. eligible_success (dr_target_fingerprint r) r) rs))))])))"

section \<open>A record is read back from its text\<close>

locale json_line = json_codec +
  assumes json_loads_line: "plain x \<Longrightarrow> json_loads L (render L x @ [CHR 0x0A]) = Some x"

interpretation std_line: json_line "std_lib h" for h
proof
  fix x :: pyobj
  assume x: "plain x"
  have "parse_value (length (render (std_lib h) x @ [CHR 0x0A]) + 1) (render (std_lib h) x @ [CHR 0x0A]) = Some (x, [CHR 0x0A])"
    using parse_dump(1) [of compact_layout x _ "[CHR 0x0A]" "std_lib h" 0] size_le_dump(1) [OF x, of "std_lib h" compact_layout 0] x
    by (simp add: dump_compact is_digit_def del: parse_value.simps)
  then show "json_loads (std_lib h) (render (std_lib h) x @ [CHR 0x0A]) = Some x"
    by (simp add: parse_json_def skip_ws_def json_space_def)
qed

definition flat :: "pyobj pydict \<Rightarrow> bool" where
  "flat d \<longleftrightarrow> (\<forall>kv \<in> set d. snd kv = PNone \<or> (\<exists>s. snd kv = PStr s))"

lemma flat_sort_keys: "flat d \<Longrightarrow> sort_keys (PDict d) = PDict (sort_key fst d)"
proof -
  assume "flat d"
  then have "map (\<lambda>(k, v). (k, sort_keys v)) d = map id d"
    unfolding flat_def by (intro map_cong refl) (auto split: prod.splits)
  then show ?thesis by simp
qed

lemma flat_plain: "flat d \<Longrightarrow> plain (PDict d)"
  by (auto simp: flat_def list_all_iff)

lemma flat_sort: "flat (sort_key f d) \<longleftrightarrow> flat d"
  by (simp add: flat_def)

lemma flat_opt_obj [simp]: "opt_obj x = PNone \<or> (\<exists>s. opt_obj x = PStr s)"
  by (cases x) simp_all

lemma flat_canonical: "flat d \<Longrightarrow> canonical_json L (PDict d) = Some (render L (PDict (sort_key fst d)))"
  by (simp only: canonical_json_plain flat_plain flat_sort_keys)

lemma record_text_flat:
  assumes "flat d" "''record_sha256'' \<notin> fst ` set d"
  shows "record_text L d = Inr (render L (PDict (sort_key fst
    (d @ [(''record_sha256'', PStr (sha256_hex L (render L (PDict (sort_key fst d)))))]))) @ [CHR 0x0A])"
proof -
  have "flat (d @ [(k, PStr s)])" for k s using assms(1) by (auto simp: flat_def)
  then show ?thesis
    using assms
    by (simp add: record_text_def canonical_bytes_def flat_canonical flat_sort_keys dict_set_fresh del: sort_keys.simps)
qed

context json_line
begin

lemma read_record_text:
  assumes "flat d" "''record_sha256'' \<notin> fst ` set d" "distinct (map fst d)" "record_text L d = Inr text"
  shows "\<exists>e. read_record L text = Inr (Some e) \<and> (\<forall>k. k \<noteq> ''record_sha256'' \<longrightarrow> map_of e k = map_of d k)
    \<and> set (map fst e) = insert ''record_sha256'' (set (map fst d))"
proof -
  let ?sha = "sha256_hex L (render L (PDict (sort_key fst d)))"
  let ?d = "d @ [(''record_sha256'', PStr ?sha)]"
  let ?e = "sort_key fst ?d"
  have wf: "distinct (map fst ?d)" using assms(2,3) by simp
  have "mset (map fst ?e) = mset (map fst ?d)" by (simp only: mset_map mset_sort)
  then have "distinct (map fst ?e)" using wf mset_eq_imp_distinct_iff by blast
  then have e: "map_of ?e = map_of ?d" using wf map_of_inject_set [of ?e ?d] by simp
  have "flat ?d" using assms(1) by (auto simp: flat_def)
  then have "flat ?e" by (simp only: flat_sort)
  from json_loads_line [OF flat_plain [OF this]]
  have "json_loads L text = Some (PDict ?e)"
    using assms(4) unfolding record_text_flat [OF assms(1,2)] sum.inject by metis
  moreover have "dict_get ''record_sha256'' ?e = PStr ?sha"
    unfolding dict_get_def e using assms(2) map_of_eq_None_iff [of d "''record_sha256''"] by (simp add: map_add_def)
  moreover have "filter (\<lambda>kv. fst kv \<notin> set [''record_sha256'']) ?e = sort_key fst d"
  proof -
    have "filter (\<lambda>kv. fst kv \<notin> set [''record_sha256'']) d = d" using assms(2) by (force simp: filter_id_conv)
    then show ?thesis by (simp add: filter_sort)
  qed
  then have "canonical_bytes L [''record_sha256''] ?e = Inr (render L (PDict (sort_key fst d)))"
    using assms(1) sort_key_id_if_sorted [of fst "sort_key fst d"]
    by (simp only: canonical_bytes_def flat_canonical [OF flat_sort [THEN iffD2]] sorted_sort_key) simp
  ultimately have "read_record L text = Inr (Some ?e)" by (simp add: read_record_def)
  moreover have "set (map fst ?e) = insert ''record_sha256'' (set (map fst d))" by auto
  ultimately show ?thesis using e by (auto simp: map_add_def split: option.splits)
qed

end

lemma record_payload_facts:
  "flat (record_payload r)" "''record_sha256'' \<notin> fst ` set (record_payload r)" "distinct (map fst (record_payload r))"
  by (auto simp: record_payload_def flat_def)

lemma category_of_payload_opt [simp]: "category_of_payload (opt_obj (map_option terminal_value c)) = Some c"
proof (cases c)
  case (Some x)
  then show ?thesis by (cases x) (simp add: category_of_payload_def)
qed (simp add: category_of_payload_def)

lemma record_of_payload_reads:
  assumes "\<And>k. k \<noteq> ''record_sha256'' \<Longrightarrow> map_of d k = map_of (record_payload r) k"
    and "dr_schema_version r = deployment_schema_v1 \<Longrightarrow> dr_terminal_category r = None"
  shows "record_of_payload d = Some r"
proof -
  have "dict_get k d = dict_get k (record_payload r)" if "k \<noteq> ''record_sha256''" for k
    using assms(1) [OF that] by (simp add: dict_get_def)
  note get = this [of "''schema_version''"] this [of "''deployment_id''"] this [of "''repository''"]
    this [of "''candidate_sha''"] this [of "''target_fingerprint''"] this [of "''started_at''"]
    this [of "''completed_at''"] this [of "''outcome''"] this [of "''health''"] this [of "''overlay_content_b64''"]
    this [of "''overlay_sha256''"] this [of "''terminal_category''"]
  have none: "category_of_payload PNone = Some None" by (simp add: category_of_payload_def)
  show ?thesis
  proof (cases "dr_schema_version r = deployment_schema_v1")
    case True
    with assms(2) get none show ?thesis by (cases r) (simp add: record_of_payload_def Let_def record_payload_def dict_get_def)
  next
    case False
    with get show ?thesis by (cases r) (simp add: record_of_payload_def Let_def record_payload_def dict_get_def)
  qed
qed

lemma validated_schema:
  assumes "validate_deployment_record L r = Inr ()"
  shows "dr_schema_version r = deployment_schema_v1 \<and> dr_terminal_category r = None
    \<or> dr_schema_version r = deployment_schema_v2"
  using assms by (auto simp: validate_deployment_record_def split: if_splits)

lemma deployment_reads_back:
  assumes "validate_deployment_record L r = Inr ()"
    and "\<And>k. k \<noteq> ''record_sha256'' \<Longrightarrow> map_of d k = map_of (record_payload r) k"
    and "set (map fst d) = insert ''record_sha256'' (set (map fst (record_payload r)))"
  shows "deployment_from_payload L d = Inr (Some r)"
proof -
  have r: "record_of_payload d = Some r"
    using record_of_payload_reads [OF assms(2)] validated_schema [OF assms(1)] by (auto simp: deployment_schema_v1_def deployment_schema_v2_def)
  have "dict_get ''schema_version'' d = PStr (dr_schema_version r)"
    using assms(2) [of "''schema_version''"] by (simp add: dict_get_def record_payload_def)
  moreover have "has_exactly (if dr_schema_version r = deployment_schema_v1 then deployment_v1_keys else deployment_v2_keys) d"
    using assms(3) by (auto simp: has_exactly_def record_payload_def deployment_v1_keys_def deployment_v2_keys_def)
  ultimately show ?thesis
    using validated_schema [OF assms(1)] assms(1) r
    by (auto simp: deployment_from_payload_def Let_def split: if_splits)
qed

context json_line
begin

lemma written_record_reads_back:
  assumes "validate_deployment_record L r = Inr ()" "record_text L (record_payload r) = Inr text"
  shows "bind_result (read_record L text) (\<lambda>d. case d of None \<Rightarrow> Inr None | Some d \<Rightarrow> deployment_from_payload L d) = Inr (Some r)"
  using read_record_text [OF record_payload_facts assms(2)] deployment_reads_back [OF assms(1)] by fastforce

end

section \<open>The ledger is a map\<close>

text \<open>
  The specification: each deployment has the record that was last written for it; a torn write leaves
  it.  The files implement it as long as the hash does not collide on the identifiers.
\<close>

type_synonym ledger_writes = "(write_fate \<times> deployment_record) list"

definition run_writes :: "pylib \<Rightarrow> ledger_writes \<Rightarrow> files \<Rightarrow> files" where
  "run_writes L ws fs = foldl (\<lambda>fs (fate, r). snd (ledger_write L fate r fs)) fs ws"

definition note_write :: "pylib \<Rightarrow> write_fate \<Rightarrow> deployment_record \<Rightarrow> (string \<Rightarrow> deployment_record option)
    \<Rightarrow> string \<Rightarrow> deployment_record option" where
  "note_write L fate r m =
     (if fate = WriteDone \<and> validate_deployment_record L r = Inr () then m(dr_deployment_id r \<mapsto> r) else m)"

definition last_written :: "pylib \<Rightarrow> ledger_writes \<Rightarrow> string \<Rightarrow> deployment_record option" where
  "last_written L ws = foldl (\<lambda>m (fate, r). note_write L fate r m) Map.empty ws"

definition ledger_implements :: "pylib \<Rightarrow> files \<Rightarrow> (string \<Rightarrow> deployment_record option) \<Rightarrow> bool" where
  "ledger_implements L fs m \<longleftrightarrow>
     (\<forall>i r. m i = Some r \<longrightarrow> dr_deployment_id r = i \<and> read_deployment L fs (ledger_path L ''deployment'' i) = Inr (Some r))
     \<and> (\<forall>n \<in> set (glob_names ''deployment'' fs). \<exists>i. m i \<noteq> None \<and> n = ledger_path L ''deployment'' i)"

lemma ledger_path_names:
  "is_prefix ''deployment-'' (ledger_path L ''deployment'' i)" "is_suffix ''.json'' (ledger_path L ''deployment'' i)"
  "ledger_path L ''deployment'' i \<noteq> temporary_name n"
  by (simp_all add: ledger_path_def is_prefix_iff is_suffix_def temporary_name_def)

lemma ledger_path_eq_iff: "ledger_path L p i = ledger_path L p j \<longleftrightarrow> sha256_hex L i = sha256_hex L j"
  by (simp add: ledger_path_def)

lemma implemented_records:
  assumes "ledger_implements L fs m"
  shows "\<exists>rs. deployment_records L fs = Inr rs \<and> set rs = ran m"
proof -
  have "\<exists>r. read_deployment L fs n = Inr (Some r) \<and> r \<in> ran m" if "n \<in> set (glob_names ''deployment'' fs)" for n
    using that assms unfolding ledger_implements_def ran_def by fastforce
  then obtain g where g: "\<And>n. n \<in> set (glob_names ''deployment'' fs) \<Longrightarrow> read_deployment L fs n = Inr (Some (g n)) \<and> g n \<in> ran m"
    by metis
  then have "traverse (read_deployment L fs) (glob_names ''deployment'' fs) = Inr (map (\<lambda>n. Some (g n)) (glob_names ''deployment'' fs))"
    by (intro traverse_total) simp
  moreover have "ran m \<subseteq> g ` set (glob_names ''deployment'' fs)"
  proof
    fix r assume "r \<in> ran m"
    then obtain i where "m i = Some r" by (auto simp: ran_def)
    then have read: "read_deployment L fs (ledger_path L ''deployment'' i) = Inr (Some r)"
      using assms by (simp add: ledger_implements_def)
    then have "ledger_path L ''deployment'' i \<in> fst ` set fs"
      by (auto simp: read_deployment_def split: option.splits dest!: map_of_SomeD intro: rev_image_eqI)
    then have n: "ledger_path L ''deployment'' i \<in> set (glob_names ''deployment'' fs)"
      using ledger_path_names by (simp add: glob_names_def)
    then show "r \<in> g ` set (glob_names ''deployment'' fs)" using g [OF n] read by force
  qed
  ultimately show ?thesis using g
    by (force simp: deployment_records_def List.map_filter_def o_def)
qed

lemma glob_names_temporary: "glob_names ''deployment'' (dict_set (temporary_name n) d fs) = glob_names ''deployment'' fs"
proof -
  let ?P = "\<lambda>n. is_prefix (''deployment'' @ ''-'') n \<and> is_suffix ''.json'' n"
  have "\<not> ?P (temporary_name n)" by (simp add: temporary_name_def)
  then have "filter ?P (map fst (dict_set (temporary_name n) d fs)) = filter ?P (map fst fs)" by (auto simp: keys_dict_set)
  then show ?thesis by (simp only: glob_names_def filter_sort)
qed

context json_line
begin

lemma implemented_write:
  assumes "ledger_implements L fs m" "\<And>i. m i \<noteq> None \<Longrightarrow> sha256_hex L i = sha256_hex L (dr_deployment_id r) \<Longrightarrow> i = dr_deployment_id r"
  shows "ledger_implements L (snd (ledger_write L fate r fs)) (note_write L fate r m)"
proof (cases "validate_deployment_record L r")
  case (Inl e)
  with assms(1) show ?thesis by (simp add: ledger_write_def note_write_def)
next
  case (Inr u)
  then have valid: "validate_deployment_record L r = Inr ()" by simp
  let ?name = "ledger_path L ''deployment'' (dr_deployment_id r)"
  obtain doc where doc: "record_text L (record_payload r) = Inr doc"
    using record_text_flat [OF record_payload_facts(1,2)] by blast
  show ?thesis
  proof (cases fate)
    case WriteDone
    let ?fs = "dict_set ?name doc (file_del (temporary_name ?name) fs)"
    have same: "read_deployment L ?fs (ledger_path L ''deployment'' i) = read_deployment L fs (ledger_path L ''deployment'' i)"
      if "ledger_path L ''deployment'' i \<noteq> ?name" for i
      using that ledger_path_names(3) by (simp add: read_deployment_def map_of_file_del)
    have here: "read_deployment L ?fs ?name = Inr (Some r)"
      using written_record_reads_back [OF valid doc] by (simp add: read_deployment_def)
    have names: "n \<in> set (glob_names ''deployment'' fs)" if "n \<in> set (glob_names ''deployment'' ?fs)" "n \<noteq> ?name" for n
      using that by (auto simp: glob_names_def file_del_def)
    have "ledger_implements L ?fs (m(dr_deployment_id r \<mapsto> r))"
      unfolding ledger_implements_def
    proof (intro conjI allI impI ballI)
      fix i q assume q: "(m(dr_deployment_id r \<mapsto> r)) i = Some q"
      show "dr_deployment_id q = i"
        using q assms(1) by (auto simp: ledger_implements_def split: if_splits)
      show "read_deployment L ?fs (ledger_path L ''deployment'' i) = Inr (Some q)"
      proof (cases "i = dr_deployment_id r")
        case False
        then have "m i = Some q" "ledger_path L ''deployment'' i \<noteq> ?name"
          using q assms(2) [of i] by (auto simp: ledger_path_eq_iff)
        with assms(1) same show ?thesis by (simp add: ledger_implements_def)
      qed (use q here in simp)
    next
      fix n assume n: "n \<in> set (glob_names ''deployment'' ?fs)"
      show "\<exists>i. (m(dr_deployment_id r \<mapsto> r)) i \<noteq> None \<and> n = ledger_path L ''deployment'' i"
      proof (cases "n = ?name")
        case False
        have "n \<in> set (glob_names ''deployment'' fs)" using names [OF n False] .
        with assms(1) obtain i where "m i \<noteq> None" "n = ledger_path L ''deployment'' i"
          unfolding ledger_implements_def by blast
        then show ?thesis by (intro exI [of _ i]) simp
      qed auto
    qed
    then show ?thesis
      using valid doc WriteDone by (simp add: ledger_write_def write_atomic_def note_write_def)
  next
    case (WriteTorn part)
    have "read_deployment L (dict_set (temporary_name ?name) d fs) (ledger_path L ''deployment'' i)
        = read_deployment L fs (ledger_path L ''deployment'' i)" for d i
      using ledger_path_names(3) by (simp add: read_deployment_def)
    moreover have "glob_names ''deployment'' (dict_set (temporary_name n) d fs) = glob_names ''deployment'' fs" for n d
      by (rule glob_names_temporary)
    ultimately show ?thesis using assms(1) WriteTorn valid doc
      by (cases part) (simp_all add: ledger_implements_def ledger_write_def write_atomic_def note_write_def)
  qed
qed

end

lemma first_max_spec:
  "first_max key xs = Some x \<Longrightarrow> x \<in> set xs \<and> (\<forall>y \<in> set xs. key y \<le> key x)"
proof (induction xs arbitrary: x)
  case (Cons a xs)
  show ?case
  proof (cases "first_max key xs")
    case None
    then have "xs = []" by (cases xs) (auto split: option.splits if_splits)
    with Cons.prems show ?thesis by simp
  next
    case (Some b)
    with Cons show ?thesis by (force split: if_splits)
  qed
qed simp

lemma first_max_None: "first_max key xs = None \<longleftrightarrow> xs = []"
  by (cases xs) (auto split: option.splits if_splits)

lemma run_writes_Cons: "run_writes L (w # ws) fs = run_writes L ws (snd (ledger_write L (fst w) (snd w) fs))"
  by (simp add: run_writes_def split_def)

lemma written_ids:
  "foldl (\<lambda>m (fate, r). note_write L fate r m) m ws i \<noteq> None \<Longrightarrow> m i \<noteq> None \<or> i \<in> (dr_deployment_id \<circ> snd) ` set ws"
proof (induction ws arbitrary: m)
  case (Cons w ws)
  obtain fate r where w: "w = (fate, r)" by force
  from Cons.prems Cons.IH [of "note_write L fate r m"] show ?case
    by (auto simp: w note_write_def split: if_splits)
qed simp

lemma run_writes_implement:
  assumes separate: "\<forall>v \<in> set ws. \<forall>w \<in> set ws. sha256_hex (std_lib h) (dr_deployment_id (snd v)) = sha256_hex (std_lib h) (dr_deployment_id (snd w))
      \<longrightarrow> dr_deployment_id (snd v) = dr_deployment_id (snd w)"
    and "ledger_implements (std_lib h) fs m" "set us \<subseteq> set ws" "\<forall>i. m i \<noteq> None \<longrightarrow> i \<in> (dr_deployment_id \<circ> snd) ` set ws"
  shows "ledger_implements (std_lib h) (run_writes (std_lib h) us fs) (foldl (\<lambda>m (fate, r). note_write (std_lib h) fate r m) m us)"
  using assms(2-)
proof (induction us arbitrary: fs m)
  case (Cons u us)
  let ?L = "std_lib h"
  obtain fate r where u: "u = (fate, r)" by force
  have step: "ledger_implements ?L (snd (ledger_write ?L fate r fs)) (note_write ?L fate r m)"
  proof (rule std_line.implemented_write [OF Cons.prems(1)])
    fix i assume "m i \<noteq> None" "sha256_hex ?L i = sha256_hex ?L (dr_deployment_id r)"
    moreover from this obtain v where "v \<in> set ws" "i = dr_deployment_id (snd v)" using Cons.prems(3) by auto
    moreover have "u \<in> set ws" using Cons.prems(2) by simp
    ultimately show "i = dr_deployment_id r" using separate by (simp add: u) (metis snd_conv u)
  qed
  have "dr_deployment_id r \<in> (dr_deployment_id \<circ> snd) ` set ws"
    by (rule rev_image_eqI [of u]) (use Cons.prems(2) u in auto)
  with Cons.prems(3) have "\<forall>i. note_write ?L fate r m i \<noteq> None \<longrightarrow> i \<in> (dr_deployment_id \<circ> snd) ` set ws"
    by (simp add: note_write_def)
  moreover have "set us \<subseteq> set ws" using Cons.prems(2) by simp
  ultimately show ?case using Cons.IH [OF step] by (simp only: run_writes_Cons u fst_conv snd_conv foldl_Cons prod.case)
qed (simp add: run_writes_def)

lemma implemented_successful:
  assumes "ledger_implements L fs m"
  shows "already_successful L i fs = Inr (\<exists>r. m i = Some r \<and> eligible_success (dr_target_fingerprint r) r)"
proof -
  obtain rs where rs: "deployment_records L fs = Inr rs" "set rs = ran m" using implemented_records [OF assms] by blast
  have "m i = Some r \<longleftrightarrow> r \<in> set rs \<and> dr_deployment_id r = i" for r
    using assms rs(2) by (auto simp: ran_def ledger_implements_def)
  then show ?thesis by (auto simp: already_successful_def rs(1) list_ex_iff)
qed

lemma implemented_previous:
  assumes "ledger_implements L fs m"
  shows "\<exists>p. previous_success L fp fs = Inr p
      \<and> (p = None \<longleftrightarrow> (\<forall>i r. m i = Some r \<longrightarrow> \<not> eligible_success fp r))
      \<and> (\<forall>r. p = Some r \<longrightarrow> m (dr_deployment_id r) = Some r \<and> eligible_success fp r
          \<and> (\<forall>i q. m i = Some q \<and> eligible_success fp q \<longrightarrow> completion_order q \<le> completion_order r))"
proof -
  obtain rs where rs: "deployment_records L fs = Inr rs" "set rs = ran m" using implemented_records [OF assms] by blast
  have own: "m (dr_deployment_id r) = Some r" if "r \<in> set rs" for r
    using that rs(2) assms by (auto simp: ran_def ledger_implements_def)
  have member: "r \<in> set rs" if "m i = Some r" for i r using that rs(2) by (auto simp: ran_def)
  let ?es = "filter (eligible_success fp) rs"
  have found: "previous_success L fp fs = Inr (first_max completion_order ?es)" by (simp add: previous_success_def rs(1))
  have none: "first_max completion_order ?es = None \<longleftrightarrow> (\<forall>i r. m i = Some r \<longrightarrow> \<not> eligible_success fp r)"
    unfolding first_max_None filter_empty_conv using own member by blast
  have best: "m (dr_deployment_id r) = Some r \<and> eligible_success fp r
      \<and> (\<forall>i q. m i = Some q \<and> eligible_success fp q \<longrightarrow> completion_order q \<le> completion_order r)"
    if "first_max completion_order ?es = Some r" for r
    using first_max_spec [OF that] own member by auto
  show ?thesis
    by (rule exI [of _ "first_max completion_order ?es"], intro conjI allI impI found none) (use best in blast)+
qed

text \<open>
  C39: The ledger implements a map from deployments to records.  Whatever records are written, valid or not,
  and whichever writes are torn: the records that are read are those that were last written completely,
  the question whether a deployment succeeded is answered from its last record, and the previous success of
  a target is the one completed last among them.
\<close>

theorem ledger_implements_a_map:
  assumes "\<forall>v \<in> set ws. \<forall>w \<in> set ws. sha256_hex (std_lib h) (dr_deployment_id (snd v)) = sha256_hex (std_lib h) (dr_deployment_id (snd w))
      \<longrightarrow> dr_deployment_id (snd v) = dr_deployment_id (snd w)"
  shows "\<exists>rs. deployment_records (std_lib h) (run_writes (std_lib h) ws []) = Inr rs
    \<and> set rs = ran (last_written (std_lib h) ws)
    \<and> (\<forall>i. already_successful (std_lib h) i (run_writes (std_lib h) ws [])
        = Inr (\<exists>r. last_written (std_lib h) ws i = Some r \<and> eligible_success (dr_target_fingerprint r) r))
    \<and> (\<forall>fp. \<exists>p. previous_success (std_lib h) fp (run_writes (std_lib h) ws []) = Inr p
        \<and> (p = None \<longleftrightarrow> (\<forall>i r. last_written (std_lib h) ws i = Some r \<longrightarrow> \<not> eligible_success fp r))
        \<and> (\<forall>r. p = Some r \<longrightarrow> last_written (std_lib h) ws (dr_deployment_id r) = Some r \<and> eligible_success fp r
            \<and> (\<forall>i q. last_written (std_lib h) ws i = Some q \<and> eligible_success fp q \<longrightarrow> completion_order q \<le> completion_order r)))"
proof -
  let ?L = "std_lib h" and ?fs = "run_writes (std_lib h) ws []" and ?m = "last_written (std_lib h) ws"
  have impl: "ledger_implements ?L ?fs ?m"
    using run_writes_implement [OF assms, of "[]" Map.empty ws]
    by (simp add: last_written_def ledger_implements_def glob_names_def)
  obtain rs where "deployment_records ?L ?fs = Inr rs" "set rs = ran ?m" using implemented_records [OF impl] by blast
  with implemented_successful [OF impl] implemented_previous [OF impl] show ?thesis by blast
qed

definition demo_digest :: string where "demo_digest = replicate 64 CHR ''0''"

definition utc_text :: "nat \<Rightarrow> nat \<Rightarrow> nat \<Rightarrow> nat \<Rightarrow> nat \<Rightarrow> nat \<Rightarrow> string" where
  "utc_text y mo d h mi s =
     pad_nat 4 y @ ''-'' @ pad_nat 2 mo @ ''-'' @ pad_nat 2 d @ ''T'' @ pad_nat 2 h @ '':'' @ pad_nat 2 mi @ '':''
     @ pad_nat 2 s @ ''Z''"

lemma utc_timestamp_text: "utc_timestamp (utc_text y mo d h mi s)"
  using re_digits_pad by (simp add: utc_timestamp_def utc_text_def re_char_def)

definition demo_deployment :: deployment_record where
  "demo_deployment =
     \<lparr>dr_schema_version = deployment_schema_v2, dr_deployment_id = demo_digest, dr_repository = ''r'',
      dr_candidate_sha = replicate 40 CHR ''a'', dr_target_fingerprint = demo_digest,
      dr_started_at = utc_text 2025 11 29 5 0 0, dr_completed_at = Some (utc_text 2025 11 29 5 1 0),
      dr_outcome = OutcomeSuccess, dr_health = Some ''passed'', dr_overlay_content_b64 = Some ''Cg=='',
      dr_overlay_sha256 = Some demo_digest, dr_terminal_category = None\<rparr>"

lemma demo_digest_hex: "lower_hex 64 demo_digest" "lower_hex 40 (replicate 40 CHR ''a'')"
  by (simp_all add: lower_hex_def demo_digest_def char_in_def list_all_iff)



lemma deployment_id_Inr:
  assumes "lower_hex 40 sha" "lower_hex 64 fp" "repo \<noteq> []"
  shows "\<exists>s. deployment_id L repo sha fp = Inr (sha256_hex L s)"
  using assms by (auto simp: deployment_id_def require_sha_def canonical_bytes_def canonical_json_def)

lemma demo_deployment_valid: "validate_deployment_record (std_lib (\<lambda>_. demo_digest)) demo_deployment = Inr ()"
proof -
  have "deployment_id (std_lib (\<lambda>_. demo_digest)) ''r'' (replicate 40 CHR ''a'') demo_digest = Inr demo_digest"
    using deployment_id_Inr [of "replicate 40 CHR ''a''" demo_digest "''r''" "std_lib (\<lambda>_. demo_digest)"] demo_digest_hex by auto
  moreover have "b64_decode ''Cg=='' = Some [CHR 0x0A]" by code_simp
  ultimately show ?thesis
    using demo_digest_hex utc_timestamp_text
    by (simp add: validate_deployment_record_def demo_deployment_def require_sha_def require_timestamp_def
        validate_success_def require_overlay_def)
qed

lemma ledger_implements_a_map_witness:
  "\<exists>rs. deployment_records (std_lib (\<lambda>_. demo_digest))
        (run_writes (std_lib (\<lambda>_. demo_digest)) [(WriteDone, demo_deployment), (WriteTorn (Some ''{''), demo_deployment)] []) = Inr rs
      \<and> set rs = {demo_deployment}"
proof -
  have last: "last_written (std_lib (\<lambda>_. demo_digest)) [(WriteDone, demo_deployment), (WriteTorn (Some ''{''), demo_deployment)]
      = [demo_digest \<mapsto> demo_deployment]"
    by (simp add: last_written_def note_write_def demo_deployment_valid) (simp add: demo_deployment_def)
  then have "ran (last_written (std_lib (\<lambda>_. demo_digest)) [(WriteDone, demo_deployment), (WriteTorn (Some ''{''), demo_deployment)])
      = {demo_deployment}" by simp
  then show ?thesis
    using ledger_implements_a_map [of "[(WriteDone, demo_deployment), (WriteTorn (Some ''{''), demo_deployment)]" "\<lambda>_. demo_digest"]
    by auto
qed

end
