(* ===== verification/Deploy_Overlay.thy ===== *)
theory Deploy_Overlay
  imports Deploy_Ledger
begin

text \<open>
  The Compose overlay of a deployment (\<open>deployment/overlay.py\<close>): rendering the overlay of a release or
  of the baseline, validating the bytes of one, and the store that installs it with an atomic
  replacement.  The YAML library is a parameter: the text it writes for a document, the nodes it
  composes from a text, and the value the strict loader constructs.
\<close>

section \<open>YAML\<close>

text \<open>A node has a tag and, except the root, perhaps an anchor.\<close>

datatype yaml_node =
  YScalar string bool
| YSequence string bool "yaml_node list"
| YMapping string bool "yaml_pair list"
and yaml_pair = YPair yaml_node yaml_node

record yaml_lib =
  yl_dump :: "pyobj \<Rightarrow> string"
  yl_compose :: "string \<Rightarrow> yaml_node option result"
  yl_load :: "string \<Rightarrow> pyobj result"

fun node_tag :: "yaml_node \<Rightarrow> string" where
  "node_tag (YScalar t a) = t"
| "node_tag (YSequence t a ns) = t"
| "node_tag (YMapping t a ps) = t"

fun node_anchored :: "yaml_node \<Rightarrow> bool" where
  "node_anchored (YScalar t a) = a"
| "node_anchored (YSequence t a ns) = a"
| "node_anchored (YMapping t a ps) = a"

definition standard_tags :: "string list" where
  "standard_tags =
     [''tag:yaml.org,2002:map'', ''tag:yaml.org,2002:seq'', ''tag:yaml.org,2002:str'', ''tag:yaml.org,2002:bool'']"

fun walk_nodes :: "yaml_node \<Rightarrow> unit result"
  and walk_list :: "yaml_node list \<Rightarrow> unit result"
  and walk_pairs :: "yaml_pair list \<Rightarrow> unit result" where
  "walk_nodes (YScalar t a) =
     require (t \<in> set standard_tags) (ValueError ''non-standard yaml tag rejected'')"
| "walk_nodes (YSequence t a ns) =
     bind_result (require (t \<in> set standard_tags) (ValueError ''non-standard yaml tag rejected'')) (\<lambda>_. walk_list ns)"
| "walk_nodes (YMapping t a ps) =
     bind_result (require (t \<in> set standard_tags) (ValueError ''non-standard yaml tag rejected'')) (\<lambda>_. walk_pairs ps)"
| "walk_list [] = Inr ()"
| "walk_list (n # ns) = bind_result (walk_nodes n) (\<lambda>_. walk_list ns)"
| "walk_pairs [] = Inr ()"
| "walk_pairs (YPair k v # ps) =
     (if node_anchored v then Inl (ValueError ''alias rejected'')
      else bind_result (walk_nodes k) (\<lambda>_. bind_result (walk_nodes v) (\<lambda>_. walk_pairs ps)))"

text \<open>Bytes that decode as UTF-8.\<close>

function utf8_text :: "string \<Rightarrow> bool" where
  "utf8_text s \<longleftrightarrow> s = [] \<or> (case utf8_head s of None \<Rightarrow> False | Some (_, r) \<Rightarrow> utf8_text r)"
  by pat_completeness auto
termination by (relation "measure length") (auto dest: utf8_head_shorter)

declare utf8_text.simps [simp del]

fun is_yaml_error :: "pyexc \<Rightarrow> bool" where
  "is_yaml_error (YamlError _) = True"
| "is_yaml_error _ = False"

definition parse_strict :: "yaml_lib \<Rightarrow> string \<Rightarrow> pyobj result" where
  "parse_strict Y content =
     (if \<not> utf8_text content then Inl (ValueError ''invalid overlay yaml'')
      else if CHR 0x0D \<in> set content \<or> \<not> is_suffix [CHR 0x0A] content \<or> CHR 0x26 \<in> set content \<or> CHR 0x2A \<in> set content
      then Inl (ValueError ''yaml must be utf-8 lf without alias'')
      else try_except
             (bind_result (yl_compose Y content) (\<lambda>node.
              case node of
                None \<Rightarrow> Inl (ValueError ''empty overlay'')
              | Some n \<Rightarrow> bind_result (walk_nodes n) (\<lambda>_. yl_load Y content)))
             (\<lambda>e. is_type_error e \<or> is_yaml_error e) (\<lambda>_. Inl (ValueError ''invalid overlay yaml'')))"

section \<open>Rendering\<close>

record overlay_artifact =
  oa_kind :: string
  oa_candidate_sha :: "string option"
  oa_content :: string
  oa_sha256 :: string

definition path_string :: "string \<Rightarrow> string" where
  "path_string p = map (\<lambda>c. if c = CHR 0x5C then CHR ''/'' else c) p"

text \<open>\<open>_SERVICE_NAME\<close>, and the search of \<open>_CREDENTIAL\<close>, which ignores case also for the letters
  outside of ASCII that fold to \<open>i\<close>, \<open>k\<close> and \<open>s\<close>.\<close>

definition service_name :: "string \<Rightarrow> bool" where
  "service_name s \<longleftrightarrow>
     (case s of [] \<Rightarrow> False
      | c # cs \<Rightarrow> char_in alnum c \<and> list_all (\<lambda>d. char_in alnum d \<or> char_in ''_.-'' d) cs)"

fun fold_case :: "string \<Rightarrow> string" where
  "fold_case [] = []"
| "fold_case (a # b # c # s) =
     (if (a, b, c) = (CHR 0xE2, CHR 0x84, CHR 0xAA) then CHR ''k'' # fold_case s
      else if (a, b) \<in> {(CHR 0xC4, CHR 0xB0), (CHR 0xC4, CHR 0xB1)} then CHR ''i'' # fold_case (c # s)
      else if (a, b) = (CHR 0xC5, CHR 0xBF) then CHR ''s'' # fold_case (c # s)
      else lower_char a # fold_case (b # c # s))"
| "fold_case [a, b] =
     (if (a, b) \<in> {(CHR 0xC4, CHR 0xB0), (CHR 0xC4, CHR 0xB1)} then ''i''
      else if (a, b) = (CHR 0xC5, CHR 0xBF) then ''s'' else [lower_char a, lower_char b])"
| "fold_case [a] = [lower_char a]"

definition credential_words :: "string list" where
  "credential_words =
     [''token'', ''secret'', ''password'', ''credential'', ''authorization'', ''bearer'', ''apikey'', ''api_key'', ''api-key'']"

definition names_credential :: "string \<Rightarrow> bool" where
  "names_credential s \<longleftrightarrow> list_ex (\<lambda>w. is_infix w (fold_case s)) credential_words"

definition is_init_service :: "string \<Rightarrow> bool" where
  "is_init_service s \<longleftrightarrow> is_infix ''airflow-init'' (fold_case s)"

definition overlay_volume :: "string \<Rightarrow> string \<Rightarrow> bool \<Rightarrow> pyobj" where
  "overlay_volume src dest read_only =
     PDict [(''type'', PStr ''bind''), (''source'', PStr src), (''target'', PStr dest), (''read_only'', PBool read_only)]"

definition release_environment :: "string \<Rightarrow> pyobj" where
  "release_environment sha =
     PDict [(''ASK_SEOUL_DBT_ARTIFACT_ROOT'', PStr (''/opt/airflow/logs/weather-dbt/releases/'' @ sha))]"

definition service_body :: "string option \<Rightarrow> string \<Rightarrow> string \<Rightarrow> pyobj" where
  "service_body release dags dbt =
     PDict
       ((''volumes'', PList [overlay_volume dags ''/opt/airflow/dags'' True,
                             overlay_volume dbt ''/opt/airflow/dbt'' (release \<noteq> None)])
        # (case release of None \<Rightarrow> [] | Some sha \<Rightarrow> [(''environment'', release_environment sha)]))"

definition overlay_document :: "string option \<Rightarrow> string list \<Rightarrow> string \<Rightarrow> string \<Rightarrow> pyobj" where
  "overlay_document release services dags dbt =
     PDict [(''services'', PDict (map (\<lambda>s. (s, service_body release dags dbt)) services))]"

text \<open>\<open>_artifact\<close>: of a release when a commit is given, of the baseline otherwise.\<close>

definition overlay_kind :: "string option \<Rightarrow> string" where
  "overlay_kind release = (if release = None then ''baseline'' else ''release'')"

definition make_artifact ::
  "pylib \<Rightarrow> yaml_lib \<Rightarrow> string option \<Rightarrow> string list \<Rightarrow> string \<Rightarrow> string \<Rightarrow> overlay_artifact result" where
  "make_artifact L Y release services dags dbt =
     (if list_ex (\<lambda>s. is_init_service s \<or> \<not> service_name s) services
      then Inl (ValueError ''overlay service name rejected'')
      else let content = yl_dump Y (overlay_document release services dags dbt)
           in Inr \<lparr>oa_kind = overlay_kind release, oa_candidate_sha = release, oa_content = content,
                   oa_sha256 = sha256_hex L content\<rparr>)"

definition release_root :: "deploy_target \<Rightarrow> string \<Rightarrow> string" where
  "release_root t sha = dt_runtime_root t @ ''/releases/'' @ sha"

definition render_release_overlay ::
  "pylib \<Rightarrow> yaml_lib \<Rightarrow> deploy_target \<Rightarrow> string \<Rightarrow> string \<Rightarrow> overlay_artifact result" where
  "render_release_overlay L Y t checkout_root sha =
     (if \<not> lower_hex 40 sha then Inl (ValueError ''candidate_sha must be lowercase 40-hex'')
      else if path_string checkout_root \<noteq> path_string (release_root t sha)
      then Inl (ValueError ''checkout_root must be runtime_root/releases/<candidate_sha>'')
      else make_artifact L Y (Some sha) (sort (dt_airflow_code_services t))
             (path_string (checkout_root @ ''/dags'')) (path_string (checkout_root @ ''/dbt'')))"

definition render_baseline_overlay :: "pylib \<Rightarrow> yaml_lib \<Rightarrow> deploy_target \<Rightarrow> overlay_artifact result" where
  "render_baseline_overlay L Y t =
     make_artifact L Y None (sort (dt_airflow_code_services t)) (path_string (dt_dags_host_path t))
       (path_string (dt_dbt_host_path t))"

section \<open>Validation\<close>

text \<open>\<open>PureWindowsPath(path).is_absolute()\<close>: a drive with a root, or a UNC or device path.\<close>

fun split_on :: "char \<Rightarrow> string \<Rightarrow> string list" where
  "split_on d [] = [[]]"
| "split_on d (c # s) =
     (if c = d then [] # split_on d s
      else (case split_on d s of [] \<Rightarrow> [[c]] | p # ps \<Rightarrow> (c # p) # ps))"

definition windows_absolute :: "string \<Rightarrow> bool" where
  "windows_absolute path =
     (let q = map (\<lambda>c. if c = CHR ''/'' then CHR 0x5C else c) path; sep = CHR 0x5C
      in if is_prefix [sep, sep] q
         then (let skip = (if is_prefix ([sep, sep] @ ''?'' @ [sep] @ ''unc'' @ [sep]) (str_lower q) then 8 else 2);
                   parts = split_on sep q
               in 3 \<le> length (split_on sep (drop skip q))
                  \<or> last q \<noteq> sep \<and> (length parts = 4 \<and> parts ! 2 \<notin> set [[], ''?'', ''.'', ''?.''] \<or> length parts = 6))
         else (case q of _ # c # d # _ \<Rightarrow> c = CHR '':'' \<and> d = sep | _ \<Rightarrow> False))"

definition drive_prefix :: "string \<Rightarrow> bool" where
  "drive_prefix path =
     (case path of c # d # e # _ \<Rightarrow> c \<in> set (take 52 alnum) \<and> d = CHR '':'' \<and> e = CHR ''/'' | _ \<Rightarrow> False)"

definition absolute_clean :: "string \<Rightarrow> bool" where
  "absolute_clean path =
     (if CHR 0x5C \<in> set path \<or> drive_prefix path
      then windows_absolute path
           \<and> list_all (\<lambda>p. p \<noteq> ''.'' \<and> p \<noteq> ''..'') (split_on CHR ''/'' (path_string path))
      else is_prefix ''/'' path \<and> \<not> is_infix ''/./'' path \<and> \<not> is_infix ''/../'' path \<and> \<not> is_suffix ''/..'' path)"

text \<open>\<open>_overlay_pair_kind\<close>: the baseline, or the commit of a release.\<close>

definition overlay_pair_kind :: "deploy_target \<Rightarrow> string \<times> string \<Rightarrow> string option option" where
  "overlay_pair_kind t p =
     (let releases = path_string (dt_runtime_root t) @ ''/releases/''; rest = drop (length releases) (fst p); sha = take 40 rest
      in if p = (path_string (dt_dags_host_path t), path_string (dt_dbt_host_path t)) then Some None
         else if is_prefix releases (fst p) \<and> lower_hex 40 sha \<and> drop 40 rest = ''/dags'' \<and> snd p = releases @ sha @ ''/dbt''
         then Some (Some sha)
         else None)"

definition has_keys :: "string list \<Rightarrow> pyobj pydict \<Rightarrow> bool" where
  "has_keys ks d \<longleftrightarrow> set (map fst d) = set ks"

definition volume_source :: "pyobj \<Rightarrow> string \<Rightarrow> string result" where
  "volume_source v dest =
     (case v of
        PDict d \<Rightarrow>
          if \<not> has_keys [''type'', ''source'', ''target'', ''read_only''] d
          then Inl (ValueError ''overlay volume keys rejected'')
          else if dict_get ''type'' d \<noteq> PStr ''bind'' \<or> dict_get ''target'' d \<noteq> PStr dest
          then Inl (ValueError ''overlay volume contract rejected'')
          else (case dict_get ''source'' d of
                  PStr s \<Rightarrow> if \<not> absolute_clean s \<or> names_credential s
                            then Inl (ValueError ''overlay source rejected'') else Inr s
                | _ \<Rightarrow> Inl (ValueError ''overlay source rejected''))
      | _ \<Rightarrow> Inl (ValueError ''overlay volume keys rejected''))"

definition service_pair :: "deploy_target \<Rightarrow> string \<Rightarrow> pyobj \<Rightarrow> (string \<times> string) result" where
  "service_pair t service body =
     (if service \<in> set (dt_forbidden_data_services t) \<or> names_credential service \<or> is_init_service service
         \<or> \<not> service_name service
      then Inl (ValueError ''overlay service rejected'')
      else (case body of
              PDict b \<Rightarrow>
                if map_of b ''volumes'' = None \<or> \<not> set (map fst b) \<subseteq> set [''volumes'', ''environment'']
                then Inl (ValueError ''overlay service keys rejected'')
                else (case dict_get ''volumes'' b of
                        PList [dags, dbt] \<Rightarrow>
                          bind_result (volume_source dags ''/opt/airflow/dags'') (\<lambda>s.
                          bind_result (volume_source dbt ''/opt/airflow/dbt'') (\<lambda>s'. Inr (s, s')))
                      | _ \<Rightarrow> Inl (ValueError ''overlay volume count rejected''))
            | _ \<Rightarrow> Inl (ValueError ''overlay service keys rejected'')))"

text \<open>The pair all services share; then what the kind of the pair asks of each service.\<close>

definition shared_pair :: "deploy_target \<Rightarrow> string \<times> pyobj \<Rightarrow> (string \<times> string) option \<Rightarrow> (string \<times> string) option result" where
  "shared_pair t sb expected =
     bind_result (service_pair t (fst sb) (snd sb)) (\<lambda>pair.
     case expected of
       None \<Rightarrow> Inr (Some pair)
     | Some p \<Rightarrow> if pair \<noteq> p then Inl (ValueError ''overlay source pair must be shared by all services'') else Inr (Some p))"

definition environment_leaks :: "pyobj \<Rightarrow> bool" where
  "environment_leaks v =
     (case v of
        PDict d \<Rightarrow> list_ex (\<lambda>(k, x). names_credential k \<or> (case x of PStr s \<Rightarrow> names_credential s | _ \<Rightarrow> False)) d
      | _ \<Rightarrow> False)"

definition service_matches :: "string option \<Rightarrow> pyobj \<Rightarrow> unit result" where
  "service_matches release body =
     (case body of
        PDict b \<Rightarrow>
          if \<not> has_keys (if release = None then [''volumes''] else [''volumes'', ''environment'']) b
          then Inl (ValueError ''overlay service keys rejected'')
          else (case dict_get ''volumes'' b of
                  PList [PDict dags, PDict dbt] \<Rightarrow>
                    if dict_get ''read_only'' dags \<noteq> PBool True \<or> dict_get ''read_only'' dbt \<noteq> PBool (release \<noteq> None)
                    then Inl (ValueError ''overlay volume permission rejected'')
                    else (case release of
                            None \<Rightarrow> Inr ()
                          | Some sha \<Rightarrow>
                              (let env = dict_get ''environment'' b
                               in if environment_leaks env then Inl (ValueError ''overlay environment credential rejected'')
                                  else if env \<noteq> release_environment sha
                                  then Inl (ValueError ''overlay environment rejected'') else Inr ()))
                | _ \<Rightarrow> Inl (ValueError ''overlay volume permission rejected''))
      | _ \<Rightarrow> Inl (ValueError ''overlay service keys rejected''))"

definition overlay_services :: "deploy_target \<Rightarrow> pyobj \<Rightarrow> pyobj pydict result" where
  "overlay_services t parsed =
     (case parsed of
        PDict doc \<Rightarrow>
          (case dict_get ''services'' doc of
             PDict services \<Rightarrow>
               if \<not> has_keys [''services''] doc then Inl (ValueError ''overlay must contain only services'')
               else if set (map fst services) \<noteq> set (dt_airflow_code_services t)
               then Inl (ValueError ''overlay service allowlist mismatch'') else Inr services
           | _ \<Rightarrow> Inl (ValueError ''overlay must contain only services''))
      | _ \<Rightarrow> Inl (ValueError ''overlay must contain only services''))"

definition validate_overlay_content ::
  "pylib \<Rightarrow> yaml_lib \<Rightarrow> deploy_target \<Rightarrow> string \<Rightarrow> string \<Rightarrow> overlay_artifact result" where
  "validate_overlay_content L Y t content sha =
     (if sha256_hex L content \<noteq> sha then Inl (ValueError ''overlay checksum mismatch'')
      else bind_result (parse_strict Y content) (\<lambda>parsed.
           bind_result (overlay_services t parsed) (\<lambda>services.
           bind_result (fold_result (shared_pair t) services None) (\<lambda>expected.
           case expected of
             None \<Rightarrow> Inl (ValueError ''overlay source pair missing'')
           | Some pair \<Rightarrow>
               (case overlay_pair_kind t pair of
                  None \<Rightarrow> Inl (ValueError ''overlay source pair rejected'')
                | Some release \<Rightarrow>
                    bind_result (traverse (service_matches release) (map snd services)) (\<lambda>_.
                    Inr \<lparr>oa_kind = overlay_kind release, oa_candidate_sha = release, oa_content = content,
                         oa_sha256 = sha\<rparr>))))))"

section \<open>What is accepted\<close>

definition volume_is :: "pyobj \<Rightarrow> string \<Rightarrow> string \<Rightarrow> bool \<Rightarrow> bool" where
  "volume_is v src dest read_only \<longleftrightarrow>
     (\<exists>d. v = PDict d \<and> has_keys [''type'', ''source'', ''target'', ''read_only''] d \<and> dict_get ''type'' d = PStr ''bind''
        \<and> dict_get ''source'' d = PStr src \<and> dict_get ''target'' d = PStr dest \<and> dict_get ''read_only'' d = PBool read_only)"

text \<open>The directories a release or the baseline is mounted from.\<close>

definition overlay_sources :: "deploy_target \<Rightarrow> string option \<Rightarrow> string \<times> string" where
  "overlay_sources t release =
     (case release of
        None \<Rightarrow> (path_string (dt_dags_host_path t), path_string (dt_dbt_host_path t))
      | Some sha \<Rightarrow> (path_string (dt_runtime_root t) @ ''/releases/'' @ sha @ ''/dags'',
                     path_string (dt_runtime_root t) @ ''/releases/'' @ sha @ ''/dbt''))"

definition service_allowed :: "deploy_target \<Rightarrow> string option \<Rightarrow> string \<times> pyobj \<Rightarrow> bool" where
  "service_allowed t release sb \<longleftrightarrow>
     fst sb \<in> set (dt_airflow_code_services t) \<and> fst sb \<notin> set (dt_forbidden_data_services t)
     \<and> \<not> is_init_service (fst sb) \<and> service_name (fst sb)
     \<and> (\<exists>b dags dbt. snd sb = PDict b \<and> dict_get ''volumes'' b = PList [dags, dbt]
         \<and> volume_is dags (fst (overlay_sources t release)) ''/opt/airflow/dags'' True
         \<and> volume_is dbt (snd (overlay_sources t release)) ''/opt/airflow/dbt'' (release \<noteq> None)
         \<and> (case release of
              None \<Rightarrow> has_keys [''volumes''] b
            | Some sha \<Rightarrow> has_keys [''volumes'', ''environment''] b \<and> dict_get ''environment'' b = release_environment sha))"

lemma take_drop_parts: "take n s = a \<Longrightarrow> drop n s = b \<Longrightarrow> s = a @ b"
  using append_take_drop_id [of n s] by simp

lemma overlay_pair_kind_Some:
  assumes "overlay_pair_kind t p = Some release"
  shows "p = overlay_sources t release \<and> (\<forall>sha. release = Some sha \<longrightarrow> lower_hex 40 sha)"
proof -
  define r where "r = path_string (dt_runtime_root t) @ ''/releases/''"
  show ?thesis
  proof (cases "p = (path_string (dt_dags_host_path t), path_string (dt_dbt_host_path t))")
    case True
    then show ?thesis using assms by (simp add: overlay_pair_kind_def overlay_sources_def Let_def)
  next
    case False
    let ?sha = "take 40 (drop (length r) (fst p))"
    have p: "is_prefix r (fst p)" "lower_hex 40 ?sha" "drop 40 (drop (length r) (fst p)) = ''/dags''" "snd p = r @ ?sha @ ''/dbt''"
      "release = Some ?sha"
      using False assms unfolding overlay_pair_kind_def Let_def r_def [symmetric] by (auto split: if_split_asm)
    have "fst p = r @ ?sha @ ''/dags''"
      using p(1) take_drop_parts [OF refl p(3)] by (auto simp: is_prefix_iff)
    with p show ?thesis by (cases p) (auto simp: overlay_sources_def r_def simp del: take_drop)
  qed
qed

lemma volume_source_Inr:
  "volume_source v dest = Inr s \<Longrightarrow>
     \<exists>d. v = PDict d \<and> has_keys [''type'', ''source'', ''target'', ''read_only''] d \<and> dict_get ''type'' d = PStr ''bind''
       \<and> dict_get ''source'' d = PStr s \<and> dict_get ''target'' d = PStr dest"
  by (auto simp: volume_source_def split: pyobj.splits if_splits)

lemma service_pair_Inr:
  assumes "service_pair t service body = Inr pair"
  shows "service \<notin> set (dt_forbidden_data_services t) \<and> \<not> is_init_service service \<and> service_name service
    \<and> (\<exists>b dags dbt. body = PDict b \<and> dict_get ''volumes'' b = PList [dags, dbt]
        \<and> volume_source dags ''/opt/airflow/dags'' = Inr (fst pair) \<and> volume_source dbt ''/opt/airflow/dbt'' = Inr (snd pair))"
  using assms unfolding service_pair_def
  by (auto simp: bind_result_Inr_iff split: pyobj.splits if_splits list.splits)

lemma shared_pair_fold:
  assumes "fold_result (shared_pair t) services acc = Inr (Some pair)"
  shows "(\<forall>sb \<in> set services. service_pair t (fst sb) (snd sb) = Inr pair) \<and> (acc = None \<or> acc = Some pair)"
  using assms
proof (induction services arbitrary: acc)
  case (Cons sb services)
  then obtain next_pair where step: "shared_pair t sb acc = Inr next_pair"
    "fold_result (shared_pair t) services next_pair = Inr (Some pair)" by (auto split: sum.splits)
  moreover from step(1) obtain p where "service_pair t (fst sb) (snd sb) = Inr p" "next_pair = Some p" "acc = None \<or> acc = Some p"
    by (cases acc) (auto simp: shared_pair_def bind_result_Inr_iff split: if_split_asm)
  ultimately show ?case using Cons.IH [OF step(2)] by auto
qed simp

lemma service_matches_Inr:
  assumes "service_matches release (PDict b) = Inr ()" "dict_get ''volumes'' b = PList [PDict dags, PDict dbt]"
  shows "dict_get ''read_only'' dags = PBool True \<and> dict_get ''read_only'' dbt = PBool (release \<noteq> None)
    \<and> (case release of None \<Rightarrow> has_keys [''volumes''] b
       | Some sha \<Rightarrow> has_keys [''volumes'', ''environment''] b \<and> dict_get ''environment'' b = release_environment sha)"
  using assms by (auto simp: service_matches_def Let_def split: if_splits option.splits)

lemma accepted_parts:
  assumes "validate_overlay_content L Y t content sha = Inr a"
  shows "\<exists>parsed services pair release. sha256_hex L content = sha \<and> parse_strict Y content = Inr parsed
    \<and> overlay_services t parsed = Inr services \<and> fold_result (shared_pair t) services None = Inr (Some pair)
    \<and> overlay_pair_kind t pair = Some release \<and> (\<exists>us. traverse (service_matches release) (map snd services) = Inr us)
    \<and> a = \<lparr>oa_kind = overlay_kind release, oa_candidate_sha = release, oa_content = content, oa_sha256 = sha\<rparr>"
proof -
  obtain parsed services expected where start: "sha256_hex L content = sha" "parse_strict Y content = Inr parsed"
    "overlay_services t parsed = Inr services" "fold_result (shared_pair t) services None = Inr expected"
    using assms by (auto simp: validate_overlay_content_def bind_result_Inr_iff split: if_split_asm)
  then obtain pair where pair: "expected = Some pair" using assms by (cases expected) (simp_all add: validate_overlay_content_def)
  with start obtain release where "overlay_pair_kind t pair = Some release"
    using assms by (cases "overlay_pair_kind t pair") (simp_all add: validate_overlay_content_def)
  with start pair assms show ?thesis by (cases pair) (auto simp: validate_overlay_content_def bind_result_Inr_iff)
qed

lemma accepted_content: "validate_overlay_content L Y t content sha = Inr a \<Longrightarrow> oa_content a = content"
  using accepted_parts [of L Y t content sha a] by auto

text \<open>
  C40: An overlay that is accepted has the checksum given for it and mounts, into exactly the services of the target,
  the two directories of the baseline or of one release, the directory of the DAGs read-only, that of dbt
  read-only for a release, and nothing else; a release has its own artifact root; and the
  artifact names the kind and the commit of what is mounted.
\<close>

theorem accepted_overlay_mounts_one_release:
  assumes "validate_overlay_content L Y t content sha = Inr a"
  shows "oa_content a = content \<and> oa_sha256 a = sha \<and> sha256_hex L content = sha
    \<and> oa_kind a = overlay_kind (oa_candidate_sha a) \<and> (\<forall>c. oa_candidate_sha a = Some c \<longrightarrow> lower_hex 40 c)
    \<and> (\<exists>doc services. yl_load Y content = Inr (PDict doc) \<and> has_keys [''services''] doc
        \<and> dict_get ''services'' doc = PDict services \<and> set (map fst services) = set (dt_airflow_code_services t)
        \<and> (\<forall>sb \<in> set services. service_allowed t (oa_candidate_sha a) sb))"
proof -
  obtain parsed services pair release where parts: "sha256_hex L content = sha" "parse_strict Y content = Inr parsed"
    "overlay_services t parsed = Inr services" "fold_result (shared_pair t) services None = Inr (Some pair)"
    "overlay_pair_kind t pair = Some release" "\<exists>us. traverse (service_matches release) (map snd services) = Inr us"
    "a = \<lparr>oa_kind = overlay_kind release, oa_candidate_sha = release, oa_content = content, oa_sha256 = sha\<rparr>"
    using accepted_parts [OF assms] by blast
  have "yl_load Y content = Inr parsed"
    using parts(2) by (auto simp: parse_strict_def bind_result_Inr_iff try_except_Inr_iff split: if_splits option.splits)
  moreover obtain doc where doc: "parsed = PDict doc" "has_keys [''services''] doc" "dict_get ''services'' doc = PDict services"
    "set (map fst services) = set (dt_airflow_code_services t)"
    using parts(3) by (auto simp: overlay_services_def split: pyobj.splits if_splits)
  moreover have "service_allowed t release sb" if sb: "sb \<in> set services" for sb
  proof -
    obtain b dags dbt where b: "snd sb = PDict b" "dict_get ''volumes'' b = PList [dags, dbt]"
      "volume_source dags ''/opt/airflow/dags'' = Inr (fst pair)" "volume_source dbt ''/opt/airflow/dbt'' = Inr (snd pair)"
      and service: "fst sb \<notin> set (dt_forbidden_data_services t)" "\<not> is_init_service (fst sb)" "service_name (fst sb)"
      using shared_pair_fold [OF parts(4)] sb service_pair_Inr by blast
    obtain d d' where d: "dags = PDict d" "dbt = PDict d'" using b(3,4) volume_source_Inr by blast
    have "service_matches release (PDict b) = Inr ()"
      using parts(6) sb b(1) by (force simp: traverse_Inr_iff list_all2_conv_all_nth in_set_conv_nth)
    note matches = service_matches_Inr [OF this b(2) [unfolded d]]
    have "pair = overlay_sources t release" using overlay_pair_kind_Some [OF parts(5)] by blast
    then show ?thesis
      using b(1,2) d matches service volume_source_Inr [OF b(3)] volume_source_Inr [OF b(4)] doc(4) sb
      by (auto simp: service_allowed_def volume_is_def)
  qed
  ultimately show ?thesis using parts(1,7) overlay_pair_kind_Some [OF parts(5)] by auto
qed

section \<open>What is rendered is accepted\<close>

text \<open>Texts that need no quoting beyond that of any string, and what is expected of the library for them.\<close>

definition yaml_char :: "char \<Rightarrow> bool" where
  "yaml_char c \<longleftrightarrow> graphic c \<and> c \<notin> {CHR 0x26, CHR 0x2A}"

definition yaml_plain :: "string \<Rightarrow> bool" where
  "yaml_plain s \<longleftrightarrow> list_all (\<lambda>c. yaml_char c \<and> c \<notin> {CHR 0x22, CHR 0x5C}) s"

definition yaml_written :: "yaml_lib \<Rightarrow> pyobj \<Rightarrow> bool" where
  "yaml_written Y v \<longleftrightarrow>
     (\<exists>s n. yl_dump Y v = s @ [CHR 0x0A] \<and> utf8_text (s @ [CHR 0x0A]) \<and> set s \<inter> {CHR 0x0D, CHR 0x26, CHR 0x2A} = {}
        \<and> yl_compose Y (s @ [CHR 0x0A]) = Inr (Some n) \<and> walk_nodes n = Inr () \<and> yl_load Y (s @ [CHR 0x0A]) = Inr v)"

locale overlay_yaml =
  fixes Y :: yaml_lib
  assumes overlay_written: "list_all yaml_plain (dags # dbt # services) \<Longrightarrow> (\<And>sha. release = Some sha \<Longrightarrow> yaml_plain sha)
    \<Longrightarrow> yaml_written Y (overlay_document release services dags dbt)"
begin

lemma parse_written:
  assumes "yaml_written Y v" shows "parse_strict Y (yl_dump Y v) = Inr v"
  using assms by (auto simp: yaml_written_def parse_strict_def is_suffix_def)

end

text \<open>A target whose services and release directories the validation accepts.\<close>

definition overlay_ready :: "deploy_target \<Rightarrow> string \<Rightarrow> bool" where
  "overlay_ready t sha \<longleftrightarrow>
     dt_airflow_code_services t \<noteq> []
     \<and> list_all (\<lambda>s. service_name s \<and> \<not> is_init_service s \<and> \<not> names_credential s \<and> s \<notin> set (dt_forbidden_data_services t))
         (dt_airflow_code_services t)
     \<and> yaml_plain (dt_runtime_root t)
     \<and> list_all (\<lambda>s. absolute_clean s \<and> \<not> names_credential s)
         [fst (overlay_sources t (Some sha)), snd (overlay_sources t (Some sha))]
     \<and> \<not> names_credential (''/opt/airflow/logs/weather-dbt/releases/'' @ sha)
     \<and> overlay_sources t (Some sha) \<noteq> overlay_sources t None"

lemma plain_letters: "yaml_plain alnum" "yaml_plain ''_.-''" "yaml_plain ''0123456789abcdef''"
  by (simp_all add: yaml_plain_def yaml_char_def alnum_def graphic_def)

lemma yaml_plain_chars: "yaml_plain u \<Longrightarrow> list_all (char_in u) s \<Longrightarrow> yaml_plain s"
  unfolding yaml_plain_def list_all_iff char_in_def by blast

lemma service_name_plain:
  assumes "service_name s" shows "yaml_plain s"
proof -
  have "list_all (char_in (alnum @ ''_.-'')) s"
    using assms unfolding service_name_def list_all_iff char_in_def set_append by (cases s) auto
  moreover have "yaml_plain (alnum @ ''_.-'')" using plain_letters(1,2) by (simp only: yaml_plain_def list_all_append)
  ultimately show ?thesis using yaml_plain_chars by blast
qed

lemma lower_hex_plain: "lower_hex n s \<Longrightarrow> yaml_plain s"
  unfolding lower_hex_def using yaml_plain_chars [OF plain_letters(3)] by blast

lemma path_string_plain:
  assumes "yaml_plain s" shows "path_string s = s"
proof -
  have "\<And>c. c \<in> set s \<Longrightarrow> (if c = CHR 0x5C then CHR ''/'' else c) = c"
    using assms unfolding yaml_plain_def list_all_iff by simp
  then show ?thesis unfolding path_string_def by (rule map_idI)
qed

lemma path_string_Cons [simp]: "path_string (c # s) = (if c = CHR 0x5C then CHR ''/'' else c) # path_string s"
  by (simp add: path_string_def)

lemma path_string_append [simp]: "path_string (a @ b) = path_string a @ path_string b"
  by (simp add: path_string_def)

lemma yaml_plain_append [simp]: "yaml_plain (a @ b) \<longleftrightarrow> yaml_plain a \<and> yaml_plain b"
  by (simp add: yaml_plain_def)

lemma yaml_plain_Nil [simp]: "yaml_plain []"
  by (simp add: yaml_plain_def)

lemma yaml_plain_Cons: "yaml_plain (c # s) \<longleftrightarrow> yaml_char c \<and> c \<notin> {CHR 0x22, CHR 0x5C} \<and> yaml_plain s"
  by (simp add: yaml_plain_def)

lemma overlay_sources_kind:
  assumes "lower_hex 40 sha" "overlay_sources t (Some sha) \<noteq> overlay_sources t None"
  shows "overlay_pair_kind t (overlay_sources t (Some sha)) = Some (Some sha)"
proof -
  have "length sha = 40" using assms(1) by (simp add: lower_hex_def)
  then show ?thesis using assms by (simp add: overlay_pair_kind_def overlay_sources_def Let_def is_prefix_iff)
qed

lemma overlay_volume_source:
  assumes "absolute_clean src" "\<not> names_credential src"
  shows "volume_source (overlay_volume src dest r) dest = Inr src"
  using assms by (simp add: volume_source_def overlay_volume_def has_keys_def dict_get_def)

lemma service_body_pair:
  assumes "service_name s" "\<not> is_init_service s" "\<not> names_credential s" "s \<notin> set (dt_forbidden_data_services t)"
    and "absolute_clean dags" "\<not> names_credential dags" "absolute_clean dbt" "\<not> names_credential dbt"
  shows "service_pair t s (service_body release dags dbt) = Inr (dags, dbt)"
proof -
  obtain b where b: "service_body release dags dbt = PDict b"
    "dict_get ''volumes'' b = PList [overlay_volume dags ''/opt/airflow/dags'' True, overlay_volume dbt ''/opt/airflow/dbt'' (release \<noteq> None)]"
    "map_of b ''volumes'' \<noteq> None" "set (map fst b) \<subseteq> set [''volumes'', ''environment'']"
    by (cases release) (simp_all add: service_body_def dict_get_def)
  then show ?thesis using assms by (simp add: service_pair_def overlay_volume_source)
qed

lemma artifact_root_folded: "fold_case ''ASK_SEOUL_DBT_ARTIFACT_ROOT'' = ''ask_seoul_dbt_artifact_root''"
  by (simp add: lower_char_def char_of_eq_iff)

lemma release_body_matches:
  assumes "\<not> names_credential (''/opt/airflow/logs/weather-dbt/releases/'' @ sha)"
  shows "service_matches (Some sha) (service_body (Some sha) dags dbt) = Inr ()"
proof -
  have "\<not> names_credential ''ASK_SEOUL_DBT_ARTIFACT_ROOT''"
    unfolding names_credential_def artifact_root_folded by (simp add: credential_words_def)
  then have "\<not> environment_leaks (release_environment sha)" using assms by (simp add: environment_leaks_def release_environment_def)
  then show ?thesis by (simp add: service_matches_def service_body_def has_keys_def dict_get_def overlay_volume_def)
qed

lemma shared_pair_same:
  assumes "\<And>sb. sb \<in> set services \<Longrightarrow> service_pair t (fst sb) (snd sb) = Inr pair" "acc = None \<or> acc = Some pair"
  shows "fold_result (shared_pair t) services acc = Inr (if services = [] then acc else Some pair)"
  using assms
proof (induction services arbitrary: acc)
  case (Cons sb services)
  have "shared_pair t sb acc = Inr (Some pair)" using Cons.prems by (auto simp: shared_pair_def)
  then show ?case using Cons by simp
qed simp

context overlay_yaml
begin

lemma rendered_overlay_validates:
  assumes "overlay_ready t sha" "render_release_overlay L Y t (release_root t sha) sha = Inr a"
  shows "validate_overlay_content L Y t (oa_content a) (oa_sha256 a) = Inr a \<and> oa_kind a = ''release''
    \<and> oa_candidate_sha a = Some sha"
proof -
  let ?ss = "sort (dt_airflow_code_services t)" and ?src = "overlay_sources t (Some sha)"
  let ?doc = "overlay_document (Some sha) ?ss (fst ?src) (snd ?src)"
  have hex: "lower_hex 40 sha" using assms(2) by (auto simp: render_release_overlay_def split: if_splits)
  have plain: "yaml_plain (dt_runtime_root t)" "yaml_plain sha" "yaml_plain ''/releases/''" "yaml_plain ''/dags''" "yaml_plain ''/dbt''"
    using assms(1) lower_hex_plain [OF hex]
    by (simp_all add: overlay_ready_def yaml_plain_def yaml_char_def graphic_def)
  have paths: "path_string (release_root t sha @ ''/dags'') = fst ?src" "path_string (release_root t sha @ ''/dbt'') = snd ?src"
    using plain [THEN path_string_plain] by (simp_all add: release_root_def overlay_sources_def)
  have a: "a = \<lparr>oa_kind = ''release'', oa_candidate_sha = Some sha, oa_content = yl_dump Y ?doc,
      oa_sha256 = sha256_hex L (yl_dump Y ?doc)\<rparr>"
    using assms(2) paths by (auto simp: render_release_overlay_def make_artifact_def overlay_kind_def Let_def split: if_splits)
  have services: "service_name s" "\<not> is_init_service s" "\<not> names_credential s" "s \<notin> set (dt_forbidden_data_services t)"
    if "s \<in> set ?ss" for s using assms(1) that by (auto simp: overlay_ready_def list_all_iff)
  have "list_all yaml_plain (fst ?src # snd ?src # ?ss)"
    using plain plain [THEN path_string_plain] services(1) service_name_plain
    by (auto simp: list_all_iff overlay_sources_def yaml_plain_Cons yaml_char_def graphic_def)
  then have "yaml_written Y ?doc" using overlay_written plain(2) by blast
  note parsed = parse_written [OF this]
  have sources: "absolute_clean (fst ?src)" "\<not> names_credential (fst ?src)" "absolute_clean (snd ?src)" "\<not> names_credential (snd ?src)"
    using assms(1) by (simp_all add: overlay_ready_def)
  let ?sb = "map (\<lambda>s. (s, service_body (Some sha) (fst ?src) (snd ?src))) ?ss"
  have "overlay_services t ?doc = Inr ?sb"
    by (simp add: overlay_services_def overlay_document_def has_keys_def dict_get_def o_def)
  moreover have "fold_result (shared_pair t) ?sb None = Inr (Some ?src)"
  proof -
    have "service_pair t (fst sb) (snd sb) = Inr ?src" if "sb \<in> set ?sb" for sb
      using that service_body_pair [OF services sources] by auto
    moreover have "?sb \<noteq> []" using assms(1) by (simp add: overlay_ready_def flip: length_greater_0_conv)
    ultimately show ?thesis using shared_pair_same [of ?sb t ?src None] by simp
  qed
  moreover have "overlay_pair_kind t ?src = Some (Some sha)"
    using overlay_sources_kind [OF hex] assms(1) by (simp add: overlay_ready_def)
  moreover have "\<exists>us. traverse (service_matches (Some sha)) (map snd ?sb) = Inr us"
    using traverse_total [of "map snd ?sb" "service_matches (Some sha)" "\<lambda>_. ()"] release_body_matches assms(1)
    by (auto simp: overlay_ready_def)
  ultimately show ?thesis using a parsed by (auto simp: validate_overlay_content_def overlay_kind_def)
qed

end

text \<open>JSON is YAML: the overlays written as JSON in one line.\<close>

fun node_of :: "pyobj \<Rightarrow> yaml_node" where
  "node_of (PBool b) = YScalar ''tag:yaml.org,2002:bool'' False"
| "node_of (PStr s) = YScalar ''tag:yaml.org,2002:str'' False"
| "node_of (PList xs) = YSequence ''tag:yaml.org,2002:seq'' False (map node_of xs)"
| "node_of (PDict d) =
     YMapping ''tag:yaml.org,2002:map'' False
       (map (\<lambda>kv. YPair (YScalar ''tag:yaml.org,2002:str'' False) (node_of (snd kv))) d)"
| "node_of _ = YScalar ''tag:yaml.org,2002:null'' False"

definition json_yaml :: yaml_lib where
  "json_yaml =
     \<lparr>yl_dump = (\<lambda>v. render (std_lib (\<lambda>s. s)) v @ [CHR 0x0A]),
      yl_compose = (\<lambda>s. case parse_json s of None \<Rightarrow> Inl (YamlError s) | Some v \<Rightarrow> Inr (Some (node_of v))),
      yl_load = (\<lambda>s. case parse_json s of None \<Rightarrow> Inl (YamlError s) | Some v \<Rightarrow> Inr v)\<rparr>"

fun yaml_value :: "pyobj \<Rightarrow> bool" where
  "yaml_value (PBool b) = True"
| "yaml_value (PStr s) = yaml_plain s"
| "yaml_value (PList xs) = list_all yaml_value xs"
| "yaml_value (PDict d) = list_all (\<lambda>kv. yaml_plain (fst kv) \<and> yaml_value (snd kv)) d"
| "yaml_value _ = False"

lemma node_not_anchored [simp]: "\<not> node_anchored (node_of v)"
  by (cases v) simp_all

lemma walk_list_Inr: "(\<And>n. n \<in> set ns \<Longrightarrow> walk_nodes n = Inr ()) \<Longrightarrow> walk_list ns = Inr ()"
  by (induction ns) auto

lemma walk_pairs_Inr:
  "(\<And>k v. YPair k v \<in> set ps \<Longrightarrow> walk_nodes k = Inr () \<and> walk_nodes v = Inr () \<and> \<not> node_anchored v) \<Longrightarrow> walk_pairs ps = Inr ()"
proof (induction ps)
  case (Cons p ps)
  obtain k v where p: "p = YPair k v" by (cases p)
  have "walk_pairs ps = Inr ()" using Cons by auto
  then show ?case using Cons.prems [of k v] by (simp add: p)
qed simp

lemma walk_node_of: "yaml_value v \<Longrightarrow> walk_nodes (node_of v) = Inr ()"
proof (induction v rule: yaml_value.induct)
  case (3 xs)
  have "walk_list (map node_of xs) = Inr ()" using 3 by (intro walk_list_Inr) (auto simp: list_all_iff)
  then show ?case by (simp add: standard_tags_def)
next
  case (4 d)
  have "walk_pairs (map (\<lambda>kv. YPair (YScalar ''tag:yaml.org,2002:str'' False) (node_of (snd kv))) d) = Inr ()"
    using 4 by (intro walk_pairs_Inr) (auto simp: list_all_iff standard_tags_def)
  then show ?case by (simp add: standard_tags_def)
qed (simp_all add: standard_tags_def)

lemma yaml_value_plain: "yaml_value v \<Longrightarrow> plain v"
  by (induction v rule: yaml_value.induct) (auto simp: list_all_iff)

lemma json_string_chars: "yaml_plain s \<Longrightarrow> list_all yaml_char (json_string s)"
proof -
  assume s: "yaml_plain s"
  have "json_escape c = [c] \<and> yaml_char c" if "c \<in> set s" for c
  proof -
    have c: "yaml_char c" "c \<noteq> CHR 0x22" "c \<noteq> CHR 0x5C" using s that by (auto simp: yaml_plain_def list_all_iff)
    then have "33 \<le> (of_char c :: nat)" "(of_char c :: nat) \<noteq> 34" "(of_char c :: nat) \<noteq> 92"
      using of_char_escaped(1,2) [of c] by (auto simp: yaml_char_def graphic_def)
    with c(1) show ?thesis by (simp add: json_escape_def Let_def)
  qed
  then have "concat (map json_escape s) = s" "list_all yaml_char s"
    by (induction s) (auto simp: list_all_iff)
  then show ?thesis by (simp add: json_string_def yaml_char_def graphic_def)
qed

lemma yaml_syntax [simp]:
  "yaml_char CHR ''{''" "yaml_char CHR ''}''" "yaml_char CHR ''[''" "yaml_char CHR '']''" "yaml_char CHR '':''" "yaml_char CHR '',''"
  "yaml_char CHR ''t''" "yaml_char CHR ''r''" "yaml_char CHR ''u''" "yaml_char CHR ''e''" "yaml_char CHR ''f''" "yaml_char CHR ''a''"
  "yaml_char CHR ''l''" "yaml_char CHR ''s''"
  by (simp_all add: yaml_char_def graphic_def)

lemma yaml_char_ascii: "yaml_char c \<Longrightarrow> (of_char c :: nat) < 128"
  by (simp add: yaml_char_def graphic_def)

lemma yaml_char_special: "\<not> yaml_char CHR 0x0D" "\<not> yaml_char CHR 0x26" "\<not> yaml_char CHR 0x2A"
  by (simp_all add: yaml_char_def graphic_def)

lemma render_chars:
  shows "yaml_value v \<Longrightarrow> list_all yaml_char (render L v)"
    and "list_all yaml_value xs \<Longrightarrow> list_all yaml_char (render_list L xs)"
    and "list_all (\<lambda>kv. yaml_plain (fst kv) \<and> yaml_value (snd kv)) d \<Longrightarrow> list_all yaml_char (render_fields L d)"
  by (induction L v and L xs and L d rule: render_render_list_render_fields.induct)
    (simp_all add: json_string_chars)

lemma ascii_utf8_text: "list_all (\<lambda>c. (of_char c :: nat) < 128) s \<Longrightarrow> utf8_text s"
proof (induction s)
  case (Cons c s)
  then have "utf8_head (c # s) = Some (of_char c, s)" by (simp add: utf8_head_def)
  with Cons show ?case by (simp add: utf8_text.simps [of "c # s"])
qed (simp add: utf8_text.simps)

lemma json_yaml_written:
  assumes "yaml_value v" shows "yaml_written json_yaml v"
proof -
  let ?s = "render (std_lib (\<lambda>s. s)) v"
  have chars: "list_all yaml_char ?s" using render_chars(1) [OF assms] .
  have "parse_json (?s @ [CHR 0x0A]) = Some v"
    using std_line.json_loads_line [OF yaml_value_plain [OF assms], of "\<lambda>s. s"] by simp
  moreover have "utf8_text (?s @ [CHR 0x0A])"
    using chars yaml_char_ascii by (intro ascii_utf8_text) (simp add: list_all_iff)
  moreover have "set ?s \<inter> {CHR 0x0D, CHR 0x26, CHR 0x2A} = {}"
    using chars yaml_char_special unfolding list_all_iff by blast
  ultimately show ?thesis
    using walk_node_of [OF assms] by (simp add: yaml_written_def json_yaml_def)
qed

interpretation json_overlays: overlay_yaml json_yaml
proof
  fix dags dbt services release
  assume texts: "list_all yaml_plain (dags # dbt # services)" "\<And>sha. release = Some sha \<Longrightarrow> yaml_plain sha"
  have "yaml_value (service_body release dags dbt)"
    using texts
    by (cases release)
      (simp_all add: service_body_def overlay_volume_def release_environment_def yaml_plain_Cons yaml_char_def graphic_def)
  then have "yaml_value (overlay_document release services dags dbt)"
    using texts(1) by (auto simp: overlay_document_def list_all_iff yaml_plain_Cons yaml_char_def graphic_def)
  then show "yaml_written json_yaml (overlay_document release services dags dbt)" by (rule json_yaml_written)
qed

definition demo_sha40 :: string where "demo_sha40 = ''aaaaaaaaaabbbbbbbbbbccccccccccdddddddddd''"

definition demo_target :: deploy_target where
  "demo_target =
     \<lparr>dt_rollback_bytes = ''target'', dt_airflow_code_services = [''worker''], dt_forbidden_data_services = [''postgres''],
      dt_dags_host_path = ''/home/dags'', dt_dbt_host_path = ''/home/dbt'', dt_runtime_root = ''/srv'',
      dt_dag_allowlist = [''land'', ''load''], dt_writer_dag_allowlist = [''load''], dt_drain_timeout_seconds = 60,
      dt_poll_interval_seconds = 5, dt_generated_overlay_file = ''/srv/overlay.yml''\<rparr>"

definition stays_lower :: "char \<Rightarrow> bool" where
  "stays_lower c \<longleftrightarrow> (of_char c :: nat) < 65 \<or> 90 < (of_char c :: nat) \<and> (of_char c :: nat) < 128"

lemma stays_lower_special: "\<not> stays_lower CHR 0xE2" "\<not> stays_lower CHR 0xC4" "\<not> stays_lower CHR 0xC5"
  by (simp_all add: stays_lower_def)

lemma stays_lower_char: "stays_lower c \<Longrightarrow> lower_char c = c"
  unfolding lower_char_def Let_def by (rule if_not_P) (auto simp: stays_lower_def)

lemma fold_case_lower: "list_all stays_lower s \<Longrightarrow> fold_case s = s"
proof (induction s rule: fold_case.induct)
  case (2 a b c s)
  then have "a \<noteq> CHR 0xE2" "a \<noteq> CHR 0xC4" "a \<noteq> CHR 0xC5" using stays_lower_special by auto
  with 2 show ?case by (simp add: stays_lower_char)
next
  case (3 a b)
  then have "a \<noteq> CHR 0xC4" "a \<noteq> CHR 0xC5" using stays_lower_special by auto
  with 3 show ?case by (simp add: stays_lower_char)
qed (simp_all add: stays_lower_char)

definition earlier_sha40 :: string where "earlier_sha40 = ''bbbbbbbbbbaaaaaaaaaaccccccccccdddddddddd''"

lemma demo_quiet:
  assumes "s \<in> {''worker'', ''/srv/releases/'' @ sha @ ''/dags'', ''/srv/releases/'' @ sha @ ''/dbt'',
      ''/opt/airflow/logs/weather-dbt/releases/'' @ sha}" "sha \<in> {demo_sha40, earlier_sha40}"
  shows "\<not> names_credential s" "\<not> is_init_service s"
proof -
  have "fold_case s = s"
    using assms by (intro fold_case_lower) (auto simp: demo_sha40_def earlier_sha40_def stays_lower_def)
  then show "\<not> names_credential s" "\<not> is_init_service s"
    using assms unfolding names_credential_def is_init_service_def
    by (auto simp: credential_words_def demo_sha40_def earlier_sha40_def)
qed

lemma demo_overlay_ready:
  assumes "sha \<in> {demo_sha40, earlier_sha40}" shows "overlay_ready demo_target sha"
proof -
  have "service_name ''worker''" "yaml_plain ''/srv''"
    by (simp_all add: service_name_def char_in_def alnum_def yaml_plain_def yaml_char_def graphic_def)
  moreover have "absolute_clean (''/srv/releases/'' @ sha @ ''/dags'')" "absolute_clean (''/srv/releases/'' @ sha @ ''/dbt'')"
    using assms by (auto simp: absolute_clean_def drive_prefix_def demo_sha40_def earlier_sha40_def is_suffix_def alnum_def)
  moreover note demo_quiet(1) [OF _ assms, of "''worker''"] demo_quiet(2) [OF _ assms, of "''worker''"]
    demo_quiet(1) [OF _ assms, of "''/srv/releases/'' @ sha @ ''/dags''"]
    demo_quiet(1) [OF _ assms, of "''/srv/releases/'' @ sha @ ''/dbt''"]
    demo_quiet(1) [OF _ assms, of "''/opt/airflow/logs/weather-dbt/releases/'' @ sha"]
  moreover have "path_string ''/srv'' = ''/srv''" by (rule path_string_plain) fact
  ultimately show ?thesis by (simp add: overlay_ready_def demo_target_def overlay_sources_def)
qed

lemma demo_sha40_hex: "sha \<in> {demo_sha40, earlier_sha40} \<Longrightarrow> lower_hex 40 sha"
  by (auto simp: lower_hex_def demo_sha40_def earlier_sha40_def char_in_def)

lemma demo_rendered:
  assumes "sha \<in> {demo_sha40, earlier_sha40}"
  shows "\<exists>a. render_release_overlay L json_yaml demo_target (release_root demo_target sha) sha = Inr a"
proof -
  have "service_name ''worker''" "\<not> is_init_service ''worker''"
    using demo_overlay_ready [OF assms] by (simp_all add: overlay_ready_def demo_target_def)
  then show ?thesis
    using demo_sha40_hex [OF assms] by (simp add: render_release_overlay_def make_artifact_def demo_target_def Let_def)
qed

lemma accepted_overlay_mounts_one_release_witness:
  "\<exists>(a :: overlay_artifact) content. oa_content a = content
     \<and> (\<exists>doc services. yl_load json_yaml content = Inr (PDict doc) \<and> has_keys [''services''] doc
         \<and> dict_get ''services'' doc = PDict services \<and> set (map fst services) = set (dt_airflow_code_services demo_target)
         \<and> (\<forall>sb \<in> set services. service_allowed demo_target (oa_candidate_sha a) sb))"
proof -
  obtain a where a: "render_release_overlay (std_lib (\<lambda>s. s)) json_yaml demo_target (release_root demo_target demo_sha40) demo_sha40 = Inr a"
    using demo_rendered [of demo_sha40] by blast
  note accepted_overlay_mounts_one_release [OF json_overlays.rendered_overlay_validates [OF demo_overlay_ready [of demo_sha40] a, simplified, THEN conjunct1]]
  then have services: "\<exists>doc services. yl_load json_yaml (oa_content a) = Inr (PDict doc) \<and> has_keys [''services''] doc
      \<and> dict_get ''services'' doc = PDict services \<and> set (map fst services) = set (dt_airflow_code_services demo_target)
      \<and> (\<forall>sb \<in> set services. service_allowed demo_target (oa_candidate_sha a) sb)" by (elim conjE)
  show ?thesis by (rule exI [of _ a], rule exI [of _ "oa_content a"], rule conjI, rule refl, rule services)
qed

end
