(* ===== verification/Deploy_Store.thy ===== *)
theory Deploy_Store
  imports Deploy_Overlay
begin

text \<open>
  The store of the installed overlay (\<open>AtomicOverlayStore\<close> of \<open>deployment/overlay.py\<close>): an overlay is
  staged in a temporary file beside the installed one, which it replaces.  The directory maps file
  names to contents; every call of the operating system may fail, before or after its effect.
\<close>

record overlay_store =
  os_files :: files
  os_staged :: "string list"

datatype stage_fate = StageDone | StageNoFile | StageTorn
datatype install_fate = InstallDone | InstallUnread | InstallUnreplaced | InstallUnsynced

definition overlay_basename :: "deploy_target \<Rightarrow> string" where
  "overlay_basename t = last (split_on CHR ''/'' (path_string (dt_generated_overlay_file t)))"

text \<open>\<open>mkstemp\<close>: a name that no file has; here longer than all of them.\<close>

definition fresh_part :: "files \<Rightarrow> string" where
  "fresh_part fs = replicate (sum_list (map (length \<circ> fst) fs)) CHR ''x''"

definition staged_name :: "deploy_target \<Rightarrow> string \<Rightarrow> string" where
  "staged_name t part = ''.'' @ overlay_basename t @ ''.'' @ part @ ''.tmp''"

definition require_known_staged :: "deploy_target \<Rightarrow> string \<Rightarrow> overlay_store \<Rightarrow> unit result" where
  "require_known_staged t staged st =
     (if staged \<notin> set (os_staged st) then Inl (ValueError ''unknown staged overlay path'')
      else require (is_prefix (''.'' @ overlay_basename t @ ''.'') staged \<and> is_suffix ''.tmp'' staged)
             (ValueError ''staged overlay path shape mismatch''))"

definition stage_overlay ::
  "pylib \<Rightarrow> yaml_lib \<Rightarrow> deploy_target \<Rightarrow> stage_fate \<Rightarrow> overlay_artifact \<Rightarrow> overlay_store \<Rightarrow> string result \<times> overlay_store" where
  "stage_overlay L Y t fate a st =
     (case validate_overlay_content L Y t (oa_content a) (oa_sha256 a) of
        Inl e \<Rightarrow> (Inl e, st)
      | Inr _ \<Rightarrow>
          (let name = staged_name t (fresh_part (os_files st))
           in case fate of
                StageNoFile \<Rightarrow> (Inl (OSError ''mkstemp''), st)
              | StageTorn \<Rightarrow> (Inl (OSError ''write''), st)
              | StageDone \<Rightarrow>
                  (Inr name, \<lparr>os_files = dict_set name (oa_content a) (os_files st), os_staged = name # os_staged st\<rparr>)))"

definition verify_installed ::
  "pylib \<Rightarrow> yaml_lib \<Rightarrow> deploy_target \<Rightarrow> bool \<Rightarrow> overlay_artifact \<Rightarrow> overlay_store \<Rightarrow> unit result" where
  "verify_installed L Y t readable a st =
     (let failed = Inl (ValueError ''installed overlay verification failed'')
      in case (if readable then map_of (os_files st) (overlay_basename t) else None) of
           None \<Rightarrow> failed
         | Some content \<Rightarrow>
             if content \<noteq> oa_content a then failed
             else (case validate_overlay_content L Y t content (oa_sha256 a) of
                     Inl e \<Rightarrow> (case e of ValueError _ \<Rightarrow> failed | _ \<Rightarrow> Inl e)
                   | Inr v \<Rightarrow> if oa_kind v \<noteq> oa_kind a \<or> oa_candidate_sha v \<noteq> oa_candidate_sha a then failed else Inr ()))"

definition install_overlay ::
  "pylib \<Rightarrow> yaml_lib \<Rightarrow> deploy_target \<Rightarrow> install_fate \<Rightarrow> string \<Rightarrow> overlay_artifact \<Rightarrow> overlay_store
     \<Rightarrow> unit result \<times> overlay_store" where
  "install_overlay L Y t fate staged a st =
     (case require_known_staged t staged st of
        Inl e \<Rightarrow> (Inl e, st)
      | Inr _ \<Rightarrow>
          (case (if fate = InstallUnread then None else map_of (os_files st) staged) of
             None \<Rightarrow> (Inl (OSError ''read''), st)
           | Some content \<Rightarrow>
               if content \<noteq> oa_content a then (Inl (ValueError ''staged overlay content mismatch''), st)
               else (case validate_overlay_content L Y t content (oa_sha256 a) of
                       Inl e \<Rightarrow> (Inl e, st)
                     | Inr _ \<Rightarrow>
                         if fate = InstallUnreplaced then (Inl (OSError ''replace''), st)
                         else let st' = \<lparr>os_files = dict_set (overlay_basename t) content (file_del staged (os_files st)),
                                         os_staged = filter (\<lambda>n. n \<noteq> staged) (os_staged st)\<rparr>
                              in if fate = InstallUnsynced then (Inl (OSError ''fsync''), st')
                                 else (verify_installed L Y t True a st', st'))))"

definition restore_overlay ::
  "pylib \<Rightarrow> yaml_lib \<Rightarrow> deploy_target \<Rightarrow> stage_fate \<Rightarrow> install_fate \<Rightarrow> string \<Rightarrow> string \<Rightarrow> overlay_store
     \<Rightarrow> unit result \<times> overlay_store" where
  "restore_overlay L Y t sf fate content sha st =
     (case validate_overlay_content L Y t content sha of
        Inl e \<Rightarrow> (Inl e, st)
      | Inr a \<Rightarrow> and_then (stage_overlay L Y t sf a st) (\<lambda>staged. install_overlay L Y t fate staged a))"

definition discard_overlay :: "deploy_target \<Rightarrow> bool \<Rightarrow> string \<Rightarrow> overlay_store \<Rightarrow> unit result \<times> overlay_store" where
  "discard_overlay t works staged st =
     (case require_known_staged t staged st of
        Inl e \<Rightarrow> (Inl e, st)
      | Inr _ \<Rightarrow>
          if works
          then (Inr (), \<lparr>os_files = file_del staged (os_files st), os_staged = filter (\<lambda>n. n \<noteq> staged) (os_staged st)\<rparr>)
          else (Inl (OSError ''unlink''), st))"

section \<open>The installed overlay\<close>

definition installed_overlay :: "deploy_target \<Rightarrow> overlay_store \<Rightarrow> string option" where
  "installed_overlay t st = map_of (os_files st) (overlay_basename t)"

text \<open>No staged file is the installed one.\<close>

definition store_ok :: "deploy_target \<Rightarrow> overlay_store \<Rightarrow> bool" where
  "store_ok t st \<longleftrightarrow> overlay_basename t \<notin> set (os_staged st)"

lemma staged_name_longer: "length (overlay_basename t) < length (staged_name t part)"
  by (simp add: staged_name_def)

lemma staged_name_differs [simp]: "overlay_basename t \<noteq> staged_name t part" "staged_name t part \<noteq> overlay_basename t"
  using staged_name_longer [of t part] by auto

text \<open>The name is fresh, as \<open>mkstemp\<close> promises.\<close>

lemma length_le_fresh_part: "f \<in> set fs \<Longrightarrow> length (fst f) \<le> length (fresh_part fs)"
  by (induction fs) (auto simp: fresh_part_def)

lemma staged_name_fresh: "staged_name t (fresh_part fs) \<notin> fst ` set fs"
proof
  assume "staged_name t (fresh_part fs) \<in> fst ` set fs"
  then obtain f where "f \<in> set fs" "fst f = staged_name t (fresh_part fs)" by auto
  with length_le_fresh_part [of f fs] show False by (simp add: staged_name_def)
qed

lemma stage_overlay_installed:
  assumes "stage_overlay L Y t fate a st = (r, st')"
  shows "installed_overlay t st' = installed_overlay t st" "store_ok t st \<Longrightarrow> store_ok t st'"
proof -
  have "st' = st \<or> (\<exists>name. name \<noteq> overlay_basename t \<and> os_files st' = dict_set name (oa_content a) (os_files st)
      \<and> os_staged st' = name # os_staged st)"
    using assms staged_name_differs
    by (cases "validate_overlay_content L Y t (oa_content a) (oa_sha256 a)"; cases fate) (auto simp: stage_overlay_def Let_def)
  then show "installed_overlay t st' = installed_overlay t st" "store_ok t st \<Longrightarrow> store_ok t st'"
    by (auto simp: installed_overlay_def store_ok_def)
qed

lemma verify_installed_Inr:
  "verify_installed L Y t readable a st = Inr () \<Longrightarrow> installed_overlay t st = Some (oa_content a)"
  by (auto simp: verify_installed_def installed_overlay_def Let_def split: option.split_asm if_split_asm)

definition replaced :: "deploy_target \<Rightarrow> string \<Rightarrow> string \<Rightarrow> overlay_store \<Rightarrow> overlay_store" where
  "replaced t staged content st =
     \<lparr>os_files = dict_set (overlay_basename t) content (file_del staged (os_files st)),
      os_staged = filter (\<lambda>n. n \<noteq> staged) (os_staged st)\<rparr>"

lemma install_overlay_cases:
  assumes "install_overlay L Y t fate staged a st = (r, st')"
  shows "r \<noteq> Inr () \<and> st' = st \<or> (r \<noteq> Inr () \<or> r = verify_installed L Y t True a st') \<and> st' = replaced t staged (oa_content a) st"
proof (cases "require_known_staged t staged st")
  case (Inl e)
  with assms show ?thesis by (auto simp: install_overlay_def)
next
  case (Inr u)
  show ?thesis
  proof (cases "if fate = InstallUnread then None else map_of (os_files st) staged")
    case None
    with Inr assms show ?thesis by (auto simp: install_overlay_def)
  next
    case (Some content)
    with Inr assms show ?thesis
      by (cases "validate_overlay_content L Y t content (oa_sha256 a)")
        (auto simp: install_overlay_def Let_def replaced_def simp del: split_paired_Ex split: if_split_asm)
  qed
qed

lemma replaced_installed: "installed_overlay t (replaced t staged content st) = Some content" "store_ok t st \<Longrightarrow> store_ok t (replaced t staged content st)"
  by (simp_all add: replaced_def installed_overlay_def store_ok_def)

lemma install_overlay_installed:
  assumes "install_overlay L Y t fate staged a st = (r, st')" "store_ok t st"
  shows "r = Inr () \<Longrightarrow> installed_overlay t st' = Some (oa_content a)" and "store_ok t st'"
  using install_overlay_cases [OF assms(1)] replaced_installed assms(2) by auto

lemma restore_overlay_installed:
  assumes "restore_overlay L Y t sf fate content sha st = (r, st')" "store_ok t st"
  shows "r = Inr () \<Longrightarrow> installed_overlay t st' = Some content" and "store_ok t st'"
proof -
  have "(r = Inr () \<longrightarrow> installed_overlay t st' = Some content) \<and> store_ok t st'"
  proof (cases "validate_overlay_content L Y t content sha")
    case (Inl e)
    with assms show ?thesis by (auto simp: restore_overlay_def)
  next
    case (Inr a)
    then have a: "oa_content a = content" using accepted_content [OF Inr] by simp
    obtain q u where staged: "stage_overlay L Y t sf a st = (q, u)" by force
    show ?thesis
    proof (cases q)
      case (Inl e)
      with assms Inr staged stage_overlay_installed(2) [OF staged] show ?thesis by (auto simp: restore_overlay_def)
    next
      fix name assume q: "q = Inr name"
      have "install_overlay L Y t fate name a u = (r, st')"
        using assms(1) Inr staged q by (simp add: restore_overlay_def)
      from install_overlay_installed [OF this stage_overlay_installed(2) [OF staged assms(2)]] a
      show ?thesis by simp
    qed
  qed
  then show "r = Inr () \<Longrightarrow> installed_overlay t st' = Some content" "store_ok t st'" by simp_all
qed

text \<open>Whatever fails, the installed overlay is the one of before or the new one.\<close>

lemma install_overlay_either:
  assumes "install_overlay L Y t fate staged a st = (r, st')"
  shows "installed_overlay t st' \<in> {installed_overlay t st, Some (oa_content a)}"
  using install_overlay_cases [OF assms] replaced_installed(1) by auto

lemma restore_overlay_either:
  assumes "restore_overlay L Y t sf fate content sha st = (r, st')"
  shows "installed_overlay t st' \<in> {installed_overlay t st, Some content}"
proof (cases "validate_overlay_content L Y t content sha")
  case (Inr a)
  obtain q u where staged: "stage_overlay L Y t sf a st = (q, u)" by force
  note u = stage_overlay_installed(1) [OF staged]
  show ?thesis
  proof (cases q)
    case (Inr name)
    then have "install_overlay L Y t fate name a u = (r, st')"
      using assms staged \<open>validate_overlay_content L Y t content sha = Inr a\<close> by (simp add: restore_overlay_def)
    from install_overlay_either [OF this] u show ?thesis using accepted_content [OF \<open>validate_overlay_content L Y t content sha = Inr a\<close>] by simp
  qed (use assms staged u Inr in \<open>auto simp: restore_overlay_def\<close>)
qed (use assms in \<open>auto simp: restore_overlay_def\<close>)

lemma discard_overlay_installed:
  assumes "discard_overlay t works staged st = (r, st')" "store_ok t st"
  shows "installed_overlay t st' = installed_overlay t st" and "store_ok t st'"
proof -
  have "installed_overlay t st' = installed_overlay t st \<and> store_ok t st'"
    using assms by (auto simp: discard_overlay_def store_ok_def installed_overlay_def require_known_staged_def map_of_file_del
        split: sum.splits if_splits)
  then show "installed_overlay t st' = installed_overlay t st" "store_ok t st'" by simp_all
qed

end
