(* ===== verification/Py_Program.thy ===== *)
theory Py_Program
  imports Py_Base
begin

text \<open>
  Programs on a state: a run may not return (\<open>None\<close>), and it ends with a result, or an exception, in
  the state it leaves.  What a run ends in is proved with weakest preconditions for total correctness.
\<close>

type_synonym ('a, 's) program = "'s \<Rightarrow> ('a result \<times> 's) option"

definition give :: "'a \<Rightarrow> ('a, 's) program" where
  "give x = (\<lambda>s. Some (Inr x, s))"

definition raising :: "pyexc \<Rightarrow> ('a, 's) program" where
  "raising e = (\<lambda>s. Some (Inl e, s))"

definition call :: "('s \<Rightarrow> 'a result \<times> 's) \<Rightarrow> ('a, 's) program" where
  "call f = (\<lambda>s. Some (f s))"

definition attempt :: "('a, 's) program \<Rightarrow> (pyexc \<Rightarrow> ('b, 's) program) \<Rightarrow> ('a \<Rightarrow> ('b, 's) program) \<Rightarrow> ('b, 's) program" where
  "attempt m h k =
     (\<lambda>s. case m s of None \<Rightarrow> None | Some (Inl e, s') \<Rightarrow> h e s' | Some (Inr x, s') \<Rightarrow> k x s')"

definition seq :: "('a, 's) program \<Rightarrow> ('a \<Rightarrow> ('b, 's) program) \<Rightarrow> ('b, 's) program" where
  "seq m k = attempt m raising k"

definition handling :: "('a, 's) program \<Rightarrow> (pyexc \<Rightarrow> ('a, 's) program) \<Rightarrow> ('a, 's) program" where
  "handling m h = attempt m h give"

definition of_result :: "'a result \<Rightarrow> ('a, 's) program" where
  "of_result r = (\<lambda>s. Some (r, s))"

fun each_of :: "('a \<Rightarrow> (unit, 's) program) \<Rightarrow> 'a list \<Rightarrow> (unit, 's) program" where
  "each_of f [] = give ()"
| "each_of f (x # xs) = seq (f x) (\<lambda>_. each_of f xs)"

definition wp :: "('a, 's) program \<Rightarrow> ('a result \<Rightarrow> 's \<Rightarrow> bool) \<Rightarrow> 's \<Rightarrow> bool" where
  "wp m Q s \<longleftrightarrow> (case m s of None \<Rightarrow> False | Some (r, s') \<Rightarrow> Q r s')"

named_theorems wp_simps

lemma wp_give [wp_simps]: "wp (give x) Q s \<longleftrightarrow> Q (Inr x) s"
  by (simp add: wp_def give_def)

lemma wp_raising [wp_simps]: "wp (raising e) Q s \<longleftrightarrow> Q (Inl e) s"
  by (simp add: wp_def raising_def)

lemma wp_of_result [wp_simps]: "wp (of_result r) Q s \<longleftrightarrow> Q r s"
  by (simp add: wp_def of_result_def)

lemma wp_call [wp_simps]: "wp (call f) Q s \<longleftrightarrow> (\<forall>r s'. f s = (r, s') \<longrightarrow> Q r s')"
  by (auto simp: wp_def call_def split: prod.splits)

lemma wp_attempt [wp_simps]:
  "wp (attempt m h k) Q s \<longleftrightarrow> wp m (\<lambda>r s'. case r of Inl e \<Rightarrow> wp (h e) Q s' | Inr x \<Rightarrow> wp (k x) Q s') s"
  by (auto simp: wp_def attempt_def split: option.splits prod.splits sum.splits)

lemma wp_seq [wp_simps]:
  "wp (seq m k) Q s \<longleftrightarrow> wp m (\<lambda>r s'. case r of Inl e \<Rightarrow> Q (Inl e) s' | Inr x \<Rightarrow> wp (k x) Q s') s"
  by (simp add: seq_def wp_attempt wp_raising cong: sum.case_cong)

lemma wp_handling [wp_simps]:
  "wp (handling m h) Q s \<longleftrightarrow> wp m (\<lambda>r s'. case r of Inl e \<Rightarrow> wp (h e) Q s' | Inr x \<Rightarrow> Q (Inr x) s') s"
  by (simp add: handling_def wp_attempt wp_give cong: sum.case_cong)

lemma wp_if [wp_simps]: "wp (if b then m else m') Q s \<longleftrightarrow> (if b then wp m Q s else wp m' Q s)"
  by simp

lemma wp_mono: "wp m Q s \<Longrightarrow> (\<And>r s'. Q r s' \<Longrightarrow> R r s') \<Longrightarrow> wp m R s"
  by (auto simp: wp_def split: option.splits)

text \<open>How a run goes on after what is known of its first part.\<close>

lemma wp_seqI:
  assumes "wp m Q s" "\<And>e s'. Q (Inl e) s' \<Longrightarrow> R (Inl e) s'" "\<And>x s'. Q (Inr x) s' \<Longrightarrow> wp (k x) R s'"
  shows "wp (seq m k) R s"
  unfolding wp_seq by (rule wp_mono [OF assms(1)]) (auto split: sum.splits intro: assms(2,3))

lemma wp_attemptI:
  assumes "wp m Q s" "\<And>e s'. Q (Inl e) s' \<Longrightarrow> wp (h e) R s'" "\<And>x s'. Q (Inr x) s' \<Longrightarrow> wp (k x) R s'"
  shows "wp (attempt m h k) R s"
  unfolding wp_attempt by (rule wp_mono [OF assms(1)]) (auto split: sum.splits intro: assms(2,3))

lemma wp_handlingI:
  assumes "wp m Q s" "\<And>e s'. Q (Inl e) s' \<Longrightarrow> wp (h e) R s'" "\<And>x s'. Q (Inr x) s' \<Longrightarrow> R (Inr x) s'"
  shows "wp (handling m h) R s"
  unfolding handling_def by (rule wp_attemptI [OF assms(1,2)]) (simp_all add: wp_give assms(3))

lemma wp_callI: "(\<And>r s'. f s = (r, s') \<Longrightarrow> Q r s') \<Longrightarrow> wp (call f) Q s"
  by (simp add: wp_call)

text \<open>A loop over a list keeps what its steps keep.\<close>

lemma wp_each_of:
  assumes "I s" "\<And>x s. x \<in> set xs \<Longrightarrow> I s \<Longrightarrow> wp (f x) (\<lambda>_. I) s"
  shows "wp (each_of f xs) (\<lambda>_. I) s"
  using assms
proof (induction xs arbitrary: s)
  case (Cons x xs)
  have "wp (f x) (\<lambda>_. I) s" using Cons.prems by simp
  then have "wp (seq (f x) (\<lambda>_. each_of f xs)) (\<lambda>_. I) s" by (rule wp_seqI) (use Cons in auto)
  then show ?case by simp
qed (simp add: wp_give)

lemma wp_Some: "wp m Q s \<Longrightarrow> \<exists>r s'. m s = Some (r, s') \<and> Q r s'"
  by (auto simp: wp_def split: option.splits)

end
