(* ===== verification/Deploy_Orchestrator.thy ===== *)
theory Deploy_Orchestrator
  imports Deploy_Store Py_Program
begin

text \<open>
  The deployment of a release (\<open>deployment/main_orchestrator.py\<close>): the writers are drained, every DAG is
  paused, the overlay of the release is installed and its services redeployed; whatever fails after
  the installation is rolled back to the last good overlay, and what cannot be rolled back leaves every
  DAG paused.  The adapters (\<open>deployment/adapters.py\<close>) are a record of operations on a state.
\<close>

section \<open>Adapters\<close>

record main_identity =
  mi_repository :: string
  mi_workflow_ref :: string
  mi_workflow_sha :: string
  mi_source_run_id :: int
  mi_checks :: "(string \<times> string \<times> int) list"

text \<open>A count that is not \<open>WriterRunCounts\<close>, or a checkout that is not a path, is \<open>None\<close>.\<close>

record 's deploy_ports =
  dp_acquire_lock :: "string \<Rightarrow> 's \<Rightarrow> unit result \<times> 's"
  dp_release_lock :: "'s \<Rightarrow> unit result \<times> 's"
  dp_already_successful :: "string \<Rightarrow> 's \<Rightarrow> bool result \<times> 's"
  dp_previous_success :: "string \<Rightarrow> 's \<Rightarrow> deployment_record option result \<times> 's"
  dp_baseline :: "string \<Rightarrow> 's \<Rightarrow> baseline_record option result \<times> 's"
  dp_begin :: "deployment_record \<Rightarrow> 's \<Rightarrow> unit result \<times> 's"
  dp_complete :: "deployment_record \<Rightarrow> 's \<Rightarrow> unit result \<times> 's"
  dp_capture_pause_state :: "string list \<Rightarrow> 's \<Rightarrow> pyobj result \<times> 's"
  dp_writer_run_counts :: "string list \<Rightarrow> 's \<Rightarrow> writer_run_counts option result \<times> 's"
  dp_pause_dag :: "string \<Rightarrow> 's \<Rightarrow> unit result \<times> 's"
  dp_unpause_dag :: "string \<Rightarrow> 's \<Rightarrow> unit result \<times> 's"
  dp_detached_checkout :: "string \<Rightarrow> string \<Rightarrow> string \<Rightarrow> 's \<Rightarrow> string option result \<times> 's"
  dp_stage :: "overlay_artifact \<Rightarrow> 's \<Rightarrow> string result \<times> 's"
  dp_install :: "string \<Rightarrow> overlay_artifact \<Rightarrow> 's \<Rightarrow> unit result \<times> 's"
  dp_verify_installed :: "overlay_artifact \<Rightarrow> 's \<Rightarrow> unit result \<times> 's"
  dp_restore :: "string \<Rightarrow> string \<Rightarrow> 's \<Rightarrow> unit result \<times> 's"
  dp_discard :: "string \<Rightarrow> 's \<Rightarrow> unit result \<times> 's"
  dp_validate_candidate :: "string \<Rightarrow> 's \<Rightarrow> unit result \<times> 's"
  dp_deploy_code_services :: "string \<Rightarrow> string list \<Rightarrow> 's \<Rightarrow> unit result \<times> 's"
  dp_read_health :: "overlay_artifact \<Rightarrow> 's \<Rightarrow> string result \<times> 's"
  dp_utc_now :: "'s \<Rightarrow> string result \<times> 's"
  dp_monotonic :: "'s \<Rightarrow> rat result \<times> 's"
  dp_sleep :: "rat \<Rightarrow> 's \<Rightarrow> unit result \<times> 's"

definition safe_categories :: "string list" where
  "safe_categories =
     [''main-deploy-lock-failed'', ''main-deploy-ledger-failed'', ''main-deploy-rollback-unavailable'',
      ''main-deploy-rollback-candidate-invalid'', ''main-deploy-snapshot-invalid'', ''main-deploy-pause-verification-failed'',
      ''main-deploy-writer-counts-invalid'', ''main-deploy-drain-timeout'', ''main-deploy-drain-failed'',
      ''main-deploy-checkout-failed'', ''main-deploy-candidate-stage-failed'', ''main-deploy-candidate-validation-failed'',
      ''main-deploy-failed'', ''main-deploy-rolled-back'', ''main-deploy-rollback-failed'', ''main-deploy-pause-state-unverified'']"

definition main_error :: "string \<Rightarrow> pyexc" where
  "main_error category = MainDeploymentError (if category \<in> set safe_categories then category else ''main-deploy-failed'')"

fun failure_category :: "pyexc \<Rightarrow> string" where
  "failure_category (StageFailure c) = c"
| "failure_category _ = ''main-deploy-failed''"

section \<open>The candidate of a rollback\<close>

definition decode_overlay :: "string \<Rightarrow> string result" where
  "decode_overlay b64 = (case b64_decode b64 of None \<Rightarrow> Inl (ValueError ''invalid base64'') | Some content \<Rightarrow> Inr content)"

definition timestamp_required :: "string \<Rightarrow> unit result" where
  "timestamp_required v = require (utc_timestamp v) (ValueError ''invalid timestamp'')"

definition candidate_invalid :: "pyexc \<Rightarrow> overlay_artifact result" where
  "candidate_invalid e = Inl (main_error ''main-deploy-rollback-candidate-invalid'')"

definition validate_previous ::
  "pylib \<Rightarrow> yaml_lib \<Rightarrow> deployment_record \<Rightarrow> main_identity \<Rightarrow> deploy_target \<Rightarrow> string \<Rightarrow> overlay_artifact result" where
  "validate_previous L Y r identity t fp =
     try_except
       (case (dr_completed_at r, dr_overlay_content_b64 r, dr_overlay_sha256 r) of
          (Some completed, Some b64, Some sha) \<Rightarrow>
            if dr_schema_version r \<notin> {deployment_schema_v1, deployment_schema_v2}
               \<or> dr_repository r \<noteq> mi_repository identity \<or> dr_target_fingerprint r \<noteq> fp
               \<or> dr_candidate_sha r = mi_workflow_sha identity \<or> dr_outcome r \<noteq> OutcomeSuccess \<or> dr_health r \<noteq> Some ''passed''
            then Inl (ValueError ''previous'')
            else bind_result (timestamp_required (dr_started_at r)) (\<lambda>_.
                 bind_result (timestamp_required completed) (\<lambda>_.
                 bind_result (deployment_id L (dr_repository r) (dr_candidate_sha r) fp) (\<lambda>i.
                 if dr_deployment_id r \<noteq> i then Inl (ValueError ''previous'')
                 else bind_result (decode_overlay b64) (\<lambda>content.
                      bind_result (validate_overlay_content L Y t content sha) (\<lambda>a.
                      if oa_kind a \<noteq> ''release'' \<or> oa_candidate_sha a \<noteq> Some (dr_candidate_sha r)
                      then Inl (ValueError ''previous'') else Inr a)))))
        | _ \<Rightarrow> Inl (ValueError ''previous'')) (\<lambda>_. True) candidate_invalid"

definition validate_baseline :: "pylib \<Rightarrow> yaml_lib \<Rightarrow> baseline_record \<Rightarrow> deploy_target \<Rightarrow> string \<Rightarrow> overlay_artifact result" where
  "validate_baseline L Y r t fp =
     try_except
       (if br_schema_version r \<noteq> baseline_schema_version \<or> br_baseline_id r \<noteq> ''baseline://existing-local''
           \<or> br_target_fingerprint r \<noteq> fp \<or> br_rehearsal r \<noteq> ''passed''
        then Inl (ValueError ''baseline'')
        else bind_result (timestamp_required (br_captured_at r)) (\<lambda>_.
             bind_result (decode_overlay (br_overlay_content_b64 r)) (\<lambda>content.
             bind_result (validate_overlay_content L Y t content (br_overlay_sha256 r)) (\<lambda>a.
             if oa_kind a \<noteq> ''baseline'' \<or> oa_candidate_sha a \<noteq> None then Inl (ValueError ''baseline'') else Inr a))))
       (\<lambda>_. True) candidate_invalid"

definition rollback_candidate ::
  "'s deploy_ports \<Rightarrow> pylib \<Rightarrow> yaml_lib \<Rightarrow> main_identity \<Rightarrow> deploy_target \<Rightarrow> string \<Rightarrow> (overlay_artifact, 's) program" where
  "rollback_candidate P L Y identity t fp =
     seq (call (dp_previous_success P fp)) (\<lambda>previous.
     case previous of
       Some r \<Rightarrow> of_result (validate_previous L Y r identity t fp)
     | None \<Rightarrow>
         seq (call (dp_baseline P fp)) (\<lambda>baseline.
         case baseline of
           None \<Rightarrow> raising (main_error ''main-deploy-rollback-unavailable'')
         | Some b \<Rightarrow> of_result (validate_baseline L Y b t fp)))"

section \<open>Pausing and draining\<close>

definition pause_snapshot :: "pyobj \<Rightarrow> string list \<Rightarrow> (string \<times> bool) list result" where
  "pause_snapshot v dags =
     (case v of
        PDict d \<Rightarrow>
          if set (map fst d) = set dags \<and> list_all (\<lambda>i. \<exists>b \<in> {True, False}. dict_get i d = PBool b) dags
          then Inr (map (\<lambda>i. (i, dict_get i d = PBool True)) dags)
          else Inl (main_error ''main-deploy-snapshot-invalid'')
      | _ \<Rightarrow> Inl (main_error ''main-deploy-snapshot-invalid''))"

definition readback_matches :: "pyobj \<Rightarrow> string list \<Rightarrow> (string \<times> bool) list \<Rightarrow> bool" where
  "readback_matches v dags expected =
     (case v of
        PDict d \<Rightarrow>
          set (map fst d) = set dags
          \<and> list_all (\<lambda>i. case dict_get i d of PBool b \<Rightarrow> map_of expected i = Some b | _ \<Rightarrow> False) dags
      | _ \<Rightarrow> False)"

definition pause_state_matches :: "'s deploy_ports \<Rightarrow> string list \<Rightarrow> (string \<times> bool) list \<Rightarrow> (bool, 's) program" where
  "pause_state_matches P dags expected =
     attempt (call (dp_capture_pause_state P dags)) (\<lambda>_. give False) (\<lambda>v. give (readback_matches v dags expected))"

definition all_paused :: "string list \<Rightarrow> (string \<times> bool) list" where
  "all_paused dags = map (\<lambda>i. (i, True)) dags"

definition sorted_dags :: "deploy_target \<Rightarrow> string list" where
  "sorted_dags t = sort (dt_dag_allowlist t)"

definition pause_all :: "'s deploy_ports \<Rightarrow> string list \<Rightarrow> (unit, 's) program" where
  "pause_all P dags =
     seq (handling (each_of (\<lambda>i. call (dp_pause_dag P i)) dags) (\<lambda>_. raising (StageFailure ''main-deploy-failed''))) (\<lambda>_.
     seq (pause_state_matches P dags (all_paused dags)) (\<lambda>ok.
     if ok then give () else raising (StageFailure ''main-deploy-pause-verification-failed'')))"

text \<open>The loop of \<open>_drain\<close>; without fuel it has not returned.\<close>

fun drain_loop :: "'s deploy_ports \<Rightarrow> deploy_target \<Rightarrow> rat \<Rightarrow> bool \<Rightarrow> nat \<Rightarrow> (unit, 's) program" where
  "drain_loop P t deadline first_poll 0 = (\<lambda>s. None)"
| "drain_loop P t deadline first_poll (Suc fuel) =
     seq (if first_poll then give False else seq (call (dp_monotonic P)) (\<lambda>now. give (deadline \<le> now))) (\<lambda>late.
     if late then raising (StageFailure ''main-deploy-drain-timeout'')
     else seq (call (dp_writer_run_counts P (sort (dt_writer_dag_allowlist t)))) (\<lambda>counts.
          case counts of
            None \<Rightarrow> raising (StageFailure ''main-deploy-writer-counts-invalid'')
          | Some c \<Rightarrow>
              if wc_running c = 0 \<and> wc_queued c = 0 then give ()
              else seq (call (dp_monotonic P)) (\<lambda>now.
                   if deadline - now \<le> 0 then raising (StageFailure ''main-deploy-drain-timeout'')
                   else seq (call (dp_sleep P (min (of_int (dt_poll_interval_seconds t)) (deadline - now)))) (\<lambda>_.
                        drain_loop P t deadline False fuel))))"

fun drain_failure :: "pyexc \<Rightarrow> pyexc" where
  "drain_failure (StageFailure c) = StageFailure c"
| "drain_failure _ = StageFailure ''main-deploy-drain-failed''"

definition drain :: "'s deploy_ports \<Rightarrow> deploy_target \<Rightarrow> nat \<Rightarrow> (unit, 's) program" where
  "drain P t fuel =
     handling
       (seq (call (dp_monotonic P)) (\<lambda>now. drain_loop P t (now + of_int (dt_drain_timeout_seconds t)) True fuel))
       (\<lambda>e. raising (drain_failure e))"

definition restore_snapshot :: "'s deploy_ports \<Rightarrow> (string \<times> bool) list \<Rightarrow> (unit, 's) program" where
  "restore_snapshot P snapshot =
     seq (each_of (\<lambda>(i, was_paused). if was_paused then give () else call (dp_unpause_dag P i)) snapshot) (\<lambda>_.
     seq (pause_state_matches P (remdups (map fst snapshot)) snapshot) (\<lambda>ok.
     if ok then give () else raising (RuntimeError ''pause state mismatch'')))"

section \<open>Records\<close>

text \<open>What a deployment carries through its steps.\<close>

record deploy_job =
  dj_identity :: main_identity
  dj_target :: deploy_target
  dj_fingerprint :: string
  dj_id :: string

definition make_record ::
  "deploy_job \<Rightarrow> string \<Rightarrow> string option \<Rightarrow> deployment_outcome \<Rightarrow> string option \<Rightarrow> overlay_artifact option
     \<Rightarrow> terminal_category option \<Rightarrow> deployment_record" where
  "make_record j started completed out health a category =
     \<lparr>dr_schema_version = deployment_schema_v2, dr_deployment_id = dj_id j, dr_repository = mi_repository (dj_identity j),
      dr_candidate_sha = mi_workflow_sha (dj_identity j), dr_target_fingerprint = dj_fingerprint j, dr_started_at = started,
      dr_completed_at = completed, dr_outcome = out, dr_health = health,
      dr_overlay_content_b64 = map_option (\<lambda>x. b64_encode (oa_content x)) a, dr_overlay_sha256 = map_option oa_sha256 a,
      dr_terminal_category = category\<rparr>"

definition stamped :: "'s deploy_ports \<Rightarrow> (string, 's) program" where
  "stamped P = seq (call (dp_utc_now P)) (\<lambda>now. seq (of_result (timestamp_required now)) (\<lambda>_. give now))"

definition complete_as ::
  "'s deploy_ports \<Rightarrow> deploy_job \<Rightarrow> string \<Rightarrow> deployment_outcome \<Rightarrow> string option \<Rightarrow> overlay_artifact option
     \<Rightarrow> terminal_category option \<Rightarrow> (unit, 's) program" where
  "complete_as P j started out health a category =
     seq (stamped P) (\<lambda>completed. call (dp_complete P (make_record j started (Some completed) out health a category)))"

section \<open>Failures\<close>

definition fail_closed :: "'s deploy_ports \<Rightarrow> deploy_job \<Rightarrow> string \<Rightarrow> ('a, 's) program" where
  "fail_closed P j started =
     (let dags = sorted_dags (dj_target j) in
      seq (each_of (\<lambda>i. handling (call (dp_pause_dag P i)) (\<lambda>_. give ())) dags) (\<lambda>_.
      seq (pause_state_matches P dags (all_paused dags)) (\<lambda>proven.
      seq (handling (complete_as P j started OutcomeRollbackFailed (Some ''failed'') None
             (if proven then None else Some PauseStateUnverified)) (\<lambda>_. give ())) (\<lambda>_.
      raising (main_error (if proven then ''main-deploy-rollback-failed'' else ''main-deploy-pause-state-unverified''))))))"

definition fail_before_install ::
  "'s deploy_ports \<Rightarrow> deploy_job \<Rightarrow> string \<Rightarrow> (string \<times> bool) list \<Rightarrow> string option \<Rightarrow> string \<Rightarrow> ('a, 's) program" where
  "fail_before_install P j started snapshot staged category =
     seq (case staged of None \<Rightarrow> give () | Some f \<Rightarrow> handling (call (dp_discard P f)) (\<lambda>_. give ())) (\<lambda>_.
     attempt (restore_snapshot P snapshot) (\<lambda>_. fail_closed P j started) (\<lambda>_.
     attempt (complete_as P j started OutcomeFailed None None None) (\<lambda>_. raising (main_error ''main-deploy-ledger-failed'')) (\<lambda>_.
     raising (main_error category))))"

definition redeploy :: "'s deploy_ports \<Rightarrow> deploy_job \<Rightarrow> overlay_artifact \<Rightarrow> pyexc \<Rightarrow> (unit, 's) program" where
  "redeploy P j a unhealthy =
     seq (call (dp_verify_installed P a)) (\<lambda>_.
     seq (call (dp_deploy_code_services P (dt_generated_overlay_file (dj_target j))
            (sort (dt_airflow_code_services (dj_target j))))) (\<lambda>_.
     seq (call (dp_read_health P a)) (\<lambda>health. if health \<noteq> ''passed'' then raising unhealthy else give ())))"

definition rollback ::
  "'s deploy_ports \<Rightarrow> nat \<Rightarrow> deploy_job \<Rightarrow> string \<Rightarrow> (string \<times> bool) list \<Rightarrow> overlay_artifact \<Rightarrow> ('a, 's) program" where
  "rollback P fuel j started snapshot a =
     (let dags = sorted_dags (dj_target j) in
      attempt
        (seq (each_of (\<lambda>i. call (dp_pause_dag P i)) dags) (\<lambda>_.
         seq (pause_state_matches P dags (all_paused dags)) (\<lambda>ok.
         if \<not> ok then raising (RuntimeError ''pause state'')
         else seq (drain P (dj_target j) fuel) (\<lambda>_.
              seq (call (dp_restore P (oa_content a) (oa_sha256 a))) (\<lambda>_.
              seq (redeploy P j a (RuntimeError ''health'')) (\<lambda>_.
              seq (restore_snapshot P snapshot) (\<lambda>_.
              complete_as P j started OutcomeRolledBack (Some ''failed'') (Some a) None)))))))
        (\<lambda>_. fail_closed P j started) (\<lambda>_. raising (main_error ''main-deploy-rolled-back'')))"

section \<open>A deployment\<close>

definition job_checkout :: "deploy_job \<Rightarrow> string" where
  "job_checkout j = release_root (dj_target j) (mi_workflow_sha (dj_identity j))"

text \<open>Up to the staged candidate; the candidate is returned with its file.\<close>

definition prepare ::
  "'s deploy_ports \<Rightarrow> pylib \<Rightarrow> yaml_lib \<Rightarrow> nat \<Rightarrow> deploy_job \<Rightarrow> (overlay_artifact \<times> string, 's) program" where
  "prepare P L Y fuel j =
     seq (drain P (dj_target j) fuel) (\<lambda>_.
     seq (pause_all P (sorted_dags (dj_target j))) (\<lambda>_.
     seq (handling (call (dp_detached_checkout P (mi_repository (dj_identity j)) (mi_workflow_sha (dj_identity j)) (job_checkout j)))
            (\<lambda>_. raising (StageFailure ''main-deploy-checkout-failed''))) (\<lambda>checkout.
     if checkout \<noteq> Some (job_checkout j) then raising (StageFailure ''main-deploy-checkout-failed'')
     else handling
            (seq (of_result (render_release_overlay L Y (dj_target j) (job_checkout j) (mi_workflow_sha (dj_identity j)))) (\<lambda>a.
             seq (call (dp_stage P a)) (\<lambda>staged. give (a, staged))))
            (\<lambda>_. raising (StageFailure ''main-deploy-candidate-stage-failed'')))))"

definition job_result :: "deploy_job \<Rightarrow> bool \<Rightarrow> deployment_result" where
  "job_result j idempotent =
     \<lparr>de_deployment_id = dj_id j, de_outcome = OutcomeSuccess, de_health = Some ''passed'', de_idempotent = idempotent\<rparr>"

definition install_candidate ::
  "'s deploy_ports \<Rightarrow> deploy_job \<Rightarrow> string \<Rightarrow> (string \<times> bool) list \<Rightarrow> overlay_artifact \<Rightarrow> string \<Rightarrow> (deployment_result, 's) program" where
  "install_candidate P j started snapshot a staged =
     seq (call (dp_install P staged a)) (\<lambda>_.
     seq (redeploy P j a (StageFailure ''main-deploy-failed'')) (\<lambda>_.
     seq (restore_snapshot P snapshot) (\<lambda>_.
     seq (complete_as P j started OutcomeSuccess (Some ''passed'') (Some a) None) (\<lambda>_.
     give (job_result j False)))))"

text \<open>The start: nothing to do, or the candidate of a rollback; an unexpected failure is one of the ledger.\<close>

fun ledger_failure :: "pyexc \<Rightarrow> pyexc" where
  "ledger_failure (MainDeploymentError c) = MainDeploymentError c"
| "ledger_failure _ = main_error ''main-deploy-ledger-failed''"

definition find_rollback ::
  "'s deploy_ports \<Rightarrow> pylib \<Rightarrow> yaml_lib \<Rightarrow> deploy_job \<Rightarrow> (overlay_artifact option, 's) program" where
  "find_rollback P L Y j =
     handling
       (seq (call (dp_already_successful P (dj_id j))) (\<lambda>done.
        if done then give None
        else seq (rollback_candidate P L Y (dj_identity j) (dj_target j) (dj_fingerprint j)) (\<lambda>a. give (Some a))))
       (\<lambda>e. raising (ledger_failure e))"

definition begin_deployment :: "'s deploy_ports \<Rightarrow> deploy_job \<Rightarrow> (string, 's) program" where
  "begin_deployment P j =
     handling
       (seq (stamped P) (\<lambda>started.
        seq (call (dp_begin P (make_record j started None OutcomeStarted None None None))) (\<lambda>_. give started)))
       (\<lambda>_. raising (main_error ''main-deploy-ledger-failed''))"

definition deploy_locked :: "'s deploy_ports \<Rightarrow> pylib \<Rightarrow> yaml_lib \<Rightarrow> nat \<Rightarrow> deploy_job \<Rightarrow> (deployment_result, 's) program" where
  "deploy_locked P L Y fuel j =
     (let dags = sorted_dags (dj_target j) in
      seq (find_rollback P L Y j) (\<lambda>found.
      case found of
        None \<Rightarrow> give (job_result j True)
      | Some previous \<Rightarrow>
          attempt (call (dp_capture_pause_state P dags)) (\<lambda>_. raising (main_error ''main-deploy-snapshot-invalid'')) (\<lambda>raw.
          seq (of_result (pause_snapshot raw dags)) (\<lambda>snapshot.
          seq (begin_deployment P j) (\<lambda>started.
          attempt (prepare P L Y fuel j) (\<lambda>e. fail_before_install P j started snapshot None (failure_category e)) (\<lambda>(a, staged).
          attempt (call (dp_validate_candidate P staged))
            (\<lambda>_. fail_before_install P j started snapshot (Some staged) ''main-deploy-candidate-validation-failed'') (\<lambda>_.
          handling (install_candidate P j started snapshot a staged)
            (\<lambda>_. rollback P fuel j started snapshot previous))))))))"

text \<open>The lock is released whatever happens; a failure to release it replaces what happened.\<close>

definition holding_lock :: "'s deploy_ports \<Rightarrow> string \<Rightarrow> ('a, 's) program \<Rightarrow> ('a, 's) program" where
  "holding_lock P i m =
     seq (call (dp_acquire_lock P i)) (\<lambda>_.
     attempt m (\<lambda>e. seq (call (dp_release_lock P)) (\<lambda>_. raising e)) (\<lambda>r. seq (call (dp_release_lock P)) (\<lambda>_. give r)))"

fun lock_failure :: "pyexc \<Rightarrow> pyexc" where
  "lock_failure (MainDeploymentError c) = MainDeploymentError c"
| "lock_failure _ = main_error ''main-deploy-lock-failed''"

definition deploy ::
  "'s deploy_ports \<Rightarrow> pylib \<Rightarrow> yaml_lib \<Rightarrow> nat \<Rightarrow> main_identity \<Rightarrow> deploy_target \<Rightarrow> (deployment_result, 's) program" where
  "deploy P L Y fuel identity t =
     attempt (of_result (deployment_id L (mi_repository identity) (mi_workflow_sha identity) (target_fingerprint L t)))
       (\<lambda>_. raising (main_error ''main-deploy-failed'')) (\<lambda>i.
     handling
       (holding_lock P i (deploy_locked P L Y fuel
          \<lparr>dj_identity = identity, dj_target = t, dj_fingerprint = target_fingerprint L t, dj_id = i\<rparr>))
       (\<lambda>e. raising (lock_failure e)))"

end
