(* ===== verification/Deploy_Site.thy ===== *)
theory Deploy_Site
  imports Deploy_Orchestrator
begin

text \<open>
  What a deployment does to its site, whatever adapters serve it: the promises of the adapters are the
  laws of a locale, about what is seen of the site, and from them follows what a run of
  \<open>MainDeploymentOrchestrator.deploy\<close> leaves, step by step and as a whole.
\<close>

section \<open>What the adapters promise\<close>

text \<open>
  What is seen of the site: which DAGs are paused, the content of the installed overlay and of the one
  the services run, every redeployment with the DAGs paused and the overlay installed at that time, and
  the record of each deployment.
\<close>

record site_view =
  sv_paused :: "string \<Rightarrow> bool"
  sv_installed :: "string option"
  sv_served :: "string option"
  sv_history :: "((string \<Rightarrow> bool) \<times> string option) list"
  sv_recorded :: "string \<Rightarrow> deployment_record option"

type_synonym 'a view_change = "'a result \<Rightarrow> site_view \<Rightarrow> site_view \<Rightarrow> bool"

definition obeys :: "('s \<Rightarrow> bool) \<Rightarrow> ('s \<Rightarrow> site_view) \<Rightarrow> ('s \<Rightarrow> 'a result \<times> 's) \<Rightarrow> 'a view_change \<Rightarrow> bool" where
  "obeys good view f R \<longleftrightarrow> (\<forall>s r s'. good s \<longrightarrow> f s = (r, s') \<longrightarrow> good s' \<and> R r (view s) (view s'))"

definition quiet :: "'a view_change" where
  "quiet r v v' \<longleftrightarrow> v' = v"

text \<open>Nothing but the pauses, or the records, has changed.\<close>

definition pauses_only :: "site_view \<Rightarrow> site_view \<Rightarrow> bool" where
  "pauses_only v v' \<longleftrightarrow>
     sv_installed v' = sv_installed v \<and> sv_served v' = sv_served v \<and> sv_history v' = sv_history v \<and> sv_recorded v' = sv_recorded v"

definition records_only :: "site_view \<Rightarrow> site_view \<Rightarrow> bool" where
  "records_only v v' \<longleftrightarrow>
     sv_paused v' = sv_paused v \<and> sv_installed v' = sv_installed v \<and> sv_served v' = sv_served v \<and> sv_history v' = sv_history v"

definition sets_pause :: "string \<Rightarrow> bool \<Rightarrow> unit view_change" where
  "sets_pause i b r v v' \<longleftrightarrow> pauses_only v v' \<and> (r = Inr () \<longrightarrow> sv_paused v' = (sv_paused v)(i := b))"

definition reads_pause :: "pyobj view_change" where
  "reads_pause r v v' \<longleftrightarrow> v' = v \<and> (\<forall>d i b. r = Inr (PDict d) \<and> dict_get i d = PBool b \<longrightarrow> sv_paused v i = b)"

definition installs :: "string \<Rightarrow> unit view_change" where
  "installs content r v v' \<longleftrightarrow> 
     sv_paused v' = sv_paused v \<and> sv_served v' = sv_served v \<and> sv_history v' = sv_history v \<and> sv_recorded v' = sv_recorded v
     \<and> sv_installed v' \<in> {sv_installed v, Some content} \<and> (r = Inr () \<longrightarrow> sv_installed v' = Some content)"

definition verifies :: "string \<Rightarrow> unit view_change" where
  "verifies content r v v' \<longleftrightarrow> v' = v \<and> (r = Inr () \<longrightarrow> sv_installed v = Some content)"

definition redeploys :: "unit view_change" where
  "redeploys r v v' \<longleftrightarrow>
     sv_paused v' = sv_paused v \<and> sv_installed v' = sv_installed v \<and> sv_recorded v' = sv_recorded v
     \<and> sv_history v' = (sv_paused v, sv_installed v) # sv_history v
     \<and> sv_served v' \<in> {sv_served v, sv_installed v} \<and> (r = Inr () \<longrightarrow> sv_served v' = sv_installed v)"

text \<open>A record that could not be written has changed nothing that is read.\<close>

definition notes_record :: "deployment_record \<Rightarrow> unit view_change" where
  "notes_record q r v v' \<longleftrightarrow>
     records_only v v'
     \<and> (case r of Inr _ \<Rightarrow> sv_recorded v' (dr_deployment_id q) = Some q | Inl _ \<Rightarrow> sv_recorded v' = sv_recorded v)"

definition does :: "('s \<Rightarrow> bool) \<Rightarrow> ('s \<Rightarrow> site_view) \<Rightarrow> ('a, 's) program \<Rightarrow> 'a view_change \<Rightarrow> bool" where
  "does good view m R \<longleftrightarrow> (\<forall>s. good s \<longrightarrow> wp m (\<lambda>r s'. good s' \<and> R r (view s) (view s')) s)"

lemma does_mono: "does good view m R \<Longrightarrow> (\<And>r v v'. R r v v' \<Longrightarrow> S r v v') \<Longrightarrow> does good view m S"
  unfolding does_def by (auto elim!: wp_mono)

lemma does_call: "obeys good view f R \<Longrightarrow> does good view (call f) R"
  by (simp add: obeys_def does_def wp_call)

lemma does_give: "(\<And>v. R (Inr x) v v) \<Longrightarrow> does good view (give x) R"
  by (simp add: does_def wp_give)

lemma does_raising: "(\<And>v. R (Inl e) v v) \<Longrightarrow> does good view (raising e) R"
  by (simp add: does_def wp_raising)

lemma does_of_result: "(\<And>v. R r v v) \<Longrightarrow> does good view (of_result r) R"
  by (simp add: does_def wp_of_result)

text \<open>One part after another: what they do together is what the first does and then what the second does.\<close>

lemma does_attempt:
  assumes "does good view m R" "\<And>e. does good view (h e) (E e)" "\<And>x. does good view (k x) (S x)"
    and "\<And>e r v v' v''. R (Inl e) v v' \<Longrightarrow> E e r v' v'' \<Longrightarrow> T r v v''"
    and "\<And>x r v v' v''. R (Inr x) v v' \<Longrightarrow> S x r v' v'' \<Longrightarrow> T r v v''"
  shows "does good view (attempt m h k) T"
  unfolding does_def
proof (intro allI impI)
  fix s assume "good s"
  with assms(1) have "wp m (\<lambda>r s'. good s' \<and> R r (view s) (view s')) s" by (simp add: does_def)
  then show "wp (attempt m h k) (\<lambda>r s'. good s' \<and> T r (view s) (view s')) s"
  proof (rule wp_attemptI)
    fix e s' assume mid: "good s' \<and> R (Inl e) (view s) (view s')"
    with assms(2) [of e] have "wp (h e) (\<lambda>r s''. good s'' \<and> E e r (view s') (view s'')) s'" by (simp add: does_def)
    then show "wp (h e) (\<lambda>r s''. good s'' \<and> T r (view s) (view s'')) s'"
      by (rule wp_mono) (use mid assms(4) in blast)
  next
    fix x s' assume mid: "good s' \<and> R (Inr x) (view s) (view s')"
    with assms(3) [of x] have "wp (k x) (\<lambda>r s''. good s'' \<and> S x r (view s') (view s'')) s'" by (simp add: does_def)
    then show "wp (k x) (\<lambda>r s''. good s'' \<and> T r (view s) (view s'')) s'"
      by (rule wp_mono) (use mid assms(5) in blast)
  qed
qed

lemma does_seq:
  assumes "does good view m R" "\<And>x. does good view (k x) (S x)"
    and "\<And>e v v'. R (Inl e) v v' \<Longrightarrow> T (Inl e) v v'"
    and "\<And>x r v v' v''. R (Inr x) v v' \<Longrightarrow> S x r v' v'' \<Longrightarrow> T r v v''"
  shows "does good view (seq m k) T"
  unfolding seq_def
  by (rule does_attempt [OF assms(1) does_raising assms(2), where E = "\<lambda>e r v v'. r = Inl e \<and> v' = v"]) (use assms(3,4) in auto)

lemma does_handling:
  assumes "does good view m R" "\<And>e. does good view (h e) (E e)"
    and "\<And>e r v v' v''. R (Inl e) v v' \<Longrightarrow> E e r v' v'' \<Longrightarrow> T r v v''"
    and "\<And>x v v'. R (Inr x) v v' \<Longrightarrow> T (Inr x) v v'"
  shows "does good view (handling m h) T"
  unfolding handling_def
  by (rule does_attempt [OF assms(1,2) does_give, where S = "\<lambda>x r v v'. r = Inr x \<and> v' = v"]) (use assms(3,4) in auto)

section \<open>The adapters of a site\<close>

text \<open>The second part may rely on what is known of the value it gets.\<close>

lemma does_seq_if:
  assumes "does good view m R" "\<And>x v v'. R (Inr x) v v' \<Longrightarrow> does good view (k x) (S x)"
    and "\<And>e v v'. R (Inl e) v v' \<Longrightarrow> T (Inl e) v v'"
    and "\<And>x r v v' v''. R (Inr x) v v' \<Longrightarrow> S x r v' v'' \<Longrightarrow> T r v v''"
  shows "does good view (seq m k) T"
  unfolding does_def
proof (intro allI impI)
  fix s assume "good s"
  with assms(1) have "wp m (\<lambda>r s'. good s' \<and> R r (view s) (view s')) s" by (simp add: does_def)
  then show "wp (seq m k) (\<lambda>r s'. good s' \<and> T r (view s) (view s')) s"
  proof (rule wp_seqI)
    fix x s' assume mid: "good s' \<and> R (Inr x) (view s) (view s')"
    then have "wp (k x) (\<lambda>r s''. good s'' \<and> S x r (view s') (view s'')) s'"
      using assms(2) unfolding does_def by blast
    then show "wp (k x) (\<lambda>r s''. good s'' \<and> T r (view s) (view s'')) s'"
      by (rule wp_mono) (use mid assms(4) in blast)
  qed (use assms(3) in blast)
qed

text \<open>An adapter does not raise the errors of the orchestrator.\<close>

definition foreign :: "'a result \<Rightarrow> bool" where
  "foreign r \<longleftrightarrow> (\<forall>c. r \<noteq> Inl (StageFailure c) \<and> r \<noteq> Inl (MainDeploymentError c))"

locale deploy_site =
  fixes P :: "'s deploy_ports" and good :: "'s \<Rightarrow> bool" and view :: "'s \<Rightarrow> site_view" and clock :: "'s \<Rightarrow> rat"
  assumes quiet_lock: "obeys good view (dp_acquire_lock P i) quiet" "obeys good view (dp_release_lock P) quiet"
    and quiet_reads: "obeys good view (dp_already_successful P i) quiet" "obeys good view (dp_previous_success P i) quiet"
      "obeys good view (dp_baseline P i) quiet"
    and quiet_candidate: "obeys good view (dp_detached_checkout P repo sha dir) quiet" "obeys good view (dp_stage P a) quiet"
      "obeys good view (dp_discard P f) quiet" "obeys good view (dp_validate_candidate P f) quiet"
    and quiet_probes: "obeys good view (dp_read_health P a) quiet" "obeys good view (dp_utc_now P) quiet"
    and notes_begin: "obeys good view (dp_begin P q) (notes_record q)"
    and notes_complete: "obeys good view (dp_complete P q) (notes_record q)"
    and capture_reads: "obeys good view (dp_capture_pause_state P dags) reads_pause"
    and pause_sets: "obeys good view (dp_pause_dag P i) (sets_pause i True)"
    and unpause_sets: "obeys good view (dp_unpause_dag P i) (sets_pause i False)"
    and install_installs: "obeys good view (dp_install P f a) (installs (oa_content a))"
    and restore_installs: "obeys good view (dp_restore P content h) (installs content)"
    and verify_verifies: "obeys good view (dp_verify_installed P a) (verifies (oa_content a))"
    and deploy_redeploys: "obeys good view (dp_deploy_code_services P f services) redeploys"
    and foreign_lock: "dp_acquire_lock P i s = (ru, s') \<Longrightarrow> foreign ru" "dp_release_lock P s = (ru, s') \<Longrightarrow> foreign ru"
    and foreign_reads: "dp_already_successful P i s = (ra, s') \<Longrightarrow> foreign ra" "dp_previous_success P i s = (rp, s') \<Longrightarrow> foreign rp"
      "dp_baseline P i s = (rb, s') \<Longrightarrow> foreign rb"
    and monotonic_reads: "good s \<Longrightarrow> dp_monotonic P s = (rm, s') \<Longrightarrow> good s' \<and> view s' = view s \<and> clock s \<le> clock s'
      \<and> foreign rm \<and> (\<forall>x. rm = Inr x \<longrightarrow> clock s \<le> x \<and> x \<le> clock s')"
    and sleep_passes: "good s \<Longrightarrow> dp_sleep P d s = (rs, s') \<Longrightarrow> good s' \<and> view s' = view s \<and> clock s \<le> clock s'
      \<and> foreign rs \<and> (rs = Inr () \<longrightarrow> clock s + d \<le> clock s')"
    and counts_pass: "good s \<Longrightarrow> dp_writer_run_counts P ws s = (rc, s') \<Longrightarrow> good s' \<and> view s' = view s \<and> clock s \<le> clock s' \<and> foreign rc"

definition paused_as :: "(string \<times> bool) list \<Rightarrow> (string \<Rightarrow> bool) \<Rightarrow> bool" where
  "paused_as snapshot p \<longleftrightarrow> (\<forall>i \<in> fst ` set snapshot. map_of snapshot i = Some (p i))"

definition drain_categories :: "string list" where
  "drain_categories = [''main-deploy-drain-timeout'', ''main-deploy-writer-counts-invalid'', ''main-deploy-drain-failed'']"

definition drain_ends :: "unit result \<Rightarrow> bool" where
  "drain_ends r \<longleftrightarrow> (\<forall>c. r = Inl (StageFailure c) \<longrightarrow> c \<in> set drain_categories)"

lemma drain_ends_simps [simp]:
  "drain_ends (Inr u)"
  "drain_ends (Inl (StageFailure ''main-deploy-drain-timeout''))" "drain_ends (Inl (StageFailure ''main-deploy-writer-counts-invalid''))"
  by (auto simp: drain_ends_def drain_categories_def)

lemma foreign_drain_ends: "foreign (Inl e :: 'a result) \<Longrightarrow> drain_ends (Inl e)"
  by (simp add: foreign_def drain_ends_def)

definition drain_bound :: "deploy_target \<Rightarrow> nat \<Rightarrow> bool" where
  "drain_bound t fuel \<longleftrightarrow>
     0 \<le> dt_poll_interval_seconds t \<and> (\<exists>n. fuel = Suc n \<and> dt_drain_timeout_seconds t \<le> int n * dt_poll_interval_seconds t)"

lemma readback_matches_paused:
  assumes "readback_matches v dags expected" "\<forall>d i b. v = PDict d \<and> dict_get i d = PBool b \<longrightarrow> p i = b" "i \<in> set dags"
  shows "map_of expected i = Some (p i)"
proof -
  obtain d where d: "v = PDict d" and all: "\<forall>i \<in> set dags. case dict_get i d of PBool b \<Rightarrow> map_of expected i = Some b | _ \<Rightarrow> False"
    using assms(1) by (auto simp: readback_matches_def list_all_iff split: pyobj.splits)
  from all assms(3) obtain b where "dict_get i d = PBool b" "map_of expected i = Some b"
    by (fastforce split: pyobj.splits)
  with d assms(2) show ?thesis by blast
qed

context deploy_site
begin

lemma wp_monotonic:
  assumes "good s"
    and "\<And>s' e. good s' \<Longrightarrow> view s' = view s \<Longrightarrow> clock s \<le> clock s' \<Longrightarrow> foreign (Inl e :: rat result) \<Longrightarrow> Q (Inl e) s'"
    and "\<And>s' x. good s' \<Longrightarrow> view s' = view s \<Longrightarrow> clock s \<le> x \<Longrightarrow> x \<le> clock s' \<Longrightarrow> Q (Inr x) s'"
  shows "wp (call (dp_monotonic P)) Q s"
proof (rule wp_callI)
  fix r s' assume "dp_monotonic P s = (r, s')"
  from monotonic_reads [OF assms(1) this] assms(2,3) show "Q r s'" by (cases r) simp_all
qed

text \<open>One turn of the loop: it ends, or it goes on after the sleep.\<close>

lemma drain_turn:
  assumes "good s" "view s = v"
    and "\<And>s' now. good s' \<Longrightarrow> view s' = v \<Longrightarrow> clock s \<le> now \<Longrightarrow> now < deadline
      \<Longrightarrow> now + min (of_int (dt_poll_interval_seconds t)) (deadline - now) \<le> clock s'
      \<Longrightarrow> wp (drain_loop P t deadline False fuel) (\<lambda>r s'. good s' \<and> view s' = v \<and> drain_ends r) s'"
  shows "wp (drain_loop P t deadline first_poll (Suc fuel)) (\<lambda>r s'. good s' \<and> view s' = v \<and> drain_ends r) s"
proof -
  let ?Q = "\<lambda>r s'. good s' \<and> view s' = v \<and> drain_ends r"
  let ?sleep = "\<lambda>now. if deadline - now \<le> 0 then raising (StageFailure ''main-deploy-drain-timeout'')
      else seq (call (dp_sleep P (min (of_int (dt_poll_interval_seconds t)) (deadline - now)))) (\<lambda>_. drain_loop P t deadline False fuel)"
  have sleeping: "wp (?sleep now) ?Q u" if u: "good u" "view u = v" "clock s \<le> now" "now \<le> clock u" for now u
  proof (cases "deadline - now \<le> 0")
    case False
    have "wp (call (dp_sleep P (min (of_int (dt_poll_interval_seconds t)) (deadline - now))))
        (\<lambda>r s'. good s' \<and> view s' = v \<and> foreign r \<and> (r = Inr () \<longrightarrow> clock u + min (of_int (dt_poll_interval_seconds t)) (deadline - now) \<le> clock s')) u"
      by (rule wp_callI) (use sleep_passes [OF u(1)] u(2) in blast)
    then have "wp (seq (call (dp_sleep P (min (of_int (dt_poll_interval_seconds t)) (deadline - now)))) (\<lambda>_. drain_loop P t deadline False fuel)) ?Q u"
      by (rule wp_seqI) (use foreign_drain_ends in blast, rule assms(3) [of _ now], use False u(3,4) in auto)
    with False show ?thesis by simp
  qed (use u in \<open>simp add: wp_raising\<close>)
  have counting: "wp (seq (call (dp_writer_run_counts P (sort (dt_writer_dag_allowlist t)))) (\<lambda>counts.
          case counts of
            None \<Rightarrow> raising (StageFailure ''main-deploy-writer-counts-invalid'')
          | Some c \<Rightarrow> if wc_running c = 0 \<and> wc_queued c = 0 then give () else seq (call (dp_monotonic P)) ?sleep)) ?Q u"
    if u: "good u" "view u = v" "clock s \<le> clock u" for u
  proof (rule wp_seqI [OF wp_callI])
    fix r s' assume "dp_writer_run_counts P (sort (dt_writer_dag_allowlist t)) u = (r, s')"
    from counts_pass [OF u(1) this] u show "good s' \<and> view s' = v \<and> clock s \<le> clock s' \<and> foreign r" by auto
  next
    fix counts u' assume u': "good u' \<and> view u' = v \<and> clock s \<le> clock u' \<and> foreign (Inr counts :: writer_run_counts option result)"
    have "wp (seq (call (dp_monotonic P)) ?sleep) ?Q u'"
      unfolding wp_seq by (rule wp_monotonic) (use u' sleeping in \<open>auto dest: foreign_drain_ends\<close>)
    with u' show "wp (case counts of None \<Rightarrow> raising (StageFailure ''main-deploy-writer-counts-invalid'')
        | Some c \<Rightarrow> if wc_running c = 0 \<and> wc_queued c = 0 then give () else seq (call (dp_monotonic P)) ?sleep) ?Q u'"
      by (simp add: wp_raising wp_give split: option.split)
  qed (use foreign_drain_ends in blast)
  have "wp (if first_poll then give False else seq (call (dp_monotonic P)) (\<lambda>now. give (deadline \<le> now)))
      (\<lambda>r s'. good s' \<and> view s' = v \<and> clock s \<le> clock s' \<and> (\<forall>e. r = Inl e \<longrightarrow> drain_ends (Inl e))) s"
    using assms(1,2) by (auto simp: wp_give wp_seq intro!: wp_monotonic dest: foreign_drain_ends)
  then show ?thesis unfolding drain_loop.simps
    by (rule wp_seqI) (use counting in \<open>auto simp: wp_raising\<close>)
qed

lemma drain_loop_quiet:
  assumes "0 \<le> dt_poll_interval_seconds t" "good s" "view s = v"
    and "deadline - clock s \<le> of_nat n * of_int (dt_poll_interval_seconds t)"
  shows "wp (drain_loop P t deadline first_poll (Suc n)) (\<lambda>r s'. good s' \<and> view s' = v \<and> drain_ends r) s"
  using assms(2-4)
proof (induction n arbitrary: s first_poll)
  case 0
  show ?case by (rule drain_turn [OF 0(1,2)]) (use 0(3) in simp)
next
  case (Suc n)
  show ?case
  proof (rule drain_turn [OF Suc.prems(1,2)])
    fix s' now
    assume now: "clock s \<le> now" "now < deadline" "now + min (of_int (dt_poll_interval_seconds t)) (deadline - now) \<le> clock s'"
    assume s': "good s'" "view s' = v"
    have "deadline - clock s' \<le> of_nat n * of_int (dt_poll_interval_seconds t)"
    proof (cases "of_int (dt_poll_interval_seconds t) \<le> deadline - now")
      case True
      with now(1,3) Suc.prems(3) show ?thesis by (simp add: min_def algebra_simps)
    next
      case False
      with now(3) have "deadline \<le> clock s'" by (simp add: min_def)
      moreover have "0 \<le> of_nat n * (of_int (dt_poll_interval_seconds t) :: rat)" using assms(1) by simp
      ultimately show ?thesis by linarith
    qed
    with s' show "wp (drain_loop P t deadline False (Suc n)) (\<lambda>r s'. good s' \<and> view s' = v \<and> drain_ends r) s'" by (rule Suc.IH)
  qed
qed

end

section \<open>The steps\<close>

definition drained :: "unit view_change" where
  "drained r v v' \<longleftrightarrow> v' = v \<and> (\<forall>e. r = Inl e \<longrightarrow> failure_category e \<in> set drain_categories)"

definition restores :: "(string \<times> bool) list \<Rightarrow> unit view_change" where
  "restores snapshot r v v' \<longleftrightarrow> pauses_only v v' \<and> (r = Inr () \<longrightarrow> paused_as snapshot (sv_paused v'))"

definition completes :: "deploy_job \<Rightarrow> string \<Rightarrow> deployment_outcome \<Rightarrow> string option \<Rightarrow> overlay_artifact option
    \<Rightarrow> terminal_category option \<Rightarrow> unit view_change" where
  "completes j started out health a category r v v' \<longleftrightarrow>
     records_only v v'
     \<and> (case r of
          Inr _ \<Rightarrow> \<exists>c. sv_recorded v' (dj_id j) = Some (make_record j started (Some c) out health a category)
        | Inl _ \<Rightarrow> sv_recorded v' = sv_recorded v)"

text \<open>The record of the deployment says how it went; the record may also be the one of before.\<close>

definition record_says :: "deploy_job \<Rightarrow> deployment_outcome \<Rightarrow> site_view \<Rightarrow> bool" where
  "record_says j out v \<longleftrightarrow>
     (\<exists>q. sv_recorded v (dj_id j) = Some q \<and> dr_deployment_id q = dj_id j \<and> dr_outcome q = out
        \<and> dr_candidate_sha q = mi_workflow_sha (dj_identity j))"

definition record_or_kept :: "deploy_job \<Rightarrow> deployment_outcome \<Rightarrow> site_view \<Rightarrow> site_view \<Rightarrow> bool" where
  "record_or_kept j out v v' \<longleftrightarrow> sv_recorded v' = sv_recorded v \<or> record_says j out v'"

lemma record_says_same: "record_says j out v \<Longrightarrow> sv_recorded v' = sv_recorded v \<Longrightarrow> record_says j out v'"
  by (simp add: record_says_def)

lemma completed_not: "completes j started out health a category (Inl e) v v' \<Longrightarrow> sv_recorded v' = sv_recorded v"
  by (simp add: completes_def)

lemma completed_says:
  "completes j started out health a category r v v' \<Longrightarrow> records_only v v' \<and> record_or_kept j out v v'
     \<and> (\<forall>u. r = Inr u \<longrightarrow> record_says j out v')"
  by (cases r) (auto simp: completes_def record_or_kept_def record_says_def make_record_def)

definition all_of :: "string list \<Rightarrow> (string \<Rightarrow> bool) \<Rightarrow> bool" where
  "all_of dags p \<longleftrightarrow> (\<forall>i \<in> set dags. p i)"

definition closes :: "deploy_job \<Rightarrow> 'a view_change" where
  "closes j r v v' \<longleftrightarrow>
     sv_installed v' = sv_installed v \<and> sv_served v' = sv_served v \<and> sv_history v' = sv_history v
     \<and> record_or_kept j OutcomeRollbackFailed v v'
     \<and> (r = Inl (MainDeploymentError ''main-deploy-rollback-failed'') \<and> all_of (sorted_dags (dj_target j)) (sv_paused v')
        \<or> r = Inl (MainDeploymentError ''main-deploy-pause-state-unverified''))"

definition backs_out :: "deploy_job \<Rightarrow> (string \<times> bool) list \<Rightarrow> string \<Rightarrow> 'a view_change" where
  "backs_out j snapshot category r v v' \<longleftrightarrow>
     closes j r v v'
     \<or> sv_installed v' = sv_installed v \<and> sv_served v' = sv_served v \<and> sv_history v' = sv_history v
       \<and> paused_as snapshot (sv_paused v')
       \<and> (r = Inl (MainDeploymentError ''main-deploy-ledger-failed'') \<and> sv_recorded v' = sv_recorded v
          \<or> r = Inl (main_error category) \<and> record_says j OutcomeFailed v')"

definition redeployed :: "string \<Rightarrow> unit view_change" where
  "redeployed content r v v' \<longleftrightarrow>
     sv_paused v' = sv_paused v \<and> sv_installed v' = sv_installed v \<and> sv_recorded v' = sv_recorded v
     \<and> (\<exists>h. sv_history v' = h @ sv_history v \<and> set h \<subseteq> {(sv_paused v, Some content)})
     \<and> sv_served v' \<in> {sv_served v, Some content}
     \<and> (r = Inr () \<longrightarrow> sv_installed v' = Some content \<and> sv_served v' = Some content)"

lemma category_safe:
  assumes "c \<in> set safe_categories" shows "main_error c = MainDeploymentError c"
  using assms by (simp add: main_error_def)

lemma safe_members:
  "''main-deploy-rollback-failed'' \<in> set safe_categories" "''main-deploy-pause-state-unverified'' \<in> set safe_categories"
  "''main-deploy-ledger-failed'' \<in> set safe_categories" "''main-deploy-rolled-back'' \<in> set safe_categories"
  by (simp_all add: safe_categories_def)

lemma all_paused_all: "paused_as (all_paused dags) p \<Longrightarrow> all_of dags p"
  by (auto simp: paused_as_def all_paused_def all_of_def image_image map_of_map_restrict restrict_map_def split: if_splits)

context deploy_site
begin

lemma does_drain:
  assumes "drain_bound t fuel"
  shows "does good view (drain P t fuel) drained"
proof -
  obtain n where n: "fuel = Suc n" "dt_drain_timeout_seconds t \<le> int n * dt_poll_interval_seconds t" "0 \<le> dt_poll_interval_seconds t"
    using assms by (auto simp: drain_bound_def)
  have enough: "of_int (dt_drain_timeout_seconds t) \<le> of_nat n * (of_int (dt_poll_interval_seconds t) :: rat)"
    using n(2) by (metis of_int_le_iff of_int_mult of_int_of_nat_eq)
  have loop: "wp (drain_loop P t (now + of_int (dt_drain_timeout_seconds t)) True (Suc n)) (\<lambda>r s'. good s' \<and> view s' = v \<and> drain_ends r) s"
    if "good s" "view s = v" "now \<le> clock s" for s v now
    by (rule drain_loop_quiet [OF n(3) that(1,2)]) (use that(3) enough in linarith)
  have "wp (drain P t fuel) (\<lambda>r s'. good s' \<and> drained r v (view s')) s" if s: "good s" "view s = v" for s v
    unfolding drain_def
  proof (rule wp_handlingI)
    show "wp (seq (call (dp_monotonic P)) (\<lambda>now. drain_loop P t (now + of_int (dt_drain_timeout_seconds t)) True fuel))
        (\<lambda>r s'. good s' \<and> view s' = v \<and> drain_ends r) s"
      unfolding wp_seq by (rule wp_monotonic [OF s(1)]) (use s loop n(1) in \<open>auto dest: foreign_drain_ends\<close>)
    fix e s' assume "good s' \<and> view s' = v \<and> drain_ends (Inl e)"
    moreover from this have "failure_category (drain_failure e) \<in> set drain_categories"
      by (cases e) (simp_all add: drain_ends_def drain_categories_def)
    ultimately show "wp (raising (drain_failure e)) (\<lambda>r s'. good s' \<and> drained r v (view s')) s'"
      by (simp add: wp_raising drained_def)
  qed (simp add: drained_def)
  then show ?thesis by (simp add: does_def)
qed

end

lemma does_each_of:
  assumes "\<And>v. R v v" "\<And>x. x \<in> set xs \<Longrightarrow> does good view (f x) (\<lambda>_. R)" "\<And>u v w. R u v \<Longrightarrow> R v w \<Longrightarrow> R u w"
  shows "does good view (each_of f xs) (\<lambda>_. R)"
  using assms(2)
proof (induction xs)
  case (Cons x xs)
  then have "does good view (f x) (\<lambda>_. R)" "does good view (each_of f xs) (\<lambda>_. R)" by simp_all
  then have "does good view (seq (f x) (\<lambda>_. each_of f xs)) (\<lambda>_. R)"
    by (rule does_seq) (use assms(3) in blast)+
  then show ?case by simp
qed (simp add: does_give assms(1))

lemma does_each_of_all:
  assumes "\<And>v. R v v" "\<And>x. x \<in> set xs \<Longrightarrow> does good view (f x) (\<lambda>r v v'. r = Inr () \<and> R v v')"
    "\<And>u v w. R u v \<Longrightarrow> R v w \<Longrightarrow> R u w"
  shows "does good view (each_of f xs) (\<lambda>r v v'. r = Inr () \<and> R v v')"
  using assms(2)
proof (induction xs)
  case (Cons x xs)
  then have "does good view (f x) (\<lambda>r v v'. r = Inr () \<and> R v v')" "does good view (each_of f xs) (\<lambda>r v v'. r = Inr () \<and> R v v')" by simp_all
  then have "does good view (seq (f x) (\<lambda>_. each_of f xs)) (\<lambda>r v v'. r = Inr () \<and> R v v')"
    by (rule does_seq) (use assms(3) in blast)+
  then show ?case by simp
qed (simp add: does_give assms(1))

lemma pauses_only_refl: "pauses_only v v"
  by (simp add: pauses_only_def)

lemma pauses_only_trans: "pauses_only u v \<Longrightarrow> pauses_only v w \<Longrightarrow> pauses_only u w"
  by (auto simp: pauses_only_def)

lemma sets_pause_only: "sets_pause i b r v v' \<Longrightarrow> pauses_only v v'"
  by (simp add: sets_pause_def)

context deploy_site
begin

lemma does_pausing: "does good view (each_of (\<lambda>i. call (dp_pause_dag P i)) dags) (\<lambda>_. pauses_only)"
  by (rule does_each_of [OF pauses_only_refl does_mono [OF does_call [OF pause_sets]] pauses_only_trans]) (rule sets_pause_only)

lemma does_unpausing:
  "does good view (each_of (\<lambda>(i, was_paused). if was_paused then give () else call (dp_unpause_dag P i)) snapshot) (\<lambda>_. pauses_only)"
  by (rule does_each_of [OF pauses_only_refl _ pauses_only_trans])
    (auto intro!: does_give pauses_only_refl sets_pause_only does_mono [OF does_call [OF unpause_sets]])

lemma does_matching:
  "does good view (pause_state_matches P dags expected)
     (\<lambda>r v v'. v' = v \<and> (\<exists>ok. r = Inr ok \<and> (ok \<longrightarrow> (\<forall>i \<in> set dags. map_of expected i = Some (sv_paused v i)))))"
  unfolding pause_state_matches_def
  by (rule does_attempt [OF does_call [OF capture_reads]
        does_give [where R = "\<lambda>r v v'. r = Inr False \<and> v' = v"]
        does_give [where R = "\<lambda>r v v'. r = Inr (readback_matches x dags expected) \<and> v' = v" for x]])
    (auto simp: reads_pause_def intro: readback_matches_paused)

lemma does_restore: "does good view (restore_snapshot P snapshot) (restores snapshot)"
  unfolding restore_snapshot_def
proof (rule does_seq [OF does_unpausing])
  show "does good view
      (seq (pause_state_matches P (remdups (map fst snapshot)) snapshot)
        (\<lambda>ok. if ok then give () else raising (RuntimeError ''pause state mismatch'')))
      (\<lambda>r v v'. v' = v \<and> (r = Inr () \<longrightarrow> paused_as snapshot (sv_paused v)))" for x :: unit
    by (rule does_seq [OF does_matching, where S = "\<lambda>ok r v v'. v' = v \<and> (r = Inr () \<longrightarrow> ok)"])
      (auto simp: paused_as_def intro!: does_give does_raising)
qed (auto simp: restores_def pauses_only_def)

lemma does_stamped: "does good view (stamped P) quiet"
  unfolding stamped_def
  by (rule does_seq [OF does_call [OF quiet_probes(2)], where S = "\<lambda>_. quiet"])
    (auto simp: quiet_def intro!: does_seq [OF does_of_result [where R = quiet] does_give [where R = quiet]])

lemma does_complete:
  "does good view (complete_as P j started out health a category) (completes j started out health a category)"
  unfolding complete_as_def
  by (rule does_seq [OF does_stamped does_call [OF notes_complete]])
    (auto simp: quiet_def completes_def records_only_def notes_record_def make_record_def split: sum.split_asm sum.split)

lemma does_pause_all:
  "does good view (pause_all P dags)
     (\<lambda>r v v'. pauses_only v v' \<and> (r = Inr () \<longrightarrow> all_of dags (sv_paused v'))
        \<and> (\<forall>e. r = Inl e \<longrightarrow> failure_category e \<in> {''main-deploy-failed'', ''main-deploy-pause-verification-failed''}))"
  unfolding pause_all_def
proof (rule does_seq)
  show "does good view (handling (each_of (\<lambda>i. call (dp_pause_dag P i)) dags) (\<lambda>_. raising (StageFailure ''main-deploy-failed'')))
      (\<lambda>r v v'. pauses_only v v' \<and> (r = Inr () \<or> r = Inl (StageFailure ''main-deploy-failed'')))"
    by (rule does_handling [OF does_pausing does_raising [where R = "\<lambda>r v v'. r = Inl (StageFailure ''main-deploy-failed'') \<and> v' = v"]]) auto
  show "does good view (seq (pause_state_matches P dags (all_paused dags))
        (\<lambda>ok. if ok then give () else raising (StageFailure ''main-deploy-pause-verification-failed'')))
      (\<lambda>r v v'. v' = v \<and> (r = Inr () \<longrightarrow> all_of dags (sv_paused v))
        \<and> (r = Inr () \<or> r = Inl (StageFailure ''main-deploy-pause-verification-failed'')))" for x :: unit
    by (rule does_seq [OF does_matching, where S = "\<lambda>ok r v v'. v' = v \<and> r = (if ok then Inr () else Inl (StageFailure ''main-deploy-pause-verification-failed''))"])
      (auto simp: all_of_def all_paused_def map_of_map_restrict restrict_map_def intro!: does_give does_raising split: if_split_asm)
qed auto

end

section \<open>The failure paths\<close>

context deploy_site
begin

lemma does_recorded: "does good view (handling (complete_as P j started out health a category) (\<lambda>_. give ()))
    (\<lambda>r v v'. records_only v v' \<and> record_or_kept j out v v' \<and> r = Inr ())"
  by (rule does_handling [OF does_complete does_give [where R = "\<lambda>r v v'. v' = v \<and> r = Inr ()"]]) (auto dest: completed_says)

lemma does_fail_closed: "does good view (fail_closed P j started) (closes j)"
  unfolding fail_closed_def Let_def
proof (rule does_seq)
  let ?dags = "sorted_dags (dj_target j)"
  let ?last = "\<lambda>proven. if proven then ''main-deploy-rollback-failed'' else ''main-deploy-pause-state-unverified''"
  show "does good view (each_of (\<lambda>i. handling (call (dp_pause_dag P i)) (\<lambda>_. give ())) ?dags) (\<lambda>r v v'. r = Inr () \<and> pauses_only v v')"
    by (rule does_each_of_all [OF pauses_only_refl _ pauses_only_trans])
      (auto intro!: does_handling [OF does_call [OF pause_sets] does_give [where R = "\<lambda>r v v'. r = Inr () \<and> v' = v"]] simp: sets_pause_def)
  show "does good view
      (seq (pause_state_matches P ?dags (all_paused ?dags)) (\<lambda>proven.
       seq (handling (complete_as P j started OutcomeRollbackFailed (Some ''failed'') None
             (if proven then None else Some PauseStateUnverified)) (\<lambda>_. give ())) (\<lambda>_.
       raising (main_error (?last proven)))))
      (\<lambda>r v v'. records_only v v' \<and> record_or_kept j OutcomeRollbackFailed v v'
         \<and> (r = Inl (MainDeploymentError ''main-deploy-rollback-failed'') \<and> all_of ?dags (sv_paused v)
            \<or> r = Inl (MainDeploymentError ''main-deploy-pause-state-unverified'')))" for x :: unit
  proof (rule does_seq [OF does_matching, where S = "\<lambda>proven r v v'. records_only v v'
      \<and> record_or_kept j OutcomeRollbackFailed v v' \<and> r = Inl (main_error (?last proven))"])
    show "does good view
        (seq (handling (complete_as P j started OutcomeRollbackFailed (Some ''failed'') None
             (if proven then None else Some PauseStateUnverified)) (\<lambda>_. give ())) (\<lambda>_. raising (main_error (?last proven))))
        (\<lambda>r v v'. records_only v v' \<and> record_or_kept j OutcomeRollbackFailed v v' \<and> r = Inl (main_error (?last proven)))" for proven
      by (rule does_seq [OF does_recorded does_raising [where R = "\<lambda>r v v'. v' = v \<and> r = Inl (main_error (?last proven))"]])
        (auto simp: records_only_def)
  qed (auto simp: safe_members category_safe all_of_def all_paused_def map_of_map_restrict restrict_map_def
      split: if_split_asm)
qed (auto simp: closes_def records_only_def pauses_only_def record_or_kept_def)

end

context deploy_site
begin

lemma does_discard:
  "does good view (case staged of None \<Rightarrow> give () | Some f \<Rightarrow> handling (call (dp_discard P f)) (\<lambda>_. give ())) (\<lambda>r v v'. r = Inr () \<and> v' = v)"
  by (auto split: option.split intro!: does_give does_handling [OF does_call [OF quiet_candidate(3)]
        does_give [where R = "\<lambda>r v v'. r = Inr () \<and> v' = v"]] simp: quiet_def)

lemma does_back_out: "does good view (fail_before_install P j started snapshot staged category) (backs_out j snapshot category)"
  unfolding fail_before_install_def
proof (rule does_seq [OF does_discard])
  show "does good view
      (attempt (restore_snapshot P snapshot) (\<lambda>_. fail_closed P j started) (\<lambda>_.
       attempt (complete_as P j started OutcomeFailed None None None) (\<lambda>_. raising (main_error ''main-deploy-ledger-failed'')) (\<lambda>_.
       raising (main_error category)))) (backs_out j snapshot category)" for x :: unit
  proof (rule does_attempt [OF does_restore does_fail_closed])
    show "does good view
        (attempt (complete_as P j started OutcomeFailed None None None) (\<lambda>_. raising (main_error ''main-deploy-ledger-failed'')) (\<lambda>_.
         raising (main_error category)))
        (\<lambda>r v v'. records_only v v' \<and> (r = Inl (main_error ''main-deploy-ledger-failed'') \<and> sv_recorded v' = sv_recorded v
           \<or> r = Inl (main_error category) \<and> record_says j OutcomeFailed v'))"
      for x :: unit
      by (rule does_attempt [OF does_complete does_raising [where R = "\<lambda>r v v'. v' = v \<and> r = Inl (main_error ''main-deploy-ledger-failed'')"]
            does_raising [where R = "\<lambda>r v v'. v' = v \<and> r = Inl (main_error category)"]])
        (auto dest: completed_says completed_not)
  qed (auto simp: restores_def closes_def backs_out_def pauses_only_def records_only_def record_or_kept_def
      category_safe [OF safe_members(3)])
qed auto

lemma does_redeploy: "does good view (redeploy P j a unhealthy) (redeployed (oa_content a))"
  unfolding redeploy_def
proof (rule does_seq [OF does_call [OF verify_verifies]])
  let ?check = "seq (call (dp_read_health P a)) (\<lambda>health. if health \<noteq> ''passed'' then raising unhealthy else give ())"
  have check: "does good view ?check (\<lambda>_ v v'. v' = v)"
    by (rule does_seq [OF does_call [OF quiet_probes(1)], where S = "\<lambda>_ _ v v'. v' = v"])
      (auto simp: quiet_def intro!: does_give does_raising)
  show "does good view
      (seq (call (dp_deploy_code_services P (dt_generated_overlay_file (dj_target j)) (sort (dt_airflow_code_services (dj_target j)))))
        (\<lambda>_. ?check))
      (\<lambda>r v v'. sv_paused v' = sv_paused v \<and> sv_installed v' = sv_installed v \<and> sv_recorded v' = sv_recorded v
         \<and> sv_history v' = (sv_paused v, sv_installed v) # sv_history v
         \<and> sv_served v' \<in> {sv_served v, sv_installed v} \<and> (r = Inr () \<longrightarrow> sv_served v' = sv_installed v))" for x :: unit
    by (rule does_seq [OF does_call [OF deploy_redeploys] check]) (auto simp: redeploys_def)
qed (auto simp: verifies_def redeployed_def)

end

section \<open>Preparation, installation and rollback\<close>

text \<open>A redeployment, of the one content, happened only while every DAG was paused.\<close>

definition redeployed_paused :: "deploy_job \<Rightarrow> string set \<Rightarrow> site_view \<Rightarrow> site_view \<Rightarrow> bool" where
  "redeployed_paused j contents v v' \<longleftrightarrow>
     (\<exists>h. sv_history v' = h @ sv_history v
        \<and> (\<forall>e \<in> set h. all_of (sorted_dags (dj_target j)) (fst e) \<and> snd e \<in> Some ` contents))"

text \<open>The installed overlay, and the one the services run, are those of before or one of the contents.\<close>

definition overlays_among :: "string set \<Rightarrow> site_view \<Rightarrow> site_view \<Rightarrow> bool" where
  "overlays_among contents v v' \<longleftrightarrow>
     sv_installed v' \<in> insert (sv_installed v) (Some ` contents) \<and> sv_served v' \<in> insert (sv_served v) (Some ` contents)"

lemma overlays_among_same: "sv_installed v' = sv_installed v \<Longrightarrow> sv_served v' = sv_served v \<Longrightarrow> overlays_among cs v v'"
  by (simp add: overlays_among_def)

lemma overlays_among_mono: "overlays_among cs v v' \<Longrightarrow> cs \<subseteq> ds \<Longrightarrow> overlays_among ds v v'"
  by (auto simp: overlays_among_def)

lemma overlays_among_trans: "overlays_among cs u v \<Longrightarrow> overlays_among cs v w \<Longrightarrow> overlays_among cs u w"
  by (auto simp: overlays_among_def)

text \<open>The site runs the one overlay, its DAGs are as they were, and the record says so.\<close>

definition settled :: "deploy_job \<Rightarrow> string \<Rightarrow> (string \<times> bool) list \<Rightarrow> overlay_artifact \<Rightarrow> deployment_outcome \<Rightarrow> string
    \<Rightarrow> site_view \<Rightarrow> bool" where
  "settled j started snapshot a out health v \<longleftrightarrow>
     paused_as snapshot (sv_paused v) \<and> sv_installed v = Some (oa_content a) \<and> sv_served v = Some (oa_content a)
     \<and> (\<exists>c. sv_recorded v (dj_id j) = Some (make_record j started (Some c) out (Some health) (Some a) None))"

definition rolls_back :: "deploy_job \<Rightarrow> string \<Rightarrow> (string \<times> bool) list \<Rightarrow> overlay_artifact \<Rightarrow> 'a view_change" where
  "rolls_back j started snapshot a r v v' \<longleftrightarrow>
     redeployed_paused j {oa_content a} v v' \<and> overlays_among {oa_content a} v v'
     \<and> (r = Inl (MainDeploymentError ''main-deploy-rolled-back'') \<and> settled j started snapshot a OutcomeRolledBack ''failed'' v'
        \<or> record_or_kept j OutcomeRollbackFailed v v'
          \<and> (r = Inl (MainDeploymentError ''main-deploy-rollback-failed'') \<and> all_of (sorted_dags (dj_target j)) (sv_paused v')
             \<or> r = Inl (MainDeploymentError ''main-deploy-pause-state-unverified'')))"

definition prepare_categories :: "string list" where
  "prepare_categories = drain_categories
     @ [''main-deploy-failed'', ''main-deploy-pause-verification-failed'', ''main-deploy-checkout-failed'',
        ''main-deploy-candidate-stage-failed'']"

definition prepares :: "pylib \<Rightarrow> yaml_lib \<Rightarrow> deploy_job \<Rightarrow> (overlay_artifact \<times> string) view_change" where
  "prepares L Y j r v v' \<longleftrightarrow>
     pauses_only v v'
     \<and> (case r of
          Inl e \<Rightarrow> failure_category e \<in> set prepare_categories
        | Inr (a, staged) \<Rightarrow>
            render_release_overlay L Y (dj_target j) (job_checkout j) (mi_workflow_sha (dj_identity j)) = Inr a
            \<and> all_of (sorted_dags (dj_target j)) (sv_paused v'))"

definition installs_candidate ::
  "deploy_job \<Rightarrow> string \<Rightarrow> (string \<times> bool) list \<Rightarrow> overlay_artifact \<Rightarrow> deployment_result view_change" where
  "installs_candidate j started snapshot a r v v' \<longleftrightarrow>
     (all_of (sorted_dags (dj_target j)) (sv_paused v) \<longrightarrow> redeployed_paused j {oa_content a} v v')
     \<and> overlays_among {oa_content a} v v'
     \<and> (case r of
          Inr x \<Rightarrow> x = job_result j False \<and> settled j started snapshot a OutcomeSuccess ''passed'' v'
        | Inl _ \<Rightarrow> sv_recorded v' = sv_recorded v)"

lemma redeployed_paused_same: "sv_history v' = sv_history v \<Longrightarrow> redeployed_paused j cs v v'"
  by (simp add: redeployed_paused_def)

lemma redeployed_paused_step:
  "redeployed (oa_content a) r v v' \<Longrightarrow> all_of (sorted_dags (dj_target j)) (sv_paused v) \<Longrightarrow> redeployed_paused j {oa_content a} v v'"
  unfolding redeployed_def redeployed_paused_def by fastforce

lemma redeployed_paused_mono: "redeployed_paused j cs v v' \<Longrightarrow> cs \<subseteq> ds \<Longrightarrow> redeployed_paused j ds v v'"
  unfolding redeployed_paused_def by blast

lemma redeployed_paused_trans: "redeployed_paused j cs u v \<Longrightarrow> redeployed_paused j cs v w \<Longrightarrow> redeployed_paused j cs u w"
  unfolding redeployed_paused_def by (elim exE conjE, rule_tac x = "ha @ h" in exI) auto

context deploy_site
begin

text \<open>Redeploying, restoring the pauses and recording: the end of a deployment and of a rollback.\<close>

lemma does_settle:
  "does good view
     (seq (redeploy P j a unhealthy) (\<lambda>_. seq (restore_snapshot P snapshot) (\<lambda>_.
      complete_as P j started out (Some health) (Some a) None)))
     (\<lambda>r v v'. (all_of (sorted_dags (dj_target j)) (sv_paused v) \<longrightarrow> redeployed_paused j {oa_content a} v v')
        \<and> overlays_among {oa_content a} v v'
        \<and> (case r of Inr _ \<Rightarrow> settled j started snapshot a out health v' | Inl _ \<Rightarrow> sv_recorded v' = sv_recorded v))"
proof (rule does_seq [OF does_redeploy])
  show "does good view (seq (restore_snapshot P snapshot) (\<lambda>_. complete_as P j started out (Some health) (Some a) None))
      (\<lambda>r v v'. sv_installed v' = sv_installed v \<and> sv_served v' = sv_served v \<and> sv_history v' = sv_history v
         \<and> (case r of
              Inr _ \<Rightarrow> paused_as snapshot (sv_paused v')
                \<and> (\<exists>c. sv_recorded v' (dj_id j) = Some (make_record j started (Some c) out (Some health) (Some a) None))
            | Inl _ \<Rightarrow> sv_recorded v' = sv_recorded v))" for x :: unit
    by (rule does_seq [OF does_restore does_complete])
      (auto simp: restores_def completes_def pauses_only_def records_only_def split: sum.split_asm sum.split)
next
  fix x :: unit and r :: "unit result" and v v' v'' :: site_view
  assume one: "redeployed (oa_content a) (Inr x) v v'"
  assume two: "sv_installed v'' = sv_installed v' \<and> sv_served v'' = sv_served v' \<and> sv_history v'' = sv_history v'
    \<and> (case r of
         Inr _ \<Rightarrow> paused_as snapshot (sv_paused v'')
           \<and> (\<exists>c. sv_recorded v'' (dj_id j) = Some (make_record j started (Some c) out (Some health) (Some a) None))
       | Inl _ \<Rightarrow> sv_recorded v'' = sv_recorded v')"
  have "redeployed_paused j {oa_content a} v v''" if "all_of (sorted_dags (dj_target j)) (sv_paused v)"
    using redeployed_paused_step [OF one that] two by (simp add: redeployed_paused_def)
  moreover have "overlays_among {oa_content a} v v''" using one two by (auto simp: redeployed_def overlays_among_def)
  moreover have "case r of Inr _ \<Rightarrow> settled j started snapshot a out health v'' | Inl _ \<Rightarrow> sv_recorded v'' = sv_recorded v"
    using one two by (cases r) (auto simp: settled_def redeployed_def)
  ultimately show "(all_of (sorted_dags (dj_target j)) (sv_paused v) \<longrightarrow> redeployed_paused j {oa_content a} v v'')
      \<and> overlays_among {oa_content a} v v''
      \<and> (case r of Inr _ \<Rightarrow> settled j started snapshot a out health v'' | Inl _ \<Rightarrow> sv_recorded v'' = sv_recorded v)"
    by blast
next
  fix e and v v' :: site_view assume failed: "redeployed (oa_content a) (Inl e) v v'"
  then show "(all_of (sorted_dags (dj_target j)) (sv_paused v) \<longrightarrow> redeployed_paused j {oa_content a} v v')
      \<and> overlays_among {oa_content a} v v'
      \<and> (case Inl e of Inr _ \<Rightarrow> settled j started snapshot a out health v' | Inl _ \<Rightarrow> sv_recorded v' = sv_recorded v)"
    using redeployed_paused_step [OF failed] by (auto simp: redeployed_def overlays_among_def)
qed

lemma does_rollback:
  assumes "drain_bound (dj_target j) fuel"
  shows "does good view (rollback P fuel j started snapshot a) (rolls_back j started snapshot a)"
proof -
  let ?dags = "sorted_dags (dj_target j)"
  let ?settle = "seq (redeploy P j a (RuntimeError ''health'')) (\<lambda>_. seq (restore_snapshot P snapshot) (\<lambda>_.
      complete_as P j started OutcomeRolledBack (Some ''failed'') (Some a) None))"
  let ?S = "\<lambda>r v v'. case r of Inr _ \<Rightarrow> settled j started snapshot a OutcomeRolledBack ''failed'' v' | Inl _ \<Rightarrow> sv_recorded v' = sv_recorded v"
  let ?Q = "\<lambda>r v v'. (all_of ?dags (sv_paused v) \<longrightarrow> redeployed_paused j {oa_content a} v v')
      \<and> overlays_among {oa_content a} v v' \<and> ?S r v v'"
  have restored: "does good view (seq (call (dp_restore P (oa_content a) (oa_sha256 a))) (\<lambda>_. ?settle)) ?Q"
    by (rule does_seq [OF does_call [OF restore_installs] does_settle])
      (auto simp: installs_def redeployed_paused_def overlays_among_def split: sum.split_asm sum.split)
  have drained: "does good view (seq (drain P (dj_target j) fuel) (\<lambda>_. seq (call (dp_restore P (oa_content a) (oa_sha256 a))) (\<lambda>_. ?settle))) ?Q"
    by (rule does_seq [OF does_drain [OF assms] restored]) (auto simp: drained_def redeployed_paused_same overlays_among_same)
  have checked: "does good view
      (seq (pause_state_matches P ?dags (all_paused ?dags)) (\<lambda>ok.
       if \<not> ok then raising (RuntimeError ''pause state'')
       else seq (drain P (dj_target j) fuel) (\<lambda>_. seq (call (dp_restore P (oa_content a) (oa_sha256 a))) (\<lambda>_. ?settle))))
      (\<lambda>r v v'. redeployed_paused j {oa_content a} v v' \<and> overlays_among {oa_content a} v v' \<and> ?S r v v')"
  proof (rule does_seq [OF does_matching, where S = "\<lambda>ok r v v'. if ok then ?Q r v v' else v' = v \<and> (\<exists>e. r = Inl e)"])
    show "does good view (if \<not> ok then raising (RuntimeError ''pause state'')
        else seq (drain P (dj_target j) fuel) (\<lambda>_. seq (call (dp_restore P (oa_content a) (oa_sha256 a))) (\<lambda>_. ?settle)))
        (\<lambda>r v v'. if ok then ?Q r v v' else v' = v \<and> (\<exists>e. r = Inl e))" for ok
      using drained by (cases ok) (simp_all add: does_raising)
  qed (auto simp: redeployed_paused_same overlays_among_same all_of_def all_paused_def map_of_map_restrict restrict_map_def
      split: if_split_asm)
  show ?thesis
    unfolding rollback_def Let_def
  proof (rule does_attempt [OF _ does_fail_closed])
    show "does good view (seq (each_of (\<lambda>i. call (dp_pause_dag P i)) ?dags) (\<lambda>_.
         seq (pause_state_matches P ?dags (all_paused ?dags)) (\<lambda>ok.
         if \<not> ok then raising (RuntimeError ''pause state'')
         else seq (drain P (dj_target j) fuel) (\<lambda>_. seq (call (dp_restore P (oa_content a) (oa_sha256 a))) (\<lambda>_. ?settle)))))
        (\<lambda>r v v'. redeployed_paused j {oa_content a} v v' \<and> overlays_among {oa_content a} v v' \<and> ?S r v v')"
      by (rule does_seq [OF does_pausing checked])
        (auto simp: pauses_only_def redeployed_paused_def overlays_among_def split: sum.split_asm sum.split)
    show "does good view (raising (main_error ''main-deploy-rolled-back''))
        (\<lambda>r v v'. v' = v \<and> r = Inl (MainDeploymentError ''main-deploy-rolled-back''))" for x :: unit
      by (rule does_raising) (simp add: category_safe [OF safe_members(4)])
  qed (auto simp: rolls_back_def closes_def redeployed_paused_def overlays_among_def record_or_kept_def)
qed

end

context deploy_site
begin

lemma does_install:
  "does good view (install_candidate P j started snapshot a staged) (installs_candidate j started snapshot a)"
  unfolding install_candidate_def
proof (rule does_seq [OF does_call [OF install_installs]])
  let ?Q = "\<lambda>r v v'. (all_of (sorted_dags (dj_target j)) (sv_paused v) \<longrightarrow> redeployed_paused j {oa_content a} v v')
      \<and> overlays_among {oa_content a} v v'
      \<and> (case r of
           Inr x \<Rightarrow> x = job_result j False \<and> settled j started snapshot a OutcomeSuccess ''passed'' v'
         | Inl _ \<Rightarrow> sv_recorded v' = sv_recorded v)"
  have assoc: "seq (redeploy P j a e) (\<lambda>_. seq (restore_snapshot P snapshot) (\<lambda>_. seq m k))
      = seq (seq (redeploy P j a e) (\<lambda>_. seq (restore_snapshot P snapshot) (\<lambda>_. m))) k" for e and m :: "(unit, 's) program" and k
    by (auto simp: seq_def attempt_def raising_def fun_eq_iff split: option.split sum.split)
  show "does good view
      (seq (redeploy P j a (StageFailure ''main-deploy-failed'')) (\<lambda>_. seq (restore_snapshot P snapshot) (\<lambda>_.
       seq (complete_as P j started OutcomeSuccess (Some ''passed'') (Some a) None) (\<lambda>_. give (job_result j False))))) ?Q" for x :: unit
    unfolding assoc
    by (rule does_seq [OF does_settle does_give [where R = "\<lambda>r v v'. v' = v \<and> r = Inr (job_result j False)"]]) auto
qed (auto simp: installs_def installs_candidate_def redeployed_paused_def overlays_among_def split: sum.split_asm sum.split)

lemma does_checkout:
  "does good view (handling (call (dp_detached_checkout P repo sha dir)) (\<lambda>_. raising (StageFailure c)))
     (\<lambda>r v v'. v' = v \<and> (r = Inl (StageFailure c) \<or> (\<exists>x. r = Inr x)))"
  by (rule does_handling [OF does_call [OF quiet_candidate(1)] does_raising [where R = "\<lambda>r v v'. v' = v \<and> r = Inl (StageFailure c)"]])
    (auto simp: quiet_def)

lemma does_staging:
  "does good view
     (handling (seq (of_result rendered) (\<lambda>a. seq (call (dp_stage P a)) (\<lambda>staged. give (a, staged)))) (\<lambda>_. raising (StageFailure c)))
     (\<lambda>r v v'. v' = v \<and> (r = Inl (StageFailure c) \<or> (\<exists>a staged. r = Inr (a, staged) \<and> rendered = Inr a)))"
proof (rule does_handling [OF _ does_raising [where R = "\<lambda>r v v'. v' = v \<and> r = Inl (StageFailure c)"]])
  show "does good view (seq (of_result rendered) (\<lambda>a. seq (call (dp_stage P a)) (\<lambda>staged. give (a, staged))))
      (\<lambda>r v v'. v' = v \<and> (\<forall>a staged. r = Inr (a, staged) \<longrightarrow> rendered = Inr a))"
  proof (rule does_seq [OF does_of_result [where R = "\<lambda>r v v'. v' = v \<and> r = rendered"]])
    show "does good view (seq (call (dp_stage P a)) (\<lambda>staged. give (a, staged))) (\<lambda>r v v'. v' = v \<and> (\<forall>x staged. r = Inr (x, staged) \<longrightarrow> x = a))" for a
      by (rule does_seq [OF does_call [OF quiet_candidate(2)] does_give [where R = "\<lambda>r v v'. v' = v \<and> (\<forall>x staged. r = Inr (x, staged) \<longrightarrow> x = a)"]])
        (auto simp: quiet_def)
  qed auto
qed auto

lemma does_prepare:
  assumes "drain_bound (dj_target j) fuel"
  shows "does good view (prepare P L Y fuel j) (prepares L Y j)"
  unfolding prepare_def
proof (rule does_seq [OF does_drain [OF assms]], rule does_seq [OF does_pause_all])
  let ?rendered = "render_release_overlay L Y (dj_target j) (job_checkout j) (mi_workflow_sha (dj_identity j))"
  let ?stage = "handling (seq (of_result ?rendered) (\<lambda>a. seq (call (dp_stage P a)) (\<lambda>staged. give (a, staged))))
      (\<lambda>_. raising (StageFailure ''main-deploy-candidate-stage-failed''))"
  let ?Q = "\<lambda>r v v'. v' = v \<and> (r \<in> {Inl (StageFailure ''main-deploy-checkout-failed''), Inl (StageFailure ''main-deploy-candidate-stage-failed'')}
      \<or> (\<exists>a staged. r = Inr (a, staged) \<and> ?rendered = Inr a))"
  show "does good view
      (seq (handling (call (dp_detached_checkout P (mi_repository (dj_identity j)) (mi_workflow_sha (dj_identity j)) (job_checkout j)))
              (\<lambda>_. raising (StageFailure ''main-deploy-checkout-failed''))) (\<lambda>checkout.
       if checkout \<noteq> Some (job_checkout j) then raising (StageFailure ''main-deploy-checkout-failed'') else ?stage)) ?Q" for y :: unit
  proof (rule does_seq [OF does_checkout, where S = "\<lambda>_. ?Q"])
    show "does good view (if checkout \<noteq> Some (job_checkout j) then raising (StageFailure ''main-deploy-checkout-failed'') else ?stage) ?Q" for checkout
      by (cases "checkout = Some (job_checkout j)") (auto intro!: does_raising does_mono [OF does_staging])
  qed auto
qed (auto simp: prepares_def pauses_only_def drained_def prepare_categories_def)

end

section \<open>The whole\<close>

definition start_categories :: "string list" where
  "start_categories = [''main-deploy-ledger-failed'', ''main-deploy-rollback-unavailable'', ''main-deploy-rollback-candidate-invalid'']"

definition finds :: "(overlay_artifact \<Rightarrow> bool) \<Rightarrow> overlay_artifact result \<Rightarrow> bool" where
  "finds ok r \<longleftrightarrow> (case r of Inl e \<Rightarrow> \<forall>c. e = MainDeploymentError c \<longrightarrow> c \<in> set start_categories | Inr a \<Rightarrow> ok a)"

definition artifact_valid :: "pylib \<Rightarrow> yaml_lib \<Rightarrow> deploy_target \<Rightarrow> overlay_artifact \<Rightarrow> bool" where
  "artifact_valid L Y t a \<longleftrightarrow> validate_overlay_content L Y t (oa_content a) (oa_sha256 a) = Inr a"

lemma validated_artifact: "validate_overlay_content L Y t content sha = Inr a \<Longrightarrow> artifact_valid L Y t a"
  using accepted_parts [of L Y t content sha a] by (auto simp: artifact_valid_def)

lemma candidate_invalid_finds: "finds ok (candidate_invalid e)"
  by (simp add: finds_def candidate_invalid_def main_error_def start_categories_def safe_categories_def)

lemma validate_previous_finds: "finds (artifact_valid L Y t) (validate_previous L Y r identity t fp)"
  unfolding validate_previous_def try_except_def
  by (auto simp: candidate_invalid_finds bind_result_Inr_iff split: sum.split option.split_asm if_split_asm)
    (auto simp: finds_def validated_artifact)

lemma validate_baseline_finds: "finds (artifact_valid L Y t) (validate_baseline L Y r t fp)"
  unfolding validate_baseline_def try_except_def
  by (auto simp: candidate_invalid_finds bind_result_Inr_iff split: sum.split if_split_asm)
    (auto simp: finds_def validated_artifact)

lemma unavailable_finds: "finds ok (Inl (main_error ''main-deploy-rollback-unavailable''))"
  by (simp add: finds_def main_error_def start_categories_def safe_categories_def)

lemma foreign_finds: "foreign (Inl e :: 'a result) \<Longrightarrow> finds ok (Inl e)"
  by (simp add: foreign_def finds_def)

lemma does_foreign:
  assumes "obeys good view f quiet" "\<And>s r s'. f s = (r, s') \<Longrightarrow> foreign r"
  shows "does good view (call f) (\<lambda>r v v'. v' = v \<and> foreign r)"
  using assms by (auto simp: obeys_def does_def wp_call quiet_def)

context deploy_site
begin

lemma does_candidate:
  "does good view (rollback_candidate P L Y identity t fp) (\<lambda>r v v'. v' = v \<and> finds (artifact_valid L Y t) r)"
  unfolding rollback_candidate_def
proof (rule does_seq [OF does_foreign [OF quiet_reads(2) foreign_reads(2)]])
  let ?Q = "\<lambda>r v v'. v' = v \<and> finds (artifact_valid L Y t) r"
  have baseline: "does good view (seq (call (dp_baseline P fp)) (\<lambda>baseline.
         case baseline of
           None \<Rightarrow> raising (main_error ''main-deploy-rollback-unavailable'')
         | Some b \<Rightarrow> of_result (validate_baseline L Y b t fp))) ?Q"
  proof (rule does_seq [OF does_foreign [OF quiet_reads(3) foreign_reads(3)], where S = "\<lambda>_. ?Q"])
    show "does good view (case b of None \<Rightarrow> raising (main_error ''main-deploy-rollback-unavailable'')
        | Some b \<Rightarrow> of_result (validate_baseline L Y b t fp)) ?Q" for b
      by (cases b) (auto intro!: does_raising does_of_result validate_baseline_finds unavailable_finds)
  qed (auto dest: foreign_finds)
  show "does good view (case previous of
       Some r \<Rightarrow> of_result (validate_previous L Y r identity t fp)
     | None \<Rightarrow> seq (call (dp_baseline P fp)) (\<lambda>baseline.
         case baseline of
           None \<Rightarrow> raising (main_error ''main-deploy-rollback-unavailable'')
         | Some b \<Rightarrow> of_result (validate_baseline L Y b t fp))) ?Q" for previous
    using baseline by (cases previous) (auto intro!: does_of_result validate_previous_finds)
qed (auto dest: foreign_finds)

lemma does_find:
  "does good view (find_rollback P L Y j)
     (\<lambda>r v v'. v' = v \<and> (case r of Inl e \<Rightarrow> e \<in> MainDeploymentError ` set start_categories
        | Inr found \<Rightarrow> \<forall>a. found = Some a \<longrightarrow> artifact_valid L Y (dj_target j) a))"
  unfolding find_rollback_def
proof (rule does_handling)
  let ?Q = "\<lambda>r v v'. v' = v \<and> (case r of Inl e \<Rightarrow> finds (artifact_valid L Y (dj_target j)) (Inl e)
      | Inr found \<Rightarrow> \<forall>a. found = Some a \<longrightarrow> artifact_valid L Y (dj_target j) a)"
  have candidate: "does good view (seq (rollback_candidate P L Y (dj_identity j) (dj_target j) (dj_fingerprint j)) (\<lambda>a. give (Some a))) ?Q"
    by (rule does_seq [OF does_candidate does_give [where R = "\<lambda>r v v'. v' = v \<and> r = Inr (Some a)" for a]]) (auto simp: finds_def)
  show "does good view (seq (call (dp_already_successful P (dj_id j))) (\<lambda>done.
        if done then give None
        else seq (rollback_candidate P L Y (dj_identity j) (dj_target j) (dj_fingerprint j)) (\<lambda>a. give (Some a)))) ?Q"
  proof (rule does_seq [OF does_foreign [OF quiet_reads(1) foreign_reads(1)], where S = "\<lambda>_. ?Q"])
    show "does good view (if ready then give None
        else seq (rollback_candidate P L Y (dj_identity j) (dj_target j) (dj_fingerprint j)) (\<lambda>a. give (Some a))) ?Q" for ready
      using candidate by (cases ready) (auto intro!: does_give)
  qed (auto dest: foreign_finds)
  show "does good view (raising (ledger_failure e)) (\<lambda>r v v'. v' = v \<and> r = Inl (ledger_failure e))" for e
    by (rule does_raising) simp
next
  fix e and r :: "overlay_artifact option result" and v v' v'' :: site_view
  assume "v' = v \<and> (case Inl e of Inl e \<Rightarrow> finds (artifact_valid L Y (dj_target j)) (Inl e)
      | Inr found \<Rightarrow> \<forall>a. found = Some a \<longrightarrow> artifact_valid L Y (dj_target j) a)"
    and "v'' = v' \<and> r = Inl (ledger_failure e)"
  then show "v'' = v \<and> (case r of Inl e \<Rightarrow> e \<in> MainDeploymentError ` set start_categories
      | Inr found \<Rightarrow> \<forall>a. found = Some a \<longrightarrow> artifact_valid L Y (dj_target j) a)"
    by (cases e) (auto simp: finds_def start_categories_def main_error_def safe_categories_def)
qed auto

lemma does_begin:
  "does good view (begin_deployment P j)
     (\<lambda>r v v'. records_only v v'
        \<and> (r = Inl (MainDeploymentError ''main-deploy-ledger-failed'') \<and> sv_recorded v' = sv_recorded v
           \<or> (\<exists>started. r = Inr started \<and> record_says j OutcomeStarted v')))"
  unfolding begin_deployment_def
proof (rule does_handling [OF _ does_raising [where R = "\<lambda>r v v'. v' = v \<and> r = Inl (MainDeploymentError ''main-deploy-ledger-failed'')"]])
  let ?Q = "\<lambda>r v v'. records_only v v' \<and> (case r of Inr _ \<Rightarrow> record_says j OutcomeStarted v' | Inl _ \<Rightarrow> sv_recorded v' = sv_recorded v)"
  show "does good view (seq (stamped P) (\<lambda>started.
        seq (call (dp_begin P (make_record j started None OutcomeStarted None None None))) (\<lambda>_. give started))) ?Q"
  proof (rule does_seq [OF does_stamped])
    show "does good view (seq (call (dp_begin P (make_record j started None OutcomeStarted None None None))) (\<lambda>_. give started)) ?Q" for started
      by (rule does_seq [OF does_call [OF notes_begin] does_give [where R = "\<lambda>r v v'. v' = v \<and> (\<exists>x. r = Inr x)"]])
        (auto simp: notes_record_def record_says_def make_record_def)
  qed (auto simp: quiet_def records_only_def split: sum.split_asm sum.split)
qed (auto simp: category_safe [OF safe_members(3)])

end

text \<open>What a deployment promises, by its result.\<close>

definition paused_same :: "deploy_job \<Rightarrow> site_view \<Rightarrow> site_view \<Rightarrow> bool" where
  "paused_same j v v' \<longleftrightarrow> (\<forall>i \<in> set (dt_dag_allowlist (dj_target j)). sv_paused v' i = sv_paused v i)"

definition job_artifact :: "pylib \<Rightarrow> yaml_lib \<Rightarrow> deploy_job \<Rightarrow> overlay_artifact result" where
  "job_artifact L Y j = render_release_overlay L Y (dj_target j) (job_checkout j) (mi_workflow_sha (dj_identity j))"

definition site_runs :: "deploy_job \<Rightarrow> overlay_artifact \<Rightarrow> deployment_outcome \<Rightarrow> site_view \<Rightarrow> bool" where
  "site_runs j a out v \<longleftrightarrow>
     sv_installed v = Some (oa_content a) \<and> sv_served v = Some (oa_content a)
     \<and> (\<exists>q. sv_recorded v (dj_id j) = Some q \<and> dr_deployment_id q = dj_id j \<and> dr_outcome q = out \<and> dr_candidate_sha q = mi_workflow_sha (dj_identity j)
         \<and> dr_overlay_content_b64 q = Some (b64_encode (oa_content a)))"

definition deployable :: "pylib \<Rightarrow> yaml_lib \<Rightarrow> deploy_job \<Rightarrow> string set" where
  "deployable L Y j = {oa_content a |a. job_artifact L Y j = Inr a \<or> artifact_valid L Y (dj_target j) a}"

text \<open>
  The rows of the table, by the category of the error.  The first ones fail before anything is recorded; the
  last ones fail after the start was recorded and before the candidate is installed.
\<close>

definition site_kept :: "deploy_job \<Rightarrow> site_view \<Rightarrow> site_view \<Rightarrow> bool" where
  "site_kept j v v' \<longleftrightarrow>
     paused_same j v v' \<and> sv_installed v' = sv_installed v \<and> sv_served v' = sv_served v \<and> sv_history v' = sv_history v"

definition untouched_categories :: "string list" where
  "untouched_categories =
     [''main-deploy-rollback-unavailable'', ''main-deploy-rollback-candidate-invalid'', ''main-deploy-snapshot-invalid'']"

definition rejected_categories :: "string list" where
  "rejected_categories = prepare_categories @ [''main-deploy-candidate-validation-failed'']"

definition error_ends :: "pylib \<Rightarrow> yaml_lib \<Rightarrow> deploy_job \<Rightarrow> string \<Rightarrow> site_view \<Rightarrow> site_view \<Rightarrow> bool" where
  "error_ends L Y j c v v' \<longleftrightarrow>
     (if c = ''main-deploy-rolled-back'' then
        paused_same j v v' \<and> (\<exists>a. artifact_valid L Y (dj_target j) a \<and> site_runs j a OutcomeRolledBack v')
      else if c = ''main-deploy-rollback-failed'' then
        all_of (sorted_dags (dj_target j)) (sv_paused v') \<and> (record_says j OutcomeRollbackFailed v' \<or> record_says j OutcomeStarted v')
      else if c = ''main-deploy-pause-state-unverified'' then
        record_says j OutcomeRollbackFailed v' \<or> record_says j OutcomeStarted v'
      else if c \<in> set untouched_categories then v' = v
      else if c = ''main-deploy-ledger-failed'' then
        site_kept j v v' \<and> (sv_recorded v' = sv_recorded v \<or> record_says j OutcomeStarted v')
      else c \<in> set rejected_categories \<and> site_kept j v v' \<and> record_says j OutcomeFailed v')"

definition deployment_ends :: "pylib \<Rightarrow> yaml_lib \<Rightarrow> deploy_job \<Rightarrow> deployment_result view_change" where
  "deployment_ends L Y j r v v' \<longleftrightarrow>
     redeployed_paused j (deployable L Y j) v v' \<and> overlays_among (deployable L Y j) v v'
     \<and> (case r of
          Inr x \<Rightarrow>
            x = job_result j True \<and> v' = v
            \<or> x = job_result j False \<and> paused_same j v v'
              \<and> (\<exists>a. job_artifact L Y j = Inr a \<and> site_runs j a OutcomeSuccess v')
        | Inl (MainDeploymentError c) \<Rightarrow> error_ends L Y j c v v'
        | Inl _ \<Rightarrow> False)"

definition snapshot_of :: "deploy_job \<Rightarrow> site_view \<Rightarrow> (string \<times> bool) list" where
  "snapshot_of j v = map (\<lambda>i. (i, sv_paused v i)) (sorted_dags (dj_target j))"

lemma pause_snapshot_reads:
  assumes "pause_snapshot raw (sorted_dags (dj_target j)) = Inr snapshot"
    and "\<forall>d i b. raw = PDict d \<and> dict_get i d = PBool b \<longrightarrow> sv_paused v i = b"
  shows "snapshot = snapshot_of j v"
proof -
  obtain d where d: "raw = PDict d" "\<forall>i \<in> set (sorted_dags (dj_target j)). dict_get i d = PBool True \<or> dict_get i d = PBool False"
    and snapshot: "snapshot = map (\<lambda>i. (i, dict_get i d = PBool True)) (sorted_dags (dj_target j))"
    using assms(1) by (auto simp: pause_snapshot_def list_all_iff split: pyobj.splits if_splits)
  have "sv_paused v i \<longleftrightarrow> dict_get i d = PBool True" if "i \<in> set (sorted_dags (dj_target j))" for i
    using d(2) [rule_format, OF that] assms(2) d(1) by fastforce
  then show ?thesis by (simp add: snapshot snapshot_of_def)
qed

lemma pause_snapshot_error:
  "pause_snapshot raw dags = Inl e \<Longrightarrow> e = MainDeploymentError ''main-deploy-snapshot-invalid''"
  by (auto simp: pause_snapshot_def main_error_def safe_categories_def split: pyobj.splits if_splits)

lemma paused_as_snapshot: "paused_as (snapshot_of j v) (sv_paused v') \<Longrightarrow> paused_same j v v'"
  by (auto simp: paused_as_def snapshot_of_def paused_same_def sorted_dags_def map_of_map_restrict restrict_map_def image_image)

lemma settled_runs: "settled j started (snapshot_of j v) a out health v' \<Longrightarrow> paused_same j v v' \<and> site_runs j a out v'"
  by (auto simp: settled_def site_runs_def make_record_def dest: paused_as_snapshot)

text \<open>A failure that is not of the last step keeps the site.\<close>

lemma site_kept_history: "site_kept j v v' \<Longrightarrow> redeployed_paused j cs v v' \<and> overlays_among cs v v'"
  by (simp add: site_kept_def redeployed_paused_same overlays_among_same)

lemma ends_untouched:
  assumes "c \<in> set untouched_categories"
  shows "deployment_ends L Y j (Inl (MainDeploymentError c)) v v"
  using assms
  by (auto simp: deployment_ends_def error_ends_def redeployed_paused_same overlays_among_same untouched_categories_def)

lemma ends_ledger:
  assumes "site_kept j v v'" "sv_recorded v' = sv_recorded v \<or> record_says j OutcomeStarted v'"
  shows "deployment_ends L Y j (Inl (MainDeploymentError ''main-deploy-ledger-failed'')) v v'"
  using assms site_kept_history by (simp add: deployment_ends_def error_ends_def untouched_categories_def)

lemma ends_rejected:
  assumes "c \<in> set rejected_categories" "site_kept j v v'" "record_says j OutcomeFailed v'"
  shows "deployment_ends L Y j (Inl (MainDeploymentError c)) v v'"
proof -
  have "c \<notin> {''main-deploy-rolled-back'', ''main-deploy-rollback-failed'', ''main-deploy-pause-state-unverified'', ''main-deploy-ledger-failed''}"
      "c \<notin> set untouched_categories" "c \<in> set safe_categories"
    using assms(1)
    by (auto simp: rejected_categories_def prepare_categories_def drain_categories_def untouched_categories_def safe_categories_def)
  with assms site_kept_history show ?thesis by (simp add: deployment_ends_def error_ends_def)
qed

lemma rejected_safe: "c \<in> set rejected_categories \<Longrightarrow> c \<in> set safe_categories"
  by (auto simp: rejected_categories_def prepare_categories_def drain_categories_def safe_categories_def)

text \<open>From a recorded start on, the record is the one of the start until another is written.\<close>

lemma started_or: "record_says j OutcomeStarted u \<Longrightarrow> record_or_kept j out u v' \<Longrightarrow> record_says j out v' \<or> record_says j OutcomeStarted v'"
  by (auto simp: record_or_kept_def intro: record_says_same)

lemma ends_closed:
  assumes "redeployed_paused j (deployable L Y j) v v'" "overlays_among (deployable L Y j) v v'"
    and "record_says j OutcomeRollbackFailed v' \<or> record_says j OutcomeStarted v'"
    and "r = Inl (MainDeploymentError ''main-deploy-rollback-failed'') \<and> all_of (sorted_dags (dj_target j)) (sv_paused v')
      \<or> r = Inl (MainDeploymentError ''main-deploy-pause-state-unverified'')"
  shows "deployment_ends L Y j r v v'"
  using assms by (auto simp: deployment_ends_def error_ends_def)

lemma backs_out_ends:
  assumes "backs_out j (snapshot_of j v) category r u v'" "category \<in> set rejected_categories" "record_says j OutcomeStarted u"
    "sv_installed u = sv_installed v" "sv_served u = sv_served v" "sv_history u = sv_history v"
  shows "deployment_ends L Y j r v v'"
  using assms(1) unfolding backs_out_def
proof
  assume closed: "closes j r u v'"
  then have "record_says j OutcomeRollbackFailed v' \<or> record_says j OutcomeStarted v'"
    using started_or [OF assms(3)] by (simp add: closes_def)
  then show ?thesis using closed assms(4-)
    by (intro ends_closed) (auto simp: closes_def redeployed_paused_same overlays_among_same)
next
  assume *: "sv_installed v' = sv_installed u \<and> sv_served v' = sv_served u \<and> sv_history v' = sv_history u
    \<and> paused_as (snapshot_of j v) (sv_paused v')
    \<and> (r = Inl (MainDeploymentError ''main-deploy-ledger-failed'') \<and> sv_recorded v' = sv_recorded u
       \<or> r = Inl (main_error category) \<and> record_says j OutcomeFailed v')"
  then have kept: "site_kept j v v'" using assms(4-) paused_as_snapshot by (simp add: site_kept_def)
  from * consider "r = Inl (MainDeploymentError ''main-deploy-ledger-failed'')" "sv_recorded v' = sv_recorded u"
    | "r = Inl (main_error category)" "record_says j OutcomeFailed v'" by blast
  then show ?thesis
  proof cases
    case 1
    then have "record_says j OutcomeStarted v'" using assms(3) record_says_same by metis
    with 1(1) ends_ledger [OF kept] show ?thesis by blast
  next
    case 2
    then show ?thesis using ends_rejected [OF assms(2) kept] category_safe [OF rejected_safe [OF assms(2)]] by simp
  qed
qed

lemma rolls_back_ends:
  assumes "rolls_back j started (snapshot_of j v) a r u v'" "artifact_valid L Y (dj_target j) a" "record_says j OutcomeStarted u"
    "redeployed_paused j (deployable L Y j) v u" "overlays_among (deployable L Y j) v u"
  shows "deployment_ends L Y j r v v'"
proof -
  have sub: "{oa_content a} \<subseteq> deployable L Y j" using assms(2) by (auto simp: deployable_def)
  have now: "redeployed_paused j {oa_content a} u v'" "overlays_among {oa_content a} u v'" using assms(1) by (simp_all add: rolls_back_def)
  note history = redeployed_paused_trans [OF assms(4) redeployed_paused_mono [OF now(1) sub]]
    overlays_among_trans [OF assms(5) overlays_among_mono [OF now(2) sub]]
  show ?thesis
  proof (cases "r = Inl (MainDeploymentError ''main-deploy-rolled-back'')")
    case True
    with assms(1) have "settled j started (snapshot_of j v) a OutcomeRolledBack ''failed'' v'" unfolding rolls_back_def by auto
    then have "paused_same j v v' \<and> (\<exists>a. artifact_valid L Y (dj_target j) a \<and> site_runs j a OutcomeRolledBack v')"
      using settled_runs assms(2) by blast
    with True history show ?thesis by (simp add: deployment_ends_def error_ends_def)
  next
    case False
    with assms(1) have "record_or_kept j OutcomeRollbackFailed u v'" by (auto simp: rolls_back_def)
    with False assms(1) history started_or [OF assms(3)] show ?thesis by (intro ends_closed) (auto simp: rolls_back_def)
  qed
qed

definition begun_from :: "deploy_job \<Rightarrow> site_view \<Rightarrow> site_view \<Rightarrow> bool" where
  "begun_from j v u \<longleftrightarrow>
     sv_installed u = sv_installed v \<and> sv_served u = sv_served v \<and> sv_history u = sv_history v \<and> record_says j OutcomeStarted u"

text \<open>What the installation does to a begun deployment.\<close>

lemma installs_from:
  assumes "installs_candidate j started snapshot a r u u'" "begun_from j v u" "job_artifact L Y j = Inr a"
    "all_of (sorted_dags (dj_target j)) (sv_paused u)"
  shows "redeployed_paused j (deployable L Y j) v u'" "overlays_among (deployable L Y j) v u'"
    "\<And>e. r = Inl e \<Longrightarrow> record_says j OutcomeStarted u'"
proof -
  have sub: "{oa_content a} \<subseteq> deployable L Y j" using assms(3) by (auto simp: deployable_def)
  have "redeployed_paused j {oa_content a} u u'" "overlays_among {oa_content a} u u'"
    using assms(1,4) by (simp_all add: installs_candidate_def)
  then have "redeployed_paused j (deployable L Y j) u u'" "overlays_among (deployable L Y j) u u'"
    using redeployed_paused_mono overlays_among_mono sub by blast+
  then show "redeployed_paused j (deployable L Y j) v u'" "overlays_among (deployable L Y j) v u'"
    using assms(2) by (auto simp: begun_from_def redeployed_paused_def overlays_among_def)
  show "record_says j OutcomeStarted u'" if "r = Inl e" for e
    using assms(1,2) that by (auto simp: installs_candidate_def begun_from_def intro: record_says_same)
qed

context deploy_site
begin

text \<open>From the recorded start on, in the view the snapshot was taken in.\<close>

lemma ends_installed:
  assumes "drain_bound (dj_target j) fuel" "artifact_valid L Y (dj_target j) previous"
  shows "does good view (handling (install_candidate P j started snapshot a staged) (\<lambda>_. rollback P fuel j started snapshot previous))
     (\<lambda>r u v'. \<forall>v. job_artifact L Y j = Inr a \<and> all_of (sorted_dags (dj_target j)) (sv_paused u) \<and> snapshot = snapshot_of j v
        \<and> begun_from j v u \<longrightarrow> deployment_ends L Y j r v v')"
proof (rule does_handling [OF does_install does_rollback [OF assms(1)]], goal_cases)
  case (1 e r u u' v')
  show ?case
  proof (intro allI impI)
    fix v
    assume "job_artifact L Y j = Inr a \<and> all_of (sorted_dags (dj_target j)) (sv_paused u) \<and> snapshot = snapshot_of j v \<and> begun_from j v u"
    with installs_from [OF 1(1)] 1(2) rolls_back_ends [OF _ assms(2)] show "deployment_ends L Y j r v v'" by blast
  qed
next
  case (2 y u u')
  show ?case
  proof (intro allI impI)
    fix v
    assume v: "job_artifact L Y j = Inr a \<and> all_of (sorted_dags (dj_target j)) (sv_paused u) \<and> snapshot = snapshot_of j v \<and> begun_from j v u"
    then have "y = job_result j False" "settled j started (snapshot_of j v) a OutcomeSuccess ''passed'' u'"
      using 2 by (simp_all add: installs_candidate_def)
    with v installs_from [OF 2] settled_runs show "deployment_ends L Y j (Inr y) v u'"
      unfolding deployment_ends_def by fastforce
  qed
qed

lemma ends_after_prepare:
  assumes "drain_bound (dj_target j) fuel" "artifact_valid L Y (dj_target j) previous"
  shows "does good view
     (attempt (prepare P L Y fuel j) (\<lambda>e. fail_before_install P j started snapshot None (failure_category e)) (\<lambda>(a, staged).
      attempt (call (dp_validate_candidate P staged))
        (\<lambda>_. fail_before_install P j started snapshot (Some staged) ''main-deploy-candidate-validation-failed'') (\<lambda>_.
      handling (install_candidate P j started snapshot a staged) (\<lambda>_. rollback P fuel j started snapshot previous))))
     (\<lambda>r u v'. \<forall>v. snapshot = snapshot_of j v \<and> begun_from j v u \<longrightarrow> deployment_ends L Y j r v v')"
proof (rule does_attempt [OF does_prepare [OF assms(1)] does_back_out])
  let ?S = "\<lambda>x r u v'. \<forall>v. job_artifact L Y j = Inr (fst x) \<and> all_of (sorted_dags (dj_target j)) (sv_paused u) \<and> snapshot = snapshot_of j v
      \<and> begun_from j v u \<longrightarrow> deployment_ends L Y j r v v'"
  show "does good view (case x of (a, staged) \<Rightarrow> attempt (call (dp_validate_candidate P staged))
        (\<lambda>_. fail_before_install P j started snapshot (Some staged) ''main-deploy-candidate-validation-failed'') (\<lambda>_.
      handling (install_candidate P j started snapshot a staged) (\<lambda>_. rollback P fuel j started snapshot previous))) (?S x)" for x
  proof -
    obtain a staged where x: "x = (a, staged)" by force
    show ?thesis unfolding x prod.case
    proof (rule does_attempt [OF does_call [OF quiet_candidate(4)] does_back_out ends_installed [OF assms]])
      fix e and r :: "deployment_result result" and u u' v' :: site_view
      assume "quiet (Inl e :: unit result) u u'" "backs_out j snapshot ''main-deploy-candidate-validation-failed'' r u' v'"
      then show "?S (a, staged) r u v'"
        by (auto simp: quiet_def rejected_categories_def begun_from_def intro!: backs_out_ends)
    qed (simp add: quiet_def)
  qed
next
  fix e and r :: "deployment_result result" and u u' v' :: site_view
  assume prep: "prepares L Y j (Inl e) u u'" and undone: "backs_out j snapshot (failure_category e) r u' v'"
  have "failure_category e \<in> set rejected_categories" using prep by (simp add: prepares_def rejected_categories_def)
  moreover have "pauses_only u u'" using prep by (simp add: prepares_def)
  ultimately show "\<forall>v. snapshot = snapshot_of j v \<and> begun_from j v u \<longrightarrow> deployment_ends L Y j r v v'"
    using undone by (auto simp: pauses_only_def begun_from_def intro: backs_out_ends record_says_same)
next
  fix x and r :: "deployment_result result" and u u' v' :: site_view
  assume "prepares L Y j (Inr x) u u'"
    and "\<forall>v. job_artifact L Y j = Inr (fst x) \<and> all_of (sorted_dags (dj_target j)) (sv_paused u') \<and> snapshot = snapshot_of j v
      \<and> begun_from j v u' \<longrightarrow> deployment_ends L Y j r v v'"
  then show "\<forall>v. snapshot = snapshot_of j v \<and> begun_from j v u \<longrightarrow> deployment_ends L Y j r v v'"
    by (cases x) (auto simp: prepares_def pauses_only_def job_artifact_def begun_from_def intro: record_says_same)
qed

end

lemma ends_idempotent: "deployment_ends L Y j (Inr (job_result j True)) v v"
  by (simp add: deployment_ends_def redeployed_paused_same overlays_among_same)

lemma ends_not_begun:
  assumes "records_only v v'" "sv_recorded v' = sv_recorded v"
  shows "deployment_ends L Y j (Inl (MainDeploymentError ''main-deploy-ledger-failed'')) v v'"
  by (rule ends_ledger) (use assms in \<open>auto simp: records_only_def site_kept_def paused_same_def\<close>)

lemma ends_at_start: "c \<in> set start_categories \<Longrightarrow> deployment_ends L Y j (Inl (MainDeploymentError c)) v v"
  using ends_untouched [of c] ends_not_begun [of v v]
  by (auto simp: start_categories_def untouched_categories_def records_only_def)

context deploy_site
begin

lemma does_deploy_locked:
  assumes "drain_bound (dj_target j) fuel"
  shows "does good view (deploy_locked P L Y fuel j) (deployment_ends L Y j)"
  unfolding deploy_locked_def Let_def
proof (rule does_seq_if [OF does_find])
  let ?dags = "sorted_dags (dj_target j)"
  let ?rest = "\<lambda>previous snapshot started.
      attempt (prepare P L Y fuel j) (\<lambda>e. fail_before_install P j started snapshot None (failure_category e)) (\<lambda>(a, staged).
      attempt (call (dp_validate_candidate P staged))
        (\<lambda>_. fail_before_install P j started snapshot (Some staged) ''main-deploy-candidate-validation-failed'') (\<lambda>_.
      handling (install_candidate P j started snapshot a staged) (\<lambda>_. rollback P fuel j started snapshot previous)))"
  fix found and v v' :: site_view
  assume found: "v' = v \<and> (case Inr found of Inl e \<Rightarrow> e \<in> MainDeploymentError ` set start_categories
      | Inr found \<Rightarrow> \<forall>a. found = Some a \<longrightarrow> artifact_valid L Y (dj_target j) a)"
  have begun: "does good view (seq (begin_deployment P j) (?rest previous snapshot))
      (\<lambda>r u v'. snapshot = snapshot_of j u \<longrightarrow> deployment_ends L Y j r u v')"
    if "artifact_valid L Y (dj_target j) previous" for previous snapshot
    by (rule does_seq [OF does_begin ends_after_prepare [OF assms that]])
      (auto simp: records_only_def begun_from_def intro: ends_not_begun [unfolded records_only_def])
  have checked: "does good view (seq (of_result (pause_snapshot raw ?dags)) (\<lambda>snapshot. seq (begin_deployment P j) (?rest previous snapshot)))
      (\<lambda>r u v'. (\<forall>d i b. raw = PDict d \<and> dict_get i d = PBool b \<longrightarrow> sv_paused u i = b) \<longrightarrow> deployment_ends L Y j r u v')"
    if "artifact_valid L Y (dj_target j) previous" for previous raw
    by (rule does_seq [OF does_of_result [where R = "\<lambda>r v v'. v' = v \<and> r = pause_snapshot raw ?dags"] begun [OF that]])
      (auto simp: untouched_categories_def dest: pause_snapshot_error [OF sym] pause_snapshot_reads [OF sym] intro!: ends_untouched)
  show "does good view (case found of
        None \<Rightarrow> give (job_result j True)
      | Some previous \<Rightarrow>
          attempt (call (dp_capture_pause_state P ?dags)) (\<lambda>_. raising (main_error ''main-deploy-snapshot-invalid'')) (\<lambda>raw.
          seq (of_result (pause_snapshot raw ?dags)) (\<lambda>snapshot. seq (begin_deployment P j) (?rest previous snapshot))))
      (deployment_ends L Y j)"
  proof (cases found)
    case None
    then show ?thesis by (simp add: does_give ends_idempotent)
  next
    case (Some previous)
    then have "artifact_valid L Y (dj_target j) previous" using found by simp
    from checked [OF this] Some show ?thesis
      by (auto intro!: does_attempt [OF does_call [OF capture_reads]
            does_raising [where R = "\<lambda>r v v'. v' = v \<and> r = Inl (MainDeploymentError ''main-deploy-snapshot-invalid'')"]]
          simp: reads_pause_def main_error_def safe_categories_def untouched_categories_def intro!: ends_untouched)
  qed
qed (auto intro: ends_at_start)

end

text \<open>
  With the lock: it could not be acquired, and nothing has happened, or it could not be released, after an
  end as above.
\<close>

definition run_ends :: "pylib \<Rightarrow> yaml_lib \<Rightarrow> deploy_job \<Rightarrow> deployment_result view_change" where
  "run_ends L Y j r v v' \<longleftrightarrow>
     deployment_ends L Y j r v v'
     \<or> r = Inl (MainDeploymentError ''main-deploy-lock-failed'') \<and> (v' = v \<or> (\<exists>q. deployment_ends L Y j q v v'))"

definition job_of :: "pylib \<Rightarrow> main_identity \<Rightarrow> deploy_target \<Rightarrow> string \<Rightarrow> deploy_job" where
  "job_of L identity t i = \<lparr>dj_identity = identity, dj_target = t, dj_fingerprint = target_fingerprint L t, dj_id = i\<rparr>"

lemma deployment_ends_history: "deployment_ends L Y j r v v' \<Longrightarrow> redeployed_paused j (deployable L Y j) v v'"
  by (simp add: deployment_ends_def)

lemma deployment_ends_error: "deployment_ends L Y j (Inl e) v v' \<Longrightarrow> \<exists>c. e = MainDeploymentError c"
  by (cases e) (auto simp: deployment_ends_def)

definition lock_fails :: "pyexc \<Rightarrow> bool" where
  "lock_fails e \<longleftrightarrow> lock_failure e = MainDeploymentError ''main-deploy-lock-failed''"

lemma foreign_lock_fails: "foreign (Inl e :: 'a result) \<Longrightarrow> lock_fails e"
  by (cases e) (simp_all add: foreign_def lock_fails_def main_error_def safe_categories_def)

context deploy_site
begin

lemma does_release:
  assumes "does good view m (\<lambda>q v v'. v' = v \<and> q = r)"
  shows "does good view (seq (call (dp_release_lock P)) (\<lambda>_. m))
    (\<lambda>q v v'. v' = v \<and> (q = r \<or> (\<exists>e. q = Inl e \<and> lock_fails e)))"
  by (rule does_seq [OF does_foreign [OF quiet_lock(2) foreign_lock(2)] assms]) (auto dest: foreign_lock_fails)

lemma does_holding:
  assumes "drain_bound (dj_target j) fuel"
  shows "does good view (handling (holding_lock P i (deploy_locked P L Y fuel j)) (\<lambda>e. raising (lock_failure e))) (run_ends L Y j)"
proof (rule does_handling [OF _ does_raising [where R = "\<lambda>r v v'. v' = v \<and> r = Inl (lock_failure e)" for e]])
  let ?Q = "\<lambda>r v v'. deployment_ends L Y j r v v' \<or> (\<exists>e. r = Inl e \<and> lock_fails e) \<and> (v' = v \<or> (\<exists>q. deployment_ends L Y j q v v'))"
  show "does good view (holding_lock P i (deploy_locked P L Y fuel j)) ?Q"
    unfolding holding_lock_def
  proof (rule does_seq [OF does_foreign [OF quiet_lock(1) foreign_lock(1)], where S = "\<lambda>_. ?Q"])
    show "does good view (attempt (deploy_locked P L Y fuel j) (\<lambda>e. seq (call (dp_release_lock P)) (\<lambda>_. raising e))
        (\<lambda>r. seq (call (dp_release_lock P)) (\<lambda>_. give r))) ?Q" for x :: unit
      by (rule does_attempt [OF does_deploy_locked [OF assms]
            does_release [OF does_raising [where R = "\<lambda>q v v'. v' = v \<and> q = Inl e" for e]]
            does_release [OF does_give [where R = "\<lambda>q v v'. v' = v \<and> q = Inr r" for r]]])
        auto
  qed (auto dest: foreign_lock_fails)
  fix e and r :: "deployment_result result" and v v' v'' :: site_view
  assume "?Q (Inl e) v v'" "v'' = v' \<and> r = Inl (lock_failure e)"
  then show "run_ends L Y j r v v''"
    using deployment_ends_error [of L Y j e v v'] by (auto simp: run_ends_def lock_fails_def)
qed (auto simp: run_ends_def)

lemma does_deploy:
  assumes "drain_bound t fuel"
    and "deployment_id L (mi_repository identity) (mi_workflow_sha identity) (target_fingerprint L t) = Inr i"
  shows "does good view (deploy P L Y fuel identity t) (run_ends L Y (job_of L identity t i))"
  using does_holding [of "job_of L identity t i" fuel i L Y] assms
  by (simp add: deploy_def job_of_def attempt_def of_result_def)

end

end
