(* ===== verification/Deploy_World.thy ===== *)
theory Deploy_World
  imports Deploy_Site
begin

text \<open>
  A site that keeps the promises: the ledger and the store of overlays are those of the code
  (\<open>deployment/ledger.py\<close>, \<open>deployment/overlay.py\<close>), and every call of an adapter may fail, before or after
  its effect, as a script of fates decides (\<open>deployment/fake_adapters.py\<close> scripts failures in the same way).
  The properties of the deployment are stated here.
\<close>

section \<open>The world\<close>

datatype call_fate = Works | FailsBefore | FailsAfter

record deploy_world =
  dw_pauses :: "string \<Rightarrow> bool"
  dw_counts :: "writer_run_counts option list"
  dw_overlays :: overlay_store
  dw_served :: "string option"
  dw_history :: "((string \<Rightarrow> bool) \<times> string option) list"
  dw_ledger :: files
  dw_locked :: bool
  dw_now :: rat
  dw_fates :: "call_fate list"

definition take_fate :: "deploy_world \<Rightarrow> call_fate \<times> deploy_world" where
  "take_fate w = (case dw_fates w of [] \<Rightarrow> (Works, w) | f # fs \<Rightarrow> (f, w\<lparr>dw_fates := fs\<rparr>))"

definition external :: "(deploy_world \<Rightarrow> deploy_world) \<Rightarrow> (deploy_world \<Rightarrow> 'a) \<Rightarrow> deploy_world \<Rightarrow> 'a result \<times> deploy_world" where
  "external effect value w =
     (case take_fate w of
        (Works, u) \<Rightarrow> (Inr (value u), effect u)
      | (FailsBefore, u) \<Rightarrow> (Inl (RuntimeError ''adapter''), u)
      | (FailsAfter, u) \<Rightarrow> (Inl (RuntimeError ''adapter''), effect u))"

definition ledger_call :: "pylib \<Rightarrow> deployment_record \<Rightarrow> deploy_world \<Rightarrow> unit result \<times> deploy_world" where
  "ledger_call L q w =
     (let (f, u) = take_fate w;
          fate = (case f of Works \<Rightarrow> WriteDone | FailsBefore \<Rightarrow> WriteTorn None | FailsAfter \<Rightarrow> WriteTorn (Some ''{''));
          (r, fs) = ledger_write L fate q (dw_ledger u)
      in (r, u\<lparr>dw_ledger := fs\<rparr>))"

definition store_call ::
  "(call_fate \<Rightarrow> overlay_store \<Rightarrow> 'a result \<times> overlay_store) \<Rightarrow> deploy_world \<Rightarrow> 'a result \<times> deploy_world" where
  "store_call f w = (let (fate, u) = take_fate w; (r, st) = f fate (dw_overlays u) in (r, u\<lparr>dw_overlays := st\<rparr>))"

fun stage_fate_of :: "call_fate \<Rightarrow> stage_fate" where
  "stage_fate_of Works = StageDone" | "stage_fate_of FailsBefore = StageNoFile" | "stage_fate_of FailsAfter = StageTorn"

fun install_fate_of :: "call_fate \<Rightarrow> install_fate" where
  "install_fate_of Works = InstallDone" | "install_fate_of FailsBefore = InstallUnreplaced" | "install_fate_of FailsAfter = InstallUnsynced"

text \<open>The lock is a file that must not exist (\<open>acquire_lock\<close>); a failed write removes it again.\<close>

definition acquire_lock :: "deploy_world \<Rightarrow> unit result \<times> deploy_world" where
  "acquire_lock w =
     (if dw_locked w then (Inl (OSError ''lock file exists''), w)
      else case take_fate w of
          (Works, u) \<Rightarrow> (Inr (), u\<lparr>dw_locked := True\<rparr>)
        | (_, u) \<Rightarrow> (Inl (OSError ''lock file''), u))"

definition release_lock :: "deploy_world \<Rightarrow> unit result \<times> deploy_world" where
  "release_lock w =
     (case take_fate w of
        (Works, u) \<Rightarrow> (Inr (), u\<lparr>dw_locked := False\<rparr>)
      | (_, u) \<Rightarrow> (Inl (OSError ''lock file''), u))"

definition next_counts :: "deploy_world \<Rightarrow> writer_run_counts option" where
  "next_counts w = (case dw_counts w of [] \<Rightarrow> Some \<lparr>wc_running = 0, wc_queued = 0\<rparr> | c # _ \<Rightarrow> c)"

definition redeploy_effect :: "deploy_target \<Rightarrow> deploy_world \<Rightarrow> deploy_world" where
  "redeploy_effect t w =
     w\<lparr>dw_served := installed_overlay t (dw_overlays w),
       dw_history := (dw_pauses w, installed_overlay t (dw_overlays w)) # dw_history w\<rparr>"

text \<open>Failed services run what they ran, or what is installed; the call is in the history in any case.\<close>

definition redeploy_call :: "deploy_target \<Rightarrow> deploy_world \<Rightarrow> unit result \<times> deploy_world" where
  "redeploy_call t w =
     (case take_fate w of
        (Works, u) \<Rightarrow> (Inr (), redeploy_effect t u)
      | (FailsBefore, u) \<Rightarrow> (Inl (RuntimeError ''compose''), (redeploy_effect t u)\<lparr>dw_served := dw_served u\<rparr>)
      | (FailsAfter, u) \<Rightarrow> (Inl (RuntimeError ''compose''), redeploy_effect t u))"

definition world_ports ::
  "pylib \<Rightarrow> yaml_lib \<Rightarrow> deploy_target \<Rightarrow> (string option \<Rightarrow> bool) \<Rightarrow> (rat \<Rightarrow> string) \<Rightarrow> deploy_world deploy_ports" where
  "world_ports L Y t healthy stamp =
     \<lparr>dp_acquire_lock = (\<lambda>i. acquire_lock), dp_release_lock = release_lock,
      dp_already_successful = (\<lambda>i w. (already_successful L i (dw_ledger w), w)),
      dp_previous_success = (\<lambda>fp w. (previous_success L fp (dw_ledger w), w)),
      dp_baseline = (\<lambda>fp w. (ledger_baseline L fp (dw_ledger w), w)),
      dp_begin = ledger_call L, dp_complete = ledger_call L,
      dp_capture_pause_state = (\<lambda>dags. external id (\<lambda>w. PDict (map (\<lambda>i. (i, PBool (dw_pauses w i))) (remdups dags)))),
      dp_writer_run_counts = (\<lambda>dags. external (\<lambda>w. w\<lparr>dw_counts := tl (dw_counts w)\<rparr>) next_counts),
      dp_pause_dag = (\<lambda>i. external (\<lambda>w. w\<lparr>dw_pauses := (dw_pauses w)(i := True)\<rparr>) (\<lambda>_. ())),
      dp_unpause_dag = (\<lambda>i. external (\<lambda>w. w\<lparr>dw_pauses := (dw_pauses w)(i := False)\<rparr>) (\<lambda>_. ())),
      dp_detached_checkout = (\<lambda>repo sha dir. external id (\<lambda>_. Some dir)),
      dp_stage = (\<lambda>a. store_call (\<lambda>f. stage_overlay L Y t (stage_fate_of f) a)),
      dp_install = (\<lambda>staged a. store_call (\<lambda>f. install_overlay L Y t (install_fate_of f) staged a)),
      dp_verify_installed = (\<lambda>a. store_call (\<lambda>f st. (verify_installed L Y t (f = Works) a st, st))),
      dp_restore = (\<lambda>content h. store_call (\<lambda>f. restore_overlay L Y t (stage_fate_of f) (install_fate_of f) content h)),
      dp_discard = (\<lambda>staged. store_call (\<lambda>f. discard_overlay t (f = Works) staged)),
      dp_validate_candidate = (\<lambda>f. external id (\<lambda>_. ())),
      dp_deploy_code_services = (\<lambda>f services. redeploy_call t),
      dp_read_health = (\<lambda>a. external id (\<lambda>w. if healthy (dw_served w) then ''passed'' else ''failed'')),
      dp_utc_now = external id (\<lambda>w. stamp (dw_now w)),
      dp_monotonic = external id dw_now,
      dp_sleep = (\<lambda>d. external (\<lambda>w. w\<lparr>dw_now := dw_now w + max 0 d\<rparr>) (\<lambda>_. ()))\<rparr>"

definition world_good :: "deploy_target \<Rightarrow> deploy_world \<Rightarrow> bool" where
  "world_good t w \<longleftrightarrow> store_ok t (dw_overlays w)"

definition site_of :: "pylib \<Rightarrow> deploy_target \<Rightarrow> deploy_world \<Rightarrow> site_view" where
  "site_of L t w =
     \<lparr>sv_paused = dw_pauses w, sv_installed = installed_overlay t (dw_overlays w), sv_served = dw_served w,
      sv_history = dw_history w,
      sv_recorded = (\<lambda>i. case read_deployment L (dw_ledger w) (ledger_path L ''deployment'' i) of Inr r \<Rightarrow> r | Inl _ \<Rightarrow> None)\<rparr>"

section \<open>The world keeps the promises\<close>

lemma take_fate_same:
  assumes "take_fate w = (f, u)"
  shows "dw_pauses u = dw_pauses w" "dw_overlays u = dw_overlays w" "dw_served u = dw_served w" "dw_history u = dw_history w"
    "dw_ledger u = dw_ledger w" "dw_now u = dw_now w" "dw_counts u = dw_counts w" "dw_locked u = dw_locked w"
  using assms by (auto simp: take_fate_def split: list.splits)

lemma take_fate_site: "take_fate w = (f, u) \<Longrightarrow> site_of L t u = site_of L t w" "take_fate w = (f, u) \<Longrightarrow> world_good t u = world_good t w"
  by (simp_all add: site_of_def world_good_def take_fate_same)

text \<open>A call with an effect: the effect happens, or the call failed before it.\<close>

lemma external_cases:
  assumes "external effect value w = (r, w')"
  obtains u where "site_of L t u = site_of L t w" "world_good t u = world_good t w" "dw_now u = dw_now w"
    "dw_pauses u = dw_pauses w" "dw_served u = dw_served w"
    "r = Inr (value u) \<and> w' = effect u \<or> r = Inl (RuntimeError ''adapter'') \<and> (w' = u \<or> w' = effect u)"
proof -
  obtain f u where u: "take_fate w = (f, u)" by force
  then have "r = Inr (value u) \<and> w' = effect u \<or> r = Inl (RuntimeError ''adapter'') \<and> (w' = u \<or> w' = effect u)"
    using assms by (cases f) (auto simp: external_def)
  with that [of u] take_fate_same [OF u] take_fate_site [OF u] show ?thesis by blast
qed

lemma foreign_simps [simp]: "foreign (Inr x)" "foreign (Inl (RuntimeError m))" "foreign (Inl (OSError m))"
    "foreign (Inl (ValueError m))" "foreign (Inl (TypeError m))"
  by (simp_all add: foreign_def)

lemma external_quiet: "(\<And>w. site_of L t (effect w) = site_of L t w) \<Longrightarrow> (\<And>w. world_good t (effect w) = world_good t w)
    \<Longrightarrow> obeys (world_good t) (site_of L t) (external effect value) quiet"
  by (auto simp: obeys_def quiet_def elim!: external_cases [of _ _ _ _ _ L t])

lemma external_frame:
  assumes "\<And>u. site_of L t u = site_of L t w \<Longrightarrow> world_good t u = world_good t w \<Longrightarrow> dw_pauses u = dw_pauses w
      \<Longrightarrow> R (Inr (value u)) (site_of L t w) (site_of L t (effect u)) \<and> world_good t (effect u) = world_good t w
        \<and> R (Inl (RuntimeError ''adapter'')) (site_of L t w) (site_of L t (effect u))
        \<and> R (Inl (RuntimeError ''adapter'')) (site_of L t w) (site_of L t w)"
    and "external effect value w = (r, w')" "world_good t w"
  shows "world_good t w' \<and> R r (site_of L t w) (site_of L t w')"
  using assms(2)
proof (rule external_cases [of _ _ _ _ _ L t])
  fix u
  assume u: "site_of L t u = site_of L t w" "world_good t u = world_good t w" "dw_pauses u = dw_pauses w"
    "r = Inr (value u) \<and> w' = effect u \<or> r = Inl (RuntimeError ''adapter'') \<and> (w' = u \<or> w' = effect u)"
  from assms(1) [OF u(1-3)] u(1,2,4) assms(3) show ?thesis by auto
qed

lemma store_call_obeys:
  assumes "\<And>f st r st'. store_ok t st \<Longrightarrow> g f st = (r, st') \<Longrightarrow> store_ok t st'
      \<and> (\<forall>w. R r (site_of L t (w\<lparr>dw_overlays := st\<rparr>)) (site_of L t (w\<lparr>dw_overlays := st'\<rparr>)))"
  shows "obeys (world_good t) (site_of L t) (store_call g) R"
  unfolding obeys_def
proof (intro allI impI)
  fix w r w' assume w: "world_good t w" "store_call g w = (r, w')"
  obtain f u where u: "take_fate w = (f, u)" by force
  obtain st where st: "g f (dw_overlays u) = (r, st)" "w' = u\<lparr>dw_overlays := st\<rparr>"
    using w(2) u by (auto simp: store_call_def split: prod.splits)
  have "store_ok t (dw_overlays u)" using w(1) take_fate_site(2) [OF u, of t] by (simp add: world_good_def)
  from assms [OF this st(1)] have "store_ok t st" "R r (site_of L t (u\<lparr>dw_overlays := dw_overlays u\<rparr>)) (site_of L t (u\<lparr>dw_overlays := st\<rparr>))"
    by blast+
  moreover have "site_of L t (u\<lparr>dw_overlays := dw_overlays u\<rparr>) = site_of L t w" using take_fate_site(1) [OF u, of L t] by simp
  ultimately show "world_good t w' \<and> R r (site_of L t w) (site_of L t w')"
    by (simp add: st(2) world_good_def)
qed

lemma ledger_write_reads_back:
  assumes "ledger_write (std_lib h) fate q fs = (Inr (), fs')"
  shows "read_deployment (std_lib h) fs' (ledger_path (std_lib h) ''deployment'' (dr_deployment_id q)) = Inr (Some q)"
proof -
  have valid: "validate_deployment_record (std_lib h) q = Inr ()"
    using assms by (auto simp: ledger_write_def split: sum.splits)
  obtain doc where doc: "record_text (std_lib h) (record_payload q) = Inr doc"
    using record_text_flat [OF record_payload_facts(1,2)] by blast
  have "fate = WriteDone"
    using assms valid doc by (auto simp: ledger_write_def write_atomic_def split: write_fate.splits option.splits)
  with assms valid doc have "map_of fs' (ledger_path (std_lib h) ''deployment'' (dr_deployment_id q)) = Some doc"
    by (auto simp: ledger_write_def write_atomic_def)
  with std_line.written_record_reads_back [OF valid doc] show ?thesis by (simp add: read_deployment_def)
qed

text \<open>A write that fails leaves what is read: at most the temporary file is torn.\<close>

lemma failed_write_reads_same:
  assumes "ledger_write (std_lib h) fate q fs = (Inl e, fs')"
  shows "read_deployment (std_lib h) fs' (ledger_path (std_lib h) ''deployment'' i) = read_deployment (std_lib h) fs (ledger_path (std_lib h) ''deployment'' i)"
proof -
  let ?name = "ledger_path (std_lib h) ''deployment'' (dr_deployment_id q)"
  have "fs' = fs \<or> (\<exists>part. fs' = dict_set (temporary_name ?name) part fs)"
    using assms by (auto simp: ledger_write_def write_atomic_def split: sum.splits write_fate.splits option.splits)
  moreover have "ledger_path (std_lib h) ''deployment'' i \<noteq> temporary_name ?name" using ledger_path_names(3) by metis
  ultimately show ?thesis by (auto simp: read_deployment_def)
qed

lemma ledger_call_obeys: "obeys (world_good t) (site_of (std_lib h) t) (ledger_call (std_lib h) q) (notes_record q)"
  unfolding obeys_def
proof (intro allI impI)
  fix w r w' assume w: "world_good t w" "ledger_call (std_lib h) q w = (r, w')"
  obtain f u where u: "take_fate w = (f, u)" by force
  obtain fs fate where fs: "ledger_write (std_lib h) fate q (dw_ledger u) = (r, fs)" "w' = u\<lparr>dw_ledger := fs\<rparr>"
    using w(2) u by (auto simp: ledger_call_def Let_def split: prod.splits)
  have "sv_recorded (site_of (std_lib h) t w') (dr_deployment_id q) = Some q" if "r = Inr ()"
    using ledger_write_reads_back [OF fs(1) [unfolded that]] by (simp add: fs(2) site_of_def)
  moreover have "sv_recorded (site_of (std_lib h) t w') = sv_recorded (site_of (std_lib h) t w)" if "r = Inl e" for e
    using failed_write_reads_same [OF fs(1) [unfolded that]] take_fate_same(5) [OF u] by (simp add: fs(2) site_of_def)
  moreover have "records_only (site_of (std_lib h) t w) (site_of (std_lib h) t w')"
    using take_fate_same [OF u] by (simp add: records_only_def fs(2) site_of_def)
  ultimately show "world_good t w' \<and> notes_record q r (site_of (std_lib h) t w) (site_of (std_lib h) t w')"
    using w(1) take_fate_same [OF u] by (cases r) (simp_all add: notes_record_def world_good_def fs(2))
qed

lemma verify_sites: "verify_installed L Y t readable a st = r
    \<Longrightarrow> verifies (oa_content a) r (site_of L t (w\<lparr>dw_overlays := st\<rparr>)) (site_of L t (w\<lparr>dw_overlays := st\<rparr>))"
  using verify_installed_Inr [of L Y t readable a st] by (auto simp: verifies_def site_of_def)

text \<open>Reading the ledger raises no error of the orchestrator.\<close>

lemma foreign_bind: "foreign m \<Longrightarrow> (\<And>x. foreign (k x)) \<Longrightarrow> foreign (bind_result m k)"
  by (cases m) (simp_all add: foreign_def)

lemma foreign_traverse: "(\<And>x. foreign (f x)) \<Longrightarrow> foreign (traverse f xs)"
proof (induction xs)
  case (Cons x xs)
  have "foreign (f x)" "foreign (traverse f xs)" using Cons by blast+
  then show ?case by (cases "f x"; cases "traverse f xs") (simp_all add: foreign_def)
qed simp

lemma foreign_canonical_bytes [simp]: "foreign (canonical_bytes L ks d)"
  by (simp add: canonical_bytes_def split: option.split)

lemma foreign_read_record [simp]: "foreign (read_record L s)"
  by (auto simp: read_record_def intro!: foreign_bind split: option.split pyobj.split)

lemma foreign_read_deployment [simp]: "foreign (read_deployment L fs n)"
  by (auto simp: read_deployment_def deployment_from_payload_def Let_def intro!: foreign_bind split: option.split sum.split)

lemma foreign_ledger [simp]: "foreign (already_successful L i fs)" "foreign (previous_success L i fs)" "foreign (ledger_baseline L i fs)"
  by (auto simp: already_successful_def previous_success_def ledger_baseline_def deployment_records_def baseline_records_def
      intro!: foreign_bind foreign_traverse split: option.split)

lemma lock_site:
  "acquire_lock w = (r, w') \<Longrightarrow> site_of L t w' = site_of L t w \<and> world_good t w' = world_good t w \<and> foreign r"
  "release_lock w = (r, w') \<Longrightarrow> site_of L t w' = site_of L t w \<and> world_good t w' = world_good t w \<and> foreign r"
  using take_fate_same [of w]
  by (auto simp: acquire_lock_def release_lock_def site_of_def world_good_def split: if_split_asm prod.splits call_fate.splits)

lemma redeploy_obeys: "obeys (world_good t) (site_of L t) (redeploy_call t) redeploys"
  using take_fate_same
  by (auto simp: obeys_def redeploys_def redeploy_call_def redeploy_effect_def site_of_def world_good_def
      split: prod.splits call_fate.splits)

lemma pause_obeys:
  "obeys (world_good t) (site_of L t) (external (\<lambda>w. w\<lparr>dw_pauses := (dw_pauses w)(i := b)\<rparr>) (\<lambda>_. ())) (sets_pause i b)"
  unfolding obeys_def
proof (intro allI impI)
  fix w r w'
  assume w: "world_good t w" "external (\<lambda>w. w\<lparr>dw_pauses := (dw_pauses w)(i := b)\<rparr>) (\<lambda>_. ()) w = (r, w')"
  show "world_good t w' \<and> sets_pause i b r (site_of L t w) (site_of L t w')"
  proof (rule external_frame [OF _ w(2,1)])
    fix u assume u: "site_of L t u = site_of L t w" "world_good t u = world_good t w" "dw_pauses u = dw_pauses w"
    then have "site_of L t (u\<lparr>dw_pauses := (dw_pauses u)(i := b)\<rparr>) = (site_of L t w)\<lparr>sv_paused := (dw_pauses w)(i := b)\<rparr>"
      by (simp add: site_of_def)
    moreover have "sv_paused (site_of L t w) = dw_pauses w" by (simp add: site_of_def)
    ultimately show "sets_pause i b (Inr ()) (site_of L t w) (site_of L t (u\<lparr>dw_pauses := (dw_pauses u)(i := b)\<rparr>))
        \<and> world_good t (u\<lparr>dw_pauses := (dw_pauses u)(i := b)\<rparr>) = world_good t w
        \<and> sets_pause i b (Inl (RuntimeError ''adapter'')) (site_of L t w) (site_of L t (u\<lparr>dw_pauses := (dw_pauses u)(i := b)\<rparr>))
        \<and> sets_pause i b (Inl (RuntimeError ''adapter'')) (site_of L t w) (site_of L t w)"
      using u(2) by (simp add: sets_pause_def pauses_only_def world_good_def)
  qed
qed

lemma capture_obeys:
  "obeys (world_good t) (site_of L t) (external id (\<lambda>w. PDict (map (\<lambda>i. (i, PBool (dw_pauses w i))) dags))) reads_pause"
  unfolding obeys_def
proof (intro allI impI)
  fix w r w'
  assume w: "world_good t w" "external id (\<lambda>w. PDict (map (\<lambda>i. (i, PBool (dw_pauses w i))) dags)) w = (r, w')"
  show "world_good t w' \<and> reads_pause r (site_of L t w) (site_of L t w')"
  proof (rule external_frame [OF _ w(2,1)])
    fix u assume u: "site_of L t u = site_of L t w" "world_good t u = world_good t w" "dw_pauses u = dw_pauses w"
    have "b = dw_pauses w i" if "dict_get i (map (\<lambda>i. (i, PBool (dw_pauses u i))) dags) = PBool b" for i b
      using that u(3) by (auto simp: dict_get_def map_of_map_restrict restrict_map_def split: if_split_asm)
    then show "reads_pause (Inr (PDict (map (\<lambda>i. (i, PBool (dw_pauses u i))) dags))) (site_of L t w) (site_of L t (id u))
        \<and> world_good t (id u) = world_good t w \<and> reads_pause (Inl (RuntimeError ''adapter'')) (site_of L t w) (site_of L t (id u))
        \<and> reads_pause (Inl (RuntimeError ''adapter'')) (site_of L t w) (site_of L t w)"
      using u by (auto simp: reads_pause_def) (auto simp: site_of_def)
  qed
qed

lemma external_foreign: "external effect value w = (r, w') \<Longrightarrow> foreign r"
  by (auto simp: external_def split: prod.splits call_fate.splits)

lemma external_clock:
  assumes "external effect value w = (r, w')" "world_good t w"
    and "\<And>u. site_of L t (effect u) = site_of L t u \<and> world_good t (effect u) = world_good t u \<and> dw_now u \<le> dw_now (effect u)"
  shows "world_good t w' \<and> site_of L t w' = site_of L t w \<and> dw_now w \<le> dw_now w' \<and> foreign r"
  using assms(1)
proof (rule external_cases [of _ _ _ _ _ L t])
  fix u
  assume u: "site_of L t u = site_of L t w" "world_good t u = world_good t w" "dw_now u = dw_now w"
    "r = Inr (value u) \<and> w' = effect u \<or> r = Inl (RuntimeError ''adapter'') \<and> (w' = u \<or> w' = effect u)"
  then show ?thesis using assms(2) assms(3) [of u] external_foreign [OF assms(1)] by auto
qed

lemma external_now: "external id dw_now w = (Inr x, w') \<Longrightarrow> x = dw_now w'"
  by (auto simp: external_def split: prod.splits call_fate.splits)

lemma external_sleep:
  "external (\<lambda>w. w\<lparr>dw_now := dw_now w + max 0 d\<rparr>) (\<lambda>_. ()) w = (Inr (), w') \<Longrightarrow> dw_now w + d \<le> dw_now w'"
  by (auto simp: external_def take_fate_same split: prod.splits call_fate.splits)

interpretation world: deploy_site "world_ports (std_lib h) Y t healthy stamp" "world_good t" "site_of (std_lib h) t" dw_now
  for h Y t healthy stamp
proof
  note quiet_id = external_quiet [of "std_lib h" t id]
  let ?P = "world_ports (std_lib h) Y t healthy stamp"
  show "obeys (world_good t) (site_of (std_lib h) t) (dp_acquire_lock ?P i) quiet"
    "obeys (world_good t) (site_of (std_lib h) t) (dp_release_lock ?P) quiet" for i
    by (auto simp: world_ports_def obeys_def quiet_def dest: lock_site)
  show "obeys (world_good t) (site_of (std_lib h) t) (dp_already_successful ?P i) quiet"
    "obeys (world_good t) (site_of (std_lib h) t) (dp_previous_success ?P i) quiet"
    "obeys (world_good t) (site_of (std_lib h) t) (dp_baseline ?P i) quiet" for i
    by (simp_all add: world_ports_def obeys_def quiet_def)
  show "obeys (world_good t) (site_of (std_lib h) t) (dp_detached_checkout ?P repo sha dir) quiet" for repo sha dir
    by (simp add: world_ports_def quiet_id)
  show "obeys (world_good t) (site_of (std_lib h) t) (dp_validate_candidate ?P f) quiet" for f
    by (simp add: world_ports_def quiet_id)
  show "obeys (world_good t) (site_of (std_lib h) t) (dp_stage ?P a) quiet" for a
    using stage_overlay_installed
    by (auto simp: world_ports_def quiet_def site_of_def intro!: store_call_obeys)
  show "obeys (world_good t) (site_of (std_lib h) t) (dp_discard ?P f) quiet" for f
    using discard_overlay_installed
    by (auto simp: world_ports_def quiet_def site_of_def intro!: store_call_obeys)
  show "obeys (world_good t) (site_of (std_lib h) t) (dp_read_health ?P a) quiet" for a
    by (simp add: world_ports_def quiet_id)
  show "obeys (world_good t) (site_of (std_lib h) t) (dp_utc_now ?P) quiet"
    by (simp add: world_ports_def quiet_id)
  show "obeys (world_good t) (site_of (std_lib h) t) (dp_begin ?P q) (notes_record q)"
    "obeys (world_good t) (site_of (std_lib h) t) (dp_complete ?P q) (notes_record q)" for q
    by (simp_all add: world_ports_def ledger_call_obeys)
  show "obeys (world_good t) (site_of (std_lib h) t) (dp_capture_pause_state ?P dags) reads_pause" for dags
    by (simp add: world_ports_def capture_obeys)
  show "obeys (world_good t) (site_of (std_lib h) t) (dp_pause_dag ?P i) (sets_pause i True)"
    "obeys (world_good t) (site_of (std_lib h) t) (dp_unpause_dag ?P i) (sets_pause i False)" for i
    by (simp_all add: world_ports_def pause_obeys)
  show "obeys (world_good t) (site_of (std_lib h) t) (dp_install ?P f a) (installs (oa_content a))" for f a
    using install_overlay_installed install_overlay_either
    by (auto simp: world_ports_def installs_def site_of_def intro!: store_call_obeys)
  show "obeys (world_good t) (site_of (std_lib h) t) (dp_restore ?P content sha) (installs content)" for content sha
    using restore_overlay_installed restore_overlay_either
    by (auto simp: world_ports_def installs_def site_of_def intro!: store_call_obeys)
  show "obeys (world_good t) (site_of (std_lib h) t) (dp_verify_installed ?P a) (verifies (oa_content a))" for a
    by (auto simp: world_ports_def verify_sites intro!: store_call_obeys)
  show "obeys (world_good t) (site_of (std_lib h) t) (dp_deploy_code_services ?P f services) redeploys" for f services
    by (simp add: world_ports_def redeploy_obeys)
next
  let ?P = "world_ports (std_lib h) Y t healthy stamp"
  show "foreign r" if "dp_acquire_lock ?P i w = (r, w')" for i w r w' using that lock_site(1) by (simp add: world_ports_def)
  show "foreign r" if "dp_release_lock ?P w = (r, w')" for w r w' using that lock_site(2) by (simp add: world_ports_def)
  show "foreign r" if "dp_already_successful ?P i w = (r, w')" for i w r w' using that by (auto simp: world_ports_def)
  show "foreign r" if "dp_previous_success ?P i w = (r, w')" for i w r w' using that by (auto simp: world_ports_def)
  show "foreign r" if "dp_baseline ?P i w = (r, w')" for i w r w' using that by (auto simp: world_ports_def)
  show "world_good t w' \<and> site_of (std_lib h) t w' = site_of (std_lib h) t w \<and> dw_now w \<le> dw_now w'
      \<and> foreign r \<and> (\<forall>x. r = Inr x \<longrightarrow> dw_now w \<le> x \<and> x \<le> dw_now w')"
    if "world_good t w" "dp_monotonic ?P w = (r, w')" for w r w'
  proof -
    have call: "external id dw_now w = (r, w')" using that(2) by (simp add: world_ports_def)
    from external_clock [OF call that(1)] external_now [of w _ w'] call show ?thesis by auto
  qed
  show "world_good t w' \<and> site_of (std_lib h) t w' = site_of (std_lib h) t w \<and> dw_now w \<le> dw_now w'
      \<and> foreign r \<and> (r = Inr () \<longrightarrow> dw_now w + d \<le> dw_now w')"
    if "world_good t w" "dp_sleep ?P d w = (r, w')" for w d r w'
  proof -
    have call: "external (\<lambda>w. w\<lparr>dw_now := dw_now w + max 0 d\<rparr>) (\<lambda>_. ()) w = (r, w')" using that(2) by (simp add: world_ports_def)
    have "world_good t w' \<and> site_of (std_lib h) t w' = site_of (std_lib h) t w \<and> dw_now w \<le> dw_now w' \<and> foreign r"
      by (rule external_clock [OF call that(1)]) (simp add: site_of_def world_good_def)
    with external_sleep [of d w w'] call show ?thesis by simp
  qed
  show "world_good t w' \<and> site_of (std_lib h) t w' = site_of (std_lib h) t w \<and> dw_now w \<le> dw_now w' \<and> foreign r"
    if "world_good t w" "dp_writer_run_counts ?P ws w = (r, w')" for w ws r w'
  proof -
    have "external (\<lambda>w. w\<lparr>dw_counts := tl (dw_counts w)\<rparr>) next_counts w = (r, w')" using that(2) by (simp add: world_ports_def)
    then show ?thesis by (rule external_clock [OF _ that(1)]) (simp add: site_of_def world_good_def)
  qed
qed

section \<open>A ledger that can be read\<close>

text \<open>Every file of a deployment can be read, or is skipped; every write keeps that.\<close>

definition ledger_readable :: "pylib \<Rightarrow> files \<Rightarrow> bool" where
  "ledger_readable L fs \<longleftrightarrow> (\<forall>n \<in> set (glob_names ''deployment'' fs). \<exists>x. read_deployment L fs n = Inr x)"

lemma readable_records: "ledger_readable L fs \<Longrightarrow> \<exists>rs. deployment_records L fs = Inr rs"
proof -
  assume "ledger_readable L fs"
  then have "traverse (read_deployment L fs) (glob_names ''deployment'' fs)
      = Inr (map (\<lambda>n. projr (read_deployment L fs n)) (glob_names ''deployment'' fs))"
    by (intro traverse_total) (force simp: ledger_readable_def)
  then show ?thesis by (simp add: deployment_records_def)
qed

lemma written_readable:
  assumes "ledger_readable L fs" "read_deployment L (dict_set name doc (file_del (temporary_name name) fs)) name = Inr x"
  shows "ledger_readable L (dict_set name doc (file_del (temporary_name name) fs))"
  unfolding ledger_readable_def
proof
  let ?fs = "dict_set name doc (file_del (temporary_name name) fs)"
  fix n assume n: "n \<in> set (glob_names ''deployment'' ?fs)"
  show "\<exists>x. read_deployment L ?fs n = Inr x"
  proof (cases "n = name")
    case False
    then have "n \<in> set (glob_names ''deployment'' fs)" "n \<noteq> temporary_name name" using n by (auto simp: glob_names_def file_del_def)
    moreover from this False have "read_deployment L ?fs n = read_deployment L fs n" by (simp add: read_deployment_def map_of_file_del)
    ultimately show ?thesis using assms(1) by (simp add: ledger_readable_def)
  qed (use assms(2) in blast)
qed

lemma torn_readable: "ledger_readable L fs \<Longrightarrow> ledger_readable L (dict_set (temporary_name name) part fs)"
proof -
  assume fs: "ledger_readable L fs"
  have "read_deployment L (dict_set (temporary_name name) part fs) n = read_deployment L fs n"
    if "n \<in> set (glob_names ''deployment'' fs)" for n
  proof -
    have "n \<noteq> temporary_name name" using that by (auto simp: glob_names_def temporary_name_def)
    then show ?thesis by (simp add: read_deployment_def)
  qed
  with fs show ?thesis by (simp add: ledger_readable_def glob_names_temporary)
qed

lemma ledger_write_readable:
  assumes "ledger_readable (std_lib h) fs" "ledger_write (std_lib h) fate q fs = (r, fs')"
  shows "ledger_readable (std_lib h) fs'"
proof (cases "validate_deployment_record (std_lib h) q")
  case (Inl e)
  with assms show ?thesis by (simp add: ledger_write_def)
next
  case (Inr v)
  then have valid: "validate_deployment_record (std_lib h) q = Inr ()" by simp
  let ?name = "ledger_path (std_lib h) ''deployment'' (dr_deployment_id q)"
  obtain doc where doc: "record_text (std_lib h) (record_payload q) = Inr doc"
    using record_text_flat [OF record_payload_facts(1,2)] by blast
  show ?thesis
  proof (cases fate)
    case WriteDone
    then have fs': "fs' = dict_set ?name doc (file_del (temporary_name ?name) fs)"
      using assms(2) valid doc by (auto simp: ledger_write_def write_atomic_def)
    have "read_deployment (std_lib h) fs' ?name = Inr (Some q)"
      using std_line.written_record_reads_back [OF valid doc] by (simp add: fs' read_deployment_def)
    then show ?thesis unfolding fs' by (rule written_readable [OF assms(1)])
  next
    case (WriteTorn part)
    with assms valid doc torn_readable show ?thesis
      by (cases part) (auto simp: ledger_write_def write_atomic_def)
  qed
qed

definition world_sound :: "(string \<Rightarrow> string) \<Rightarrow> deploy_target \<Rightarrow> deploy_world \<Rightarrow> bool" where
  "world_sound h t w \<longleftrightarrow> world_good t w \<and> ledger_readable (std_lib h) (dw_ledger w)"

lemma external_ledger:
  "external effect value w = (r, w') \<Longrightarrow> (\<And>u. dw_ledger (effect u) = dw_ledger u) \<Longrightarrow> dw_ledger w' = dw_ledger w"
  using take_fate_same(5) [of w] by (auto simp: external_def split: prod.splits call_fate.splits)

lemma store_call_ledger: "store_call f w = (r, w') \<Longrightarrow> dw_ledger w' = dw_ledger w"
  using take_fate_same(5) [of w] by (auto simp: store_call_def split: prod.splits)

lemma lock_ledger:
  "acquire_lock w = (r, w') \<Longrightarrow> dw_ledger w' = dw_ledger w" "release_lock w = (r, w') \<Longrightarrow> dw_ledger w' = dw_ledger w"
  "redeploy_call t w = (r, w') \<Longrightarrow> dw_ledger w' = dw_ledger w"
  using take_fate_same(5) [of w]
  by (auto simp: acquire_lock_def release_lock_def redeploy_call_def redeploy_effect_def
      split: if_split_asm prod.splits call_fate.splits)

lemma obeys_sound:
  assumes "obeys (world_good t) v f R" "\<And>w r w'. f w = (r, w') \<Longrightarrow> dw_ledger w' = dw_ledger w"
  shows "obeys (world_sound h t) v f R"
  using assms unfolding obeys_def world_sound_def by metis

lemma ledger_call_sound: "obeys (world_sound h t) (site_of (std_lib h) t) (ledger_call (std_lib h) q) (notes_record q)"
  unfolding obeys_def
proof (intro allI impI)
  fix w r w' assume w: "world_sound h t w" "ledger_call (std_lib h) q w = (r, w')"
  obtain f u where u: "take_fate w = (f, u)" by force
  obtain fs fate where fs: "ledger_write (std_lib h) fate q (dw_ledger u) = (r, fs)" "w' = u\<lparr>dw_ledger := fs\<rparr>"
    using w(2) u by (auto simp: ledger_call_def Let_def split: prod.splits)
  have "ledger_readable (std_lib h) (dw_ledger w')"
    using ledger_write_readable [OF _ fs(1)] w(1) take_fate_same(5) [OF u] by (simp add: fs(2) world_sound_def)
  with ledger_call_obeys [of t h q] w show "world_sound h t w' \<and> notes_record q r (site_of (std_lib h) t w) (site_of (std_lib h) t w')"
    by (auto simp: obeys_def world_sound_def)
qed

lemma world_keeps_ledger:
  fixes h Y t healthy stamp
  defines "P \<equiv> world_ports (std_lib h) Y t healthy stamp"
  shows "dp_acquire_lock P i w = (r1, w') \<Longrightarrow> dw_ledger w' = dw_ledger w" "dp_release_lock P w = (r1, w') \<Longrightarrow> dw_ledger w' = dw_ledger w"
    "dp_already_successful P i w = (r2, w') \<Longrightarrow> dw_ledger w' = dw_ledger w"
    "dp_previous_success P i w = (r3, w') \<Longrightarrow> dw_ledger w' = dw_ledger w" "dp_baseline P i w = (r4, w') \<Longrightarrow> dw_ledger w' = dw_ledger w"
    "dp_capture_pause_state P dags w = (r5, w') \<Longrightarrow> dw_ledger w' = dw_ledger w"
    "dp_writer_run_counts P dags w = (r6, w') \<Longrightarrow> dw_ledger w' = dw_ledger w"
    "dp_pause_dag P i w = (r1, w') \<Longrightarrow> dw_ledger w' = dw_ledger w" "dp_unpause_dag P i w = (r1, w') \<Longrightarrow> dw_ledger w' = dw_ledger w"
    "dp_detached_checkout P i sha dir w = (r7, w') \<Longrightarrow> dw_ledger w' = dw_ledger w" "dp_stage P a w = (r8, w') \<Longrightarrow> dw_ledger w' = dw_ledger w"
    "dp_install P i a w = (r1, w') \<Longrightarrow> dw_ledger w' = dw_ledger w" "dp_verify_installed P a w = (r1, w') \<Longrightarrow> dw_ledger w' = dw_ledger w"
    "dp_restore P i sha w = (r1, w') \<Longrightarrow> dw_ledger w' = dw_ledger w" "dp_discard P i w = (r1, w') \<Longrightarrow> dw_ledger w' = dw_ledger w"
    "dp_validate_candidate P i w = (r1, w') \<Longrightarrow> dw_ledger w' = dw_ledger w"
    "dp_deploy_code_services P i dags w = (r1, w') \<Longrightarrow> dw_ledger w' = dw_ledger w" "dp_read_health P a w = (r8, w') \<Longrightarrow> dw_ledger w' = dw_ledger w"
    "dp_utc_now P w = (r8, w') \<Longrightarrow> dw_ledger w' = dw_ledger w" "dp_monotonic P w = (r9, w') \<Longrightarrow> dw_ledger w' = dw_ledger w"
    "dp_sleep P d w = (r1, w') \<Longrightarrow> dw_ledger w' = dw_ledger w"
  unfolding P_def world_ports_def
  by (auto dest: lock_ledger store_call_ledger external_ledger)

interpretation sound: deploy_site "world_ports (std_lib h) Y t healthy stamp" "world_sound h t" "site_of (std_lib h) t" dw_now
  for h Y t healthy stamp
proof (unfold_locales, goal_cases)
  case (12 q)
  then show ?case by (simp add: world_ports_def ledger_call_sound)
next
  case (13 q)
  then show ?case by (simp add: world_ports_def ledger_call_sound)
next
  case (26 s rm s')
  then show ?case using world.monotonic_reads [of t s] world_keeps_ledger(20) by (simp add: world_sound_def)
next
  case (27 s d rs s')
  then show ?case using world.sleep_passes [of t s] world_keeps_ledger(21) by (simp add: world_sound_def)
next
  case (28 s ws rc s')
  then show ?case using world.counts_pass [of t s] world_keeps_ledger(7) by (simp add: world_sound_def)
qed ((rule obeys_sound, rule world.quiet_lock world.quiet_reads world.quiet_candidate world.quiet_probes world.capture_reads
        world.pause_sets world.unpause_sets world.install_installs world.restore_installs world.verify_verifies world.deploy_redeploys,
      erule world_keeps_ledger)
    | (erule world.foreign_lock world.foreign_reads))+

section \<open>What a deployment does\<close>

definition world_deploy ::
  "(string \<Rightarrow> string) \<Rightarrow> yaml_lib \<Rightarrow> (string option \<Rightarrow> bool) \<Rightarrow> (rat \<Rightarrow> string) \<Rightarrow> nat \<Rightarrow> main_identity \<Rightarrow> deploy_target
     \<Rightarrow> (deployment_result, deploy_world) program" where
  "world_deploy h Y healthy stamp fuel identity t =
     deploy (world_ports (std_lib h) Y t healthy stamp) (std_lib h) Y fuel identity t"

lemma world_run:
  assumes "drain_bound t fuel" "world_good t w"
    and "deployment_id (std_lib h) (mi_repository identity) (mi_workflow_sha identity) (target_fingerprint (std_lib h) t) = Inr i"
  shows "\<exists>r w'. world_deploy h Y healthy stamp fuel identity t w = Some (r, w') \<and> world_good t w'
    \<and> run_ends (std_lib h) Y (job_of (std_lib h) identity t i) r (site_of (std_lib h) t w) (site_of (std_lib h) t w')"
  using wp_Some [OF world.does_deploy [OF assms(1,3), unfolded does_def, rule_format, OF assms(2)]]
  unfolding world_deploy_def .

text \<open>The same run, on a ledger that can be read, which it leaves so.\<close>

lemma sound_run:
  assumes "drain_bound t fuel" "world_sound h t w"
    and "deployment_id (std_lib h) (mi_repository identity) (mi_workflow_sha identity) (target_fingerprint (std_lib h) t) = Inr i"
  shows "\<exists>r w'. world_deploy h Y healthy stamp fuel identity t w = Some (r, w') \<and> world_sound h t w'
    \<and> run_ends (std_lib h) Y (job_of (std_lib h) identity t i) r (site_of (std_lib h) t w) (site_of (std_lib h) t w')"
  using wp_Some [OF sound.does_deploy [OF assms(1,3), unfolded does_def, rule_format, OF assms(2)]]
  unfolding world_deploy_def .

text \<open>
  C13: A deployment returns, whatever calls fail and however long the writers run: with a result, or with a
  \<open>MainDeploymentError\<close> and no other error.  The loop that waits for the writers needs one turn for each
  poll interval that fits into the timeout, and one more.
\<close>

theorem deployment_returns:
  assumes "drain_bound t fuel" "world_good t w"
  shows "\<exists>r w'. world_deploy h Y healthy stamp fuel identity t w = Some (r, w')
    \<and> ((\<exists>x. r = Inr x \<and> de_outcome x = OutcomeSuccess) \<or> (\<exists>c. r = Inl (MainDeploymentError c)))"
proof (cases "deployment_id (std_lib h) (mi_repository identity) (mi_workflow_sha identity) (target_fingerprint (std_lib h) t)")
  case (Inl e)
  then show ?thesis by (simp add: world_deploy_def deploy_def attempt_def of_result_def raising_def main_error_def)
next
  case (Inr i)
  obtain r w' where run: "world_deploy h Y healthy stamp fuel identity t w = Some (r, w')"
    "run_ends (std_lib h) Y (job_of (std_lib h) identity t i) r (site_of (std_lib h) t w) (site_of (std_lib h) t w')"
    using world_run [OF assms Inr] by blast
  show ?thesis
  proof (cases r)
    case (Inl e)
    with run show ?thesis by (auto simp: run_ends_def dest: deployment_ends_error)
  next
    case (Inr x)
    with run show ?thesis by (auto simp: run_ends_def deployment_ends_def job_result_def)
  qed
qed

text \<open>
  C10: The result of a deployment tells the state of the site.  Whatever calls fail, the installed overlay and
  the one the services run are those of before, the one of the commit, or one that is valid for the target.
  On success the services run the overlay of the commit, it is the installed one, the record says so and
  every DAG is paused or not as before; an idempotent success changes nothing.  After a rollback the same holds of
  a validated overlay.  When the rollback fails, every DAG is paused, and the record says that it failed or is
  still that of the start; when not even the pauses could be verified, the record says no more than that.  An error
  before the start changes nothing.  An error of the ledger keeps the overlay, the services and the pauses, and
  the record is as before or that of the start; every other error keeps them too, and the record says that the
  deployment failed.  An error of the lock is one of acquiring it, and nothing has changed, or one of releasing
  it after an end as above.
\<close>

theorem deployment_result_tells_the_site:
  assumes "drain_bound t fuel" "world_good t w"
    and "deployment_id (std_lib h) (mi_repository identity) (mi_workflow_sha identity) (target_fingerprint (std_lib h) t) = Inr i"
    and "world_deploy h Y healthy stamp fuel identity t w = Some (r, w')"
  shows "deployment_ends (std_lib h) Y (job_of (std_lib h) identity t i) r (site_of (std_lib h) t w) (site_of (std_lib h) t w')
    \<or> r = Inl (MainDeploymentError ''main-deploy-lock-failed'')
      \<and> (site_of (std_lib h) t w' = site_of (std_lib h) t w
         \<or> (\<exists>q. deployment_ends (std_lib h) Y (job_of (std_lib h) identity t i) q (site_of (std_lib h) t w) (site_of (std_lib h) t w')))"
  using world_run [OF assms(1-3), of Y healthy stamp] assms(4) by (auto simp: run_ends_def)

text \<open>
  C11: Services are only redeployed while every DAG of the target is paused, and only with the overlay of
  the commit or with one that is valid for the target: whatever fails, the deployment adds no other
  entry to the history of redeployments.
\<close>

theorem services_change_only_while_paused:
  assumes "drain_bound t fuel" "world_good t w"
    and "deployment_id (std_lib h) (mi_repository identity) (mi_workflow_sha identity) (target_fingerprint (std_lib h) t) = Inr i"
    and "world_deploy h Y healthy stamp fuel identity t w = Some (r, w')"
  shows "\<exists>new. dw_history w' = new @ dw_history w
    \<and> (\<forall>(paused, overlay) \<in> set new. (\<forall>dag \<in> set (dt_dag_allowlist t). paused dag)
        \<and> (\<exists>a. overlay = Some (oa_content a)
            \<and> (render_release_overlay (std_lib h) Y t (release_root t (mi_workflow_sha identity)) (mi_workflow_sha identity) = Inr a
               \<or> validate_overlay_content (std_lib h) Y t (oa_content a) (oa_sha256 a) = Inr a)))"
proof -
  let ?j = "job_of (std_lib h) identity t i"
  have "redeployed_paused ?j (deployable (std_lib h) Y ?j) (site_of (std_lib h) t w) (site_of (std_lib h) t w')"
    using world_run [OF assms(1-3), of Y healthy stamp] assms(4)
    by (auto simp: run_ends_def redeployed_paused_same dest: deployment_ends_history)
  then obtain new where new: "dw_history w' = new @ dw_history w"
    "\<forall>e \<in> set new. all_of (sorted_dags (dj_target ?j)) (fst e) \<and> snd e \<in> Some ` deployable (std_lib h) Y ?j"
    unfolding redeployed_paused_def by (auto simp: site_of_def)
  show ?thesis
    by (rule exI [of _ new])
      (use new in \<open>fastforce simp: all_of_def sorted_dags_def deployable_def job_artifact_def job_checkout_def job_of_def artifact_valid_def\<close>)
qed

section \<open>A site on which every call works\<close>

definition calm :: "deploy_world \<Rightarrow> bool" where
  "calm w \<longleftrightarrow> dw_fates w = []"

lemma external_calm: "calm w \<Longrightarrow> external effect value w = (Inr (value w), effect w)"
  by (simp add: calm_def external_def take_fate_def)

lemma wp_call_to: "f w = (r, w') \<Longrightarrow> wp (call f) Q w \<longleftrightarrow> Q r w'"
  by (simp add: wp_call)

lemma wp_pausing_calm:
  "calm w \<Longrightarrow> wp (each_of (\<lambda>i. call (dp_pause_dag (world_ports L Y t healthy stamp) i)) dags) Q w
     \<longleftrightarrow> Q (Inr ()) (w\<lparr>dw_pauses := \<lambda>i. i \<in> set dags \<or> dw_pauses w i\<rparr>)"
proof (induction dags arbitrary: w)
  case (Cons d dags)
  let ?w = "w\<lparr>dw_pauses := (dw_pauses w)(d := True)\<rparr>"
  have "dp_pause_dag (world_ports L Y t healthy stamp) d w = (Inr (), ?w)"
    using Cons.prems by (simp add: world_ports_def external_calm)
  moreover have "calm ?w" using Cons.prems by (simp add: calm_def)
  moreover have "(\<lambda>i. i \<in> set dags \<or> dw_pauses ?w i) = (\<lambda>i. i \<in> set (d # dags) \<or> dw_pauses w i)" by auto
  ultimately show ?case using Cons.IH [of ?w] by (simp add: wp_seq wp_call_to)
qed (simp add: wp_give)

lemma wp_unpausing_calm:
  "calm w \<Longrightarrow> wp (each_of (\<lambda>(i, was_paused). if was_paused then give () else call (dp_unpause_dag (world_ports L Y t healthy stamp) i)) snapshot) Q w
     \<longleftrightarrow> Q (Inr ()) (w\<lparr>dw_pauses := \<lambda>i. dw_pauses w i \<and> (i, False) \<notin> set snapshot\<rparr>)"
proof (induction snapshot arbitrary: w)
  case (Cons e snapshot)
  obtain d b where e: "e = (d, b)" by force
  let ?w = "if b then w else w\<lparr>dw_pauses := (dw_pauses w)(d := False)\<rparr>"
  have "\<not> b \<Longrightarrow> dp_unpause_dag (world_ports L Y t healthy stamp) d w = (Inr (), ?w)"
    using Cons.prems by (simp add: world_ports_def external_calm)
  moreover have "calm ?w" using Cons.prems by (simp add: calm_def)
  moreover have "?w\<lparr>dw_pauses := \<lambda>i. dw_pauses ?w i \<and> (i, False) \<notin> set snapshot\<rparr>
      = w\<lparr>dw_pauses := \<lambda>i. dw_pauses w i \<and> (i, False) \<notin> set (e # snapshot)\<rparr>"
    by (auto simp: e intro!: arg_cong [of _ _ "\<lambda>p. w\<lparr>dw_pauses := p\<rparr>"])
  ultimately show ?case using Cons.IH [of ?w] e by (cases b) (simp_all add: wp_seq wp_give wp_call_to)
qed (simp add: wp_give)

lemma wp_matches_calm:
  assumes "calm w" "\<And>i. i \<in> set dags \<Longrightarrow> map_of expected i = Some (dw_pauses w i)"
  shows "wp (pause_state_matches (world_ports L Y t healthy stamp) dags expected) Q w \<longleftrightarrow> Q (Inr True) w"
proof -
  let ?d = "map (\<lambda>i. (i, PBool (dw_pauses w i))) (remdups dags)"
  have "dp_capture_pause_state (world_ports L Y t healthy stamp) dags w = (Inr (PDict ?d), w)"
    using assms(1) by (simp add: world_ports_def external_calm)
  moreover have "readback_matches (PDict ?d) dags expected"
    using assms(2) by (auto simp: readback_matches_def list_all_iff dict_get_def map_of_map_restrict restrict_map_def image_image)
  ultimately show ?thesis by (simp add: pause_state_matches_def wp_attempt wp_call_to wp_give)
qed

lemma wp_drain_calm:
  assumes "calm w" "dw_counts w = []"
  shows "wp (drain (world_ports L Y t healthy stamp) t (Suc n)) Q w \<longleftrightarrow> Q (Inr ()) w"
proof -
  have "dp_monotonic (world_ports L Y t healthy stamp) w = (Inr (dw_now w), w)"
    "dp_writer_run_counts (world_ports L Y t healthy stamp) ws w = (Inr (Some \<lparr>wc_running = 0, wc_queued = 0\<rparr>), w)" for ws
    using assms by (simp_all add: world_ports_def external_calm next_counts_def)
  then show ?thesis by (simp add: drain_def wp_handling wp_seq wp_give wp_call_to)
qed

lemma wp_restore_calm:
  assumes "calm w" "snapshot = map (\<lambda>i. (i, before i)) dags" "\<And>i. i \<in> set dags \<Longrightarrow> dw_pauses w i"
  shows "wp (restore_snapshot (world_ports L Y t healthy stamp) snapshot) Q w
    \<longleftrightarrow> Q (Inr ()) (w\<lparr>dw_pauses := \<lambda>i. dw_pauses w i \<and> (i \<in> set dags \<longrightarrow> before i)\<rparr>)"
proof -
  have eq: "(\<lambda>i. dw_pauses w i \<and> (i, False) \<notin> set snapshot) = (\<lambda>i. dw_pauses w i \<and> (i \<in> set dags \<longrightarrow> before i))"
    unfolding assms(2) by auto
  let ?w = "w\<lparr>dw_pauses := \<lambda>i. dw_pauses w i \<and> (i \<in> set dags \<longrightarrow> before i)\<rparr>"
  have "calm ?w" using assms(1) by (simp add: calm_def)
  then have "wp (pause_state_matches (world_ports L Y t healthy stamp) (remdups (map fst snapshot)) snapshot) R ?w \<longleftrightarrow> R (Inr True) ?w" for R
    by (rule wp_matches_calm) (use assms(2,3) in \<open>auto simp: map_of_map_restrict restrict_map_def\<close>)
  then show ?thesis
    using assms(1) by (simp add: restore_snapshot_def wp_seq wp_give wp_unpausing_calm eq)
qed

lemma wp_stamped_calm:
  assumes "calm w" "utc_timestamp (stamp (dw_now w))"
  shows "wp (stamped (world_ports L Y t healthy stamp)) Q w \<longleftrightarrow> Q (Inr (stamp (dw_now w))) w"
  using assms
  by (simp add: stamped_def wp_seq wp_of_result wp_give timestamp_required_def wp_call_to [where w' = w] world_ports_def external_calm)

lemma ledger_call_calm:
  assumes "calm w" "validate_deployment_record (std_lib h) q = Inr ()"
  shows "\<exists>fs. ledger_call (std_lib h) q w = (Inr (), w\<lparr>dw_ledger := fs\<rparr>)"
proof -
  obtain doc where "record_text (std_lib h) (record_payload q) = Inr doc"
    using record_text_flat [OF record_payload_facts(1,2)] by blast
  then show ?thesis
    using assms by (simp add: ledger_call_def calm_def take_fate_def ledger_write_def write_atomic_def) blast
qed

lemma stage_then_install:
  assumes "artifact_valid L Y t a"
  shows "\<exists>name st1 st2. stage_overlay L Y t StageDone a st = (Inr name, st1)
    \<and> install_overlay L Y t InstallDone name a st1 = (Inr (), st2) \<and> verify_installed L Y t True a st2 = Inr ()"
proof -
  let ?name = "staged_name t (fresh_part (os_files st))"
  let ?st1 = "\<lparr>os_files = dict_set ?name (oa_content a) (os_files st), os_staged = ?name # os_staged st\<rparr>"
  have "stage_overlay L Y t StageDone a st = (Inr ?name, ?st1)"
    using assms by (simp add: stage_overlay_def artifact_valid_def Let_def)
  moreover have "verify_installed L Y t True a (replaced t ?name (oa_content a) ?st1) = Inr ()"
    using assms by (simp add: verify_installed_def artifact_valid_def replaced_def)
  moreover have "require_known_staged t ?name ?st1 = Inr ()"
    by (simp add: require_known_staged_def staged_name_def is_prefix_iff is_suffix_def)
  then have "install_overlay L Y t InstallDone ?name a ?st1
      = (verify_installed L Y t True a (replaced t ?name (oa_content a) ?st1), replaced t ?name (oa_content a) ?st1)"
    using assms by (simp add: install_overlay_def artifact_valid_def replaced_def Let_def)
  ultimately show ?thesis by auto
qed

definition job_ready :: "pylib \<Rightarrow> deploy_job \<Rightarrow> bool" where
  "job_ready L j \<longleftrightarrow>
     deployment_id L (mi_repository (dj_identity j)) (mi_workflow_sha (dj_identity j)) (dj_fingerprint j) = Inr (dj_id j)"

lemma job_ready_facts:
  assumes "job_ready L j"
  shows "lower_hex 40 (mi_workflow_sha (dj_identity j))" "lower_hex 64 (dj_fingerprint j)" "mi_repository (dj_identity j) \<noteq> []"
  using assms by (auto simp: job_ready_def deployment_id_def require_sha_def bind_result_Inr_iff split: if_splits)

lemma started_record_valid:
  assumes "job_ready L j" "utc_timestamp started"
  shows "validate_deployment_record L (make_record j started None OutcomeStarted None None None) = Inr ()"
  using assms(2) job_ready_facts [OF assms(1)] assms(1)
  by (simp add: job_ready_def make_record_def validate_deployment_record_def validate_started_def require_timestamp_def require_sha_def)

lemma success_record_valid:
  assumes "job_ready L j" "utc_timestamp started" "utc_timestamp completed"
    and "artifact_valid L Y t a" "lower_hex 64 (oa_sha256 a)"
  shows "validate_deployment_record L (make_record j started (Some completed) OutcomeSuccess (Some ''passed'') (Some a) None) = Inr ()"
proof -
  have "sha256_hex L (oa_content a) = oa_sha256 a"
    using assms(4) accepted_parts [of L Y t "oa_content a" "oa_sha256 a" a] by (auto simp: artifact_valid_def)
  then show ?thesis
    using assms(2,3,5) job_ready_facts [OF assms(1)] assms(1)
    by (simp add: job_ready_def make_record_def validate_deployment_record_def validate_success_def require_overlay_def
        require_timestamp_def require_sha_def b64_decode_encode)
qed

text \<open>
  Everything the deployment needs is there: no call fails, the lock is free, no writer runs, the clock
  gives timestamps, the commit was not deployed yet, there is an overlay to roll back to, and the overlay
  of the commit is valid and healthy.
\<close>

definition site_works ::
  "(string \<Rightarrow> string) \<Rightarrow> yaml_lib \<Rightarrow> (string option \<Rightarrow> bool) \<Rightarrow> (rat \<Rightarrow> string) \<Rightarrow> deploy_job \<Rightarrow> overlay_artifact \<Rightarrow> deploy_world \<Rightarrow> bool" where
  "site_works h Y healthy stamp j a w \<longleftrightarrow>
     dw_fates w = [] \<and> \<not> dw_locked w \<and> dw_counts w = [] \<and> utc_timestamp (stamp (dw_now w))
     \<and> already_successful (std_lib h) (dj_id j) (dw_ledger w) = Inr False
     \<and> ((\<exists>q b. previous_success (std_lib h) (dj_fingerprint j) (dw_ledger w) = Inr (Some q)
            \<and> validate_previous (std_lib h) Y q (dj_identity j) (dj_target j) (dj_fingerprint j) = Inr b)
          \<or> (\<exists>q b. previous_success (std_lib h) (dj_fingerprint j) (dw_ledger w) = Inr None
            \<and> ledger_baseline (std_lib h) (dj_fingerprint j) (dw_ledger w) = Inr (Some q)
            \<and> validate_baseline (std_lib h) Y q (dj_target j) (dj_fingerprint j) = Inr b))
     \<and> job_artifact (std_lib h) Y j = Inr a \<and> artifact_valid (std_lib h) Y (dj_target j) a \<and> lower_hex 64 (oa_sha256 a)
     \<and> healthy (Some (oa_content a))"

lemma wp_find_calm:
  assumes "site_works h Y healthy stamp j a w"
  shows "\<exists>b. \<forall>Q. wp (find_rollback (world_ports (std_lib h) Y (dj_target j) healthy stamp) (std_lib h) Y j) Q (w\<lparr>dw_locked := l\<rparr>)
    \<longleftrightarrow> Q (Inr (Some b)) (w\<lparr>dw_locked := l\<rparr>)"
  using assms
  by (auto simp: site_works_def find_rollback_def rollback_candidate_def world_ports_def wp_handling wp_seq wp_give wp_of_result wp_call_to)

lemma wp_begin_calm:
  assumes "calm w" "utc_timestamp (stamp (dw_now w))" "job_ready (std_lib h) j"
  shows "\<exists>fs. \<forall>Q. wp (begin_deployment (world_ports (std_lib h) Y t healthy stamp) j) Q w \<longleftrightarrow> Q (Inr (stamp (dw_now w))) (w\<lparr>dw_ledger := fs\<rparr>)"
proof -
  obtain fs where "ledger_call (std_lib h) (make_record j (stamp (dw_now w)) None OutcomeStarted None None None) w = (Inr (), w\<lparr>dw_ledger := fs\<rparr>)"
    using ledger_call_calm [OF assms(1) started_record_valid [OF assms(3,2)]] by blast
  then have "dp_begin (world_ports (std_lib h) Y t healthy stamp) (make_record j (stamp (dw_now w)) None OutcomeStarted None None None) w
      = (Inr (), w\<lparr>dw_ledger := fs\<rparr>)" by (simp add: world_ports_def)
  then show ?thesis
    by (intro exI [of _ fs]) (simp add: begin_deployment_def wp_handling wp_seq wp_give wp_stamped_calm [of w stamp, OF assms(1,2)] wp_call_to)
qed

lemma wp_complete_calm:
  assumes "calm w" "utc_timestamp (stamp (dw_now w))" "utc_timestamp started" "job_ready (std_lib h) j" "artifact_valid (std_lib h) Y t a"
    "lower_hex 64 (oa_sha256 a)"
  shows "\<exists>fs. \<forall>Q. wp (complete_as (world_ports (std_lib h) Y t healthy stamp) j started OutcomeSuccess (Some ''passed'') (Some a) None) Q w
    \<longleftrightarrow> Q (Inr ()) (w\<lparr>dw_ledger := fs\<rparr>)"
proof -
  let ?q = "make_record j started (Some (stamp (dw_now w))) OutcomeSuccess (Some ''passed'') (Some a) None"
  obtain fs where "ledger_call (std_lib h) ?q w = (Inr (), w\<lparr>dw_ledger := fs\<rparr>)"
    using ledger_call_calm [OF assms(1) success_record_valid [OF assms(4,3,2,5,6)]] by blast
  then have "dp_complete (world_ports (std_lib h) Y t healthy stamp) ?q w = (Inr (), w\<lparr>dw_ledger := fs\<rparr>)" by (simp add: world_ports_def)
  then show ?thesis
    by (intro exI [of _ fs]) (simp add: complete_as_def wp_seq wp_stamped_calm [of w stamp, OF assms(1,2)] wp_call_to)
qed

lemma wp_prepare_calm:
  assumes "calm w" "dw_counts w = []" "job_artifact (std_lib h) Y j = Inr a" "dj_target j = t"
    and "stage_overlay (std_lib h) Y t StageDone a (dw_overlays w) = (Inr staged, st)"
  shows "wp (prepare (world_ports (std_lib h) Y t healthy stamp) (std_lib h) Y (Suc n) j) Q w
    \<longleftrightarrow> Q (Inr (a, staged)) (w\<lparr>dw_pauses := \<lambda>i. i \<in> set (sorted_dags t) \<or> dw_pauses w i, dw_overlays := st\<rparr>)"
proof -
  let ?P = "world_ports (std_lib h) Y t healthy stamp"
  let ?w = "w\<lparr>dw_pauses := \<lambda>i. i \<in> set (sorted_dags t) \<or> dw_pauses w i\<rparr>"
  have calm: "calm ?w" using assms(1) by (simp add: calm_def)
  have "wp (pause_state_matches ?P (sorted_dags t) (all_paused (sorted_dags t))) R ?w \<longleftrightarrow> R (Inr True) ?w" for R
    by (rule wp_matches_calm [OF calm]) (auto simp: all_paused_def map_of_map_restrict restrict_map_def)
  then have pause: "wp (pause_all ?P (sorted_dags t)) R w \<longleftrightarrow> R (Inr ()) ?w" for R
    using assms(1) by (simp add: pause_all_def wp_seq wp_handling wp_give wp_pausing_calm)
  have checkout: "dp_detached_checkout ?P repo sha dir ?w = (Inr (Some dir), ?w)" for repo sha dir
    using calm by (simp add: world_ports_def external_calm)
  have "dp_stage ?P a ?w = (Inr staged, ?w\<lparr>dw_overlays := st\<rparr>)"
    using assms(1,5) by (simp add: world_ports_def store_call_def calm_def take_fate_def)
  then show ?thesis
    using assms(1-4) checkout pause
    by (simp add: prepare_def wp_seq wp_handling wp_give wp_of_result wp_drain_calm wp_call_to job_artifact_def)
qed

lemma wp_install_calm:
  assumes "calm w" "utc_timestamp (stamp (dw_now w))" "utc_timestamp started" "job_ready (std_lib h) j" "artifact_valid (std_lib h) Y t a"
    "lower_hex 64 (oa_sha256 a)" "healthy (Some (oa_content a))" "snapshot = map (\<lambda>i. (i, before i)) (sorted_dags t)"
    "\<And>i. i \<in> set (sorted_dags t) \<Longrightarrow> dw_pauses w i" "dj_target j = t"
    and inst: "install_overlay (std_lib h) Y t InstallDone staged a (dw_overlays w) = (Inr (), st)"
      "verify_installed (std_lib h) Y t True a st = Inr ()"
  shows "\<exists>w'. calm w' \<and> (\<forall>Q. wp (install_candidate (world_ports (std_lib h) Y t healthy stamp) j started snapshot a staged) Q w
    \<longleftrightarrow> Q (Inr (job_result j False)) w')"
proof -
  let ?P = "world_ports (std_lib h) Y t healthy stamp"
  define w1 where "w1 = w\<lparr>dw_overlays := st\<rparr>"
  define w2 where "w2 = redeploy_effect t w1"
  define w3 where "w3 = w2\<lparr>dw_pauses := \<lambda>i. dw_pauses w2 i \<and> (i \<in> set (sorted_dags t) \<longrightarrow> before i)\<rparr>"
  have calm: "calm w1" "calm w2" "calm w3" using assms(1) by (simp_all add: calm_def redeploy_effect_def w1_def w2_def w3_def)
  have install: "dp_install ?P staged a w = (Inr (), w1)"
    using assms(1) inst(1) by (simp add: world_ports_def store_call_def calm_def take_fate_def w1_def)
  have verify: "dp_verify_installed ?P a w1 = (Inr (), w1)"
    using calm(1) inst(2) by (simp add: world_ports_def store_call_def calm_def take_fate_def w1_def)
  have again: "dp_deploy_code_services ?P f services w1 = (Inr (), w2)" for f services
    using calm(1) by (simp add: world_ports_def redeploy_call_def calm_def take_fate_def w2_def)
  have "installed_overlay t st = Some (oa_content a)" using verify_installed_Inr [OF inst(2)] .
  then have health: "dp_read_health ?P a w2 = (Inr ''passed'', w2)"
    using calm(2) assms(7) by (simp add: world_ports_def external_calm redeploy_effect_def w1_def w2_def)
  have restore: "wp (restore_snapshot ?P snapshot) R w2 \<longleftrightarrow> R (Inr ()) w3" for R
    unfolding w3_def by (rule wp_restore_calm [OF calm(2) assms(8)]) (simp add: redeploy_effect_def w1_def w2_def assms(9))
  obtain fs where complete: "wp (complete_as ?P j started OutcomeSuccess (Some ''passed'') (Some a) None) R w3 \<longleftrightarrow> R (Inr ()) (w3\<lparr>dw_ledger := fs\<rparr>)" for R
    using wp_complete_calm [OF calm(3) _ assms(3-6), of stamp healthy] assms(2) by (auto simp: redeploy_effect_def w1_def w2_def w3_def)
  show ?thesis
    by (intro exI [of _ "w3\<lparr>dw_ledger := fs\<rparr>"] conjI allI, use calm(3) in \<open>simp add: calm_def\<close>)
      (simp add: install_candidate_def redeploy_def wp_seq wp_give wp_call_to install verify again health
        restore complete)
qed

lemma working_site_run:
  assumes "site_works h Y healthy stamp (job_of (std_lib h) identity t i) a w" "0 < fuel"
    and "deployment_id (std_lib h) (mi_repository identity) (mi_workflow_sha identity) (target_fingerprint (std_lib h) t) = Inr i"
  shows "\<exists>w'. world_deploy h Y healthy stamp fuel identity t w = Some (Inr (job_result (job_of (std_lib h) identity t i) False), w')"
proof -
  let ?L = "std_lib h" and ?P = "world_ports (std_lib h) Y t healthy stamp" and ?j = "job_of (std_lib h) identity t i"
  have j: "dj_target ?j = t" "job_ready ?L ?j" using assms(3) by (simp_all add: job_of_def job_ready_def)
  note works = assms(1) [unfolded site_works_def]
  obtain n where n: "fuel = Suc n" using assms(2) by (cases fuel) auto
  define w0 where "w0 = w\<lparr>dw_locked := True\<rparr>"
  let ?snapshot = "map (\<lambda>i. (i, dw_pauses w i)) (sorted_dags t)"
  obtain b where find: "wp (find_rollback ?P ?L Y ?j) Q w0 \<longleftrightarrow> Q (Inr (Some b)) w0" for Q
    using wp_find_calm [OF assms(1), of True] by (auto simp: j w0_def)
  have calm: "calm w0" using works by (simp add: calm_def w0_def)
  define raw where "raw = PDict (map (\<lambda>i. (i, PBool (dw_pauses w i))) (remdups (sorted_dags t)))"
  have raw: "dp_capture_pause_state ?P (sorted_dags t) w0 = (Inr raw, w0)"
    using calm by (simp add: world_ports_def external_calm raw_def w0_def)
  have snapshot: "pause_snapshot raw (sorted_dags t) = Inr ?snapshot"
    by (auto simp: raw_def pause_snapshot_def list_all_iff dict_get_def map_of_map_restrict restrict_map_def image_image)
  obtain fs where begun: "wp (begin_deployment ?P ?j) Q w0 \<longleftrightarrow> Q (Inr (stamp (dw_now w))) (w0\<lparr>dw_ledger := fs\<rparr>)" for Q
    using wp_begin_calm [OF calm _ j(2), of stamp Y t healthy] works by (auto simp: w0_def)
  define w1 where "w1 = w0\<lparr>dw_ledger := fs\<rparr>"
  have calm1: "calm w1" "dw_counts w1 = []" using calm works by (simp_all add: calm_def w1_def w0_def)
  obtain staged st1 st2 where store: "stage_overlay ?L Y t StageDone a (dw_overlays w1) = (Inr staged, st1)"
    "install_overlay ?L Y t InstallDone staged a st1 = (Inr (), st2)" "verify_installed ?L Y t True a st2 = Inr ()"
    using stage_then_install [of ?L Y t a "dw_overlays w1"] works j by auto
  define w2 where "w2 = w1\<lparr>dw_pauses := \<lambda>i. i \<in> set (sorted_dags t) \<or> dw_pauses w1 i, dw_overlays := st1\<rparr>"
  have prepared: "wp (prepare ?P ?L Y fuel ?j) Q w1 \<longleftrightarrow> Q (Inr (a, staged)) w2" for Q
    unfolding n w2_def by (rule wp_prepare_calm [OF calm1 _ j(1) store(1)]) (use works in simp)
  have calm2: "calm w2" using calm1 by (simp add: calm_def w2_def)
  have validated: "dp_validate_candidate ?P staged w2 = (Inr (), w2)" using calm2 by (simp add: world_ports_def external_calm)
  obtain w3 where calm3: "calm w3" and installed: "wp (install_candidate ?P ?j (stamp (dw_now w)) ?snapshot a staged) Q w2 \<longleftrightarrow> Q (Inr (job_result ?j False)) w3" for Q
    using wp_install_calm [OF calm2 _ _ j(2), of stamp "stamp (dw_now w)" Y t a healthy ?snapshot "dw_pauses w" staged st2] works j store
    by (auto simp: w2_def w1_def w0_def)
  have locked: "wp (deploy_locked ?P ?L Y fuel ?j) Q w0 \<longleftrightarrow> Q (Inr (job_result ?j False)) w3" for Q
    using begun installed
    by (simp add: deploy_locked_def Let_def j find wp_seq wp_attempt wp_handling wp_of_result wp_call_to raw snapshot prepared validated
        flip: w1_def)
  have "dp_acquire_lock ?P i w = (Inr (), w0)" "dp_release_lock ?P w3 = (Inr (), w3\<lparr>dw_locked := False\<rparr>)"
    using works calm3 by (simp_all add: world_ports_def acquire_lock_def release_lock_def take_fate_def w0_def calm_def)
  then have "wp (world_deploy h Y healthy stamp fuel identity t) (\<lambda>r w'. r = Inr (job_result ?j False)) w"
    using locked
    by (simp add: world_deploy_def deploy_def assms(3) holding_lock_def wp_attempt wp_seq wp_handling wp_of_result wp_give wp_call_to
        flip: job_of_def)
  then show ?thesis by (auto dest: wp_Some)
qed

text \<open>
  C12: On a site where every call works, a commit that was not deployed yet is deployed: the deployment
  returns the success of this run, not an idempotent one.
\<close>

theorem working_site_deploys:
  assumes "site_works h Y healthy stamp (job_of (std_lib h) identity t i) a w" "0 < fuel"
    and "deployment_id (std_lib h) (mi_repository identity) (mi_workflow_sha identity) (target_fingerprint (std_lib h) t) = Inr i"
  shows "\<exists>w'. world_deploy h Y healthy stamp fuel identity t w = Some (Inr (job_result (job_of (std_lib h) identity t i) False), w')"
  using working_site_run [OF assms] .

text \<open>A success that was recorded is eligible as such.\<close>

lemma deployment_from_payload_valid:
  "deployment_from_payload L d = Inr (Some q) \<Longrightarrow> validate_deployment_record L q = Inr ()"
  unfolding deployment_from_payload_def Let_def
  by (split if_split_asm, simp, split option.split_asm, simp, split if_split_asm, simp, split option.split_asm, simp, split sum.split_asm)
    (simp_all split: if_split_asm option.split_asm sum.split_asm)

lemma read_deployment_valid:
  assumes "read_deployment L fs n = Inr (Some q)" shows "validate_deployment_record L q = Inr ()"
proof -
  obtain d where "deployment_from_payload L d = Inr (Some q)"
    using assms unfolding read_deployment_def
    by (cases "map_of fs n") (auto simp: bind_result_Inr_iff split: option.split_asm)
  then show ?thesis by (rule deployment_from_payload_valid)
qed

lemma recorded_success_eligible:
  assumes "validate_deployment_record L q = Inr ()" "dr_outcome q = OutcomeSuccess"
  shows "eligible_success (dr_target_fingerprint q) q"
  using assms
  by (auto simp: eligible_success_def validate_deployment_record_def validate_success_def require_overlay_def bind_result_Inr_iff
      split: option.split_asm if_split_asm)

lemma recorded_is_read:
  assumes "read_deployment L fs (ledger_path L ''deployment'' i) = Inr (Some q)" "deployment_records L fs = Inr rs"
  shows "q \<in> set rs"
proof -
  have "ledger_path L ''deployment'' i \<in> fst ` set fs"
    using assms(1) by (auto simp: read_deployment_def split: option.splits dest!: map_of_SomeD intro: rev_image_eqI)
  then have "ledger_path L ''deployment'' i \<in> set (glob_names ''deployment'' fs)"
    using ledger_path_names by (simp add: glob_names_def)
  then obtain us k where us: "traverse (read_deployment L fs) (glob_names ''deployment'' fs) = Inr us" "rs = List.map_filter id us"
    "k < length (glob_names ''deployment'' fs)" "glob_names ''deployment'' fs ! k = ledger_path L ''deployment'' i"
    using assms(2) by (auto simp: deployment_records_def bind_result_Inr_iff in_set_conv_nth)
  then have "us ! k = Some q" "k < length us"
    using assms(1) by (auto simp: traverse_Inr_iff list_all2_conv_all_nth)
  then have "Some q \<in> set us" by (metis nth_mem)
  then show ?thesis unfolding us(2) by (auto simp: List.map_filter_def intro: rev_image_eqI)
qed

text \<open>
  C38: A successful deployment is not repeated.  After a deployment that returned a success of its own,
  on a ledger that could be read, deploying the same commit again, as soon as the lock is free and with the
  ledger as it was left, returns the idempotent success and changes nothing: no pause, no overlay, no
  redeployment.
\<close>

theorem successful_deployment_is_not_repeated:
  assumes "drain_bound t fuel" "world_sound h t w"
    and "deployment_id (std_lib h) (mi_repository identity) (mi_workflow_sha identity) (target_fingerprint (std_lib h) t) = Inr i"
    and "world_deploy h Y healthy stamp fuel identity t w = Some (Inr (job_result (job_of (std_lib h) identity t i) False), w')"
    and "dw_ledger u = dw_ledger w'" "\<not> dw_locked u" "dw_fates u = []"
  shows "world_deploy h Y healthy' stamp' fuel' identity t u = Some (Inr (job_result (job_of (std_lib h) identity t i) True), u)"
proof -
  let ?L = "std_lib h" and ?j = "job_of (std_lib h) identity t i"
  have "job_result ?j False \<noteq> job_result ?j True" by (simp add: job_result_def)
  then obtain a where "site_runs ?j a OutcomeSuccess (site_of ?L t w')"
    using sound_run [OF assms(1-3), of Y healthy stamp] assms(4) by (auto simp: run_ends_def deployment_ends_def)
  then obtain q where q: "read_deployment ?L (dw_ledger w') (ledger_path ?L ''deployment'' i) = Inr (Some q)"
    "dr_deployment_id q = i" "dr_outcome q = OutcomeSuccess"
    by (auto simp: site_runs_def site_of_def job_of_def split: sum.split_asm)
  obtain rs where rs: "deployment_records ?L (dw_ledger u) = Inr rs"
    using sound_run [OF assms(1-3), of Y healthy stamp] assms(4,5) readable_records by (auto simp: world_sound_def)
  have "q \<in> set rs" using recorded_is_read [OF q(1)] assms(5) rs by simp
  moreover have "eligible_success (dr_target_fingerprint q) q"
    using recorded_success_eligible [OF read_deployment_valid [OF q(1)] q(3)] .
  ultimately have "already_successful ?L i (dw_ledger u) = Inr True"
    using rs q(2) by (auto simp: already_successful_def list_ex_iff)
  moreover have "u\<lparr>dw_locked := False\<rparr> = u" using assms(6) by simp
  ultimately show ?thesis
    using assms(3,6,7)
    by (simp add: world_deploy_def deploy_def holding_lock_def deploy_locked_def Let_def find_rollback_def world_ports_def attempt_def
        seq_def handling_def call_def give_def of_result_def acquire_lock_def release_lock_def take_fate_def job_of_def job_result_def)
qed

section \<open>A site of two releases\<close>

definition demo_hash :: "string \<Rightarrow> string" where
  "demo_hash s = (if is_infix ''ba'' s then replicate 64 CHR ''1'' else demo_digest)"

definition demo_identity :: "string \<Rightarrow> main_identity" where
  "demo_identity sha =
     \<lparr>mi_repository = ''r'', mi_workflow_ref = ''main'', mi_workflow_sha = sha, mi_source_run_id = 1, mi_checks = []\<rparr>"

definition demo_stamp :: "rat \<Rightarrow> string" where
  "demo_stamp now = utc_text 2025 11 29 5 0 0"

abbreviation demo_lib :: pylib where "demo_lib \<equiv> std_lib demo_hash"

lemma demo_hash_hex: "lower_hex 64 (demo_hash s)"
  by (simp add: demo_hash_def demo_digest_hex) (simp add: lower_hex_def char_in_def list_all_iff)

lemma demo_fingerprint: "target_fingerprint demo_lib demo_target = demo_digest"
  by (simp add: target_fingerprint_def demo_target_def demo_hash_def)

lemma demo_id_bytes:
  assumes "sha \<in> {demo_sha40, earlier_sha40}"
  shows "deployment_id demo_lib ''r'' sha demo_digest
    = Inr (demo_hash (render demo_lib (PDict [(''candidate_sha'', PStr sha), (''repository'', PStr ''r''), (''target_fingerprint'', PStr demo_digest)])))"
proof -
  have "flat [(''repository'', PStr ''r''), (''candidate_sha'', PStr sha), (''target_fingerprint'', PStr demo_digest)]"
    by (simp add: flat_def)
  moreover have "sort_key fst [(''repository'', PStr ''r''), (''candidate_sha'', PStr sha), (''target_fingerprint'', PStr demo_digest)]
      = [(''candidate_sha'', PStr sha), (''repository'', PStr ''r''), (''target_fingerprint'', PStr demo_digest)]"
    by simp
  ultimately show ?thesis
    using demo_sha40_hex [OF assms] demo_digest_hex
    by (simp add: deployment_id_def require_sha_def canonical_bytes_def flat_canonical)
qed

lemma demo_id:
  "deployment_id demo_lib ''r'' demo_sha40 demo_digest = Inr demo_digest"
  "deployment_id demo_lib ''r'' earlier_sha40 demo_digest = Inr (replicate 64 CHR ''1'')"
  by (subst demo_id_bytes, simp, simp add: demo_hash_def demo_sha40_def earlier_sha40_def demo_digest_def numeral_eq_Suc
        json_string_def json_escape_def Let_def)+

definition demo_job :: "string \<Rightarrow> string \<Rightarrow> deploy_job" where
  "demo_job sha i = job_of demo_lib (demo_identity sha) demo_target i"

definition demo_artifact :: "string \<Rightarrow> overlay_artifact" where
  "demo_artifact sha = projr (render_release_overlay demo_lib json_yaml demo_target (release_root demo_target sha) sha)"

lemma demo_artifact_facts:
  assumes "sha \<in> {demo_sha40, earlier_sha40}"
  shows "render_release_overlay demo_lib json_yaml demo_target (release_root demo_target sha) sha = Inr (demo_artifact sha)"
    and "artifact_valid demo_lib json_yaml demo_target (demo_artifact sha)" and "oa_kind (demo_artifact sha) = ''release''"
    and "oa_candidate_sha (demo_artifact sha) = Some sha" and "lower_hex 64 (oa_sha256 (demo_artifact sha))"
proof -
  obtain a where a: "render_release_overlay demo_lib json_yaml demo_target (release_root demo_target sha) sha = Inr a"
    using demo_rendered [OF assms] by blast
  then have this_one: "demo_artifact sha = a" by (simp add: demo_artifact_def)
  note valid = json_overlays.rendered_overlay_validates [OF demo_overlay_ready [OF assms] a]
  show "render_release_overlay demo_lib json_yaml demo_target (release_root demo_target sha) sha = Inr (demo_artifact sha)"
    "artifact_valid demo_lib json_yaml demo_target (demo_artifact sha)" "oa_kind (demo_artifact sha) = ''release''"
    "oa_candidate_sha (demo_artifact sha) = Some sha"
    using a valid by (simp_all add: this_one artifact_valid_def)
  have "oa_sha256 a = demo_hash (oa_content a)"
    using valid accepted_parts [of demo_lib json_yaml demo_target "oa_content a" "oa_sha256 a" a] by auto
  then show "lower_hex 64 (oa_sha256 (demo_artifact sha))" by (simp add: this_one demo_hash_hex)
qed

definition earlier_record :: deployment_record where
  "earlier_record = make_record (demo_job earlier_sha40 (replicate 64 CHR ''1'')) (demo_stamp 0) (Some (demo_stamp 0)) OutcomeSuccess
     (Some ''passed'') (Some (demo_artifact earlier_sha40)) None"

lemma demo_job_simps [simp]:
  "dj_id (demo_job sha i) = i" "dj_fingerprint (demo_job sha i) = demo_digest" "dj_target (demo_job sha i) = demo_target"
  "dj_identity (demo_job sha i) = demo_identity sha" "mi_repository (demo_identity sha) = ''r''" "mi_workflow_sha (demo_identity sha) = sha"
  "utc_timestamp (demo_stamp x)"
  by (simp_all add: demo_job_def job_of_def demo_fingerprint demo_identity_def demo_stamp_def utc_timestamp_text)

lemma earlier_record_valid: "validate_deployment_record demo_lib earlier_record = Inr ()"
  unfolding earlier_record_def
  by (rule success_record_valid [where Y = json_yaml and t = demo_target]) (simp_all add: job_ready_def demo_id demo_artifact_facts)

definition demo_world :: deploy_world where
  "demo_world =
     \<lparr>dw_pauses = (\<lambda>i. i = ''load''), dw_counts = [], dw_overlays = \<lparr>os_files = [], os_staged = []\<rparr>, dw_served = None, dw_history = [],
      dw_ledger = snd (ledger_write demo_lib WriteDone earlier_record []), dw_locked = False, dw_now = 0, dw_fates = []\<rparr>"

lemma demo_world_records: "\<exists>rs. deployment_records demo_lib (dw_ledger demo_world) = Inr rs \<and> set rs = {earlier_record}"
proof -
  have "ledger_implements demo_lib [] Map.empty" by (simp add: ledger_implements_def glob_names_def)
  from std_line.implemented_write [OF this, of earlier_record WriteDone]
  have "ledger_implements demo_lib (dw_ledger demo_world) [dr_deployment_id earlier_record \<mapsto> earlier_record]"
    by (simp add: note_write_def earlier_record_valid demo_world_def)
  from implemented_records [OF this] show ?thesis by simp
qed

lemma earlier_is_valid_previous:
  "validate_previous demo_lib json_yaml earlier_record (demo_identity demo_sha40) demo_target demo_digest = Inr (demo_artifact earlier_sha40)"
proof -
  have "earlier_sha40 \<noteq> demo_sha40" by (simp add: earlier_sha40_def demo_sha40_def)
  then show ?thesis
    using demo_artifact_facts [of earlier_sha40]
    by (simp add: validate_previous_def earlier_record_def make_record_def timestamp_required_def demo_id decode_overlay_def
        b64_decode_encode artifact_valid_def try_except_def)
qed

lemma demo_world_works:
  "site_works demo_hash json_yaml (\<lambda>_. True) demo_stamp (demo_job demo_sha40 demo_digest) (demo_artifact demo_sha40) demo_world"
proof -
  obtain rs where rs: "deployment_records demo_lib (dw_ledger demo_world) = Inr rs" "set rs = {earlier_record}"
    using demo_world_records by blast
  have same: "filter (eligible_success demo_digest) rs = rs"
    using rs(2) recorded_success_eligible [OF earlier_record_valid]
    by (auto simp: filter_id_conv earlier_record_def make_record_def)
  then obtain q where q: "first_max completion_order (filter (eligible_success demo_digest) rs) = Some q"
    using rs(2) first_max_None [of completion_order rs] by (cases "first_max completion_order rs") auto
  then have "previous_success demo_lib demo_digest (dw_ledger demo_world) = Inr (Some earlier_record)"
    using first_max_spec [of completion_order rs q] rs same by (simp add: previous_success_def)
  moreover have "already_successful demo_lib demo_digest (dw_ledger demo_world) = Inr False"
    using rs by (auto simp: already_successful_def list_ex_iff earlier_record_def make_record_def demo_digest_def numeral_eq_Suc)
  ultimately show ?thesis
    using demo_artifact_facts [of demo_sha40] earlier_is_valid_previous
    by (simp add: site_works_def job_artifact_def job_checkout_def) (simp add: demo_world_def)
qed

lemma demo_premises:
  "drain_bound demo_target 13" "world_good demo_target demo_world"
  "deployment_id demo_lib (mi_repository (demo_identity demo_sha40)) (mi_workflow_sha (demo_identity demo_sha40))
     (target_fingerprint demo_lib demo_target) = Inr demo_digest"
  by (simp_all add: drain_bound_def demo_target_def world_good_def store_ok_def demo_world_def demo_id [unfolded demo_target_def]
      demo_fingerprint [unfolded demo_target_def])

lemma demo_run:
  "\<exists>w'. world_deploy demo_hash json_yaml (\<lambda>_. True) demo_stamp 13 (demo_identity demo_sha40) demo_target demo_world
    = Some (Inr (job_result (demo_job demo_sha40 demo_digest) False), w')"
  using working_site_run [OF demo_world_works [unfolded demo_job_def], of 13] demo_premises(3) by (simp add: demo_job_def)

lemma working_site_deploys_witness:
  "\<exists>w'. world_deploy demo_hash json_yaml (\<lambda>_. True) demo_stamp 13 (demo_identity demo_sha40) demo_target demo_world
    = Some (Inr (job_result (demo_job demo_sha40 demo_digest) False), w')"
  using working_site_deploys [OF demo_world_works [unfolded demo_job_def], of 13] demo_premises(3) by (simp add: demo_job_def)

lemma deployment_returns_witness:
  "\<exists>r w'. world_deploy demo_hash json_yaml (\<lambda>_. False) demo_stamp 13 (demo_identity demo_sha40) demo_target demo_world = Some (r, w')
    \<and> ((\<exists>x. r = Inr x \<and> de_outcome x = OutcomeSuccess) \<or> (\<exists>c. r = Inl (MainDeploymentError c)))"
  by (rule deployment_returns [OF demo_premises(1,2)])

lemma deployment_result_tells_the_site_witness:
  "\<exists>w'. deployment_ends demo_lib json_yaml (demo_job demo_sha40 demo_digest) (Inr (job_result (demo_job demo_sha40 demo_digest) False))
     (site_of demo_lib demo_target demo_world) (site_of demo_lib demo_target w')"
  using demo_run deployment_result_tells_the_site [OF demo_premises, of json_yaml "\<lambda>_. True" demo_stamp]
  by (fastforce simp: demo_job_def)

lemma services_change_only_while_paused_witness:
  "\<exists>(w' :: deploy_world) new. dw_history w' = new @ dw_history demo_world
     \<and> (\<forall>(paused, overlay) \<in> set new. \<forall>dag \<in> set (dt_dag_allowlist demo_target). paused dag)"
proof -
  obtain w' where "world_deploy demo_hash json_yaml (\<lambda>_. True) demo_stamp 13 (demo_identity demo_sha40) demo_target demo_world
    = Some (Inr (job_result (demo_job demo_sha40 demo_digest) False), w')" using demo_run by blast
  from services_change_only_while_paused [OF demo_premises this] obtain new where new: "dw_history w' = new @ dw_history demo_world"
    "\<forall>e \<in> set new. \<forall>dag \<in> set (dt_dag_allowlist demo_target). fst e dag" unfolding split_beta by blast
  show ?thesis by (rule exI [of _ w'], rule exI [of _ new], rule conjI [OF new(1)]) (use new(2) in \<open>auto simp: split_beta\<close>)
qed

lemma demo_world_sound: "world_sound demo_hash demo_target demo_world"
proof -
  have "ledger_readable demo_lib []" by (simp add: ledger_readable_def glob_names_def)
  then have "ledger_readable demo_lib (dw_ledger demo_world)"
    unfolding demo_world_def deploy_world.select_convs by (rule ledger_write_readable) (rule prod.collapse [symmetric])
  with demo_premises(2) show ?thesis by (simp add: world_sound_def)
qed

lemma successful_deployment_is_not_repeated_witness:
  "\<exists>u. dw_history u \<noteq> [] \<and> world_deploy demo_hash json_yaml (\<lambda>_. False) demo_stamp 1 (demo_identity demo_sha40) demo_target u
    = Some (Inr (job_result (demo_job demo_sha40 demo_digest) True), u)"
proof -
  obtain w' where run: "world_deploy demo_hash json_yaml (\<lambda>_. True) demo_stamp 13 (demo_identity demo_sha40) demo_target demo_world
    = Some (Inr (job_result (demo_job demo_sha40 demo_digest) False), w')" using demo_run by blast
  let ?u = "w'\<lparr>dw_locked := False, dw_fates := [], dw_history := [(\<lambda>_. True, None)]\<rparr>"
  have "world_deploy demo_hash json_yaml (\<lambda>_. False) demo_stamp 1 (demo_identity demo_sha40) demo_target ?u
      = Some (Inr (job_result (demo_job demo_sha40 demo_digest) True), ?u)"
    unfolding demo_job_def
    by (rule successful_deployment_is_not_repeated [OF demo_premises(1) demo_world_sound demo_premises(3) run [unfolded demo_job_def]])
      simp_all
  then show ?thesis by (intro exI [of _ ?u]) simp
qed

end
