(* ===== verification/Spec2Isabelle.thy ===== *)
theory Spec2Isabelle
  imports Recovery_Admission Recovery_Postgres Slot_Reconciler Kma_Xcom Kma_Collection Deploy_World
begin

text \<open>
  A verification library for the Seoul weather platform.

  The program.  Airflow DAGs collect forecasts and observations of the Korean weather service (KMA), store
  the raw responses in an object store, transform them with dbt and publish the products.  Around the pipelines
  stands the code that has to be right when something fails, and it is what is modelled here:

  \<^item> collection slots (\<open>dags/common/collection_slots\<close>): for every product, grid and time there is a slot, whose
    receipts are written once, are materialized into a table and reconciled when they are due;
  \<^item> recovery (\<open>dags/common/recovery\<close>): missing slots are planned as jobs within a budget, compiled to
    requests for Airflow, admitted by the load of the platform, and held by leases in a table that several
    workers share;
  \<^item> the gate of operations records (\<open>dags/common/ops/contract.py\<close>) and the object storage
    (\<open>dags/common/storage.py\<close>);
  \<^item> the KMA client (\<open>dags/domains/weather/weather_ingest\<close>): which cycle is published, what a response must
    be, the daily budget of calls in a ledger shared by all processes, the deadline of a cycle, and the landing
    of observations with checkpoints and a manifest;
  \<^item> the deployment of a release to the platform itself (\<open>deployment\<close>): a ledger of deployments, the overlay that
    mounts a release into the services, and the orchestrator that pauses, installs, redeploys and rolls back.

  The theories, and the code they model:

  \<^item> \<open>Py_Base\<close>, \<open>Py_Time\<close>, \<open>Py_Json\<close>, \<open>Py_Text\<close>, \<open>Py_Program\<close>: what the code uses of Python.  Exceptions are values of
    \<open>pyexc\<close> in the sum type \<open>result\<close>, dictionaries are association lists in insertion order, values
    that the code inspects with \<open>isinstance\<close> are \<open>pyobj\<close>; dates with their arithmetic and ISO texts; \<open>json.dumps\<close>
    and \<open>json.loads\<close> with the round trip between them; programs that may not return, with weakest
    preconditions for total correctness.
  \<^item> \<open>Recovery_Planner\<close> (\<open>planner.py\<close>), \<open>Recovery_Dispatch\<close> (\<open>dispatch.py\<close>), \<open>Recovery_Admission\<close> (\<open>admission.py\<close>),
    \<open>Recovery_Lease\<close> (\<open>lease.py\<close>) and \<open>Recovery_Postgres\<close> (\<open>postgres.py\<close>, its two statements on a table).
  \<^item> \<open>Slot_Contract\<close> (\<open>contract.py\<close>, \<open>activation.py\<close>), \<open>Slot_Receipts\<close> (\<open>receipts.py\<close>), \<open>Slot_Materializer\<close>
    (\<open>materializer.py\<close>), \<open>Slot_Reconciler\<close> (\<open>due_reconciler.py\<close>), over \<open>Json_Storage\<close> (\<open>storage.py\<close>); \<open>Ops_Contract\<close>
    (\<open>ops/contract.py\<close>).
  \<^item> \<open>Kma_Source\<close> (\<open>kma.py\<close>), \<open>Kma_Ledger\<close> and \<open>Kma_Deadline\<close> (\<open>kma_coordination.py\<close>), \<open>Kma_Observation\<close>
    (\<open>kma_observation.py\<close>), \<open>Kma_Http\<close> (\<open>kma_observation_http.py\<close>), \<open>Raw_Store\<close> (the object store of \<open>runtime.py\<close>),
    \<open>Kma_Landing\<close> and \<open>Kma_Xcom\<close> (\<open>kma_observation_landing.py\<close>), \<open>Kma_Collection\<close> (\<open>kma_observation_runtime.py\<close>
    and the whole collection of a slot).
  \<^item> \<open>Deploy_Models\<close> (\<open>models.py\<close>, \<open>canonical_json.py\<close>, \<open>target.py\<close>), \<open>Deploy_Ledger\<close> (\<open>ledger.py\<close>), \<open>Deploy_Overlay\<close> and
    \<open>Deploy_Store\<close> (\<open>overlay.py\<close>), \<open>Deploy_Orchestrator\<close> (\<open>main_orchestrator.py\<close>), \<open>Deploy_Site\<close> (what a deployment does
    to a site whose adapters keep their promises) and \<open>Deploy_World\<close> (a site made of the ledger and the store of the
    code, and the properties of the deployment).

  What the lemmas show.  A plan decides every candidate slot and keeps its budget; it does not depend on the
  order of candidates of different identities (of two different ones of the same identity the first is planned).
  A request is compiled for every job or none is; only what the policy allows is admitted.  When clocks agree and
  workers use the lease they were handed last, one job has one unexpired owner, and a stale worker is fenced.
  Receipts are append-only, and a slot that is due ends in a terminal state.  The ledger of calls never exceeds the
  daily budget, whatever processes interleave and whichever statements fail, and each call that is sent has a row of
  its own in it; an accepted response is one of the request; a collection returns only complete, hashed and stored
  grids, and with the default raw prefix it resumes without a call; the dictionary it hands over to
  the next task reads back as its batch (how Airflow encodes that dictionary is not modelled).  A deployment returns; its
  result tells what the services run, what is installed and which DAGs are paused, as far as the
  category of the result promises it; services change only while every DAG is paused and only to an overlay of the
  commit or a validated one; on a site that works, a commit is deployed and not deployed twice; the ledger implements
  a map; an accepted overlay mounts one release into exactly the services of the target.

  Interfaces are locales, each interpreted on the model of the code that provides it: the storage, the codec of JSON,
  the library of YAML on an instance by JSON, and the adapters of a deployment, where each call may fail before
  or after its effect.

  Bounds and fuel.  Recursion is structural or has a measure, but for loops that wait: retries follow the finite
  list of delays of the code, and the loop that waits for writers to finish takes fuel, with a proof that one turn per
  poll interval of the timeout and one more are enough.

  Conventions.  Messages of exceptions are shortened to a constant text where nothing reads them.  Finite floats are
  rationals and their rendering is a parameter.  Times that carry a zone are instants, shown in UTC.  Strings
  are lists of bytes; texts that are matched against patterns are ASCII there.  SHA-256 is an arbitrary function, and
  a theorem that needs it not to collide says on which texts.  Services outside of the code (the object service, the
  KMA API, Postgres, YAML, the commands behind the adapters) are parameters with their documented behaviour.

  Not modelled: the publication to Cloudflare D1 and the contract of serving, the landing of the village
  forecast (concurrent, and of the shape of the landing that is modelled), the loading of Iceberg tables (SQL and
  PyIceberg), the execution of dbt, the declarations of the DAGs, telemetry callbacks, HTTP and Discord wrappers,
  the adapters of the deployment that run commands, the statistics of forecast quality (binary floating
  point), and the tools that check the repository.
\<close>

end
